(* ===== verification/Prelude.thy ===== *)
theory Prelude
  imports Main "HOL-Library.Word"
begin

text \<open>
  Shared vocabulary of the development: the machine integer types of the C sources,
  zero-terminated reads, and the generic lemmas on words, lists and counting that the
  component theories use.
\<close>

unbundle bit_operations_syntax

type_synonym u8 = "8 word"
type_synonym u16 = "16 word"
type_synonym u32 = "32 word"
type_synonym u64 = "64 word"

text \<open>
  Collections: \<open>unat_bits\<close> turns the bit operations the sources use on small values into
  arithmetic on naturals; \<open>exec_simps\<close> collects the branch equations of the step functions.
\<close>

named_theorems unat_bits
named_theorems exec_simps

subsection \<open>Reading a zero-terminated buffer\<close>

text \<open>
  \<open>rd xs i\<close> is the C read \<open>xs[i]\<close> of a buffer whose element after the last one is the
  terminator 0. The parsers never look further than the terminator (see the lemmas on
  their pointers); the model returns 0 there too.
\<close>

definition rd :: "'a::zero list \<Rightarrow> nat \<Rightarrow> 'a" where
  "rd xs i = (if i < length xs then xs ! i else 0)"

lemma rd_nth [simp]: "i < length xs \<Longrightarrow> rd xs i = xs ! i"
  by (simp add: rd_def)

lemma rd_out [simp]: "length xs \<le> i \<Longrightarrow> rd xs i = 0"
  by (simp add: rd_def)

lemma rd_append_left [simp]: "i < length xs \<Longrightarrow> rd (xs @ ys) i = xs ! i"
  by (simp add: rd_def nth_append)

lemma rd_append_right [simp]: "rd (xs @ ys) (length xs + i) = rd ys i"
  by (simp add: rd_def nth_append)

lemma rd_neq_0_bound: "rd xs i \<noteq> 0 \<Longrightarrow> i < length xs"
  by (rule ccontr) simp

subsection \<open>Bit operations on words as arithmetic on naturals\<close>

lemma bit_unat_small:
  assumes "unat (x :: 'a::len word) < 2 ^ k" and "k \<le> n"
  shows "\<not> bit x n"
proof -
  have "take_bit k (unat x) = unat x"
    using assms(1) by (rule take_bit_nat_eq_self)
  then have "\<not> bit (unat x) n"
    using assms(2) by (metis bit_take_bit_iff leD)
  then show ?thesis
    by (simp add: bit_unsigned_iff)
qed

lemma word_and_disjoint:
  assumes "unat (x :: 'a::len word) < 2 ^ k" and "take_bit k m = 0"
  shows "x AND m = 0"
proof (rule bit_word_eqI)
  fix n assume "n < LENGTH('a)"
  have "bit m n \<Longrightarrow> k \<le> n"
    using assms(2) by (metis bit_take_bit_iff leI bit_0_eq bot_apply bot_bool_def)
  then show "bit (x AND m) n = bit (0 :: 'a word) n"
    using assms(1) by (auto simp: bit_and_iff dest: bit_unat_small)
qed

text \<open>Setting the marker bits \<open>m\<close> above a value of \<open>k\<close> bits is adding \<open>m\<close>.\<close>

lemma word_or_marker:
  assumes "unat (x :: 'a::len word) < 2 ^ k" and "take_bit k m = 0"
  shows "x OR m = x + m"
  using word_and_disjoint [OF assms] by (simp add: disjunctive_add_eq_or)

lemma unat_drop_bit [unat_bits]: "unat (drop_bit k (x :: 'a::len word)) = unat x div 2 ^ k"
  by (simp add: unat_drop_bit_eq flip: drop_bit_eq_div)

lemma unat_and_mask: "unat (x AND mask k :: 'a::len word) = unat x mod 2 ^ k"
  by (metis take_bit_eq_mask take_bit_eq_mod unsigned_take_bit_eq)

lemma unat_and_63 [unat_bits]: "unat (x AND 63 :: 'a::len word) = unat x mod 64"
  using unat_and_mask [of x 6] by (simp add: mask_eq_exp_minus_1)

lemma unat_ucast_u8 [unat_bits]: "unat (ucast (x :: 'a::len word) :: u8) = unat x mod 256"
  by (simp add: unsigned_ucast_eq take_bit_eq_mod)

lemma u32_le_max: "c \<le> (0xFFFFFFFF :: u32)"
  using unsigned_less [where ?'a = nat, of c] by (simp add: word_le_nat_alt)

subsection \<open>Division by a power of two\<close>

lemma div_eq_range: "0 < k \<Longrightarrow> (n::nat) div k = m \<longleftrightarrow> m * k \<le> n \<and> n < (m + 1) * k"
  by (metis Suc_eq_plus1 div_less_iff_less_mult less_Suc_eq_le less_eq_div_iff_mult_less_eq order_antisym_conv mult.commute order_refl)

lemma mod_marker: "q < k \<Longrightarrow> (m * k + q) mod k = (q::nat)"
  by simp

end
