(* ===== verification/Cutils.thy ===== *)
theory Cutils
  imports Prelude
begin

text \<open>
  The helpers of \<open>libregexp/cutils.h\<close>: little-endian loads and stores into byte arrays
  (the memcpy helpers, on the little-endian hosts the engine is built for), the hash
  finaliser, UTF-16 surrogates, hexadecimal digits and the UTF-8 encoder and decoders.
\<close>

subsection \<open>Integers\<close>

definition max_int :: "int \<Rightarrow> int \<Rightarrow> int" where
  "max_int a b = (if a > b then a else b)"

definition hash32 :: "u32 \<Rightarrow> u32" where
  "hash32 a = a * 0x61c88647"

subsection \<open>Loads and stores\<close>

definition bytes_u16 :: "u16 \<Rightarrow> u8 list" where
  "bytes_u16 v = [ucast v, ucast (drop_bit 8 v)]"

definition bytes_u32 :: "u32 \<Rightarrow> u8 list" where
  "bytes_u32 v = [ucast v, ucast (drop_bit 8 v), ucast (drop_bit 16 v), ucast (drop_bit 24 v)]"

definition get_u16 :: "u8 list \<Rightarrow> nat \<Rightarrow> u32" where
  "get_u16 tab p = ucast (rd tab p) OR push_bit 8 (ucast (rd tab (p + 1)))"

definition get_u32 :: "u8 list \<Rightarrow> nat \<Rightarrow> u32" where
  "get_u32 tab p = ucast (rd tab p) OR push_bit 8 (ucast (rd tab (p + 1)))
     OR push_bit 16 (ucast (rd tab (p + 2))) OR push_bit 24 (ucast (rd tab (p + 3)))"

definition put_bytes :: "u8 list \<Rightarrow> nat \<Rightarrow> u8 list \<Rightarrow> u8 list" where
  "put_bytes tab p bs = take p tab @ bs @ drop (p + length bs) tab"

definition put_u16 :: "u8 list \<Rightarrow> nat \<Rightarrow> u16 \<Rightarrow> u8 list" where
  "put_u16 tab p v = put_bytes tab p (bytes_u16 v)"

definition put_u32 :: "u8 list \<Rightarrow> nat \<Rightarrow> u32 \<Rightarrow> u8 list" where
  "put_u32 tab p v = put_bytes tab p (bytes_u32 v)"

subsection \<open>Surrogates and digits\<close>

definition is_surrogate :: "u32 \<Rightarrow> bool" where
  "is_surrogate c \<longleftrightarrow> drop_bit 11 c = drop_bit 11 0xD800"

definition is_hi_surrogate :: "u32 \<Rightarrow> bool" where
  "is_hi_surrogate c \<longleftrightarrow> drop_bit 10 c = drop_bit 10 0xD800"

definition is_lo_surrogate :: "u32 \<Rightarrow> bool" where
  "is_lo_surrogate c \<longleftrightarrow> drop_bit 10 c = drop_bit 10 0xDC00"

definition get_hi_surrogate :: "u32 \<Rightarrow> u32" where
  "get_hi_surrogate c = drop_bit 10 c - drop_bit 10 0x10000 + 0xD800"

definition get_lo_surrogate :: "u32 \<Rightarrow> u32" where
  "get_lo_surrogate c = (c AND 0x3FF) OR 0xDC00"

definition from_surrogate :: "u32 \<Rightarrow> u32 \<Rightarrow> u32" where
  "from_surrogate hi lo = 65536 + 1024 * (hi AND 1023) + (lo AND 1023)"

text \<open>\<open>from_hex\<close> returns -1 (here \<open>None\<close>) for a byte that is no hexadecimal digit.\<close>

definition from_hex :: "u8 \<Rightarrow> u32 option" where
  "from_hex c =
     (if 0x30 \<le> c \<and> c \<le> 0x39 then Some (ucast c - 0x30)
      else if 0x41 \<le> c \<and> c \<le> 0x46 then Some (ucast c - 0x41 + 10)
      else if 0x61 \<le> c \<and> c \<le> 0x66 then Some (ucast c - 0x61 + 10)
      else None)"

definition is_upper_ascii :: "u8 \<Rightarrow> bool" where
  "is_upper_ascii c \<longleftrightarrow> 0x41 \<le> c \<and> c \<le> 0x5A"

definition to_upper_ascii :: "u8 \<Rightarrow> u8" where
  "to_upper_ascii c = (if 0x61 \<le> c \<and> c \<le> 0x7A then c - 0x61 + 0x41 else c)"

subsection \<open>UTF-8\<close>

definition utf8_encode_len :: "u32 \<Rightarrow> nat" where
  "utf8_encode_len c =
     (if c < 0x80 then 1 else if c < 0x800 then 2 else if c < 0x10000 then 3
      else if c < 0x110000 then 4 else 3)"

definition utf8_encode :: "u32 \<Rightarrow> u8 list" where
  "utf8_encode c =
     (if c < 0x80 then [ucast c]
      else if c < 0x800 then [ucast (drop_bit 6 c OR 0xC0), ucast ((c AND 0x3F) OR 0x80)]
      else if c < 0x10000 then
        [ucast (drop_bit 12 c OR 0xE0), ucast ((drop_bit 6 c AND 0x3F) OR 0x80),
         ucast ((c AND 0x3F) OR 0x80)]
      else if c < 0x110000 then
        [ucast (drop_bit 18 c OR 0xF0), ucast ((drop_bit 12 c AND 0x3F) OR 0x80),
         ucast ((drop_bit 6 c AND 0x3F) OR 0x80), ucast ((c AND 0x3F) OR 0x80)]
      else
        [ucast (drop_bit 12 (0xFFFD :: u32) OR 0xE0),
         ucast ((drop_bit 6 (0xFFFD :: u32) AND 0x3F) OR 0x80),
         ucast (((0xFFFD :: u32) AND 0x3F) OR 0x80)])"

text \<open>
  \<open>utf8_decode buf p\<close> is the code point at offset \<open>p\<close> and the offset after it; an
  encoding error yields 0xFFFD and consumes one byte.
\<close>

definition is_cont :: "u8 \<Rightarrow> bool" where
  "is_cont b \<longleftrightarrow> 0x80 \<le> b \<and> b \<le> 0xBF"

definition utf8_need2 :: "u8 list \<Rightarrow> nat \<Rightarrow> u32 \<Rightarrow> u8 \<Rightarrow> u32 \<times> nat" where
  "utf8_need2 buf p c lower =
     (let b0 = rd buf p; b1 = rd buf (p + 1) in
      if lower \<le> b0 \<and> b0 \<le> 0xBF \<and> is_cont b1
      then (push_bit 12 (c - 0xE0) + push_bit 6 (ucast b0 - 0x80) + (ucast b1 - 0x80), p + 2)
      else (0xFFFD, p))"

definition utf8_need3 :: "u8 list \<Rightarrow> nat \<Rightarrow> u32 \<Rightarrow> u8 \<Rightarrow> u8 \<Rightarrow> u32 \<times> nat" where
  "utf8_need3 buf p c lower upper =
     (let b0 = rd buf p; b1 = rd buf (p + 1); b2 = rd buf (p + 2) in
      if lower \<le> b0 \<and> b0 \<le> upper \<and> is_cont b1 \<and> is_cont b2
      then (push_bit 18 (c - 0xF0) + push_bit 12 (ucast b0 - 0x80)
            + push_bit 6 (ucast b1 - 0x80) + (ucast b2 - 0x80), p + 3)
      else (0xFFFD, p))"

definition utf8_decode :: "u8 list \<Rightarrow> nat \<Rightarrow> u32 \<times> nat" where
  "utf8_decode buf p0 =
     (let c = ucast (rd buf p0) :: u32; p = p0 + 1 in
      if c < 0x80 then (c, p)
      else if 0xC2 \<le> c \<and> c \<le> 0xDF then
        (if is_cont (rd buf p) then (push_bit 6 (c - 0xC0) + (ucast (rd buf p) - 0x80), p + 1)
         else (0xFFFD, p))
      else if c = 0xE0 then utf8_need2 buf p c 0xA0
      else if 0xE1 \<le> c \<and> c \<le> 0xEF then utf8_need2 buf p c 0x80
      else if c = 0xF0 then utf8_need3 buf p c 0x90 0xBF
      else if c = 0xF4 then utf8_need3 buf p c 0x80 0x8F
      else if 0xF1 \<le> c \<and> c \<le> 0xF3 then utf8_need3 buf p c 0x80 0xBF
      else (0xFFFD, p))"

definition utf8_decode_len :: "u8 list \<Rightarrow> nat \<Rightarrow> nat \<Rightarrow> u32 \<times> nat" where
  "utf8_decode_len buf p max_len =
     (if max_len = 0 then (0xFFFD, p)
      else if max_len = 1 \<and> \<not> rd buf p < 0x80 then (0xFFFD, p + 1)
      else if max_len = 2 \<and> \<not> rd buf p < 0xE0 then (0xFFFD, p + 1)
      else if max_len = 3 \<and> \<not> rd buf p < 0xF0 then (0xFFFD, p + 1)
      else utf8_decode buf p)"

subsection \<open>Lemmas\<close>

lemma join_bytes_u32:
  "ucast (ucast v :: u8) OR push_bit 8 (ucast (ucast (drop_bit 8 v) :: u8))
     OR push_bit 16 (ucast (ucast (drop_bit 16 v) :: u8))
     OR push_bit 24 (ucast (ucast (drop_bit 24 v) :: u8)) = (v :: u32)"
proof (rule bit_word_eqI)
  fix n assume "n < LENGTH(32)"
  then consider "n < 8" | "8 \<le> n" "n < 16" | "16 \<le> n" "n < 24" | "24 \<le> n" "n < 32"
    by fastforce
  then show "bit (ucast (ucast v :: u8) OR push_bit 8 (ucast (ucast (drop_bit 8 v) :: u8))
     OR push_bit 16 (ucast (ucast (drop_bit 16 v) :: u8))
     OR push_bit 24 (ucast (ucast (drop_bit 24 v) :: u8)) :: u32) n = bit (v :: u32) n"
    by cases (auto simp add: bit_simps)
qed

lemma join_bytes_u16:
  "ucast (ucast v :: u8) OR push_bit 8 (ucast (ucast (drop_bit 8 v) :: u8)) = (ucast (v :: u16) :: u32)"
proof (rule bit_word_eqI)
  fix n assume "n < LENGTH(32)"
  then consider "n < 8" | "8 \<le> n" "n < 16" | "16 \<le> n" "n < 32"
    by fastforce
  then show "bit (ucast (ucast v :: u8) OR push_bit 8 (ucast (ucast (drop_bit 8 v) :: u8)) :: u32) n
     = bit (ucast (v :: u16) :: u32) n"
    by cases (auto simp add: bit_simps dest: bit_imp_le_length)
qed

lemma length_put_bytes [simp]:
  "p + length bs \<le> length tab \<Longrightarrow> length (put_bytes tab p bs) = length tab"
  by (simp add: put_bytes_def)

lemma rd_put_bytes:
  "p + length bs \<le> length tab \<Longrightarrow>
   rd (put_bytes tab p bs) i = (if p \<le> i \<and> i < p + length bs then bs ! (i - p) else rd tab i)"
  by (auto simp: put_bytes_def rd_def nth_append)

lemma get_put_u32 [simp]: "p + 4 \<le> length tab \<Longrightarrow> get_u32 (put_u32 tab p v) p = v"
  by (simp add: get_u32_def put_u32_def rd_put_bytes bytes_u32_def join_bytes_u32 del: rd_nth)

lemma get_put_u16 [simp]: "p + 2 \<le> length tab \<Longrightarrow> get_u16 (put_u16 tab p v) p = ucast v"
  by (simp add: get_u16_def put_u16_def rd_put_bytes bytes_u16_def join_bytes_u16 del: rd_nth)

lemma unat_u32_u8: "unat (ucast (b :: u8) :: u32) = unat b"
  by (simp add: unsigned_ucast_eq take_bit_nat_eq_self order_less_trans [OF unsigned_less])

lemma is_hi_surrogate_iff: "is_hi_surrogate c \<longleftrightarrow> 0xD800 \<le> c \<and> c < 0xDC00"
  unfolding is_hi_surrogate_def
  by (simp add: word_unat_eq_iff unat_drop_bit word_le_nat_alt word_less_nat_alt div_eq_range)

lemma is_lo_surrogate_iff: "is_lo_surrogate c \<longleftrightarrow> 0xDC00 \<le> c \<and> c < 0xE000"
  unfolding is_lo_surrogate_def
  by (simp add: word_unat_eq_iff unat_drop_bit word_le_nat_alt word_less_nat_alt div_eq_range)

lemma is_surrogate_iff: "is_surrogate c \<longleftrightarrow> 0xD800 \<le> c \<and> c < 0xE000"
  unfolding is_surrogate_def
  by (simp add: word_unat_eq_iff unat_drop_bit word_le_nat_alt word_less_nat_alt div_eq_range)

lemma unat_from_surrogate: "unat (from_surrogate hi lo) = 65536 + 1024 * (unat hi mod 1024) + unat lo mod 1024"
proof -
  have h: "unat (hi AND 1023) = unat hi mod 1024" "unat (lo AND 1023) = unat lo mod 1024"
    using unat_and_mask [of hi 10] unat_and_mask [of lo 10] by (simp_all add: mask_eq_exp_minus_1)
   have "unat hi mod 1024 < 1024" "unat lo mod 1024 < 1024" by simp_all
  then show ?thesis
    by (simp add: from_surrogate_def unat_word_ariths h)
qed

lemma unat_get_hi: "0x10000 \<le> c \<Longrightarrow> c < 0x110000 \<Longrightarrow> unat (get_hi_surrogate c) = 0xD800 + (unat c div 1024 - 64)"
proof -
  assume a: "0x10000 \<le> c" "c < 0x110000"
  then have n: "65536 \<le> unat c" "unat c < 1114112"
    by (simp_all add: word_le_nat_alt word_less_nat_alt)
  then have d: "64 \<le> unat c div 1024" "unat c div 1024 < 1088"
    by (simp_all add: less_eq_div_iff_mult_less_eq div_less_iff_less_mult)
  then show ?thesis
    by (simp add: get_hi_surrogate_def unat_word_ariths unat_drop_bit)
qed

lemma unat_get_lo: "unat (get_lo_surrogate c) = 0xDC00 + unat c mod 1024"
proof -
  have h: "unat (c AND 1023) = unat c mod 1024"
    using unat_and_mask [of c 10] by (simp add: mask_eq_exp_minus_1)
  then have "(c AND 0x3FF) OR 0xDC00 = (c AND 0x3FF) + 0xDC00"
    by (intro word_or_marker [where k = 10]) simp_all
  moreover have "unat c mod 1024 < 1024" by simp
  ultimately show ?thesis
    by (simp add: get_lo_surrogate_def unat_word_ariths h)
qed

lemma from_get_surrogate: "0x10000 \<le> c \<Longrightarrow> c < 0x110000 \<Longrightarrow>
   is_hi_surrogate (get_hi_surrogate c) \<and> is_lo_surrogate (get_lo_surrogate c)
   \<and> from_surrogate (get_hi_surrogate c) (get_lo_surrogate c) = c"
proof -
  assume a: "0x10000 \<le> c" "c < 0x110000"
  then have n: "65536 \<le> unat c" "unat c < 1114112"
    by (simp_all add: word_le_nat_alt word_less_nat_alt)
  then have d: "64 \<le> unat c div 1024" "unat c div 1024 - 64 < 1024"
    by (simp_all add: less_eq_div_iff_mult_less_eq div_less_iff_less_mult less_diff_conv2)
  have m: "unat c mod 1024 < 1024" by simp
  have m1: "(0xD800 + (unat c div 1024 - 64)) mod 1024 = unat c div 1024 - 64"
    using mod_marker [OF d(2), of 54] by simp
  have m2: "(0xDC00 + unat c mod 1024) mod 1024 = unat c mod 1024"
    using mod_marker [OF m, of 55] by simp
  have split: "unat c = 1024 * (unat c div 1024) + unat c mod 1024" by simp
  have hl: "unat (get_hi_surrogate c) = 0xD800 + (unat c div 1024 - 64)"
    "unat (get_lo_surrogate c) = 0xDC00 + unat c mod 1024"
    using a by (simp_all add: unat_get_hi unat_get_lo)
  have "unat (from_surrogate (get_hi_surrogate c) (get_lo_surrogate c)) = unat c"
    using d split by (simp only: unat_from_surrogate hl m1 m2)
  then show ?thesis
    using d m by (simp add: is_hi_surrogate_iff is_lo_surrogate_iff word_le_nat_alt word_less_nat_alt hl word_unat_eq_iff)
qed

lemma lead_byte:
  assumes "unat (x :: u32) < 2 ^ k" and "take_bit k m = 0" and "unat x + unat m < 256"
  shows "unat (ucast (x OR m) :: u8) = unat x + unat m"
    and "ucast (ucast (x OR m) :: u8) - m = x"
proof -
  have o: "x OR m = x + m" by (rule word_or_marker) fact+
  have u: "unat (x + m) = unat x + unat m"
    using assms(3) by (simp add: unat_word_ariths)
  then show 1: "unat (ucast (x OR m) :: u8) = unat x + unat m"
    using assms(3) by (simp add: o unat_ucast_u8)
  have "unat (ucast (ucast (x OR m) :: u8) :: u32) = unat (x + m)"
    by (simp add: unat_u32_u8 1 u)
  then show "ucast (ucast (x OR m) :: u8) - m = x"
    by (simp add: word_unat_eq_iff [symmetric])
qed

lemma join6: "push_bit 6 (drop_bit 6 c) + (c AND 63) = (c :: u32)"
  using bits_ident [of 6 c] by (simp add: take_bit_eq_mask mask_eq_exp_minus_1)

lemma join12: "push_bit 12 (drop_bit 12 c) + push_bit 6 (drop_bit 6 c AND 63) + (c AND 63) = (c :: u32)"
proof -
  have "push_bit 12 (drop_bit 12 c) + push_bit 6 (drop_bit 6 c AND 63)
     = push_bit 6 (push_bit 6 (drop_bit 6 (drop_bit 6 c)) + (drop_bit 6 c AND 63))"
    by (simp only: push_bit_add push_bit_push_bit drop_bit_drop_bit) simp
  then show ?thesis by (simp only: join6)
qed

lemma join18: "push_bit 18 (drop_bit 18 c) + push_bit 12 (drop_bit 12 c AND 63)
   + push_bit 6 (drop_bit 6 c AND 63) + (c AND 63) = (c :: u32)"
proof -
  have "push_bit 18 (drop_bit 18 c) + push_bit 12 (drop_bit 12 c AND 63) + push_bit 6 (drop_bit 6 c AND 63)
     = push_bit 6 (push_bit 12 (drop_bit 12 (drop_bit 6 c)) + push_bit 6 (drop_bit 6 (drop_bit 6 c) AND 63) + (drop_bit 6 c AND 63))"
    by (simp only: push_bit_add push_bit_push_bit drop_bit_drop_bit) simp
  then show ?thesis by (simp only: join12 join6)
qed

lemma cont_byte:
  "is_cont (ucast ((x AND 63) OR 0x80))"
  "unat (ucast ((x AND 63 :: u32) OR 0x80) :: u8) = unat x mod 64 + 0x80"
  "ucast (ucast ((x AND 63) OR 0x80) :: u8) - 0x80 = x AND 63"
proof -
  have l: "unat (x AND 63) < 2 ^ 6" by (simp add: unat_and_63)
  note b = lead_byte [OF l, where m = "0x80", simplified]
  show "is_cont (ucast ((x AND 63) OR 0x80))"
    "unat (ucast ((x AND 63) OR 0x80) :: u8) = unat x mod 64 + 0x80"
    "ucast (ucast ((x AND 63) OR 0x80) :: u8) - 0x80 = x AND 63"
    using l b by (simp_all add: is_cont_def word_le_nat_alt unat_and_63)
qed

lemma utf8_decode_2:
  assumes "unat (rd buf p) = 0xC0 + k" "2 \<le> k" "k < 32" "is_cont (rd buf (p + 1))"
  shows "utf8_decode buf p
    = (push_bit 6 (ucast (rd buf p) - 0xC0) + (ucast (rd buf (p + 1)) - 0x80), p + 2)"
  using assms
  by (simp add: utf8_decode_def Let_def word_le_nat_alt word_less_nat_alt unat_u32_u8 del: rd_nth)

lemma utf8_decode_3:
  assumes "unat (rd buf p) = 0xE0 + k" "k < 16" "is_cont (rd buf (p + 1))" "is_cont (rd buf (p + 2))"
    and "k = 0 \<Longrightarrow> 0xA0 \<le> unat (rd buf (p + 1))"
  shows "utf8_decode buf p
    = (push_bit 12 (ucast (rd buf p) - 0xE0) + push_bit 6 (ucast (rd buf (p + 1)) - 0x80)
       + (ucast (rd buf (p + 2)) - 0x80), p + 3)"
proof (cases "k = 0")
  case True
  then have "ucast (rd buf p) = (0xE0 :: u32)"
    using assms(1) by (simp add: word_unat_eq_iff unat_u32_u8)
  with True assms show ?thesis
    by (simp add: utf8_decode_def utf8_need2_def is_cont_def Let_def word_le_nat_alt word_less_nat_alt unat_u32_u8 del: rd_nth)
next
  case False
  then have "ucast (rd buf p) \<noteq> (0xE0 :: u32)"
    using assms(1) by (simp add: word_unat_eq_iff unat_u32_u8)
  with False assms show ?thesis
    by (simp add: utf8_decode_def utf8_need2_def is_cont_def Let_def word_le_nat_alt word_less_nat_alt unat_u32_u8 del: rd_nth)
qed

lemma utf8_decode_4:
  assumes "unat (rd buf p) = 0xF0 + k" "k \<le> 4" "is_cont (rd buf (p + 1))" "is_cont (rd buf (p + 2))" "is_cont (rd buf (p + 3))"
    and "k = 0 \<Longrightarrow> 0x90 \<le> unat (rd buf (p + 1))" "k = 4 \<Longrightarrow> unat (rd buf (p + 1)) \<le> 0x8F"
  shows "utf8_decode buf p
    = (push_bit 18 (ucast (rd buf p) - 0xF0) + push_bit 12 (ucast (rd buf (p + 1)) - 0x80)
       + push_bit 6 (ucast (rd buf (p + 2)) - 0x80) + (ucast (rd buf (p + 3)) - 0x80), p + 4)"
proof -
  have u: "unat (ucast (rd buf p) :: u32) = 0xF0 + k" using assms(1) by (simp add: unat_u32_u8)
  have e: "ucast (rd buf p) = (0xF0 :: u32) \<longleftrightarrow> k = 0" "ucast (rd buf p) = (0xF4 :: u32) \<longleftrightarrow> k = 4"
    "ucast (rd buf p) \<noteq> (0xE0 :: u32)"
    using u by (simp_all add: word_unat_eq_iff)
  consider "k = 0" | "k = 4" | "0 < k" "k < 4" using assms(2) by linarith
  then show ?thesis
    by cases (use assms e in \<open>simp_all add: utf8_decode_def utf8_need3_def is_cont_def Let_def word_le_nat_alt word_less_nat_alt unat_u32_u8 numeral_3_eq_3 del: rd_nth\<close>)
qed

lemma utf8_decode_encode:
  assumes "c < 0x110000"
  shows "utf8_decode (pre @ utf8_encode c @ rest) (length pre) = (c, length pre + length (utf8_encode c))"
    (is "utf8_decode ?b ?p = _")
proof -
  have n: "unat c < 0x110000" using assms by (simp add: word_less_nat_alt)
  consider (1) "c < 0x80" | (2) "\<not> c < 0x80" "c < 0x800" | (3) "\<not> c < 0x800" "c < 0x10000" | (4) "\<not> c < 0x10000"
    by auto
  then show ?thesis
  proof cases
    case 1
    then have "utf8_encode c = [ucast c]" "ucast (ucast c :: u8) = c"
      by (simp_all add: utf8_encode_def word_unat_eq_iff unat_u32_u8 unat_ucast_u8 word_less_nat_alt)
    then show ?thesis using 1 by (simp add: utf8_decode_def rd_def nth_append Let_def)
  next
    case 2
    then have "128 \<le> unat c" "unat c < 2048" by (simp_all add: word_less_nat_alt)
    then have l: "unat (drop_bit 6 c) < 2 ^ 5" "2 \<le> unat (drop_bit 6 c)"
      by (simp_all add: unat_drop_bit div_less_iff_less_mult less_eq_div_iff_mult_less_eq)
    note b0 = lead_byte [OF l(1), where m = "0xC0", simplified]
    have e: "utf8_encode c = [ucast (drop_bit 6 c OR 0xC0), ucast ((c AND 0x3F) OR 0x80)]"
      using 2 by (simp add: utf8_encode_def)
    have r: "rd ?b ?p = ucast (drop_bit 6 c OR 0xC0)" "rd ?b (?p + 1) = ucast ((c AND 0x3F) OR 0x80)"
      by (simp_all add: e rd_def nth_append)
    show ?thesis
      by (subst utf8_decode_2 [where k = "unat (drop_bit 6 c)"])
        (use l b0 in \<open>simp_all only: r cont_byte join6, simp_all add: e join6\<close>)
  next
    case 3
    then have n3: "2048 \<le> unat c" "unat c < 65536" by (simp_all add: word_less_nat_alt)
    then have l: "unat (drop_bit 12 c) < 2 ^ 4"
      by (simp_all add: unat_drop_bit div_less_iff_less_mult)
    then have b0: "unat (ucast (drop_bit 12 c OR 0xE0) :: u8) = unat (drop_bit 12 c) + 0xE0"
      "ucast (ucast (drop_bit 12 c OR 0xE0) :: u8) - 0xE0 = drop_bit 12 c"
      by (simp_all add: lead_byte [of _ 4])
    have e: "utf8_encode c = [ucast (drop_bit 12 c OR 0xE0), ucast ((drop_bit 6 c AND 0x3F) OR 0x80),
       ucast ((c AND 0x3F) OR 0x80)]"
      using 3 by (auto simp add: utf8_encode_def word_less_nat_alt)
    have r: "rd ?b ?p = ucast (drop_bit 12 c OR 0xE0)" "rd ?b (?p + 1) = ucast ((drop_bit 6 c AND 0x3F) OR 0x80)"
      "rd ?b (?p + 2) = ucast ((c AND 0x3F) OR 0x80)"
      by (simp_all add: e rd_def nth_append)
    have low: "0xA0 \<le> unat (drop_bit 6 c) mod 64 + 0x80" if "unat (drop_bit 12 c) = 0"
    proof -
      have "unat c < 4096" using that by (simp add: unat_drop_bit div_eq_0_iff)
      then have "unat (drop_bit 6 c) < 64" "32 \<le> unat (drop_bit 6 c)"
        using n3 by (simp_all add: unat_drop_bit div_less_iff_less_mult less_eq_div_iff_mult_less_eq)
      then show ?thesis by simp
    qed
    show ?thesis
      by (subst utf8_decode_3 [where k = "unat (drop_bit 12 c)"])
        (use l b0 low in \<open>simp_all only: r cont_byte b0 join12, simp_all add: e\<close>)
  next
    case 4
    then have n4: "65536 \<le> unat c" "unat c < 1114112"
      using n by (simp_all add: word_less_nat_alt)
    then have l: "unat (drop_bit 18 c) < 2 ^ 3" "unat (drop_bit 18 c) \<le> 4"
      by (simp_all add: unat_drop_bit div_less_iff_less_mult less_Suc_eq_le [symmetric])
    then have b0: "unat (ucast (drop_bit 18 c OR 0xF0) :: u8) = unat (drop_bit 18 c) + 0xF0"
      "ucast (ucast (drop_bit 18 c OR 0xF0) :: u8) - 0xF0 = drop_bit 18 c"
      by (simp_all add: lead_byte [of _ 3])
    have e: "utf8_encode c = [ucast (drop_bit 18 c OR 0xF0), ucast ((drop_bit 12 c AND 0x3F) OR 0x80),
       ucast ((drop_bit 6 c AND 0x3F) OR 0x80), ucast ((c AND 0x3F) OR 0x80)]"
      using 4 assms by (auto simp add: utf8_encode_def word_less_nat_alt)
    have r: "rd ?b ?p = ucast (drop_bit 18 c OR 0xF0)" "rd ?b (?p + 1) = ucast ((drop_bit 12 c AND 0x3F) OR 0x80)"
      "rd ?b (?p + 2) = ucast ((drop_bit 6 c AND 0x3F) OR 0x80)" "rd ?b (?p + 3) = ucast ((c AND 0x3F) OR 0x80)"
      by (simp_all add: e rd_def nth_append)
    have low: "0x90 \<le> unat (drop_bit 12 c) mod 64 + 0x80" if "unat (drop_bit 18 c) = 0"
    proof -
      have "unat c < 262144" using that by (simp add: unat_drop_bit div_eq_0_iff)
      then have "unat (drop_bit 12 c) < 64" "16 \<le> unat (drop_bit 12 c)"
        using n4 by (simp_all add: unat_drop_bit div_less_iff_less_mult less_eq_div_iff_mult_less_eq)
      then show ?thesis by simp
    qed
    have high: "unat (drop_bit 12 c) mod 64 + 0x80 \<le> 0x8F" if "unat (drop_bit 18 c) = 4"
    proof -
      have "unat (drop_bit 12 c) < 272" using n4 by (simp add: unat_drop_bit div_less_iff_less_mult)
      moreover have "unat (drop_bit 12 c) div 64 = 4"
        using that by (simp add: unat_drop_bit div_mult2_eq [symmetric])
      ultimately show ?thesis using div_mult_mod_eq [of "unat (drop_bit 12 c)" 64] by linarith
    qed
    show ?thesis
      by (subst utf8_decode_4 [where k = "unat (drop_bit 18 c)"])
        (use l b0 low high in \<open>simp_all only: r cont_byte b0 join18, simp_all add: e\<close>)
  qed
qed

end
