(* ===== verification/DynBuf.thy ===== *)
theory DynBuf
  imports Cutils
begin

text \<open>
  The growable byte buffer of \<open>libregexp/cutils.h\<close> (\<open>DynBuf\<close>, \<open>dbuf_claim\<close>, \<open>dbuf_put\<close>,
  \<open>dbuf_putc\<close>, \<open>dbuf_put_u16\<close>, \<open>dbuf_put_u32\<close>) and \<open>dbuf_insert\<close> of
  \<open>libregexp/libregexp.c\<close>. The reallocation function is a field of the buffer, as in the C
  struct; the model keeps of it whether it returns a block for a given size. A C call
  that returns 0 or -1 is a pair of that code and the new buffer. Sizes are naturals:
  the wrap-around test of \<open>dbuf_claim\<close> is written out and is never true of them.
\<close>

subsection \<open>The buffer\<close>

type_synonym realloc_func = "nat \<Rightarrow> bool"

record dyn_buf =
  db_buf :: "u8 list"
  db_allocated :: nat
  db_error :: bool
  db_realloc :: realloc_func

abbreviation db_size :: "dyn_buf \<Rightarrow> nat" where
  "db_size s \<equiv> length (db_buf s)"

definition dbuf_init2 :: "realloc_func \<Rightarrow> dyn_buf" where
  "dbuf_init2 ra = \<lparr>db_buf = [], db_allocated = 0, db_error = False, db_realloc = ra\<rparr>"

definition dbuf_claim :: "dyn_buf \<Rightarrow> nat \<Rightarrow> int \<times> dyn_buf" where
  "dbuf_claim s len =
     (let new_size = db_size s + len in
      if new_size < len then (-1, s)
      else if new_size > db_allocated s then
        (if db_error s then (-1, s)
         else
           let size = db_allocated s + db_allocated s div 2;
               new_allocated_size =
                 (if size < new_size \<or> size < db_allocated s then new_size else size)
           in if db_realloc s new_allocated_size
              then (0, s\<lparr>db_allocated := new_allocated_size\<rparr>)
              else (-1, s\<lparr>db_error := True\<rparr>))
      else (0, s))"

definition dbuf_put :: "dyn_buf \<Rightarrow> u8 list \<Rightarrow> int \<times> dyn_buf" where
  "dbuf_put s data =
     (let len = length data;
          (ret, s1) = (if db_size s + len > db_allocated s then dbuf_claim s len else (0, s))
      in if ret \<noteq> 0 then (-1, s1)
         else (0, if len > 0 then s1\<lparr>db_buf := db_buf s1 @ data\<rparr> else s1))"

definition dbuf_putc :: "dyn_buf \<Rightarrow> u8 \<Rightarrow> int \<times> dyn_buf" where
  "dbuf_putc s val =
     (if db_allocated s - db_size s < 1 then dbuf_put s [val]
      else (0, s\<lparr>db_buf := db_buf s @ [val]\<rparr>))"

definition dbuf_put_u16 :: "dyn_buf \<Rightarrow> u16 \<Rightarrow> int \<times> dyn_buf" where
  "dbuf_put_u16 s val =
     (if db_allocated s - db_size s < 2 then dbuf_put s (bytes_u16 val)
      else (0, s\<lparr>db_buf := db_buf s @ bytes_u16 val\<rparr>))"

definition dbuf_put_u32 :: "dyn_buf \<Rightarrow> u32 \<Rightarrow> int \<times> dyn_buf" where
  "dbuf_put_u32 s val =
     (if db_allocated s - db_size s < 4 then dbuf_put s (bytes_u32 val)
      else (0, s\<lparr>db_buf := db_buf s @ bytes_u32 val\<rparr>))"

text \<open>
  \<open>dbuf_insert\<close> opens a gap of \<open>len\<close> bytes at \<open>pos\<close>. The memmove leaves the bytes that were
  there in the gap (0 stands for the ones past the old end); every caller overwrites them.
\<close>

definition dbuf_insert :: "dyn_buf \<Rightarrow> nat \<Rightarrow> nat \<Rightarrow> int \<times> dyn_buf" where
  "dbuf_insert s pos len =
     (let (ret, s1) = dbuf_claim s len in
      if ret \<noteq> 0 then (-1, s1)
      else (0, s1\<lparr>db_buf := take pos (db_buf s1)
                    @ take len (drop pos (db_buf s1) @ replicate len 0)
                    @ drop pos (db_buf s1)\<rparr>))"

subsection \<open>The contract of an append-only sink with a sticky error\<close>

text \<open>
  The compiler appends many pieces and tests the error flag once, at the end. What makes
  that sound is the contract below: a put that leaves no error has appended its bytes, and
  the flag never goes back.
\<close>

locale byte_sink =
  fixes put :: "'s \<Rightarrow> u8 list \<Rightarrow> 's"
    and contents :: "'s \<Rightarrow> u8 list"
    and failed :: "'s \<Rightarrow> bool"
  assumes put_contents: "\<not> failed (put s d) \<Longrightarrow> contents (put s d) = contents s @ d"
    and failed_sticky: "failed s \<Longrightarrow> failed (put s d)"
begin

lemma foldl_failed: "failed s \<Longrightarrow> failed (foldl put s ds)"
  by (induction ds arbitrary: s) (auto intro: failed_sticky)

lemma foldl_contents:
  "\<not> failed (foldl put s ds) \<Longrightarrow> contents (foldl put s ds) = contents s @ concat ds"
proof (induction ds arbitrary: s)
  case (Cons d ds)
  then have "\<not> failed (put s d)" by (auto dest: foldl_failed)
  with Cons show ?case by (simp add: put_contents)
qed simp

end

subsection \<open>The buffer keeps the contract\<close>

definition db_wf :: "dyn_buf \<Rightarrow> bool" where
  "db_wf s \<longleftrightarrow> db_size s \<le> db_allocated s"

lemma dbuf_claim_cases:
  obtains (fits) "dbuf_claim s len = (0, s)" "db_size s + len \<le> db_allocated s"
  | (grown) n where "dbuf_claim s len = (0, s\<lparr>db_allocated := n\<rparr>)" "db_size s + len \<le> n"
      "db_realloc s n" "db_allocated s < db_size s + len" "\<not> db_error s"
  | (failed) "dbuf_claim s len = (-1, s\<lparr>db_error := True\<rparr>)"
proof (cases "db_size s + len \<le> db_allocated s")
  case True
  then show ?thesis by (intro fits) (simp_all add: dbuf_claim_def)
next
  case False
  define size where "size = db_allocated s + db_allocated s div 2"
  define n where "n = (if size < db_size s + len \<or> size < db_allocated s
    then db_size s + len else size)"
  have eq: "dbuf_claim s len =
      (if db_error s then (-1, s)
       else if db_realloc s n then (0, s\<lparr>db_allocated := n\<rparr>) else (-1, s\<lparr>db_error := True\<rparr>))"
    using False by (simp add: dbuf_claim_def Let_def n_def size_def)
  show ?thesis
  proof (cases "\<not> db_error s \<and> db_realloc s n")
    case True
    then show ?thesis
      using False eq by (intro grown [of n]) (auto simp: n_def)
  next
    case err: False
    then have "dbuf_claim s len = (-1, s\<lparr>db_error := True\<rparr>)"
      using eq by (cases "db_error s") auto
    then show ?thesis by (rule failed)
  qed
qed

lemma dbuf_put_cases:
  obtains (ok) n where "dbuf_put s d = (0, s\<lparr>db_allocated := n, db_buf := db_buf s @ d\<rparr>)"
      "db_size s + length d \<le> n"
  | (failed) "dbuf_put s d = (-1, s\<lparr>db_error := True\<rparr>)"
proof (cases "db_size s + length d \<le> db_allocated s")
  case True
  then show ?thesis by (intro ok [of "db_allocated s"]) (auto simp: dbuf_put_def)
next
  case False
  show ?thesis
    by (rule dbuf_claim_cases [of s "length d"])
      (use False in \<open>auto simp: dbuf_put_def split: if_splits intro: ok failed\<close>)
qed

lemma dbuf_putc_eq: "db_wf s \<Longrightarrow> dbuf_putc s v = dbuf_put s [v]"
  by (auto simp: dbuf_putc_def dbuf_put_def db_wf_def)

lemma dbuf_put_u16_eq: "db_wf s \<Longrightarrow> dbuf_put_u16 s v = dbuf_put s (bytes_u16 v)"
  by (auto simp: dbuf_put_u16_def dbuf_put_def db_wf_def bytes_u16_def)

lemma dbuf_put_u32_eq: "db_wf s \<Longrightarrow> dbuf_put_u32 s v = dbuf_put s (bytes_u32 v)"
  by (auto simp: dbuf_put_u32_def dbuf_put_def db_wf_def bytes_u32_def)

lemma dbuf_put_wf: "db_wf s \<Longrightarrow> db_wf (snd (dbuf_put s d))"
  by (rule dbuf_put_cases [of s d]) (auto simp: db_wf_def)

lemma dbuf_insert_cases:
  obtains (ok) n where "dbuf_insert s pos len = (0, s\<lparr>db_allocated := n,
      db_buf := take pos (db_buf s) @ take len (drop pos (db_buf s) @ replicate len 0)
        @ drop pos (db_buf s)\<rparr>)" "db_size s + len \<le> n"
  | (failed) "dbuf_insert s pos len = (-1, s\<lparr>db_error := True\<rparr>)"
proof (rule dbuf_claim_cases [of s len])
  assume "dbuf_claim s len = (0, s)" "db_size s + len \<le> db_allocated s"
  then show ?thesis by (intro ok [of "db_allocated s"]) (auto simp: dbuf_insert_def)
qed (auto simp: dbuf_insert_def intro: ok failed)

lemma dbuf_insert_wf:
  "db_wf s \<Longrightarrow> pos \<le> db_size s \<Longrightarrow> db_wf (snd (dbuf_insert s pos len))"
  by (rule dbuf_insert_cases [of s pos len]) (auto simp: db_wf_def)

text \<open>The block never outgrows what the allocator ever grants.\<close>

definition db_bounded :: "nat \<Rightarrow> dyn_buf \<Rightarrow> bool" where
  "db_bounded b s \<longleftrightarrow> db_allocated s \<le> b \<and> (\<forall>n. db_realloc s n \<longrightarrow> n \<le> b)"

lemma dbuf_claim_bounded: "db_bounded b s \<Longrightarrow> db_bounded b (snd (dbuf_claim s len))"
  by (rule dbuf_claim_cases [of s len]) (auto simp: db_bounded_def)

lemma db_bounded_buf [simp]: "db_bounded b (s\<lparr>db_buf := x\<rparr>) = db_bounded b s"
  by (simp add: db_bounded_def)

lemma dbuf_put_bounded: "db_bounded b s \<Longrightarrow> db_bounded b (snd (dbuf_put s d))"
  using dbuf_claim_bounded [of b s "length d"]
  by (auto simp: dbuf_put_def Let_def split: prod.splits)

lemma dbuf_put_size: "db_size s \<le> db_size (snd (dbuf_put s d))"
  by (rule dbuf_put_cases [of s d]) auto

lemma dbuf_insert_bounded: "db_bounded b s \<Longrightarrow> db_bounded b (snd (dbuf_insert s pos len))"
  using dbuf_claim_bounded [of b s len] by (auto simp: dbuf_insert_def Let_def split: prod.splits)

interpretation dbs: byte_sink "\<lambda>s d. snd (dbuf_put s d)" db_buf db_error
proof
  show "\<not> db_error (snd (dbuf_put s d)) \<Longrightarrow> db_buf (snd (dbuf_put s d)) = db_buf s @ d" for s d
    by (rule dbuf_put_cases [of s d]) auto
  show "db_error s \<Longrightarrow> db_error (snd (dbuf_put s d))" for s d
    by (rule dbuf_put_cases [of s d]) auto
qed

end
