(* ===== verification/RegexpBytecode.thy ===== *)
theory RegexpBytecode
  imports DynBuf
begin

text \<open>
  The bytecode of compiled regular expressions: the opcodes and their sizes
  (\<open>libregexp/libregexp-opcode.h\<close>), the 8 byte header and its accessors, the linear pass
  that numbers the registers (\<open>compute_register_count\<close>) and the pass that looks for atoms
  that always advance (\<open>re_need_check_adv_and_capture_init\<close>), all of
  \<open>libregexp/libregexp.c\<close>. A failed assertion or a read past the buffer is \<open>None\<close>.
\<close>

subsection \<open>Opcodes\<close>

datatype reop =
    REOP_invalid
  | REOP_char
  | REOP_char_i
  | REOP_char32
  | REOP_char32_i
  | REOP_dot
  | REOP_any
  | REOP_space
  | REOP_not_space
  | REOP_line_start
  | REOP_line_start_m
  | REOP_line_end
  | REOP_line_end_m
  | REOP_goto
  | REOP_split_goto_first
  | REOP_split_next_first
  | REOP_match
  | REOP_lookahead_match
  | REOP_negative_lookahead_match
  | REOP_save_start
  | REOP_save_end
  | REOP_save_reset
  | REOP_loop
  | REOP_loop_split_goto_first
  | REOP_loop_split_next_first
  | REOP_loop_check_adv_split_goto_first
  | REOP_loop_check_adv_split_next_first
  | REOP_set_i32
  | REOP_word_boundary
  | REOP_word_boundary_i
  | REOP_not_word_boundary
  | REOP_not_word_boundary_i
  | REOP_back_reference
  | REOP_back_reference_i
  | REOP_backward_back_reference
  | REOP_backward_back_reference_i
  | REOP_range
  | REOP_range_i
  | REOP_range32
  | REOP_range32_i
  | REOP_lookahead
  | REOP_negative_lookahead
  | REOP_set_char_pos
  | REOP_check_advance
  | REOP_prev

text \<open>The enumeration order is the byte code of an opcode.\<close>

definition reop_list :: "reop list" where
  "reop_list = [REOP_invalid, REOP_char, REOP_char_i, REOP_char32, REOP_char32_i, REOP_dot, REOP_any,
     REOP_space, REOP_not_space, REOP_line_start, REOP_line_start_m, REOP_line_end,
     REOP_line_end_m, REOP_goto, REOP_split_goto_first, REOP_split_next_first, REOP_match,
     REOP_lookahead_match, REOP_negative_lookahead_match, REOP_save_start, REOP_save_end,
     REOP_save_reset, REOP_loop, REOP_loop_split_goto_first, REOP_loop_split_next_first,
     REOP_loop_check_adv_split_goto_first, REOP_loop_check_adv_split_next_first,
     REOP_set_i32, REOP_word_boundary, REOP_word_boundary_i, REOP_not_word_boundary,
     REOP_not_word_boundary_i, REOP_back_reference, REOP_back_reference_i,
     REOP_backward_back_reference, REOP_backward_back_reference_i, REOP_range, REOP_range_i,
     REOP_range32, REOP_range32_i, REOP_lookahead, REOP_negative_lookahead,
     REOP_set_char_pos, REOP_check_advance, REOP_prev]"

primrec reop_size :: "reop \<Rightarrow> nat" where
  "reop_size REOP_invalid = 1"
| "reop_size REOP_char = 3"
| "reop_size REOP_char_i = 3"
| "reop_size REOP_char32 = 5"
| "reop_size REOP_char32_i = 5"
| "reop_size REOP_dot = 1"
| "reop_size REOP_any = 1"
| "reop_size REOP_space = 1"
| "reop_size REOP_not_space = 1"
| "reop_size REOP_line_start = 1"
| "reop_size REOP_line_start_m = 1"
| "reop_size REOP_line_end = 1"
| "reop_size REOP_line_end_m = 1"
| "reop_size REOP_goto = 5"
| "reop_size REOP_split_goto_first = 5"
| "reop_size REOP_split_next_first = 5"
| "reop_size REOP_match = 1"
| "reop_size REOP_lookahead_match = 1"
| "reop_size REOP_negative_lookahead_match = 1"
| "reop_size REOP_save_start = 2"
| "reop_size REOP_save_end = 2"
| "reop_size REOP_save_reset = 3"
| "reop_size REOP_loop = 6"
| "reop_size REOP_loop_split_goto_first = 10"
| "reop_size REOP_loop_split_next_first = 10"
| "reop_size REOP_loop_check_adv_split_goto_first = 10"
| "reop_size REOP_loop_check_adv_split_next_first = 10"
| "reop_size REOP_set_i32 = 6"
| "reop_size REOP_word_boundary = 1"
| "reop_size REOP_word_boundary_i = 1"
| "reop_size REOP_not_word_boundary = 1"
| "reop_size REOP_not_word_boundary_i = 1"
| "reop_size REOP_back_reference = 2"
| "reop_size REOP_back_reference_i = 2"
| "reop_size REOP_backward_back_reference = 2"
| "reop_size REOP_backward_back_reference_i = 2"
| "reop_size REOP_range = 3"
| "reop_size REOP_range_i = 3"
| "reop_size REOP_range32 = 3"
| "reop_size REOP_range32_i = 3"
| "reop_size REOP_lookahead = 5"
| "reop_size REOP_negative_lookahead = 5"
| "reop_size REOP_set_char_pos = 2"
| "reop_size REOP_check_advance = 2"
| "reop_size REOP_prev = 1"

primrec reop_code :: "reop \<Rightarrow> u8" where
  "reop_code REOP_invalid = 0"
| "reop_code REOP_char = 1"
| "reop_code REOP_char_i = 2"
| "reop_code REOP_char32 = 3"
| "reop_code REOP_char32_i = 4"
| "reop_code REOP_dot = 5"
| "reop_code REOP_any = 6"
| "reop_code REOP_space = 7"
| "reop_code REOP_not_space = 8"
| "reop_code REOP_line_start = 9"
| "reop_code REOP_line_start_m = 10"
| "reop_code REOP_line_end = 11"
| "reop_code REOP_line_end_m = 12"
| "reop_code REOP_goto = 13"
| "reop_code REOP_split_goto_first = 14"
| "reop_code REOP_split_next_first = 15"
| "reop_code REOP_match = 16"
| "reop_code REOP_lookahead_match = 17"
| "reop_code REOP_negative_lookahead_match = 18"
| "reop_code REOP_save_start = 19"
| "reop_code REOP_save_end = 20"
| "reop_code REOP_save_reset = 21"
| "reop_code REOP_loop = 22"
| "reop_code REOP_loop_split_goto_first = 23"
| "reop_code REOP_loop_split_next_first = 24"
| "reop_code REOP_loop_check_adv_split_goto_first = 25"
| "reop_code REOP_loop_check_adv_split_next_first = 26"
| "reop_code REOP_set_i32 = 27"
| "reop_code REOP_word_boundary = 28"
| "reop_code REOP_word_boundary_i = 29"
| "reop_code REOP_not_word_boundary = 30"
| "reop_code REOP_not_word_boundary_i = 31"
| "reop_code REOP_back_reference = 32"
| "reop_code REOP_back_reference_i = 33"
| "reop_code REOP_backward_back_reference = 34"
| "reop_code REOP_backward_back_reference_i = 35"
| "reop_code REOP_range = 36"
| "reop_code REOP_range_i = 37"
| "reop_code REOP_range32 = 38"
| "reop_code REOP_range32_i = 39"
| "reop_code REOP_lookahead = 40"
| "reop_code REOP_negative_lookahead = 41"
| "reop_code REOP_set_char_pos = 42"
| "reop_code REOP_check_advance = 43"
| "reop_code REOP_prev = 44"

definition reop_decode :: "u8 \<Rightarrow> reop option" where
  "reop_decode b = (if unat b < length reop_list then Some (reop_list ! unat b) else None)"

lemma reop_decode_code [simp]: "reop_decode (reop_code op) = Some op"
  by (cases op) (simp_all add: reop_decode_def reop_list_def)

lemma reop_decode_SomeD: "reop_decode b = Some op \<Longrightarrow> reop_code op = b"
proof -
  assume "reop_decode b = Some op"
  then have b: "unat b < length reop_list" "op = reop_list ! unat b"
    by (auto simp: reop_decode_def split: if_splits)
  have "map (\<lambda>op. unat (reop_code op)) reop_list = [0..<length reop_list]"
    by code_simp
  from arg_cong [OF this, of "\<lambda>l. l ! unat b"]
  have "unat (reop_code op) = unat b" using b by simp
  then show ?thesis by (simp add: word_unat_eq_iff)
qed

lemma reop_size_pos [simp]: "0 < reop_size op"
  by (cases op) simp_all

subsection \<open>The header\<close>

abbreviation (input) "RE_HEADER_FLAGS \<equiv> (0 :: nat)"
abbreviation (input) "RE_HEADER_CAPTURE_COUNT \<equiv> (2 :: nat)"
abbreviation (input) "RE_HEADER_REGISTER_COUNT \<equiv> (3 :: nat)"
abbreviation (input) "RE_HEADER_BYTECODE_LEN \<equiv> (4 :: nat)"
abbreviation (input) "RE_HEADER_LEN \<equiv> (8 :: nat)"
abbreviation (input) "CAPTURE_COUNT_MAX \<equiv> (255 :: nat)"
abbreviation (input) "REGISTER_COUNT_MAX \<equiv> (255 :: nat)"

abbreviation (input) "LRE_FLAG_GLOBAL \<equiv> (1 :: u32)"
abbreviation (input) "LRE_FLAG_IGNORECASE \<equiv> (2 :: u32)"
abbreviation (input) "LRE_FLAG_MULTILINE \<equiv> (4 :: u32)"
abbreviation (input) "LRE_FLAG_DOTALL \<equiv> (8 :: u32)"
abbreviation (input) "LRE_FLAG_UNICODE \<equiv> (16 :: u32)"
abbreviation (input) "LRE_FLAG_STICKY \<equiv> (32 :: u32)"
abbreviation (input) "LRE_FLAG_INDICES \<equiv> (64 :: u32)"
abbreviation (input) "LRE_FLAG_NAMED_GROUPS \<equiv> (128 :: u32)"
abbreviation (input) "LRE_FLAG_UNICODE_SETS \<equiv> (256 :: u32)"

abbreviation (input) "LRE_RET_MEMORY_ERROR \<equiv> (- 1 :: int)"
abbreviation (input) "LRE_RET_TIMEOUT \<equiv> (- 2 :: int)"
abbreviation (input) "LRE_RET_BYTECODE_ERROR \<equiv> (- 3 :: int)"

definition lre_get_flags :: "u8 list \<Rightarrow> u32" where
  "lre_get_flags bc = get_u16 bc RE_HEADER_FLAGS"

definition lre_get_capture_count :: "u8 list \<Rightarrow> nat" where
  "lre_get_capture_count bc = unat (bc ! RE_HEADER_CAPTURE_COUNT)"

definition lre_get_alloc_count :: "u8 list \<Rightarrow> nat" where
  "lre_get_alloc_count bc =
     unat (bc ! RE_HEADER_CAPTURE_COUNT) * 2 + unat (bc ! RE_HEADER_REGISTER_COUNT)"

text \<open>\<open>bc_buf_len\<close> is the length of the list; the test in the code is in 32-bit arithmetic.\<close>

definition lre_check_bytecode :: "u8 list \<Rightarrow> int" where
  "lre_check_bytecode bc =
     (if length bc < RE_HEADER_LEN then -1
      else let re_bytecode_len = get_u32 bc RE_HEADER_BYTECODE_LEN in
           if re_bytecode_len > of_nat (length bc - RE_HEADER_LEN) then -1 else 0)"

text \<open>The offset of the group names, when the pattern has any.\<close>

definition lre_get_groupnames :: "u8 list \<Rightarrow> nat option" where
  "lre_get_groupnames bc =
     (if lre_get_flags bc AND LRE_FLAG_NAMED_GROUPS = 0 then None
      else Some (RE_HEADER_LEN + unat (get_u32 bc RE_HEADER_BYTECODE_LEN)))"

subsection \<open>Bounded reads of the bytecode\<close>

definition bc8 :: "u8 list \<Rightarrow> nat \<Rightarrow> u8 option" where
  "bc8 bc i = (if i < length bc then Some (bc ! i) else None)"

definition bc16 :: "u8 list \<Rightarrow> nat \<Rightarrow> u32 option" where
  "bc16 bc i = (if i + 2 \<le> length bc then Some (get_u16 bc i) else None)"

definition bc32 :: "u8 list \<Rightarrow> nat \<Rightarrow> u32 option" where
  "bc32 bc i = (if i + 4 \<le> length bc then Some (get_u32 bc i) else None)"

text \<open>
  The length of the instruction at \<open>pos\<close>: the table's size plus the variable part, as every
  pass over the bytecode computes it.
\<close>

definition reop_len :: "u8 list \<Rightarrow> nat \<Rightarrow> reop \<Rightarrow> nat option" where
  "reop_len bc pos op =
     (case op of
        REOP_range \<Rightarrow> map_option (\<lambda>v. reop_size op + unat v * 4) (bc16 bc (pos + 1))
      | REOP_range_i \<Rightarrow> map_option (\<lambda>v. reop_size op + unat v * 4) (bc16 bc (pos + 1))
      | REOP_range32 \<Rightarrow> map_option (\<lambda>v. reop_size op + unat v * 8) (bc16 bc (pos + 1))
      | REOP_range32_i \<Rightarrow> map_option (\<lambda>v. reop_size op + unat v * 8) (bc16 bc (pos + 1))
      | REOP_back_reference \<Rightarrow> map_option (\<lambda>v. reop_size op + unat v) (bc8 bc (pos + 1))
      | REOP_back_reference_i \<Rightarrow> map_option (\<lambda>v. reop_size op + unat v) (bc8 bc (pos + 1))
      | REOP_backward_back_reference \<Rightarrow>
          map_option (\<lambda>v. reop_size op + unat v) (bc8 bc (pos + 1))
      | REOP_backward_back_reference_i \<Rightarrow>
          map_option (\<lambda>v. reop_size op + unat v) (bc8 bc (pos + 1))
      | _ \<Rightarrow> Some (reop_size op))"

lemma reop_len_pos: "reop_len bc pos op = Some n \<Longrightarrow> 0 < n"
  by (cases op) (auto simp: reop_len_def)

subsection \<open>Numbering the registers\<close>

text \<open>
  \<open>bc\<close> is the whole buffer, \<open>pos\<close> counts from its start. The pass pushes a register at every
  \<open>set_i32\<close> and \<open>set_char_pos\<close> and pops it at the instruction that ends its loop; it writes
  the register number into the instruction.
\<close>

definition register_effect :: "reop \<Rightarrow> int" where
  "register_effect op =
     (case op of
        REOP_set_i32 \<Rightarrow> 1 | REOP_set_char_pos \<Rightarrow> 1
      | REOP_check_advance \<Rightarrow> -1 | REOP_loop \<Rightarrow> -1
      | REOP_loop_split_goto_first \<Rightarrow> -1 | REOP_loop_split_next_first \<Rightarrow> -1
      | REOP_loop_check_adv_split_goto_first \<Rightarrow> -2
      | REOP_loop_check_adv_split_next_first \<Rightarrow> -2
      | _ \<Rightarrow> 0)"

function register_loop :: "u8 list \<Rightarrow> nat \<Rightarrow> nat \<Rightarrow> nat \<Rightarrow> (int \<times> u8 list) option" where
  "register_loop bc pos stack_size stack_size_max =
     (if pos < length bc then
        case reop_decode (bc ! pos) of
          None \<Rightarrow> None
        | Some op \<Rightarrow>
            if pos + reop_size op > length bc then None
            else case reop_len bc pos op of
              None \<Rightarrow> None
            | Some len \<Rightarrow>
                let e = register_effect op in
                if e = 1 then
                  let bc' = bc[pos + 1 := of_nat stack_size];
                      stack_size' = stack_size + 1
                  in if stack_size' > stack_size_max then
                       if stack_size' > REGISTER_COUNT_MAX then Some (-1, bc')
                       else register_loop bc' (pos + len) stack_size' stack_size'
                     else register_loop bc' (pos + len) stack_size' stack_size_max
                else if e < 0 then
                  if int stack_size + e < 0 then None
                  else let stack_size' = nat (int stack_size + e) in
                       register_loop (bc[pos + 1 := of_nat stack_size']) (pos + len)
                         stack_size' stack_size_max
                else register_loop bc (pos + len) stack_size stack_size_max
      else Some (int stack_size_max, bc))"
  by pat_completeness auto
termination
  by (relation "measure (\<lambda>(bc, pos, n, m). length bc - pos)")
    (auto dest!: reop_len_pos simp: diff_less_mono2)

declare register_loop.simps [simp del]

definition compute_register_count :: "u8 list \<Rightarrow> (int \<times> u8 list) option" where
  "compute_register_count bc = register_loop bc RE_HEADER_LEN 0 0"

subsection \<open>Atoms that always advance\<close>

text \<open>
  \<open>bc\<close> is the code of one atom. The result is the pair of \<open>need_check_adv\<close> and
  \<open>need_capture_init\<close>.
\<close>

definition reop_advances :: "reop \<Rightarrow> bool" where
  "reop_advances op \<longleftrightarrow> op \<in> {REOP_range, REOP_range_i, REOP_range32, REOP_range32_i, REOP_char,
     REOP_char_i, REOP_char32, REOP_char32_i, REOP_dot, REOP_any, REOP_space, REOP_not_space}"

definition reop_neutral :: "reop \<Rightarrow> bool" where
  "reop_neutral op \<longleftrightarrow> op \<in> {REOP_line_start, REOP_line_start_m, REOP_line_end, REOP_line_end_m,
     REOP_set_i32, REOP_set_char_pos, REOP_word_boundary, REOP_word_boundary_i,
     REOP_not_word_boundary, REOP_not_word_boundary_i, REOP_prev, REOP_save_start,
     REOP_save_end, REOP_save_reset}"

definition reop_is_back_reference :: "reop \<Rightarrow> bool" where
  "reop_is_back_reference op \<longleftrightarrow> op \<in> {REOP_back_reference, REOP_back_reference_i,
     REOP_backward_back_reference, REOP_backward_back_reference_i}"

function need_check_loop :: "u8 list \<Rightarrow> nat \<Rightarrow> bool \<Rightarrow> bool \<Rightarrow> (bool \<times> bool) option" where
  "need_check_loop bc pos need_check_adv need_capture_init =
     (if pos < length bc then
        case reop_decode (bc ! pos) of
          None \<Rightarrow> None
        | Some op \<Rightarrow>
            if reop_advances op \<or> reop_neutral op \<or> reop_is_back_reference op then
              case reop_len bc pos op of
                None \<Rightarrow> None
              | Some len \<Rightarrow>
                  need_check_loop bc (pos + len) (need_check_adv \<and> \<not> reop_advances op)
                    (need_capture_init \<or> reop_is_back_reference op)
            else Some (need_check_adv, True)
      else Some (need_check_adv, need_capture_init))"
  by pat_completeness auto
termination
  by (relation "measure (\<lambda>(bc, pos, a, b). length bc - pos)")
    (auto dest!: reop_len_pos simp: diff_less_mono2)

declare need_check_loop.simps [simp del]

definition re_need_check_adv_and_capture_init :: "u8 list \<Rightarrow> (bool \<times> bool) option" where
  "re_need_check_adv_and_capture_init bc = need_check_loop bc 0 True False"

end
