(* ===== verification/CaseTables.thy ===== *)
theory CaseTables
  imports Cutils
begin

text \<open>
  The constant tables of \<open>libregexp\<close> that case conversion and character classification read:
  \<open>case_conv_table1\<close>, \<open>case_conv_table2\<close>, \<open>case_conv_ext\<close> of \<open>libunicode-table.h\<close>,
  \<open>lre_ctype_bits\<close> and \<open>char_range_space\<close> of \<open>libunicode.c\<close> and the class ranges \<open>\d\<close>,
  \<open>\s\<close>, \<open>\w\<close> of \<open>libregexp.c\<close>. They are never unfolded by default.
\<close>

subsection \<open>Case conversion\<close>

definition case_conv_table1 :: "u32 list" where
  "case_conv_table1 = [0x209a30, 0x309a00, 0x5a8173, 0x601730,
    0x6c0730, 0x6f81b3, 0x701700, 0x7c0700,
    0x7f8100, 0x803040, 0x9801c3, 0x988190,
    0x990640, 0x9c9040, 0xa481b4, 0xa52e40,
    0xbc0130, 0xbc8640, 0xbf8170, 0xc00100,
    0xc08130, 0xc10440, 0xc30130, 0xc38240,
    0xc48230, 0xc58240, 0xc70130, 0xc78130,
    0xc80130, 0xc88240, 0xc98130, 0xca0130,
    0xca8100, 0xcb0130, 0xcb8130, 0xcc0240,
    0xcd0100, 0xcd8101, 0xce0130, 0xce8130,
    0xcf0100, 0xcf8130, 0xd00640, 0xd30130,
    0xd38240, 0xd48130, 0xd60240, 0xd70130,
    0xd78240, 0xd88230, 0xd98440, 0xdb8130,
    0xdc0240, 0xde0240, 0xdf8100, 0xe20350,
    0xe38350, 0xe50350, 0xe69040, 0xee8100,
    0xef1240, 0xf801b4, 0xf88350, 0xfa0240,
    0xfb0130, 0xfb8130, 0xfc2840, 0x1100130,
    0x1111240, 0x11d0131, 0x11d8240, 0x11e8130,
    0x11f0131, 0x11f8201, 0x1208240, 0x1218130,
    0x1220130, 0x1228130, 0x1230a40, 0x1280101,
    0x1288101, 0x1290101, 0x1298100, 0x12a0100,
    0x12b0200, 0x12c8100, 0x12d8100, 0x12e0101,
    0x1300100, 0x1308101, 0x1318100, 0x1320101,
    0x1328101, 0x1330101, 0x1340100, 0x1348100,
    0x1350101, 0x1358101, 0x1360101, 0x1378100,
    0x1388101, 0x1390100, 0x13a8100, 0x13e8101,
    0x1400100, 0x1410101, 0x1418100, 0x1438101,
    0x1440100, 0x1448100, 0x1450200, 0x1460100,
    0x1490100, 0x14e8101, 0x14f0101, 0x1a28173,
    0x1b80440, 0x1bb0240, 0x1bd8300, 0x1bf8130,
    0x1c30130, 0x1c40330, 0x1c60130, 0x1c70230,
    0x1c801d0, 0x1c89130, 0x1d18930, 0x1d60100,
    0x1d68300, 0x1d801d3, 0x1d89100, 0x1e10173,
    0x1e18900, 0x1e60100, 0x1e68200, 0x1e78130,
    0x1e80173, 0x1e88173, 0x1ea8173, 0x1eb0173,
    0x1eb8100, 0x1ec1840, 0x1f80173, 0x1f88173,
    0x1f90100, 0x1f98100, 0x1fa01a0, 0x1fa8173,
    0x1fb8240, 0x1fc8130, 0x1fd0240, 0x1fe8330,
    0x2001030, 0x2082030, 0x2182000, 0x2281000,
    0x2302240, 0x2453640, 0x2600130, 0x2608e40,
    0x2678100, 0x2686040, 0x298a630, 0x2b0a600,
    0x2c381b5, 0x8502631, 0x8638131, 0x8668131,
    0x8682b00, 0x87e8300, 0x9d05011, 0x9f80610,
    0x9fc0620, 0xe400174, 0xe408174, 0xe410174,
    0xe418174, 0xe420174, 0xe428174, 0xe430174,
    0xe438180, 0xe440180, 0xe448240, 0xe482b30,
    0xe5e8330, 0xebc8101, 0xebe8101, 0xec70101,
    0xf007e40, 0xf3f1840, 0xf4b01b5, 0xf4b81b6,
    0xf4c01b6, 0xf4c81b6, 0xf4d01b7, 0xf4d8180,
    0xf4f0130, 0xf506040, 0xf800800, 0xf840830,
    0xf880600, 0xf8c0630, 0xf900800, 0xf940830,
    0xf980800, 0xf9c0830, 0xfa00600, 0xfa40630,
    0xfa801b0, 0xfa88100, 0xfa901d3, 0xfa98100,
    0xfaa01d3, 0xfaa8100, 0xfab01d3, 0xfab8100,
    0xfac8130, 0xfad8130, 0xfae8130, 0xfaf8130,
    0xfb00800, 0xfb40830, 0xfb80200, 0xfb90400,
    0xfbb0201, 0xfbc0201, 0xfbd0201, 0xfbe0201,
    0xfc008b7, 0xfc40867, 0xfc808b8, 0xfcc0868,
    0xfd008b8, 0xfd40868, 0xfd80200, 0xfd901b9,
    0xfd981b1, 0xfda01b9, 0xfdb01b1, 0xfdb81d7,
    0xfdc0230, 0xfdd0230, 0xfde0161, 0xfdf0173,
    0xfe101b9, 0xfe181b2, 0xfe201ba, 0xfe301b2,
    0xfe381d8, 0xfe40430, 0xfe60162, 0xfe80201,
    0xfe901d0, 0xfe981d0, 0xfeb01b0, 0xfeb81d0,
    0xfec0230, 0xfed0230, 0xff00201, 0xff101d3,
    0xff181d3, 0xff201ba, 0xff28101, 0xff301b0,
    0xff381d3, 0xff40231, 0xff50230, 0xff60131,
    0xff901ba, 0xff981b2, 0xffa01bb, 0xffb01b2,
    0xffb81d9, 0xffc0230, 0xffd0230, 0xffe0162,
    0x109301a0, 0x109501a0, 0x109581a0, 0x10990131,
    0x10a70101, 0x10b01031, 0x10b81001, 0x10c18240,
    0x125b1a31, 0x12681a01, 0x16003031, 0x16183001,
    0x16300240, 0x16310130, 0x16318130, 0x16320130,
    0x16328100, 0x16330100, 0x16338640, 0x16368130,
    0x16370130, 0x16378130, 0x16380130, 0x16390240,
    0x163a8240, 0x163f0230, 0x16406440, 0x16758440,
    0x16790240, 0x16802600, 0x16938100, 0x16968100,
    0x53202e40, 0x53401c40, 0x53910e40, 0x53993e40,
    0x53bc8440, 0x53be8130, 0x53bf0a40, 0x53c58240,
    0x53c68130, 0x53c80440, 0x53ca0101, 0x53cb1440,
    0x53d50130, 0x53d58130, 0x53d60130, 0x53d68130,
    0x53d70130, 0x53d80130, 0x53d88130, 0x53d90130,
    0x53d98131, 0x53da1040, 0x53e20131, 0x53e28130,
    0x53e30130, 0x53e38440, 0x53e58130, 0x53e61040,
    0x53ee0130, 0x53fa8240, 0x55a98101, 0x55b85020,
    0x7d8001b2, 0x7d8081b2, 0x7d8101b2, 0x7d8181da,
    0x7d8201da, 0x7d8281b3, 0x7d8301b3, 0x7d8981bb,
    0x7d8a01bb, 0x7d8a81bb, 0x7d8b01bc, 0x7d8b81bb,
    0x7f909a31, 0x7fa09a01, 0x82002831, 0x82142801,
    0x82582431, 0x826c2401, 0x82b80b31, 0x82be0f31,
    0x82c60731, 0x82ca0231, 0x82cb8b01, 0x82d18f01,
    0x82d98701, 0x82dd8201, 0x86403331, 0x86603301,
    0x86a81631, 0x86b81601, 0x8c502031, 0x8c602001,
    0xb7202031, 0xb7302001, 0xb7501931, 0xb75d9901,
    0xf4802231, 0xf4912201]"

definition case_conv_table2 :: "u8 list" where
  "case_conv_table2 = [1, 0, 0x9c, 6, 7, 0x4d, 3, 4,
    0x10, 0, 0x8f, 0xb, 0, 0, 0x11, 0,
    8, 0, 0x53, 0x4b, 0x52, 0, 0x53, 0,
    0x54, 0, 0x3b, 0x55, 0x56, 0, 0x58, 0x5a,
    0x40, 0x5f, 0x5e, 0, 0x47, 0x50, 0x63, 0x65,
    0x43, 0x66, 0, 0x68, 0, 0x6a, 0, 0x6c,
    0, 0x6e, 0, 0x70, 0, 0, 0x41, 0,
    0, 0, 0, 0x1a, 0, 0x93, 0, 0,
    0x20, 0x36, 0, 0x28, 0, 0x24, 0, 0x24,
    0x25, 0x2d, 0, 0x13, 0x6d, 0x6f, 0, 0x29,
    0x27, 0x2a, 0x14, 0x16, 0x18, 0x1b, 0x1c, 0x41,
    0x1e, 0x42, 0x1f, 0x4e, 0x3c, 0x40, 0x22, 0x21,
    0x44, 0x21, 0x43, 0x26, 0x28, 0x27, 0x29, 0x23,
    0x2b, 0x4b, 0x2d, 0x46, 0x2f, 0x4c, 0x31, 0x4d,
    0x33, 0x47, 0x45, 0x99, 0, 0, 0x97, 0x91,
    0x7f, 0x80, 0x85, 0x86, 0x12, 0x82, 0x84, 0x78,
    0x79, 0x12, 0x7d, 0xa3, 0x7e, 0x7a, 0x7b, 0x8c,
    0x92, 0x98, 0xa6, 0xa0, 0x87, 0, 0x9a, 0xa1,
    0x95, 0x77, 0x33, 0x95, 0, 0x90, 0, 0x76,
    0x9b, 0x9a, 0x99, 0x98, 0, 0, 0xa0, 0,
    0x9e, 0, 0xa3, 0xa2, 0x15, 0x31, 0x32, 0x33,
    0xb7, 0xb8, 0x53, 0xac, 0xab, 0x12, 0x14, 0x1e,
    0x21, 0x22, 0x22, 0x2a, 0x34, 0x35, 0, 0xa8,
    0xa9, 0x39, 0x22, 0x4c, 0, 0, 0x97, 1,
    0x5a, 0xda, 0x1d, 0x36, 5, 0, 0xc7, 0xc6,
    0xc9, 0xc8, 0xcb, 0xca, 0xcd, 0xcc, 0xcf, 0xce,
    0xc4, 0xd8, 0x45, 0xd9, 0x42, 0xda, 0x46, 0xdb,
    0xd1, 0xd3, 0xd5, 0xd7, 0xdd, 0xdc, 0xf1, 0xf9,
    1, 0x11, 0xa, 0x12, 0x80, 0x9f, 0, 0x21,
    0x80, 0xa3, 0xf0, 0, 0xc0, 0x40, 0xc6, 0x60,
    0xea, 0xde, 0xe6, 0x99, 0xc0, 0, 0, 6,
    0x60, 0xdf, 0x29, 0, 0x15, 0x12, 6, 0x16,
    0xfb, 0xe0, 9, 0x15, 0x12, 0x84, 0xb, 0xc6,
    0x16, 2, 0xe2, 6, 0xc0, 0x40, 0, 0x46,
    0x60, 0xe1, 0xe3, 0x6d, 0x37, 0x38, 0x39, 0x18,
    0x17, 0x1a, 0x19, 0, 0x1d, 0x1c, 0x1f, 0x1e,
    0, 0x61, 0xba, 0x67, 0x45, 0x48, 0, 0x50,
    0x64, 0x4f, 0x51, 0, 0, 0x49, 0, 0,
    0, 0xa5, 0xa6, 0xa7, 0, 0, 0, 0,
    0, 0xb9, 0, 0, 0x5c, 0, 0x4a, 0,
    0x5d, 0x57, 0x59, 0x62, 0x60, 0x72, 0x6b, 0x71,
    0x52, 0, 0x3e, 0x69, 0xbb, 0, 0x5b, 0,
    0x25, 0, 0x48, 0xaa, 0x8a, 0x8b, 0x8c, 0xab,
    0xac, 0x58, 0x58, 0xaf, 0x94, 0xb0, 0x6f, 0xb2,
    0x61, 0x60, 0x63, 0x62, 0x65, 0x64, 0x6a, 0x6b,
    0x6c, 0x6d, 0x66, 0x67, 0x68, 0x69, 0x6f, 0x6e,
    0x71, 0x70, 0x73, 0x72, 0x75, 0x74, 0x77, 0x76,
    0x79, 0x78]"

definition case_conv_ext :: "u16 list" where
  "case_conv_ext = [0x399, 0x308, 0x301, 0x3a5,
    0x313, 0x300, 0x342, 0x391,
    0x397, 0x3a9, 0x46, 0x49,
    0x4c, 0x53, 0x69, 0x307,
    0x2bc, 0x4e, 0x4a, 0x30c,
    0x535, 0x552, 0x48, 0x331,
    0x54, 0x57, 0x30a, 0x59,
    0x41, 0x2be, 0x1f08, 0x1f80,
    0x1f28, 0x1f90, 0x1f68, 0x1fa0,
    0x1fba, 0x386, 0x1fb3, 0x1fca,
    0x389, 0x1fc3, 0x3a1, 0x1ffa,
    0x38f, 0x1ff3, 0x544, 0x546,
    0x53b, 0x54e, 0x53d, 0x3b8,
    0x462, 0xa64a, 0x1e60, 0x3c9,
    0x6b, 0xe5]"

subsection \<open>Character classes\<close>

text \<open>The class bits: space 1, digit 2, upper 4, lower 8, underscore 16, dollar 32, hex digit 64.\<close>

abbreviation (input) "UNICODE_C_SPACE \<equiv> (1 :: u8)"
abbreviation (input) "UNICODE_C_DIGIT \<equiv> (2 :: u8)"
abbreviation (input) "UNICODE_C_UPPER \<equiv> (4 :: u8)"
abbreviation (input) "UNICODE_C_LOWER \<equiv> (8 :: u8)"
abbreviation (input) "UNICODE_C_UNDER \<equiv> (16 :: u8)"
abbreviation (input) "UNICODE_C_DOLLAR \<equiv> (32 :: u8)"
abbreviation (input) "UNICODE_C_XDIGIT \<equiv> (64 :: u8)"

definition lre_ctype_bits :: "u8 list" where
  "lre_ctype_bits = [0, 0, 0, 0, 0, 0, 0, 0, 0, 1, 1, 1, 1, 1, 0, 0,
    0, 0, 0, 0, 0, 0, 0, 0, 0, 0, 0, 0, 0, 0, 0, 0,
    1, 0, 0, 0, 0x20, 0, 0, 0, 0, 0, 0, 0, 0, 0, 0, 0,
    0x42, 0x42, 0x42, 0x42, 0x42, 0x42, 0x42, 0x42, 0x42, 0x42, 0, 0, 0, 0, 0, 0,
    0, 0x44, 0x44, 0x44, 0x44, 0x44, 0x44, 4, 4, 4, 4, 4, 4, 4, 4, 4,
    4, 4, 4, 4, 4, 4, 4, 4, 4, 4, 4, 0, 0, 0, 0, 0x10,
    0, 0x48, 0x48, 0x48, 0x48, 0x48, 0x48, 8, 8, 8, 8, 8, 8, 8, 8, 8,
    8, 8, 8, 8, 8, 8, 8, 8, 8, 8, 8, 0, 0, 0, 0, 0,
    0, 0, 0, 0, 0, 0, 0, 0, 0, 0, 0, 0, 0, 0, 0, 0,
    0, 0, 0, 0, 0, 0, 0, 0, 0, 0, 0, 0, 0, 0, 0, 0,
    1, 0, 0, 0, 0, 0, 0, 0, 0, 0, 0, 0, 0, 0, 0, 0,
    0, 0, 0, 0, 0, 0, 0, 0, 0, 0, 0, 0, 0, 0, 0, 0,
    0, 0, 0, 0, 0, 0, 0, 0, 0, 0, 0, 0, 0, 0, 0, 0,
    0, 0, 0, 0, 0, 0, 0, 0, 0, 0, 0, 0, 0, 0, 0, 0,
    0, 0, 0, 0, 0, 0, 0, 0, 0, 0, 0, 0, 0, 0, 0, 0,
    0, 0, 0, 0, 0, 0, 0, 0, 0, 0, 0, 0, 0, 0, 0, 0]"

definition char_range_space :: "u16 list" where
  "char_range_space = [0xa, 9, 0xe, 0x20, 0x21, 0xa0,
    0xa1, 0x1680, 0x1681, 0x2000, 0x200b, 0x2028,
    0x202a, 0x202f, 0x2030, 0x205f, 0x2060, 0x3000,
    0x3001, 0xfeff, 0xff00]"

text \<open>\<open>\d\<close>, \<open>\s\<close> and \<open>\w\<close> of the pattern compiler, each with its number of intervals first.\<close>

definition char_range_d :: "u16 list" where
  "char_range_d = [1, 0x30, 0x3a]"

definition char_range_s :: "u16 list" where
  "char_range_s = [0xa, 9, 0xe, 0x20, 0x21, 0xa0,
    0xa1, 0x1680, 0x1681, 0x2000, 0x200b, 0x2028,
    0x202a, 0x202f, 0x2030, 0x205f, 0x2060, 0x3000,
    0x3001, 0xfeff, 0xff00]"

definition char_range_w :: "u16 list" where
  "char_range_w = [4, 0x30, 0x3a, 0x41, 0x5b, 0x5f, 0x60, 0x61, 0x7b]"

end
