(* ===== verification/CharRange.thy ===== *)
theory CharRange
  imports DynBuf
begin

text \<open>
  The code point sets of \<open>libregexp/libunicode.c\<close> and \<open>libunicode.h\<close>: a \<open>CharRange\<close> is a
  sorted vector of points, two per interval (start, end excluded). This theory models the
  vector and its operations and proves that they compute union, intersection, symmetric
  difference, difference and complement of the sets the vectors stand for, and that the
  results are in canonical form.
\<close>

subsection \<open>The vector and its operations\<close>

text \<open>
  \<open>cr_points\<close> holds the first \<open>len\<close> cells; \<open>cr_size\<close> is the number of allocated cells. A C
  function that returns 0 or -1 is a pair of that code and the new vector.
\<close>

record char_range =
  cr_points :: "u32 list"
  cr_size :: nat
  cr_realloc_func :: realloc_func

abbreviation cr_len :: "char_range \<Rightarrow> nat" where
  "cr_len cr \<equiv> length (cr_points cr)"

datatype char_range_op = CR_OP_UNION | CR_OP_INTER | CR_OP_XOR | CR_OP_SUB

definition cr_init :: "realloc_func \<Rightarrow> char_range" where
  "cr_init ra = \<lparr>cr_points = [], cr_size = 0, cr_realloc_func = ra\<rparr>"

definition cr_realloc :: "char_range \<Rightarrow> nat \<Rightarrow> int \<times> char_range" where
  "cr_realloc cr sz =
     (if sz > cr_size cr then
        let new_size = max sz (cr_size cr * 3 div 2) in
        if cr_realloc_func cr (new_size * 4) then (0, cr\<lparr>cr_size := new_size\<rparr>) else (-1, cr)
      else (0, cr))"

definition cr_copy :: "char_range \<Rightarrow> char_range \<Rightarrow> int \<times> char_range" where
  "cr_copy cr cr1 =
     (case cr_realloc cr (cr_len cr1) of
        (ret, cr') \<Rightarrow> if ret \<noteq> 0 then (-1, cr') else (0, cr'\<lparr>cr_points := cr_points cr1\<rparr>))"

definition cr_add_point :: "char_range \<Rightarrow> u32 \<Rightarrow> int \<times> char_range" where
  "cr_add_point cr v =
     (case (if cr_len cr \<ge> cr_size cr then cr_realloc cr (cr_len cr + 1) else (0, cr)) of
        (ret, cr') \<Rightarrow> if ret \<noteq> 0 then (-1, cr') else (0, cr'\<lparr>cr_points := cr_points cr' @ [v]\<rparr>))"

definition cr_add_interval :: "char_range \<Rightarrow> u32 \<Rightarrow> u32 \<Rightarrow> int \<times> char_range" where
  "cr_add_interval cr c1 c2 =
     (case (if cr_len cr + 2 > cr_size cr then cr_realloc cr (cr_len cr + 2) else (0, cr)) of
        (ret, cr') \<Rightarrow>
          if ret \<noteq> 0 then (-1, cr') else (0, cr'\<lparr>cr_points := cr_points cr' @ [c1, c2]\<rparr>))"

text \<open>
  \<open>cr_compress\<close> scans with \<open>i\<close> and writes to the front with \<open>k \<le> i\<close>; what it has written is
  the first argument of the loop here, reversed.
\<close>

function compress_merge :: "u32 list \<Rightarrow> nat \<Rightarrow> nat" where
  "compress_merge pt j =
     (if j + 3 < length pt \<and> pt ! (j + 1) = pt ! (j + 2) then compress_merge pt (j + 2) else j)"
  by pat_completeness auto
termination
  by (relation "measure (\<lambda>(pt, j). length pt - j)") auto

declare compress_merge.simps [simp del]

lemma compress_merge_ge: "j \<le> compress_merge pt j"
proof (induction pt j rule: compress_merge.induct)
  case (1 pt j)
  then show ?case
    by (cases "j + 3 < length pt \<and> pt ! (j + 1) = pt ! (j + 2)")
      (auto simp: compress_merge.simps [of pt j])
qed

function compress_loop :: "u32 list \<Rightarrow> u32 list \<Rightarrow> nat \<Rightarrow> u32 list" where
  "compress_loop out pt i =
     (if i + 1 < length pt then
        if pt ! i = pt ! (i + 1) then compress_loop out pt (i + 2)
        else let j = compress_merge pt i in
             compress_loop (out @ [pt ! i, pt ! (j + 1)]) pt (j + 2)
      else out)"
  by pat_completeness auto
termination
  by (relation "measure (\<lambda>(out, pt, i). length pt - i)")
    (auto simp: le_imp_diff_is_add intro!: diff_less_mono2 le_imp_less_Suc
       le_SucI [OF compress_merge_ge])

declare compress_loop.simps [simp del]

definition cr_compress :: "char_range \<Rightarrow> char_range" where
  "cr_compress cr = cr\<lparr>cr_points := compress_loop [] (cr_points cr) 0\<rparr>"

definition op_is_in :: "char_range_op \<Rightarrow> bool \<Rightarrow> bool \<Rightarrow> bool" where
  "op_is_in op a b =
     (case op of
        CR_OP_UNION \<Rightarrow> a \<or> b
      | CR_OP_INTER \<Rightarrow> a \<and> b
      | CR_OP_XOR \<Rightarrow> a \<noteq> b
      | CR_OP_SUB \<Rightarrow> a \<and> \<not> b)"

text \<open>One more point, from \<open>a\<close>, from \<open>b\<close> or from both, in increasing order.\<close>

definition next_point :: "u32 list \<Rightarrow> u32 list \<Rightarrow> nat \<Rightarrow> nat \<Rightarrow> (u32 \<times> nat \<times> nat) option" where
  "next_point a b ai bi =
     (if ai < length a \<and> bi < length b then
        if a ! ai < b ! bi then Some (a ! ai, ai + 1, bi)
        else if a ! ai = b ! bi then Some (a ! ai, ai + 1, bi + 1)
        else Some (b ! bi, ai, bi + 1)
      else if ai < length a then Some (a ! ai, ai + 1, bi)
      else if bi < length b then Some (b ! bi, ai, bi + 1)
      else None)"

lemma next_point_progress:
  "next_point a b ai bi = Some (v, ai', bi') \<Longrightarrow>
   (length a - ai') + (length b - bi') < (length a - ai) + (length b - bi)"
  by (auto simp: next_point_def split: if_splits)

function cr_op_loop ::
    "char_range_op \<Rightarrow> u32 list \<Rightarrow> u32 list \<Rightarrow> nat \<Rightarrow> nat \<Rightarrow> char_range \<Rightarrow> int \<times> char_range" where
  "cr_op_loop op a b ai bi cr =
     (case next_point a b ai bi of
        None \<Rightarrow> (0, cr)
      | Some (v, ai', bi') \<Rightarrow>
          if op_is_in op (odd ai') (odd bi') \<noteq> odd (cr_len cr) then
            case cr_add_point cr v of
              (ret, cr') \<Rightarrow> if ret \<noteq> 0 then (-1, cr') else cr_op_loop op a b ai' bi' cr'
          else cr_op_loop op a b ai' bi' cr)"
  by pat_completeness auto
termination
  by (relation "measure (\<lambda>(op, a, b, ai, bi, cr). (length a - ai) + (length b - bi))")
    (auto dest: next_point_progress)

declare cr_op_loop.simps [simp del]

definition cr_op ::
    "char_range \<Rightarrow> u32 list \<Rightarrow> u32 list \<Rightarrow> char_range_op \<Rightarrow> int \<times> char_range" where
  "cr_op cr a b op =
     (case cr_op_loop op a b 0 0 cr of
        (ret, cr') \<Rightarrow> if ret \<noteq> 0 then (-1, cr') else (0, cr_compress cr'))"

definition cr_op1 :: "char_range \<Rightarrow> u32 list \<Rightarrow> char_range_op \<Rightarrow> int \<times> char_range" where
  "cr_op1 cr b op =
     (let a = cr_points cr; cr' = cr\<lparr>cr_points := [], cr_size := 0\<rparr> in cr_op cr' a b op)"

definition cr_union_interval :: "char_range \<Rightarrow> u32 \<Rightarrow> u32 \<Rightarrow> int \<times> char_range" where
  "cr_union_interval cr c1 c2 = cr_op1 cr [c1, c2 + 1] CR_OP_UNION"

definition cr_invert :: "char_range \<Rightarrow> int \<times> char_range" where
  "cr_invert cr =
     (case cr_realloc cr (cr_len cr + 2) of
        (ret, cr') \<Rightarrow>
          if ret \<noteq> 0 then (-1, cr')
          else (0, cr_compress (cr'\<lparr>cr_points := 0 # cr_points cr' @ [0xFFFFFFFF]\<rparr>)))"

subsection \<open>The set a vector stands for\<close>

definition count_le :: "u32 \<Rightarrow> u32 list \<Rightarrow> nat" where
  "count_le c pts = length (filter (\<lambda>p. p \<le> c) pts)"

definition cr_mem :: "u32 list \<Rightarrow> u32 \<Rightarrow> bool" where
  "cr_mem pts c \<longleftrightarrow> odd (count_le c pts)"

lemma count_le_simps [simp]:
  "count_le c [] = 0"
  "count_le c (p # ps) = (if p \<le> c then 1 else 0) + count_le c ps"
  "count_le c (xs @ ys) = count_le c xs + count_le c ys"
  by (auto simp: count_le_def)

lemma count_le_zero: "\<forall>p \<in> set ps. c < p \<Longrightarrow> count_le c ps = 0"
  by (auto simp: count_le_def filter_empty_conv)

lemma count_le_all: "\<forall>p \<in> set ps. p \<le> c \<Longrightarrow> count_le c ps = length ps"
  by (simp add: count_le_def)

lemma count_le_drop:
  "i < length xs \<Longrightarrow> count_le c (drop i xs) = (if xs ! i \<le> c then 1 else 0) + count_le c (drop (Suc i) xs)"
  by (simp add: Cons_nth_drop_Suc [symmetric])

lemma sorted_nth_set_drop: "sorted xs \<Longrightarrow> p \<in> set (drop i xs) \<Longrightarrow> i < length xs \<Longrightarrow> xs ! i \<le> p"
  by (auto simp: in_set_conv_nth sorted_iff_nth_mono)

text \<open>Strictly increasing vectors of even length: one vector per set.\<close>

definition cr_canonical :: "u32 list \<Rightarrow> bool" where
  "cr_canonical pts \<longleftrightarrow> sorted_wrt (<) pts \<and> even (length pts)"

lemma cr_mem_Cons2:
  "x < y \<Longrightarrow> \<forall>p \<in> set r. y \<le> p \<Longrightarrow> cr_mem (x # y # r) c \<longleftrightarrow> (x \<le> c \<and> c < y) \<or> cr_mem r c"
proof (cases "c < y")
  case True
  moreover assume "\<forall>p \<in> set r. y \<le> p"
  ultimately have "count_le c r = 0" by (intro count_le_zero) (auto intro: order_less_le_trans)
  with True show ?thesis by (auto simp: cr_mem_def)
qed (auto simp: cr_mem_def)

lemma canonical_ext: "\<lbrakk>sorted_wrt (<) xs; sorted_wrt (<) ys; \<And>c. odd (count_le c xs) = odd (count_le c ys)\<rbrakk> \<Longrightarrow> xs = ys"
proof (induction xs arbitrary: ys)
  case Nil
  show ?case
  proof (cases ys)
    case (Cons y ys')
    then have "\<forall>p \<in> set ys'. y < p" using Nil.prems by simp
    then have "count_le y ys = 1" using Cons by (simp add: count_le_zero)
    with Nil.prems(3) [of y] show ?thesis by simp
  qed simp
next
  case (Cons x xs)
  have x: "\<forall>p \<in> set xs. x < p" using Cons.prems by simp
  show ?case
  proof (cases ys)
    case Nil
    then show ?thesis using Cons.prems(3) [of x] x by (simp add: count_le_zero)
  next
    case (Cons y ys')
    have y: "\<forall>p \<in> set ys'. y < p" using Cons Cons.prems by simp
    have "x = y"
    proof (rule linorder_cases [of x y])
      assume "x < y"
      then have "count_le x ys = 0" using y Cons by (auto intro!: count_le_zero intro: order_less_trans)
      moreover have "count_le x (x # xs) = 1" using x by (simp add: count_le_zero)
      ultimately show ?thesis using Cons.prems(3) [of x] by simp
    next
      assume "y < x"
      then have "count_le y (x # xs) = 0" using x by (intro count_le_zero) (auto intro: order_less_trans)
      moreover have "count_le y ys = 1" using y Cons by (simp add: count_le_zero)
      ultimately show ?thesis using Cons.prems(3) [of y] by simp
    qed simp
    moreover have "odd (count_le c xs) = odd (count_le c ys')" for c
      using Cons.prems(3) [of c] Cons \<open>x = y\<close> by (simp split: if_splits)
    ultimately show ?thesis using Cons Cons.IH [of ys'] Cons.prems by simp
  qed
qed

theorem cr_mem_inject:
  "cr_canonical xs \<Longrightarrow> cr_canonical ys \<Longrightarrow> (\<forall>c. cr_mem xs c = cr_mem ys c) \<Longrightarrow> xs = ys"
  unfolding cr_canonical_def cr_mem_def by (intro canonical_ext) auto

subsection \<open>Compression\<close>

lemma compress_merge_props:
  assumes "j + 1 < length pt" and "even (length pt)" and "even j"
  shows "compress_merge pt j + 1 < length pt \<and> even (compress_merge pt j)
    \<and> odd (count_le c (drop (compress_merge pt j + 1) pt)) = odd (count_le c (drop (j + 1) pt))
    \<and> (compress_merge pt j + 2 < length pt \<longrightarrow>
        pt ! (compress_merge pt j + 1) \<noteq> pt ! (compress_merge pt j + 2))"
  using assms
proof (induction pt j rule: compress_merge.induct)
  case (1 pt j)
  show ?case
  proof (cases "j + 3 < length pt \<and> pt ! (j + 1) = pt ! (j + 2)")
    case True
    have "odd (count_le c (drop (j + 1) pt)) = odd (count_le c (drop (j + 3) pt))"
      using True by (simp add: count_le_drop numeral_3_eq_3)
    with True 1 show ?thesis by (simp add: compress_merge.simps [of pt j] numeral_3_eq_3)
  next
    case False
    have "j + 2 < length pt \<Longrightarrow> j + 3 < length pt"
      using 1 by presburger
    with False 1 show ?thesis by (auto simp: compress_merge.simps [of pt j])
  qed
qed

lemma compress_loop_props:
  assumes "sorted pt" "even (length pt)" "even i" "sorted_wrt (<) out" "even (length out)"
    and "\<forall>p \<in> set out. i < length pt \<longrightarrow> p < pt ! i"
  shows "odd (count_le c (compress_loop out pt i)) = odd (count_le c out + count_le c (drop i pt))
    \<and> sorted_wrt (<) (compress_loop out pt i) \<and> even (length (compress_loop out pt i))
    \<and> set (compress_loop out pt i) \<subseteq> set out \<union> set pt"
  using assms
proof (induction out pt i rule: compress_loop.induct)
  case (1 out pt i)
  show ?case
  proof (cases "i + 1 < length pt")
    case False
    then have "length pt \<le> i" using 1 by presburger
    then show ?thesis using 1 False by (auto simp: compress_loop.simps [of out pt i])
  next
    case lt: True
    show ?thesis
    proof (cases "pt ! i = pt ! (i + 1)")
      case True
      have "\<forall>p\<in>set out. i + 2 < length pt \<longrightarrow> p < pt ! (i + 2)"
        using "1.prems" lt by (auto simp: sorted_iff_nth_mono intro: order_less_le_trans)
      moreover have "count_le c (drop i pt) = 2 * (if pt ! i \<le> c then 1 else 0) + count_le c (drop (i + 2) pt)"
        using lt True by (simp add: count_le_drop)
      ultimately show ?thesis
        using "1.IH"(1) [OF lt True] "1.prems" lt True
        by (simp add: compress_loop.simps [of out pt i])
    next
      case False
      define j where "j = compress_merge pt i"
      have m: "j + 1 < length pt" "even j" "i \<le> j"
        "odd (count_le c (drop (j + 1) pt)) = odd (count_le c (drop (i + 1) pt))"
        "j + 2 < length pt \<longrightarrow> pt ! (j + 1) \<noteq> pt ! (j + 2)"
        using compress_merge_props [OF lt "1.prems"(2,3), of c] compress_merge_ge [of i pt] by (auto simp: j_def)
      have le: "pt ! i < pt ! (i + 1)" "pt ! (i + 1) \<le> pt ! (j + 1)"
        using False lt m "1.prems"(1) by (auto simp: sorted_iff_nth_mono order_less_le)
      have nx: "\<forall>p\<in>set (out @ [pt ! i, pt ! (j + 1)]). j + 2 < length pt \<longrightarrow> p < pt ! (j + 2)"
      proof (intro ballI impI)
        fix p assume p: "p \<in> set (out @ [pt ! i, pt ! (j + 1)])" and j2: "j + 2 < length pt"
        have "p \<le> pt ! (j + 1)" using p "1.prems"(6) lt le by (auto intro: order_less_imp_le order_less_le_trans order_trans)
        also have "\<dots> < pt ! (j + 2)"
          using j2 m "1.prems"(1) by (simp add: order_less_le sorted_iff_nth_mono)
        finally show "p < pt ! (j + 2)" .
      qed
      have srt: "sorted_wrt (<) (out @ [pt ! i, pt ! (j + 1)])"
        using "1.prems" lt le by (auto simp: sorted_wrt_append intro: order_less_trans order_less_le_trans)
      have d: "count_le c (drop i pt) = (if pt ! i \<le> c then 1 else 0) + count_le c (drop (i + 1) pt)"
        "count_le c (drop (j + 1) pt)
          = (if pt ! (j + 1) \<le> c then 1 else 0) + count_le c (drop (j + 2) pt)"
        using lt m(1) by (simp_all add: count_le_drop)
      have par: "odd (count_le c out + count_le c (drop i pt)) =
          odd (count_le c (out @ [pt ! i, pt ! (j + 1)]) + count_le c (drop (j + 2) pt))"
        using m(4) unfolding d
        by (cases "pt ! (j + 1) \<le> c"; cases "pt ! i \<le> c") (auto)
      have eq: "compress_loop out pt i = compress_loop (out @ [pt ! i, pt ! (j + 1)]) pt (j + 2)"
        using lt False by (simp add: compress_loop.simps [of out pt i] Let_def j_def)
      have sub: "set (out @ [pt ! i, pt ! (j + 1)]) \<subseteq> set out \<union> set pt"
        using lt m(1) by simp
      have ev: "even (j + 2)" "even (length (out @ [pt ! i, pt ! (j + 1)]))"
        using m(2) "1.prems"(5) by simp_all
      note IH = "1.IH"(2) [OF lt False j_def "1.prems"(1,2) ev(1) srt ev(2) nx]
      then have "set (compress_loop out pt i) \<subseteq> set out \<union> set pt"
        unfolding eq using sub by (meson Un_least Un_upper2 order_trans)
      with IH show ?thesis unfolding eq par by blast
    qed
  qed
qed

lemma cr_compress_correct:
  assumes "sorted (cr_points cr)" and "even (cr_len cr)"
  shows "cr_canonical (cr_points (cr_compress cr))"
    and "cr_mem (cr_points (cr_compress cr)) c = cr_mem (cr_points cr) c"
  using compress_loop_props [of "cr_points cr" 0 "[]" c] assms
  by (simp_all add: cr_compress_def cr_canonical_def cr_mem_def)


subsection \<open>Set operations\<close>

lemma cr_realloc_cases:
  obtains (ok) n where "cr_realloc cr k = (0, cr\<lparr>cr_size := n\<rparr>)" "k \<le> n"
  | (failed) "cr_realloc cr k = (-1, cr)"
proof (cases "k \<le> cr_size cr")
  case True
  then show ?thesis by (intro ok [of "cr_size cr"]) (simp_all add: cr_realloc_def)
next
  case False
  let ?n = "max k (cr_size cr * 3 div 2)"
  show ?thesis
    by (cases "cr_realloc_func cr (?n * 4)")
      (use False in \<open>auto simp: cr_realloc_def Let_def intro: ok [of ?n] failed\<close>)
qed

lemma cr_add_point_cases:
  obtains (ok) n where "cr_add_point cr v = (0, cr\<lparr>cr_size := n, cr_points := cr_points cr @ [v]\<rparr>)"
  | (failed) "cr_add_point cr v = (-1, cr)"
proof (cases "cr_len cr \<ge> cr_size cr")
  case True
  then show ?thesis
    by (rule_tac cr_realloc_cases [of cr "cr_len cr + 1"])
      (auto simp: cr_add_point_def intro: ok failed)
next
  case False
  then show ?thesis by (intro ok [of "cr_size cr"]) (simp add: cr_add_point_def)
qed

lemma next_point_props:
  assumes "next_point a b ai bi = Some (v, ai', bi')" "sorted a" "sorted b"
  shows "count_le c (drop ai a) = (if v \<le> c then ai' - ai else 0) + count_le c (drop ai' a)"
    and "count_le c (drop bi b) = (if v \<le> c then bi' - bi else 0) + count_le c (drop bi' b)"
    and "ai \<le> ai'" and "bi \<le> bi'"
    and "\<forall>p \<in> set (drop ai a) \<union> set (drop bi b). v \<le> p"
    and "v \<in> set (drop ai a) \<union> set (drop bi b)"
    and "set (drop ai' a) \<subseteq> set (drop ai a)" and "set (drop bi' b) \<subseteq> set (drop bi b)"
proof -
  have mem: "ai < length a \<Longrightarrow> a ! ai \<in> set (drop ai a)" "bi < length b \<Longrightarrow> b ! bi \<in> set (drop bi b)"
    by (metis Cons_nth_drop_Suc list.set_intros(1))+
  have le: "ai < length a \<Longrightarrow> p \<in> set (drop ai a) \<Longrightarrow> a ! ai \<le> p"
    "bi < length b \<Longrightarrow> p \<in> set (drop bi b) \<Longrightarrow> b ! bi \<le> p" for p
    using assms by (auto dest: sorted_nth_set_drop)
  show "count_le c (drop ai a) = (if v \<le> c then ai' - ai else 0) + count_le c (drop ai' a)"
    "count_le c (drop bi b) = (if v \<le> c then bi' - bi else 0) + count_le c (drop bi' b)"
    "ai \<le> ai'" "bi \<le> bi'" "v \<in> set (drop ai a) \<union> set (drop bi b)"
    using assms(1) mem by (auto simp: next_point_def count_le_drop split: if_splits)
  show "set (drop ai' a) \<subseteq> set (drop ai a)" "set (drop bi' b) \<subseteq> set (drop bi b)"
    using \<open>ai \<le> ai'\<close> \<open>bi \<le> bi'\<close> by (simp_all add: set_drop_subset_set_drop)
  show "\<forall>p \<in> set (drop ai a) \<union> set (drop bi b). v \<le> p"
  proof
    fix p assume p: "p \<in> set (drop ai a) \<union> set (drop bi b)"
    have "ai < length a \<Longrightarrow> v \<le> a ! ai" "bi < length b \<Longrightarrow> v \<le> b ! bi"
      using assms(1) by (auto simp: next_point_def split: if_splits)
    moreover have "p \<in> set (drop ai a) \<Longrightarrow> ai < length a" "p \<in> set (drop bi b) \<Longrightarrow> bi < length b"
      by (auto intro: ccontr)
    ultimately show "v \<le> p" using p le by (meson UnE order_trans)
  qed
qed

lemma op_is_in_False [simp]: "\<not> op_is_in op False False"
  by (cases op) (auto simp: op_is_in_def)

lemma cr_op_loop_correct:
  assumes "cr_op_loop op a b ai bi cr = (0, cr')" "sorted a" "sorted b"
    and "odd (cr_len cr) = op_is_in op (odd ai) (odd bi)" "ai \<le> length a" "bi \<le> length b"
  shows "\<exists>ns. cr_points cr' = cr_points cr @ ns \<and> sorted ns
     \<and> set ns \<subseteq> set (drop ai a) \<union> set (drop bi b)
     \<and> (\<forall>c. odd (cr_len cr + count_le c ns)
          = op_is_in op (odd (ai + count_le c (drop ai a))) (odd (bi + count_le c (drop bi b))))"
  using assms
proof (induction op a b ai bi cr rule: cr_op_loop.induct)
  case (1 op a b ai bi cr)
  show ?case
  proof (cases "next_point a b ai bi")
    case None
    then have "length a \<le> ai" "length b \<le> bi" by (auto simp: next_point_def split: if_splits)
    then show ?thesis using 1 None by (simp add: cr_op_loop.simps [of op a b ai bi])
  next
    case (Some t)
    then obtain v ai' bi' where np: "next_point a b ai bi = Some (v, ai', bi')" by (cases t) auto
    note props = next_point_props [OF np "1.prems"(2,3)]
    have bd: "ai' \<le> length a" "bi' \<le> length b"
      using np "1.prems" by (auto simp: next_point_def split: if_splits)
    let ?add = "op_is_in op (odd ai') (odd bi') \<noteq> odd (cr_len cr)"
    obtain cr1 where cr1: "cr_op_loop op a b ai' bi' cr1 = (0, cr')"
      "cr_points cr1 = cr_points cr @ (if ?add then [v] else [])"
      and IH: "odd (cr_len cr1) = op_is_in op (odd ai') (odd bi') \<Longrightarrow>
        \<exists>ns. cr_points cr' = cr_points cr1 @ ns \<and> sorted ns
         \<and> set ns \<subseteq> set (drop ai' a) \<union> set (drop bi' b)
         \<and> (\<forall>c. odd (cr_len cr1 + count_le c ns)
              = op_is_in op (odd (ai' + count_le c (drop ai' a))) (odd (bi' + count_le c (drop bi' b))))"
    proof (cases ?add)
      case True
      show ?thesis
        by (rule cr_add_point_cases [of cr v])
          (use True np bd "1.prems" "1.IH"(1) [OF np] in
            \<open>auto simp: cr_op_loop.simps [of op a b ai bi] intro!: that\<close>)
    next
      case False
      then show ?thesis
        using np bd "1.prems" "1.IH"(2) [OF np]
        by (intro that [of cr]) (auto simp: cr_op_loop.simps [of op a b ai bi])
    qed
    have "odd (cr_len cr1) = op_is_in op (odd ai') (odd bi')"
      by (auto simp: cr1(2))
    from IH [OF this] obtain ns where ns: "cr_points cr' = cr_points cr1 @ ns" "sorted ns"
      "set ns \<subseteq> set (drop ai' a) \<union> set (drop bi' b)"
      and par: "\<And>c. odd (cr_len cr1 + count_le c ns)
              = op_is_in op (odd (ai' + count_le c (drop ai' a))) (odd (bi' + count_le c (drop bi' b)))"
      by blast
    let ?ns = "(if ?add then [v] else []) @ ns"
    have lb: "\<forall>p \<in> set ns. v \<le> p" using ns(3) props(5,7,8) by blast
    have "odd (cr_len cr + count_le c ?ns)
          = op_is_in op (odd (ai + count_le c (drop ai a))) (odd (bi + count_le c (drop bi b)))" for c
    proof (cases "v \<le> c")
      case True
      then have "ai + count_le c (drop ai a) = ai' + count_le c (drop ai' a)"
        "bi + count_le c (drop bi b) = bi' + count_le c (drop bi' b)"
        using props(1,2) [of c] props(3,4) by simp_all
      then show ?thesis using par [of c] True by (simp add: cr1(2) split: if_splits)
    next
      case False
      then have "count_le c ?ns = 0"
        using lb by (intro count_le_zero) (auto simp: not_le intro: order_less_le_trans)
      moreover have "count_le c (drop ai a) = 0" "count_le c (drop bi b) = 0"
        using False props(5) by (auto intro!: count_le_zero simp: not_le intro: order_less_le_trans)
      ultimately show ?thesis using "1.prems"(4) by simp
    qed
    then show ?thesis
      using ns lb props by (intro exI [of _ ?ns]) (auto simp: cr1(2))
  qed
qed

text \<open>A vector as the sources build it: increasing points, two per interval.\<close>

definition cr_wf :: "u32 list \<Rightarrow> bool" where
  "cr_wf pts \<longleftrightarrow> sorted pts \<and> even (length pts)"

lemma cr_canonical_wf: "cr_canonical pts \<Longrightarrow> cr_wf pts"
  by (simp add: cr_canonical_def cr_wf_def strict_sorted_imp_sorted)

lemma cr_op_props:
  assumes "cr_op cr a b op = (0, cr')" "cr_points cr = []" "cr_wf a" "cr_wf b"
  shows "cr_canonical (cr_points cr') \<and>
    (\<forall>c. cr_mem (cr_points cr') c = op_is_in op (cr_mem a c) (cr_mem b c))"
proof -
  obtain cr1 where run: "cr_op_loop op a b 0 0 cr = (0, cr1)" and cr': "cr' = cr_compress cr1"
    using assms(1) by (auto simp: cr_op_def split: prod.splits if_splits)
  obtain ns where ns: "cr_points cr1 = ns" "sorted ns" "set ns \<subseteq> set a \<union> set b"
    and par: "\<And>c. odd (count_le c ns) = op_is_in op (odd (count_le c a)) (odd (count_le c b))"
    using cr_op_loop_correct [OF run] assms by (auto simp: cr_wf_def)
  have max: "\<forall>p \<in> set xs. p \<le> (-1 :: u32)" for xs by simp
  have "odd (length ns) = op_is_in op (odd (length a)) (odd (length b))"
    using par [of "-1"] by (simp add: count_le_all [OF max])
  then have "even (length ns)" using assms by (simp add: cr_wf_def)
  with ns par cr_compress_correct [of cr1] show ?thesis by (simp add: cr' cr_mem_def)
qed

lemma cr_op1_props:
  assumes "cr_op1 cr b op = (0, cr')" "cr_wf (cr_points cr)" "cr_wf b"
  shows "cr_canonical (cr_points cr') \<and>
    (\<forall>c. cr_mem (cr_points cr') c = op_is_in op (cr_mem (cr_points cr) c) (cr_mem b c))"
  using cr_op_props [of "cr\<lparr>cr_points := [], cr_size := 0\<rparr>" "cr_points cr" b op cr'] assms
  by (simp add: cr_op1_def Let_def)

lemma cr_mem_interval:
  assumes "c1 \<le> c2" "c2 \<noteq> 0xFFFFFFFF"
  shows "cr_wf [c1, c2 + 1]" "cr_mem [c1, c2 + 1] c \<longleftrightarrow> c1 \<le> c \<and> c \<le> c2"
proof -
  have *: "d < c2 + 1 \<longleftrightarrow> d \<le> c2" for d
  proof -
    have "(0xFFFFFFFF :: u32) = - 1" by simp
    then have "c2 + 1 \<noteq> 0" using assms(2) by (metis add.commute add_eq_0_iff)
    then have "unat (c2 + 1) = unat c2 + 1" by (simp add: unatSuc add.commute)
    then show ?thesis by (simp add: word_less_nat_alt word_le_nat_alt less_Suc_eq_le)
  qed
  show "cr_wf [c1, c2 + 1]" using * [of c1] assms by (auto simp: cr_wf_def)
  show "cr_mem [c1, c2 + 1] c \<longleftrightarrow> c1 \<le> c \<and> c \<le> c2"
    using * [of c] assms by (auto simp: cr_mem_def not_less [symmetric])
qed

lemma cr_invert_props:
  assumes "cr_invert cr = (0, cr')" "cr_wf (cr_points cr)"
  shows "cr_canonical (cr_points cr') \<and>
    (\<forall>c. cr_mem (cr_points cr') c = (c \<noteq> 0xFFFFFFFF \<and> \<not> cr_mem (cr_points cr) c))"
proof -
  let ?pts = "0 # cr_points cr @ [0xFFFFFFFF]"
  obtain cr1 where cr1: "cr_points cr1 = ?pts" and cr': "cr' = cr_compress cr1"
  proof (rule cr_realloc_cases [of cr "cr_len cr + 2"])
    fix n assume "cr_realloc cr (cr_len cr + 2) = (0, cr\<lparr>cr_size := n\<rparr>)"
    with assms(1) show thesis
      by (intro that [of "cr\<lparr>cr_size := n, cr_points := ?pts\<rparr>"]) (auto simp: cr_invert_def)
  qed (use assms(1) in \<open>simp add: cr_invert_def\<close>)
  note le = u32_le_max
  have wf: "sorted ?pts" "even (length ?pts)"
    using assms(2) le by (auto simp: cr_wf_def sorted_append)
  have mem: "cr_mem ?pts c = (c \<noteq> 0xFFFFFFFF \<and> \<not> cr_mem (cr_points cr) c)" for c
  proof (cases "c = 0xFFFFFFFF")
    case True
    have "\<forall>p \<in> set ?pts. p \<le> c" using le True by simp
    from count_le_all [OF this] wf(2) True show ?thesis by (simp add: cr_mem_def)
  next
    case False
    then have "\<not> 0xFFFFFFFF \<le> c" using le [of c] by auto
    with False show ?thesis by (simp add: cr_mem_def)
  qed
  show ?thesis
    using cr_compress_correct [of cr1] wf mem unfolding cr1 cr' by simp
qed

subsection \<open>The return codes\<close>

lemma cr_op_loop_alloc_ok:
  "(\<And>n. cr_realloc_func cr n) \<Longrightarrow> \<exists>cr'. cr_op_loop op a b ai bi cr = (0, cr')"
proof (induction op a b ai bi cr rule: cr_op_loop.induct)
  case (1 op a b ai bi cr)
  have add: "\<And>v. \<exists>n. cr_add_point cr v = (0, cr\<lparr>cr_size := n, cr_points := cr_points cr @ [v]\<rparr>)"
    using 1(3) by (rule_tac v = v in cr_add_point_cases [of cr]) (auto simp: cr_add_point_def cr_realloc_def Let_def split: if_splits)
  show ?case
  proof (cases "next_point a b ai bi")
    case None
    then show ?thesis by (simp add: cr_op_loop.simps [of op a b ai bi])
  next
    case (Some t)
    obtain v ai' bi' where t: "t = (v, ai', bi')" by (cases t)
    obtain n where n: "cr_add_point cr v = (0, cr\<lparr>cr_size := n, cr_points := cr_points cr @ [v]\<rparr>)"
      using add by blast
    show ?thesis
      using "1.IH" [OF Some [unfolded t]] "1.prems" n Some t
      by (cases "op_is_in op (odd ai') (odd bi') = odd (cr_len cr)")
        (auto simp: cr_op_loop.simps [of op a b ai bi])
  qed
qed

lemma cr_op_alloc_ok: "(\<And>n. cr_realloc_func cr n) \<Longrightarrow> \<exists>cr'. cr_op cr a b op = (0, cr')"
  using cr_op_loop_alloc_ok [of cr op a b 0 0] by (auto simp: cr_op_def)

subsection \<open>The algebra of code point sets\<close>

text \<open>
  What the clients (the property expressions of \<open>unicode_prop_ops\<close>, the character classes
  of the pattern compiler, case canonicalisation) rely on: each operation either runs out
  of memory or returns the one canonical vector of the result set.
\<close>

locale cp_set =
  fixes app :: "char_range_op \<Rightarrow> 's \<Rightarrow> 's \<Rightarrow> 's option"
    and mem :: "'s \<Rightarrow> u32 \<Rightarrow> bool"
    and canon :: "'s \<Rightarrow> bool"
  assumes app_mem: "\<lbrakk>app op a b = Some r; canon a; canon b\<rbrakk> \<Longrightarrow> mem r c = op_is_in op (mem a c) (mem b c)"
    and app_canon: "\<lbrakk>app op a b = Some r; canon a; canon b\<rbrakk> \<Longrightarrow> canon r"
    and ext: "\<lbrakk>canon a; canon b; \<forall>c. mem a c = mem b c\<rbrakk> \<Longrightarrow> a = b"
begin

lemma app_unique:
  assumes "app op a b = Some r" "app op' a' b' = Some r'" "canon a" "canon b" "canon a'" "canon b'"
    and "\<And>c. op_is_in op (mem a c) (mem b c) = op_is_in op' (mem a' c) (mem b' c)"
  shows "r = r'"
  using assms by (auto intro!: ext simp: app_mem dest: app_canon)

lemma app_commute:
  "\<lbrakk>app op a b = Some r; app op b a = Some r'; canon a; canon b; op \<noteq> CR_OP_SUB\<rbrakk> \<Longrightarrow> r = r'"
  by (rule app_unique [of op a b r op b a r']) (auto simp: op_is_in_def split: char_range_op.splits)

lemma sub_then_union:
  assumes "app CR_OP_SUB a b = Some d" "app CR_OP_INTER a b = Some i" "app CR_OP_UNION d i = Some r"
    and "canon a" "canon b"
  shows "r = a"
proof (rule ext)
  note c = app_canon [OF assms(1,4,5)] app_canon [OF assms(2,4,5)]
  show "canon r" "canon a" using app_canon [OF assms(3)] c assms(4) by auto
  show "\<forall>x. mem r x = mem a x"
    using app_mem [OF assms(1,4,5)] app_mem [OF assms(2,4,5)] app_mem [OF assms(3) c]
    by (auto simp: op_is_in_def)
qed

lemma xor_as_subs:
  assumes "app CR_OP_SUB a b = Some d" "app CR_OP_SUB b a = Some e" "app CR_OP_UNION d e = Some r"
    and "app CR_OP_XOR a b = Some x" "canon a" "canon b"
  shows "r = x"
proof (rule ext)
  note c = app_canon [OF assms(1,5,6)] app_canon [OF assms(2,6,5)]
  show "canon r" "canon x" using app_canon [OF assms(3)] c app_canon [OF assms(4-6)] by auto
  show "\<forall>c. mem r c = mem x c"
    using app_mem [OF assms(1,5,6)] app_mem [OF assms(2,6,5)] app_mem [OF assms(3) c]
      app_mem [OF assms(4-6)]
    by (auto simp: op_is_in_def)
qed

text \<open>Unions of a list of sets, in order, stopping at the first failure.\<close>

fun union_all :: "'s \<Rightarrow> 's list \<Rightarrow> 's option" where
  "union_all a [] = Some a"
| "union_all a (b # bs) = (case app CR_OP_UNION a b of None \<Rightarrow> None | Some r \<Rightarrow> union_all r bs)"

lemma union_all_mem:
  "\<lbrakk>union_all a bs = Some r; canon a; \<forall>b \<in> set bs. canon b\<rbrakk> \<Longrightarrow>
   canon r \<and> mem r c = (mem a c \<or> (\<exists>b \<in> set bs. mem b c))"
proof (induction bs arbitrary: a)
  case (Cons b bs)
  then obtain m where m: "app CR_OP_UNION a b = Some m" "union_all m bs = Some r"
    by (auto split: option.splits)
  with Cons have "canon m" by (auto dest: app_canon)
  with m Cons show ?case by (auto simp: app_mem op_is_in_def)
qed simp

end

text \<open>The vectors of the library with \<open>cr_op\<close> into a fresh vector.\<close>

definition cr_app :: "realloc_func \<Rightarrow> char_range_op \<Rightarrow> u32 list \<Rightarrow> u32 list \<Rightarrow> u32 list option" where
  "cr_app ra op a b =
     (case cr_op (cr_init ra) a b op of (ret, cr) \<Rightarrow> if ret = 0 then Some (cr_points cr) else None)"

interpretation crs: cp_set "cr_app ra" cr_mem cr_canonical for ra
proof
  fix op a b r c
  assume "cr_app ra op a b = Some r" "cr_canonical a" "cr_canonical b"
  moreover then obtain cr where "cr_op (cr_init ra) a b op = (0, cr)" "r = cr_points cr"
    by (auto simp: cr_app_def split: prod.splits if_splits)
  ultimately show "cr_mem r c = op_is_in op (cr_mem a c) (cr_mem b c)" "cr_canonical r"
    using cr_op_props [of "cr_init ra" a b op cr] by (simp_all add: cr_init_def cr_canonical_wf)
qed (rule cr_mem_inject)

subsection \<open>Properties\<close>

lemma cr_op_loop_ret: "fst (cr_op_loop op a b ai bi cr) = 0 \<or> fst (cr_op_loop op a b ai bi cr) = -1"
proof (induction op a b ai bi cr rule: cr_op_loop.induct)
  case (1 op a b ai bi cr)
  then show ?case
    by (subst (1 2) cr_op_loop.simps) (auto split: option.splits prod.splits)
qed

text \<open>The sets of the specification.\<close>

definition cr_set :: "u32 list \<Rightarrow> u32 set" where
  "cr_set pts = {c. cr_mem pts c}"

fun set_op :: "char_range_op \<Rightarrow> 'a set \<Rightarrow> 'a set \<Rightarrow> 'a set" where
  "set_op CR_OP_UNION A B = A \<union> B"
| "set_op CR_OP_INTER A B = A \<inter> B"
| "set_op CR_OP_XOR A B = (A - B) \<union> (B - A)"
| "set_op CR_OP_SUB A B = A - B"

lemma cr_set_op:
  "\<forall>c. cr_mem r c = op_is_in op (cr_mem a c) (cr_mem b c) \<Longrightarrow> cr_set r = set_op op (cr_set a) (cr_set b)"
  by (cases op) (auto simp: cr_set_def op_is_in_def)

text \<open>C5: \<open>cr_op\<close> into an empty vector returns 0 with the canonical vector whose members are
exactly the union, intersection, symmetric difference or difference of the two argument
vectors, or it returns -1, and then only because an allocation failed.\<close>

theorem cr_op_computes_set_operation:
  assumes "cr_points cr = []" "cr_wf a" "cr_wf b"
  shows "case cr_op cr a b op of (ret, cr') \<Rightarrow>
     ret = 0 \<and> cr_canonical (cr_points cr')
       \<and> cr_set (cr_points cr') = set_op op (cr_set a) (cr_set b)
     \<or> ret = -1 \<and> (\<exists>n. \<not> cr_realloc_func cr n)"
proof (cases "cr_op cr a b op")
  case (Pair ret cr')
  have "ret = 0 \<or> ret = -1"
    using Pair cr_op_loop_ret [of op a b 0 0 cr] by (auto simp: cr_op_def split: prod.splits if_splits)
  then show ?thesis
    using Pair cr_op_props [of cr a b op cr'] cr_op_alloc_ok [of cr a b op] assms
      cr_set_op [of "cr_points cr'" op a b] by auto
qed

theorem cr_op_computes_set_operation_witness:
  "cr_op (cr_init (\<lambda>n. n < 100)) [10, 20, 20, 30] [15, 25] CR_OP_XOR
     = (0, \<lparr>cr_points = [10, 15, 25, 30], cr_size = 6, cr_realloc_func = \<lambda>n. n < 100\<rparr>) \<and>
   cr_set [10, 15, 25, 30] = set_op CR_OP_XOR (cr_set [10, 20, 20, 30]) (cr_set [15, 25])"
proof -
  have run: "cr_op (cr_init (\<lambda>n. n < 100)) [10, 20, 20, 30] [15, 25] CR_OP_XOR
     = (0, \<lparr>cr_points = [10, 15, 25, 30], cr_size = 6, cr_realloc_func = \<lambda>n. n < 100\<rparr>)"
    by (simp add: cr_op_def cr_op_loop.simps next_point_def op_is_in_def cr_add_point_def
        cr_realloc_def cr_compress_def compress_loop.simps compress_merge.simps cr_init_def Let_def)
  moreover have "cr_points (cr_init (\<lambda>n. n < 100)) = []" "cr_wf [10, 20, 20, 30]" "cr_wf [15, 25]"
    by (simp_all add: cr_init_def cr_wf_def)
  from cr_op_computes_set_operation [OF this, of CR_OP_XOR, unfolded run]
  show ?thesis using run by simp
qed

text \<open>C22: \<open>cr_union_interval\<close> adds exactly the code points \<open>c1\<close> to \<open>c2\<close> (both included) to a set,
for any interval that does not end at the largest 32-bit value, and leaves a canonical
vector.\<close>

theorem cr_union_interval_adds_interval:
  assumes "cr_union_interval cr c1 c2 = (0, cr')" "cr_wf (cr_points cr)" "c1 \<le> c2" "c2 \<noteq> 0xFFFFFFFF"
  shows "cr_canonical (cr_points cr') \<and>
    (\<forall>c. cr_mem (cr_points cr') c = (cr_mem (cr_points cr) c \<or> c1 \<le> c \<and> c \<le> c2))"
  using cr_op1_props [of cr "[c1, c2 + 1]" CR_OP_UNION cr'] cr_mem_interval [of c1 c2] assms
  by (simp add: cr_union_interval_def op_is_in_def)

theorem cr_union_interval_adds_interval_witness:
  "cr_union_interval (cr_init (\<lambda>n. True)\<lparr>cr_points := [10, 20]\<rparr>) 20 29
     = (0, \<lparr>cr_points = [10, 30], cr_size = 2, cr_realloc_func = \<lambda>n. True\<rparr>) \<and>
   cr_mem [10, 30] 29"
proof -
  have run: "cr_union_interval (cr_init (\<lambda>n. True)\<lparr>cr_points := [10, 20]\<rparr>) 20 29
     = (0, \<lparr>cr_points = [10, 30], cr_size = 2, cr_realloc_func = \<lambda>n. True\<rparr>)"
    by (simp add: cr_union_interval_def cr_op1_def cr_op_def cr_op_loop.simps next_point_def
        op_is_in_def cr_add_point_def cr_realloc_def cr_compress_def compress_loop.simps
        compress_merge.simps cr_init_def Let_def)
  moreover have "cr_wf (cr_points (cr_init (\<lambda>n. True)\<lparr>cr_points := [10, 20]\<rparr>))"
    by (simp add: cr_init_def cr_wf_def)
  ultimately show ?thesis
    using cr_union_interval_adds_interval [OF run] by (simp add: cr_init_def)
qed

text \<open>C23: the complement. For a sorted vector of even length, \<open>cr_invert\<close> returns 0 and leaves the
canonical vector of the complement (the end point \<open>0xFFFFFFFF\<close> is excluded, it closes the last
interval), and complementing a canonical vector again gives the very same vector back; or
it returns -1, only because an allocation failed.\<close>

theorem cr_invert_complements:
  assumes "cr_invert cr = (ret, cr1)" "cr_wf (cr_points cr)"
  shows "(ret = 0 \<and> cr_canonical (cr_points cr1)
      \<and> cr_set (cr_points cr1) = - cr_set (cr_points cr) - {0xFFFFFFFF}
      \<and> (cr_canonical (cr_points cr) \<longrightarrow> (\<forall>cr2. cr_invert cr1 = (0, cr2) \<longrightarrow> cr_points cr2 = cr_points cr)))
    \<or> (ret = -1 \<and> (\<exists>n. \<not> cr_realloc_func cr n))"
proof (cases "ret = 0")
  case True
  have one: "cr_canonical (cr_points cr1)"
    "\<And>c. cr_mem (cr_points cr1) c = (c \<noteq> 0xFFFFFFFF \<and> \<not> cr_mem (cr_points cr) c)"
    using cr_invert_props [of cr cr1] assms True by simp_all
  have involutive: "cr_points cr2 = cr_points cr" if can: "cr_canonical (cr_points cr)" and inv: "cr_invert cr1 = (0, cr2)" for cr2
  proof (rule cr_mem_inject [OF _ can])
    note two = cr_invert_props [OF inv cr_canonical_wf [OF one(1)]]
    show "cr_canonical (cr_points cr2)" using two by simp
    have "\<not> cr_mem (cr_points cr) 0xFFFFFFFF"
      using can count_le_all [of "cr_points cr" "0xFFFFFFFF"] u32_le_max
      by (simp add: cr_mem_def cr_canonical_def)
    then show "\<forall>c. cr_mem (cr_points cr2) c = cr_mem (cr_points cr) c"
      using one two by auto
  qed
  have "cr_set (cr_points cr1) = - cr_set (cr_points cr) - {0xFFFFFFFF}"
    unfolding cr_set_def one(2) by auto
  then show ?thesis using True one(1) involutive by blast
next
  case False
  obtain r cr' where re: "cr_realloc cr (cr_len cr + 2) = (r, cr')" by force
  with False assms(1) have "r \<noteq> 0" "ret = -1" by (auto simp: cr_invert_def split: if_splits)
  then show ?thesis using re by (auto simp: cr_realloc_def Let_def split: if_splits)
qed

theorem cr_invert_complements_witness:
  "cr_invert (cr_init (\<lambda>n. True)\<lparr>cr_points := [0, 48, 58, 0xFFFFFFFF]\<rparr>)
     = (0, \<lparr>cr_points = [48, 58], cr_size = 6, cr_realloc_func = \<lambda>n. True\<rparr>) \<and>
   cr_set [48, 58] = - cr_set [0, 48, 58, 0xFFFFFFFF] - {0xFFFFFFFF}"
proof -
  let ?cr = "cr_init (\<lambda>n. True)\<lparr>cr_points := [0, 48, 58, 0xFFFFFFFF]\<rparr>"
  have one: "cr_invert ?cr = (0, \<lparr>cr_points = [48, 58], cr_size = 6, cr_realloc_func = \<lambda>n. True\<rparr>)"
    by (simp add: cr_invert_def cr_realloc_def cr_compress_def compress_loop.simps
        compress_merge.simps cr_init_def Let_def)
  have "cr_wf (cr_points ?cr)" by (simp add: cr_wf_def)
  from cr_invert_complements [OF one this] one show ?thesis by simp
qed

end
