(* ===== verification/CaseConv.thy ===== *)
theory CaseConv
  imports CaseTables CharRange
begin

text \<open>
  Case conversion and character classification of \<open>libregexp/libunicode.c\<close>:
  \<open>lre_case_conv\<close>, \<open>lre_canonicalize\<close>, the byte classes and \<open>lre_is_space\<close>. That the binary
  search finds the table entry of a code point exactly when there is one is shown in
  \<open>CharRangeFold\<close>, next to the other facts on the table.
\<close>

subsection \<open>Searching the table\<close>

text \<open>An entry packs the first code point (17 bits), the run length (7), the type (4) and data (4).\<close>

definition entry_code :: "u32 \<Rightarrow> u32" where
  "entry_code v = drop_bit 15 v"

definition entry_len :: "u32 \<Rightarrow> u32" where
  "entry_len v = drop_bit 8 v AND 0x7f"

function case_search_loop :: "u32 \<Rightarrow> int \<Rightarrow> int \<Rightarrow> (nat \<times> u32) option" where
  "case_search_loop c idx_min idx_max =
     (if idx_min \<le> idx_max then
        let idx = (idx_max + idx_min) div 2;
            v = case_conv_table1 ! nat idx;
            code = entry_code v;
            len = entry_len v
        in if c < code then case_search_loop c idx_min (idx - 1)
           else if c \<ge> code + len then case_search_loop c (idx + 1) idx_max
           else Some (nat idx, v)
      else None)"
  by pat_completeness auto
termination
  by (relation "measure (\<lambda>(c, lo, hi). nat (hi - lo + 1))") auto

declare case_search_loop.simps [simp del]

definition case_search :: "u32 \<Rightarrow> (nat \<times> u32) option" where
  "case_search c = case_search_loop c 0 (int (length case_conv_table1) - 1)"

subsection \<open>Conversion\<close>

text \<open>
  The run types, in the order of the C enumeration. \<open>conv_type\<close> is 0 for upper case, 1 for
  lower case and 2 for folding. The result is the list \<open>res[0 ..< n]\<close>.
\<close>

abbreviation (input) "RUN_TYPE_U \<equiv> (0 :: u32)"
abbreviation (input) "RUN_TYPE_L \<equiv> (1 :: u32)"
abbreviation (input) "RUN_TYPE_UF \<equiv> (2 :: u32)"
abbreviation (input) "RUN_TYPE_LF \<equiv> (3 :: u32)"
abbreviation (input) "RUN_TYPE_UL \<equiv> (4 :: u32)"
abbreviation (input) "RUN_TYPE_LSU \<equiv> (5 :: u32)"
abbreviation (input) "RUN_TYPE_U2L_399_EXT2 \<equiv> (6 :: u32)"
abbreviation (input) "RUN_TYPE_UF_D20 \<equiv> (7 :: u32)"
abbreviation (input) "RUN_TYPE_UF_D1_EXT \<equiv> (8 :: u32)"
abbreviation (input) "RUN_TYPE_U_EXT \<equiv> (9 :: u32)"
abbreviation (input) "RUN_TYPE_LF_EXT \<equiv> (10 :: u32)"
abbreviation (input) "RUN_TYPE_UF_EXT2 \<equiv> (11 :: u32)"
abbreviation (input) "RUN_TYPE_LF_EXT2 \<equiv> (12 :: u32)"
abbreviation (input) "RUN_TYPE_UF_EXT3 \<equiv> (13 :: u32)"

definition ascii_lower :: "u32 \<Rightarrow> u32" where
  "ascii_lower c = (if c \<ge> 0x41 \<and> c \<le> 0x5a then c - 0x41 + 0x61 else c)"

definition ascii_upper :: "u32 \<Rightarrow> u32" where
  "ascii_upper c = (if c \<ge> 0x61 \<and> c \<le> 0x7a then c - 0x61 + 0x41 else c)"

definition ext :: "u32 \<Rightarrow> u32" where
  "ext i = ucast (case_conv_ext ! unat i)"

function lre_case_conv_entry :: "u32 \<Rightarrow> u32 \<Rightarrow> nat \<Rightarrow> u32 \<Rightarrow> u32 list"
  and lre_case_conv :: "u32 \<Rightarrow> u32 \<Rightarrow> u32 list" where
  "lre_case_conv_entry c conv_type idx v =
     (let is_lower = (if conv_type \<noteq> 0 then 1 else 0) :: u32;
          typ = drop_bit 4 v AND 0xf;
          data = push_bit 8 (v AND 0xf) OR ucast (case_conv_table2 ! idx);
          code = entry_code v;
          lower1 = (\<lambda>x. if conv_type = 2 then hd (lre_case_conv x 1) else x)
      in if typ \<le> RUN_TYPE_LF then
           (if conv_type = typ AND 1 \<or> typ \<ge> RUN_TYPE_UF \<and> conv_type = 2
            then [c - code + entry_code (case_conv_table1 ! unat data)] else [c])
         else if typ = RUN_TYPE_UL then
           (let a = c - code in
            if a AND 1 \<noteq> 1 - is_lower then [c] else [(a XOR 1) + code])
         else if typ = RUN_TYPE_LSU then
           (let a = c - code in
            if a = 1 then [c + (2 * is_lower - 1)]
            else if a = (1 - is_lower) * 2 then [c + (2 * is_lower - 1) * 2]
            else [c])
         else if typ = RUN_TYPE_U2L_399_EXT2 then
           (if is_lower = 0 then [c - code + ext (drop_bit 6 data), 0x399]
            else [c - code + ext (data AND 0x3f)])
         else if typ = RUN_TYPE_UF_D20 then
           (if conv_type = 1 then [c] else [data + (if conv_type = 2 then 0x20 else 0)])
         else if typ = RUN_TYPE_UF_D1_EXT then
           (if conv_type = 1 then [c] else [ext data + (if conv_type = 2 then 1 else 0)])
         else if typ = RUN_TYPE_U_EXT \<or> typ = RUN_TYPE_LF_EXT then
           (if is_lower \<noteq> typ - RUN_TYPE_U_EXT then [c] else [ext data])
         else if typ = RUN_TYPE_LF_EXT2 then
           (if is_lower = 0 then [c]
            else [c - code + ext (drop_bit 6 data), ext (data AND 0x3f)])
         else if typ = RUN_TYPE_UF_EXT2 then
           (if conv_type = 1 then [c]
            else [lower1 (c - code + ext (drop_bit 6 data)), lower1 (ext (data AND 0x3f))])
         else
           (if conv_type = 1 then [c]
            else [lower1 (ext (drop_bit 8 data)), lower1 (ext (drop_bit 4 data AND 0xf)),
                  lower1 (ext (data AND 0xf))]))"
| "lre_case_conv c conv_type =
     (if c < 128 then [if conv_type \<noteq> 0 then ascii_lower c else ascii_upper c]
      else case case_search c of
             Some (idx, v) \<Rightarrow> lre_case_conv_entry c conv_type idx v
           | None \<Rightarrow> [c])"
  by pat_completeness auto
termination
  by (relation "measure (\<lambda>x. case x of
      Inl (c, conv_type, idx, v) \<Rightarrow> if conv_type = 2 then 2 else 0
    | Inr (c, conv_type) \<Rightarrow> if conv_type = 2 then 3 else 1)")
    auto

declare lre_case_conv_entry.simps [simp del] lre_case_conv.simps [simp del]

definition lre_case_folding_entry :: "u32 \<Rightarrow> nat \<Rightarrow> u32 \<Rightarrow> bool \<Rightarrow> u32" where
  "lre_case_folding_entry c idx v is_unicode =
     (if is_unicode then
        (let res = lre_case_conv_entry c 2 idx v in
         if length res = 1 then hd res
         else if c = 0xfb06 then 0xfb05
         else if c = 0x1fd3 then 0x390
         else if c = 0x1fe3 then 0x3b0
         else c)
      else if c < 128 then ascii_upper c
      else
        (let res = lre_case_conv_entry c 0 idx v in
         if length res = 1 \<and> hd res \<ge> 128 then hd res else c))"

definition lre_canonicalize :: "u32 \<Rightarrow> bool \<Rightarrow> u32" where
  "lre_canonicalize c is_unicode =
     (if c < 128 then (if is_unicode then ascii_lower c else ascii_upper c)
      else case case_search c of
             Some (idx, v) \<Rightarrow> lre_case_folding_entry c idx v is_unicode
           | None \<Rightarrow> c)"

subsection \<open>Character classes\<close>

definition ctype_has :: "u8 \<Rightarrow> u8 \<Rightarrow> bool" where
  "ctype_has m c \<longleftrightarrow> lre_ctype_bits ! unat c AND m \<noteq> 0"

definition lre_is_space_byte :: "u8 \<Rightarrow> bool" where
  "lre_is_space_byte = ctype_has UNICODE_C_SPACE"

definition lre_is_id_start_byte :: "u8 \<Rightarrow> bool" where
  "lre_is_id_start_byte =
     ctype_has (UNICODE_C_UPPER OR UNICODE_C_LOWER OR UNICODE_C_UNDER OR UNICODE_C_DOLLAR)"

definition lre_is_id_continue_byte :: "u8 \<Rightarrow> bool" where
  "lre_is_id_continue_byte =
     ctype_has (UNICODE_C_UPPER OR UNICODE_C_LOWER OR UNICODE_C_UNDER OR UNICODE_C_DOLLAR
       OR UNICODE_C_DIGIT)"

definition lre_is_word_byte :: "u8 \<Rightarrow> bool" where
  "lre_is_word_byte =
     ctype_has (UNICODE_C_UPPER OR UNICODE_C_LOWER OR UNICODE_C_UNDER OR UNICODE_C_DIGIT)"

fun space_scan :: "u32 \<Rightarrow> u16 list \<Rightarrow> bool" where
  "space_scan c (low # high # rest) =
     (if c < ucast low then False else if c < ucast high then True else space_scan c rest)"
| "space_scan c _ = False"

definition lre_is_space_non_ascii :: "u32 \<Rightarrow> bool" where
  "lre_is_space_non_ascii c = space_scan c (drop 5 char_range_space)"

definition lre_is_space :: "u32 \<Rightarrow> bool" where
  "lre_is_space c = (if c < 256 then lre_is_space_byte (ucast c) else lre_is_space_non_ascii c)"

definition is_line_terminator :: "u32 \<Rightarrow> bool" where
  "is_line_terminator c \<longleftrightarrow> c = 10 \<or> c = 13 \<or> c = 0x2028 \<or> c = 0x2029"

end
