(* ===== verification/RegexpExec.thy ===== *)
theory RegexpExec
  imports RegexpBytecode CaseConv "HOL-Library.Monad_Syntax"
begin

text \<open>
  The backtracking matcher \<open>lre_exec_backtrack\<close> and \<open>lre_exec\<close> of \<open>libregexp/libregexp.c\<close>.
  Pointers into the bytecode and into the subject are indices; the subject is its list of
  code units, zero extended as the loads of the code do it. The explicit stack is an array
  of cells with the indices \<open>sp\<close> and \<open>bp\<close>. Whatever the C code leaves undefined (an access
  outside the bytecode, the subject, \<open>capture\<close> or the stack, a cell read as something else
  than what was stored, \<open>abort\<close>) is the outcome \<open>Stuck\<close>.
\<close>

subsection \<open>State\<close>

text \<open>
  A slot of \<open>capture\<close> holds a null pointer, a pointer into the subject or, for a register,
  a small integer cast to a pointer.
\<close>

datatype cap = CapNull | CapPtr nat | CapInt u32

definition cap_of_u32 :: "u32 \<Rightarrow> cap" where
  "cap_of_u32 v = (if v = 0 then CapNull else CapInt v)"

fun cap_u32 :: "cap \<Rightarrow> u32 option" where
  "cap_u32 CapNull = Some 0"
| "cap_u32 (CapInt v) = Some v"
| "cap_u32 (CapPtr p) = None"

text \<open>\<open>capture[idx] == cptr\<close>: comparing with a cast integer is left undefined.\<close>

fun cap_eq_ptr :: "cap \<Rightarrow> nat \<Rightarrow> bool option" where
  "cap_eq_ptr CapNull p = Some False"
| "cap_eq_ptr (CapPtr q) p = Some (q = p)"
| "cap_eq_ptr (CapInt v) p = None"

datatype exec_type = EXEC_SPLIT | EXEC_LOOKAHEAD | EXEC_NEGATIVE_LOOKAHEAD

text \<open>The cells of the stack, one constructor per use of the union.\<close>

datatype stack_elem =
    SUninit
  | SVal nat
  | SCap cap
  | SPc nat
  | SPos nat
  | SBp nat exec_type
  | SSp nat

record re_ctx =
  rx_bc :: "u8 list"
  rx_cbuf :: "u32 list"
  rx_cbuf_type :: nat
  rx_capture_count :: nat
  rx_is_unicode :: bool
  rx_realloc :: realloc_func
  rx_timeout :: bool

record re_state =
  st_pc :: nat
  st_cptr :: nat
  st_capture :: "cap list"
  st_stack :: "stack_elem list"
  st_sp :: nat
  st_bp :: nat
  st_interrupt :: int

datatype 's re_res =
    Next 's
  | Exit int "cap list"
  | Stuck

abbreviation (input) "INTERRUPT_COUNTER_INIT \<equiv> (10000 :: int)"

definition lre_poll_timeout :: "re_ctx \<Rightarrow> int \<Rightarrow> int \<times> int" where
  "lre_poll_timeout ctx counter =
     (let counter' = counter - 1 in
      if counter' \<le> 0 then
        (if rx_timeout ctx then LRE_RET_TIMEOUT else 0, INTERRUPT_COUNTER_INIT)
      else (0, counter'))"

subsection \<open>Characters of the subject\<close>

abbreviation clen :: "re_ctx \<Rightarrow> nat" where
  "clen ctx \<equiv> length (rx_cbuf ctx)"

text \<open>
  The macros \<open>GET_CHAR\<close>, \<open>PEEK_CHAR\<close>, \<open>GET_PREV_CHAR\<close>, \<open>PEEK_PREV_CHAR\<close> and \<open>PREV_CHAR\<close>:
  the character and the position after it (before it). \<open>e\<close> and \<open>b\<close> are the bounds the
  macro is called with.
\<close>

definition get_char :: "re_ctx \<Rightarrow> nat \<Rightarrow> nat \<Rightarrow> (u32 \<times> nat) option" where
  "get_char ctx p e =
     (if p < clen ctx then
        let c = rx_cbuf ctx ! p in
        if rx_cbuf_type ctx = 2 \<and> is_hi_surrogate c \<and> p + 1 < e then
          if p + 1 < clen ctx then
            if is_lo_surrogate (rx_cbuf ctx ! (p + 1))
            then Some (from_surrogate c (rx_cbuf ctx ! (p + 1)), p + 2)
            else Some (c, p + 1)
          else None
        else Some (c, p + 1)
      else None)"

definition get_prev_char :: "re_ctx \<Rightarrow> nat \<Rightarrow> nat \<Rightarrow> (u32 \<times> nat) option" where
  "get_prev_char ctx p b =
     (if 0 < p \<and> p \<le> clen ctx then
        let q = p - 1; c = rx_cbuf ctx ! q in
        if rx_cbuf_type ctx = 2 \<and> is_lo_surrogate c \<and> q > b \<and> is_hi_surrogate (rx_cbuf ctx ! (q - 1))
        then Some (from_surrogate (rx_cbuf ctx ! (q - 1)) c, q - 1)
        else Some (c, q)
      else None)"

lemma get_char_next: "get_char ctx p e = Some (c, q) \<Longrightarrow> p < q \<and> q \<le> clen ctx"
  by (auto simp: get_char_def Let_def split: if_splits)

lemma get_prev_char_prev: "get_prev_char ctx p b = Some (c, q) \<Longrightarrow> q < p"
  by (auto simp: get_prev_char_def Let_def split: if_splits)

subsection \<open>What an instruction asks of the machine\<close>

text \<open>
  An instruction decodes to the saves it makes in \<open>capture\<close> (checked against the saves of
  the current choice point or not), the stack space it claims first, and where it goes.
  \<open>Jump\<close> continues at a position, polling the timeout when the flag is set; \<open>Split\<close> pushes
  a choice point of a kind with its own \<open>pc\<close> and continues; the rest are the labels and
  returns of the C function.
\<close>

datatype ctl =
    Jump bool nat nat
  | Split exec_type nat nat nat
  | No_match
  | Bytecode_error
  | Match
  | Lookahead_match
  | Negative_lookahead_match

record action =
  act_reserve :: nat
  act_saves :: "(bool \<times> nat \<times> cap) list"
  act_ctl :: ctl

abbreviation act :: "ctl \<Rightarrow> action" where
  "act c \<equiv> \<lparr>act_reserve = 0, act_saves = [], act_ctl = c\<rparr>"

abbreviation act_save :: "(bool \<times> nat \<times> cap) list \<Rightarrow> ctl \<Rightarrow> action" where
  "act_save svs c \<equiv> \<lparr>act_reserve = 0, act_saves = svs, act_ctl = c\<rparr>"

text \<open>\<open>pc + (int)val\<close>: a target before the buffer is undefined.\<close>

definition jump_target :: "nat \<Rightarrow> u32 \<Rightarrow> nat option" where
  "jump_target pc val =
     (let t = int pc + sint val in if t < 0 then None else Some (nat t))"

subsection \<open>Decoding one instruction\<close>

text \<open>In the definitions of this section \<open>pc\<close> is the position after the opcode byte.\<close>

definition cap_at :: "cap list \<Rightarrow> nat \<Rightarrow> cap option" where
  "cap_at capture i = (if i < length capture then Some (capture ! i) else None)"

definition re_test_char :: "re_ctx \<Rightarrow> bool \<Rightarrow> u32 \<Rightarrow> nat \<Rightarrow> nat \<Rightarrow> action option" where
  "re_test_char ctx ic val pc cptr =
     (if cptr \<ge> clen ctx then Some (act No_match)
      else do {
        (c, q) \<leftarrow> get_char ctx cptr (clen ctx);
        Some (act (if val \<noteq> (if ic then lre_canonicalize c (rx_is_unicode ctx) else c)
                   then No_match else Jump False pc q))
      })"

definition re_split :: "bool \<Rightarrow> u32 \<Rightarrow> nat \<Rightarrow> nat \<Rightarrow> ctl option" where
  "re_split next_first val pc cptr =
     do {
       t \<leftarrow> jump_target pc val;
       Some (if next_first then Split EXEC_SPLIT t pc cptr else Split EXEC_SPLIT pc t cptr)
     }"

text \<open>\<open>REOP_dot\<close>, \<open>REOP_any\<close>, \<open>REOP_space\<close> and \<open>REOP_not_space\<close> differ in the accepted set.\<close>

definition re_class :: "re_ctx \<Rightarrow> (u32 \<Rightarrow> bool) \<Rightarrow> nat \<Rightarrow> nat \<Rightarrow> action option" where
  "re_class ctx P pc cptr =
     (if cptr = clen ctx then Some (act No_match)
      else do {
        (c, q) \<leftarrow> get_char ctx cptr (clen ctx);
        Some (act (if P c then Jump False pc q else No_match))
      })"

definition re_line_start :: "re_ctx \<Rightarrow> bool \<Rightarrow> nat \<Rightarrow> nat \<Rightarrow> action option" where
  "re_line_start ctx multi pc cptr =
     (if cptr = 0 then Some (act (Jump False pc cptr))
      else if \<not> multi then Some (act No_match)
      else do {
        (c, q) \<leftarrow> get_prev_char ctx cptr 0;
        Some (act (if is_line_terminator c then Jump False pc cptr else No_match))
      })"

definition re_line_end :: "re_ctx \<Rightarrow> bool \<Rightarrow> nat \<Rightarrow> nat \<Rightarrow> action option" where
  "re_line_end ctx multi pc cptr =
     (if cptr = clen ctx then Some (act (Jump False pc cptr))
      else if \<not> multi then Some (act No_match)
      else do {
        (c, q) \<leftarrow> get_char ctx cptr (clen ctx);
        Some (act (if is_line_terminator c then Jump False pc cptr else No_match))
      })"

definition re_save :: "re_ctx \<Rightarrow> nat \<Rightarrow> nat \<Rightarrow> nat \<Rightarrow> action option" where
  "re_save ctx k pc cptr =
     do {
       val \<leftarrow> bc8 (rx_bc ctx) pc;
       Some (if unat val \<ge> rx_capture_count ctx then act Bytecode_error
             else act_save [(False, 2 * unat val + k, CapPtr cptr)] (Jump False (pc + 1) cptr))
     }"

definition re_save_reset :: "re_ctx \<Rightarrow> nat \<Rightarrow> nat \<Rightarrow> action option" where
  "re_save_reset ctx pc cptr =
     do {
       val \<leftarrow> bc8 (rx_bc ctx) pc;
       val2 \<leftarrow> bc8 (rx_bc ctx) (pc + 1);
       Some (if unat val2 \<ge> rx_capture_count ctx then act Bytecode_error
             else \<lparr>act_reserve = unat (2 * (ucast val2 - ucast val + 1) :: u32),
                   act_saves = concat (map (\<lambda>v. [(False, 2 * v, CapNull), (False, 2 * v + 1, CapNull)])
                     [unat val ..< unat val2 + 1]),
                   act_ctl = Jump False (pc + 2) cptr\<rparr>)
     }"

text \<open>The index of the register named by the operand at \<open>pc\<close>.\<close>

definition re_register :: "re_ctx \<Rightarrow> nat \<Rightarrow> nat option" where
  "re_register ctx pc = map_option (\<lambda>r. 2 * rx_capture_count ctx + unat r) (bc8 (rx_bc ctx) pc)"

definition re_set_i32 :: "re_ctx \<Rightarrow> nat \<Rightarrow> nat \<Rightarrow> action option" where
  "re_set_i32 ctx pc cptr =
     do {
       idx \<leftarrow> re_register ctx pc;
       val \<leftarrow> bc32 (rx_bc ctx) (pc + 1);
       Some (act_save [(True, idx, cap_of_u32 val)] (Jump False (pc + 5) cptr))
     }"

definition re_loop :: "re_ctx \<Rightarrow> nat \<Rightarrow> nat \<Rightarrow> cap list \<Rightarrow> action option" where
  "re_loop ctx pc cptr capture =
     do {
       idx \<leftarrow> re_register ctx pc;
       val \<leftarrow> bc32 (rx_bc ctx) (pc + 1);
       old \<leftarrow> cap_at capture idx;
       n \<leftarrow> cap_u32 old;
       let val2 = n - 1;
       t \<leftarrow> (if val2 \<noteq> 0 then jump_target (pc + 5) val else Some (pc + 5));
       Some (act_save [(True, idx, cap_of_u32 val2)] (Jump (val2 \<noteq> 0) t cptr))
     }"

definition re_loop_split ::
    "re_ctx \<Rightarrow> bool \<Rightarrow> bool \<Rightarrow> nat \<Rightarrow> nat \<Rightarrow> cap list \<Rightarrow> action option" where
  "re_loop_split ctx check_adv next_first pc cptr capture =
     do {
       idx \<leftarrow> re_register ctx pc;
       limit \<leftarrow> bc32 (rx_bc ctx) (pc + 1);
       val \<leftarrow> bc32 (rx_bc ctx) (pc + 5);
       old \<leftarrow> cap_at capture idx;
       n \<leftarrow> cap_u32 old;
       let val2 = n - 1;
       let svs = [(True, idx, cap_of_u32 val2)];
       if val2 > limit then do {
         t \<leftarrow> jump_target (pc + 9) val;
         Some (act_save svs (Jump True t cptr))
       } else do {
         same \<leftarrow> (if check_adv then do { p \<leftarrow> cap_at capture (idx + 1); cap_eq_ptr p cptr }
                 else Some False);
         if same \<and> val2 \<noteq> limit then Some (act_save svs No_match)
         else if val2 \<noteq> 0 then do {
           c \<leftarrow> re_split next_first val (pc + 9) cptr;
           Some (act_save svs c)
         } else Some (act_save svs (Jump False (pc + 9) cptr))
       }
     }"

definition re_set_char_pos :: "re_ctx \<Rightarrow> nat \<Rightarrow> nat \<Rightarrow> action option" where
  "re_set_char_pos ctx pc cptr =
     do {
       idx \<leftarrow> re_register ctx pc;
       Some (act_save [(True, idx, CapPtr cptr)] (Jump False (pc + 1) cptr))
     }"

definition re_check_advance :: "re_ctx \<Rightarrow> nat \<Rightarrow> nat \<Rightarrow> cap list \<Rightarrow> action option" where
  "re_check_advance ctx pc cptr capture =
     do {
       idx \<leftarrow> re_register ctx pc;
       p \<leftarrow> cap_at capture idx;
       same \<leftarrow> cap_eq_ptr p cptr;
       Some (act (if same then No_match else Jump False (pc + 1) cptr))
     }"

definition re_is_word :: "bool \<Rightarrow> u32 \<Rightarrow> bool" where
  "re_is_word ignore_case c =
     (if c < 256 then lre_is_word_byte (ucast c)
      else ignore_case \<and> (c = 0x017f \<or> c = 0x212a))"

definition re_word_boundary ::
    "re_ctx \<Rightarrow> bool \<Rightarrow> bool \<Rightarrow> nat \<Rightarrow> nat \<Rightarrow> action option" where
  "re_word_boundary ctx ignore_case is_boundary pc cptr =
     do {
       v1 \<leftarrow> (if cptr = 0 then Some False
              else map_option (\<lambda>(c, q). re_is_word ignore_case c) (get_prev_char ctx cptr 0));
       v2 \<leftarrow> (if cptr \<ge> clen ctx then Some False
              else map_option (\<lambda>(c, q). re_is_word ignore_case c)
                     (get_char ctx cptr (clen ctx)));
       Some (act (if (v1 \<noteq> v2) \<noteq> is_boundary then No_match else Jump False pc cptr))
     }"

text \<open>
  Back references. The two loops compare the captured text \<open>p1 .. e1\<close> with the subject at
  \<open>p\<close>, forwards or (inside a look-behind) backwards; \<open>Some None\<close> is a mismatch.
\<close>

definition canon_if :: "re_ctx \<Rightarrow> bool \<Rightarrow> u32 \<Rightarrow> u32" where
  "canon_if ctx ic c = (if ic then lre_canonicalize c (rx_is_unicode ctx) else c)"

function backref_fwd :: "re_ctx \<Rightarrow> bool \<Rightarrow> nat \<Rightarrow> nat \<Rightarrow> nat \<Rightarrow> nat option option" where
  "backref_fwd ctx ic p1 e1 p =
     (if p1 < e1 then
        if p \<ge> clen ctx then Some None
        else case get_char ctx p1 e1 of
          None \<Rightarrow> None
        | Some (c1, q1) \<Rightarrow>
            (case get_char ctx p (clen ctx) of
               None \<Rightarrow> None
             | Some (c2, q) \<Rightarrow>
                 if canon_if ctx ic c1 \<noteq> canon_if ctx ic c2 then Some None
                 else backref_fwd ctx ic q1 e1 q)
      else Some (Some p))"
  by pat_completeness auto
termination
  by (relation "measure (\<lambda>(ctx, ic, p1, e1, p). e1 - p1)")
    (auto dest!: get_char_next intro: diff_less_mono2)

function backref_bwd :: "re_ctx \<Rightarrow> bool \<Rightarrow> nat \<Rightarrow> nat \<Rightarrow> nat \<Rightarrow> nat option option" where
  "backref_bwd ctx ic p1 s1 p =
     (if p1 > s1 then
        if p = 0 then Some None
        else case get_prev_char ctx p1 s1 of
          None \<Rightarrow> None
        | Some (c1, q1) \<Rightarrow>
            (case get_prev_char ctx p 0 of
               None \<Rightarrow> None
             | Some (c2, q) \<Rightarrow>
                 if canon_if ctx ic c1 \<noteq> canon_if ctx ic c2 then Some None
                 else backref_bwd ctx ic q1 s1 q)
      else Some (Some p))"
  by pat_completeness auto
termination
  by (relation "measure (\<lambda>(ctx, ic, p1, s1, p). p1)") (auto dest!: get_prev_char_prev)

declare backref_fwd.simps [simp del] backref_bwd.simps [simp del]

text \<open>The \<open>n\<close> candidate groups in order; the first one that has captured decides.\<close>

fun backref_groups ::
    "re_ctx \<Rightarrow> bool \<Rightarrow> bool \<Rightarrow> cap list \<Rightarrow> u8 list \<Rightarrow> nat \<Rightarrow> nat option option" where
  "backref_groups ctx ic backward capture [] cptr = Some (Some cptr)"
| "backref_groups ctx ic backward capture (val # vals) cptr =
     (if unat val \<ge> rx_capture_count ctx then Some None
      else do {
        s \<leftarrow> cap_at capture (2 * unat val);
        e \<leftarrow> cap_at capture (2 * unat val + 1);
        (case (s, e) of
           (CapPtr s1, CapPtr e1) \<Rightarrow>
             if backward then backref_bwd ctx ic e1 s1 cptr else backref_fwd ctx ic s1 e1 cptr
         | (CapInt _, _) \<Rightarrow> None
         | (_, CapInt _) \<Rightarrow> None
         | _ \<Rightarrow> backref_groups ctx ic backward capture vals cptr)
      })"

definition re_back_reference ::
    "re_ctx \<Rightarrow> bool \<Rightarrow> bool \<Rightarrow> nat \<Rightarrow> nat \<Rightarrow> cap list \<Rightarrow> action option" where
  "re_back_reference ctx ic backward pc cptr capture =
     do {
       n \<leftarrow> bc8 (rx_bc ctx) pc;
       if pc + 1 + unat n \<le> length (rx_bc ctx) then do {
         r \<leftarrow> backref_groups ctx ic backward capture
                (take (unat n) (drop (pc + 1) (rx_bc ctx))) cptr;
         Some (act (case r of None \<Rightarrow> No_match | Some q \<Rightarrow> Jump False (pc + 1 + unat n) q))
       } else None
     }"

text \<open>
  The binary search of \<open>REOP_range\<close> (\<open>w = 2\<close>) and \<open>REOP_range32\<close> (\<open>w = 4\<close>) over the pairs
  at \<open>pc\<close>. \<open>idx - 1\<close> never wraps, because the first \<open>low\<close> has been tested before.
\<close>

definition bcw :: "nat \<Rightarrow> u8 list \<Rightarrow> nat \<Rightarrow> u32 option" where
  "bcw w bc i = (if w = 2 then bc16 bc i else bc32 bc i)"

function range_search :: "nat \<Rightarrow> u8 list \<Rightarrow> nat \<Rightarrow> u32 \<Rightarrow> nat \<Rightarrow> nat \<Rightarrow> bool option" where
  "range_search w bc pc c idx_min idx_max =
     (if idx_min \<le> idx_max then
        let idx = (idx_min + idx_max) div 2 in
        case (bcw w bc (pc + idx * (2 * w)), bcw w bc (pc + idx * (2 * w) + w)) of
          (Some low, Some high) \<Rightarrow>
            if c < low then (if idx = 0 then None else range_search w bc pc c idx_min (idx - 1))
            else if c > high then range_search w bc pc c (idx + 1) idx_max
            else Some True
        | _ \<Rightarrow> None
      else Some False)"
  by pat_completeness auto
termination
  by (relation "measure (\<lambda>(w, bc, pc, c, lo, hi). hi + 1 - lo)") auto

declare range_search.simps [simp del]

definition re_range :: "nat \<Rightarrow> re_ctx \<Rightarrow> bool \<Rightarrow> nat \<Rightarrow> nat \<Rightarrow> action option" where
  "re_range w ctx ic pc cptr =
     do {
       n32 \<leftarrow> bc16 (rx_bc ctx) pc;
       let n = unat n32;
       if cptr \<ge> clen ctx then Some (act No_match)
       else do {
         (c0, q) \<leftarrow> get_char ctx cptr (clen ctx);
         let c = canon_if ctx ic c0;
         let base = pc + 2;
         low \<leftarrow> bcw w (rx_bc ctx) base;
         if c < low then Some (act No_match)
         else if n = 0 then None
         else do {
           high \<leftarrow> bcw w (rx_bc ctx) (base + (n - 1) * (2 * w) + w);
           let found = act (Jump False (base + 2 * w * n) q);
           if w = 2 \<and> c \<ge> 0xffff \<and> high = 0xffff then Some found
           else if c > high then Some (act No_match)
           else do {
             r \<leftarrow> range_search w (rx_bc ctx) base c 0 (n - 1);
             Some (if r then found else act No_match)
           }
         }
       }
     }"

definition re_prev :: "re_ctx \<Rightarrow> nat \<Rightarrow> nat \<Rightarrow> action option" where
  "re_prev ctx pc cptr =
     (if cptr = 0 then Some (act No_match)
      else map_option (\<lambda>(c, q). act (Jump False pc q)) (get_prev_char ctx cptr 0))"

text \<open>The switch of the interpreter; \<open>abort\<close> on an opcode that is never emitted.\<close>

fun re_instr :: "re_ctx \<Rightarrow> reop \<Rightarrow> nat \<Rightarrow> nat \<Rightarrow> cap list \<Rightarrow> action option" where
  "re_instr ctx REOP_invalid pc cptr capture = None"
| "re_instr ctx REOP_match pc cptr capture = Some (act Match)"
| "re_instr ctx REOP_lookahead_match pc cptr capture = Some (act Lookahead_match)"
| "re_instr ctx REOP_negative_lookahead_match pc cptr capture = Some (act Negative_lookahead_match)"
| "re_instr ctx REOP_char32 pc cptr capture =
     do { val \<leftarrow> bc32 (rx_bc ctx) pc; re_test_char ctx False val (pc + 4) cptr }"
| "re_instr ctx REOP_char32_i pc cptr capture =
     do { val \<leftarrow> bc32 (rx_bc ctx) pc; re_test_char ctx True val (pc + 4) cptr }"
| "re_instr ctx REOP_char pc cptr capture =
     do { val \<leftarrow> bc16 (rx_bc ctx) pc; re_test_char ctx False val (pc + 2) cptr }"
| "re_instr ctx REOP_char_i pc cptr capture =
     do { val \<leftarrow> bc16 (rx_bc ctx) pc; re_test_char ctx True val (pc + 2) cptr }"
| "re_instr ctx REOP_split_goto_first pc cptr capture =
     do { val \<leftarrow> bc32 (rx_bc ctx) pc; c \<leftarrow> re_split False val (pc + 4) cptr; Some (act c) }"
| "re_instr ctx REOP_split_next_first pc cptr capture =
     do { val \<leftarrow> bc32 (rx_bc ctx) pc; c \<leftarrow> re_split True val (pc + 4) cptr; Some (act c) }"
| "re_instr ctx REOP_lookahead pc cptr capture =
     do { val \<leftarrow> bc32 (rx_bc ctx) pc; t \<leftarrow> jump_target (pc + 4) val;
          Some (act (Split EXEC_LOOKAHEAD t (pc + 4) cptr)) }"
| "re_instr ctx REOP_negative_lookahead pc cptr capture =
     do { val \<leftarrow> bc32 (rx_bc ctx) pc; t \<leftarrow> jump_target (pc + 4) val;
          Some (act (Split EXEC_NEGATIVE_LOOKAHEAD t (pc + 4) cptr)) }"
| "re_instr ctx REOP_goto pc cptr capture =
     do { val \<leftarrow> bc32 (rx_bc ctx) pc; t \<leftarrow> jump_target (pc + 4) val;
          Some (act (Jump True t cptr)) }"
| "re_instr ctx REOP_line_start pc cptr capture = re_line_start ctx False pc cptr"
| "re_instr ctx REOP_line_start_m pc cptr capture = re_line_start ctx True pc cptr"
| "re_instr ctx REOP_line_end pc cptr capture = re_line_end ctx False pc cptr"
| "re_instr ctx REOP_line_end_m pc cptr capture = re_line_end ctx True pc cptr"
| "re_instr ctx REOP_dot pc cptr capture =
     re_class ctx (\<lambda>c. \<not> is_line_terminator c) pc cptr"
| "re_instr ctx REOP_any pc cptr capture = re_class ctx (\<lambda>c. True) pc cptr"
| "re_instr ctx REOP_space pc cptr capture = re_class ctx lre_is_space pc cptr"
| "re_instr ctx REOP_not_space pc cptr capture = re_class ctx (\<lambda>c. \<not> lre_is_space c) pc cptr"
| "re_instr ctx REOP_save_start pc cptr capture = re_save ctx 0 pc cptr"
| "re_instr ctx REOP_save_end pc cptr capture = re_save ctx 1 pc cptr"
| "re_instr ctx REOP_save_reset pc cptr capture = re_save_reset ctx pc cptr"
| "re_instr ctx REOP_set_i32 pc cptr capture = re_set_i32 ctx pc cptr"
| "re_instr ctx REOP_loop pc cptr capture = re_loop ctx pc cptr capture"
| "re_instr ctx REOP_loop_split_goto_first pc cptr capture =
     re_loop_split ctx False False pc cptr capture"
| "re_instr ctx REOP_loop_split_next_first pc cptr capture =
     re_loop_split ctx False True pc cptr capture"
| "re_instr ctx REOP_loop_check_adv_split_goto_first pc cptr capture =
     re_loop_split ctx True False pc cptr capture"
| "re_instr ctx REOP_loop_check_adv_split_next_first pc cptr capture =
     re_loop_split ctx True True pc cptr capture"
| "re_instr ctx REOP_set_char_pos pc cptr capture = re_set_char_pos ctx pc cptr"
| "re_instr ctx REOP_check_advance pc cptr capture = re_check_advance ctx pc cptr capture"
| "re_instr ctx REOP_word_boundary pc cptr capture = re_word_boundary ctx False True pc cptr"
| "re_instr ctx REOP_word_boundary_i pc cptr capture = re_word_boundary ctx True True pc cptr"
| "re_instr ctx REOP_not_word_boundary pc cptr capture = re_word_boundary ctx False False pc cptr"
| "re_instr ctx REOP_not_word_boundary_i pc cptr capture = re_word_boundary ctx True False pc cptr"
| "re_instr ctx REOP_back_reference pc cptr capture =
     re_back_reference ctx False False pc cptr capture"
| "re_instr ctx REOP_back_reference_i pc cptr capture =
     re_back_reference ctx True False pc cptr capture"
| "re_instr ctx REOP_backward_back_reference pc cptr capture =
     re_back_reference ctx False True pc cptr capture"
| "re_instr ctx REOP_backward_back_reference_i pc cptr capture =
     re_back_reference ctx True True pc cptr capture"
| "re_instr ctx REOP_range pc cptr capture = re_range 2 ctx False pc cptr"
| "re_instr ctx REOP_range_i pc cptr capture = re_range 2 ctx True pc cptr"
| "re_instr ctx REOP_range32 pc cptr capture = re_range 4 ctx False pc cptr"
| "re_instr ctx REOP_range32_i pc cptr capture = re_range 4 ctx True pc cptr"
| "re_instr ctx REOP_prev pc cptr capture = re_prev ctx pc cptr"

text \<open>Fetch and decode at \<open>pc\<close>.\<close>

definition re_fetch :: "re_ctx \<Rightarrow> nat \<Rightarrow> nat \<Rightarrow> cap list \<Rightarrow> action option" where
  "re_fetch ctx pc cptr capture =
     do {
       b \<leftarrow> bc8 (rx_bc ctx) pc;
       op \<leftarrow> reop_decode b;
       re_instr ctx op (pc + 1) cptr capture
     }"

subsection \<open>The stack machine\<close>

text \<open>Cells below \<open>sp\<close>; a read before the stack or past it is undefined.\<close>

definition cell_below :: "stack_elem list \<Rightarrow> nat \<Rightarrow> nat \<Rightarrow> stack_elem option" where
  "cell_below mem sp k = (if k \<le> sp \<and> sp - k < length mem then Some (mem ! (sp - k)) else None)"

text \<open>
  \<open>CHECK_STACK_SPACE(n)\<close> with \<open>stack_realloc\<close>: the first component is false when the
  allocation fails. New cells are not initialised.
\<close>

definition stack_realloc :: "re_ctx \<Rightarrow> nat \<Rightarrow> stack_elem list \<Rightarrow> bool \<times> stack_elem list" where
  "stack_realloc ctx n mem =
     (let new_size0 = length mem * 3 div 2;
          new_size = (if new_size0 < n then n else new_size0)
      in if rx_realloc ctx (new_size * 8)
         then (True, take new_size (mem @ replicate (new_size - length mem) SUninit))
         else (False, mem))"

definition check_stack_space :: "re_ctx \<Rightarrow> nat \<Rightarrow> re_state \<Rightarrow> bool \<times> re_state" where
  "check_stack_space ctx n s =
     (if length (st_stack s) - st_sp s < n then
        case stack_realloc ctx (st_sp s + n) (st_stack s) of
          (ok, mem) \<Rightarrow> (ok, s\<lparr>st_stack := mem\<rparr>)
      else (True, s))"

text \<open>Both macros save the old value of \<open>capture[idx]\<close> and set it; \<open>idx\<close> is read there.\<close>

definition save_capture :: "re_ctx \<Rightarrow> nat \<Rightarrow> cap \<Rightarrow> re_state \<Rightarrow> re_state + re_state re_res" where
  "save_capture ctx idx value s =
     (case check_stack_space ctx 2 s of
        (ok, s1) \<Rightarrow>
          if \<not> ok then Inr (Exit LRE_RET_MEMORY_ERROR (st_capture s1))
          else if idx < length (st_capture s1) \<and> st_sp s1 + 1 < length (st_stack s1) then
            Inl (s1\<lparr>st_stack := (st_stack s1)[st_sp s1 := SVal idx,
                                             st_sp s1 + 1 := SCap (st_capture s1 ! idx)],
                    st_sp := st_sp s1 + 2,
                    st_capture := (st_capture s1)[idx := value]\<rparr>)
          else Inr Stuck)"

text \<open>The scan of \<open>SAVE_CAPTURE_CHECK\<close> from \<open>sp1\<close> down to \<open>bp\<close>; \<open>None\<close> is undefined.\<close>

function already_saved :: "stack_elem list \<Rightarrow> nat \<Rightarrow> nat \<Rightarrow> nat \<Rightarrow> bool option" where
  "already_saved mem idx bp sp1 =
     (if sp1 > bp then
        case cell_below mem sp1 2 of
          Some (SVal i) \<Rightarrow> if i = idx then Some True else already_saved mem idx bp (sp1 - 2)
        | _ \<Rightarrow> None
      else Some False)"
  by pat_completeness auto
termination by (relation "measure (\<lambda>(mem, idx, bp, sp1). sp1)") auto

declare already_saved.simps [simp del]

definition save_capture_check :: "re_ctx \<Rightarrow> nat \<Rightarrow> cap \<Rightarrow> re_state \<Rightarrow> re_state + re_state re_res" where
  "save_capture_check ctx idx value s =
     (case already_saved (st_stack s) idx (st_bp s) (st_sp s) of
        None \<Rightarrow> Inr Stuck
      | Some False \<Rightarrow> save_capture ctx idx value s
      | Some True \<Rightarrow>
          if idx < length (st_capture s)
          then Inl (s\<lparr>st_capture := (st_capture s)[idx := value]\<rparr>) else Inr Stuck)"

fun apply_saves :: "re_ctx \<Rightarrow> (bool \<times> nat \<times> cap) list \<Rightarrow> re_state \<Rightarrow> re_state + re_state re_res" where
  "apply_saves ctx [] s = Inl s"
| "apply_saves ctx ((check, idx, value) # svs) s =
     (case (if check then save_capture_check ctx idx value s else save_capture ctx idx value s) of
        Inl s1 \<Rightarrow> apply_saves ctx svs s1
      | Inr r \<Rightarrow> Inr r)"

definition push_frame ::
    "re_ctx \<Rightarrow> exec_type \<Rightarrow> nat \<Rightarrow> nat \<Rightarrow> nat \<Rightarrow> re_state \<Rightarrow> re_state re_res" where
  "push_frame ctx kind pc1 pc cptr s =
     (case check_stack_space ctx 3 s of
        (ok, s1) \<Rightarrow>
          if \<not> ok then Exit LRE_RET_MEMORY_ERROR (st_capture s1)
          else if st_sp s1 + 2 < length (st_stack s1) then
            Next (s1\<lparr>st_stack := (st_stack s1)[st_sp s1 := SPc pc1, st_sp s1 + 1 := SPos cptr,
                                              st_sp s1 + 2 := SBp (st_bp s1) kind],
                     st_sp := st_sp s1 + 3, st_bp := st_sp s1 + 3,
                     st_pc := pc, st_cptr := cptr\<rparr>)
          else Stuck)"

text \<open>\<open>while (sp > bp)\<close>: undo the modifications of \<open>capture\<close>.\<close>

function undo_saves :: "stack_elem list \<Rightarrow> nat \<Rightarrow> nat \<Rightarrow> cap list \<Rightarrow> (nat \<times> cap list) option" where
  "undo_saves mem bp sp capture =
     (if sp > bp then
        case (cell_below mem sp 2, cell_below mem sp 1) of
          (Some (SVal idx), Some (SCap v)) \<Rightarrow>
            if idx < length capture then undo_saves mem bp (sp - 2) (capture[idx := v]) else None
        | _ \<Rightarrow> None
      else Some (sp, capture))"
  by pat_completeness auto
termination by (relation "measure (\<lambda>(mem, bp, sp, capture). sp)") auto

declare undo_saves.simps [simp del]

text \<open>The three cells below \<open>sp\<close>: \<open>pc\<close>, \<open>cptr\<close>, and the previous \<open>bp\<close> with its kind.\<close>

definition pop_frame :: "stack_elem list \<Rightarrow> nat \<Rightarrow> (nat \<times> nat \<times> nat \<times> exec_type) option" where
  "pop_frame mem sp =
     (case (cell_below mem sp 3, cell_below mem sp 2, cell_below mem sp 1) of
        (Some (SPc pc), Some (SPos cptr), Some (SBp bp kind)) \<Rightarrow> Some (pc, cptr, bp, kind)
      | _ \<Rightarrow> None)"

lemma pop_frame_sp: "pop_frame mem sp = Some x \<Longrightarrow> 3 \<le> sp"
  by (auto simp: pop_frame_def cell_below_def split: option.splits stack_elem.splits if_splits)

lemma undo_saves_le: "undo_saves mem bp sp capture = Some (sp1, capture1) \<Longrightarrow> sp1 \<le> sp"
proof (induction mem bp sp capture rule: undo_saves.induct)
  case (1 mem bp sp capture)
  then show ?case
    using undo_saves.simps [of mem bp sp capture]
    by (simp split: if_splits option.splits stack_elem.splits) fastforce
qed

text \<open>
  The label \<open>no_match\<close>: back to the last choice point that is not a lookahead. Without one
  left (\<open>Inl\<close>) the function returns 0.
\<close>

function no_match_loop ::
    "stack_elem list \<Rightarrow> nat \<Rightarrow> nat \<Rightarrow> cap list \<Rightarrow>
     (cap list + nat \<times> nat \<times> nat \<times> nat \<times> cap list) option" where
  "no_match_loop mem bp sp capture =
     (if bp = 0 then Some (Inl capture)
      else case undo_saves mem bp sp capture of
        None \<Rightarrow> None
      | Some (sp1, capture1) \<Rightarrow>
          (case pop_frame mem sp1 of
             None \<Rightarrow> None
           | Some (pc, cptr, bp1, kind) \<Rightarrow>
               if kind \<noteq> EXEC_LOOKAHEAD then Some (Inr (pc, cptr, bp1, sp1 - 3, capture1))
               else no_match_loop mem bp1 (sp1 - 3) capture1))"
  by pat_completeness auto
termination
  by (relation "measure (\<lambda>(mem, bp, sp, capture). sp)")
    (auto dest!: pop_frame_sp undo_saves_le)

declare no_match_loop.simps [simp del]

definition no_match :: "re_ctx \<Rightarrow> re_state \<Rightarrow> re_state re_res" where
  "no_match ctx s =
     (case no_match_loop (st_stack s) (st_bp s) (st_sp s) (st_capture s) of
        None \<Rightarrow> Stuck
      | Some (Inl capture) \<Rightarrow> Exit 0 capture
      | Some (Inr (pc, cptr, bp, sp, capture)) \<Rightarrow>
          (case lre_poll_timeout ctx (st_interrupt s) of
             (ret, counter) \<Rightarrow>
               if ret \<noteq> 0 then Exit LRE_RET_TIMEOUT capture
               else Next (s\<lparr>st_pc := pc, st_cptr := cptr, st_bp := bp, st_sp := sp,
                            st_capture := capture, st_interrupt := counter\<rparr>)))"

text \<open>
  \<open>REOP_lookahead_match\<close>, first loop: pop the choice points down to the lookahead, leaving
  in the last cell of each the end of the saves above it. A well-formed stack has \<open>bp\<close>
  decreasing; the model stops where it would not.
\<close>

function lookahead_pop ::
    "stack_elem list \<Rightarrow> nat \<Rightarrow> nat \<Rightarrow> (stack_elem list \<times> nat \<times> nat \<times> nat \<times> nat) option" where
  "lookahead_pop mem bp sp =
     (case pop_frame mem bp of
        None \<Rightarrow> None
      | Some (pc, cptr, bp1, kind) \<Rightarrow>
          let mem1 = mem[bp - 1 := SSp sp] in
          if kind = EXEC_LOOKAHEAD then Some (mem1, pc, cptr, bp1, bp - 3)
          else if bp1 < bp then lookahead_pop mem1 bp1 (bp - 3)
          else None)"
  by pat_completeness auto
termination by (relation "measure (\<lambda>(mem, bp, sp). bp)") auto

declare lookahead_pop.simps [simp del]

text \<open>Second loop: move the saves down over the popped choice points.\<close>

function copy_cells :: "stack_elem list \<Rightarrow> nat \<Rightarrow> nat \<Rightarrow> nat \<Rightarrow> stack_elem list \<times> nat \<times> nat" where
  "copy_cells mem sp sp1 next_sp =
     (if sp1 < next_sp then copy_cells (mem[sp := mem ! sp1]) (sp + 1) (sp1 + 1) next_sp
      else (mem, sp, sp1))"
  by pat_completeness auto
termination by (relation "measure (\<lambda>(mem, sp, sp1, next_sp). next_sp - sp1)") auto

declare copy_cells.simps [simp del]

lemma copy_cells_ge: "copy_cells mem sp sp1 next_sp = (mem', sp', sp1') \<Longrightarrow> sp1 \<le> sp1'"
proof (induction mem sp sp1 next_sp rule: copy_cells.induct)
  case (1 mem sp sp1 next_sp)
  then show ?case
    by (cases "sp1 < next_sp") (auto simp: copy_cells.simps [of mem sp sp1 next_sp])
qed

function lookahead_copy ::
    "stack_elem list \<Rightarrow> nat \<Rightarrow> nat \<Rightarrow> nat \<Rightarrow> (stack_elem list \<times> nat) option" where
  "lookahead_copy mem sp sp1 sp_top =
     (if sp1 < sp_top then
        (if sp1 + 2 < length mem then
           case mem ! (sp1 + 2) of
             SSp next_sp \<Rightarrow>
               if next_sp \<le> length mem then
                 (case copy_cells mem sp (sp1 + 3) next_sp of
                    (mem1, sp2, sp3) \<Rightarrow> lookahead_copy mem1 sp2 sp3 sp_top)
               else None
           | _ \<Rightarrow> None
         else None)
      else Some (mem, sp))"
  by pat_completeness auto
termination
proof (relation "measure (\<lambda>(mem, sp, sp1, sp_top). sp_top - sp1)", goal_cases)
  case (2 mem sp sp1 sp_top next_sp mem1 y sp2 sp3)
  then have "sp1 + 3 \<le> sp3" by (metis copy_cells_ge)
  with 2 show ?case by simp
qed simp

declare lookahead_copy.simps [simp del]

definition lookahead_match :: "re_state \<Rightarrow> re_state re_res" where
  "lookahead_match s =
     (case lookahead_pop (st_stack s) (st_bp s) (st_sp s) of
        None \<Rightarrow> Stuck
      | Some (mem, pc, cptr, bp, sp) \<Rightarrow>
          (case (if sp \<noteq> 0 then lookahead_copy mem sp sp (st_sp s) else Some (mem, sp)) of
             None \<Rightarrow> Stuck
           | Some (mem1, sp1) \<Rightarrow>
               Next (s\<lparr>st_stack := mem1, st_sp := sp1, st_bp := bp, st_pc := pc, st_cptr := cptr\<rparr>)))"

text \<open>\<open>REOP_negative_lookahead_match\<close>: undo and pop down to the lookahead, then \<open>no_match\<close>.\<close>

function negative_pop ::
    "stack_elem list \<Rightarrow> nat \<Rightarrow> nat \<Rightarrow> cap list \<Rightarrow> (nat \<times> nat \<times> cap list) option" where
  "negative_pop mem bp sp capture =
     (if bp = 0 then None
      else case undo_saves mem bp sp capture of
        None \<Rightarrow> None
      | Some (sp1, capture1) \<Rightarrow>
          (case pop_frame mem sp1 of
             None \<Rightarrow> None
           | Some (pc, cptr, bp1, kind) \<Rightarrow>
               if kind = EXEC_NEGATIVE_LOOKAHEAD then Some (bp1, sp1 - 3, capture1)
               else negative_pop mem bp1 (sp1 - 3) capture1))"
  by pat_completeness auto
termination
  by (relation "measure (\<lambda>(mem, bp, sp, capture). sp)")
    (auto dest!: pop_frame_sp undo_saves_le)

declare negative_pop.simps [simp del]

definition negative_lookahead_match :: "re_ctx \<Rightarrow> re_state \<Rightarrow> re_state re_res" where
  "negative_lookahead_match ctx s =
     (case negative_pop (st_stack s) (st_bp s) (st_sp s) (st_capture s) of
        None \<Rightarrow> Stuck
      | Some (bp, sp, capture) \<Rightarrow>
          no_match ctx (s\<lparr>st_bp := bp, st_sp := sp, st_capture := capture\<rparr>))"

subsection \<open>One step, and the loop\<close>

definition run_ctl :: "re_ctx \<Rightarrow> ctl \<Rightarrow> re_state \<Rightarrow> re_state re_res" where
  "run_ctl ctx c s =
     (case c of
        Jump poll pc cptr \<Rightarrow>
          (case (if poll then lre_poll_timeout ctx (st_interrupt s) else (0, st_interrupt s)) of
             (ret, counter) \<Rightarrow>
               if ret \<noteq> 0 then Exit LRE_RET_TIMEOUT (st_capture s)
               else Next (s\<lparr>st_pc := pc, st_cptr := cptr, st_interrupt := counter\<rparr>))
      | Split kind pc1 pc cptr \<Rightarrow> push_frame ctx kind pc1 pc cptr s
      | No_match \<Rightarrow> no_match ctx s
      | Bytecode_error \<Rightarrow> Exit LRE_RET_BYTECODE_ERROR (st_capture s)
      | Match \<Rightarrow> Exit 1 (st_capture s)
      | Lookahead_match \<Rightarrow> lookahead_match s
      | Negative_lookahead_match \<Rightarrow> negative_lookahead_match ctx s)"

definition run_action :: "re_ctx \<Rightarrow> action \<Rightarrow> re_state \<Rightarrow> re_state re_res" where
  "run_action ctx a s =
     (case check_stack_space ctx (act_reserve a) s of
        (ok, s1) \<Rightarrow>
          if \<not> ok then Exit LRE_RET_MEMORY_ERROR (st_capture s1)
          else case apply_saves ctx (act_saves a) s1 of
                 Inr r \<Rightarrow> r
               | Inl s2 \<Rightarrow> run_ctl ctx (act_ctl a) s2)"

definition re_step :: "re_ctx \<Rightarrow> re_state \<Rightarrow> re_state re_res" where
  "re_step ctx s =
     (case re_fetch ctx (st_pc s) (st_cptr s) (st_capture s) of
        None \<Rightarrow> Stuck
      | Some a \<Rightarrow> run_action ctx a s)"

text \<open>
  The loop may run forever, so it is a partial function: \<open>None\<close> is non-termination, the
  result of a finished run is \<open>Exit\<close> or \<open>Stuck\<close>. \<open>re_steps\<close> bounds the number of steps.
\<close>

partial_function (option) lre_exec_backtrack :: "re_ctx \<Rightarrow> re_state \<Rightarrow> re_state re_res option" where
  "lre_exec_backtrack ctx s =
     (case re_step ctx s of
        Next s' \<Rightarrow> lre_exec_backtrack ctx s'
      | Exit ret capture \<Rightarrow> Some (Exit ret capture)
      | Stuck \<Rightarrow> Some Stuck)"

fun re_steps :: "nat \<Rightarrow> re_ctx \<Rightarrow> re_state \<Rightarrow> re_state re_res" where
  "re_steps 0 ctx s = Next s"
| "re_steps (Suc n) ctx s =
     (case re_step ctx s of Next s' \<Rightarrow> re_steps n ctx s' | r \<Rightarrow> r)"

lemma re_steps_exec:
  "re_steps n ctx s = r \<Longrightarrow> \<forall>s'. r \<noteq> Next s' \<Longrightarrow> lre_exec_backtrack ctx s = Some r"
proof (induction n arbitrary: s)
  case (Suc n)
  show ?case
  proof (cases "re_step ctx s")
    case (Next s')
    with Suc show ?thesis by (simp add: lre_exec_backtrack.simps [of ctx s])
  next
    case (Exit ret capture)
    with Suc.prems have "r = Exit ret capture" by simp
    with Exit show ?thesis by (simp add: lre_exec_backtrack.simps [of ctx s])
  next
    case Stuck
    with Suc.prems have "r = Stuck" by simp
    with Stuck show ?thesis by (simp add: lre_exec_backtrack.simps [of ctx s])
  qed
qed fastforce

subsection \<open>Starting the matcher\<close>

definition re_context ::
    "realloc_func \<Rightarrow> bool \<Rightarrow> u8 list \<Rightarrow> u32 list \<Rightarrow> nat \<Rightarrow> re_ctx" where
  "re_context ra timeout bc cbuf cbuf_type =
     (let is_unicode = lre_get_flags bc AND (LRE_FLAG_UNICODE OR LRE_FLAG_UNICODE_SETS) \<noteq> 0 in
      \<lparr>rx_bc = bc, rx_cbuf = cbuf,
       rx_cbuf_type = (if cbuf_type = 1 \<and> is_unicode then 2 else cbuf_type),
       rx_capture_count = unat (bc ! RE_HEADER_CAPTURE_COUNT), rx_is_unicode = is_unicode,
       rx_realloc = ra, rx_timeout = timeout\<rparr>)"

text \<open>
  \<open>capture\<close> is the caller's array: its first \<open>2 * capture_count\<close> slots are set to null, the
  register slots after them are left as they are. The start is moved back over the second
  half of a surrogate pair.
\<close>

definition re_start :: "re_ctx \<Rightarrow> nat \<Rightarrow> nat" where
  "re_start ctx cindex =
     (if 0 < cindex \<and> cindex < clen ctx \<and> rx_cbuf_type ctx = 2
         \<and> is_lo_surrogate (rx_cbuf ctx ! cindex) \<and> is_hi_surrogate (rx_cbuf ctx ! (cindex - 1))
      then cindex - 1 else cindex)"

definition re_init :: "re_ctx \<Rightarrow> cap list \<Rightarrow> nat \<Rightarrow> re_state" where
  "re_init ctx capture cindex =
     \<lparr>st_pc = RE_HEADER_LEN, st_cptr = re_start ctx cindex,
      st_capture = replicate (2 * rx_capture_count ctx) CapNull
                     @ drop (2 * rx_capture_count ctx) capture,
      st_stack = replicate 32 SUninit, st_sp = 0, st_bp = 0,
      st_interrupt = INTERRUPT_COUNTER_INIT\<rparr>"

definition lre_exec ::
    "realloc_func \<Rightarrow> bool \<Rightarrow> cap list \<Rightarrow> u8 list \<Rightarrow> u32 list \<Rightarrow> nat \<Rightarrow> nat \<Rightarrow> re_state re_res option" where
  "lre_exec ra timeout capture bc cbuf cindex cbuf_type =
     (let ctx = re_context ra timeout bc cbuf cbuf_type in
      if length capture < 2 * rx_capture_count ctx then Some Stuck
      else lre_exec_backtrack ctx (re_init ctx capture cindex))"

end
