(* ===== verification/RegexpRefine.thy ===== *)
theory RegexpRefine
  imports RegexpExec
begin

text \<open>
  The contract of the matcher's stack. The abstract machine below keeps with every choice
  point a full copy of \<open>capture\<close>; it has no undo log, no cells and no memory to run out of.
  The theorems show that the array of cells with its undo log, the saves it skips
  (\<open>SAVE_CAPTURE_CHECK\<close>) and the in-place move of \<open>REOP_lookahead_match\<close> implement it.
\<close>

subsection \<open>The abstract machine\<close>

record ab_state =
  ab_pc :: nat
  ab_cptr :: nat
  ab_capture :: "cap list"
  ab_frames :: "(exec_type \<times> nat \<times> nat \<times> cap list) list"
  ab_interrupt :: int

fun ab_saves :: "(bool \<times> nat \<times> cap) list \<Rightarrow> cap list \<Rightarrow> cap list option" where
  "ab_saves [] c = Some c"
| "ab_saves ((check, idx, v) # svs) c =
     (if idx < length c then ab_saves svs (c[idx := v]) else None)"

text \<open>Failure: the first choice point that is not a lookahead, with its own captures.\<close>

fun ab_fail ::
    "cap list \<Rightarrow> (exec_type \<times> nat \<times> nat \<times> cap list) list \<Rightarrow>
     cap list + nat \<times> nat \<times> cap list \<times> (exec_type \<times> nat \<times> nat \<times> cap list) list" where
  "ab_fail c [] = Inl c"
| "ab_fail c ((kind, pc, cptr, c1) # fs) =
     (if kind \<noteq> EXEC_LOOKAHEAD then Inr (pc, cptr, c1, fs) else ab_fail c1 fs)"

text \<open>The choice points from the first one of the given kind on.\<close>

fun ab_find ::
    "exec_type \<Rightarrow> (exec_type \<times> nat \<times> nat \<times> cap list) list \<Rightarrow>
     (nat \<times> nat \<times> cap list \<times> (exec_type \<times> nat \<times> nat \<times> cap list) list) option" where
  "ab_find k [] = None"
| "ab_find k ((kind, pc, cptr, c1) # fs) = (if kind = k then Some (pc, cptr, c1, fs) else ab_find k fs)"

definition ab_no_match :: "re_ctx \<Rightarrow> ab_state \<Rightarrow> ab_state re_res" where
  "ab_no_match ctx a =
     (case ab_fail (ab_capture a) (ab_frames a) of
        Inl c \<Rightarrow> Exit 0 c
      | Inr (pc, cptr, c, fs) \<Rightarrow>
          (case lre_poll_timeout ctx (ab_interrupt a) of
             (ret, counter) \<Rightarrow>
               if ret \<noteq> 0 then Exit LRE_RET_TIMEOUT c
               else Next \<lparr>ab_pc = pc, ab_cptr = cptr, ab_capture = c, ab_frames = fs,
                          ab_interrupt = counter\<rparr>))"

definition ab_ctl :: "re_ctx \<Rightarrow> ctl \<Rightarrow> ab_state \<Rightarrow> ab_state re_res" where
  "ab_ctl ctx c a =
     (case c of
        Jump poll pc cptr \<Rightarrow>
          (case (if poll then lre_poll_timeout ctx (ab_interrupt a) else (0, ab_interrupt a)) of
             (ret, counter) \<Rightarrow>
               if ret \<noteq> 0 then Exit LRE_RET_TIMEOUT (ab_capture a)
               else Next (a\<lparr>ab_pc := pc, ab_cptr := cptr, ab_interrupt := counter\<rparr>))
      | Split kind pc1 pc cptr \<Rightarrow>
          Next (a\<lparr>ab_frames := (kind, pc1, cptr, ab_capture a) # ab_frames a,
                  ab_pc := pc, ab_cptr := cptr\<rparr>)
      | No_match \<Rightarrow> ab_no_match ctx a
      | Bytecode_error \<Rightarrow> Exit LRE_RET_BYTECODE_ERROR (ab_capture a)
      | Match \<Rightarrow> Exit 1 (ab_capture a)
      | Lookahead_match \<Rightarrow>
          (case ab_find EXEC_LOOKAHEAD (ab_frames a) of
             None \<Rightarrow> Stuck
           | Some (pc, cptr, c, fs) \<Rightarrow> Next (a\<lparr>ab_pc := pc, ab_cptr := cptr, ab_frames := fs\<rparr>))
      | Negative_lookahead_match \<Rightarrow>
          (case ab_find EXEC_NEGATIVE_LOOKAHEAD (ab_frames a) of
             None \<Rightarrow> Stuck
           | Some (pc, cptr, c, fs) \<Rightarrow> ab_no_match ctx (a\<lparr>ab_capture := c, ab_frames := fs\<rparr>)))"

definition ab_step :: "re_ctx \<Rightarrow> ab_state \<Rightarrow> ab_state re_res" where
  "ab_step ctx a =
     (case re_fetch ctx (ab_pc a) (ab_cptr a) (ab_capture a) of
        None \<Rightarrow> Stuck
      | Some action \<Rightarrow>
          (case ab_saves (act_saves action) (ab_capture a) of
             None \<Rightarrow> Stuck
           | Some c \<Rightarrow> ab_ctl ctx (act_ctl action) (a\<lparr>ab_capture := c\<rparr>)))"

fun ab_steps :: "nat \<Rightarrow> re_ctx \<Rightarrow> ab_state \<Rightarrow> ab_state re_res" where
  "ab_steps 0 ctx a = Next a"
| "ab_steps (Suc n) ctx a = (case ab_step ctx a of Next a' \<Rightarrow> ab_steps n ctx a' | r \<Rightarrow> r)"

subsection \<open>Undo logs\<close>

text \<open>A log lists the saves since a choice point, the newest first.\<close>

type_synonym undo_log = "(nat \<times> cap) list"

fun undo :: "undo_log \<Rightarrow> cap list \<Rightarrow> cap list" where
  "undo [] c = c"
| "undo ((i, v) # log) c = undo log (c[i := v])"

lemma undo_append [simp]: "undo (xs @ ys) c = undo ys (undo xs c)"
  by (induction xs arbitrary: c) auto

lemma undo_length [simp]: "length (undo log c) = length c"
  by (induction log arbitrary: c) auto

lemma undo_saved: "i \<in> fst ` set log \<Longrightarrow> undo log (c[i := v]) = undo log c"
proof (induction log arbitrary: c)
  case (Cons p log)
  obtain j w where p: "p = (j, w)" by (cases p)
  show ?case
  proof (cases "i = j")
    case False
    then have "i \<in> fst ` set log" using Cons.prems p by auto
    from Cons.IH [OF this, of "c[j := w]"] False show ?thesis by (simp add: p list_update_swap)
  qed (simp add: p)
qed simp

text \<open>A choice point with the saves made since, and what it restores.\<close>

type_synonym lframe = "exec_type \<times> nat \<times> nat \<times> undo_log"

fun snapshots :: "cap list \<Rightarrow> lframe list \<Rightarrow> (exec_type \<times> nat \<times> nat \<times> cap list) list" where
  "snapshots c [] = []"
| "snapshots c ((kind, pc, cptr, log) # fs) =
     (kind, pc, cptr, undo log c) # snapshots (undo log c) fs"

fun add_log :: "undo_log \<Rightarrow> undo_log \<Rightarrow> lframe list \<Rightarrow> undo_log \<times> lframe list" where
  "add_log new base [] = (new @ base, [])"
| "add_log new base ((kind, pc, cptr, log) # fs) = (base, (kind, pc, cptr, new @ log) # fs)"

lemma snapshots_add_log: "snapshots c (snd (add_log new base fs)) = snapshots (undo new c) fs"
  by (cases "(new, base, fs)" rule: add_log.cases) auto

subsection \<open>The cells of a stack\<close>

fun enc_log :: "undo_log \<Rightarrow> stack_elem list" where
  "enc_log [] = []"
| "enc_log ((i, v) # log) = enc_log log @ [SVal i, SCap v]"

lemma enc_log_append [simp]: "enc_log (xs @ ys) = enc_log ys @ enc_log xs"
  by (induction xs) auto

fun enc :: "undo_log \<Rightarrow> lframe list \<Rightarrow> stack_elem list"
  and bp_of :: "undo_log \<Rightarrow> lframe list \<Rightarrow> nat" where
  "enc base [] = enc_log base"
| "enc base ((kind, pc, cptr, log) # fs) =
     enc base fs @ [SPc pc, SPos cptr, SBp (bp_of base fs) kind] @ enc_log log"
| "bp_of base [] = 0"
| "bp_of base ((kind, pc, cptr, log) # fs) = length (enc base fs) + 3"

definition top_log :: "undo_log \<Rightarrow> lframe list \<Rightarrow> undo_log" where
  "top_log base fs = (case fs of [] \<Rightarrow> base | (kind, pc, cptr, log) # _ \<Rightarrow> log)"

text \<open>The part of the stack up to \<open>bp\<close>.\<close>

lemma enc_split: "\<exists>low. enc base fs = low @ enc_log (top_log base fs) \<and> length low = bp_of base fs"
  by (cases fs) (auto simp: top_log_def)

lemma enc_add_log:
  "enc (fst (add_log new base fs)) (snd (add_log new base fs)) = enc base fs @ enc_log new"
  "bp_of (fst (add_log new base fs)) (snd (add_log new base fs)) = bp_of base fs"
  by (cases "(new, base, fs)" rule: add_log.cases; simp)+

lemma bp_of_le: "bp_of base fs \<le> length (enc base fs)"
  by (cases "(base, fs)" rule: bp_of.cases) auto

lemma bp_of_0: "bp_of base fs = 0 \<longleftrightarrow> fs = []"
  by (cases "(base, fs)" rule: bp_of.cases) auto

definition log_ok :: "nat \<Rightarrow> undo_log \<Rightarrow> bool" where
  "log_ok n log \<longleftrightarrow> (\<forall>(i, v) \<in> set log. i < n)"

lemma log_ok_simps [simp]:
  "log_ok n []" "log_ok n ((i, v) # log) \<longleftrightarrow> i < n \<and> log_ok n log"
  "log_ok n (xs @ ys) \<longleftrightarrow> log_ok n xs \<and> log_ok n ys"
  by (auto simp: log_ok_def)

definition logs_ok :: "nat \<Rightarrow> undo_log \<Rightarrow> lframe list \<Rightarrow> bool" where
  "logs_ok n base fs \<longleftrightarrow> log_ok n base \<and> (\<forall>(k, pc, cptr, log) \<in> set fs. log_ok n log)"

lemma logs_ok_simps [simp]:
  "logs_ok n base [] \<longleftrightarrow> log_ok n base"
  "logs_ok n base ((k, pc, cptr, log) # fs) \<longleftrightarrow> log_ok n log \<and> logs_ok n base fs"
  by (auto simp: logs_ok_def)

lemma logs_ok_top: "logs_ok n base fs \<Longrightarrow> log_ok n (top_log base fs)"
  by (auto simp: logs_ok_def top_log_def split: list.splits)

lemma logs_ok_add_log:
  "logs_ok n (fst (add_log new base fs)) (snd (add_log new base fs)) \<longleftrightarrow> log_ok n new \<and> logs_ok n base fs"
  by (cases "(new, base, fs)" rule: add_log.cases) auto

text \<open>The cells below \<open>sp\<close> are those of a stack.\<close>

definition holds :: "stack_elem list \<Rightarrow> stack_elem list \<Rightarrow> bool" where
  "holds mem cells \<longleftrightarrow> (\<exists>rest. mem = cells @ rest)"

lemma holdsD: "holds mem (xs @ ys) \<Longrightarrow> holds mem xs"
  by (auto simp: holds_def)

lemma cell_below_holds:
  "holds mem (xs @ [c1]) \<Longrightarrow> cell_below mem (Suc (length xs)) (Suc 0) = Some c1"
  "holds mem (xs @ [c2, c1]) \<Longrightarrow> cell_below mem (Suc (Suc (length xs))) 2 = Some c2"
  "holds mem (xs @ [c3, c2, c1]) \<Longrightarrow> cell_below mem (Suc (Suc (Suc (length xs)))) 3 = Some c3"
  by (auto simp: holds_def cell_below_def nth_append numeral_eq_Suc)

subsection \<open>The loops over the cells\<close>

lemma length_enc_log [simp]: "length (enc_log log) = 2 * length log"
  by (induction log rule: enc_log.induct) auto

lemma undo_saves_enc:
  assumes "holds mem (low @ enc_log log)" "log_ok (length c) log"
  shows "undo_saves mem (length low) (length low + 2 * length log) c = Some (length low, undo log c)"
  using assms
proof (induction log arbitrary: c)
  case (Cons p log)
  obtain i v where p: "p = (i, v)" by (cases p)
  let ?xs = "low @ enc_log log"
  have h: "holds mem (?xs @ [SVal i, SCap v])" and h1: "holds mem ((?xs @ [SVal i]) @ [SCap v])"
    using Cons.prems by (simp_all add: p)
  from cell_below_holds(2) [OF h] cell_below_holds(1) [OF h1]
  have cells: "cell_below mem (length low + 2 * length (p # log)) 2 = Some (SVal i)"
    "cell_below mem (length low + 2 * length (p # log)) 1 = Some (SCap v)"
    by simp_all
  have "undo_saves mem (length low) (length low + 2 * length log) (c[i := v])
      = Some (length low, undo log (c[i := v]))"
    using Cons.prems by (intro Cons.IH) (auto simp: p intro: holdsD)
  with cells Cons.prems show ?case
    by (subst undo_saves.simps) (simp add: p)
qed (simp add: undo_saves.simps)

lemma already_saved_enc:
  assumes "holds mem (low @ enc_log log)"
  shows "already_saved mem idx (length low) (length low + 2 * length log)
    = Some (idx \<in> fst ` set log)"
  using assms
proof (induction log)
  case (Cons p log)
  obtain i v where p: "p = (i, v)" by (cases p)
  let ?xs = "low @ enc_log log"
  have h: "holds mem (?xs @ [SVal i, SCap v])" using Cons.prems by (simp add: p)
  from cell_below_holds(2) [OF h]
  have "cell_below mem (length low + 2 * length (p # log)) 2 = Some (SVal i)" by simp
  moreover have "holds mem (low @ enc_log log)" using h by (rule holdsD)
  ultimately show ?case using Cons.IH by (subst already_saved.simps) (simp add: p)
qed (simp add: already_saved.simps)

lemma pop_frame_enc:
  assumes "holds mem (low @ [SPc pc, SPos cptr, SBp bp kind])"
  shows "pop_frame mem (Suc (Suc (Suc (length low)))) = Some (pc, cptr, bp, kind)"
proof -
  have "holds mem ((low @ [SPc pc]) @ [SPos cptr, SBp bp kind])"
    "holds mem ((low @ [SPc pc, SPos cptr]) @ [SBp bp kind])" using assms by simp_all
  from cell_below_holds(2) [OF this(1)] cell_below_holds(1) [OF this(2)] cell_below_holds(3) [OF assms]
  show ?thesis by (simp add: pop_frame_def)
qed

lemma no_match_loop_enc:
  assumes "holds mem (enc base fs)" "logs_ok (length c) base fs"
  shows "case ab_fail c (snapshots c fs) of
      Inl c1 \<Rightarrow> no_match_loop mem (bp_of base fs) (length (enc base fs)) c = Some (Inl c1)
    | Inr (pc, cptr, c1, frs) \<Rightarrow> \<exists>fs1. frs = snapshots c1 fs1 \<and> logs_ok (length c1) base fs1
        \<and> length c1 = length c \<and> holds mem (enc base fs1)
        \<and> no_match_loop mem (bp_of base fs) (length (enc base fs)) c
            = Some (Inr (pc, cptr, bp_of base fs1, length (enc base fs1), c1))"
  using assms
proof (induction fs arbitrary: c)
  case (Cons f fs)
  obtain kind pc cptr log where f: "f = (kind, pc, cptr, log)" by (cases f)
  let ?hd = "[SPc pc, SPos cptr, SBp (bp_of base fs) kind]"
  have h: "holds mem ((enc base fs @ ?hd) @ enc_log log)" using Cons.prems by (simp add: f)
  have u: "undo_saves mem (bp_of base (f # fs)) (length (enc base (f # fs))) c
      = Some (length (enc base fs) + 3, undo log c)"
    using undo_saves_enc [OF h, of c] Cons.prems by (simp add: f numeral_3_eq_3)
  have p: "pop_frame mem (length (enc base fs) + 3) = Some (pc, cptr, bp_of base fs, kind)"
    using pop_frame_enc [OF holdsD [OF h]] by (simp add: numeral_3_eq_3)
  have low: "holds mem (enc base fs)" using holdsD [OF holdsD [OF h]] .
  have lok: "logs_ok (length (undo log c)) base fs" using Cons.prems by (simp add: f)
  show ?case
  proof (cases "kind = EXEC_LOOKAHEAD")
    case True
    have "no_match_loop mem (bp_of base (f # fs)) (length (enc base (f # fs))) c
        = no_match_loop mem (bp_of base fs) (length (enc base fs)) (undo log c)"
      by (subst no_match_loop.simps) (simp add: u p True bp_of_0 del: enc.simps bp_of.simps)
    with Cons.IH [OF low lok] show ?thesis
      by (simp add: f True split: sum.splits prod.splits del: enc.simps bp_of.simps)
  next
    case False
    have "no_match_loop mem (bp_of base (f # fs)) (length (enc base (f # fs))) c
        = Some (Inr (pc, cptr, bp_of base fs, length (enc base fs), undo log c))"
      by (subst no_match_loop.simps) (simp add: u p False bp_of_0 del: enc.simps bp_of.simps)
    with False low lok show ?thesis by (auto simp: f simp del: enc.simps bp_of.simps)
  qed
qed (simp add: no_match_loop.simps)

lemma negative_pop_enc:
  assumes "holds mem (enc base fs)" "logs_ok (length c) base fs"
  shows "case ab_find EXEC_NEGATIVE_LOOKAHEAD (snapshots c fs) of
      None \<Rightarrow> negative_pop mem (bp_of base fs) (length (enc base fs)) c = None
    | Some (pc, cptr, c1, frs) \<Rightarrow> \<exists>fs1. frs = snapshots c1 fs1 \<and> logs_ok (length c1) base fs1
        \<and> length c1 = length c \<and> holds mem (enc base fs1)
        \<and> negative_pop mem (bp_of base fs) (length (enc base fs)) c
            = Some (bp_of base fs1, length (enc base fs1), c1)"
  using assms
proof (induction fs arbitrary: c)
  case (Cons f fs)
  obtain kind pc cptr log where f: "f = (kind, pc, cptr, log)" by (cases f)
  let ?hd = "[SPc pc, SPos cptr, SBp (bp_of base fs) kind]"
  have h: "holds mem ((enc base fs @ ?hd) @ enc_log log)" using Cons.prems by (simp add: f)
  have u: "undo_saves mem (bp_of base (f # fs)) (length (enc base (f # fs))) c
      = Some (length (enc base fs) + 3, undo log c)"
    using undo_saves_enc [OF h, of c] Cons.prems by (simp add: f numeral_3_eq_3)
  have p: "pop_frame mem (length (enc base fs) + 3) = Some (pc, cptr, bp_of base fs, kind)"
    using pop_frame_enc [OF holdsD [OF h]] by (simp add: numeral_3_eq_3)
  have low: "holds mem (enc base fs)" using holdsD [OF holdsD [OF h]] .
  have lok: "logs_ok (length (undo log c)) base fs" using Cons.prems by (simp add: f)
  show ?case
  proof (cases "kind = EXEC_NEGATIVE_LOOKAHEAD")
    case True
    have "negative_pop mem (bp_of base (f # fs)) (length (enc base (f # fs))) c
        = Some (bp_of base fs, length (enc base fs), undo log c)"
      by (subst negative_pop.simps) (simp add: u p True bp_of_0 del: enc.simps bp_of.simps)
    with True low lok show ?thesis by (auto simp: f simp del: enc.simps bp_of.simps)
  next
    case False
    have "negative_pop mem (bp_of base (f # fs)) (length (enc base (f # fs))) c
        = negative_pop mem (bp_of base fs) (length (enc base fs)) (undo log c)"
      by (subst negative_pop.simps) (simp add: u p False bp_of_0 del: enc.simps bp_of.simps)
    with Cons.IH [OF low lok] show ?thesis
      by (simp add: f False split: option.splits prod.splits del: enc.simps bp_of.simps)
  qed
qed (simp add: negative_pop.simps)

subsection \<open>Moving the saves of a lookahead\<close>

lemma copy_cells_correct:
  assumes "sp \<le> sp1" "sp1 \<le> n" "n \<le> length mem"
  shows "\<exists>mem'. copy_cells mem sp sp1 n = (mem', sp + (n - sp1), n) \<and> length mem' = length mem
    \<and> take (sp + (n - sp1)) mem' = take sp mem @ drop sp1 (take n mem) \<and> drop n mem' = drop n mem"
  using assms
proof (induction mem sp sp1 n rule: copy_cells.induct)
  case (1 mem sp sp1 n)
  show ?case
  proof (cases "sp1 < n")
    case True
    let ?m = "mem[sp := mem ! sp1]"
    obtain mem' where IH: "copy_cells ?m (sp + 1) (sp1 + 1) n = (mem', sp + 1 + (n - (sp1 + 1)), n)"
      "length mem' = length mem" "take (sp + 1 + (n - (sp1 + 1))) mem'
        = take (sp + 1) ?m @ drop (sp1 + 1) (take n ?m)" "drop n mem' = drop n ?m"
      using "1.IH" [OF True] "1.prems" True by auto
    have tk: "take (sp + 1) ?m = take sp mem @ [mem ! sp1]"
      using "1.prems" True by (simp add: take_Suc_conv_app_nth)
    have dr: "drop (sp1 + 1) (take n ?m) = drop (sp1 + 1) (take n mem)"
      using "1.prems" True by (simp add: take_update_swap)
    have "drop sp1 (take n mem) = mem ! sp1 # drop (sp1 + 1) (take n mem)"
      using "1.prems" True by (simp add: Cons_nth_drop_Suc [symmetric])
    with IH tk dr "1.prems" True show ?thesis
      by (subst copy_cells.simps) (simp add: Suc_diff_Suc)
  qed (use "1.prems" in \<open>simp add: copy_cells.simps\<close>)
qed

text \<open>What \<open>lookahead_pop\<close> leaves of the popped choice points, lowest first.\<close>

fun blocks :: "nat \<Rightarrow> lframe list \<Rightarrow> stack_elem list" where
  "blocks start [] = []"
| "blocks start ((kind, pc, cptr, log) # fs) =
     [SPc pc, SPos cptr, SSp (start + 3 + 2 * length log)] @ enc_log log
       @ blocks (start + 3 + 2 * length log) fs"

fun logs_of :: "lframe list \<Rightarrow> undo_log" where
  "logs_of [] = []"
| "logs_of ((kind, pc, cptr, log) # fs) = logs_of fs @ log"

lemma blocks_append:
  "blocks start (xs @ ys) = blocks start xs @ blocks (start + length (blocks start xs)) ys"
  by (induction start xs rule: blocks.induct) (simp_all add: numeral_3_eq_3 add.assoc)

lemma lookahead_copy_correct:
  assumes "sp \<le> sp1" "holds mem cells" "length cells = sp1" "holds mem (cells @ blocks sp1 fs)"
  shows "\<exists>mem'. lookahead_copy mem sp sp1 (sp1 + length (blocks sp1 fs))
      = Some (mem', sp + 2 * length (logs_of fs)) \<and> length mem' = length mem
    \<and> take (sp + 2 * length (logs_of fs)) mem' = take sp mem @ enc_log (logs_of fs)"
  using assms
proof (induction sp1 fs arbitrary: mem sp cells rule: blocks.induct)
  case (2 sp1 kind pc cptr log fs)
  define n where "n = sp1 + 3 + 2 * length log"
  let ?hd = "[SPc pc, SPos cptr, SSp n]"
  have h: "holds mem ((cells @ ?hd) @ enc_log log @ blocks n fs)"
    using "2.prems" by (simp add: n_def)
  then obtain rest where mem: "mem = cells @ ?hd @ enc_log log @ blocks n fs @ rest"
    by (auto simp: holds_def)
  have len: "length cells = sp1" by fact
  have ssp: "mem ! (sp1 + 2) = SSp n" using len by (simp add: mem nth_append)
  have nle: "n \<le> length mem" using len by (simp add: mem n_def)
  obtain mem1 where m1: "copy_cells mem sp (sp1 + 3) n = (mem1, sp + (n - (sp1 + 3)), n)"
    "length mem1 = length mem" "take (sp + (n - (sp1 + 3))) mem1 = take sp mem @ drop (sp1 + 3) (take n mem)"
    "drop n mem1 = drop n mem"
    using copy_cells_correct [of sp "sp1 + 3" n mem] "2.prems" nle by (auto simp: n_def)
  have seg: "drop (sp1 + 3) (take n mem) = enc_log log" using len by (simp add: mem n_def numeral_3_eq_3)
  have bl: "drop n mem = blocks n fs @ rest"
    using len by (simp add: mem n_def numeral_3_eq_3)
  have mem1: "mem1 = take n mem1 @ blocks n fs @ rest" using m1(4) bl by (metis append_take_drop_id)
  have h1: "holds mem1 (take n mem1)" "holds mem1 (take n mem1 @ blocks n fs)"
    using mem1 by (auto simp: holds_def intro: exI [of _ "drop n mem1"])
  have "\<exists>mem'. lookahead_copy mem1 (sp + 2 * length log) n (n + length (blocks n fs))
      = Some (mem', sp + 2 * length log + 2 * length (logs_of fs)) \<and> length mem' = length mem1
    \<and> take (sp + 2 * length log + 2 * length (logs_of fs)) mem'
        = take (sp + 2 * length log) mem1 @ enc_log (logs_of fs)"
    using "2.IH" [of "sp + 2 * length log" mem1 "take n mem1"] "2.prems" h1 nle m1(2)
    by (simp add: n_def)
  then obtain mem' where m': "lookahead_copy mem1 (sp + 2 * length log) n (n + length (blocks n fs))
      = Some (mem', sp + 2 * length log + 2 * length (logs_of fs))" "length mem' = length mem"
    "take (sp + 2 * length log + 2 * length (logs_of fs)) mem'
        = take (sp + 2 * length log) mem1 @ enc_log (logs_of fs)" using m1(2) by auto
  have top: "sp1 + length (blocks sp1 ((kind, pc, cptr, log) # fs)) = n + length (blocks n fs)"
    by (simp add: n_def)
  have sp: "sp + (n - (sp1 + 3)) = sp + 2 * length log" "sp1 < n" "sp1 + 2 < n" by (simp_all add: n_def)
  have "lookahead_copy mem sp sp1 (n + length (blocks n fs))
      = lookahead_copy mem1 (sp + 2 * length log) n (n + length (blocks n fs))"
    using nle sp m1(1) ssp by (subst lookahead_copy.simps) simp
  note run = this
  show ?case
    unfolding top run using m' m1(3) seg by (auto simp: sp(1) algebra_simps)
qed (simp add: lookahead_copy.simps)

lemma logs_of_append [simp]: "logs_of (xs @ ys) = logs_of ys @ logs_of xs"
  by (induction xs rule: logs_of.induct) auto

lemma lookahead_pop_correct:
  assumes "holds mem (enc base fs)" "logs_ok n base fs"
  shows "case ab_find EXEC_LOOKAHEAD (snapshots c fs) of
      None \<Rightarrow> lookahead_pop mem (bp_of base fs) (length (enc base fs)) = None
    | Some (pc, cptr, c1, frs) \<Rightarrow> \<exists>fs1 bl mem1.
        lookahead_pop mem (bp_of base fs) (length (enc base fs))
          = Some (mem1, pc, cptr, bp_of base fs1, length (enc base fs1))
        \<and> frs = snapshots (undo (logs_of bl) c) fs1
        \<and> log_ok n (logs_of bl) \<and> logs_ok n base fs1 \<and> length mem1 = length mem
        \<and> take (length (enc base fs)) mem1 = enc base fs1 @ blocks (length (enc base fs1)) bl
        \<and> drop (length (enc base fs)) mem1 = drop (length (enc base fs)) mem"
  using assms
proof (induction fs arbitrary: c mem)
  case Nil
  show ?case by (simp add: lookahead_pop.simps [of mem 0] pop_frame_def cell_below_def)
next
  case (Cons f fs)
  obtain kind pc cptr log where f: "f = (kind, pc, cptr, log)" by (cases f)
  define k where "k = length (enc base fs)"
  define sp where "sp = k + 3 + 2 * length log"
  let ?hd = "[SPc pc, SPos cptr, SBp (bp_of base fs) kind]"
  let ?seg = "[SPc pc, SPos cptr, SSp sp] @ enc_log log"
  have len: "length (enc base (f # fs)) = sp" "bp_of base (f # fs) = k + 3"
    by (simp_all add: f k_def sp_def)
  have h: "holds mem ((enc base fs @ ?hd) @ enc_log log)" using Cons.prems by (simp add: f)
  then obtain rest where mem: "mem = enc base fs @ ?hd @ enc_log log @ rest" by (auto simp: holds_def)
  define mem1 where "mem1 = mem[k + 3 - 1 := SSp sp]"
  have mem1: "mem1 = enc base fs @ ?seg @ rest" "length mem1 = length mem"
    by (simp_all add: mem1_def mem k_def list_update_append numeral_eq_Suc)
  have p: "pop_frame mem (k + 3) = Some (pc, cptr, bp_of base fs, kind)"
    using pop_frame_enc [OF holdsD [OF h]] by (simp add: numeral_3_eq_3 k_def)
  have lok: "log_ok n log" "logs_ok n base fs" using Cons.prems by (simp_all add: f)
  have dr: "drop sp mem = rest" "drop k mem1 = ?seg @ rest" "drop sp mem1 = rest"
    unfolding mem1(1) by (simp_all add: mem k_def sp_def numeral_3_eq_3)
  show ?case
  proof (cases "kind = EXEC_LOOKAHEAD")
    case True
    have run: "lookahead_pop mem (k + 3) sp = Some (mem1, pc, cptr, bp_of base fs, k)"
      by (subst lookahead_pop.simps) (simp add: p True mem1_def)
    have tk: "take sp mem1 = enc base fs @ blocks k [f]"
      unfolding mem1(1) by (simp add: k_def sp_def f numeral_3_eq_3)
    show ?thesis
      unfolding len using True run tk lok mem1(2) dr
      by (simp add: f k_def [symmetric] del: enc.simps bp_of.simps)
        (rule exI [of _ fs], simp add: k_def [symmetric], rule exI [of _ "[f]"], simp add: f)
  next
    case False
    have "bp_of base fs < k + 3" using bp_of_le [of base fs] by (simp add: k_def)
    then have run: "lookahead_pop mem (k + 3) sp = lookahead_pop mem1 (bp_of base fs) k"
      by (subst lookahead_pop.simps) (simp add: p False mem1_def)
    have h1: "holds mem1 (enc base fs)" by (simp add: mem1(1) holds_def)
    note IH = Cons.IH [OF h1 lok(2), of "undo log c", folded k_def]
    show ?thesis
    proof (cases "ab_find EXEC_LOOKAHEAD (snapshots (undo log c) fs)")
      case None
      with IH False show ?thesis unfolding len run by (simp add: f del: enc.simps bp_of.simps)
    next
      case (Some r)
      obtain pc1 cptr1 c1 frs where r: "r = (pc1, cptr1, c1, frs)" by (cases r)
      from IH Some obtain fs1 bl mem2 where IH':
        "lookahead_pop mem1 (bp_of base fs) k
          = Some (mem2, pc1, cptr1, bp_of base fs1, length (enc base fs1))"
        "frs = snapshots (undo (logs_of bl) (undo log c)) fs1"
        "log_ok n (logs_of bl)" "logs_ok n base fs1" "length mem2 = length mem1"
        "take k mem2 = enc base fs1 @ blocks (length (enc base fs1)) bl"
        "drop k mem2 = drop k mem1"
        by (auto simp: r)
      have m2: "mem2 = take k mem2 @ ?seg @ rest" using IH'(7) dr by (metis append_take_drop_id)
      have k: "length (take k mem2) = k" using IH'(5) mem1 by (simp add: k_def)
      then have k': "length (enc base fs1) + length (blocks (length (enc base fs1)) bl) = k"
        unfolding IH'(6) by simp
      have "take sp mem2 = take k mem2 @ ?seg"
        using k by (subst m2) (simp add: sp_def numeral_3_eq_3)
      also have "\<dots> = enc base fs1 @ blocks (length (enc base fs1)) (bl @ [f])"
        unfolding IH'(6) blocks_append k' by (simp add: f sp_def)
      finally have tk: "take sp mem2 = enc base fs1 @ blocks (length (enc base fs1)) (bl @ [f])" .
      have d2: "drop sp mem2 = drop sp mem"
        using k dr(1) by (subst m2) (simp add: sp_def numeral_3_eq_3)
      have lg: "logs_of (bl @ [f]) = log @ logs_of bl" by (simp add: f)
      show ?thesis
        unfolding len run using False Some IH' tk d2 lok mem1(2) lg
        by (simp add: f r del: enc.simps bp_of.simps logs_of_append)
          (rule exI [of _ fs1], simp, rule exI [of _ "bl @ [f]"], simp add: f)
    qed
  qed
qed

lemma lookahead_match_correct:
  assumes "holds mem (enc base fs)" "logs_ok n base fs"
    and "ab_find EXEC_LOOKAHEAD (snapshots c fs) = Some (pc, cptr, c1, frs)"
  shows "\<exists>mem1 mem2 bp sp sp2 base2 fs2.
    lookahead_pop mem (bp_of base fs) (length (enc base fs)) = Some (mem1, pc, cptr, bp, sp)
    \<and> (if sp \<noteq> 0 then lookahead_copy mem1 sp sp (length (enc base fs)) else Some (mem1, sp))
        = Some (mem2, sp2)
    \<and> holds mem2 (enc base2 fs2) \<and> sp2 = length (enc base2 fs2) \<and> bp = bp_of base2 fs2
    \<and> logs_ok n base2 fs2 \<and> frs = snapshots c fs2"
proof -
  obtain fs1 bl mem1 where pop:
    "lookahead_pop mem (bp_of base fs) (length (enc base fs))
       = Some (mem1, pc, cptr, bp_of base fs1, length (enc base fs1))"
    "frs = snapshots (undo (logs_of bl) c) fs1" "log_ok n (logs_of bl)" "logs_ok n base fs1"
    "length mem1 = length mem"
    "take (length (enc base fs)) mem1 = enc base fs1 @ blocks (length (enc base fs1)) bl"
    using lookahead_pop_correct [OF assms(1,2), of c] assms(3) by auto
  define k where "k = length (enc base fs1)"
  have h: "holds mem1 (enc base fs1 @ blocks k bl)" "holds mem1 (enc base fs1)"
    using append_take_drop_id [of "length (enc base fs)" mem1] unfolding pop(6) k_def [symmetric]
    by (metis holds_def, metis holds_def append.assoc)
  have "length (enc base fs) \<le> length mem1" using assms(1) pop(5) by (auto simp: holds_def)
  then have len: "length (enc base fs) = k + length (blocks k bl)"
    using arg_cong [OF pop(6), of length] by (simp add: k_def)
  show ?thesis
  proof (cases "k = 0")
    case True
    then have "fs1 = []" using bp_of_le [of base fs1] bp_of_0 [of base fs1] by (simp add: k_def)
    moreover from this True have "length (enc_log base) = 0" by (simp add: k_def)
    ultimately have "fs1 = []" "base = []" by simp_all
    then show ?thesis
      using pop True h(2)
      by (intro exI [of _ mem1], rule_tac exI [of _ "bp_of base fs1"], intro exI [of _ "0 :: nat"],
          intro exI [of _ "[] :: undo_log"] exI [of _ "[] :: lframe list"])
        (simp add: k_def)
  next
    case False
    let ?new = "logs_of bl"
    let ?add = "add_log ?new base fs1"
    obtain mem2 where cp: "lookahead_copy mem1 k k (k + length (blocks k bl))
        = Some (mem2, k + 2 * length ?new)"
      "take (k + 2 * length ?new) mem2 = take k mem1 @ enc_log ?new"
      using lookahead_copy_correct [OF order_refl h(2) k_def [symmetric] h(1)] by blast
    have "take k mem1 = enc base fs1" using h(2) by (auto simp: holds_def k_def)
    with cp(2) append_take_drop_id [of "k + 2 * length ?new" mem2]
    have "holds mem2 (enc base fs1 @ enc_log ?new)"
      unfolding holds_def by metis
    then have h2: "holds mem2 (enc (fst ?add) (snd ?add))" by (simp only: enc_add_log)
    have run: "(if k \<noteq> 0 then lookahead_copy mem1 k k (length (enc base fs)) else Some (mem1, k))
        = Some (mem2, k + 2 * length ?new)"
      using False cp(1) len by simp
    have top: "k + 2 * length ?new = length (enc (fst ?add) (snd ?add))"
      "bp_of base fs1 = bp_of (fst ?add) (snd ?add)" "logs_ok n (fst ?add) (snd ?add)"
      "frs = snapshots c (snd ?add)"
      using pop(2-4) by (simp_all add: k_def enc_add_log snapshots_add_log logs_ok_add_log)
    show ?thesis
      by (intro exI conjI) (rule pop(1) [folded k_def] run h2 top)+
  qed
qed

subsection \<open>The simulation\<close>

definition re_rel :: "re_state \<Rightarrow> ab_state \<Rightarrow> bool" where
  "re_rel s a \<longleftrightarrow> st_pc s = ab_pc a \<and> st_cptr s = ab_cptr a \<and> st_capture s = ab_capture a
     \<and> st_interrupt s = ab_interrupt a
     \<and> (\<exists>base fs. holds (st_stack s) (enc base fs) \<and> st_sp s = length (enc base fs)
          \<and> st_bp s = bp_of base fs \<and> logs_ok (length (st_capture s)) base fs
          \<and> ab_frames a = snapshots (st_capture s) fs)"

lemma re_relI:
  "\<lbrakk>st_pc s = ab_pc a; st_cptr s = ab_cptr a; st_capture s = ab_capture a;
    st_interrupt s = ab_interrupt a; holds (st_stack s) (enc base fs);
    st_sp s = length (enc base fs); st_bp s = bp_of base fs;
    logs_ok (length (st_capture s)) base fs; ab_frames a = snapshots (st_capture s) fs\<rbrakk>
   \<Longrightarrow> re_rel s a"
  unfolding re_rel_def by blast

lemma re_relE:
  assumes "re_rel s a"
  obtains base fs where "st_pc s = ab_pc a" "st_cptr s = ab_cptr a" "st_capture s = ab_capture a"
    "st_interrupt s = ab_interrupt a" "holds (st_stack s) (enc base fs)"
    "st_sp s = length (enc base fs)" "st_bp s = bp_of base fs"
    "logs_ok (length (st_capture s)) base fs" "ab_frames a = snapshots (st_capture s) fs"
  using assms unfolding re_rel_def by blast

definition alloc_ok :: "re_ctx \<Rightarrow> bool" where
  "alloc_ok ctx \<longleftrightarrow> (\<forall>n. rx_realloc ctx n)"

fun res_rel :: "re_ctx \<Rightarrow> re_state re_res \<Rightarrow> ab_state re_res \<Rightarrow> bool" where
  "res_rel ctx (Next s) r = (\<exists>a. r = Next a \<and> re_rel s a)"
| "res_rel ctx (Exit ret c) r = (r = Exit ret c \<or> ret = LRE_RET_MEMORY_ERROR \<and> \<not> alloc_ok ctx)"
| "res_rel ctx Stuck r = (r = Stuck)"

lemma check_stack_space_cases:
  assumes "holds (st_stack s) cells" "st_sp s = length cells"
  obtains (ok) mem where "check_stack_space ctx n s = (True, s\<lparr>st_stack := mem\<rparr>)"
      "holds mem cells" "st_sp s + n \<le> length mem"
  | (failed) "check_stack_space ctx n s = (False, s)" "\<not> alloc_ok ctx"
proof (cases "length (st_stack s) - st_sp s < n")
  case False
  moreover have "st_sp s \<le> length (st_stack s)" using assms by (auto simp: holds_def)
  ultimately show ?thesis
    using assms by (intro ok [of "st_stack s"]) (simp_all add: check_stack_space_def)
next
  case True
  define new where "new = (if length (st_stack s) * 3 div 2 < st_sp s + n then st_sp s + n
    else length (st_stack s) * 3 div 2)"
  have le: "st_sp s + n \<le> new" "length (st_stack s) \<le> new" using True by (auto simp: new_def)
  let ?mem = "st_stack s @ replicate (new - length (st_stack s)) SUninit"
  have re: "stack_realloc ctx (st_sp s + n) (st_stack s)
      = (if rx_realloc ctx (new * 8) then (True, ?mem) else (False, st_stack s))"
    using le by (simp add: stack_realloc_def Let_def new_def [symmetric])
  show ?thesis
  proof (cases "rx_realloc ctx (new * 8)")
    case ra: True
    have "holds ?mem cells" using assms(1) by (auto simp: holds_def)
    then show ?thesis
      using True le re ra by (intro ok [of ?mem]) (simp_all add: check_stack_space_def)
  next
    case ra: False
    have "check_stack_space ctx n s = (False, s)" using True re ra by (simp add: check_stack_space_def)
    moreover have "\<not> alloc_ok ctx" using ra by (auto simp: alloc_ok_def)
    ultimately show ?thesis by (rule failed)
  qed
qed

lemma holds_write:
  assumes "holds mem cells" "length cells + length new \<le> length mem"
  shows "\<exists>rest. mem = cells @ rest \<and> length new \<le> length rest"
  using assms by (auto simp: holds_def)

lemma check_stack_space_rel:
  assumes "re_rel s a"
  obtains (ok) s1 where "check_stack_space ctx n s = (True, s1)" "re_rel s1 a"
      "st_sp s1 + n \<le> length (st_stack s1)"
  | (failed) "check_stack_space ctx n s = (False, s)" "\<not> alloc_ok ctx"
proof -
  obtain base fs where h: "holds (st_stack s) (enc base fs)" "st_sp s = length (enc base fs)"
    "st_bp s = bp_of base fs" "logs_ok (length (st_capture s)) base fs"
    "ab_frames a = snapshots (st_capture s) fs"
    and eqs: "st_pc s = ab_pc a" "st_cptr s = ab_cptr a" "st_capture s = ab_capture a"
    "st_interrupt s = ab_interrupt a"
    using assms by (auto simp: re_rel_def)
  show ?thesis
  proof (rule check_stack_space_cases [OF h(1,2), of ctx n])
    fix mem assume ok': "check_stack_space ctx n s = (True, s\<lparr>st_stack := mem\<rparr>)"
      "holds mem (enc base fs)" "st_sp s + n \<le> length mem"
    have rr: "re_rel (s\<lparr>st_stack := mem\<rparr>) a"
      using h eqs ok'(2) by (intro re_relI [where base = base and fs = fs]) simp_all
    show ?thesis by (rule ok [OF ok'(1) rr]) (use ok'(3) in simp)
  qed (rule failed)
qed

text \<open>The saves.\<close>

fun saved_rel :: "re_ctx \<Rightarrow> re_state + re_state re_res \<Rightarrow> ab_state option \<Rightarrow> bool" where
  "saved_rel ctx (Inl s) a = (\<exists>a1. a = Some a1 \<and> re_rel s a1)"
| "saved_rel ctx (Inr (Exit ret c)) a = (ret = LRE_RET_MEMORY_ERROR \<and> \<not> alloc_ok ctx)"
| "saved_rel ctx (Inr Stuck) a = (a = None)"
| "saved_rel ctx (Inr (Next s)) a = False"

definition ab_set :: "nat \<Rightarrow> cap \<Rightarrow> ab_state \<Rightarrow> ab_state option" where
  "ab_set idx v a = (if idx < length (ab_capture a)
     then Some (a\<lparr>ab_capture := (ab_capture a)[idx := v]\<rparr>) else None)"

lemma save_capture_rel:
  assumes "re_rel s a"
  shows "saved_rel ctx (save_capture ctx idx v s) (ab_set idx v a)"
proof (rule check_stack_space_rel [OF assms, of ctx 2])
  fix s1 assume ok: "check_stack_space ctx 2 s = (True, s1)" "re_rel s1 a"
    "st_sp s1 + 2 \<le> length (st_stack s1)"
  obtain base fs where rel: "holds (st_stack s1) (enc base fs)" "st_sp s1 = length (enc base fs)"
    "st_bp s1 = bp_of base fs" "logs_ok (length (st_capture s1)) base fs"
    "ab_frames a = snapshots (st_capture s1) fs" "st_capture s1 = ab_capture a"
    using ok(2) by (auto simp: re_rel_def)
  show ?thesis
  proof (cases "idx < length (st_capture s1)")
    case True
    let ?new = "[(idx, st_capture s1 ! idx)]"
    let ?add = "add_log ?new base fs"
    let ?mem = "(st_stack s1)[st_sp s1 := SVal idx, st_sp s1 + 1 := SCap (st_capture s1 ! idx)]"
    obtain r1 r2 rest where mem: "st_stack s1 = enc base fs @ r1 # r2 # rest"
      using rel(1,2) ok(3) by (auto simp: holds_def)
        (metis Suc_le_length_iff add_le_cancel_left length_append numeral_2_eq_2)
    have "?mem = (enc base fs @ enc_log ?new) @ rest"
      by (simp add: mem rel(2) list_update_append)
    then have h: "holds ?mem (enc (fst ?add) (snd ?add))" by (auto simp: holds_def enc_add_log)
    have "undo ?new ((st_capture s1)[idx := v]) = st_capture s1" by simp
    then have sn: "snapshots ((st_capture s1)[idx := v]) (snd ?add) = ab_frames a"
      by (simp add: snapshots_add_log rel(5) del: undo.simps)
    have lo: "logs_ok (length (st_capture s1)) (fst ?add) (snd ?add)"
      using True rel(4) by (simp add: logs_ok_add_log)
    have "re_rel (s1\<lparr>st_stack := ?mem, st_sp := st_sp s1 + 2,
        st_capture := (st_capture s1)[idx := v]\<rparr>) (a\<lparr>ab_capture := (ab_capture a)[idx := v]\<rparr>)"
      using ok(2) h sn lo
      by (intro re_relI [where base = "fst ?add" and fs = "snd ?add"])
        (auto simp: enc_add_log rel(2,3) elim: re_relE)
    then show ?thesis
      using ok(1,3) True rel(6) by (simp add: save_capture_def ab_set_def)
  next
    case False
    then show ?thesis using ok(1,3) rel(6) by (simp add: save_capture_def ab_set_def)
  qed
qed (simp add: save_capture_def)

lemma save_capture_check_rel:
  assumes "re_rel s a"
  shows "saved_rel ctx (save_capture_check ctx idx v s) (ab_set idx v a)"
proof -
  obtain base fs where rel: "holds (st_stack s) (enc base fs)" "st_sp s = length (enc base fs)"
    "st_bp s = bp_of base fs" "logs_ok (length (st_capture s)) base fs"
    "ab_frames a = snapshots (st_capture s) fs" "st_capture s = ab_capture a"
    using assms by (auto simp: re_rel_def)
  let ?in = "idx \<in> fst ` set (top_log base fs)"
  obtain low where low: "enc base fs = low @ enc_log (top_log base fs)" "length low = bp_of base fs"
    using enc_split by blast
  have scan: "already_saved (st_stack s) idx (st_bp s) (st_sp s) = Some ?in"
    using already_saved_enc [of "st_stack s" low "top_log base fs" idx] rel(1-3) low
    by simp
  show ?thesis
  proof (cases ?in)
    case True
    then have lt: "idx < length (st_capture s)"
      using logs_ok_top [OF rel(4)] by (auto simp: log_ok_def)
    have "snapshots ((st_capture s)[idx := v]) fs = snapshots (st_capture s) fs"
      using undo_saved [OF True, of "st_capture s" v] by (cases fs) (auto simp: top_log_def)
    then have "re_rel (s\<lparr>st_capture := (st_capture s)[idx := v]\<rparr>)
        (a\<lparr>ab_capture := (ab_capture a)[idx := v]\<rparr>)"
      using assms rel by (intro re_relI [where base = base and fs = fs]) (auto simp: re_rel_def)
    then show ?thesis using True scan lt rel(6) by (simp add: save_capture_check_def ab_set_def)
  next
    case False
    then show ?thesis using scan save_capture_rel [OF assms] by (simp add: save_capture_check_def)
  qed
qed

lemma apply_saves_rel:
  "re_rel s a \<Longrightarrow> saved_rel ctx (apply_saves ctx svs s)
     (map_option (\<lambda>c. a\<lparr>ab_capture := c\<rparr>) (ab_saves svs (ab_capture a)))"
proof (induction svs arbitrary: s a)
  case (Cons sv svs)
  obtain check idx v where sv: "sv = (check, idx, v)" by (cases sv)
  let ?r = "if check then save_capture_check ctx idx v s else save_capture ctx idx v s"
  have one: "saved_rel ctx ?r (ab_set idx v a)"
    using save_capture_rel [OF Cons.prems] save_capture_check_rel [OF Cons.prems] by simp
  show ?case
  proof (cases ?r)
    case (Inl s1)
    then obtain a1 where a1: "ab_set idx v a = Some a1" "re_rel s1 a1" using one by auto
    from Cons.IH [OF a1(2)] a1(1) Inl show ?thesis
      by (auto simp: sv ab_set_def split: if_splits)
  next
    case (Inr r)
    then show ?thesis using one by (cases r) (auto simp: sv ab_set_def split: if_splits)
  qed
qed simp

text \<open>The control transfers.\<close>

lemma no_match_rel: "re_rel s a \<Longrightarrow> res_rel ctx (no_match ctx s) (ab_no_match ctx a)"
proof (elim re_relE)
  fix base fs
  assume rel: "st_capture s = ab_capture a" "st_interrupt s = ab_interrupt a"
    "holds (st_stack s) (enc base fs)" "st_sp s = length (enc base fs)" "st_bp s = bp_of base fs"
    "logs_ok (length (st_capture s)) base fs" "ab_frames a = snapshots (st_capture s) fs"
  note run = no_match_loop_enc [OF rel(3,6)]
  show ?thesis
  proof (cases "ab_fail (st_capture s) (snapshots (st_capture s) fs)")
    case (Inl c)
    then show ?thesis using run rel by (simp add: no_match_def ab_no_match_def)
  next
    case (Inr r)
    obtain pc cptr c1 frs where r: "r = (pc, cptr, c1, frs)" by (cases r)
    obtain fs1 where fs1: "frs = snapshots c1 fs1" "logs_ok (length c1) base fs1"
      "holds (st_stack s) (enc base fs1)"
      "no_match_loop (st_stack s) (bp_of base fs) (length (enc base fs)) (st_capture s)
         = Some (Inr (pc, cptr, bp_of base fs1, length (enc base fs1), c1))"
      using run Inr r by auto
    obtain ret counter where poll: "lre_poll_timeout ctx (ab_interrupt a) = (ret, counter)" by force
    have "re_rel (s\<lparr>st_pc := pc, st_cptr := cptr, st_bp := bp_of base fs1,
        st_sp := length (enc base fs1), st_capture := c1, st_interrupt := counter\<rparr>)
      \<lparr>ab_pc = pc, ab_cptr = cptr, ab_capture = c1, ab_frames = frs, ab_interrupt = counter\<rparr>"
      using fs1 by (intro re_relI [where base = base and fs = fs1]) simp_all
    then show ?thesis
      using fs1(4) Inr r rel poll by (simp add: no_match_def ab_no_match_def)
  qed
qed

lemma lookahead_match_rel:
  "re_rel s a \<Longrightarrow> res_rel ctx (lookahead_match s) (ab_ctl ctx Lookahead_match a)"
proof (elim re_relE)
  fix base fs
  assume rel: "st_capture s = ab_capture a" "st_interrupt s = ab_interrupt a"
    "holds (st_stack s) (enc base fs)" "st_sp s = length (enc base fs)" "st_bp s = bp_of base fs"
    "logs_ok (length (st_capture s)) base fs" "ab_frames a = snapshots (st_capture s) fs"
  show ?thesis
  proof (cases "ab_find EXEC_LOOKAHEAD (snapshots (st_capture s) fs)")
    case None
    then have "lookahead_pop (st_stack s) (st_bp s) (st_sp s) = None"
      using lookahead_pop_correct [OF rel(3,6), of "st_capture s"] rel by simp
    then show ?thesis using None rel by (simp add: lookahead_match_def ab_ctl_def)
  next
    case (Some r)
    obtain pc cptr c1 frs where r: "r = (pc, cptr, c1, frs)" by (cases r)
    obtain mem1 mem2 bp sp sp2 base2 fs2 where m:
      "lookahead_pop (st_stack s) (st_bp s) (st_sp s) = Some (mem1, pc, cptr, bp, sp)"
      "(if sp \<noteq> 0 then lookahead_copy mem1 sp sp (st_sp s) else Some (mem1, sp)) = Some (mem2, sp2)"
      "holds mem2 (enc base2 fs2)" "sp2 = length (enc base2 fs2)" "bp = bp_of base2 fs2"
      "logs_ok (length (st_capture s)) base2 fs2" "frs = snapshots (st_capture s) fs2"
      using lookahead_match_correct [OF rel(3,6) Some [unfolded r]] rel(4,5) by metis
    have "re_rel (s\<lparr>st_stack := mem2, st_sp := sp2, st_bp := bp, st_pc := pc, st_cptr := cptr\<rparr>)
        (a\<lparr>ab_pc := pc, ab_cptr := cptr, ab_frames := frs\<rparr>)"
      using m rel by (intro re_relI [where base = base2 and fs = fs2]) simp_all
    moreover have "lookahead_match s =
        Next (s\<lparr>st_stack := mem2, st_sp := sp2, st_bp := bp, st_pc := pc, st_cptr := cptr\<rparr>)"
      by (simp only: lookahead_match_def m(1,2) option.case prod.case)
    ultimately show ?thesis using Some r rel by (simp add: ab_ctl_def)
  qed
qed

lemma negative_lookahead_match_rel:
  "re_rel s a \<Longrightarrow>
   res_rel ctx (negative_lookahead_match ctx s) (ab_ctl ctx Negative_lookahead_match a)"
proof (elim re_relE)
  fix base fs
  assume rel: "st_pc s = ab_pc a" "st_cptr s = ab_cptr a" "st_capture s = ab_capture a"
    "st_interrupt s = ab_interrupt a"
    "holds (st_stack s) (enc base fs)" "st_sp s = length (enc base fs)" "st_bp s = bp_of base fs"
    "logs_ok (length (st_capture s)) base fs" "ab_frames a = snapshots (st_capture s) fs"
  note run = negative_pop_enc [OF rel(5,8)]
  show ?thesis
  proof (cases "ab_find EXEC_NEGATIVE_LOOKAHEAD (snapshots (st_capture s) fs)")
    case None
    then show ?thesis using run rel by (simp add: negative_lookahead_match_def ab_ctl_def)
  next
    case (Some r)
    obtain pc cptr c1 frs where r: "r = (pc, cptr, c1, frs)" by (cases r)
    obtain fs1 where fs1: "frs = snapshots c1 fs1" "logs_ok (length c1) base fs1"
      "holds (st_stack s) (enc base fs1)"
      "negative_pop (st_stack s) (bp_of base fs) (length (enc base fs)) (st_capture s)
         = Some (bp_of base fs1, length (enc base fs1), c1)"
      using run Some r by auto
    have "re_rel (s\<lparr>st_bp := bp_of base fs1, st_sp := length (enc base fs1), st_capture := c1\<rparr>)
        (a\<lparr>ab_capture := c1, ab_frames := frs\<rparr>)"
      using fs1 rel by (intro re_relI [where base = base and fs = fs1]) simp_all
    from no_match_rel [OF this, of ctx] show ?thesis
      using fs1(4) Some r rel by (simp add: negative_lookahead_match_def ab_ctl_def)
  qed
qed

lemma push_frame_rel:
  assumes "re_rel s a"
  shows "res_rel ctx (push_frame ctx kind pc1 pc cptr s) (ab_ctl ctx (Split kind pc1 pc cptr) a)"
proof (rule check_stack_space_rel [OF assms, of ctx 3])
  fix s1 assume ok: "check_stack_space ctx 3 s = (True, s1)" "re_rel s1 a"
    "st_sp s1 + 3 \<le> length (st_stack s1)"
  from ok(2) obtain base fs where rel: "st_capture s1 = ab_capture a"
    "st_interrupt s1 = ab_interrupt a" "holds (st_stack s1) (enc base fs)"
    "st_sp s1 = length (enc base fs)" "st_bp s1 = bp_of base fs"
    "logs_ok (length (st_capture s1)) base fs" "ab_frames a = snapshots (st_capture s1) fs"
    by (elim re_relE)
  let ?fr = "(kind, pc1, cptr, []) # fs"
  let ?mem = "(st_stack s1)[st_sp s1 := SPc pc1, st_sp s1 + 1 := SPos cptr,
                            st_sp s1 + 2 := SBp (st_bp s1) kind]"
  obtain rest where st: "st_stack s1 = enc base fs @ rest" "3 \<le> length rest"
    using rel(3,4) ok(3) by (auto simp: holds_def)
  then obtain r1 r2 r3 rest' where mem: "st_stack s1 = enc base fs @ r1 # r2 # r3 # rest'"
    by (auto simp: numeral_3_eq_3 Suc_le_length_iff)
  have "?mem = enc base ?fr @ rest'"
    by (simp add: mem rel(4,5) list_update_append)
  then have h: "holds ?mem (enc base ?fr)" by (simp add: holds_def)
  have "re_rel (s1\<lparr>st_stack := ?mem, st_sp := st_sp s1 + 3, st_bp := st_sp s1 + 3,
      st_pc := pc, st_cptr := cptr\<rparr>)
    (a\<lparr>ab_frames := (kind, pc1, cptr, ab_capture a) # ab_frames a, ab_pc := pc, ab_cptr := cptr\<rparr>)"
    using h rel by (intro re_relI [where base = base and fs = ?fr]) simp_all
  then show ?thesis using ok(1,3) by (simp add: push_frame_def ab_ctl_def)
qed (simp add: push_frame_def)

lemma run_ctl_rel: "re_rel s a \<Longrightarrow> res_rel ctx (run_ctl ctx c s) (ab_ctl ctx c a)"
proof (cases c)
  case (Jump poll pc cptr)
  assume rel: "re_rel s a"
  then obtain base fs where r: "st_capture s = ab_capture a" "st_interrupt s = ab_interrupt a"
    "holds (st_stack s) (enc base fs)" "st_sp s = length (enc base fs)" "st_bp s = bp_of base fs"
    "logs_ok (length (st_capture s)) base fs" "ab_frames a = snapshots (st_capture s) fs"
    by (elim re_relE)
  then have "re_rel (s\<lparr>st_pc := pc, st_cptr := cptr, st_interrupt := n\<rparr>)
      (a\<lparr>ab_pc := pc, ab_cptr := cptr, ab_interrupt := n\<rparr>)" for n
    by (intro re_relI [where base = base and fs = fs]) simp_all
  from this this [of "ab_interrupt a"] r(1,2) show ?thesis
    by (simp add: Jump run_ctl_def ab_ctl_def split: prod.splits)
next
  case No_match
  assume "re_rel s a"
  from no_match_rel [OF this] show ?thesis by (simp add: No_match run_ctl_def ab_ctl_def)
next
  case (Split kind pc1 pc cptr)
  assume "re_rel s a"
  from push_frame_rel [OF this] show ?thesis by (simp add: Split run_ctl_def)
next
  case Lookahead_match
  assume "re_rel s a"
  from lookahead_match_rel [OF this] show ?thesis by (simp add: Lookahead_match run_ctl_def)
next
  case Negative_lookahead_match
  assume "re_rel s a"
  from negative_lookahead_match_rel [OF this]
  show ?thesis by (simp add: Negative_lookahead_match run_ctl_def)
qed (auto simp: run_ctl_def ab_ctl_def re_rel_def)

lemma re_step_rel: "re_rel s a \<Longrightarrow> res_rel ctx (re_step ctx s) (ab_step ctx a)"
proof -
  assume rel: "re_rel s a"
  then have eqs: "st_pc s = ab_pc a" "st_cptr s = ab_cptr a" "st_capture s = ab_capture a"
    by (auto elim: re_relE)
  show ?thesis
  proof (cases "re_fetch ctx (ab_pc a) (ab_cptr a) (ab_capture a)")
    case None
    then show ?thesis by (simp add: re_step_def ab_step_def eqs)
  next
    case (Some x)
    show ?thesis
    proof (rule check_stack_space_rel [OF rel, of ctx "act_reserve x"])
      fix s1 assume ok: "check_stack_space ctx (act_reserve x) s = (True, s1)" "re_rel s1 a"
      let ?c = "ab_saves (act_saves x) (ab_capture a)"
      have sv: "saved_rel ctx (apply_saves ctx (act_saves x) s1)
          (map_option (\<lambda>c. a\<lparr>ab_capture := c\<rparr>) ?c)"
        by (rule apply_saves_rel [OF ok(2)])
      show ?thesis
      proof (cases "apply_saves ctx (act_saves x) s1")
        case (Inl s2)
        with sv obtain c where "?c = Some c" "re_rel s2 (a\<lparr>ab_capture := c\<rparr>)" by auto
        then show ?thesis
          using run_ctl_rel [of s2 "a\<lparr>ab_capture := c\<rparr>" ctx] Some ok(1) Inl
          by (simp add: re_step_def ab_step_def eqs run_action_def)
      next
        case (Inr r)
        with sv Some ok(1) show ?thesis
          by (cases r) (auto simp: re_step_def ab_step_def eqs run_action_def)
      qed
    qed (simp add: re_step_def eqs Some run_action_def)
  qed
qed

lemma re_steps_rel:
  "re_rel s a \<Longrightarrow> res_rel ctx (re_steps n ctx s) (ab_steps n ctx a)"
proof (induction n arbitrary: s a)
  case (Suc n)
  from re_step_rel [OF Suc.prems, of ctx] Suc.IH show ?case
    by (cases "re_step ctx s") auto
qed simp

lemma re_init_rel:
  "re_rel (re_init ctx capture cindex)
     \<lparr>ab_pc = RE_HEADER_LEN, ab_cptr = re_start ctx cindex,
      ab_capture = st_capture (re_init ctx capture cindex), ab_frames = [],
      ab_interrupt = INTERRUPT_COUNTER_INIT\<rparr>"
  by (intro re_relI [where base = "[]" and fs = "[]"]) (simp_all add: re_init_def holds_def)

subsection \<open>Whole runs\<close>

lemma lre_exec_backtrack_steps:
  "lre_exec_backtrack ctx s = Some r \<longleftrightarrow> (\<exists>n. re_steps n ctx s = r \<and> (\<forall>s'. r \<noteq> Next s'))"
proof
  let ?P = "\<lambda>ctx s r. \<exists>n. re_steps n ctx s = r \<and> (\<forall>s'. r \<noteq> Next s')"
  assume "lre_exec_backtrack ctx s = Some r"
  then show "?P ctx s r"
  proof (rule lre_exec_backtrack.raw_induct [rotated, of _ _ _ ?P])
    fix exec ctx s r
    assume IH: "\<And>ctx s r. exec ctx s = Some r \<Longrightarrow> ?P ctx s r"
      and run: "(case re_step ctx s of Next s' \<Rightarrow> exec ctx s'
        | Exit ret capture \<Rightarrow> Some (Exit ret capture) | Stuck \<Rightarrow> Some Stuck) = Some r"
    show "?P ctx s r"
    proof (cases "re_step ctx s")
      case (Next s')
      with run have "exec ctx s' = Some r" by simp
      from IH [OF this] obtain n where "re_steps n ctx s' = r \<and> (\<forall>s'. r \<noteq> Next s')" by blast
      with Next show ?thesis by (intro exI [of _ "Suc n"]) simp
    next
      case (Exit ret c)
      with run have "r = Exit ret c" by simp
      with Exit show ?thesis by (intro exI [of _ "Suc 0"]) simp
    next
      case Stuck
      with run have "r = Stuck" by simp
      with Stuck show ?thesis by (intro exI [of _ "Suc 0"]) simp
    qed
  qed
qed (auto intro: re_steps_exec)

text \<open>
  The abstract matcher, with the arguments of \<open>lre_exec\<close> (its steps never consult the
  allocator).
\<close>

partial_function (option) ab_exec :: "re_ctx \<Rightarrow> ab_state \<Rightarrow> ab_state re_res option" where
  "ab_exec ctx a =
     (case ab_step ctx a of
        Next a' \<Rightarrow> ab_exec ctx a'
      | Exit ret capture \<Rightarrow> Some (Exit ret capture)
      | Stuck \<Rightarrow> Some Stuck)"

definition ab_init :: "re_ctx \<Rightarrow> cap list \<Rightarrow> nat \<Rightarrow> ab_state" where
  "ab_init ctx capture cindex =
     \<lparr>ab_pc = RE_HEADER_LEN, ab_cptr = re_start ctx cindex,
      ab_capture = replicate (2 * rx_capture_count ctx) CapNull
                     @ drop (2 * rx_capture_count ctx) capture,
      ab_frames = [], ab_interrupt = INTERRUPT_COUNTER_INIT\<rparr>"

definition ab_lre_exec ::
    "realloc_func \<Rightarrow> bool \<Rightarrow> cap list \<Rightarrow> u8 list \<Rightarrow> u32 list \<Rightarrow> nat \<Rightarrow> nat \<Rightarrow> ab_state re_res option" where
  "ab_lre_exec ra timeout capture bc cbuf cindex cbuf_type =
     (let ctx = re_context ra timeout bc cbuf cbuf_type in
      if length capture < 2 * rx_capture_count ctx then Some Stuck
      else ab_exec ctx (ab_init ctx capture cindex))"

text \<open>What a finished run returns: the code and the captures, or nothing when it is stuck.\<close>

fun outcome :: "'s re_res \<Rightarrow> (int \<times> cap list) option" where
  "outcome (Exit ret c) = Some (ret, c)"
| "outcome (Next s) = None"
| "outcome Stuck = None"

lemma ab_exec_steps: "ab_steps n ctx a = r \<Longrightarrow> \<forall>a'. r \<noteq> Next a' \<Longrightarrow> ab_exec ctx a = Some r"
proof (induction n arbitrary: a)
  case (Suc n)
  show ?case
  proof (cases "ab_step ctx a")
    case (Next s')
    with Suc show ?thesis by (simp add: ab_exec.simps [of ctx a])
  next
    case (Exit ret capture)
    with Suc.prems have "r = Exit ret capture" by simp
    with Exit show ?thesis by (simp add: ab_exec.simps [of ctx a])
  next
    case Stuck
    with Suc.prems have "r = Stuck" by simp
    with Stuck show ?thesis by (simp add: ab_exec.simps [of ctx a])
  qed
qed fastforce

lemma ab_exec_steps_iff:
  "ab_exec ctx a = Some r \<longleftrightarrow> (\<exists>n. ab_steps n ctx a = r \<and> (\<forall>a'. r \<noteq> Next a'))"
proof
  let ?P = "\<lambda>ctx a r. \<exists>n. ab_steps n ctx a = r \<and> (\<forall>a'. r \<noteq> Next a')"
  assume "ab_exec ctx a = Some r"
  then show "?P ctx a r"
  proof (rule ab_exec.raw_induct [rotated, of _ _ _ ?P])
    fix exec ctx a r
    assume IH: "\<And>ctx a r. exec ctx a = Some r \<Longrightarrow> ?P ctx a r"
      and run: "(case ab_step ctx a of Next a' \<Rightarrow> exec ctx a'
        | Exit ret capture \<Rightarrow> Some (Exit ret capture) | Stuck \<Rightarrow> Some Stuck) = Some r"
    show "?P ctx a r"
    proof (cases "ab_step ctx a")
      case (Next a')
      with run have "exec ctx a' = Some r" by simp
      from IH [OF this] obtain n where "ab_steps n ctx a' = r \<and> (\<forall>a'. r \<noteq> Next a')" by blast
      with Next show ?thesis by (intro exI [of _ "Suc n"]) simp
    next
      case (Exit ret c)
      with run have "r = Exit ret c" by simp
      with Exit show ?thesis by (intro exI [of _ "Suc 0"]) simp
    next
      case Stuck
      with run have "r = Stuck" by simp
      with Stuck show ?thesis by (intro exI [of _ "Suc 0"]) simp
    qed
  qed
qed (auto intro: ab_exec_steps)

lemma exec_rel:
  assumes "re_rel s a"
  shows "case lre_exec_backtrack ctx s of
      None \<Rightarrow> ab_exec ctx a = None
    | Some r \<Rightarrow> map_option outcome (ab_exec ctx a) = Some (outcome r)
        \<or> (\<exists>c. outcome r = Some (LRE_RET_MEMORY_ERROR, c)) \<and> \<not> alloc_ok ctx"
proof (cases "lre_exec_backtrack ctx s")
  case None
  have "\<exists>a'. ab_steps n ctx a = Next a'" for n
  proof (cases "re_steps n ctx s")
    case (Next s')
    with re_steps_rel [OF assms, of ctx n] show ?thesis by auto
  next
    case (Exit ret c)
    then have "lre_exec_backtrack ctx s = Some (Exit ret c)" by (intro re_steps_exec [of n]) simp_all
    with None show ?thesis by simp
  next
    case Stuck
    then have "lre_exec_backtrack ctx s = Some Stuck" by (intro re_steps_exec [of n]) simp_all
    with None show ?thesis by simp
  qed
  then have "ab_exec ctx a \<noteq> Some r" for r
    unfolding ab_exec_steps_iff by (metis)
  with None show ?thesis by (cases "ab_exec ctx a") auto
next
  case (Some r)
  then obtain n where n: "re_steps n ctx s = r" "\<forall>s'. r \<noteq> Next s'"
    unfolding lre_exec_backtrack_steps by blast
  from re_steps_rel [OF assms, of ctx n] have rel: "res_rel ctx r (ab_steps n ctx a)" by (simp add: n)
  show ?thesis
  proof (cases r)
    case (Exit ret c)
    with rel consider "ab_steps n ctx a = Exit ret c" | "ret = LRE_RET_MEMORY_ERROR" "\<not> alloc_ok ctx"
      by auto
    then show ?thesis
    proof cases
      case 1
      then have "ab_exec ctx a = Some (Exit ret c)" by (intro ab_exec_steps [of n]) simp_all
      with Some Exit show ?thesis by simp
    qed (use Some Exit in simp)
  next
    case Stuck
    with rel have "ab_exec ctx a = Some Stuck" by (intro ab_exec_steps [of n]) simp_all
    with Some Stuck show ?thesis by simp
  qed (use n in simp)
qed

lemma lre_exec_rel:
  "case lre_exec ra timeout capture bc cbuf cindex cbuf_type of
      None \<Rightarrow> ab_lre_exec ra timeout capture bc cbuf cindex cbuf_type = None
    | Some r \<Rightarrow>
        map_option outcome (ab_lre_exec ra timeout capture bc cbuf cindex cbuf_type)
          = Some (outcome r)
        \<or> (\<exists>c. outcome r = Some (LRE_RET_MEMORY_ERROR, c)) \<and> (\<exists>n. \<not> ra n)"
proof -
  let ?ctx = "re_context ra timeout bc cbuf cbuf_type"
  have ra: "\<not> alloc_ok ?ctx \<longleftrightarrow> (\<exists>n. \<not> ra n)" by (simp add: alloc_ok_def re_context_def Let_def)
  have "re_rel (re_init ?ctx capture cindex) (ab_init ?ctx capture cindex)"
    using re_init_rel [of ?ctx capture cindex] by (simp add: ab_init_def re_init_def)
  note rel = exec_rel [OF this, of ?ctx, unfolded ra]
  show ?thesis
  proof (cases "length capture < 2 * rx_capture_count ?ctx")
    case True
    then show ?thesis by (simp add: lre_exec_def ab_lre_exec_def Let_def)
  next
    case False
    then have eqs: "lre_exec ra timeout capture bc cbuf cindex cbuf_type
        = lre_exec_backtrack ?ctx (re_init ?ctx capture cindex)"
      "ab_lre_exec ra timeout capture bc cbuf cindex cbuf_type
        = ab_exec ?ctx (ab_init ?ctx capture cindex)"
      by (simp_all add: lre_exec_def ab_lre_exec_def Let_def)
    show ?thesis unfolding eqs by (rule rel)
  qed
qed

text \<open>C1: the matcher with its cell stack, undo log, skipped saves and in-place moves returns
exactly what the abstract backtracking machine returns, which copies all captures at every
choice point: it runs forever on the same inputs, is stuck on the same inputs and gives the
same code and captures, except that it may instead give up with the memory error, and then
an allocation has failed.\<close>

theorem lre_exec_implements_snapshot_machine:
  "case lre_exec ra timeout capture bc cbuf cindex cbuf_type of
      None \<Rightarrow> ab_lre_exec ra timeout capture bc cbuf cindex cbuf_type = None
    | Some r \<Rightarrow>
        map_option outcome (ab_lre_exec ra timeout capture bc cbuf cindex cbuf_type)
          = Some (outcome r)
        \<or> (\<exists>c. outcome r = Some (LRE_RET_MEMORY_ERROR, c)) \<and> (\<exists>n. \<not> ra n)"
  by (rule lre_exec_rel)

text \<open>
  The code of \<open>/(?=(a))a/y\<close>: a lookahead that captures, then a character. On \<open>aab\<close> from
  position 1 it matches \<open>1..2\<close> and keeps the capture made inside the lookahead.
\<close>

definition lookahead_example :: "u8 list" where
  "lookahead_example =
     [32, 0, 2, 0, 21, 0, 0, 0,
      19, 0, 40, 8, 0, 0, 0, 19, 1, 1, 97, 0, 20, 1, 17, 1, 97, 0, 20, 0, 16]"

theorem lre_exec_implements_snapshot_machine_witness:
  "lre_exec (\<lambda>n. False) False (replicate 4 CapNull) lookahead_example [97, 97, 98] 1 0
     = Some (Exit 1 [CapPtr 1, CapPtr 2, CapPtr 1, CapPtr 2]) \<and>
   map_option outcome
       (ab_lre_exec (\<lambda>n. False) False (replicate 4 CapNull) lookahead_example [97, 97, 98] 1 0)
     = Some (Some (1, [CapPtr 1, CapPtr 2, CapPtr 1, CapPtr 2]))"
proof -
  let ?ctx = "re_context (\<lambda>n. False) False lookahead_example [97, 97, 98] 0"
  have "re_steps 9 ?ctx (re_init ?ctx (replicate 4 CapNull) 1)
      = Exit 1 [CapPtr 1, CapPtr 2, CapPtr 1, CapPtr 2]"
    by code_simp
  then have "lre_exec_backtrack ?ctx (re_init ?ctx (replicate 4 CapNull) 1)
      = Some (Exit 1 [CapPtr 1, CapPtr 2, CapPtr 1, CapPtr 2])"
    by (rule re_steps_exec) simp
  moreover have "\<not> length (replicate 4 CapNull) < 2 * rx_capture_count ?ctx" by code_simp
  ultimately have run: "lre_exec (\<lambda>n. False) False (replicate 4 CapNull) lookahead_example [97, 97, 98] 1 0
     = Some (Exit 1 [CapPtr 1, CapPtr 2, CapPtr 1, CapPtr 2])"
    by (simp add: lre_exec_def Let_def)
  from lre_exec_implements_snapshot_machine [of "\<lambda>n. False" False "replicate 4 CapNull"
      lookahead_example "[97, 97, 98]" 1 0, unfolded run]
  show ?thesis using run by simp
qed

end
