(* ===== verification/RegexpSafety.thy ===== *)
theory RegexpSafety
  imports RegexpRefine
begin

text \<open>
  When the matcher cannot leave its arrays. A typing of the bytecode gives each reachable
  instruction its lookahead nesting and the contents of its registers; a well-typed program
  run with as many \<open>capture\<close> slots as \<open>lre_get_alloc_count\<close> says never gets stuck: no access
  outside the bytecode, the subject, \<open>capture\<close> or the stack, no cell or register read as
  something else than what was stored, no unknown opcode.
\<close>

subsection \<open>The typing\<close>

datatype rty = RInt | RPos

text \<open>
  The lookaheads around an instruction, innermost first, each with the registers live at its
  continuation; and the registers live at the instruction, from register 0.
\<close>

type_synonym ity = "(exec_type \<times> rty list) list \<times> rty list"

definition is_prefix :: "'a list \<Rightarrow> 'a list \<Rightarrow> bool" where
  "is_prefix xs ys \<longleftrightarrow> length xs \<le> length ys \<and> take (length xs) ys = xs"

text \<open>A jump to \<open>pc\<close> with nesting \<open>k\<close> and live registers \<open>g\<close>.\<close>

definition flow :: "(nat \<times> ity) list \<Rightarrow> (exec_type \<times> rty list) list \<Rightarrow> rty list \<Rightarrow> nat \<Rightarrow> bool" where
  "flow A k g pc =
     (case map_of A pc of None \<Rightarrow> False | Some (k', g') \<Rightarrow> k' = k \<and> is_prefix g' g)"

definition flow_rel :: "(nat \<times> ity) list \<Rightarrow> (exec_type \<times> rty list) list \<Rightarrow> rty list \<Rightarrow> nat \<Rightarrow> u32 \<Rightarrow> bool" where
  "flow_rel A k g pc val = (case jump_target pc val of None \<Rightarrow> False | Some t \<Rightarrow> flow A k g t)"

definition reg_is :: "rty list \<Rightarrow> nat \<Rightarrow> rty \<Rightarrow> bool" where
  "reg_is g r t \<longleftrightarrow> r < length g \<and> g ! r = t"

text \<open>Setting register \<open>r\<close> forgets what the registers above it hold.\<close>

definition reg_set :: "rty list \<Rightarrow> nat \<Rightarrow> rty \<Rightarrow> rty list" where
  "reg_set g r t = take r g @ [t]"

text \<open>
  \<open>wt_op\<close>: the operands of the opcode at \<open>pc\<close> are inside the bytecode, its registers hold
  what it reads, and all its successors are typed accordingly.
\<close>

definition opnd8 :: "u8 list \<Rightarrow> nat \<Rightarrow> nat" where
  "opnd8 bc i = unat (bc ! i)"

fun wt_op :: "u8 list \<Rightarrow> nat \<Rightarrow> (nat \<times> ity) list \<Rightarrow> nat \<Rightarrow> ity \<Rightarrow> reop \<Rightarrow> bool" where
  "wt_op bc rc A pc (k, g) REOP_invalid = False"
| "wt_op bc rc A pc (k, g) REOP_match = True"
| "wt_op bc rc A pc (k, g) REOP_lookahead_match =
     (case k of (kind, g') # k' \<Rightarrow> kind = EXEC_LOOKAHEAD \<and> is_prefix g' g | [] \<Rightarrow> False)"
| "wt_op bc rc A pc (k, g) REOP_negative_lookahead_match =
     (case k of (kind, g') # k' \<Rightarrow> kind = EXEC_NEGATIVE_LOOKAHEAD | [] \<Rightarrow> False)"
| "wt_op bc rc A pc (k, g) REOP_goto = flow_rel A k g (pc + 5) (get_u32 bc (pc + 1))"
| "wt_op bc rc A pc (k, g) REOP_split_goto_first =
     (flow A k g (pc + 5) \<and> flow_rel A k g (pc + 5) (get_u32 bc (pc + 1)))"
| "wt_op bc rc A pc (k, g) REOP_split_next_first =
     (flow A k g (pc + 5) \<and> flow_rel A k g (pc + 5) (get_u32 bc (pc + 1)))"
| "wt_op bc rc A pc (k, g) REOP_lookahead =
     (case jump_target (pc + 5) (get_u32 bc (pc + 1)) of None \<Rightarrow> False
      | Some t \<Rightarrow> flow A k g t
          \<and> flow A ((EXEC_LOOKAHEAD, snd (the (map_of A t))) # k) g (pc + 5))"
| "wt_op bc rc A pc (k, g) REOP_negative_lookahead =
     (case jump_target (pc + 5) (get_u32 bc (pc + 1)) of None \<Rightarrow> False
      | Some t \<Rightarrow> flow A k g t
          \<and> flow A ((EXEC_NEGATIVE_LOOKAHEAD, snd (the (map_of A t))) # k) g (pc + 5))"
| "wt_op bc rc A pc (k, g) REOP_set_i32 =
     (let r = opnd8 bc (pc + 1) in
      r \<le> length g \<and> r < rc \<and> flow A k (reg_set g r RInt) (pc + 6))"
| "wt_op bc rc A pc (k, g) REOP_set_char_pos =
     (let r = opnd8 bc (pc + 1) in
      r \<le> length g \<and> r < rc \<and> flow A k (reg_set g r RPos) (pc + 2))"
| "wt_op bc rc A pc (k, g) REOP_check_advance =
     (reg_is g (opnd8 bc (pc + 1)) RPos \<and> flow A k g (pc + 2))"
| "wt_op bc rc A pc (k, g) REOP_loop =
     (reg_is g (opnd8 bc (pc + 1)) RInt \<and> flow A k g (pc + 6)
      \<and> flow_rel A k g (pc + 6) (get_u32 bc (pc + 2)))"
| "wt_op bc rc A pc (k, g) REOP_loop_split_goto_first =
     (reg_is g (opnd8 bc (pc + 1)) RInt \<and> flow A k g (pc + 10)
      \<and> flow_rel A k g (pc + 10) (get_u32 bc (pc + 6)))"
| "wt_op bc rc A pc (k, g) REOP_loop_split_next_first =
     (reg_is g (opnd8 bc (pc + 1)) RInt \<and> flow A k g (pc + 10)
      \<and> flow_rel A k g (pc + 10) (get_u32 bc (pc + 6)))"
| "wt_op bc rc A pc (k, g) REOP_loop_check_adv_split_goto_first =
     (reg_is g (opnd8 bc (pc + 1)) RInt \<and> reg_is g (opnd8 bc (pc + 1) + 1) RPos
      \<and> flow A k g (pc + 10) \<and> flow_rel A k g (pc + 10) (get_u32 bc (pc + 6)))"
| "wt_op bc rc A pc (k, g) REOP_loop_check_adv_split_next_first =
     (reg_is g (opnd8 bc (pc + 1)) RInt \<and> reg_is g (opnd8 bc (pc + 1) + 1) RPos
      \<and> flow A k g (pc + 10) \<and> flow_rel A k g (pc + 10) (get_u32 bc (pc + 6)))"
| "wt_op bc rc A pc (k, g) REOP_range =
     (get_u16 bc (pc + 1) \<noteq> 0 \<and> flow A k g (pc + 3 + 4 * unat (get_u16 bc (pc + 1))))"
| "wt_op bc rc A pc (k, g) REOP_range_i =
     (get_u16 bc (pc + 1) \<noteq> 0 \<and> flow A k g (pc + 3 + 4 * unat (get_u16 bc (pc + 1))))"
| "wt_op bc rc A pc (k, g) REOP_range32 =
     (get_u16 bc (pc + 1) \<noteq> 0 \<and> flow A k g (pc + 3 + 8 * unat (get_u16 bc (pc + 1))))"
| "wt_op bc rc A pc (k, g) REOP_range32_i =
     (get_u16 bc (pc + 1) \<noteq> 0 \<and> flow A k g (pc + 3 + 8 * unat (get_u16 bc (pc + 1))))"
| "wt_op bc rc A pc (k, g) REOP_back_reference = flow A k g (pc + 2 + opnd8 bc (pc + 1))"
| "wt_op bc rc A pc (k, g) REOP_back_reference_i = flow A k g (pc + 2 + opnd8 bc (pc + 1))"
| "wt_op bc rc A pc (k, g) REOP_backward_back_reference = flow A k g (pc + 2 + opnd8 bc (pc + 1))"
| "wt_op bc rc A pc (k, g) REOP_backward_back_reference_i =
     flow A k g (pc + 2 + opnd8 bc (pc + 1))"
| "wt_op bc rc A pc (k, g) op = flow A k g (pc + reop_size op)"

text \<open>One typed position: the opcode exists and the whole instruction is inside the buffer.\<close>

definition wt_at :: "u8 list \<Rightarrow> nat \<Rightarrow> (nat \<times> ity) list \<Rightarrow> nat \<Rightarrow> ity \<Rightarrow> bool" where
  "wt_at bc rc A pc ty =
     (pc < length bc \<and>
      (case reop_decode (bc ! pc) of None \<Rightarrow> False
       | Some op \<Rightarrow> pc + reop_size op \<le> length bc \<and>
          (case reop_len bc pc op of None \<Rightarrow> False
           | Some len \<Rightarrow> pc + len \<le> length bc \<and> wt_op bc rc A pc ty op)
          \<and> length (snd ty) \<le> rc))"

definition wt_code :: "u8 list \<Rightarrow> (nat \<times> ity) list \<Rightarrow> bool" where
  "wt_code bc A \<longleftrightarrow> RE_HEADER_LEN \<le> length bc
     \<and> map_of A RE_HEADER_LEN = Some ([], [])
     \<and> (\<forall>(pc, ty) \<in> set A. wt_at bc (unat (bc ! RE_HEADER_REGISTER_COUNT)) A pc ty)"

subsection \<open>Values that match the typing\<close>

fun val_ok :: "nat \<Rightarrow> rty \<Rightarrow> cap \<Rightarrow> bool" where
  "val_ok n RInt v = (\<forall>p. v \<noteq> CapPtr p)"
| "val_ok n RPos v = (case v of CapNull \<Rightarrow> True | CapPtr p \<Rightarrow> p \<le> n | CapInt i \<Rightarrow> False)"

definition caps_ok :: "re_ctx \<Rightarrow> nat \<Rightarrow> cap list \<Rightarrow> rty list \<Rightarrow> bool" where
  "caps_ok ctx rc c g \<longleftrightarrow> 2 * rx_capture_count ctx + rc \<le> length c \<and> length g \<le> rc
     \<and> (\<forall>i < 2 * rx_capture_count ctx. val_ok (clen ctx) RPos (c ! i))
     \<and> (\<forall>i < length g. val_ok (clen ctx) (g ! i) (c ! (2 * rx_capture_count ctx + i)))"

lemma caps_ok_prefix: "caps_ok ctx rc c g \<Longrightarrow> is_prefix g' g \<Longrightarrow> caps_ok ctx rc c g'"
  unfolding caps_ok_def is_prefix_def by (metis (no_types, lifting) dual_order.trans nth_take order_less_le_trans)

lemma caps_ok_capture:
  "\<lbrakk>caps_ok ctx rc c g; i < 2 * rx_capture_count ctx; val_ok (clen ctx) RPos v\<rbrakk>
   \<Longrightarrow> caps_ok ctx rc (c[i := v]) g"
  by (auto simp: caps_ok_def nth_list_update simp del: val_ok.simps)

lemma caps_ok_register:
  assumes "caps_ok ctx rc c g" "r \<le> length g" "r < rc" "val_ok (clen ctx) t v"
  shows "caps_ok ctx rc (c[2 * rx_capture_count ctx + r := v]) (reg_set g r t)"
  using assms by (auto simp: caps_ok_def reg_set_def nth_append nth_list_update
      less_Suc_eq simp del: val_ok.simps)

lemma caps_ok_update:
  assumes "caps_ok ctx rc c g" "reg_is g r t" "val_ok (clen ctx) t v"
  shows "caps_ok ctx rc (c[2 * rx_capture_count ctx + r := v]) g"
  using assms by (auto simp: caps_ok_def reg_is_def nth_list_update simp del: val_ok.simps)

lemma reg_value:
  assumes "caps_ok ctx rc c g" "reg_is g r t"
  obtains v where "cap_at c (2 * rx_capture_count ctx + r) = Some v" "val_ok (clen ctx) t v"
  using assms by (auto simp: caps_ok_def reg_is_def cap_at_def)

lemma val_ok_int: "val_ok n RInt v \<Longrightarrow> \<exists>w. cap_u32 v = Some w"
  by (cases v) auto

lemma val_ok_pos: "val_ok n RPos v \<Longrightarrow> \<exists>b. cap_eq_ptr v p = Some b"
  by (cases v) auto

lemma val_ok_cap_of_u32: "val_ok n RInt (cap_of_u32 v)"
  by (simp add: cap_of_u32_def)

subsection \<open>What a well-typed instruction does\<close>

fun ctl_ok :: "re_ctx \<Rightarrow> (nat \<times> ity) list \<Rightarrow> (exec_type \<times> rty list) list \<Rightarrow> rty list \<Rightarrow> ctl \<Rightarrow> bool" where
  "ctl_ok ctx A k g (Jump b pc p) = (flow A k g pc \<and> p \<le> clen ctx)"
| "ctl_ok ctx A k g (Split kind pc1 pc p) =
     (p \<le> clen ctx \<and> flow A k g pc1 \<and>
      flow A (if kind = EXEC_SPLIT then k else (kind, snd (the (map_of A pc1))) # k) g pc)"
| "ctl_ok ctx A k g Lookahead_match = (\<exists>g' k'. k = (EXEC_LOOKAHEAD, g') # k' \<and> is_prefix g' g)"
| "ctl_ok ctx A k g Negative_lookahead_match = (\<exists>g' k'. k = (EXEC_NEGATIVE_LOOKAHEAD, g') # k')"
| "ctl_ok ctx A k g c = True"

definition act_ok ::
    "re_ctx \<Rightarrow> (nat \<times> ity) list \<Rightarrow> nat \<Rightarrow> (exec_type \<times> rty list) list \<Rightarrow> cap list \<Rightarrow> action option \<Rightarrow> bool" where
  "act_ok ctx A rc k c ox \<longleftrightarrow> (\<exists>x c' g. ox = Some x \<and> ab_saves (act_saves x) c = Some c'
     \<and> length c' = length c \<and> caps_ok ctx rc c' g \<and> ctl_ok ctx A k g (act_ctl x))"

lemma act_okI: "caps_ok ctx rc c g \<Longrightarrow> ctl_ok ctx A k g t \<Longrightarrow> act_ok ctx A rc k c (Some (act t))"
  by (auto simp: act_ok_def)

lemma act_ok_save1:
  "\<lbrakk>i < length c; caps_ok ctx rc (c[i := v]) g; ctl_ok ctx A k g t\<rbrakk>
   \<Longrightarrow> act_ok ctx A rc k c (Some (act_save [(b, i, v)] t))"
  by (auto simp: act_ok_def)

lemma get_char_total:
  "p < clen ctx \<Longrightarrow> e \<le> clen ctx \<Longrightarrow> \<exists>c q. get_char ctx p e = Some (c, q) \<and> q \<le> clen ctx"
  by (auto simp: get_char_def Let_def)

lemma get_char_end:
  "get_char ctx p e = Some (c, q) \<Longrightarrow> p < e \<Longrightarrow> q \<le> e"
  by (auto simp: get_char_def Let_def split: if_splits)

lemma get_prev_char_total:
  "0 < p \<Longrightarrow> p \<le> clen ctx \<Longrightarrow> \<exists>c q. get_prev_char ctx p b = Some (c, q) \<and> q < p"
  by (auto simp: get_prev_char_def Let_def)

lemma test_char_ok:
  assumes "caps_ok ctx rc c g" "flow A k g pc" "p \<le> clen ctx"
  shows "act_ok ctx A rc k c (re_test_char ctx ic val pc p)"
proof (cases "p < clen ctx")
  case True
  from get_char_total [OF this order_refl] assms show ?thesis
    by (auto simp: re_test_char_def intro!: act_okI [OF assms(1)])
qed (use assms in \<open>auto simp: re_test_char_def intro!: act_okI [OF assms(1)]\<close>)

lemma class_ok:
  assumes "caps_ok ctx rc c g" "flow A k g pc" "p \<le> clen ctx"
  shows "act_ok ctx A rc k c (re_class ctx P pc p)"
proof (cases "p = clen ctx")
  case False
  with assms(3) have "p < clen ctx" by simp
  from get_char_total [OF this order_refl] assms show ?thesis
    by (auto simp: re_class_def intro!: act_okI [OF assms(1)])
qed (use assms in \<open>auto simp: re_class_def intro!: act_okI [OF assms(1)]\<close>)

lemma line_start_ok:
  assumes "caps_ok ctx rc c g" "flow A k g pc" "p \<le> clen ctx"
  shows "act_ok ctx A rc k c (re_line_start ctx multi pc p)"
proof (cases "p = 0")
  case False
  then have "0 < p" by simp
  from get_prev_char_total [OF this assms(3), of 0] assms show ?thesis
    by (auto simp: re_line_start_def intro!: act_okI [OF assms(1)])
qed (use assms in \<open>auto simp: re_line_start_def intro!: act_okI [OF assms(1)]\<close>)

lemma line_end_ok:
  assumes "caps_ok ctx rc c g" "flow A k g pc" "p \<le> clen ctx"
  shows "act_ok ctx A rc k c (re_line_end ctx multi pc p)"
proof (cases "p = clen ctx")
  case False
  with assms(3) have "p < clen ctx" by simp
  from get_char_total [OF this order_refl] assms show ?thesis
    by (auto simp: re_line_end_def intro!: act_okI [OF assms(1)])
qed (use assms in \<open>auto simp: re_line_end_def intro!: act_okI [OF assms(1)]\<close>)

lemma prev_ok:
  assumes "caps_ok ctx rc c g" "flow A k g pc" "p \<le> clen ctx"
  shows "act_ok ctx A rc k c (re_prev ctx pc p)"
proof (cases "p = 0")
  case False
  then have "0 < p" by simp
  from get_prev_char_total [OF this assms(3), of 0] assms show ?thesis
    by (auto simp: re_prev_def intro!: act_okI [OF assms(1)])
qed (use assms in \<open>auto simp: re_prev_def intro!: act_okI [OF assms(1)]\<close>)

lemma word_boundary_ok:
  assumes "caps_ok ctx rc c g" "flow A k g pc" "p \<le> clen ctx"
  shows "act_ok ctx A rc k c (re_word_boundary ctx ic b pc p)"
proof -
  have "\<exists>v. (if p = 0 then Some False
      else map_option (\<lambda>(c, q). re_is_word ic c) (get_prev_char ctx p 0)) = Some v"
    using get_prev_char_total [of p ctx 0] assms(3) by (cases "p = 0") auto
  moreover have "\<exists>v. (if p \<ge> clen ctx then Some False
      else map_option (\<lambda>(c, q). re_is_word ic c) (get_char ctx p (clen ctx))) = Some v"
    using get_char_total [of p ctx "clen ctx"] by (cases "p < clen ctx") auto
  ultimately obtain v1 v2 where "(if p = 0 then Some False
      else map_option (\<lambda>(c, q). re_is_word ic c) (get_prev_char ctx p 0)) = Some v1"
    "(if p \<ge> clen ctx then Some False
      else map_option (\<lambda>(c, q). re_is_word ic c) (get_char ctx p (clen ctx))) = Some v2" by blast
  then have "re_word_boundary ctx ic b pc p =
      Some (act (if (v1 \<noteq> v2) \<noteq> b then No_match else Jump False pc p))"
    by (simp only: re_word_boundary_def bind.bind_lunit)
  then show ?thesis using assms by (auto intro!: act_okI [OF assms(1)])
qed

lemma save_ok:
  assumes "caps_ok ctx rc c g" "flow A k g (pc + 1)" "p \<le> clen ctx" "pc < length (rx_bc ctx)" "j < 2"
  shows "act_ok ctx A rc k c (re_save ctx j pc p)"
proof (cases "unat (rx_bc ctx ! pc) < rx_capture_count ctx")
  case True
  let ?i = "2 * unat (rx_bc ctx ! pc) + j"
  have i: "?i < 2 * rx_capture_count ctx" using True assms(5) by linarith
  then have "?i < length c" using assms(1) by (simp add: caps_ok_def)
  moreover have "caps_ok ctx rc (c[?i := CapPtr p]) g"
    using i assms(3) by (intro caps_ok_capture [OF assms(1)]) simp_all
  ultimately show ?thesis
    using True assms by (auto simp: re_save_def bc8_def intro!: act_ok_save1)
qed (use assms in \<open>auto simp: re_save_def bc8_def intro!: act_okI [OF assms(1)]\<close>)

lemma ab_saves_null:
  "\<lbrakk>caps_ok ctx rc c g; \<forall>v \<in> set vs. v < rx_capture_count ctx\<rbrakk> \<Longrightarrow>
   \<exists>c'. ab_saves (concat (map (\<lambda>v. [(False, 2 * v, CapNull), (False, 2 * v + 1, CapNull)]) vs)) c = Some c'
     \<and> length c' = length c \<and> caps_ok ctx rc c' g"
proof (induction vs arbitrary: c)
  case (Cons v vs)
  have v: "2 * v + 1 < 2 * rx_capture_count ctx" using Cons.prems by simp
  then have len: "2 * v + 1 < length c" using Cons.prems by (simp add: caps_ok_def)
  have "caps_ok ctx rc (c[2 * v := CapNull, 2 * v + 1 := CapNull]) g"
    using v by (intro caps_ok_capture [OF caps_ok_capture [OF Cons.prems(1)]]) simp_all
  from Cons.IH [OF this] Cons.prems(2) len show ?case by auto
qed simp

lemma save_reset_ok:
  assumes "caps_ok ctx rc c g" "flow A k g (pc + 2)" "p \<le> clen ctx" "pc + 1 < length (rx_bc ctx)"
  shows "act_ok ctx A rc k c (re_save_reset ctx pc p)"
proof (cases "unat (rx_bc ctx ! (pc + 1)) < rx_capture_count ctx")
  case True
  then have "\<forall>v \<in> set [unat (rx_bc ctx ! pc) ..< unat (rx_bc ctx ! (pc + 1)) + 1]. v < rx_capture_count ctx"
    by auto
  from ab_saves_null [OF assms(1) this] True assms show ?thesis
    by (auto simp: re_save_reset_def bc8_def act_ok_def)
qed (use assms in \<open>auto simp: re_save_reset_def bc8_def intro!: act_okI [OF assms(1)]\<close>)

lemma flow_relE:
  assumes "flow_rel A k g pc val"
  obtains t where "jump_target pc val = Some t" "flow A k g t"
  using assms by (auto simp: flow_rel_def split: option.splits)

lemma split_ok:
  assumes "flow A k g pc" "flow_rel A k g pc val" "p \<le> clen ctx"
  shows "\<exists>t. re_split nf val pc p = Some t \<and> ctl_ok ctx A k g t"
  using assms by (elim flow_relE) (auto simp: re_split_def)

lemma set_i32_ok:
  assumes "caps_ok ctx rc c g" "r = unat (rx_bc ctx ! pc)" "r \<le> length g" "r < rc"
    and "flow A k (reg_set g r RInt) (pc + 5)" "p \<le> clen ctx" "pc + 5 \<le> length (rx_bc ctx)"
  shows "act_ok ctx A rc k c (re_set_i32 ctx pc p)"
proof -
  let ?i = "2 * rx_capture_count ctx + r"
  have "?i < length c" using assms(1,4) by (simp add: caps_ok_def)
  moreover have "caps_ok ctx rc (c[?i := cap_of_u32 v]) (reg_set g r RInt)" for v
    by (rule caps_ok_register [OF assms(1,3,4) val_ok_cap_of_u32])
  moreover have "re_set_i32 ctx pc p = Some (act_save [(True, ?i, cap_of_u32 (get_u32 (rx_bc ctx) (pc + 1)))]
      (Jump False (pc + 5) p))"
    using assms(2,7) by (simp add: re_set_i32_def re_register_def bc8_def bc32_def)
  ultimately show ?thesis using assms(5,6) by (auto intro!: act_ok_save1)
qed

lemma set_char_pos_ok:
  assumes "caps_ok ctx rc c g" "r = unat (rx_bc ctx ! pc)" "r \<le> length g" "r < rc"
    and "flow A k (reg_set g r RPos) (pc + 1)" "p \<le> clen ctx" "pc + 1 \<le> length (rx_bc ctx)"
  shows "act_ok ctx A rc k c (re_set_char_pos ctx pc p)"
proof -
  let ?i = "2 * rx_capture_count ctx + r"
  have "?i < length c" using assms(1,4) by (simp add: caps_ok_def)
  moreover have "caps_ok ctx rc (c[?i := CapPtr p]) (reg_set g r RPos)"
    using assms(6) by (intro caps_ok_register [OF assms(1,3,4)]) simp
  moreover have "re_set_char_pos ctx pc p = Some (act_save [(True, ?i, CapPtr p)] (Jump False (pc + 1) p))"
    using assms(2,7) by (simp add: re_set_char_pos_def re_register_def bc8_def)
  ultimately show ?thesis using assms(5,6) by (auto intro!: act_ok_save1)
qed

lemma check_advance_ok:
  assumes "caps_ok ctx rc c g" "reg_is g (unat (rx_bc ctx ! pc)) RPos"
    and "flow A k g (pc + 1)" "p \<le> clen ctx" "pc + 1 \<le> length (rx_bc ctx)"
  shows "act_ok ctx A rc k c (re_check_advance ctx pc p c)"
proof -
  obtain v where v: "cap_at c (2 * rx_capture_count ctx + unat (rx_bc ctx ! pc)) = Some v"
    "val_ok (clen ctx) RPos v" by (rule reg_value [OF assms(1,2)])
  obtain b where "cap_eq_ptr v p = Some b" using val_ok_pos [OF v(2)] by blast
  then have "re_check_advance ctx pc p c = Some (act (if b then No_match else Jump False (pc + 1) p))"
    using assms(5) v(1) by (simp add: re_check_advance_def re_register_def bc8_def)
  then show ?thesis using assms by (auto intro!: act_okI [OF assms(1)])
qed

lemma loop_ok:
  assumes "caps_ok ctx rc c g" "reg_is g (unat (rx_bc ctx ! pc)) RInt"
    and "flow A k g (pc + 5)" "flow_rel A k g (pc + 5) (get_u32 (rx_bc ctx) (pc + 1))"
    and "p \<le> clen ctx" "pc + 5 \<le> length (rx_bc ctx)"
  shows "act_ok ctx A rc k c (re_loop ctx pc p c)"
proof -
  let ?i = "2 * rx_capture_count ctx + unat (rx_bc ctx ! pc)"
  obtain v where v: "cap_at c ?i = Some v" "val_ok (clen ctx) RInt v" by (rule reg_value [OF assms(1,2)])
  obtain n where n: "cap_u32 v = Some n" using val_ok_int [OF v(2)] by blast
  obtain t where t: "jump_target (pc + 5) (get_u32 (rx_bc ctx) (pc + 1)) = Some t" "flow A k g t"
    by (rule flow_relE [OF assms(4)])
  have run: "re_loop ctx pc p c = Some (act_save [(True, ?i, cap_of_u32 (n - 1))]
      (Jump (n - 1 \<noteq> 0) (if n - 1 \<noteq> 0 then t else pc + 5) p))"
    using assms(6) v(1) n t(1) by (simp add: re_loop_def re_register_def bc8_def bc32_def)
  have "?i < length c" using v(1) by (auto simp: cap_at_def split: if_splits)
  moreover have "caps_ok ctx rc (c[?i := cap_of_u32 (n - 1)]) g"
    by (rule caps_ok_update [OF assms(1,2) val_ok_cap_of_u32])
  ultimately show ?thesis unfolding run using assms t by (auto intro!: act_ok_save1)
qed

lemma loop_split_ok:
  assumes "caps_ok ctx rc c g" "reg_is g (unat (rx_bc ctx ! pc)) RInt"
    and "ca \<longrightarrow> reg_is g (unat (rx_bc ctx ! pc) + 1) RPos"
    and "flow A k g (pc + 9)" "flow_rel A k g (pc + 9) (get_u32 (rx_bc ctx) (pc + 5))"
    and "p \<le> clen ctx" "pc + 9 \<le> length (rx_bc ctx)"
  shows "act_ok ctx A rc k c (re_loop_split ctx ca nf pc p c)"
proof -
  let ?i = "2 * rx_capture_count ctx + unat (rx_bc ctx ! pc)"
  obtain v where v: "cap_at c ?i = Some v" "val_ok (clen ctx) RInt v" by (rule reg_value [OF assms(1,2)])
  obtain n where n: "cap_u32 v = Some n" using val_ok_int [OF v(2)] by blast
  obtain t where t: "jump_target (pc + 9) (get_u32 (rx_bc ctx) (pc + 5)) = Some t" "flow A k g t"
    by (rule flow_relE [OF assms(5)])
  obtain w where w: "re_split nf (get_u32 (rx_bc ctx) (pc + 5)) (pc + 9) p = Some w" "ctl_ok ctx A k g w"
    using split_ok [OF assms(4-6)] by blast
  have "\<exists>b. (if ca then cap_at c (?i + 1) \<bind> (\<lambda>q. cap_eq_ptr q p) else Some False) = Some b"
  proof (cases ca)
    case True
    with assms(3) have "reg_is g (unat (rx_bc ctx ! pc) + 1) RPos" by simp
    then obtain u where "cap_at c (2 * rx_capture_count ctx + (unat (rx_bc ctx ! pc) + 1)) = Some u"
      "val_ok (clen ctx) RPos u" by (rule reg_value [OF assms(1)])
    then show ?thesis using val_ok_pos [of "clen ctx" u p] True by (auto simp: add.assoc)
  qed auto
  then obtain b where b: "(if ca then cap_at c (?i + 1) \<bind> (\<lambda>q. cap_eq_ptr q p) else Some False) = Some b"
    by blast
  let ?sv = "act_save [(True, ?i, cap_of_u32 (n - 1))]"
  let ?limit = "get_u32 (rx_bc ctx) (pc + 1)"
  have run: "re_loop_split ctx ca nf pc p c = Some (?sv
      (if n - 1 > ?limit then Jump True t p else if b \<and> n - 1 \<noteq> ?limit then No_match
       else if n - 1 \<noteq> 0 then w else Jump False (pc + 9) p))"
    using assms(7) v(1) n t(1) w(1) b
    by (simp add: re_loop_split_def re_register_def bc8_def bc32_def Let_def cong: if_cong)
  have "?i < length c" using v(1) by (auto simp: cap_at_def split: if_splits)
  moreover have "caps_ok ctx rc (c[?i := cap_of_u32 (n - 1)]) g"
    by (rule caps_ok_update [OF assms(1,2) val_ok_cap_of_u32])
  ultimately show ?thesis unfolding run using assms t w(2) by (auto intro!: act_ok_save1)
qed

lemma backref_fwd_total:
  "\<lbrakk>e1 \<le> clen ctx; p \<le> clen ctx\<rbrakk> \<Longrightarrow>
   \<exists>r. backref_fwd ctx ic p1 e1 p = Some r \<and> (\<forall>q. r = Some q \<longrightarrow> q \<le> clen ctx)"
proof (induction ctx ic p1 e1 p rule: backref_fwd.induct)
  case (1 ctx ic p1 e1 p)
  show ?case
  proof (cases "p1 < e1 \<and> p < clen ctx")
    case True
    then obtain c1 q1 c2 q where gc: "get_char ctx p1 e1 = Some (c1, q1)"
      "get_char ctx p (clen ctx) = Some (c2, q)" "q \<le> clen ctx"
      using get_char_total [of p1 ctx e1] get_char_total [of p ctx "clen ctx"] "1.prems" by auto
    show ?thesis
      using "1.IH" [OF _ _ gc(1) refl gc(2) refl] True gc "1.prems"
      by (subst backref_fwd.simps) auto
  qed (use "1.prems" in \<open>subst backref_fwd.simps, auto\<close>)
qed

lemma backref_bwd_total:
  "\<lbrakk>p1 \<le> clen ctx; p \<le> clen ctx\<rbrakk> \<Longrightarrow>
   \<exists>r. backref_bwd ctx ic p1 s1 p = Some r \<and> (\<forall>q. r = Some q \<longrightarrow> q \<le> clen ctx)"
proof (induction ctx ic p1 s1 p rule: backref_bwd.induct)
  case (1 ctx ic p1 s1 p)
  show ?case
  proof (cases "s1 < p1 \<and> 0 < p")
    case True
    then have "0 < p1" "0 < p" by simp_all
    then obtain c1 q1 c2 q where gc: "get_prev_char ctx p1 s1 = Some (c1, q1)" "q1 < p1"
      "get_prev_char ctx p 0 = Some (c2, q)" "q < p"
      using get_prev_char_total [of p1 ctx s1] get_prev_char_total [of p ctx 0] "1.prems" by blast
    show ?thesis
      using "1.IH" [OF _ _ gc(1) refl gc(3) refl] True gc "1.prems"
      by (subst backref_bwd.simps) auto
  qed (use "1.prems" in \<open>subst backref_bwd.simps, auto\<close>)
qed

lemma backref_groups_total:
  assumes "caps_ok ctx rc c g" "p \<le> clen ctx"
  shows "\<exists>r. backref_groups ctx ic bw c vs p = Some r \<and> (\<forall>q. r = Some q \<longrightarrow> q \<le> clen ctx)"
proof (induction vs)
  case (Cons val vs)
  show ?case
  proof (cases "unat val < rx_capture_count ctx")
    case True
    let ?i = "2 * unat val"
    have i: "?i < 2 * rx_capture_count ctx" "?i + 1 < 2 * rx_capture_count ctx" using True by simp_all
    then have "cap_at c ?i = Some (c ! ?i)" "cap_at c (?i + 1) = Some (c ! (?i + 1))"
      "val_ok (clen ctx) RPos (c ! ?i)" "val_ok (clen ctx) RPos (c ! (?i + 1))"
      using assms(1) unfolding caps_ok_def cap_at_def by auto
    with True Cons.IH backref_fwd_total [of _ ctx p ic] backref_bwd_total [of _ ctx p ic] assms(2)
    show ?thesis by (auto split: cap.splits)
  qed simp
qed (use assms(2) in simp)

lemma back_reference_ok:
  assumes "caps_ok ctx rc c g" "flow A k g (pc + 1 + unat (rx_bc ctx ! pc))" "p \<le> clen ctx"
    and "pc + 1 + unat (rx_bc ctx ! pc) \<le> length (rx_bc ctx)"
  shows "act_ok ctx A rc k c (re_back_reference ctx ic bw pc p c)"
proof -
  let ?n = "unat (rx_bc ctx ! pc)"
  obtain r where r: "backref_groups ctx ic bw c (take ?n (drop (pc + 1) (rx_bc ctx))) p = Some r"
    "\<forall>q. r = Some q \<longrightarrow> q \<le> clen ctx"
    using backref_groups_total [OF assms(1,3)] by blast
  have "re_back_reference ctx ic bw pc p c
      = Some (act (case r of None \<Rightarrow> No_match | Some q \<Rightarrow> Jump False (pc + 1 + ?n) q))"
    using assms(4) r(1) by (simp add: re_back_reference_def bc8_def)
  then show ?thesis using assms r(2) by (auto intro!: act_okI [OF assms(1)] split: option.splits)
qed

lemma bcw_total: "w = 2 \<or> w = 4 \<Longrightarrow> i + w \<le> length bc \<Longrightarrow> \<exists>v. bcw w bc i = Some v"
  by (auto simp: bcw_def bc16_def bc32_def)

lemma range_search_total:
  "\<lbrakk>w = 2 \<or> w = 4; pc + n * (2 * w) \<le> length bc; hi < n; bcw w bc pc = Some low; low \<le> c\<rbrakk> \<Longrightarrow>
   \<exists>r. range_search w bc pc c lo hi = Some r"
proof (induction w bc pc c lo hi rule: range_search.induct)
  case (1 w bc pc c lo hi)
  show ?case
  proof (cases "lo \<le> hi")
    case True
    define idx where "idx = (lo + hi) div 2"
    have "idx + 1 \<le> n" using True "1.prems" by (simp add: idx_def)
    then have "(idx + 1) * (2 * w) \<le> n * (2 * w)" by (rule mult_le_mono1)
    then have "pc + idx * (2 * w) + w + w \<le> length bc" using "1.prems"(2) by simp
    then obtain l h where lh: "bcw w bc (pc + idx * (2 * w)) = Some l"
      "bcw w bc (pc + idx * (2 * w) + w) = Some h"
      using bcw_total [OF "1.prems"(1), of "pc + idx * (2 * w)" bc]
        bcw_total [OF "1.prems"(1), of "pc + idx * (2 * w) + w" bc] by auto
    have z: "idx \<noteq> 0" if "c < l"
    proof
      assume "idx = 0"
      with lh(1) "1.prems"(4) have "l = low" by simp
      with that "1.prems"(5) show False by simp
    qed
    have lt: "idx - 1 < n" using \<open>idx + 1 \<le> n\<close> by simp
    show ?thesis
      using "1.IH" [OF True idx_def refl lh(1) lh(2)] z lt "1.prems" True lh
      by (subst range_search.simps) (simp add: idx_def [symmetric] Let_def, blast)
  qed (auto simp: range_search.simps)
qed

lemma range_ok:
  assumes "caps_ok ctx rc c g" "w = 2 \<or> w = 4" "n = unat (get_u16 (rx_bc ctx) pc)" "n \<noteq> 0"
    and "flow A k g (pc + 2 + 2 * w * n)" "p \<le> clen ctx" "pc + 2 + 2 * w * n \<le> length (rx_bc ctx)"
  shows "act_ok ctx A rc k c (re_range w ctx ic pc p)"
proof (cases "p < clen ctx")
  case False
  then show ?thesis
    using assms by (auto simp: re_range_def bc16_def Let_def intro!: act_okI [OF assms(1)])
next
  case True
  obtain c0 q where gc: "get_char ctx p (clen ctx) = Some (c0, q)" "q \<le> clen ctx"
    using get_char_total [OF True order_refl] by blast
  have "2 * w * 1 \<le> 2 * w * n" using assms(4) by (intro mult_le_mono2) simp
  then have len: "pc + 2 + w + w \<le> length (rx_bc ctx)" using assms(7) by linarith
  have "(n - 1) * (2 * w) + 2 * w = 2 * w * n" using assms(4) by (cases n) simp_all
  then have "pc + 2 + (n - 1) * (2 * w) + w + w \<le> length (rx_bc ctx)" using assms(7) by linarith
  then obtain low high where lh: "bcw w (rx_bc ctx) (pc + 2) = Some low"
    "bcw w (rx_bc ctx) (pc + 2 + (n - 1) * (2 * w) + w) = Some high"
    using bcw_total [OF assms(2), of "pc + 2" "rx_bc ctx"] len
      bcw_total [OF assms(2), of "pc + 2 + (n - 1) * (2 * w) + w" "rx_bc ctx"] by auto
  let ?c = "canon_if ctx ic c0"
  have rs: "\<exists>r. range_search w (rx_bc ctx) (pc + 2) ?c 0 (n - 1) = Some r" if "low \<le> ?c"
  proof -
    have "pc + 2 + n * (2 * w) \<le> length (rx_bc ctx)" "n - 1 < n"
      using assms(4,7) by (simp_all add: mult.commute mult.left_commute)
    from range_search_total [OF assms(2) this lh(1) that, of 0] show ?thesis .
  qed
  have "bc16 (rx_bc ctx) pc = Some (get_u16 (rx_bc ctx) pc)" using len by (simp add: bc16_def)
  then show ?thesis
    using True assms gc lh rs
    by (cases "?c < low") (auto simp: re_range_def Let_def not_less intro!: act_okI [OF assms(1)])
qed

text \<open>A typed context: the code, its typing, and what the header promises.\<close>

definition wt_ctx :: "re_ctx \<Rightarrow> (nat \<times> ity) list \<Rightarrow> nat \<Rightarrow> bool" where
  "wt_ctx ctx A rc \<longleftrightarrow> (\<forall>(pc, ty) \<in> set A. wt_at (rx_bc ctx) rc A pc ty)"

lemma wt_ctxD: "wt_ctx ctx A rc \<Longrightarrow> map_of A pc = Some ty \<Longrightarrow> wt_at (rx_bc ctx) rc A pc ty"
  by (auto simp: wt_ctx_def dest!: map_of_SomeD)

lemma flowE:
  assumes "flow A k g pc"
  obtains g' where "map_of A pc = Some (k, g')" "is_prefix g' g"
  using assms by (auto simp: flow_def split: option.splits)

lemma lookahead_ok:
  assumes "flow A k g t" "flow A ((kind, snd (the (map_of A t))) # k) g pc" "kind \<noteq> EXEC_SPLIT"
    and "p \<le> clen ctx"
  shows "ctl_ok ctx A k g (Split kind t pc p)"
  using assms by simp

lemma jump_instr_ok:
  assumes c: "caps_ok ctx rc c g" and p: "p \<le> clen ctx" and len: "pc + 5 \<le> length (rx_bc ctx)"
    and wt: "wt_op (rx_bc ctx) rc A pc (k, g) op"
    and op: "op \<in> {REOP_goto, REOP_split_goto_first, REOP_split_next_first, REOP_lookahead,
      REOP_negative_lookahead}"
  shows "act_ok ctx A rc k c (re_instr ctx op (pc + 1) p c)"
proof -
  let ?val = "get_u32 (rx_bc ctx) (pc + 1)"
  have val: "bc32 (rx_bc ctx) (pc + 1) = Some ?val" "pc + 1 + 4 = pc + 5" using len by (simp_all add: bc32_def)
  obtain t where t: "jump_target (pc + 5) ?val = Some t" "flow A k g t"
    using op wt by (auto simp: flow_rel_def split: option.splits)
  have sp: "\<exists>t. re_split nf ?val (pc + 5) p = Some t \<and> ctl_ok ctx A k g t"
    if "flow A k g (pc + 5)" for nf
    by (rule split_ok [OF that _ p]) (use t in \<open>simp add: flow_rel_def\<close>)
  from op consider "op = REOP_goto" | nf where "flow A k g (pc + 5)" "re_instr ctx op (pc + 1) p c
      = do { val \<leftarrow> bc32 (rx_bc ctx) (pc + 1); c \<leftarrow> re_split nf val (pc + 1 + 4) p; Some (act c) }"
    | kind where "kind \<noteq> EXEC_SPLIT" "flow A ((kind, snd (the (map_of A t))) # k) g (pc + 5)"
        "re_instr ctx op (pc + 1) p c = do { val \<leftarrow> bc32 (rx_bc ctx) (pc + 1);
           t \<leftarrow> jump_target (pc + 1 + 4) val; Some (act (Split kind t (pc + 1 + 4) p)) }"
    using wt t(1) by force
  then show ?thesis
  proof cases
    case 1
    with t p show ?thesis by (simp add: val act_okI [OF c] del: add_2_eq_Suc' One_nat_def)
  next
    case 2
    from sp [OF 2(1)] obtain w where
      w: "re_split nf ?val (pc + 5) p = Some w" "ctl_ok ctx A k g w" by blast
    show ?thesis unfolding 2(2) by (simp only: val w(1) bind.bind_lunit) (rule act_okI [OF c w(2)])
  next
    case 3
    with t p show ?thesis by (simp only: val bind.bind_lunit) (auto intro!: act_okI [OF c])
  qed
qed

lemma register_instr_ok:
  assumes c: "caps_ok ctx rc c g" and p: "p \<le> clen ctx" and len: "pc + reop_size op \<le> length (rx_bc ctx)"
    and wt: "wt_op (rx_bc ctx) rc A pc (k, g) op"
    and op: "op \<in> {REOP_set_i32, REOP_set_char_pos, REOP_check_advance, REOP_loop,
      REOP_loop_split_goto_first, REOP_loop_split_next_first,
      REOP_loop_check_adv_split_goto_first, REOP_loop_check_adv_split_next_first}"
  shows "act_ok ctx A rc k c (re_instr ctx op (pc + 1) p c)"
  using op wt len p set_i32_ok [OF c, of "unat (rx_bc ctx ! (pc + 1))" "pc + 1" A k p]
    set_char_pos_ok [OF c, of "unat (rx_bc ctx ! (pc + 1))" "pc + 1" A k p]
    check_advance_ok [OF c, of "pc + 1" A k p] loop_ok [OF c, of "pc + 1" A k p]
    loop_split_ok [OF c, of "pc + 1" False A k p] loop_split_ok [OF c, of "pc + 1" True A k p]
  by (elim insertE) (simp_all add: opnd8_def Let_def numeral_eq_Suc)

lemma instr_ok:
  assumes at: "wt_at (rx_bc ctx) rc A pc (k, g)" and c: "caps_ok ctx rc c g" and p: "p \<le> clen ctx"
  shows "act_ok ctx A rc k c (re_fetch ctx pc p c)"
proof -
  let ?bc = "rx_bc ctx"
  from at obtain op len where op: "pc < length ?bc" "reop_decode (?bc ! pc) = Some op"
    "pc + reop_size op \<le> length ?bc" "reop_len ?bc pc op = Some len" "pc + len \<le> length ?bc"
    "wt_op ?bc rc A pc (k, g) op"
    by (auto simp: wt_at_def split: option.splits)
  have fetch: "re_fetch ctx pc p c = re_instr ctx op (pc + 1) p c"
    using op(1,2) by (simp add: re_fetch_def bc8_def)
  have range: "\<lbrakk>w = 2 \<or> w = 4; get_u16 ?bc (pc + 1) \<noteq> 0;
      flow A k g (pc + 1 + 2 + 2 * w * unat (get_u16 ?bc (pc + 1)));
      pc + 1 + 2 + 2 * w * unat (get_u16 ?bc (pc + 1)) \<le> length ?bc\<rbrakk>
      \<Longrightarrow> act_ok ctx A rc k c (re_range w ctx ic (pc + 1) p)" for w ic
    using range_ok [OF c, of w _ "pc + 1" A k p] p by (simp add: unsigned_eq_0_iff)
  have backref: "act_ok ctx A rc k c (re_back_reference ctx ic bw (Suc pc) p c)"
    if "flow A k g (Suc (Suc (pc + unat (?bc ! Suc pc))))"
      "Suc (Suc (pc + unat (?bc ! Suc pc))) \<le> length ?bc" for ic bw
    using back_reference_ok [OF c, of A k "pc + 1" p] that p by simp
  note rules = test_char_ok [OF c] class_ok [OF c] line_start_ok [OF c] line_end_ok [OF c]
    prev_ok [OF c] word_boundary_ok [OF c] save_ok [OF c] save_reset_ok [OF c]
    backref range [simplified] act_okI [OF c]
  show ?thesis
  proof (cases "op \<in> {REOP_goto, REOP_split_goto_first, REOP_split_next_first, REOP_lookahead,
      REOP_negative_lookahead}")
    case True
    with op(3) have "pc + 5 \<le> length ?bc" by auto
    from jump_instr_ok [OF c p this op(6) True] show ?thesis by (simp only: fetch)
  next
    case nj: False
    show ?thesis
    proof (cases "op \<in> {REOP_set_i32, REOP_set_char_pos, REOP_check_advance, REOP_loop,
      REOP_loop_split_goto_first, REOP_loop_split_next_first,
      REOP_loop_check_adv_split_goto_first, REOP_loop_check_adv_split_next_first}")
      case True
      from register_instr_ok [OF c p op(3,6) True] show ?thesis by (simp only: fetch)
    next
      case False
      with nj op p show ?thesis unfolding fetch
        by (cases op) (auto simp: rules bc16_def bc32_def bc8_def reop_len_def opnd8_def
            numeral_eq_Suc split: list.splits prod.splits)
    qed
  qed
qed

subsection \<open>The invariant of a run\<close>

text \<open>
  Below a choice point of a lookahead the nesting is the one around the lookahead; every
  choice point resumes at a typed position with captures that match it.
\<close>

fun frames_ok ::
    "re_ctx \<Rightarrow> (nat \<times> ity) list \<Rightarrow> nat \<Rightarrow> (exec_type \<times> rty list) list \<Rightarrow>
     (exec_type \<times> nat \<times> nat \<times> cap list) list \<Rightarrow> bool" where
  "frames_ok ctx A rc k [] = (k = [])"
| "frames_ok ctx A rc k ((kind, pc, p, c) # fs) =
     (p \<le> clen ctx \<and>
      (if kind = EXEC_SPLIT then
         (\<exists>g. map_of A pc = Some (k, g) \<and> caps_ok ctx rc c g) \<and> frames_ok ctx A rc k fs
       else
         (\<exists>g k'. k = (kind, g) # k' \<and> map_of A pc = Some (k', g) \<and> caps_ok ctx rc c g
            \<and> frames_ok ctx A rc k' fs)))"

definition run_ok :: "re_ctx \<Rightarrow> (nat \<times> ity) list \<Rightarrow> nat \<Rightarrow> ab_state \<Rightarrow> bool" where
  "run_ok ctx A rc a \<longleftrightarrow> (\<exists>k g. map_of A (ab_pc a) = Some (k, g) \<and> caps_ok ctx rc (ab_capture a) g
     \<and> ab_cptr a \<le> clen ctx \<and> frames_ok ctx A rc k (ab_frames a))"

fun res_ok :: "re_ctx \<Rightarrow> (nat \<times> ity) list \<Rightarrow> nat \<Rightarrow> ab_state re_res \<Rightarrow> bool" where
  "res_ok ctx A rc (Next a) = run_ok ctx A rc a"
| "res_ok ctx A rc (Exit ret c) = (ret = 1 \<longrightarrow> (\<exists>g. caps_ok ctx rc c g))"
| "res_ok ctx A rc Stuck = False"

lemma run_okI:
  "\<lbrakk>flow A k g (ab_pc a); caps_ok ctx rc (ab_capture a) g; ab_cptr a \<le> clen ctx;
    frames_ok ctx A rc k (ab_frames a)\<rbrakk> \<Longrightarrow> run_ok ctx A rc a"
  unfolding run_ok_def by (elim flowE) (blast intro: caps_ok_prefix)

lemma ab_fail_ok:
  "frames_ok ctx A rc k fs \<Longrightarrow> ab_fail c fs = Inr (pc, p, c1, fs1) \<Longrightarrow>
   \<exists>k1 g1. map_of A pc = Some (k1, g1) \<and> caps_ok ctx rc c1 g1 \<and> p \<le> clen ctx
     \<and> frames_ok ctx A rc k1 fs1"
  by (induction c fs arbitrary: k rule: ab_fail.induct) (auto split: if_splits)

lemma ab_find_ok:
  "\<lbrakk>frames_ok ctx A rc ((kind, g) # k) fs; kind \<noteq> EXEC_SPLIT\<rbrakk> \<Longrightarrow>
   \<exists>pc p c fs1. ab_find kind fs = Some (pc, p, c, fs1) \<and> map_of A pc = Some (k, g)
     \<and> caps_ok ctx rc c g \<and> p \<le> clen ctx \<and> frames_ok ctx A rc k fs1"
  by (induction kind fs rule: ab_find.induct) (auto split: if_splits)

lemma is_prefix_refl [simp]: "is_prefix g g"
  by (simp add: is_prefix_def)

lemma flow_exact: "map_of A pc = Some (k, g) \<Longrightarrow> flow A k g pc"
  by (simp add: flow_def)

lemma ab_no_match_ok:
  assumes "frames_ok ctx A rc k (ab_frames a)"
  shows "res_ok ctx A rc (ab_no_match ctx a)"
proof (cases "ab_fail (ab_capture a) (ab_frames a)")
  case (Inr r)
  obtain pc p c1 fs1 where r: "r = (pc, p, c1, fs1)" by (cases r)
  from ab_fail_ok [OF assms Inr [unfolded r]] show ?thesis
    using Inr r by (auto simp: ab_no_match_def run_ok_def split: prod.splits)
qed (simp add: ab_no_match_def)

lemma ab_ctl_ok:
  assumes t: "ctl_ok ctx A k g t" and c: "caps_ok ctx rc (ab_capture a) g"
    and fs: "frames_ok ctx A rc k (ab_frames a)"
  shows "res_ok ctx A rc (ab_ctl ctx t a)"
proof (cases t)
  case (Jump poll pc p)
  then show ?thesis
    using t c fs by (auto simp: ab_ctl_def intro!: run_okI [of A k g] split: prod.splits)
next
  case (Split kind pc1 pc p)
  with t obtain g1 where g1: "map_of A pc1 = Some (k, g1)" "is_prefix g1 g" by (auto elim: flowE)
  let ?k = "if kind = EXEC_SPLIT then k else (kind, g1) # k"
  have fl: "flow A ?k g pc" "p \<le> clen ctx" using t g1(1) Split by (simp_all split: if_splits)
  have fr: "frames_ok ctx A rc ?k ((kind, pc1, p, ab_capture a) # ab_frames a)"
    using g1(1) fs fl(2) caps_ok_prefix [OF c g1(2)] by simp
  have "run_ok ctx A rc (a\<lparr>ab_frames := (kind, pc1, p, ab_capture a) # ab_frames a,
      ab_pc := pc, ab_cptr := p\<rparr>)"
    by (rule run_okI [of A ?k g]) (use fl fr c in \<open>simp_all del: frames_ok.simps\<close>)
  then show ?thesis by (simp add: Split ab_ctl_def)
next
  case Lookahead_match
  with t obtain g1 k1 where k: "k = (EXEC_LOOKAHEAD, g1) # k1" "is_prefix g1 g" by auto
  obtain pc p c1 fs1 where
    "ab_find EXEC_LOOKAHEAD (ab_frames a) = Some (pc, p, c1, fs1)" "map_of A pc = Some (k1, g1)"
    "p \<le> clen ctx" "frames_ok ctx A rc k1 fs1"
    using ab_find_ok [OF fs [unfolded k(1)]] by blast
  then show ?thesis
    using Lookahead_match caps_ok_prefix [OF c k(2)] by (auto simp: ab_ctl_def run_ok_def)
next
  case Negative_lookahead_match
  with t obtain g1 k1 where k: "k = (EXEC_NEGATIVE_LOOKAHEAD, g1) # k1" by auto
  obtain pc p c1 fs1 where
    "ab_find EXEC_NEGATIVE_LOOKAHEAD (ab_frames a) = Some (pc, p, c1, fs1)"
    "frames_ok ctx A rc k1 fs1"
    using ab_find_ok [OF fs [unfolded k]] by blast
  then show ?thesis
    using Negative_lookahead_match ab_no_match_ok [of ctx A rc k1] by (auto simp: ab_ctl_def)
qed (use c ab_no_match_ok [OF fs] in \<open>auto simp: ab_ctl_def\<close>)

lemma ab_step_ok:
  assumes "wt_ctx ctx A rc" "run_ok ctx A rc a"
  shows "res_ok ctx A rc (ab_step ctx a)"
proof -
  obtain k g where a: "map_of A (ab_pc a) = Some (k, g)" "caps_ok ctx rc (ab_capture a) g"
    "ab_cptr a \<le> clen ctx" "frames_ok ctx A rc k (ab_frames a)"
    using assms(2) by (auto simp: run_ok_def)
  obtain x c' g' where x: "re_fetch ctx (ab_pc a) (ab_cptr a) (ab_capture a) = Some x"
    "ab_saves (act_saves x) (ab_capture a) = Some c'" "caps_ok ctx rc c' g'"
    "ctl_ok ctx A k g' (act_ctl x)"
    using instr_ok [OF wt_ctxD [OF assms(1) a(1)] a(2,3)] by (auto simp: act_ok_def)
  show ?thesis
    using ab_ctl_ok [OF x(4), of rc "a\<lparr>ab_capture := c'\<rparr>"] x a(4) by (simp add: ab_step_def)
qed

lemma ab_steps_ok: "wt_ctx ctx A rc \<Longrightarrow> run_ok ctx A rc a \<Longrightarrow> res_ok ctx A rc (ab_steps n ctx a)"
proof (induction n arbitrary: a)
  case (Suc n)
  from ab_step_ok [OF Suc.prems] Suc show ?case by (cases "ab_step ctx a") auto
qed simp

lemma ab_init_ok:
  assumes "wt_code bc A" "length capture \<ge> lre_get_alloc_count bc" "cindex \<le> length cbuf"
    and "ctx = re_context ra timeout bc cbuf cbuf_type"
  shows "wt_ctx ctx A (unat (bc ! RE_HEADER_REGISTER_COUNT))"
    and "run_ok ctx A (unat (bc ! RE_HEADER_REGISTER_COUNT)) (ab_init ctx capture cindex)"
proof -
  have ctx: "rx_bc ctx = bc" "rx_cbuf ctx = cbuf" "rx_capture_count ctx = unat (bc ! RE_HEADER_CAPTURE_COUNT)"
    by (simp_all add: assms(4) re_context_def Let_def)
  show "wt_ctx ctx A (unat (bc ! RE_HEADER_REGISTER_COUNT))"
    using assms(1) by (auto simp: wt_ctx_def wt_code_def ctx)
  have "caps_ok ctx (unat (bc ! RE_HEADER_REGISTER_COUNT)) (ab_capture (ab_init ctx capture cindex)) []"
    using assms(2) by (auto simp: caps_ok_def ab_init_def ctx lre_get_alloc_count_def nth_append)
  moreover have "re_start ctx cindex \<le> clen ctx"
    using assms(3) by (auto simp: re_start_def ctx)
  ultimately show "run_ok ctx A (unat (bc ! RE_HEADER_REGISTER_COUNT)) (ab_init ctx capture cindex)"
    using assms(1) by (auto simp: run_ok_def wt_code_def ab_init_def)
qed

lemma lre_exec_safe:
  assumes "wt_code bc A" "length capture \<ge> lre_get_alloc_count bc" "cindex \<le> length cbuf"
    and "lre_exec ra timeout capture bc cbuf cindex cbuf_type = Some r"
  shows "\<exists>ret c. r = Exit ret c \<and> (ret = 1 \<longrightarrow> lre_get_alloc_count bc \<le> length c \<and>
    (\<forall>i < 2 * lre_get_capture_count bc. val_ok (length cbuf) RPos (c ! i)))"
proof -
  let ?ctx = "re_context ra timeout bc cbuf cbuf_type"
  let ?rc = "unat (bc ! RE_HEADER_REGISTER_COUNT)"
  note ok = ab_init_ok [OF assms(1-3) refl, of ra timeout cbuf_type]
  have cc: "2 * rx_capture_count ?ctx = 2 * lre_get_capture_count bc" "clen ?ctx = length cbuf"
    "lre_get_alloc_count bc = 2 * lre_get_capture_count bc + ?rc"
    by (simp_all add: re_context_def Let_def lre_get_capture_count_def lre_get_alloc_count_def)
  have len: "\<not> length capture < 2 * rx_capture_count ?ctx"
    using assms(2) by (simp add: re_context_def Let_def lre_get_alloc_count_def)
  have ab: "\<exists>ret c. q = Exit ret c \<and> (ret = 1 \<longrightarrow> (\<exists>g. caps_ok ?ctx ?rc c g))"
    if q: "ab_lre_exec ra timeout capture bc cbuf cindex cbuf_type = Some q" for q
  proof -
    obtain n where "ab_steps n ?ctx (ab_init ?ctx capture cindex) = q" "\<forall>a. q \<noteq> Next a"
      using q len ab_exec_steps_iff by (auto simp: ab_lre_exec_def Let_def)
    with ab_steps_ok [OF ok, of n] show ?thesis by (cases q) auto
  qed
  show ?thesis
  proof (cases "ab_lre_exec ra timeout capture bc cbuf cindex cbuf_type")
    case None
    with lre_exec_rel [of ra timeout capture bc cbuf cindex cbuf_type] assms(4)
    obtain c where "outcome r = Some (LRE_RET_MEMORY_ERROR, c)" by auto
    then show ?thesis by (cases r) auto
  next
    case (Some q)
    from ab [OF this] obtain ret c where q: "q = Exit ret c" "ret = 1 \<longrightarrow> (\<exists>g. caps_ok ?ctx ?rc c g)"
      by blast
    from lre_exec_rel [of ra timeout capture bc cbuf cindex cbuf_type] assms(4) Some q(1)
    consider "outcome r = Some (ret, c)" | c1 where "outcome r = Some (LRE_RET_MEMORY_ERROR, c1)"
      by auto
    then show ?thesis
    proof cases
      case 1
      then have "r = Exit ret c" by (cases r) auto
      then show ?thesis using q(2) unfolding caps_ok_def cc by blast
    next
      case 2
      then show ?thesis by (cases r) auto
    qed
  qed
qed

lemma val_ok_pos_iff: "val_ok n RPos v \<longleftrightarrow> v = CapNull \<or> (\<exists>p \<le> n. v = CapPtr p)"
  by (cases v) auto

text \<open>C4: a well-typed program, given at least the \<open>lre_get_alloc_count\<close> slots of \<open>capture\<close> it
asks for and a start inside the subject, is never stuck: whatever the subject, the allocator
and the timeout, a finished run returns a code. When it matched, every capture is null or a
position of the subject.\<close>

theorem lre_exec_memory_safe:
  assumes "wt_code bc A" "lre_get_alloc_count bc \<le> length capture" "cindex \<le> length cbuf"
    and "lre_exec ra timeout capture bc cbuf cindex cbuf_type = Some r"
  shows "\<exists>ret c. r = Exit ret c \<and> (ret = 1 \<longrightarrow> lre_get_alloc_count bc \<le> length c \<and>
    (\<forall>i < 2 * lre_get_capture_count bc.
       c ! i = CapNull \<or> (\<exists>p \<le> length cbuf. c ! i = CapPtr p)))"
  using lre_exec_safe [OF assms] unfolding val_ok_pos_iff .

text \<open>The code of \<open>/(?:a){2}/y\<close> and its typing: register 0 counts from position 16 on.\<close>

definition loop_example :: "u8 list" where
  "loop_example =
     [32, 0, 1, 1, 20, 0, 0, 0,
      19, 0, 27, 0, 2, 0, 0, 0, 1, 97, 0, 22, 0, 0xf7, 0xff, 0xff, 0xff, 20, 0, 16]"

definition loop_example_typing :: "(nat \<times> ity) list" where
  "loop_example_typing =
     [(8, [], []), (10, [], []), (16, [], [RInt]), (19, [], [RInt]), (25, [], [RInt]),
      (27, [], [RInt])]"

lemma loop_example_run:
  "lre_exec (\<lambda>n. False) False [CapNull, CapNull, CapPtr 7] loop_example [97, 97, 98] 0 0
     = Some (Exit 1 [CapPtr 0, CapPtr 2, CapNull])"
proof -
  let ?ctx = "re_context (\<lambda>n. False) False loop_example [97, 97, 98] 0"
  let ?c = "[CapNull, CapNull, CapPtr 7]"
  have "re_steps 9 ?ctx (re_init ?ctx ?c 0) = Exit 1 [CapPtr 0, CapPtr 2, CapNull]"
    by code_simp
  then have "lre_exec_backtrack ?ctx (re_init ?ctx ?c 0) = Some (Exit 1 [CapPtr 0, CapPtr 2, CapNull])"
    by (rule re_steps_exec) simp
  moreover have "\<not> length ?c < 2 * rx_capture_count ?ctx" by code_simp
  ultimately show ?thesis by (simp add: lre_exec_def Let_def)
qed

theorem lre_exec_memory_safe_witness:
  "lre_exec (\<lambda>n. False) False [CapNull, CapNull, CapPtr 7] loop_example [97, 97, 98] 0 0
     = Some (Exit 1 [CapPtr 0, CapPtr 2, CapNull]) \<and>
   (\<exists>ret c. Exit 1 [CapPtr 0, CapPtr 2, CapNull] = (Exit ret c :: re_state re_res) \<and> (ret = 1 \<longrightarrow>
      lre_get_alloc_count loop_example \<le> length c \<and>
      (\<forall>i < 2 * lre_get_capture_count loop_example.
         c ! i = CapNull \<or> (\<exists>p \<le> length [97 :: u32, 97, 98]. c ! i = CapPtr p))))"
proof -
  note run = loop_example_run
  let ?c = "[CapNull, CapNull, CapPtr 7]"
  have "wt_code loop_example loop_example_typing" by code_simp
  moreover have "lre_get_alloc_count loop_example \<le> length ?c" by code_simp
  ultimately show ?thesis
    using lre_exec_memory_safe [OF _ _ _ run, of loop_example_typing] run by simp
qed

end
