(* ===== verification/ReWrapper.thy ===== *)
theory ReWrapper
  imports RegexpSafety
begin

text \<open>
  The engine's interface to the matcher, \<open>libregexp/re_wrapper.c\<close>: the conversions between
  the engine's strings (CESU-8: every UTF-16 code unit encoded on its own) and what the
  library reads, and the run of a compiled expression with its capture buffer.
  \<open>ReInterface\<close> has the rest of the file: the construction of a compiled expression, which
  needs the pattern compiler, and its reference count. The allocator is a parameter: \<open>ma n\<close>
  says whether \<open>malloc\<close> or \<open>calloc\<close> provides \<open>n\<close> bytes.
\<close>

subsection \<open>Code units of a CESU-8 buffer\<close>

text \<open>\<open>p\<close> is an index of \<open>s\<close>, whose end is the end of the buffer.\<close>

definition decode_utf8_unit :: "u8 list \<Rightarrow> nat \<Rightarrow> u32 \<times> nat" where
  "decode_utf8_unit s p =
     (let c0 = s ! p; e = length s in
      if c0 < 0x80 then (ucast c0, p + 1)
      else if c0 AND 0xE0 = 0xC0 \<and> p + 1 < e then
        (push_bit 6 (ucast c0 AND 0x1F) OR (ucast (s ! (p + 1)) AND 0x3F), p + 2)
      else if c0 AND 0xF0 = 0xE0 \<and> p + 2 < e then
        (push_bit 12 (ucast c0 AND 0x0F) OR push_bit 6 (ucast (s ! (p + 1)) AND 0x3F)
           OR (ucast (s ! (p + 2)) AND 0x3F), p + 3)
      else (ucast c0, p + 1))"

lemma decode_utf8_unit_next: "decode_utf8_unit s p = (c, q) \<Longrightarrow> p < length s \<Longrightarrow> p < q \<and> q \<le> length s"
  by (auto simp: decode_utf8_unit_def Let_def split: if_splits)

text \<open>\<open>out\<close> is what has been written.\<close>

definition utf8_4bytes :: "u32 \<Rightarrow> u8 list" where
  "utf8_4bytes astral =
     [0xF0 OR ucast (drop_bit 18 astral), 0x80 OR ucast (drop_bit 12 astral AND 0x3F),
      0x80 OR ucast (drop_bit 6 astral AND 0x3F), 0x80 OR ucast (astral AND 0x3F)]"

function cesu8_pattern_loop :: "u8 list \<Rightarrow> nat \<Rightarrow> u8 list \<Rightarrow> u8 list" where
  "cesu8_pattern_loop s p out =
     (if p < length s then
        case decode_utf8_unit s p of
          (cp, p1) \<Rightarrow>
            (case (if cp \<ge> 0xD800 \<and> cp \<le> 0xDBFF \<and> p1 < length s
                   then decode_utf8_unit s p1 else (0, p1)) of
               (low, p2) \<Rightarrow>
                 if cp \<ge> 0xD800 \<and> cp \<le> 0xDBFF \<and> p1 < length s \<and> low \<ge> 0xDC00 \<and> low \<le> 0xDFFF
                 then cesu8_pattern_loop s p2
                        (out @ utf8_4bytes (0x10000 + push_bit 10 (cp - 0xD800) + (low - 0xDC00)))
                 else cesu8_pattern_loop s p1 (out @ take (p1 - p) (drop p s)))
      else out)"
  by pat_completeness auto
termination
proof (relation "measure (\<lambda>(s, p, out). length s - p)", goal_cases)
  case 2
  then show ?case by (auto split: if_splits dest!: decode_utf8_unit_next [OF sym])
next
  case 3
  then show ?case by (auto dest!: decode_utf8_unit_next [OF sym])
qed auto

declare cesu8_pattern_loop.simps [simp del]

text \<open>
  The data bytes of the result, \<open>None\<close> for the null pointer; the code stores a terminator
  after the data.
\<close>

definition cesu8_pattern_to_utf8 :: "realloc_func \<Rightarrow> u8 list \<Rightarrow> u8 list option" where
  "cesu8_pattern_to_utf8 ma input =
     (if ma ((if length input > 0 then length input else 0) + 1)
      then Some (cesu8_pattern_loop input 0 []) else None)"

function cesu8_units_loop :: "u8 list \<Rightarrow> nat \<Rightarrow> u16 list \<Rightarrow> nat list \<Rightarrow> u16 list \<times> nat list" where
  "cesu8_units_loop s p units offsets =
     (if p < length s then
        case decode_utf8_unit s p of
          (c, q) \<Rightarrow> cesu8_units_loop s q (units @ [ucast c]) (offsets @ [p])
      else (units, offsets @ [length s]))"
  by pat_completeness auto
termination
  by (relation "measure (\<lambda>(s, p, units, offsets). length s - p)")
    (auto dest!: decode_utf8_unit_next [OF sym])

declare cesu8_units_loop.simps [simp del]

definition cesu8_to_utf16 :: "realloc_func \<Rightarrow> u8 list \<Rightarrow> (u16 list \<times> nat list) option" where
  "cesu8_to_utf16 ma input =
     (if ma (2 * (length input + 1)) \<and> ma (4 * (length input + 1))
      then Some (cesu8_units_loop input 0 [] []) else None)"

definition unit_offset_to_byte_offset :: "nat list \<Rightarrow> nat \<Rightarrow> int \<Rightarrow> int" where
  "unit_offset_to_byte_offset byte_offsets unit_count unit_offset =
     (if unit_offset < 0 then -1
      else int (byte_offsets ! (if nat unit_offset > unit_count then unit_count else nat unit_offset)))"

subsection \<open>Compiled expressions\<close>

text \<open>
  The byte code's length is the length of the list. \<open>re->bc\<close> is never null: \<open>re_compile\<close>, the
  only constructor, returns a null pointer instead of an expression without byte code.
\<close>

record re_compiled =
  re_bc :: "u8 list"
  re_capture_count :: nat
  re_refcount :: int

abbreviation (input) "RE_ERROR \<equiv> (- 1 :: int)"
abbreviation (input) "RE_NO_MATCH \<equiv> (0 :: int)"
abbreviation (input) "RE_MATCH \<equiv> (1 :: int)"
abbreviation (input) "RE_MAX_CAPTURES \<equiv> (256 :: nat)"

abbreviation (input) "RE_FLAG_IGNORECASE \<equiv> (2 :: u32)"
abbreviation (input) "RE_FLAG_MULTILINE \<equiv> (4 :: u32)"
abbreviation (input) "RE_FLAG_DOTALL \<equiv> (8 :: u32)"
abbreviation (input) "RE_FLAG_UNICODE \<equiv> (16 :: u32)"
abbreviation (input) "RE_FLAG_STICKY \<equiv> (32 :: u32)"
abbreviation (input) "RE_FLAG_INDICES \<equiv> (64 :: u32)"
abbreviation (input) "RE_FLAG_UNICODE_SETS \<equiv> (128 :: u32)"

text \<open>The flags handed to the compiler; \<open>u\<close> with \<open>v\<close> is refused (\<open>None\<close>).\<close>

definition re_compile_flags :: "u32 \<Rightarrow> u32 option" where
  "re_compile_flags flags =
     (let f = (\<lambda>a b. if flags AND a \<noteq> 0 then b else 0);
          lre_flags = f RE_FLAG_IGNORECASE LRE_FLAG_IGNORECASE OR f RE_FLAG_MULTILINE LRE_FLAG_MULTILINE
            OR f RE_FLAG_DOTALL LRE_FLAG_DOTALL OR f RE_FLAG_UNICODE LRE_FLAG_UNICODE
            OR f RE_FLAG_STICKY LRE_FLAG_STICKY OR f RE_FLAG_INDICES LRE_FLAG_INDICES
            OR f RE_FLAG_UNICODE_SETS LRE_FLAG_UNICODE_SETS
      in if lre_flags AND LRE_FLAG_UNICODE \<noteq> 0 \<and> lre_flags AND LRE_FLAG_UNICODE_SETS \<noteq> 0
         then None else Some lre_flags)"

subsection \<open>Running\<close>

text \<open>What \<open>re_run\<close> stores through its result pointers.\<close>

record run_result =
  rr_start :: int
  rr_end :: int
  rr_num_captures :: int
  rr_caps_start :: "int list"
  rr_caps_end :: "int list"

text \<open>A capture slot as an offset, \<open>None\<close> for a slot that holds no subject pointer.\<close>

fun slot_offset :: "cap \<Rightarrow> int option" where
  "slot_offset CapNull = Some (-1)"
| "slot_offset (CapPtr p) = Some (int p)"
| "slot_offset (CapInt v) = None"

fun all_some :: "'a option list \<Rightarrow> 'a list option" where
  "all_some [] = Some []"
| "all_some (x # xs) = (case (x, all_some xs) of (Some y, Some ys) \<Rightarrow> Some (y # ys) | _ \<Rightarrow> None)"

text \<open>
  The copy out of the captures after a match; \<open>conv\<close> is the identity on 8-bit subjects and
  the offset table of the transcoded subject otherwise.
\<close>

definition copy_captures :: "(int \<Rightarrow> int) \<Rightarrow> nat \<Rightarrow> nat \<Rightarrow> cap list \<Rightarrow> run_result option" where
  "copy_captures conv total_captures max_captures c =
     do {
       s0 \<leftarrow> cap_at c 0 \<bind> slot_offset;
       e0 \<leftarrow> cap_at c 1 \<bind> slot_offset;
       let is = [1 ..< min total_captures (max_captures + 1)];
       ss \<leftarrow> all_some (map (\<lambda>i. cap_at c (2 * i) \<bind> slot_offset) is);
       es \<leftarrow> all_some (map (\<lambda>i. cap_at c (2 * i + 1) \<bind> slot_offset) is);
       Some \<lparr>rr_start = conv s0, rr_end = conv e0, rr_num_captures = int total_captures - 1,
             rr_caps_start = map conv ss, rr_caps_end = map conv es\<rparr>
     }"

text \<open>
  The result: \<open>None\<close> when the matcher does not return, \<open>Some None\<close> when it runs into
  undefined behaviour, else the code and the captures.
\<close>

definition finish_run ::
    "(int \<Rightarrow> int) \<Rightarrow> nat \<Rightarrow> nat \<Rightarrow> re_state re_res option \<Rightarrow> (int \<times> run_result option) option option" where
  "finish_run conv total_captures max_captures r =
     (case r of
        None \<Rightarrow> None
      | Some (Exit ret c) \<Rightarrow>
          if ret = RE_MATCH then
            Some (map_option (\<lambda>x. (RE_MATCH, Some x)) (copy_captures conv total_captures max_captures c))
          else if ret = 0 then Some (Some (RE_NO_MATCH, None))
          else Some (Some (RE_ERROR, None))
      | Some _ \<Rightarrow> Some None)"

text \<open>
  \<open>stack_slots\<close> is what the uninitialised buffer of \<open>2 * RE_MAX_CAPTURES\<close> slots holds; \<open>ra\<close>
  is the allocator of the matcher. The size of a pointer is 8.
\<close>

definition capture_buffer :: "realloc_func \<Rightarrow> cap list \<Rightarrow> re_compiled \<Rightarrow> cap list option" where
  "capture_buffer ma stack_slots re =
     (if re_capture_count re > RE_MAX_CAPTURES then
        if ma (re_capture_count re * 2 * 8) then Some (replicate (re_capture_count re * 2) CapNull)
        else None
      else Some (take (2 * RE_MAX_CAPTURES) stack_slots))"

text \<open>The loop over the offsets: the first unit at or behind the start, one more than the last.\<close>

fun start_unit :: "nat \<Rightarrow> nat \<Rightarrow> nat list \<Rightarrow> nat" where
  "start_unit start_offset i [] = i"
| "start_unit start_offset i (b # bs) = (if b \<ge> start_offset then i else start_unit start_offset (i + 1) bs)"

fun re_run ::
    "realloc_func \<Rightarrow> realloc_func \<Rightarrow> cap list \<Rightarrow> re_compiled option \<Rightarrow> u8 list \<Rightarrow> nat \<Rightarrow> bool \<Rightarrow> nat \<Rightarrow>
     (int \<times> run_result option) option option" where
  "re_run ma ra stack_slots None input start_offset input_is_ascii max_captures = Some (Some (RE_ERROR, None))"
| "re_run ma ra stack_slots (Some re) input start_offset input_is_ascii max_captures =
     (let total_captures = min (re_capture_count re) RE_MAX_CAPTURES in
      case capture_buffer ma stack_slots re of
        None \<Rightarrow> Some (Some (RE_ERROR, None))
      | Some capture \<Rightarrow>
          if input_is_ascii then
            finish_run (\<lambda>u. u) total_captures max_captures
              (lre_exec ra False capture (re_bc re) (map ucast input) start_offset 0)
          else
            case cesu8_to_utf16 ma input of
              None \<Rightarrow> Some (Some (RE_ERROR, None))
            | Some (units, byte_offsets) \<Rightarrow>
                let unit_count = length units;
                    unit_start_offset = start_unit start_offset 0 byte_offsets
                in finish_run (unit_offset_to_byte_offset byte_offsets unit_count)
                     total_captures max_captures
                     (lre_exec ra False capture (re_bc re) (map ucast units) unit_start_offset 1))"

declare re_run.simps [simp del]

subsection \<open>The conversions\<close>

lemma u8_lead2: "x AND 0xE0 = 0xC0 \<longleftrightarrow> unat (x :: u8) div 32 = 6"
proof -
  have "\<forall>n \<in> set [0..<256]. ((word_of_nat n :: u8) AND 0xE0 = 0xC0) = (n div 32 = 6)" by code_simp
  moreover have "unat x \<in> set [0..<256]" using unsigned_less [where ?'a = nat, of x] by simp
  moreover have "word_of_nat (unat x) = x" by simp
  ultimately show ?thesis by metis
qed

lemma u8_lead3: "x AND 0xF0 = 0xE0 \<longleftrightarrow> unat (x :: u8) div 16 = 14"
proof -
  have "\<forall>n \<in> set [0..<256]. ((word_of_nat n :: u8) AND 0xF0 = 0xE0) = (n div 16 = 14)" by code_simp
  moreover have "unat x \<in> set [0..<256]" using unsigned_less [where ?'a = nat, of x] by simp
  moreover have "word_of_nat (unat x) = x" by simp
  ultimately show ?thesis by metis
qed

lemma or_low_bits: "unat (b :: u32) < 2 ^ k \<Longrightarrow> push_bit k a OR b = push_bit k a + b"
  using word_or_marker [of b k "push_bit k a"] by (simp add: or.commute add.commute take_bit_push_bit)

lemma unat_and_31: "unat (x AND 0x1F :: u32) = unat x mod 32"
  using unat_and_mask [of x 5] by (simp add: mask_eq_exp_minus_1)

lemma unat_and_15: "unat (x AND 0x0F :: u32) = unat x mod 16"
  using unat_and_mask [of x 4] by (simp add: mask_eq_exp_minus_1)

lemma cont_bits: "ucast (ucast ((x AND 63 :: u32) OR 0x80) :: u8) AND 0x3F = x AND (63 :: u32)"
  using cont_byte(2) [of x] mod_marker [of "unat x mod 64" 64 2]
  by (simp add: word_unat_eq_iff unat_and_63 unat_u32_u8 add.commute)

lemma decode_unit_encode:
  assumes "c < 0x10000"
  shows "decode_utf8_unit (pre @ utf8_encode c @ rest) (length pre)
    = (c, length pre + length (utf8_encode c))"
proof -
  consider "unat c < 0x80" | "0x80 \<le> unat c" "unat c < 0x800" | "0x800 \<le> unat c" "unat c < 0x10000"
    using assms by (fastforce simp: word_less_nat_alt)
  then show ?thesis
  proof cases
    case 1
    then show ?thesis
      by (simp add: decode_utf8_unit_def utf8_encode_def Let_def word_less_nat_alt unat_ucast_u8
          word_unat_eq_iff unat_u32_u8)
  next
    case 2
    let ?x = "drop_bit 6 c"
    have x: "unat ?x < 2 ^ 5" using 2 by (simp add: unat_drop_bit)
    note b = lead_byte(1) [OF x, of "0xC0"]
    have u: "unat (ucast (?x OR 0xC0) :: u8) = unat ?x + 192" using x b by simp
    have lead: "ucast (ucast (?x OR 0xC0) :: u8) AND 0x1F = ?x"
      using x mod_marker [of "unat ?x" 32 6]
      by (simp add: word_unat_eq_iff unat_and_31 unat_u32_u8 u add.commute)
    have "unat (c AND 63) < 2 ^ 6" by (simp add: unat_and_63)
    from or_low_bits [OF this, of ?x] join6 [of c] have "push_bit 6 ?x OR (c AND 63) = c" by simp
    with lead u x 2 show ?thesis
      by (simp add: decode_utf8_unit_def utf8_encode_def Let_def nth_append cont_bits u8_lead2
          word_less_nat_alt)
  next
    case 3
    let ?x = "drop_bit 12 c"
    have x: "unat ?x < 2 ^ 4" using 3 by (simp add: unat_drop_bit)
    note b = lead_byte(1) [OF x, of "0xE0"]
    have u: "unat (ucast (?x OR 0xE0) :: u8) = unat ?x + 224" using x b by simp
    have lead: "ucast (ucast (?x OR 0xE0) :: u8) AND 0x0F = ?x"
      using x mod_marker [of "unat ?x" 16 14]
      by (simp add: word_unat_eq_iff unat_and_15 unat_u32_u8 u add.commute)
    have l6: "unat (y AND 63 :: u32) < 2 ^ 6" for y by (simp add: unat_and_63)
    have "push_bit 12 ?x OR push_bit 6 (drop_bit 6 c AND 63) = push_bit 6 (push_bit 6 ?x OR (drop_bit 6 c AND 63))"
      by (simp add: push_bit_or)
    also have "\<dots> = push_bit 6 (push_bit 6 ?x + (drop_bit 6 c AND 63))"
      by (simp only: or_low_bits [OF l6])
    finally have "(push_bit 12 ?x OR push_bit 6 (drop_bit 6 c AND 63)) OR (c AND 63)
        = push_bit 6 (push_bit 6 ?x + (drop_bit 6 c AND 63)) + (c AND 63)"
      by (simp only: or_low_bits [OF l6])
    also have "\<dots> = c" using join12 [of c] by (simp only: push_bit_add push_bit_push_bit) simp
    finally have "(push_bit 12 ?x OR push_bit 6 (drop_bit 6 c AND 63)) OR (c AND 63) = c" .
    moreover have "(unat ?x + 224) div 16 = 14" "(unat ?x + 224) div 32 = 7"
      using x by (simp_all add: div_eq_range)
    ultimately show ?thesis
      using lead u x 3
      by (simp add: decode_utf8_unit_def utf8_encode_def Let_def nth_append cont_bits u8_lead2 u8_lead3
          word_less_nat_alt or.assoc)
  qed
qed

text \<open>The engine's encoding of a list of UTF-16 code units.\<close>

definition cesu8 :: "u16 list \<Rightarrow> u8 list" where
  "cesu8 us = concat (map (\<lambda>u. utf8_encode (ucast u)) us)"

lemma cesu8_simps [simp]: "cesu8 [] = []" "cesu8 (u # us) = utf8_encode (ucast u) @ cesu8 us"
  "cesu8 (us @ vs) = cesu8 us @ cesu8 vs"
  by (simp_all add: cesu8_def)

lemma u16_less: "(ucast (u :: u16) :: u32) < 0x10000"
  using unsigned_less [where ?'a = nat, of u] by (simp add: word_less_nat_alt unsigned_ucast_eq take_bit_eq_mod)

lemma u16_u32_u16 [simp]: "ucast (ucast (u :: u16) :: u32) = u"
  by (rule bit_word_eqI) (simp add: bit_simps)

lemma utf8_encode_nonempty [simp]: "utf8_encode c \<noteq> []" "0 < length (utf8_encode c)"
  by (simp_all add: utf8_encode_def)

lemma cesu8_units_loop_correct:
  "s = cesu8 (vs @ us) \<Longrightarrow>
   cesu8_units_loop s (length (cesu8 vs)) units offsets
     = (units @ us, offsets @ map (\<lambda>i. length (cesu8 (vs @ take i us))) [0 ..< Suc (length us)])"
proof (induction us arbitrary: vs units offsets)
  case Nil
  then show ?case by (simp add: cesu8_units_loop.simps)
next
  case (Cons u us)
  have s: "s = cesu8 vs @ utf8_encode (ucast u) @ cesu8 us" using Cons.prems by simp
  have dec: "decode_utf8_unit s (length (cesu8 vs)) = (ucast u, length (cesu8 (vs @ [u])))"
    unfolding s using decode_unit_encode [OF u16_less] by simp
  have lt: "length (cesu8 vs) < length s" by (simp add: s)
  have "cesu8_units_loop s (length (cesu8 vs)) units offsets
      = cesu8_units_loop s (length (cesu8 (vs @ [u]))) (units @ [u]) (offsets @ [length (cesu8 vs)])"
    by (subst cesu8_units_loop.simps) (simp add: dec lt del: cesu8_simps(3))
  also have "\<dots> = (units @ u # us, offsets @ [length (cesu8 vs)]
      @ map (\<lambda>i. length (cesu8 ((vs @ [u]) @ take i us))) [0 ..< Suc (length us)])"
    using Cons.IH [of "vs @ [u]"] Cons.prems by simp
  also have "[length (cesu8 vs)] @ map (\<lambda>i. length (cesu8 ((vs @ [u]) @ take i us))) [0 ..< Suc (length us)]
      = map (\<lambda>i. length (cesu8 (vs @ take i (u # us)))) [0 ..< Suc (length (u # us))]"
    by (subst (2) upt_conv_Cons) (simp_all add: map_Suc_upt [symmetric] del: upt_Suc)
  finally show ?case .
qed

lemma cesu8_to_utf16_correct:
  "cesu8_to_utf16 ma (cesu8 us) =
     (if ma (2 * (length (cesu8 us) + 1)) \<and> ma (4 * (length (cesu8 us) + 1))
      then Some (us, map (\<lambda>i. length (cesu8 (take i us))) [0 ..< Suc (length us)]) else None)"
  using cesu8_units_loop_correct [of "cesu8 us" "[]" us "[]" "[]"] by (simp add: cesu8_to_utf16_def)

text \<open>Surrogate pairs recombined: the code points of a list of code units.\<close>

fun code_points :: "u16 list \<Rightarrow> u32 list" where
  "code_points [] = []"
| "code_points [u] = [ucast u]"
| "code_points (u # v # us) =
     (if is_hi_surrogate (ucast u) \<and> is_lo_surrogate (ucast v)
      then from_surrogate (ucast u) (ucast v) # code_points us
      else ucast u # code_points (v # us))"

lemma unat_push_bit_10: "unat x < 1024 \<Longrightarrow> unat (push_bit 10 x :: u32) = 1024 * unat x"
  by (simp add: push_bit_eq_mult unat_word_ariths)

lemma astral_sum:
  assumes "is_hi_surrogate hi" "is_lo_surrogate lo"
  shows "0x10000 + push_bit 10 (hi - 0xD800) + (lo - 0xDC00) = from_surrogate hi lo"
    and "0x10000 \<le> from_surrogate hi lo" "from_surrogate hi lo < 0x110000"
proof -
  have h: "0xD800 \<le> unat hi" "unat hi < 0xDC00" "0xDC00 \<le> unat lo" "unat lo < 0xE000"
    using assms by (simp_all add: is_hi_surrogate_iff is_lo_surrogate_iff word_le_nat_alt word_less_nat_alt)
  define a b where "a = unat hi - 0xD800" and "b = unat lo - 0xDC00"
  have ab: "unat hi = 0xD800 + a" "unat lo = 0xDC00 + b" "a < 1024" "b < 1024"
    using h by (simp_all add: a_def b_def)
  have "(0xD800 + a) mod 1024 = a" "(0xDC00 + b) mod 1024 = b" 
    using mod_marker [of a 1024 54] mod_marker [of b 1024 55] ab by simp_all
  then have u: "unat (from_surrogate hi lo) = 0x10000 + 1024 * a + b"
    by (simp add: unat_from_surrogate ab)
  have d: "unat (hi - 0xD800) = a" "unat (lo - 0xDC00) = b"
    using h by (simp_all add: unat_sub word_le_nat_alt a_def b_def)
  have "unat (push_bit 10 (hi - 0xD800)) = 1024 * a"
    using unat_push_bit_10 [of "hi - 0xD800"] ab by (simp add: d)
  then have "unat (0x10000 + push_bit 10 (hi - 0xD800) + (lo - 0xDC00)) = 0x10000 + 1024 * a + b"
    using ab by (simp add: unat_word_ariths d)
  then show "0x10000 + push_bit 10 (hi - 0xD800) + (lo - 0xDC00) = from_surrogate hi lo"
    by (simp add: word_unat_eq_iff u)
  show "0x10000 \<le> from_surrogate hi lo" "from_surrogate hi lo < 0x110000"
    using ab by (simp_all add: word_le_nat_alt word_less_nat_alt u)
qed

lemma utf8_4bytes_encode:
  "0x10000 \<le> c \<Longrightarrow> c < 0x110000 \<Longrightarrow> utf8_4bytes c = utf8_encode c"
proof -
  assume "0x10000 \<le> c" "c < 0x110000"
  then have "\<not> c < 0x80" "\<not> c < 0x800" "\<not> c < 0x10000"
    by (simp_all add: word_le_nat_alt word_less_nat_alt)
  then show ?thesis using \<open>c < 0x110000\<close>
    by (simp add: utf8_4bytes_def utf8_encode_def unsigned_or_eq or.commute)
qed

lemma hi_range: "cp \<ge> 0xD800 \<and> cp \<le> (0xDBFF :: u32) \<longleftrightarrow> is_hi_surrogate cp"
  by (auto simp: is_hi_surrogate_iff word_le_nat_alt word_less_nat_alt)

lemma lo_range: "low \<ge> 0xDC00 \<and> low \<le> (0xDFFF :: u32) \<longleftrightarrow> is_lo_surrogate low"
  by (auto simp: is_lo_surrogate_iff word_le_nat_alt word_less_nat_alt)

lemma cesu8_pattern_loop_simp:
  "cesu8_pattern_loop s p out =
     (if p < length s then
        case decode_utf8_unit s p of
          (cp, p1) \<Rightarrow>
            if is_hi_surrogate cp \<and> p1 < length s \<and> is_lo_surrogate (fst (decode_utf8_unit s p1))
            then cesu8_pattern_loop s (snd (decode_utf8_unit s p1))
                   (out @ utf8_4bytes (from_surrogate cp (fst (decode_utf8_unit s p1))))
            else cesu8_pattern_loop s p1 (out @ take (p1 - p) (drop p s))
      else out)"
proof (cases "p < length s")
  case True
  obtain cp p1 where d: "decode_utf8_unit s p = (cp, p1)" by force
  obtain low p2 where e: "decode_utf8_unit s p1 = (low, p2)" by force
  show ?thesis
  proof (cases "is_hi_surrogate cp \<and> p1 < length s \<and> is_lo_surrogate low")
    case yes: True
    then have "cp \<ge> 0xD800 \<and> cp \<le> 0xDBFF" "low \<ge> 0xDC00 \<and> low \<le> 0xDFFF"
      by (simp_all only: hi_range lo_range)
    with yes True d e show ?thesis
      by (subst cesu8_pattern_loop.simps) (simp add: astral_sum(1))
  next
    case False
    then have "\<not> ((cp \<ge> 0xD800 \<and> cp \<le> 0xDBFF) \<and> p1 < length s \<and> (low \<ge> 0xDC00 \<and> low \<le> 0xDFFF))"
      by (simp only: hi_range lo_range) simp
    with False True d e show ?thesis
      by (subst cesu8_pattern_loop.simps) (auto split: prod.splits)
  qed
qed (simp add: cesu8_pattern_loop.simps)

lemma cesu8_pattern_loop_correct:
  "s = cesu8 (vs @ us) \<Longrightarrow>
   cesu8_pattern_loop s (length (cesu8 vs)) out = out @ concat (map utf8_encode (code_points us))"
proof (induction us arbitrary: vs out rule: code_points.induct)
  case 1
  then show ?case by (simp add: cesu8_pattern_loop.simps)
next
  case (2 u)
  have s: "s = cesu8 vs @ utf8_encode (ucast u) @ []" using "2.prems" by simp
  have dec: "decode_utf8_unit s (length (cesu8 vs)) = (ucast u, length s)"
    unfolding s using decode_unit_encode [OF u16_less, of "cesu8 vs" u "[]"] by simp
  have "cesu8_pattern_loop s (length (cesu8 vs)) out
      = cesu8_pattern_loop s (length s) (out @ utf8_encode (ucast u))"
    by (subst cesu8_pattern_loop_simp) (simp add: dec s [symmetric], simp add: s)
  then show ?case by (simp add: cesu8_pattern_loop.simps)
next
  case (3 u v us)
  let ?p = "length (cesu8 vs)" and ?p1 = "length (cesu8 (vs @ [u]))" and ?p2 = "length (cesu8 (vs @ [u, v]))"
  have s: "s = cesu8 vs @ utf8_encode (ucast u) @ cesu8 (v # us)"
    "s = cesu8 (vs @ [u]) @ utf8_encode (ucast v) @ cesu8 us" using "3.prems" by simp_all
  have dec1: "decode_utf8_unit s ?p = (ucast u, ?p1)"
    using decode_unit_encode [OF u16_less, of "cesu8 vs" u "cesu8 (v # us)"] s(1) by simp
  have dec2: "decode_utf8_unit s ?p1 = (ucast v, ?p2)"
    using decode_unit_encode [OF u16_less, of "cesu8 (vs @ [u])" v "cesu8 us"] s(2) by simp
  have lt: "?p < length s" "?p1 < length s" using "3.prems" by simp_all
  show ?case
  proof (cases "is_hi_surrogate (ucast u) \<and> is_lo_surrogate (ucast v)")
    case True
    have "cesu8_pattern_loop s ?p out = cesu8_pattern_loop s ?p2
        (out @ utf8_encode (from_surrogate (ucast u) (ucast v)))"
      by (subst cesu8_pattern_loop_simp)
        (use True astral_sum [of "ucast u" "ucast v"] in \<open>simp add: dec1 dec2 lt utf8_4bytes_encode del: cesu8_simps\<close>)
    also have "\<dots> = (out @ utf8_encode (from_surrogate (ucast u) (ucast v)))
        @ concat (map utf8_encode (code_points us))"
      using "3.prems" by (intro "3.IH"(1) [OF True]) simp
    finally show ?thesis using True by simp
  next
    case False
    have tk: "take (?p1 - ?p) (drop ?p s) = utf8_encode (ucast u)" by (simp add: s(1))
    have "cesu8_pattern_loop s ?p out = cesu8_pattern_loop s ?p1 (out @ utf8_encode (ucast u))"
      by (subst cesu8_pattern_loop_simp)
        (use False tk in \<open>auto simp add: dec1 dec2 lt simp del: cesu8_simps\<close>)
    also have "\<dots> = (out @ utf8_encode (ucast u)) @ concat (map utf8_encode (code_points (v # us)))"
      using "3.prems" by (intro "3.IH"(2) [OF False]) simp
    finally show ?thesis using False by auto
  qed
qed

lemma decode_unit_surrogate:
  assumes "decode_utf8_unit s p = (c, q)" "0xD800 \<le> c"
  shows "q = p + 3"
proof -
  have b: "unat (ucast b :: u32) < 256" for b :: u8
    using unsigned_less [where ?'a = nat, of b] by (simp add: unat_u32_u8)
  have two: "unat (push_bit 6 (x AND 0x1F) OR (y AND 0x3F) :: u32) < 2048" for x y :: u32
  proof -
    have l: "unat (y AND 63) < 2 ^ 6" "unat (x AND 0x1F) < 32" by (simp_all add: unat_and_63 unat_and_31)
    have "unat (push_bit 6 (x AND 0x1F)) = 64 * unat (x AND 0x1F)"
      using l(2) by (simp add: push_bit_eq_mult unat_word_ariths del: push_bit_and)
    then have "unat (push_bit 6 (x AND 0x1F) + (y AND 0x3F)) < 2048"
      using l by (simp add: unat_word_ariths del: push_bit_and)
    then show ?thesis using or_low_bits [OF l(1), of "x AND 0x1F"] by simp
  qed
  have big: "unat c \<ge> 0xD800" using assms(2) by (simp add: word_le_nat_alt)
  have "c = ucast (s ! p) \<or> q = p + 3
      \<or> c = push_bit 6 (ucast (s ! p) AND 0x1F) OR (ucast (s ! (p + 1)) AND 0x3F)"
    using assms(1) unfolding decode_utf8_unit_def Let_def by (simp only: prod.inject split: if_splits) auto
  then show ?thesis
    using big b [of "s ! p"] two [of "ucast (s ! p)" "ucast (s ! (p + 1))"] by (elim disjE) simp_all
qed

lemma cesu8_pattern_loop_length:
  "length (cesu8_pattern_loop s p out) \<le> length out + (length s - p)"
proof (induction "length s - p" arbitrary: p out rule: less_induct)
  case less
  show ?case
  proof (cases "p < length s")
    case True
    obtain cp p1 where d: "decode_utf8_unit s p = (cp, p1)" by force
    obtain low p2 where e: "decode_utf8_unit s p1 = (low, p2)" by force
    have p1: "p < p1" "p1 \<le> length s" using decode_utf8_unit_next [OF d True] by simp_all
    show ?thesis
    proof (cases "is_hi_surrogate cp \<and> p1 < length s \<and> is_lo_surrogate low")
      case yes: True
      then have r: "0xD800 \<le> cp" "0xD800 \<le> low"
        by (simp_all add: is_hi_surrogate_iff is_lo_surrogate_iff word_le_nat_alt)
      have p2: "p2 = p + 6" "p2 \<le> length s"
        using decode_unit_surrogate [OF d r(1)] decode_unit_surrogate [OF e r(2)]
          decode_utf8_unit_next [OF e] yes by simp_all
      have "cesu8_pattern_loop s p out
          = cesu8_pattern_loop s p2 (out @ utf8_4bytes (from_surrogate cp low))"
        using True yes d e by (subst cesu8_pattern_loop_simp) simp
      moreover have "length (utf8_4bytes (from_surrogate cp low)) = 4" by (simp add: utf8_4bytes_def)
      moreover have "length s - p2 < length s - p" using p2 True by linarith
      ultimately show ?thesis
        using less [of p2 "out @ utf8_4bytes (from_surrogate cp low)"] p2 True by simp
    next
      case False
      then have "cesu8_pattern_loop s p out = cesu8_pattern_loop s p1 (out @ take (p1 - p) (drop p s))"
        using True d e by (subst cesu8_pattern_loop_simp) auto
      with less [of p1 "out @ take (p1 - p) (drop p s)"] p1 True show ?thesis by simp
    qed
  qed (simp add: cesu8_pattern_loop.simps)
qed

subsection \<open>Properties\<close>

text \<open>C19: recombining the surrogates of a CESU-8 pattern gives the UTF-8 text of its code points,
for every list of code units, paired or not, or the null pointer exactly when the buffer of
\<open>input_len + 1\<close> bytes is not to be had; and for any bytes whatever the result is no longer
than the input, so that it fits that buffer with its terminator.\<close>

theorem cesu8_pattern_to_utf8_recombines:
  "cesu8_pattern_to_utf8 ma (cesu8 us) =
     (if ma (length (cesu8 us) + 1) then Some (concat (map utf8_encode (code_points us))) else None) \<and>
   (case cesu8_pattern_to_utf8 ma bytes of None \<Rightarrow> True | Some out \<Rightarrow> length out \<le> length bytes)"
  using cesu8_pattern_loop_correct [of "cesu8 us" "[]" us "[]"]
    cesu8_pattern_loop_length [of bytes 0 "[]"]
  by (simp add: cesu8_pattern_to_utf8_def)

lemma cesu8_units_loop_offsets:
  "cesu8_units_loop s p units offsets = (us, os) \<Longrightarrow> length offsets = length units \<Longrightarrow>
   length os = Suc (length us) \<and> last os = length s"
proof (induction s p units offsets rule: cesu8_units_loop.induct)
  case (1 s p units offsets)
  obtain c q where d: "decode_utf8_unit s p = (c, q)" by force
  with 1 show ?case
    by (cases "p < length s") (auto simp: cesu8_units_loop.simps [of s p])
qed

lemma start_unit_takeWhile: "start_unit start i bs = i + length (takeWhile (\<lambda>b. b < start) bs)"
  by (induction bs arbitrary: i) auto

lemma start_unit_le:
  assumes "cesu8_to_utf16 ma input = Some (units, byte_offsets)" "start \<le> length input"
  shows "start_unit start 0 byte_offsets \<le> length units"
proof -
  have o: "length byte_offsets = Suc (length units)" "last byte_offsets = length input"
    using cesu8_units_loop_offsets [of input 0 "[]" "[]" units byte_offsets] assms(1)
    by (simp_all add: cesu8_to_utf16_def split: if_splits)
  then have "byte_offsets ! length units = length input"
    by (metis One_nat_def diff_Suc_1 last_conv_nth length_0_conv nat.distinct(1))
  then have "\<not> byte_offsets ! length units < start" using assms(2) by simp
  then show ?thesis using o(1) nth_length_takeWhile [of "\<lambda>o1. o1 < start" byte_offsets]
    unfolding start_unit_takeWhile add_0
    by (metis less_Suc_eq_le length_takeWhile_le less_imp_le_nat not_less set_takeWhileD nth_mem takeWhile_nth)
qed

text \<open>On the engine's encoding of code units, the start that is the offset of unit \<open>k\<close> is unit \<open>k\<close>.\<close>

lemma cesu8_offset_less:
  assumes "i < j" "j \<le> length us"
  shows "length (cesu8 (take i us)) < length (cesu8 (take j us))"
proof -
  have eq: "take j us = take i us @ take (j - i) (drop i us)"
    using assms(1) by (metis le_add_diff_inverse less_imp_le take_add)
  have "take (j - i) (drop i us) \<noteq> []" using assms by simp
  then obtain v vs where "take (j - i) (drop i us) = v # vs" by (cases "take (j - i) (drop i us)") auto
  with eq show ?thesis by simp
qed

lemma start_unit_offset:
  "start_unit (length (cesu8 (take k us))) 0 (map (\<lambda>i. length (cesu8 (take i us))) [0 ..< Suc (length us)])
    = min k (length us)"
proof -
  let ?k = "min k (length us)"
  have tk: "take k us = take ?k us" by (simp add: min_def)
  have spl: "[0 ..< Suc (length us)] = [0 ..< ?k] @ ?k # [Suc ?k ..< Suc (length us)]"
    using upt_add_eq_append [of 0 ?k "Suc (length us) - ?k"]
    by (simp add: upt_conv_Cons [symmetric] del: upt_Suc)
  have "\<forall>i \<in> set [0 ..< ?k]. length (cesu8 (take i us)) < length (cesu8 (take ?k us))"
    by (auto intro: cesu8_offset_less)
  then show ?thesis
    unfolding tk spl start_unit_takeWhile map_append by (subst takeWhile_append2) auto
qed

lemma all_some_map: "(\<forall>x \<in> set xs. \<exists>y. f x = Some y) \<Longrightarrow> \<exists>ys. all_some (map f xs) = Some ys"
  by (induction xs) auto

lemma copy_captures_total:
  assumes "0 < n" "2 * n \<le> length c" "\<forall>i < 2 * n. val_ok m RPos (c ! i)"
  shows "copy_captures conv n k c \<noteq> None"
proof -
  have slot: "\<exists>y. cap_at c i \<bind> slot_offset = Some y" if "i < 2 * n" for i
  proof -
    have "val_ok m RPos (c ! i)" using that assms(3) by blast
    then show ?thesis using that assms(2) by (cases "c ! i") (auto simp: cap_at_def)
  qed
  let ?is = "[1 ..< min n (k + 1)]"
  have "\<exists>ys. all_some (map (\<lambda>i. cap_at c (2 * i) \<bind> slot_offset) ?is) = Some ys"
    by (rule all_some_map) (auto intro!: slot)
  moreover have "\<exists>ys. all_some (map (\<lambda>i. cap_at c (2 * i + 1) \<bind> slot_offset) ?is) = Some ys"
    by (rule all_some_map) (auto intro!: slot [simplified])
  moreover obtain a b where "cap_at c 0 \<bind> slot_offset = Some a" "cap_at c 1 \<bind> slot_offset = Some b"
    using slot [of 0] slot [of 1] assms(1) by auto
  ultimately show ?thesis by (auto simp: copy_captures_def Let_def)
qed

lemma finish_run_total:
  assumes "wt_code bc A" "lre_get_alloc_count bc \<le> length capture" "cindex \<le> length cbuf"
    and "0 < lre_get_capture_count bc"
  shows "finish_run conv (lre_get_capture_count bc) k
    (lre_exec ra timeout capture bc cbuf cindex cbuf_type) \<noteq> Some None"
proof (cases "lre_exec ra timeout capture bc cbuf cindex cbuf_type")
  case (Some r)
  from lre_exec_safe [OF assms(1-3) Some] obtain ret c where r: "r = Exit ret c"
    "ret = 1 \<longrightarrow> lre_get_alloc_count bc \<le> length c \<and>
      (\<forall>i < 2 * lre_get_capture_count bc. val_ok (length cbuf) RPos (c ! i))" by blast
  have "2 * lre_get_capture_count bc \<le> lre_get_alloc_count bc"
    by (simp add: lre_get_alloc_count_def lre_get_capture_count_def)
  with r copy_captures_total [OF assms(4), of c "length cbuf" conv k] Some show ?thesis
    by (auto simp: finish_run_def)
qed (simp add: finish_run_def)

lemma re_run_no_undefined:
  assumes "wt_code (re_bc re) A" "re_capture_count re = lre_get_capture_count (re_bc re)"
    and "0 < re_capture_count re" "lre_get_alloc_count (re_bc re) \<le> 512"
    and "length stack_slots = 512" "start_offset \<le> length input"
  shows "re_run ma ra stack_slots (Some re) input start_offset input_is_ascii max_captures \<noteq> Some None"
proof -
  have "re_capture_count re \<le> 255"
    using assms(2) unsigned_less [where ?'a = nat, of "re_bc re ! 2"]
    by (simp add: lre_get_capture_count_def)
  then have c: "min (re_capture_count re) 256 = lre_get_capture_count (re_bc re)"
    "capture_buffer ma stack_slots re = Some stack_slots"
    using assms(2,5) by (simp_all add: capture_buffer_def)
  have len: "lre_get_alloc_count (re_bc re) \<le> length stack_slots" "0 < lre_get_capture_count (re_bc re)"
    using assms by simp_all
  have "start_unit start_offset 0 byte_offsets \<le> length units"
    if "cesu8_to_utf16 ma input = Some (units, byte_offsets)" for units byte_offsets
    using start_unit_le [OF that assms(6)] .
  then show ?thesis
    using finish_run_total [OF assms(1) len(1) _ len(2)] assms(6)
    by (auto simp: re_run.simps Let_def c split: option.split)
qed

text \<open>C11: running a well-typed expression through the wrapper is free of undefined behaviour when
its captures and registers together fit the 512 slots of the buffer on the stack and the
start is inside the input, whatever the buffer holds before and whichever allocations fail.\<close>

theorem re_run_safe:
  assumes "wt_code (re_bc re) A" "re_capture_count re = lre_get_capture_count (re_bc re)"
    and "0 < re_capture_count re" "lre_get_alloc_count (re_bc re) \<le> 512"
    and "length stack_slots = 512" "start_offset \<le> length input"
  shows "re_run ma ra stack_slots (Some re) input start_offset input_is_ascii max_captures \<noteq> Some None"
  by (rule re_run_no_undefined [OF assms])

theorem re_run_safe_witness:
  "re_run (\<lambda>n. True) (\<lambda>n. True) (replicate 512 (CapPtr 9))
     (Some \<lparr>re_bc = loop_example, re_capture_count = 1, re_refcount = 1\<rparr>)
     [97, 97, 98] 0 True 9 \<noteq> Some None"
proof (rule re_run_safe)
  show "wt_code (re_bc \<lparr>re_bc = loop_example, re_capture_count = 1, re_refcount = 1\<rparr>) loop_example_typing"
    by code_simp
  show "lre_get_alloc_count (re_bc \<lparr>re_bc = loop_example, re_capture_count = 1, re_refcount = 1\<rparr>) \<le> 512"
    "re_capture_count \<lparr>re_bc = loop_example, re_capture_count = 1, re_refcount = 1\<rparr>
      = lre_get_capture_count (re_bc \<lparr>re_bc = loop_example, re_capture_count = 1, re_refcount = 1\<rparr>)"
    by (simp_all add: lre_get_alloc_count_def lre_get_capture_count_def loop_example_def)
qed simp_all

text \<open>
  A well-typed expression with the most captures the library allows and three nested counted
  loops (the code of \<open>(?:(?:(?:a){2}){2}){2}\<close>, beside 254 groups): it asks for 513 slots.
\<close>

definition overflow_example :: "u8 list" where
  "overflow_example =
     [32, 0, 255, 3, 40, 0, 0, 0,
      27, 0, 2, 0, 0, 0, 27, 1, 2, 0, 0, 0, 27, 2, 2, 0, 0, 0, 1, 97, 0,
      22, 2, 0xf7, 0xff, 0xff, 0xff, 22, 1, 0xeb, 0xff, 0xff, 0xff,
      22, 0, 0xdf, 0xff, 0xff, 0xff, 16]"

definition overflow_example_typing :: "(nat \<times> ity) list" where
  "overflow_example_typing =
     [(8, [], []), (14, [], [RInt]), (20, [], [RInt, RInt]), (26, [], [RInt, RInt, RInt]),
      (29, [], [RInt, RInt, RInt]), (35, [], [RInt, RInt, RInt]), (41, [], [RInt, RInt]),
      (47, [], [RInt])]"

text \<open>C17: the capture buffer of the wrapper is too small: an expression that is well-typed, passes
the library's own check and stays below its limits (255 captures, 255 registers) writes
past the 512 slots that \<open>re_run\<close> provides, because the buffer is sized for the captures
only and the registers live after them.\<close>

theorem re_run_overflows_capture_buffer:
  "wt_code overflow_example overflow_example_typing \<and> lre_check_bytecode overflow_example = 0
   \<and> lre_get_capture_count overflow_example = CAPTURE_COUNT_MAX
   \<and> lre_get_alloc_count overflow_example = 513
   \<and> re_run ma (\<lambda>n. True) (replicate 512 CapNull)
       (Some \<lparr>re_bc = overflow_example, re_capture_count = 255, re_refcount = 1\<rparr>) [97] 0 True 9 = Some None"
proof -
  let ?ctx = "re_context (\<lambda>n. True) False overflow_example [97] 0"
  let ?c = "replicate 512 CapNull"
  have "re_steps 3 ?ctx (re_init ?ctx ?c 0) = Stuck"
    by code_simp
  then have "lre_exec_backtrack ?ctx (re_init ?ctx ?c 0) = Some Stuck"
    by (rule re_steps_exec) simp
  moreover have "rx_capture_count ?ctx = 255"
    by (simp add: re_context_def overflow_example_def Let_def)
  ultimately have run: "lre_exec (\<lambda>n. True) False ?c overflow_example [97] 0 0 = Some Stuck"
    by (simp add: lre_exec_def Let_def)
  have "wt_code overflow_example overflow_example_typing" by code_simp
  moreover have "lre_check_bytecode overflow_example = 0" by code_simp
  moreover have "lre_get_capture_count overflow_example = 255" "lre_get_alloc_count overflow_example = 513"
    by (simp_all add: lre_get_capture_count_def lre_get_alloc_count_def overflow_example_def)
  moreover have "re_run ma (\<lambda>n. True) ?c (Some \<lparr>re_bc = overflow_example, re_capture_count = 255, re_refcount = 1\<rparr>)
      [97] 0 True 9 = Some None"
    using run by (simp add: re_run.simps capture_buffer_def finish_run_def Let_def)
  ultimately show ?thesis by simp
qed

text \<open>C20: a subject outside ASCII is matched on its UTF-16 code units, from the code unit whose byte
offset is the start (the last start is the end of the subject), and every offset that is
reported is the byte offset of a code unit boundary of the engine's string (or -1): the
conversion of the subject loses nothing, the start is mapped to its unit, and the offset
table maps the captures back. When a buffer is not to be had the result is \<open>RE_ERROR\<close>.\<close>

theorem re_run_reports_unit_boundaries:
  "re_run ma ra stack_slots (Some re) (cesu8 us) (length (cesu8 (take k us))) False max_captures =
   (case capture_buffer ma stack_slots re of
      None \<Rightarrow> Some (Some (RE_ERROR, None))
    | Some capture \<Rightarrow>
        if ma (2 * (length (cesu8 us) + 1)) \<and> ma (4 * (length (cesu8 us) + 1)) then
          finish_run (\<lambda>u. if u < 0 then -1 else int (length (cesu8 (take (nat u) us))))
            (min (re_capture_count re) RE_MAX_CAPTURES) max_captures
            (lre_exec ra False capture (re_bc re) (map ucast us) (min k (length us)) 1)
        else Some (Some (RE_ERROR, None)))"
proof -
  have conv: "unit_offset_to_byte_offset (map (\<lambda>i. length (cesu8 (take i us))) [0 ..< Suc (length us)]) (length us) u
      = (if u < 0 then -1 else int (length (cesu8 (take (nat u) us))))" for u
    by (simp add: unit_offset_to_byte_offset_def del: upt_Suc)
  then have "unit_offset_to_byte_offset (map (\<lambda>i. length (cesu8 (take i us))) [0 ..< Suc (length us)]) (length us)
      = (\<lambda>u. if u < 0 then -1 else int (length (cesu8 (take (nat u) us))))" by (rule ext)
  then show ?thesis
    by (cases "capture_buffer ma stack_slots re")
      (auto simp: re_run.simps cesu8_to_utf16_correct Let_def start_unit_offset simp del: upt_Suc)
qed

end
