(* ===== verification/RegexpEmit.thy ===== *)
theory RegexpEmit
  imports RegexpExec
begin

text \<open>
  The emitting half of the pattern compiler of \<open>libregexp/libregexp.c\<close>: the parser state and
  the functions that append instructions to its buffer, \<open>re_emit_range\<close> included. The
  theorems follow an emitted range into the matcher: the instruction accepts exactly the
  set it was emitted for.
\<close>

subsection \<open>The state of a compilation\<close>

text \<open>
  \<open>ps_buf\<close> is the pattern; the C code reads a terminating 0 after it. \<open>ps_ptr\<close> is \<open>buf_ptr\<close>
  as an index; \<open>ps_realloc\<close> stands for the allocator behind \<open>opaque\<close>.
\<close>

record re_parse_state =
  ps_byte_code :: dyn_buf
  ps_buf :: "u8 list"
  ps_ptr :: nat
  ps_re_flags :: u32
  ps_is_unicode :: bool
  ps_unicode_sets :: bool
  ps_ignore_case :: bool
  ps_multi_line :: bool
  ps_dotall :: bool
  ps_group_name_scope :: u8
  ps_capture_count :: int
  ps_total_capture_count :: int
  ps_has_named_captures :: int
  ps_group_names :: dyn_buf
  ps_error :: string
  ps_realloc :: realloc_func

abbreviation bc_size :: "re_parse_state \<Rightarrow> nat" where
  "bc_size s \<equiv> db_size (ps_byte_code s)"

definition re_parse_error :: "re_parse_state \<Rightarrow> string \<Rightarrow> int \<times> re_parse_state" where
  "re_parse_error s msg = (-1, s\<lparr>ps_error := msg\<rparr>)"

definition re_parse_out_of_memory :: "re_parse_state \<Rightarrow> int \<times> re_parse_state" where
  "re_parse_out_of_memory s = re_parse_error s ''out of memory''"

subsection \<open>Emitting instructions\<close>

definition emit_u8 :: "u8 \<Rightarrow> re_parse_state \<Rightarrow> re_parse_state" where
  "emit_u8 v s = s\<lparr>ps_byte_code := snd (dbuf_putc (ps_byte_code s) v)\<rparr>"

definition emit_u16 :: "u16 \<Rightarrow> re_parse_state \<Rightarrow> re_parse_state" where
  "emit_u16 v s = s\<lparr>ps_byte_code := snd (dbuf_put_u16 (ps_byte_code s) v)\<rparr>"

definition emit_u32 :: "u32 \<Rightarrow> re_parse_state \<Rightarrow> re_parse_state" where
  "emit_u32 v s = s\<lparr>ps_byte_code := snd (dbuf_put_u32 (ps_byte_code s) v)\<rparr>"

definition re_emit_op :: "re_parse_state \<Rightarrow> reop \<Rightarrow> re_parse_state" where
  "re_emit_op s op = emit_u8 (reop_code op) s"

text \<open>These return the offset of the 32-bit operand.\<close>

definition re_emit_op_u32 :: "re_parse_state \<Rightarrow> reop \<Rightarrow> u32 \<Rightarrow> nat \<times> re_parse_state" where
  "re_emit_op_u32 s op val =
     (let s1 = emit_u8 (reop_code op) s; pos = bc_size s1 in (pos, emit_u32 val s1))"

definition re_emit_goto :: "re_parse_state \<Rightarrow> reop \<Rightarrow> u32 \<Rightarrow> nat \<times> re_parse_state" where
  "re_emit_goto s op val =
     (let s1 = emit_u8 (reop_code op) s; pos = bc_size s1
      in (pos, emit_u32 (val - (of_nat pos + 4)) s1))"

definition re_emit_goto_u8 :: "re_parse_state \<Rightarrow> reop \<Rightarrow> u32 \<Rightarrow> u32 \<Rightarrow> nat \<times> re_parse_state" where
  "re_emit_goto_u8 s op arg val =
     (let s1 = emit_u8 (ucast arg) (emit_u8 (reop_code op) s); pos = bc_size s1
      in (pos, emit_u32 (val - (of_nat pos + 4)) s1))"

definition re_emit_goto_u8_u32 ::
    "re_parse_state \<Rightarrow> reop \<Rightarrow> u32 \<Rightarrow> u32 \<Rightarrow> u32 \<Rightarrow> nat \<times> re_parse_state" where
  "re_emit_goto_u8_u32 s op arg0 arg1 val =
     (let s1 = emit_u32 arg1 (emit_u8 (ucast arg0) (emit_u8 (reop_code op) s)); pos = bc_size s1
      in (pos, emit_u32 (val - (of_nat pos + 4)) s1))"

definition re_emit_op_u8 :: "re_parse_state \<Rightarrow> reop \<Rightarrow> u32 \<Rightarrow> re_parse_state" where
  "re_emit_op_u8 s op val = emit_u8 (ucast val) (emit_u8 (reop_code op) s)"

definition re_emit_op_u16 :: "re_parse_state \<Rightarrow> reop \<Rightarrow> u32 \<Rightarrow> re_parse_state" where
  "re_emit_op_u16 s op val = emit_u16 (ucast val) (emit_u8 (reop_code op) s)"

definition re_emit_char :: "re_parse_state \<Rightarrow> u32 \<Rightarrow> re_parse_state" where
  "re_emit_char s c =
     (if sint c \<le> 0xffff
      then re_emit_op_u16 s (if ps_ignore_case s then REOP_char_i else REOP_char) c
      else snd (re_emit_op_u32 s (if ps_ignore_case s then REOP_char32_i else REOP_char32) c))"

text \<open>The pairs of a range, 16 bits wide with 0xffff for infinity, or 32 bits wide.\<close>

fun emit_range16 :: "u32 list \<Rightarrow> re_parse_state \<Rightarrow> re_parse_state" where
  "emit_range16 (low # p # pts) s =
     (let high = (if p - 1 = 0xFFFFFFFE then 0xffff else p - 1)
      in emit_range16 pts (emit_u16 (ucast high) (emit_u16 (ucast low) s)))"
| "emit_range16 _ s = s"

fun emit_range32 :: "u32 list \<Rightarrow> re_parse_state \<Rightarrow> re_parse_state" where
  "emit_range32 (low # p # pts) s = emit_range32 pts (emit_u32 (p - 1) (emit_u32 low s))"
| "emit_range32 _ s = s"

definition re_emit_range :: "re_parse_state \<Rightarrow> u32 list \<Rightarrow> int \<times> re_parse_state" where
  "re_emit_range s points =
     (let len = length points div 2 in
      if len \<ge> 65535 then re_parse_error s ''too many ranges''
      else if len = 0 then (0, snd (re_emit_op_u32 s REOP_char32 (-1)))
      else
        let high0 = points ! (length points - 1);
            high = (if high0 = 0xFFFFFFFF then points ! (length points - 2) else high0)
        in if high \<le> 0xffff then
             (0, emit_range16 points
                   (re_emit_op_u16 s (if ps_ignore_case s then REOP_range_i else REOP_range)
                      (of_nat len)))
           else
             (0, emit_range32 points
                   (re_emit_op_u16 s (if ps_ignore_case s then REOP_range32_i else REOP_range32)
                      (of_nat len))))"

subsection \<open>What has been appended\<close>

text \<open>
  Emission in terms of the sink contract: the state only grows its buffer, and one buffer
  without an error holds all the bytes.
\<close>

definition emits :: "re_parse_state \<Rightarrow> u8 list \<Rightarrow> re_parse_state \<Rightarrow> bool" where
  "emits s bytes s' \<longleftrightarrow> (\<exists>d. s' = s\<lparr>ps_byte_code := d\<rparr> \<and> db_wf d
     \<and> bc_size s \<le> db_size d
     \<and> (\<forall>b. db_bounded b (ps_byte_code s) \<longrightarrow> db_bounded b d)
     \<and> (db_error (ps_byte_code s) \<longrightarrow> db_error d)
     \<and> (\<not> db_error d \<longrightarrow> db_buf d = db_buf (ps_byte_code s) @ bytes))"

lemma emits_put:
  assumes "db_wf (ps_byte_code s)"
  shows "emits s bytes (s\<lparr>ps_byte_code := snd (dbuf_put (ps_byte_code s) bytes)\<rparr>)"
  using dbs.put_contents [of "ps_byte_code s" bytes] dbs.failed_sticky [of "ps_byte_code s" bytes]
    dbuf_put_wf [OF assms, of bytes] dbuf_put_bounded [of _ "ps_byte_code s" bytes]
    dbuf_put_size [of "ps_byte_code s" bytes]
  by (auto simp: emits_def)

lemma emits_u8: "db_wf (ps_byte_code s) \<Longrightarrow> emits s [v] (emit_u8 v s)"
  using emits_put [of s "[v]"] by (simp add: emit_u8_def dbuf_putc_eq)

lemma emits_u16: "db_wf (ps_byte_code s) \<Longrightarrow> emits s (bytes_u16 v) (emit_u16 v s)"
  using emits_put [of s "bytes_u16 v"] by (simp add: emit_u16_def dbuf_put_u16_eq)

lemma emits_u32: "db_wf (ps_byte_code s) \<Longrightarrow> emits s (bytes_u32 v) (emit_u32 v s)"
  using emits_put [of s "bytes_u32 v"] by (simp add: emit_u32_def dbuf_put_u32_eq)

lemma emits_nil: "db_wf (ps_byte_code s) \<Longrightarrow> emits s [] s"
  unfolding emits_def by (intro exI [of _ "ps_byte_code s"]) simp

lemma emits_trans: "emits s xs s1 \<Longrightarrow> emits s1 ys s2 \<Longrightarrow> emits s (xs @ ys) s2"
  unfolding emits_def
  by (elim exE conjE) (rule_tac x = da in exI, auto)

lemma emits_wf: "emits s xs s' \<Longrightarrow> db_wf (ps_byte_code s')"
  by (auto simp: emits_def)

subsection \<open>Reading back what was emitted\<close>

text \<open>A cell of \<open>w\<close> bytes (2 or 4), and the cells of a range as the instruction stores them.\<close>

definition cell :: "nat \<Rightarrow> u32 \<Rightarrow> u8 list" where
  "cell w v = (if w = 2 then bytes_u16 (ucast v) else bytes_u32 v)"

fun range_cells :: "nat \<Rightarrow> u32 list \<Rightarrow> u32 list" where
  "range_cells w (low # p # pts) =
     low # (if w = 2 \<and> p = 0xFFFFFFFF then 0xffff else p - 1) # range_cells w pts"
| "range_cells w _ = []"

lemma get_u16_split: "get_u16 (pre @ bytes_u16 v @ post) (length pre) = ucast v"
  by (simp add: get_u16_def bytes_u16_def rd_def nth_append join_bytes_u16)

lemma get_u32_split: "get_u32 (pre @ bytes_u32 v @ post) (length pre) = v"
  by (simp add: get_u32_def bytes_u32_def rd_def nth_append join_bytes_u32)

lemma bc16_split: "bc16 (pre @ bytes_u16 v @ post) (length pre) = Some (ucast v)"
  using get_u16_split [of pre v post] by (simp add: bc16_def bytes_u16_def)

lemma bc32_split: "bc32 (pre @ bytes_u32 v @ post) (length pre) = Some v"
  using get_u32_split [of pre v post] by (simp add: bc32_def bytes_u32_def)

lemma ucast_u16_id: "(v :: u32) \<le> 0xffff \<Longrightarrow> ucast (ucast v :: u16) = v"
  by (simp add: word_unat_eq_iff unsigned_ucast_eq unsigned_take_bit_eq word_le_nat_alt take_bit_nat_eq_self)

lemma cell_split:
  assumes "w = 2 \<and> v \<le> 0xffff \<or> w = 4"
  shows "bcw w (pre @ cell w v @ post) (length pre) = Some v"
  using assms bc16_split [of pre "ucast v" post] bc32_split [of pre v post]
  by (auto simp: bcw_def cell_def ucast_u16_id)

lemma length_cells:
  "w = 2 \<or> w = 4 \<Longrightarrow> length (concat (map (cell w) us)) = length us * w"
  by (induction us) (auto simp: cell_def bytes_u16_def bytes_u32_def)

lemma cells_read:
  assumes "w = 2 \<or> w = 4" "\<forall>v \<in> set vs. w = 2 \<longrightarrow> v \<le> 0xffff" "i < length vs"
  shows "bcw w (pre @ concat (map (cell w) vs) @ post) (length pre + i * w) = Some (vs ! i)"
proof -
  let ?l = "pre @ concat (map (cell w) (take i vs))"
  have "vs = take i vs @ vs ! i # drop (Suc i) vs" using assms(3) by (simp add: id_take_nth_drop)
  then have "concat (map (cell w) vs)
      = concat (map (cell w) (take i vs)) @ cell w (vs ! i) @ concat (map (cell w) (drop (Suc i) vs))"
    by (metis concat.simps(2) concat_append list.simps(9) map_append)
  then have eq: "pre @ concat (map (cell w) vs) @ post
      = ?l @ cell w (vs ! i) @ concat (map (cell w) (drop (Suc i) vs)) @ post" by simp
  have "length ?l = length pre + i * w" using length_cells [OF assms(1)] assms(3) by simp
  then show ?thesis
    unfolding eq using cell_split [of w "vs ! i" ?l] assms nth_mem [OF assms(3)]
    by (metis append.assoc)
qed

lemma range_search_correct:
  assumes cells: "\<And>k. k < n \<Longrightarrow> bcw w bc (pc + k * (2 * w)) = Some (lo k)
                     \<and> bcw w bc (pc + k * (2 * w) + w) = Some (hi k)"
    and order: "\<And>i j. i < j \<Longrightarrow> j < n \<Longrightarrow> hi i < lo j" "\<And>i. i < n \<Longrightarrow> lo i \<le> hi i"
    and "lo 0 \<le> c" "b < n"
  shows "range_search w bc pc c a b = Some (\<exists>k. a \<le> k \<and> k \<le> b \<and> lo k \<le> c \<and> c \<le> hi k)"
  using \<open>b < n\<close>
proof (induction "Suc b - a" arbitrary: a b rule: less_induct)
  case less
  show ?case
  proof (cases "a \<le> b")
    case True
    let ?i = "(a + b) div 2"
    have i: "a \<le> ?i" "?i \<le> b" "?i < n" using True less.prems by auto
    have below: "c < lo k" if "?i \<le> k" "k \<le> b" "c < lo ?i" for k
    proof (cases "k = ?i")
      case False
      then have "?i < k" "k < n" using that less.prems by auto
      then show ?thesis using order(1) order(2) [OF i(3)] that(3)
        by (meson less_le_trans order.strict_trans order_less_imp_le)
    qed (use that in simp)
    have above: "hi k < c" if "a \<le> k" "k \<le> ?i" "hi ?i < c" for k
    proof (cases "k = ?i")
      case False
      then have "hi k < lo ?i" using that i order(1) by simp
      then show ?thesis using order(2) [OF i(3)] that(3) by simp
    qed (use that in simp)
    consider (lt) "c < lo ?i" | (gt) "\<not> c < lo ?i" "hi ?i < c" | (eq) "lo ?i \<le> c" "c \<le> hi ?i"
      by (meson leI)
    then show ?thesis
    proof cases
      case lt
      have "?i \<noteq> 0" using lt assms(4) by (metis leD)
      then have "range_search w bc pc c a b = range_search w bc pc c a (?i - 1)"
        using lt cells [OF i(3)] True by (subst range_search.simps) (simp add: Let_def)
      also have "\<dots> = Some (\<exists>k. a \<le> k \<and> k \<le> ?i - 1 \<and> lo k \<le> c \<and> c \<le> hi k)"
        using \<open>?i \<noteq> 0\<close> i less.prems by (intro less.hyps) auto
      also have "(\<exists>k. a \<le> k \<and> k \<le> ?i - 1 \<and> lo k \<le> c \<and> c \<le> hi k)
          \<longleftrightarrow> (\<exists>k. a \<le> k \<and> k \<le> b \<and> lo k \<le> c \<and> c \<le> hi k)"
      proof (intro ex_cong1)
        fix k
        have "k \<le> ?i - 1 \<longleftrightarrow> k \<le> b \<and> \<not> ?i \<le> k" using \<open>?i \<noteq> 0\<close> i(2) by linarith
        then show "(a \<le> k \<and> k \<le> ?i - 1 \<and> lo k \<le> c \<and> c \<le> hi k)
            \<longleftrightarrow> (a \<le> k \<and> k \<le> b \<and> lo k \<le> c \<and> c \<le> hi k)"
          using below [OF _ _ lt, of k] by (metis leD)
      qed
      finally show ?thesis .
    next
      case gt
      then have "range_search w bc pc c a b = range_search w bc pc c (?i + 1) b"
        using cells [OF i(3)] True by (subst range_search.simps) (simp add: Let_def)
      also have "\<dots> = Some (\<exists>k. ?i + 1 \<le> k \<and> k \<le> b \<and> lo k \<le> c \<and> c \<le> hi k)"
        using i less.prems by (intro less.hyps) auto
      also have "(\<exists>k. ?i + 1 \<le> k \<and> k \<le> b \<and> lo k \<le> c \<and> c \<le> hi k)
          \<longleftrightarrow> (\<exists>k. a \<le> k \<and> k \<le> b \<and> lo k \<le> c \<and> c \<le> hi k)"
      proof (intro ex_cong1)
        fix k
        have "?i + 1 \<le> k \<longleftrightarrow> a \<le> k \<and> \<not> k \<le> ?i" using i(1) by linarith
        then show "(?i + 1 \<le> k \<and> k \<le> b \<and> lo k \<le> c \<and> c \<le> hi k)
            \<longleftrightarrow> (a \<le> k \<and> k \<le> b \<and> lo k \<le> c \<and> c \<le> hi k)"
          using above [OF _ _ gt(2), of k] by (metis leD)
      qed
      finally show ?thesis .
    next
      case eq
      then have "range_search w bc pc c a b = Some True"
        using cells [OF i(3)] True by (subst range_search.simps) (simp add: Let_def leD)
      then show ?thesis using eq i by auto
    qed
  qed (subst range_search.simps, auto)
qed

lemma range_cells_nth:
  assumes "even (length pts)"
  shows "length (range_cells w pts) = length pts"
    and "k < length pts div 2 \<Longrightarrow> range_cells w pts ! (2 * k) = pts ! (2 * k)"
    and "k < length pts div 2 \<Longrightarrow> range_cells w pts ! (2 * k + 1)
      = (if w = 2 \<and> pts ! (2 * k + 1) = 0xFFFFFFFF then 0xffff else pts ! (2 * k + 1) - 1)"
proof -
  show "length (range_cells w pts) = length pts"
    using assms by (induction w pts rule: range_cells.induct) auto
  show "k < length pts div 2 \<Longrightarrow> range_cells w pts ! (2 * k) = pts ! (2 * k)"
    using assms by (induction w pts arbitrary: k rule: range_cells.induct)
      (auto simp: less_Suc_eq_0_disj nth_Cons split: nat.splits)
  show "k < length pts div 2 \<Longrightarrow> range_cells w pts ! (2 * k + 1)
      = (if w = 2 \<and> pts ! (2 * k + 1) = 0xFFFFFFFF then 0xffff else pts ! (2 * k + 1) - 1)"
    using assms by (induction w pts arbitrary: k rule: range_cells.induct)
      (auto simp: less_Suc_eq_0_disj nth_Cons split: nat.splits)
qed

lemma u32_minus_max: "(p :: u32) - 1 = 0xFFFFFFFE \<longleftrightarrow> p = 0xFFFFFFFF"
  by (simp add: diff_eq_eq)

lemma emit_range16_emits:
  "db_wf (ps_byte_code s) \<Longrightarrow> emits s (concat (map (cell 2) (range_cells 2 pts))) (emit_range16 pts s)"
proof (induction pts s rule: emit_range16.induct)
  case (1 low p pts s)
  let ?h = "if p - 1 = 0xFFFFFFFE then 0xffff else p - 1 :: u32"
  let ?s1 = "emit_u16 (ucast low) s" and ?s2 = "emit_u16 (ucast ?h) (emit_u16 (ucast low) s)"
  have e1: "emits s (bytes_u16 (ucast low)) ?s1" using 1(2) by (rule emits_u16)
  have e2: "emits ?s1 (bytes_u16 (ucast ?h)) ?s2" using emits_wf [OF e1] by (rule emits_u16)
  have e3: "emits ?s2 (concat (map (cell 2) (range_cells 2 pts))) (emit_range16 pts ?s2)"
    using emits_wf [OF e2] by (intro 1(1)) simp_all
  show ?case
    using emits_trans [OF e1 emits_trans [OF e2 e3]] by (simp add: cell_def [abs_def] u32_minus_max Let_def)
qed (simp_all add: emits_nil)

lemma emit_range32_emits:
  "db_wf (ps_byte_code s) \<Longrightarrow> emits s (concat (map (cell 4) (range_cells 4 pts))) (emit_range32 pts s)"
proof (induction pts s rule: emit_range32.induct)
  case (1 low p pts s)
  let ?s1 = "emit_u32 low s" and ?s2 = "emit_u32 (p - 1) (emit_u32 low s)"
  have e1: "emits s (bytes_u32 low) ?s1" using 1(2) by (rule emits_u32)
  have e2: "emits ?s1 (bytes_u32 (p - 1)) ?s2" using emits_wf [OF e1] by (rule emits_u32)
  have e3: "emits ?s2 (concat (map (cell 4) (range_cells 4 pts))) (emit_range32 pts ?s2)"
    using emits_wf [OF e2] by (intro 1(1)) simp_all
  show ?case
    using emits_trans [OF e1 emits_trans [OF e2 e3]] by (simp add: cell_def [abs_def])
qed (simp_all add: emits_nil)

text \<open>The interval reading of a set, pair by pair.\<close>

lemma cr_mem_nth:
  "cr_canonical pts \<Longrightarrow>
   cr_mem pts c \<longleftrightarrow> (\<exists>k < length pts div 2. pts ! (2 * k) \<le> c \<and> c < pts ! (2 * k + 1))"
proof (induction pts rule: induct_list012)
  case (3 x y r)
  then have "cr_canonical r" "x < y" "\<forall>p \<in> set r. y \<le> p" by (auto simp: cr_canonical_def)
  then have "cr_mem (x # y # r) c \<longleftrightarrow> x \<le> c \<and> c < y
      \<or> (\<exists>k < length r div 2. r ! (2 * k) \<le> c \<and> c < r ! (2 * k + 1))"
    using 3(1) by (simp add: cr_mem_Cons2)
  also have "\<dots> \<longleftrightarrow> (\<exists>k < Suc (length r div 2). (x # y # r) ! (2 * k) \<le> c \<and> c < (x # y # r) ! (2 * k + 1))"
    by (simp add: Ex_less_Suc2)
  finally show ?case by simp
qed (auto simp: cr_canonical_def cr_mem_def)

lemma re_range_result:
  assumes n: "bc16 (rx_bc ctx) pc = Some n32" "unat n32 = n" "0 < n"
    and cells: "\<And>k. k < n \<Longrightarrow> bcw w (rx_bc ctx) (pc + 2 + k * (2 * w)) = Some (lo k)
                     \<and> bcw w (rx_bc ctx) (pc + 2 + k * (2 * w) + w) = Some (hi k)"
    and order: "\<And>i j. i < j \<Longrightarrow> j < n \<Longrightarrow> hi i < lo j" "\<And>i. i < n \<Longrightarrow> lo i \<le> hi i"
    and char: "get_char ctx p (clen ctx) = Some (c0, q)" "c = canon_if ctx ic c0"
  shows "re_range w ctx ic pc p = Some
    (if (\<exists>k < n. lo k \<le> c \<and> c \<le> hi k) \<or> (w = 2 \<and> 0xffff \<le> c \<and> hi (n - 1) = 0xffff \<and> lo 0 \<le> c)
     then act (Jump False (pc + 2 + 2 * w * n) q) else act No_match)"
proof -
  have first: "lo 0 \<le> lo k" if "k < n" for k
    using order(1) [of 0 k] order(2) [of 0] that n(3) by (cases "k = 0") auto
  have last: "hi k \<le> hi (n - 1)" if "k < n" for k
  proof (cases "k = n - 1")
    case False
    then have "hi k < lo (n - 1)" "lo (n - 1) \<le> hi (n - 1)"
      using order(1) [of k "n - 1"] order(2) [of "n - 1"] that n(3) by auto
    then show ?thesis by simp
  qed simp
  have p: "p < clen ctx" using char(1) by (simp add: get_char_def split: if_splits)
  have search: "range_search w (rx_bc ctx) (pc + 2) c 0 (n - 1) = Some (\<exists>k < n. lo k \<le> c \<and> c \<le> hi k)"
    if "lo 0 \<le> c"
  proof -
    have "range_search w (rx_bc ctx) (pc + 2) c 0 (n - 1)
        = Some (\<exists>k. 0 \<le> k \<and> k \<le> n - 1 \<and> lo k \<le> c \<and> c \<le> hi k)"
      using cells order that n(3) by (intro range_search_correct [where n = n]) auto
    also have "(\<exists>k. 0 \<le> k \<and> k \<le> n - 1 \<and> lo k \<le> c \<and> c \<le> hi k) \<longleftrightarrow> (\<exists>k < n. lo k \<le> c \<and> c \<le> hi k)"
      using n(3) by (intro ex_cong1) auto
    finally show ?thesis .
  qed
  have low: "\<not> (\<exists>k < n. lo k \<le> c \<and> c \<le> hi k)" if "c < lo 0"
    using first that by (meson leD order.trans)
  have high: "\<not> (\<exists>k < n. lo k \<le> c \<and> c \<le> hi k)" if "hi (n - 1) < c"
    using last that by (meson leD order.trans)
  have run: "re_range w ctx ic pc p = (if c < lo 0 then Some (act No_match)
      else if w = 2 \<and> c \<ge> 0xffff \<and> hi (n - 1) = 0xffff then Some (act (Jump False (pc + 2 + 2 * w * n) q))
      else if c > hi (n - 1) then Some (act No_match)
      else Some (if \<exists>k < n. lo k \<le> c \<and> c \<le> hi k
        then act (Jump False (pc + 2 + 2 * w * n) q) else act No_match))"
    unfolding re_range_def
    using n p char(1) cells [of 0] cells [of "n - 1"] search
    by (cases "lo 0 \<le> c")
      (simp_all add: Let_def char(2) [symmetric] not_le leD del: One_nat_def split del: if_split cong: if_cong)
  show ?thesis
  proof (cases "c < lo 0")
    case True
    then show ?thesis unfolding run using low [OF True] True by (auto simp: not_le)
  next
    case False
    then have "lo 0 \<le> c" by simp
    then show ?thesis unfolding run using high by (cases "hi (n - 1) < c") (auto simp: not_less)
  qed
qed

lemma emit_range_emits:
  assumes "db_wf (ps_byte_code s)" "re_emit_range s pts = (0, s')" "pts \<noteq> []" "cr_canonical pts"
  obtains w op where
    "w = 2 \<and> op = (if ps_ignore_case s then REOP_range_i else REOP_range)
       \<and> (\<forall>p \<in> set pts. p \<le> 0xffff \<or> p = 0xFFFFFFFF \<and> p = last pts)
     \<or> w = 4 \<and> op = (if ps_ignore_case s then REOP_range32_i else REOP_range32)"
    "emits s (reop_code op # bytes_u16 (of_nat (length pts div 2)) @ concat (map (cell w) (range_cells w pts))) s'"
proof -
  let ?n = "length pts div 2"
  let ?top = "pts ! (length pts - 1)"
  let ?high = "if ?top = 0xFFFFFFFF then pts ! (length pts - 2) else ?top"
  have n: "?n < 65535" "?n \<noteq> 0"
    using assms(2-4) by (auto simp: re_emit_range_def re_parse_error_def cr_canonical_def Let_def not_le
      split: if_splits elim!: evenE)
  have op: "emits s (reop_code op # bytes_u16 (ucast (of_nat ?n :: u32))) (re_emit_op_u16 s op (of_nat ?n))" for op
    using emits_trans [OF emits_u8 [OF assms(1)] emits_u16 [OF emits_wf [OF emits_u8 [OF assms(1)]]]]
    by (simp add: re_emit_op_u16_def)
  have wf: "db_wf (ps_byte_code (re_emit_op_u16 s op (of_nat ?n)))" for op
    using op by (rule emits_wf)
  have cast: "ucast (of_nat ?n :: u32) = (of_nat ?n :: u16)" by (simp add: of_nat_take_bit [symmetric] word_unat_eq_iff unsigned_ucast_eq unsigned_take_bit_eq unsigned_of_nat)
  show ?thesis
  proof (cases "?high \<le> 0xffff")
    case True
    let ?op = "if ps_ignore_case s then REOP_range_i else REOP_range"
    have "s' = emit_range16 pts (re_emit_op_u16 s ?op (of_nat ?n))"
      using assms(2) n True by (simp add: re_emit_range_def Let_def split: if_splits)
    then have "emits s (reop_code ?op # bytes_u16 (of_nat ?n) @ concat (map (cell 2) (range_cells 2 pts))) s'"
      using emits_trans [OF op emit_range16_emits [OF wf], of ?op] cast by simp
    moreover have "\<forall>p \<in> set pts. p \<le> 0xffff \<or> p = 0xFFFFFFFF \<and> p = last pts"
    proof
      fix p assume "p \<in> set pts"
      then obtain i where i: "i < length pts" "p = pts ! i" by (auto simp: in_set_conv_nth)
      have mono: "pts ! i \<le> pts ! j" if "i \<le> j" "j < length pts" for i j
        using that assms(4) by (cases "i = j") (auto simp: cr_canonical_def sorted_wrt_iff_nth_less less_imp_le)
      have last: "last pts = ?top" using assms(3) by (simp add: last_conv_nth)
      show "p \<le> 0xffff \<or> p = 0xFFFFFFFF \<and> p = last pts"
      proof (cases "?top = 0xFFFFFFFF")
        case hi: True
        show ?thesis
        proof (cases "i = length pts - 1")
          case False
          then have "p \<le> pts ! (length pts - 2)" using i n mono [of i "length pts - 2"] by auto
          moreover have "pts ! (length pts - 2) \<le> 0xffff" using True by (simp only: hi refl if_True)
          ultimately show ?thesis by (meson order.trans)
        next
          case True
          then show ?thesis using hi i(2) last by metis
        qed
      next
        case False
        have "p \<le> ?top" using mono [of i "length pts - 1"] i by auto
        moreover have "?top \<le> 0xffff" using True by (simp only: False if_False)
        ultimately show ?thesis by (meson order.trans)
      qed
    qed
    ultimately show ?thesis using that [of 2 ?op] by blast
  next
    case False
    let ?op = "if ps_ignore_case s then REOP_range32_i else REOP_range32"
    have "s' = emit_range32 pts (re_emit_op_u16 s ?op (of_nat ?n))"
      using assms(2) n False by (simp add: re_emit_range_def Let_def split: if_splits)
    then have "emits s (reop_code ?op # bytes_u16 (of_nat ?n) @ concat (map (cell 4) (range_cells 4 pts))) s'"
      using emits_trans [OF op emit_range32_emits [OF wf], of ?op] cast by simp
    then show ?thesis using that [of 4 ?op] by blast
  qed
qed

lemma canonical_pairs:
  assumes "cr_canonical pts" "k < length pts div 2"
  shows "pts ! (2 * k) < pts ! (2 * k + 1)"
    and "j < k \<Longrightarrow> pts ! (2 * j + 1) < pts ! (2 * k)"
    and "pts ! (2 * k + 1) = last pts \<Longrightarrow> k = length pts div 2 - 1"
proof -
  have lt: "pts ! i < pts ! j" if "i < j" "j < length pts" for i j
    using assms(1) that by (auto simp: cr_canonical_def sorted_wrt_iff_nth_less)
  show "pts ! (2 * k) < pts ! (2 * k + 1)" "j < k \<Longrightarrow> pts ! (2 * j + 1) < pts ! (2 * k)"
    using assms(2) by (auto intro!: lt)
  assume eq: "pts ! (2 * k + 1) = last pts"
  show "k = length pts div 2 - 1"
  proof (rule ccontr)
    assume "k \<noteq> length pts div 2 - 1"
    then have "pts ! (2 * k + 1) < pts ! (length pts - 1)" using assms(2) by (intro lt) auto
    then show False using eq assms(2) by (subst (asm) last_conv_nth) auto
  qed
qed

lemma u32_minus_one_le: "(x :: u32) < p \<Longrightarrow> c \<le> p - 1 \<longleftrightarrow> c < p"
proof -
  assume "x < p"
  then have "0 < unat p" by (simp add: word_less_nat_alt)
  then have "unat (p - 1) = unat p - 1" by (intro unat_minus_one) auto
  then show ?thesis using \<open>0 < unat p\<close> by (auto simp: word_le_nat_alt word_less_nat_alt)
qed

lemma range_cells_order:
  assumes "cr_canonical pts" "k < length pts div 2"
    and "w = 2 \<Longrightarrow> \<forall>p \<in> set pts. p \<le> 0xffff \<or> p = 0xFFFFFFFF \<and> p = last pts"
  defines "lo i \<equiv> range_cells w pts ! (2 * i)" and "hi i \<equiv> range_cells w pts ! (2 * i + 1)"
  shows "lo k \<le> hi k" "j < k \<Longrightarrow> hi j < lo k" "w = 2 \<Longrightarrow> lo k \<le> 0xffff" "w = 2 \<Longrightarrow> hi k \<le> 0xffff"
proof -
  have even: "even (length pts)" using assms(1) by (simp add: cr_canonical_def)
  note nth = range_cells_nth [OF even, where w = w]
  have mem: "pts ! (2 * k) \<in> set pts" "pts ! (2 * k + 1) \<in> set pts" using assms(2) by auto
  have lt: "pts ! (2 * k) < pts ! (2 * k + 1)" using canonical_pairs(1) [OF assms(1,2)] .
  have lo: "lo k = pts ! (2 * k)" using nth(2) assms(2) by (simp add: lo_def)
  have hi: "hi i = (if w = 2 \<and> pts ! (2 * i + 1) = 0xFFFFFFFF then 0xffff else pts ! (2 * i + 1) - 1)"
    if "i < length pts div 2" for i using nth(3) that by (simp add: hi_def)
  have lo16: "pts ! (2 * k) \<le> 0xffff" if "w = 2"
    using assms(3) [OF that] mem(1) lt u32_le_max [of "pts ! (2 * k + 1)"] by fastforce
  show "w = 2 \<Longrightarrow> lo k \<le> 0xffff" using lo lo16 by simp
  show "lo k \<le> hi k"
    using lo16 lt by (auto simp: lo hi [OF assms(2)] u32_minus_one_le)
  show "w = 2 \<Longrightarrow> hi k \<le> 0xffff"
    using assms(3) mem(2) u32_minus_one_le [OF lt, of "pts ! (2 * k + 1) - 1"]
    by (fastforce simp: hi [OF assms(2)])
  assume jk: "j < k"
  then have j: "j < length pts div 2" using assms(2) by simp
  have "pts ! (2 * j + 1) < pts ! (2 * k)" using canonical_pairs(2) [OF assms(1,2) jk] .
  moreover have "pts ! (2 * j + 1) \<noteq> 0xFFFFFFFF"
    using calculation by (metis leD u32_le_max)
  moreover have "pts ! (2 * j + 1) - 1 < pts ! (2 * j + 1)"
    using canonical_pairs(1) [OF assms(1) j] u32_minus_one_le by (metis le_less_linear less_irrefl)
  ultimately show "hi j < lo k" by (simp add: lo hi [OF j])
qed

lemma half_pos: "even (length xs) \<Longrightarrow> xs \<noteq> [] \<Longrightarrow> 0 < length xs div 2"
  by (cases xs; cases "tl xs") auto

lemma range_cells_mem:
  assumes "cr_canonical pts" "pts \<noteq> []"
    and w2: "w = 2 \<Longrightarrow> \<forall>p \<in> set pts. p \<le> 0xffff \<or> p = 0xFFFFFFFF \<and> p = last pts"
    and c: "c \<noteq> 0xFFFFFFFF"
  defines "lo i \<equiv> range_cells w pts ! (2 * i)" and "hi i \<equiv> range_cells w pts ! (2 * i + 1)"
    and "n \<equiv> length pts div 2"
  shows "(\<exists>k < n. lo k \<le> c \<and> c \<le> hi k) \<or> (w = 2 \<and> 0xffff \<le> c \<and> hi (n - 1) = 0xffff \<and> lo 0 \<le> c)
    \<longleftrightarrow> cr_mem pts c"
proof -
  have even: "even (length pts)" using assms(1) by (simp add: cr_canonical_def)
  have n0: "0 < n" using assms(2) even half_pos by (simp add: n_def)
  have lo: "lo k = pts ! (2 * k)" and hi: "hi k = (if w = 2 \<and> pts ! (2 * k + 1) = 0xFFFFFFFF then 0xffff else pts ! (2 * k + 1) - 1)"
    if "k < n" for k using range_cells_nth [OF even, where w = w] that by (auto simp: lo_def hi_def n_def)
  have lt: "pts ! (2 * k) < pts ! (2 * k + 1)" if "k < n" for k
    using canonical_pairs(1) [OF assms(1)] that by (simp add: n_def)
  have last: "last pts = pts ! (2 * (n - 1) + 1)"
    proof -
    have "length pts - 1 = 2 * (n - 1) + 1" using n0 even by (auto simp: n_def elim!: evenE)
    then show ?thesis using assms(2) by (simp add: last_conv_nth)
  qed
  have c_lt: "c < 0xFFFFFFFF" using c u32_le_max [of c] by simp
  show ?thesis
  proof (cases "w = 2 \<and> last pts = 0xFFFFFFFF")
    case True
    have lo16: "lo k \<le> 0xffff" if "k < n" for k
      using range_cells_order(3) [OF assms(1) _ w2] that True by (simp add: lo_def n_def)
    have hi_last: "hi (n - 1) = 0xffff" using hi [of "n - 1"] n0 True last by simp
    show ?thesis
    proof (cases "0xffff \<le> c")
      case big: True
      have "pts ! (2 * (n - 1)) \<le> c" using lo16 [of "n - 1"] lo [of "n - 1"] n0 big by simp
      moreover have "c < pts ! (2 * (n - 1) + 1)" using c_lt last True by simp
      ultimately have "cr_mem pts c" using n0 unfolding cr_mem_nth [OF assms(1)] n_def [symmetric]
        by (intro exI [of _ "n - 1"]) simp
      then show ?thesis using True big hi_last lo16 [of 0] n0 by (auto intro: order.trans)
    next
      case False
      have "c \<le> hi k \<longleftrightarrow> c < pts ! (2 * k + 1)" if "k < n" for k
      proof (cases "pts ! (2 * k + 1) = 0xFFFFFFFF")
        case inf: True
        have "hi k = 0xffff" using hi [OF that] True inf by simp
        then show ?thesis using False c_lt by (simp only: inf) simp
      next
        case fin: False
        have "hi k = pts ! (2 * k + 1) - 1" using hi [OF that] fin by simp
        then show ?thesis using u32_minus_one_le [OF lt [OF that]] by simp
      qed
      then show ?thesis using False lo unfolding cr_mem_nth [OF assms(1)] n_def [symmetric] by auto
    qed
  next
    case False
    have "c \<le> hi k \<longleftrightarrow> c < pts ! (2 * k + 1)" if "k < n" for k
    proof -
      have "pts ! (2 * k + 1) \<in> set pts" using that by (simp add: n_def)
      then have "\<not> (w = 2 \<and> pts ! (2 * k + 1) = 0xFFFFFFFF)" using w2 False by fastforce
      then show ?thesis using hi [OF that] u32_minus_one_le [OF lt [OF that]] by auto
    qed
    moreover have "\<not> (w = 2 \<and> hi (n - 1) = 0xffff)"
    proof
      assume h: "w = 2 \<and> hi (n - 1) = 0xffff"
      have "pts ! (2 * (n - 1) + 1) = 0xffff + 1"
        using h hi [of "n - 1"] n0 False last by (simp add: diff_eq_eq)
      moreover have "last pts \<in> set pts" using assms(2) by simp
      ultimately show False using w2 h False last by fastforce
    qed
    ultimately show ?thesis using lo unfolding cr_mem_nth [OF assms(1)] n_def [symmetric] by auto
  qed
qed

text \<open>C9: An emitted character range accepts exactly its set.
  Whenever \<open>re_emit_range\<close> succeeds on a normalised vector of boundary points and the buffer
  has no error, the instruction it appended, fetched by the matcher out of any byte code that
  continues that buffer, consumes the next character exactly when its (canonicalized, under
  \<open>i\<close>) code point is in the set, and then continues at the end of the emitted bytes;
  otherwise it fails. This covers the 16-bit form with 0xffff for infinity, the
  32-bit form, the empty set and the binary search.\<close>

theorem emitted_range_accepts_set:
  assumes emit: "re_emit_range s pts = (0, s')" "db_wf (ps_byte_code s)" "\<not> db_error (ps_byte_code s')"
    and pts: "cr_canonical pts"
    and code: "rx_bc ctx = db_buf (ps_byte_code s') @ post"
    and char: "get_char ctx p (clen ctx) = Some (c0, q)" "c0 \<noteq> 0xFFFFFFFF"
    and canon: "c = canon_if ctx (ps_ignore_case s) c0" "c \<noteq> 0xFFFFFFFF"
  shows "re_fetch ctx (bc_size s) p capture =
    Some (act (if cr_mem pts c then Jump False (bc_size s') q else No_match))"
proof (cases "pts = []")
  case True
  have "emits s (reop_code REOP_char32 # bytes_u32 (-1)) s'"
    using emits_trans [OF emits_u8 [OF emit(2)] emits_u32 [OF emits_wf [OF emits_u8 [OF emit(2)]]],
        of "reop_code REOP_char32" "-1"]
      emit(1) True by (simp add: re_emit_range_def re_emit_op_u32_def Let_def)
  then have buf: "db_buf (ps_byte_code s') = db_buf (ps_byte_code s) @ reop_code REOP_char32 # bytes_u32 (-1)"
    using emit(3) by (auto simp: emits_def)
  have "bc32 (rx_bc ctx) (bc_size s + 1) = Some (-1)"
    using bc32_split [of "db_buf (ps_byte_code s) @ [reop_code REOP_char32]" "-1" post] by (simp add: code buf)
  moreover have "p < clen ctx" using char(1) by (simp add: get_char_def split: if_splits)
  ultimately show ?thesis
    using char True by (auto simp: re_fetch_def bc8_def code buf re_test_char_def canon_if_def cr_mem_def
      simp del: reop_code.simps)
next
  case False
  let ?n = "length pts div 2" and ?pre = "db_buf (ps_byte_code s)"
  obtain w op where w: "w = 2 \<and> op = (if ps_ignore_case s then REOP_range_i else REOP_range)
       \<and> (\<forall>p \<in> set pts. p \<le> 0xffff \<or> p = 0xFFFFFFFF \<and> p = last pts)
     \<or> w = 4 \<and> op = (if ps_ignore_case s then REOP_range32_i else REOP_range32)"
    and em: "emits s (reop_code op # bytes_u16 (of_nat ?n) @ concat (map (cell w) (range_cells w pts))) s'"
    by (rule emit_range_emits [OF emit(2,1) False pts])
  have buf: "db_buf (ps_byte_code s') = ?pre @ reop_code op # bytes_u16 (of_nat ?n) @ concat (map (cell w) (range_cells w pts))"
    using em emit(3) by (auto simp: emits_def)
  have even: "even (length pts)" using pts by (simp add: cr_canonical_def)
  have n: "?n < 65535" using emit(1) by (auto simp: re_emit_range_def re_parse_error_def Let_def not_le split: if_splits)
  have n0: "0 < ?n" using False even half_pos by blast
  let ?lo = "\<lambda>i. range_cells w pts ! (2 * i)" and ?hi = "\<lambda>i. range_cells w pts ! (2 * i + 1)"
  have w24: "w = 2 \<or> w = 4" and w2: "w = 2 \<Longrightarrow> \<forall>p \<in> set pts. p \<le> 0xffff \<or> p = 0xFFFFFFFF \<and> p = last pts"
    using w by auto
  note ord = range_cells_order [OF pts _ w2]
  note nth = range_cells_nth [OF even, where w = w]
  have small: "\<forall>v \<in> set (range_cells w pts). w = 2 \<longrightarrow> v \<le> 0xffff"
  proof (intro ballI impI)
    fix v assume "v \<in> set (range_cells w pts)" "w = 2"
    then obtain i where i: "i < length pts" "w = 2" "v = range_cells w pts ! i"
      unfolding in_set_conv_nth nth(1) by blast
    then have "i div 2 < ?n" using even by (auto elim!: evenE)
    then show "v \<le> 0xffff"
      using ord(3,4) [of "i div 2"] i(2,3) by (cases "even i") (auto elim!: evenE oddE)
  qed
  let ?p3 = "?pre @ reop_code op # bytes_u16 (of_nat ?n)"
  have len: "length ?p3 = bc_size s + 3" by (simp add: bytes_u16_def)
  have cells: "bcw w (rx_bc ctx) (bc_size s + 1 + 2 + k * (2 * w)) = Some (?lo k) \<and>
      bcw w (rx_bc ctx) (bc_size s + 1 + 2 + k * (2 * w) + w) = Some (?hi k)" if "k < ?n" for k
  proof -
    have "2 * k < length pts" "2 * k + 1 < length pts" using that even by (auto elim!: evenE)
    then show ?thesis
      using cells_read [OF w24 small, of "2 * k" ?p3 post] cells_read [OF w24 small, of "2 * k + 1" ?p3 post]
      unfolding len by (simp add: code buf nth(1) algebra_simps numeral_3_eq_3)
  qed
  have count: "bc16 (rx_bc ctx) (bc_size s + 1) = Some (of_nat ?n)"
  proof -
    have "take_bit 16 ?n = ?n" "take_bit 32 ?n = ?n" using n by (simp_all add: take_bit_nat_eq_self)
    then have "ucast (of_nat ?n :: u16) = (of_nat ?n :: u32)"
      by (simp add: word_unat_eq_iff unsigned_ucast_eq unsigned_of_nat)
    then show ?thesis
      using bc16_split [of "?pre @ [reop_code op]" "of_nat ?n"] by (simp add: code buf)
  qed
  have size: "bc_size s + 1 + 2 + 2 * w * ?n = bc_size s'"
    using length_cells [OF w24] even by (auto simp: buf nth(1) bytes_u16_def elim!: evenE)
  have "re_range w ctx (ps_ignore_case s) (bc_size s + 1) p =
    Some (if (\<exists>k < ?n. ?lo k \<le> c \<and> c \<le> ?hi k) \<or> (w = 2 \<and> 0xffff \<le> c \<and> ?hi (?n - 1) = 0xffff \<and> ?lo 0 \<le> c)
     then act (Jump False (bc_size s + 1 + 2 + 2 * w * ?n) q) else act No_match)"
    using ord(1,2) n
    by (intro re_range_result [OF count _ n0 cells _ _ char(1) canon(1)]) (auto simp: unsigned_of_nat take_bit_nat_eq_self)
  also have "(\<exists>k < ?n. ?lo k \<le> c \<and> c \<le> ?hi k) \<or> (w = 2 \<and> 0xffff \<le> c \<and> ?hi (?n - 1) = 0xffff \<and> ?lo 0 \<le> c)
      \<longleftrightarrow> cr_mem pts c"
    by (rule range_cells_mem [OF pts False w2 canon(2)])
  finally have run: "re_range w ctx (ps_ignore_case s) (bc_size s + 1) p
      = Some (act (if cr_mem pts c then Jump False (bc_size s') q else No_match))"
    unfolding size by simp
  have "re_fetch ctx (bc_size s) p capture = re_instr ctx op (bc_size s + 1) p capture"
    by (simp add: re_fetch_def bc8_def code buf)
  also have "\<dots> = re_range w ctx (ps_ignore_case s) (bc_size s + 1) p"
    using w by (auto split: if_splits)
  finally show ?thesis using run by simp
qed

definition emit_example :: re_parse_state where
  "emit_example = \<lparr>ps_byte_code = dbuf_init2 (\<lambda>n. True), ps_buf = [], ps_ptr = 0, ps_re_flags = 0,
     ps_is_unicode = False, ps_unicode_sets = False, ps_ignore_case = False, ps_multi_line = False,
     ps_dotall = False, ps_group_name_scope = 0, ps_capture_count = 1, ps_total_capture_count = -1,
     ps_has_named_captures = -1, ps_group_names = dbuf_init2 (\<lambda>n. True), ps_error = [],
     ps_realloc = \<lambda>n. True\<rparr>"

definition emit_example_ctx :: "u8 list \<Rightarrow> re_ctx" where
  "emit_example_ctx bc = \<lparr>rx_bc = bc, rx_cbuf = [0x35], rx_cbuf_type = 0, rx_capture_count = 1,
     rx_is_unicode = False, rx_realloc = \<lambda>n. True, rx_timeout = False\<rparr>"

text \<open>The digits and everything from U+0100 on, against "5".\<close>

lemma emitted_range_accepts_set_witness:
  "\<exists>s'. re_emit_range emit_example [0x30, 0x3a, 0x100, 0xFFFFFFFF] = (0, s') \<and>
     re_fetch (emit_example_ctx (db_buf (ps_byte_code s'))) 0 0 [] =
       Some (act (Jump False (bc_size s') 1))"
proof -
  let ?pts = "[0x30, 0x3a, 0x100, 0xFFFFFFFF]"
  have "fst (re_emit_range emit_example ?pts) = 0" by (simp add: re_emit_range_def Let_def)
  then obtain s' where emit: "re_emit_range emit_example ?pts = (0, s')" by (metis prod.collapse)
  have "\<not> db_error (ps_byte_code (snd (re_emit_range emit_example ?pts)))"
    by (simp add: re_emit_range_def re_emit_op_u16_def emit_u8_def emit_u16_def emit_example_def
      dbuf_putc_def dbuf_put_u16_def dbuf_put_def dbuf_claim_def dbuf_init2_def bytes_u16_def)
  then have ok: "\<not> db_error (ps_byte_code s')" by (simp only: emit snd_conv not_False_eq_True)
  let ?ctx = "emit_example_ctx (db_buf (ps_byte_code s'))"
  have wf: "db_wf (ps_byte_code emit_example)" by (simp add: emit_example_def db_wf_def dbuf_init2_def)
  have canon: "cr_canonical ?pts" by (simp add: cr_canonical_def)
  have ctx: "rx_bc ?ctx = db_buf (ps_byte_code s') @ []" by (simp add: emit_example_ctx_def)
  have char: "get_char ?ctx 0 (clen ?ctx) = Some (0x35, 1)" by (simp add: emit_example_ctx_def get_char_def Let_def)
  have canon_c: "0x35 = canon_if ?ctx (ps_ignore_case emit_example) 0x35"
    by (simp add: canon_if_def emit_example_def)
  have "re_fetch ?ctx (bc_size emit_example) 0 [] =
      Some (act (if cr_mem ?pts 0x35 then Jump False (bc_size s') 1 else No_match))"
    by (rule emitted_range_accepts_set [OF emit wf ok canon ctx char _ canon_c]) simp_all
  moreover have "cr_mem ?pts 0x35" by (simp add: cr_mem_def)
  moreover have "bc_size emit_example = 0" by (simp add: emit_example_def dbuf_init2_def)
  ultimately show ?thesis using emit by (intro exI [of _ s']) simp
qed
end
