(* ===== verification/RegexpStructure.thy ===== *)
theory RegexpStructure
  imports RegexpSafety RegexpEmit
begin

text \<open>
  The structure of compiled code. What the pattern compiler emits is always the encoding of
  a tree of nested constructs, first with every register operand 0, then, after
  \<open>compute_register_count\<close>, with the register that the nesting gives. This theory defines the
  trees and both encodings, follows the register pass over the first, and shows that the
  second is well typed in the sense of theory \<open>RegexpSafety\<close>.
\<close>

subsection \<open>Trees and their encodings\<close>

text \<open>
  \<open>Instr\<close> is an instruction that goes on to the next one. In the others \<open>g\<close> is greedy.
  \<open>Jumpover\<close> is an optional part, \<open>Guard\<close> a part that must advance, \<open>Star\<close> and \<open>Plus\<close> the
  loops without a counter, \<open>Loop\<close>, \<open>Loop_split\<close> and \<open>Loop_adv\<close> the loops with one.
\<close>

datatype rcode =
    Skip
  | Instr reop "u8 list"
  | Seq rcode rcode
  | Alt rcode rcode
  | Jumpover bool rcode
  | Guard rcode
  | Star bool rcode
  | Plus bool rcode
  | Loop u32 rcode
  | Loop_split bool u32 u32 rcode
  | Loop_adv bool u32 u32 rcode
  | Look bool rcode

definition ins :: "reop \<Rightarrow> u8 list \<Rightarrow> u8 list" where
  "ins op bs = reop_code op # bs"

fun rlen :: "rcode \<Rightarrow> nat" where
  "rlen Skip = 0"
| "rlen (Instr op bs) = 1 + length bs"
| "rlen (Seq a b) = rlen a + rlen b"
| "rlen (Alt a b) = rlen a + rlen b + 10"
| "rlen (Jumpover g a) = rlen a + 5"
| "rlen (Guard a) = rlen a + 4"
| "rlen (Star g a) = rlen a + 10"
| "rlen (Plus g a) = rlen a + 5"
| "rlen (Loop v a) = rlen a + 12"
| "rlen (Loop_split g v w a) = rlen a + 16"
| "rlen (Loop_adv g v w a) = rlen a + 18"
| "rlen (Look neg a) = rlen a + 6"

definition first_if :: "bool \<Rightarrow> reop \<Rightarrow> reop \<Rightarrow> reop" where
  "first_if b x y = (if b then x else y)"

abbreviation (input) "split_reop next_first \<equiv> first_if next_first REOP_split_next_first REOP_split_goto_first"
abbreviation (input) "loop_reop g \<equiv> first_if g REOP_loop_split_goto_first REOP_loop_split_next_first"
abbreviation (input) "adv_reop g \<equiv>
  first_if g REOP_loop_check_adv_split_goto_first REOP_loop_check_adv_split_next_first"
abbreviation (input) "look_reop neg \<equiv> first_if neg REOP_negative_lookahead REOP_lookahead"
abbreviation (input) "match_reop neg \<equiv> first_if neg REOP_negative_lookahead_match REOP_lookahead_match"

text \<open>\<open>n\<close>: the registers are numbered, \<open>d\<close> is the number of those in use.\<close>

definition reg :: "bool \<Rightarrow> nat \<Rightarrow> u8" where
  "reg n d = (if n then of_nat d else 0)"

fun tree_code :: "bool \<Rightarrow> nat \<Rightarrow> rcode \<Rightarrow> u8 list" where
  "tree_code n d Skip = []"
| "tree_code n d (Instr op bs) = ins op bs"
| "tree_code n d (Seq a b) = tree_code n d a @ tree_code n d b"
| "tree_code n d (Alt a b) =
     ins REOP_split_next_first (bytes_u32 (of_nat (rlen a + 5))) @ tree_code n d a
     @ ins REOP_goto (bytes_u32 (of_nat (rlen b))) @ tree_code n d b"
| "tree_code n d (Jumpover g a) = ins (split_reop g) (bytes_u32 (of_nat (rlen a))) @ tree_code n d a"
| "tree_code n d (Guard a) =
     ins REOP_set_char_pos [reg n d] @ tree_code n (d + 1) a @ ins REOP_check_advance [reg n d]"
| "tree_code n d (Star g a) =
     ins (split_reop g) (bytes_u32 (of_nat (rlen a + 5))) @ tree_code n d a
     @ ins REOP_goto (bytes_u32 (- of_nat (rlen a + 10)))"
| "tree_code n d (Plus g a) = tree_code n d a @ ins (split_reop (\<not> g)) (bytes_u32 (- of_nat (rlen a + 5)))"
| "tree_code n d (Loop v a) =
     ins REOP_set_i32 (reg n d # bytes_u32 v) @ tree_code n (d + 1) a
     @ ins REOP_loop (reg n d # bytes_u32 (- of_nat (rlen a + 6)))"
| "tree_code n d (Loop_split g v w a) =
     ins REOP_set_i32 (reg n d # bytes_u32 v) @ tree_code n (d + 1) a
     @ ins (loop_reop g) (reg n d # bytes_u32 w @ bytes_u32 (- of_nat (rlen a + 10)))"
| "tree_code n d (Loop_adv g v w a) =
     ins REOP_set_i32 (reg n d # bytes_u32 v) @ ins REOP_set_char_pos [reg n (d + 1)]
     @ tree_code n (d + 2) a
     @ ins (adv_reop g) (reg n d # bytes_u32 w @ bytes_u32 (- of_nat (rlen a + 12)))"
| "tree_code n d (Look neg a) =
     ins (look_reop neg) (bytes_u32 (of_nat (rlen a + 1))) @ tree_code n d a @ ins (match_reop neg) []"

lemma length_bytes_u32 [simp]: "length (bytes_u32 v) = 4"
  by (simp add: bytes_u32_def)

lemma length_ins [simp]: "length (ins op bs) = Suc (length bs)"
  by (simp add: ins_def)

lemma length_tree_code [simp]: "length (tree_code n d c) = rlen c"
  by (induction c arbitrary: d) simp_all

lemma tree_code_unnumbered: "tree_code False d c = tree_code False d' c"
  by (induction c arbitrary: d d') (simp only: tree_code.simps reg_def if_False; metis)+

text \<open>Instructions that fall through, and how many registers a tree needs.\<close>

definition falls_through :: "reop \<Rightarrow> bool" where
  "falls_through op \<longleftrightarrow> op \<notin> {REOP_invalid, REOP_goto, REOP_split_goto_first, REOP_split_next_first,
     REOP_match, REOP_lookahead_match, REOP_negative_lookahead_match, REOP_loop,
     REOP_loop_split_goto_first, REOP_loop_split_next_first, REOP_loop_check_adv_split_goto_first,
     REOP_loop_check_adv_split_next_first, REOP_set_i32, REOP_lookahead, REOP_negative_lookahead,
     REOP_set_char_pos, REOP_check_advance}"

definition is_range_op :: "reop \<Rightarrow> bool" where
  "is_range_op op \<longleftrightarrow> op \<in> {REOP_range, REOP_range_i, REOP_range32, REOP_range32_i}"

definition instr_ok :: "reop \<Rightarrow> u8 list \<Rightarrow> bool" where
  "instr_ok op bs \<longleftrightarrow> reop_size op \<le> 1 + length bs \<and> reop_len (ins op bs) 0 op = Some (1 + length bs)"

fun rwf :: "rcode \<Rightarrow> bool" where
  "rwf Skip = True"
| "rwf (Instr op bs) = (falls_through op \<and> instr_ok op bs \<and> (is_range_op op \<longrightarrow> get_u16 (ins op bs) 1 \<noteq> 0))"
| "rwf (Seq a b) = (rwf a \<and> rwf b)"
| "rwf (Alt a b) = (rwf a \<and> rwf b)"
| "rwf (Jumpover g a) = rwf a"
| "rwf (Guard a) = rwf a"
| "rwf (Star g a) = rwf a"
| "rwf (Plus g a) = rwf a"
| "rwf (Loop v a) = rwf a"
| "rwf (Loop_split g v w a) = rwf a"
| "rwf (Loop_adv g v w a) = rwf a"
| "rwf (Look neg a) = rwf a"

fun rdepth :: "rcode \<Rightarrow> nat" where
  "rdepth Skip = 0"
| "rdepth (Instr op bs) = 0"
| "rdepth (Seq a b) = max (rdepth a) (rdepth b)"
| "rdepth (Alt a b) = max (rdepth a) (rdepth b)"
| "rdepth (Jumpover g a) = rdepth a"
| "rdepth (Guard a) = rdepth a + 1"
| "rdepth (Star g a) = rdepth a"
| "rdepth (Plus g a) = rdepth a"
| "rdepth (Loop v a) = rdepth a + 1"
| "rdepth (Loop_split g v w a) = rdepth a + 1"
| "rdepth (Loop_adv g v w a) = rdepth a + 2"
| "rdepth (Look neg a) = rdepth a"

subsection \<open>One instruction inside the code\<close>

lemma instr_ok_fixed:
  "op \<notin> {REOP_range, REOP_range_i, REOP_range32, REOP_range32_i, REOP_back_reference,
     REOP_back_reference_i, REOP_backward_back_reference, REOP_backward_back_reference_i}
   \<Longrightarrow> instr_ok op bs \<longleftrightarrow> reop_size op = 1 + length bs"
  by (cases op) (auto simp: instr_ok_def reop_len_def)

lemma bc_prefix_reads:
  "i < length xs \<Longrightarrow> bc8 (pre @ xs @ post) (length pre + i) = bc8 xs i"
  "i + 2 \<le> length xs \<Longrightarrow> bc16 (pre @ xs @ post) (length pre + i) = bc16 xs i"
  by (simp_all add: bc8_def bc16_def get_u16_def rd_def nth_append)

lemma reop_len_inside:
  assumes "instr_ok op bs"
  shows "reop_len (pre @ ins op bs @ post) (length pre) op = Some (1 + length bs)"
proof -
  have sz: "reop_size op \<le> length (ins op bs)" using assms by (simp add: instr_ok_def)
  have "reop_len (pre @ ins op bs @ post) (length pre) op = reop_len (ins op bs) 0 op"
    using sz bc_prefix_reads [of 1 "ins op bs" pre post]
    by (cases op) (simp_all add: reop_len_def Suc_le_eq)
  then show ?thesis using assms by (simp add: instr_ok_def)
qed

lemma instr_at: "(pre @ ins op bs @ post) ! length pre = reop_code op"
  by (simp add: ins_def nth_append)

lemma first_if_simps [simp]: "first_if True x y = x" "first_if False x y = y"
  by (simp_all add: first_if_def)

subsection \<open>The register pass\<close>

text \<open>
  The equations of the pass at an instruction that is a part of the code, for the three
  kinds of effect on the registers.
\<close>

lemma pass_neutral:
  assumes "instr_ok op bs" "register_effect op = 0"
  shows "register_loop (pre @ ins op bs @ post) (length pre) d m =
         register_loop (pre @ ins op bs @ post) (length pre + length (ins op bs)) d m"
proof -
  have "length pre + reop_size op \<le> length (pre @ ins op bs @ post)"
    using assms(1) by (simp add: instr_ok_def)
  then show ?thesis
    unfolding register_loop.simps [of "pre @ ins op bs @ post" "length pre"] Let_def
    using reop_len_inside [OF assms(1), of pre post] assms(2)
    by (simp add: instr_at)
qed

lemma set_operand:
  "(pre @ ins op (b # bs) @ post)[length pre + 1 := b'] = pre @ ins op (b' # bs) @ post"
  by (simp add: ins_def list_update_append)

lemma pass_push:
  assumes "instr_ok op (b # bs)" "register_effect op = 1" "m \<le> 255" "0 \<le> r"
    and "register_loop (pre @ ins op (b # bs) @ post) (length pre) d m = Some (r, bc')"
  shows "register_loop (pre @ ins op (of_nat d # bs) @ post) (length pre + length (ins op (b # bs)))
           (d + 1) (max m (d + 1)) = Some (r, bc') \<and> max m (d + 1) \<le> 255"
proof -
  have "length pre + reop_size op \<le> length (pre @ ins op (b # bs) @ post)"
    using assms(1) by (simp add: instr_ok_def)
  then have "(if d + 1 > m then
       if d + 1 > 255 then Some (-1, pre @ ins op (of_nat d # bs) @ post)
       else register_loop (pre @ ins op (of_nat d # bs) @ post) (length pre + (1 + length (b # bs))) (d + 1) (d + 1)
     else register_loop (pre @ ins op (of_nat d # bs) @ post) (length pre + (1 + length (b # bs))) (d + 1) m)
     = Some (r, bc')"
    using assms(5) reop_len_inside [OF assms(1), of pre post] assms(2)
    unfolding register_loop.simps [of "pre @ ins op (b # bs) @ post" "length pre"] Let_def
    by (simp add: instr_at set_operand set_operand [simplified] cong: if_cong)
  then show ?thesis using assms(3,4) by (auto simp: max_def split: if_splits)
qed

lemma pass_pop:
  assumes "instr_ok op (b # bs)" "register_effect op = - int k" "0 < k"
    and "register_loop (pre @ ins op (b # bs) @ post) (length pre) (d + k) m = Some (r, bc')"
  shows "register_loop (pre @ ins op (of_nat d # bs) @ post) (length pre + length (ins op (b # bs))) d m
           = Some (r, bc')"
proof -
  have "length pre + reop_size op \<le> length (pre @ ins op (b # bs) @ post)"
    using assms(1) by (simp add: instr_ok_def)
  then show ?thesis
    using assms(4) reop_len_inside [OF assms(1), of pre post] assms(2,3)
    unfolding register_loop.simps [of "pre @ ins op (b # bs) @ post" "length pre"] Let_def
    by (simp add: instr_at set_operand set_operand [simplified] nat_diff_distrib)
qed

lemma falls_through_effect: "falls_through op \<Longrightarrow> register_effect op = 0"
  by (cases op) (simp_all add: falls_through_def register_effect_def)

text \<open>
  \<open>numbers c\<close>: the pass over the code of \<open>c\<close>, started with \<open>d\<close> registers in use and a
  maximum \<open>m\<close> so far, numbers its registers and goes on behind it.
\<close>

definition passes :: "nat \<Rightarrow> nat \<Rightarrow> u8 list \<Rightarrow> u8 list \<Rightarrow> nat \<Rightarrow> nat \<Rightarrow> bool" where
  "passes d m xs ys d' m' \<longleftrightarrow> length ys = length xs \<and>
     (\<forall>pre post r bc'. register_loop (pre @ xs @ post) (length pre) d m = Some (r, bc') \<longrightarrow> 0 \<le> r \<longrightarrow> m \<le> 255 \<longrightarrow>
       register_loop (pre @ ys @ post) (length pre + length xs) d' m' = Some (r, bc') \<and> m' \<le> 255)"

lemma passes_nil: "passes d m [] [] d m"
  by (simp add: passes_def)

lemma passes_append:
  assumes "passes d m xs ys d1 m1" "passes d1 m1 xs' ys' d2 m2"
  shows "passes d m (xs @ xs') (ys @ ys') d2 m2"
  unfolding passes_def
proof (intro conjI allI impI)
  fix pre post r bc'
  assume *: "register_loop (pre @ (xs @ xs') @ post) (length pre) d m = Some (r, bc')" "0 \<le> r" "m \<le> 255"
  have len: "length ys = length xs" using assms(1) by (simp add: passes_def)
  from * assms(1) have 1: "register_loop (pre @ ys @ (xs' @ post)) (length pre + length xs) d1 m1 = Some (r, bc')" "m1 \<le> 255"
    unfolding passes_def by (metis append_assoc)+
  then have "register_loop ((pre @ ys) @ xs' @ post) (length (pre @ ys)) d1 m1 = Some (r, bc')"
    using len by simp
  with assms(2) 1(2) *(2) have "register_loop ((pre @ ys) @ ys' @ post) (length (pre @ ys) + length xs') d2 m2 = Some (r, bc')"
    "m2 \<le> 255"
    unfolding passes_def by blast+
  then show "register_loop (pre @ (ys @ ys') @ post) (length pre + length (xs @ xs')) d2 m2 = Some (r, bc')" "m2 \<le> 255"
    using len by (simp_all add: add.assoc)
qed (use assms in \<open>simp add: passes_def\<close>)

lemma passes_neutral: "instr_ok op bs \<Longrightarrow> register_effect op = 0 \<Longrightarrow> passes d m (ins op bs) (ins op bs) d m"
  unfolding passes_def by (simp only: pass_neutral) blast

lemma passes_push:
  "instr_ok op (b # bs) \<Longrightarrow> register_effect op = 1 \<Longrightarrow>
     passes d m (ins op (b # bs)) (ins op (of_nat d # bs)) (d + 1) (max m (d + 1))"
  unfolding passes_def by (auto dest!: pass_push)

lemma passes_pop:
  "instr_ok op (b # bs) \<Longrightarrow> register_effect op = - int k \<Longrightarrow> 0 < k \<Longrightarrow>
     passes (d + k) m (ins op (b # bs)) (ins op (of_nat d # bs)) d m"
  unfolding passes_def by (auto dest!: pass_pop)

text \<open>The instructions with an operand and a jump, and the register instructions.\<close>

lemma instr_ok_jump [simp]:
  "instr_ok REOP_goto (bytes_u32 v)" "instr_ok (split_reop b) (bytes_u32 v)"
  "instr_ok REOP_split_next_first (bytes_u32 v)"
  "instr_ok (look_reop b) (bytes_u32 v)" "instr_ok (match_reop b) []"
  "instr_ok REOP_set_i32 (x # bytes_u32 v)" "instr_ok REOP_set_char_pos [x]"
  "instr_ok REOP_check_advance [x]" "instr_ok REOP_loop (x # bytes_u32 v)"
  "instr_ok (loop_reop b) (x # bytes_u32 w @ bytes_u32 v)"
  "instr_ok (adv_reop b) (x # bytes_u32 w @ bytes_u32 v)"
  by (cases b; simp add: instr_ok_fixed)+

lemma effect_jump [simp]:
  "register_effect REOP_goto = 0" "register_effect (split_reop b) = 0"
  "register_effect REOP_split_next_first = 0"
  "register_effect (look_reop b) = 0" "register_effect (match_reop b) = 0"
  "register_effect REOP_set_i32 = 1" "register_effect REOP_set_char_pos = 1"
  "register_effect REOP_check_advance = - int 1" "register_effect REOP_loop = - int 1"
  "register_effect (loop_reop b) = - int 1" "register_effect (adv_reop b) = - int 2"
  by (cases b; simp add: register_effect_def)+

lemma reg_simps [simp]: "reg False d = 0" "reg True d = of_nat d"
  by (simp_all add: reg_def)

lemma passes_max: "passes d m xs ys d' m1 \<Longrightarrow> m1 = m2 \<Longrightarrow> passes d m xs ys d' m2"
  by simp

lemma tree_passes:
  "rwf c \<Longrightarrow> d \<le> m \<Longrightarrow>
     passes d m (tree_code False d c) (tree_code True d c) d (max m (d + rdepth c))"
proof (induction c arbitrary: d m)
  case (Instr op bs)
  then show ?case by (auto intro: passes_neutral falls_through_effect)
next
  case (Seq a b)
  have "passes d m (tree_code False d a @ tree_code False d b) (tree_code True d a @ tree_code True d b) d
      (max (max m (d + rdepth a)) (d + rdepth b))"
    using Seq.prems by (intro passes_append [OF Seq.IH(1) Seq.IH(2)]) simp_all
  then show ?case by (simp add: max_add_distrib_right ac_simps)
next
  case (Alt a b)
  have "passes d m (tree_code False d (Alt a b)) (tree_code True d (Alt a b)) d
      (max (max m (d + rdepth a)) (d + rdepth b))"
    unfolding tree_code.simps using Alt.prems
    by (intro passes_append [OF passes_neutral passes_append [OF Alt.IH(1) passes_append [OF passes_neutral Alt.IH(2)]]])
      simp_all
  then show ?case by (simp add: max_add_distrib_right ac_simps)
next
  case (Jumpover g a)
  then show ?case unfolding tree_code.simps rdepth.simps
    by (intro passes_append [OF passes_neutral Jumpover.IH]) simp_all
next
  case (Guard a)
  have "passes d m (tree_code False d (Guard a)) (tree_code True d (Guard a)) d
      (max (max m (d + 1)) (d + 1 + rdepth a))"
    unfolding tree_code.simps reg_simps using Guard.prems
    by (intro passes_append [OF passes_push passes_append [OF Guard.IH passes_pop]]) simp_all
  then show ?case by (rule passes_max) simp
next
  case (Star g a)
  then show ?case unfolding tree_code.simps rdepth.simps
    by (intro passes_append [OF passes_neutral passes_append [OF Star.IH passes_neutral]]) simp_all
next
  case (Plus g a)
  then show ?case unfolding tree_code.simps rdepth.simps
    by (intro passes_append [OF Plus.IH passes_neutral]) simp_all
next
  case (Loop v a)
  have "passes d m (tree_code False d (Loop v a)) (tree_code True d (Loop v a)) d
      (max (max m (d + 1)) (d + 1 + rdepth a))"
    unfolding tree_code.simps reg_simps using Loop.prems
    by (intro passes_append [OF passes_push passes_append [OF Loop.IH passes_pop]]) simp_all
  then show ?case by (rule passes_max) simp
next
  case (Loop_split g v w a)
  have "passes d m (tree_code False d (Loop_split g v w a)) (tree_code True d (Loop_split g v w a)) d
      (max (max m (d + 1)) (d + 1 + rdepth a))"
    unfolding tree_code.simps reg_simps using Loop_split.prems
    by (intro passes_append [OF passes_push passes_append [OF Loop_split.IH passes_pop]]) simp_all
  then show ?case by (rule passes_max) simp
next
  case (Loop_adv g v w a)
  have "passes d m (tree_code False d (Loop_adv g v w a)) (tree_code True d (Loop_adv g v w a)) d
      (max (max (max m (d + 1)) (d + 2)) (d + 2 + rdepth a))"
    unfolding tree_code.simps reg_simps using Loop_adv.prems passes_push [of REOP_set_char_pos 0 "[]" "d + 1" "max m (d + 1)"]
    by (intro passes_append [OF passes_push passes_append [OF _ passes_append [OF Loop_adv.IH passes_pop]]])
      simp_all
  then show ?case by (rule passes_max) simp
next
  case (Look neg a)
  then show ?case unfolding tree_code.simps rdepth.simps
    by (intro passes_append [OF passes_neutral passes_append [OF Look.IH passes_neutral]]) simp_all
qed (simp add: passes_nil)

subsection \<open>The typing of a tree\<close>

text \<open>
  The tree at position \<open>P\<close>, inside the lookaheads \<open>k\<close>, with the registers \<open>g\<close> live. Every
  construct leaves the registers as it found them: its end has the type of its start.
\<close>

definition look_kind :: "bool \<Rightarrow> exec_type" where
  "look_kind neg = (if neg then EXEC_NEGATIVE_LOOKAHEAD else EXEC_LOOKAHEAD)"

fun typing :: "nat \<Rightarrow> (exec_type \<times> rty list) list \<Rightarrow> rty list \<Rightarrow> rcode \<Rightarrow> (nat \<times> ity) list" where
  "typing P k g Skip = []"
| "typing P k g (Instr op bs) = [(P, k, g)]"
| "typing P k g (Seq a b) = typing P k g a @ typing (P + rlen a) k g b"
| "typing P k g (Alt a b) =
     (P, k, g) # typing (P + 5) k g a @ (P + 5 + rlen a, k, g) # typing (P + 10 + rlen a) k g b"
| "typing P k g (Jumpover gr a) = (P, k, g) # typing (P + 5) k g a"
| "typing P k g (Guard a) =
     (P, k, g) # typing (P + 2) k (g @ [RPos]) a @ [(P + 2 + rlen a, k, g @ [RPos])]"
| "typing P k g (Star gr a) = (P, k, g) # typing (P + 5) k g a @ [(P + 5 + rlen a, k, g)]"
| "typing P k g (Plus gr a) = typing P k g a @ [(P + rlen a, k, g)]"
| "typing P k g (Loop v a) =
     (P, k, g) # typing (P + 6) k (g @ [RInt]) a @ [(P + 6 + rlen a, k, g @ [RInt])]"
| "typing P k g (Loop_split gr v w a) =
     (P, k, g) # typing (P + 6) k (g @ [RInt]) a @ [(P + 6 + rlen a, k, g @ [RInt])]"
| "typing P k g (Loop_adv gr v w a) =
     (P, k, g) # (P + 6, k, g @ [RInt]) # typing (P + 8) k (g @ [RInt, RPos]) a
       @ [(P + 8 + rlen a, k, g @ [RInt, RPos])]"
| "typing P k g (Look neg a) =
     (P, k, g) # typing (P + 5) ((look_kind neg, g) # k) g a
       @ [(P + 5 + rlen a, (look_kind neg, g) # k, g)]"

definition keys_in :: "nat \<Rightarrow> nat \<Rightarrow> (nat \<times> ity) list \<Rightarrow> bool" where
  "keys_in P Q A \<longleftrightarrow> distinct (map fst A) \<and> fst ` set A \<subseteq> {P ..< Q}"

lemma keys_in_nil: "keys_in P Q []"
  by (simp add: keys_in_def)

lemma keys_in_Cons: "keys_in P' Q A \<Longrightarrow> P < P' \<Longrightarrow> P < Q \<Longrightarrow> keys_in P Q ((P, t) # A)"
  by (auto simp: keys_in_def)

lemma keys_in_append:
  "keys_in P Q A \<Longrightarrow> keys_in P' Q' B \<Longrightarrow> Q \<le> P' \<Longrightarrow> P \<le> P' \<Longrightarrow> Q \<le> Q' \<Longrightarrow> keys_in P Q' (A @ B)"
  unfolding keys_in_def
  by (simp add: disjoint_iff image_Un) (meson atLeastLessThan_iff linorder_not_le order.trans subset_iff)

lemma keys_in_single: "P \<le> R \<Longrightarrow> R < Q \<Longrightarrow> keys_in P Q [(R, t)]"
  by (simp add: keys_in_def)

lemma keys_in_mono: "keys_in P Q A \<Longrightarrow> P' \<le> P \<Longrightarrow> Q \<le> Q' \<Longrightarrow> keys_in P' Q' A"
  unfolding keys_in_def by (auto simp: subset_iff) 

lemma keys_in_head: "keys_in (P + n) R A \<Longrightarrow> 0 < n \<Longrightarrow> R \<le> Q \<Longrightarrow> P < Q \<Longrightarrow> keys_in P Q ((P, t) # A)"
  by (fastforce simp: keys_in_def subset_iff)

lemma keys_in_tail: "keys_in P R A \<Longrightarrow> P \<le> R \<Longrightarrow> R < Q \<Longrightarrow> keys_in P Q (A @ [(R, t)])"
  by (fastforce simp: keys_in_def subset_iff)

lemma keys_in_wrap:
  "keys_in (P + n) (P + n + l) A \<Longrightarrow> 0 < n \<Longrightarrow> P + n + l < Q \<Longrightarrow> keys_in P Q ((P, t) # A @ [(P + n + l, t')])"
  by (fastforce simp: keys_in_def subset_iff)

lemma typing_keys: "keys_in P (P + rlen c) (typing P k g c)"
proof (induction c arbitrary: P k g)
  case (Seq a b)
  have "keys_in P (P + rlen a + rlen b) (typing P k g a @ typing (P + rlen a) k g b)"
    by (rule keys_in_append [OF Seq.IH(1) Seq.IH(2)]) simp_all
  then show ?case by (simp add: add.assoc)
next
  case (Alt a b)
  have "keys_in (P + 10 + rlen a) (P + rlen (Alt a b)) (typing (P + 10 + rlen a) k g b)"
    using Alt.IH(2) [of "P + 10 + rlen a" k g] by (simp add: algebra_simps)
  then have b: "keys_in (P + 5 + rlen a) (P + rlen (Alt a b)) ((P + 5 + rlen a, k, g) # typing (P + 10 + rlen a) k g b)"
    by (rule keys_in_Cons) (simp, simp)
  have "keys_in (P + 5) (P + rlen (Alt a b)) (typing (P + 5) k g a
      @ (P + 5 + rlen a, k, g) # typing (P + 10 + rlen a) k g b)"
    by (rule keys_in_append [OF Alt.IH(1) b]) (simp, simp, simp)
  then show ?case unfolding typing.simps by (rule keys_in_Cons) (simp, simp)
next
  case (Loop_adv gr v w a)
  have "keys_in (P + 8) (P + rlen (Loop_adv gr v w a))
      (typing (P + 8) k (g @ [RInt, RPos]) a @ [(P + 8 + rlen a, k, g @ [RInt, RPos])])"
    by (rule keys_in_tail [OF Loop_adv.IH]) simp_all
  then have "keys_in (P + 6) (P + rlen (Loop_adv gr v w a)) ((P + 6, k, g @ [RInt]) #
      typing (P + 8) k (g @ [RInt, RPos]) a @ [(P + 8 + rlen a, k, g @ [RInt, RPos])])"
    by (rule keys_in_Cons) simp_all
  then show ?case unfolding typing.simps by (rule keys_in_Cons) simp_all
next
  case (Jumpover gr a)
  show ?case unfolding typing.simps by (rule keys_in_head [OF Jumpover.IH]) simp_all
next
  case (Plus gr a)
  show ?case unfolding typing.simps by (rule keys_in_tail [OF Plus.IH]) simp_all
next
  case (Guard a)
  show ?case unfolding typing.simps by (rule keys_in_wrap [OF Guard.IH]) (simp, simp)
next
  case (Star gr a)
  show ?case unfolding typing.simps by (rule keys_in_wrap [OF Star.IH]) (simp, simp)
next
  case (Loop v a)
  show ?case unfolding typing.simps by (rule keys_in_wrap [OF Loop.IH]) (simp, simp)
next
  case (Loop_split gr v w a)
  show ?case unfolding typing.simps by (rule keys_in_wrap [OF Loop_split.IH]) (simp, simp)
next
  case (Look neg a)
  show ?case unfolding typing.simps by (rule keys_in_wrap [OF Look.IH]) (simp, simp)
qed (simp_all add: keys_in_nil keys_in_single)

text \<open>What a typing of the whole code says about one of its parts.\<close>

definition covers :: "(nat \<times> ity) list \<Rightarrow> (nat \<times> ity) list \<Rightarrow> bool" where
  "covers A B \<longleftrightarrow> (\<forall>(pc, ty) \<in> set B. map_of A pc = Some ty)"

lemma covers_simps [simp]:
  "covers A []" "covers A ((pc, ty) # B) \<longleftrightarrow> map_of A pc = Some ty \<and> covers A B"
  "covers A (B @ C) \<longleftrightarrow> covers A B \<and> covers A C"
  by (auto simp: covers_def)

lemma typing_entry:
  "covers A (typing P k g c) \<Longrightarrow> map_of A (P + rlen c) = Some (k, g) \<Longrightarrow> map_of A P = Some (k, g)"
  by (induction c arbitrary: P k g) (simp_all add: add.assoc)

lemma flow_prefix: "map_of A pc = Some (k, g) \<Longrightarrow> flow A k (g @ xs) pc"
  by (simp add: flow_def is_prefix_def)

subsection \<open>Operands and jumps\<close>

lemma sint_of_nat: "n < 2 ^ 31 \<Longrightarrow> sint (of_nat n :: u32) = int n"
  by (simp add: signed_of_nat signed_take_bit_int_eq_self)

lemma sint_minus_of_nat: "n < 2 ^ 31 \<Longrightarrow> sint (- of_nat n :: u32) = - int n"
  using signed_of_int [of "- int n", where ?'a = int and ?'b = 32]
  by (simp add: signed_take_bit_int_eq_self)

lemma jump_forward: "n < 2 ^ 31 \<Longrightarrow> jump_target pc (of_nat n) = Some (pc + n)"
  by (simp add: jump_target_def sint_of_nat)

lemma jump_backward: "n < 2 ^ 31 \<Longrightarrow> n \<le> pc \<Longrightarrow> jump_target pc (- of_nat n) = Some (pc - n)"
  by (simp add: jump_target_def sint_minus_of_nat)

lemma u32_operand:
  "get_u32 (pre @ ins op (xs @ bytes_u32 v @ ys) @ post) (length pre + (1 + length xs)) = v"
  using get_u32_split [of "pre @ reop_code op # xs" v "ys @ post"] by (simp add: ins_def)

lemma u8_operand: "opnd8 (pre @ ins op (b # bs) @ post) (length pre + 1) = unat b"
  by (simp add: opnd8_def ins_def nth_append)

subsection \<open>The code of a tree is well typed\<close>

definition all_wt :: "u8 list \<Rightarrow> nat \<Rightarrow> (nat \<times> ity) list \<Rightarrow> (nat \<times> ity) list \<Rightarrow> bool" where
  "all_wt bc rc A B \<longleftrightarrow> (\<forall>(pc, ty) \<in> set B. wt_at bc rc A pc ty)"

lemma all_wt_simps [simp]:
  "all_wt bc rc A []" "all_wt bc rc A ((pc, ty) # B) \<longleftrightarrow> wt_at bc rc A pc ty \<and> all_wt bc rc A B"
  "all_wt bc rc A (B @ C) \<longleftrightarrow> all_wt bc rc A B \<and> all_wt bc rc A C"
  by (auto simp: all_wt_def)

lemma wt_at_ins:
  assumes "bc = pre @ ins op bs @ post" "instr_ok op bs" "length g \<le> rc"
    and "wt_op bc rc A (length pre) (k, g) op"
  shows "wt_at bc rc A (length pre) (k, g)"
  using assms reop_len_inside [OF assms(2), of pre post]
  by (simp add: wt_at_def instr_at instr_ok_def)

lemma range_count:
  assumes "op = REOP_range \<or> op = REOP_range_i \<or> op = REOP_range32 \<or> op = REOP_range32_i" "instr_ok op bs"
  shows "get_u16 (pre @ ins op bs @ post) (length pre + 1) = get_u16 (ins op bs) 1"
    and "length bs + 1 = 3 + (if op = REOP_range \<or> op = REOP_range_i then 4 else 8) * unat (get_u16 (ins op bs) 1)"
proof -
  have sz: "3 \<le> length (ins op bs)" using assms by (auto simp: instr_ok_def)
  then show "get_u16 (pre @ ins op bs @ post) (length pre + 1) = get_u16 (ins op bs) 1"
    using bc_prefix_reads(2) [of 1 "ins op bs" pre post] by (simp add: bc16_def)
  show "length bs + 1 = 3 + (if op = REOP_range \<or> op = REOP_range_i then 4 else 8) * unat (get_u16 (ins op bs) 1)"
    using assms sz by (auto simp: instr_ok_def reop_len_def bc16_def)
qed

lemma back_reference_count:
  assumes "op = REOP_back_reference \<or> op = REOP_back_reference_i
      \<or> op = REOP_backward_back_reference \<or> op = REOP_backward_back_reference_i" "instr_ok op bs"
  shows "length bs + 1 = 2 + opnd8 (pre @ ins op bs @ post) (length pre + 1)"
proof -
  obtain b bs' where bs: "bs = b # bs'" using assms by (cases bs) (auto simp: instr_ok_def)
  have "opnd8 (pre @ ins op bs @ post) (length pre + 1) = unat b"
    unfolding bs by (rule u8_operand)
  moreover have "bc8 (ins op bs) 1 = Some b" by (simp add: bs bc8_def ins_def)
  ultimately show ?thesis using assms by (auto simp: instr_ok_def reop_len_def)
qed

lemma wt_op_falls_through:
  assumes "falls_through op" "instr_ok op bs" "is_range_op op \<longrightarrow> get_u16 (ins op bs) 1 \<noteq> 0"
    and "map_of A (length pre + (1 + length bs)) = Some (k, g)"
  shows "wt_op (pre @ ins op bs @ post) rc A (length pre) (k, g) op"
proof -
  have flow: "flow A k g (length pre + (length bs + 1))"
    using flow_exact [OF assms(4)] by (simp add: add.commute)
  have fixed: "op \<notin> {REOP_range, REOP_range_i, REOP_range32, REOP_range32_i, REOP_back_reference,
      REOP_back_reference_i, REOP_backward_back_reference, REOP_backward_back_reference_i} \<Longrightarrow>
      flow A k g (length pre + reop_size op)"
    using flow assms(2) instr_ok_fixed [of op bs] by simp
  consider (rng) "op = REOP_range \<or> op = REOP_range_i \<or> op = REOP_range32 \<or> op = REOP_range32_i"
    | (backref) "op = REOP_back_reference \<or> op = REOP_back_reference_i
        \<or> op = REOP_backward_back_reference \<or> op = REOP_backward_back_reference_i"
    | (other) "op \<notin> {REOP_range, REOP_range_i, REOP_range32, REOP_range32_i, REOP_back_reference,
      REOP_back_reference_i, REOP_backward_back_reference, REOP_backward_back_reference_i}" by blast
  then show ?thesis
  proof cases
    case rng
    have "get_u16 (ins op bs) 1 \<noteq> 0" using rng assms(3) by (simp add: is_range_op_def)
    with rng flow range_count(1) [OF rng assms(2), of pre post] range_count(2) [OF rng assms(2)] show ?thesis
      by (elim disjE) (simp_all add: numeral_3_eq_3 numeral_2_eq_2)
  next
    case backref
    from backref flow back_reference_count [OF backref assms(2), of pre post] show ?thesis
      by (elim disjE) (simp_all add: numeral_3_eq_3 numeral_2_eq_2)
  next
    case other
    with fixed assms(1) show ?thesis by (cases op) (simp_all add: falls_through_def)
  qed
qed

text \<open>The instructions with a jump or a register. \<open>Q\<close> is the position of the instruction.\<close>

lemma u32_operands [simp]:
  "get_u32 (pre @ ins op (bytes_u32 v) @ post) (Suc (length pre)) = v"
  "get_u32 (pre @ ins op (b # bytes_u32 v) @ post) (Suc (Suc (length pre))) = v"
  "get_u32 (pre @ ins op (b # bytes_u32 v) @ post) (length pre + 2) = v"
  "get_u32 (pre @ ins op (b # bytes_u32 w @ bytes_u32 v) @ post) (length pre + 6) = v"
  using u32_operand [of pre op "[]" v "[]" post] u32_operand [of pre op "[b]" v "[]" post]
    u32_operand [of pre op "b # bytes_u32 w" v "[]" post]
  by (simp_all add: numeral_eq_Suc)

lemma wt_goto:
  assumes "bc = pre @ ins REOP_goto (bytes_u32 v) @ post" "Q = length pre" "length g \<le> rc"
    and "jump_target (Q + 5) v = Some t" "map_of A t = Some (k, g)"
  shows "wt_at bc rc A Q (k, g)"
  unfolding assms(2)
  by (rule wt_at_ins [OF assms(1)]) (use assms in \<open>simp_all add: flow_rel_def flow_exact\<close>)

lemma wt_split:
  assumes "bc = pre @ ins (split_reop b) (bytes_u32 v) @ post" "Q = length pre" "length g \<le> rc"
    and "jump_target (Q + 5) v = Some t" "map_of A t = Some (k, g)" "map_of A (Q + 5) = Some (k, g)"
  shows "wt_at bc rc A Q (k, g)"
  unfolding assms(2)
  by (rule wt_at_ins [OF assms(1)]; cases b)
    (use assms in \<open>simp_all add: flow_rel_def flow_exact instr_ok_fixed\<close>)

lemma wt_look:
  assumes "bc = pre @ ins (look_reop neg) (bytes_u32 v) @ post" "Q = length pre" "length g \<le> rc"
    and "jump_target (Q + 5) v = Some t" "map_of A t = Some (k, g)"
    and "map_of A (Q + 5) = Some ((look_kind neg, g) # k, g)"
  shows "wt_at bc rc A Q (k, g)"
  unfolding assms(2)
  by (rule wt_at_ins [OF assms(1)]; cases neg)
    (use assms in \<open>simp_all add: flow_rel_def flow_exact instr_ok_fixed look_kind_def\<close>)

lemma wt_match:
  assumes "bc = pre @ ins (match_reop neg) [] @ post" "Q = length pre" "length g \<le> rc"
  shows "wt_at bc rc A Q ((look_kind neg, g) # k, g)"
  unfolding assms(2)
  by (rule wt_at_ins [OF assms(1)]; cases neg)
    (use assms in \<open>simp_all add: instr_ok_fixed look_kind_def is_prefix_refl\<close>)

lemma opnd8_reg:
  "d < 256 \<Longrightarrow> opnd8 (pre @ ins op (of_nat d # bs) @ post) (length pre + 1) = d"
  by (simp only: u8_operand) (simp add: unat_of_nat)

lemma wt_set_i32:
  assumes "bc = pre @ ins REOP_set_i32 (of_nat (length g) # bytes_u32 v) @ post" "Q = length pre"
    and "length g < rc" "rc \<le> 255" "map_of A (Q + 6) = Some (k, g @ [RInt])"
  shows "wt_at bc rc A Q (k, g)"
  unfolding assms(2)
  by (rule wt_at_ins [OF assms(1)])
    (use assms flow_exact [OF assms(5)] in \<open>simp_all add: opnd8_reg [unfolded Suc_eq_plus1 [symmetric]] opnd8_reg reg_set_def\<close>)

lemma wt_set_char_pos:
  assumes "bc = pre @ ins REOP_set_char_pos [of_nat (length g)] @ post" "Q = length pre"
    and "length g < rc" "rc \<le> 255" "map_of A (Q + 2) = Some (k, g @ [RPos])"
  shows "wt_at bc rc A Q (k, g)"
  unfolding assms(2)
  by (rule wt_at_ins [OF assms(1)])
    (use assms flow_exact [OF assms(5)] in \<open>simp_all add: opnd8_reg [unfolded Suc_eq_plus1 [symmetric]] opnd8_reg reg_set_def\<close>)

lemma wt_check_advance:
  assumes "bc = pre @ ins REOP_check_advance [of_nat (length g)] @ post" "Q = length pre"
    and "length g < rc" "rc \<le> 255" "map_of A (Q + 2) = Some (k, g)"
  shows "wt_at bc rc A Q (k, g @ [RPos])"
  unfolding assms(2)
  by (rule wt_at_ins [OF assms(1)])
    (use assms flow_prefix [OF assms(5)] in \<open>simp_all add: opnd8_reg [unfolded Suc_eq_plus1 [symmetric]] opnd8_reg reg_is_def\<close>)

lemma wt_loop:
  assumes "bc = pre @ ins REOP_loop (of_nat (length g) # bytes_u32 v) @ post" "Q = length pre"
    and "length g < rc" "rc \<le> 255" "map_of A (Q + 6) = Some (k, g)"
    and "jump_target (Q + 6) v = Some t" "map_of A t = Some (k, g @ [RInt])"
  shows "wt_at bc rc A Q (k, g @ [RInt])"
  unfolding assms(2)
  by (rule wt_at_ins [OF assms(1)])
    (use assms flow_prefix [OF assms(5)] flow_exact [OF assms(7)] in \<open>simp_all add: opnd8_reg [unfolded Suc_eq_plus1 [symmetric]] opnd8_reg
       reg_is_def flow_rel_def\<close>)

lemma wt_loop_split:
  assumes "bc = pre @ ins (loop_reop b) (of_nat (length g) # bytes_u32 w @ bytes_u32 v) @ post"
    and "Q = length pre" "length g < rc" "rc \<le> 255" "map_of A (Q + 10) = Some (k, g)"
    and "jump_target (Q + 10) v = Some t" "map_of A t = Some (k, g @ [RInt])"
  shows "wt_at bc rc A Q (k, g @ [RInt])"
  unfolding assms(2)
  by (rule wt_at_ins [OF assms(1)]; cases b)
    (use assms flow_prefix [OF assms(5)] flow_exact [OF assms(7)] in \<open>simp_all add: instr_ok_fixed opnd8_reg [unfolded Suc_eq_plus1 [symmetric]]
       opnd8_reg reg_is_def flow_rel_def\<close>)

lemma wt_loop_adv:
  assumes "bc = pre @ ins (adv_reop b) (of_nat (length g) # bytes_u32 w @ bytes_u32 v) @ post"
    and "Q = length pre" "length g + 1 < rc" "rc \<le> 255" "map_of A (Q + 10) = Some (k, g)"
    and "jump_target (Q + 10) v = Some t" "map_of A t = Some (k, g @ [RInt])"
  shows "wt_at bc rc A Q (k, g @ [RInt, RPos])"
  unfolding assms(2)
  by (rule wt_at_ins [OF assms(1)]; cases b)
    (use assms flow_prefix [OF assms(5)] flow_prefix [OF assms(7), of "[RPos]"] in
      \<open>simp_all add: instr_ok_fixed opnd8_reg [unfolded Suc_eq_plus1 [symmetric]] opnd8_reg
       reg_is_def flow_rel_def nth_append\<close>)

subsection \<open>Well-typed trees\<close>

definition code_at :: "u8 list \<Rightarrow> nat \<Rightarrow> u8 list \<Rightarrow> bool" where
  "code_at bc P xs \<longleftrightarrow> (\<exists>pre post. bc = pre @ xs @ post \<and> P = length pre)"

lemma code_atE:
  assumes "code_at bc P xs"
  obtains pre post where "bc = pre @ xs @ post" "P = length pre"
  using assms by (auto simp: code_at_def)

lemma code_at_append:
  "code_at bc P (xs @ ys) \<Longrightarrow> code_at bc P xs \<and> code_at bc (P + length xs) ys"
  unfolding code_at_def by (metis append_assoc length_append)

lemma code_at_appendE:
  assumes "code_at bc P (xs @ ys)"
  obtains "code_at bc P xs" "code_at bc (P + length xs) ys"
  using code_at_append [OF assms] by blast

text \<open>The same instructions with the distance they jump, forward or backward.\<close>

lemma wt_goto_forward:
  "code_at bc P (ins REOP_goto (bytes_u32 (of_nat n))) \<Longrightarrow> n < 2 ^ 31 \<Longrightarrow> length g \<le> rc \<Longrightarrow>
     map_of A (P + 5 + n) = Some (k, g) \<Longrightarrow> wt_at bc rc A P (k, g)"
  by (elim code_atE) (rule wt_goto [OF _ _ _ jump_forward], simp_all)

lemma wt_goto_backward:
  "code_at bc P (ins REOP_goto (bytes_u32 (- of_nat n))) \<Longrightarrow> n < 2 ^ 31 \<Longrightarrow> n \<le> P + 5 \<Longrightarrow> length g \<le> rc \<Longrightarrow>
     map_of A (P + 5 - n) = Some (k, g) \<Longrightarrow> wt_at bc rc A P (k, g)"
  by (elim code_atE) (rule wt_goto [OF _ _ _ jump_backward], simp_all)

lemma wt_split_forward:
  "code_at bc P (ins (split_reop b) (bytes_u32 (of_nat n))) \<Longrightarrow> n < 2 ^ 31 \<Longrightarrow> length g \<le> rc \<Longrightarrow>
     map_of A (P + 5 + n) = Some (k, g) \<Longrightarrow> map_of A (P + 5) = Some (k, g) \<Longrightarrow> wt_at bc rc A P (k, g)"
  by (elim code_atE) (rule wt_split [OF _ _ _ jump_forward], simp_all)

lemma wt_split_backward:
  "code_at bc P (ins (split_reop b) (bytes_u32 (- of_nat n))) \<Longrightarrow> n < 2 ^ 31 \<Longrightarrow> n \<le> P + 5 \<Longrightarrow> length g \<le> rc \<Longrightarrow>
     map_of A (P + 5 - n) = Some (k, g) \<Longrightarrow> map_of A (P + 5) = Some (k, g) \<Longrightarrow> wt_at bc rc A P (k, g)"
  by (elim code_atE) (rule wt_split [OF _ _ _ jump_backward], simp_all)

lemma wt_look_forward:
  "code_at bc P (ins (look_reop neg) (bytes_u32 (of_nat n))) \<Longrightarrow> n < 2 ^ 31 \<Longrightarrow> length g \<le> rc \<Longrightarrow>
     map_of A (P + 5 + n) = Some (k, g) \<Longrightarrow> map_of A (P + 5) = Some ((look_kind neg, g) # k, g) \<Longrightarrow>
     wt_at bc rc A P (k, g)"
  by (elim code_atE) (rule wt_look [OF _ _ _ jump_forward], simp_all)

lemma wt_loop_backward:
  "code_at bc P (ins REOP_loop (of_nat (length g) # bytes_u32 (- of_nat n))) \<Longrightarrow> n < 2 ^ 31 \<Longrightarrow>
     n \<le> P + 6 \<Longrightarrow> length g < rc \<Longrightarrow> rc \<le> 255 \<Longrightarrow>
     map_of A (P + 6 - n) = Some (k, g @ [RInt]) \<Longrightarrow> map_of A (P + 6) = Some (k, g) \<Longrightarrow>
     wt_at bc rc A P (k, g @ [RInt])"
  by (elim code_atE) (rule wt_loop [OF _ _ _ _ _ jump_backward], simp_all)

lemma wt_loop_split_backward:
  "code_at bc P (ins (loop_reop b) (of_nat (length g) # bytes_u32 w @ bytes_u32 (- of_nat n))) \<Longrightarrow> n < 2 ^ 31 \<Longrightarrow>
     n \<le> P + 10 \<Longrightarrow> length g < rc \<Longrightarrow> rc \<le> 255 \<Longrightarrow>
     map_of A (P + 10 - n) = Some (k, g @ [RInt]) \<Longrightarrow> map_of A (P + 10) = Some (k, g) \<Longrightarrow>
     wt_at bc rc A P (k, g @ [RInt])"
  by (elim code_atE) (rule wt_loop_split [OF _ _ _ _ _ jump_backward], simp_all)

lemma wt_loop_adv_backward:
  "code_at bc P (ins (adv_reop b) (of_nat (length g) # bytes_u32 w @ bytes_u32 (- of_nat n))) \<Longrightarrow> n < 2 ^ 31 \<Longrightarrow>
     n \<le> P + 10 \<Longrightarrow> length g + 1 < rc \<Longrightarrow> rc \<le> 255 \<Longrightarrow>
     map_of A (P + 10 - n) = Some (k, g @ [RInt]) \<Longrightarrow> map_of A (P + 10) = Some (k, g) \<Longrightarrow>
     wt_at bc rc A P (k, g @ [RInt, RPos])"
  by (elim code_atE) (rule wt_loop_adv [OF _ _ _ _ _ jump_backward], simp_all)

lemma wt_at_registers:
  "code_at bc P (ins REOP_set_i32 (of_nat (length g) # bytes_u32 v)) \<Longrightarrow> length g < rc \<Longrightarrow> rc \<le> 255 \<Longrightarrow>
     map_of A (P + 6) = Some (k, g @ [RInt]) \<Longrightarrow> wt_at bc rc A P (k, g)"
  "code_at bc P (ins REOP_set_char_pos [of_nat (length g)]) \<Longrightarrow> length g < rc \<Longrightarrow> rc \<le> 255 \<Longrightarrow>
     map_of A (P + 2) = Some (k, g @ [RPos]) \<Longrightarrow> wt_at bc rc A P (k, g)"
  "code_at bc P (ins REOP_check_advance [of_nat (length g)]) \<Longrightarrow> length g < rc \<Longrightarrow> rc \<le> 255 \<Longrightarrow>
     map_of A (P + 2) = Some (k, g) \<Longrightarrow> wt_at bc rc A P (k, g @ [RPos])"
  "code_at bc P (ins (match_reop neg) []) \<Longrightarrow> length g \<le> rc \<Longrightarrow> wt_at bc rc A P ((look_kind neg, g) # k, g)"
  by (elim code_atE; simp add: wt_set_i32 wt_set_char_pos wt_check_advance wt_match)+

lemma tree_typed:
  assumes "rc \<le> 255" "rwf c" "code_at bc P (tree_code True (length g) c)" "covers A (typing P k g c)"
    and "map_of A (P + rlen c) = Some (k, g)" "length g + rdepth c \<le> rc" "rlen c < 2 ^ 31"
  shows "all_wt bc rc A (typing P k g c)"
  using assms(2-)
proof (induction c arbitrary: P k g)
  case (Instr op bs)
  then obtain pre post where bc: "bc = pre @ ins op bs @ post" "P = length pre"
    by (auto elim: code_atE)
  have "wt_op bc rc A (length pre) (k, g) op"
    unfolding bc(1) using Instr.prems bc(2) by (intro wt_op_falls_through) simp_all
  then have "wt_at bc rc A (length pre) (k, g)"
    using Instr.prems by (intro wt_at_ins [OF bc(1)]) simp_all
  then show ?case by (simp add: bc(2))
next
  case (Seq a b)
  have at: "code_at bc P (tree_code True (length g) a)" "code_at bc (P + rlen a) (tree_code True (length g) b)"
    using Seq.prems(2) by (auto elim: code_at_appendE)
  have "map_of A (P + rlen a) = Some (k, g)"
    using Seq.prems by (intro typing_entry [of A "P + rlen a" k g b]) (simp_all add: add.assoc)
  with at Seq.prems show ?case by (simp add: Seq.IH add.assoc)
next
  case (Alt a b)
  have at: "code_at bc P (ins REOP_split_next_first (bytes_u32 (of_nat (rlen a + 5))))"
      "code_at bc (P + 5) (tree_code True (length g) a)"
      "code_at bc (P + 5 + rlen a) (ins REOP_goto (bytes_u32 (of_nat (rlen b))))"
      "code_at bc (P + 10 + rlen a) (tree_code True (length g) b)"
    using Alt.prems(2) by (auto elim!: code_at_appendE simp: add.assoc add.commute add.left_commute)
  have b: "map_of A (P + 10 + rlen a) = Some (k, g)"
    using Alt.prems by (intro typing_entry [of A "P + 10 + rlen a" k g b]) (simp_all add: algebra_simps)
  have a: "map_of A (P + 5) = Some (k, g)"
    using Alt.prems by (intro typing_entry [of A "P + 5" k g a]) simp_all
  have "wt_at bc rc A P (k, g)"
    by (rule wt_split_forward [where b = True and n = "rlen a + 5"])
      (use at(1) Alt.prems a b in \<open>simp_all add: algebra_simps\<close>)
  moreover have "wt_at bc rc A (P + 5 + rlen a) (k, g)"
    by (rule wt_goto_forward [OF at(3)]) (use Alt.prems in \<open>simp_all add: algebra_simps\<close>)
  ultimately show ?case using at Alt.prems b by (simp add: Alt.IH algebra_simps)
next
  case (Jumpover gr a)
  have at: "code_at bc P (ins (split_reop gr) (bytes_u32 (of_nat (rlen a))))"
      "code_at bc (P + 5) (tree_code True (length g) a)"
    using Jumpover.prems(2) by (auto elim!: code_at_appendE)
  have a: "map_of A (P + 5) = Some (k, g)"
    using Jumpover.prems by (intro typing_entry [of A "P + 5" k g a]) (simp_all add: algebra_simps)
  have "wt_at bc rc A P (k, g)"
    by (rule wt_split_forward [OF at(1)]) (use Jumpover.prems a in \<open>simp_all add: algebra_simps\<close>)
  then show ?case using at Jumpover.prems by (simp add: Jumpover.IH algebra_simps)
next
  case (Guard a)
  have at: "code_at bc P (ins REOP_set_char_pos [of_nat (length g)])"
      "code_at bc (P + 2) (tree_code True (length g + 1) a)"
      "code_at bc (P + 2 + rlen a) (ins REOP_check_advance [of_nat (length g)])"
    using Guard.prems(2) by (auto elim!: code_at_appendE simp: add.assoc add.commute add.left_commute)
  have "P + 2 + rlen a + 2 = P + rlen (Guard a)" by simp
  with Guard.prems(4) have behind: "map_of A (P + 2 + rlen a + 2) = Some (k, g)" by metis
  have a: "map_of A (P + 2) = Some (k, g @ [RPos])"
    using Guard.prems by (intro typing_entry [of A "P + 2" k _ a]) simp_all
  have "wt_at bc rc A P (k, g)"
    by (rule wt_at_registers(2) [OF at(1)]) (use Guard.prems assms(1) a in simp_all)
  moreover have "wt_at bc rc A (P + 2 + rlen a) (k, g @ [RPos])"
    by (rule wt_at_registers(3) [OF at(3)]) (use Guard.prems assms(1) behind in simp_all)
  ultimately show ?case using at Guard.prems by (simp add: Guard.IH algebra_simps)
next
  case (Star gr a)
  have at: "code_at bc P (ins (split_reop gr) (bytes_u32 (of_nat (rlen a + 5))))"
      "code_at bc (P + 5) (tree_code True (length g) a)"
      "code_at bc (P + 5 + rlen a) (ins REOP_goto (bytes_u32 (- of_nat (rlen a + 10))))"
    using Star.prems(2) by (auto elim!: code_at_appendE simp: add.assoc add.commute add.left_commute)
  have a: "map_of A (P + 5) = Some (k, g)"
    using Star.prems by (intro typing_entry [of A "P + 5" k g a]) simp_all
  have "wt_at bc rc A P (k, g)"
    by (rule wt_split_forward [OF at(1)]) (use Star.prems a in \<open>simp_all add: algebra_simps\<close>)
  moreover have "wt_at bc rc A (P + 5 + rlen a) (k, g)"
    by (rule wt_goto_backward [OF at(3)]) (use Star.prems in \<open>simp_all add: algebra_simps\<close>)
  ultimately show ?case using at Star.prems by (simp add: Star.IH algebra_simps)
next
  case (Plus gr a)
  have at: "code_at bc P (tree_code True (length g) a)"
      "code_at bc (P + rlen a) (ins (split_reop (\<not> gr)) (bytes_u32 (- of_nat (rlen a + 5))))"
    using Plus.prems(2) by (auto elim!: code_at_appendE)
  have a: "map_of A P = Some (k, g)"
    using Plus.prems by (intro typing_entry [of A P k g a]) simp_all
  have "wt_at bc rc A (P + rlen a) (k, g)"
    by (rule wt_split_backward [OF at(2)]) (use Plus.prems a in \<open>simp_all add: algebra_simps\<close>)
  then show ?case using at Plus.prems by (simp add: Plus.IH)
next
  case (Loop v a)
  have at: "code_at bc P (ins REOP_set_i32 (of_nat (length g) # bytes_u32 v))"
      "code_at bc (P + 6) (tree_code True (length g + 1) a)"
      "code_at bc (P + 6 + rlen a) (ins REOP_loop (of_nat (length g) # bytes_u32 (- of_nat (rlen a + 6))))"
    using Loop.prems(2) by (auto elim!: code_at_appendE simp: add.assoc add.commute add.left_commute)
  have a: "map_of A (P + 6) = Some (k, g @ [RInt])"
    using Loop.prems by (intro typing_entry [of A "P + 6" k _ a]) simp_all
  have "wt_at bc rc A P (k, g)"
    by (rule wt_at_registers(1) [OF at(1)]) (use Loop.prems assms(1) a in simp_all)
  moreover have "wt_at bc rc A (P + 6 + rlen a) (k, g @ [RInt])"
    by (rule wt_loop_backward [OF at(3)]) (use Loop.prems assms(1) a in \<open>simp_all add: algebra_simps\<close>)
  ultimately show ?case using at Loop.prems by (simp add: Loop.IH algebra_simps)
next
  case (Loop_split gr v w a)
  have at: "code_at bc P (ins REOP_set_i32 (of_nat (length g) # bytes_u32 v))"
      "code_at bc (P + 6) (tree_code True (length g + 1) a)"
      "code_at bc (P + 6 + rlen a)
         (ins (loop_reop gr) (of_nat (length g) # bytes_u32 w @ bytes_u32 (- of_nat (rlen a + 10))))"
    using Loop_split.prems(2) by (auto elim!: code_at_appendE simp: add.assoc add.commute add.left_commute)
  have a: "map_of A (P + 6) = Some (k, g @ [RInt])"
    using Loop_split.prems by (intro typing_entry [of A "P + 6" k _ a]) simp_all
  have "wt_at bc rc A P (k, g)"
    by (rule wt_at_registers(1) [OF at(1)]) (use Loop_split.prems assms(1) a in simp_all)
  moreover have "wt_at bc rc A (P + 6 + rlen a) (k, g @ [RInt])"
    by (rule wt_loop_split_backward [OF at(3)]) (use Loop_split.prems assms(1) a in \<open>simp_all add: algebra_simps\<close>)
  ultimately show ?case using at Loop_split.prems by (simp add: Loop_split.IH algebra_simps)
next
  case (Loop_adv gr v w a)
  have at: "code_at bc P (ins REOP_set_i32 (of_nat (length g) # bytes_u32 v))"
      "code_at bc (P + 6) (ins REOP_set_char_pos [of_nat (length (g @ [RInt]))])"
      "code_at bc (P + 8) (tree_code True (length g + 2) a)"
      "code_at bc (P + 8 + rlen a)
         (ins (adv_reop gr) (of_nat (length g) # bytes_u32 w @ bytes_u32 (- of_nat (rlen a + 12))))"
    using Loop_adv.prems(2) by (auto elim!: code_at_appendE simp: add.assoc add.commute add.left_commute)
  have a: "map_of A (P + 8) = Some (k, g @ [RInt, RPos])" "map_of A (P + 6) = Some (k, g @ [RInt])"
    using Loop_adv.prems by (intro typing_entry [of A "P + 8" k _ a], simp_all)
  have "wt_at bc rc A P (k, g)"
    by (rule wt_at_registers(1) [OF at(1)]) (use Loop_adv.prems assms(1) a in simp_all)
  moreover have "wt_at bc rc A (P + 6) (k, g @ [RInt])"
    by (rule wt_at_registers(2) [OF at(2)]) (use Loop_adv.prems assms(1) a in \<open>simp_all add: algebra_simps\<close>)
  moreover have "wt_at bc rc A (P + 8 + rlen a) (k, g @ [RInt, RPos])"
    by (rule wt_loop_adv_backward [OF at(4)]) (use Loop_adv.prems assms(1) a in \<open>simp_all add: algebra_simps\<close>)
  ultimately show ?case using at Loop_adv.prems by (simp add: Loop_adv.IH algebra_simps)
next
  case (Look neg a)
  have at: "code_at bc P (ins (look_reop neg) (bytes_u32 (of_nat (rlen a + 1))))"
      "code_at bc (P + 5) (tree_code True (length g) a)"
      "code_at bc (P + 5 + rlen a) (ins (match_reop neg) [])"
    using Look.prems(2) by (auto elim!: code_at_appendE simp: add.assoc add.commute add.left_commute)
  have a: "map_of A (P + 5) = Some ((look_kind neg, g) # k, g)"
    using Look.prems by (intro typing_entry [of A "P + 5" _ _ a]) simp_all
  have "wt_at bc rc A P (k, g)"
    by (rule wt_look_forward [OF at(1)]) (use Look.prems a in \<open>simp_all add: algebra_simps\<close>)
  moreover have "wt_at bc rc A (P + 5 + rlen a) ((look_kind neg, g) # k, g)"
    by (rule wt_at_registers(4) [OF at(3)]) (use Look.prems in simp)
  ultimately show ?case using at Look.prems by (simp add: Look.IH algebra_simps)
qed simp

end
