(* ===== verification/UnicodeTables.thy ===== *)
theory UnicodeTables
  imports Prelude
begin

text \<open>
  The generated tables of \<open>libregexp/libunicode-table.h\<close> that the Unicode properties read,
  byte for byte: the run-length tables of the binary properties with their indexes, of the
  general categories, scripts and script extensions, the emoji sequences, and the name
  tables (an entry of a name table is one zero-terminated string, the aliases separated by
  commas). They are never unfolded by default.
\<close>

subsection \<open>Binary properties\<close>

definition unicode_prop_Hyphen_table :: "u8 list" where
  "unicode_prop_Hyphen_table =
    [0xac, 0x80, 0xfe, 0x80, 0x44, 0xdb, 0x80, 0x52, 0x7a, 0x80, 0x48, 8,
    0x81, 0x4e, 4, 0x80, 0x42, 0xe2, 0x80, 0x60, 0xcd, 0x66, 0x80, 0x40,
    0xa8, 0x80, 0xd6, 0x80]"

definition unicode_prop_Other_Math_table_0 :: "u8 list" where
  "unicode_prop_Other_Math_table_0 =
    [0xdd, 0x80, 0x43, 0x70, 0x11, 0x80, 0x99, 9, 0x81, 0x5c, 0x1f, 0x80,
    0x9a, 0x82, 0x8a, 0x80, 0x9f, 0x83, 0x97, 0x81, 0x8d, 0x81, 0xc0, 0x8c,
    0x18, 0x11, 0x1c, 0x91, 3, 1, 0x89, 0, 0x14, 0x28, 0x11, 9,
    2, 5, 0x13, 0x24, 0xca, 0x21, 0x18, 8, 8, 0, 0x21, 0xb,
    0xb, 0x91, 9, 0, 6, 0, 0x29, 0x41, 0x21, 0x83, 0x40, 0xa7,
    8, 0x80, 0x97, 0x80, 0x90, 0x80, 0x41, 0xbc, 0x81, 0x8b, 0x88, 0x24,
    0x21, 9, 0x14, 0x8d, 0, 1, 0x85, 0x97, 0x81, 0xb8, 0, 0x80,
    0x9c, 0x83, 0x88, 0x81, 0x41, 0x55, 0x81, 0x9e, 0x89, 0x41, 0x92, 0x95,
    0xbe, 0x83, 0x9f, 0x81, 0x60, 0xd4, 0x62, 0, 3, 0x80, 0x40, 0xd2,
    0, 0x80, 0x60, 0xd4, 0xc0, 0xd4, 0x80, 0xc6, 1, 8, 9, 0xb,
    0x80, 0x8b, 0, 6, 0x80, 0xc0, 3, 0xf]"

definition unicode_prop_Other_Math_table_1 :: "u8 list" where
  "unicode_prop_Other_Math_table_1 =
    [6, 0x80, 0x9b, 3, 4, 0, 0x16, 0x80, 0x41, 0x53, 0x81, 0x98,
    0x80, 0x98, 0x80, 0x9e, 0x80, 0x98, 0x80, 0x9e, 0x80, 0x98, 0x80, 0x9e,
    0x80, 0x98, 0x80, 0x9e, 0x80, 0x98, 7, 0x81, 0xb1, 0x55, 0xff, 0x18,
    0x9a, 1, 0, 8, 0x80, 0x89, 3, 0, 0, 0x28, 0x18, 0,
    0, 2, 1, 0, 8, 0, 0, 0, 0, 1, 0, 0xb,
    6, 3, 3, 0, 0x80, 0x89, 0x80, 0x90, 0x22, 4, 0x80, 0x90]"

definition unicode_prop_Other_Math_table :: "u8 list" where
  "unicode_prop_Other_Math_table =
     unicode_prop_Other_Math_table_0 @ unicode_prop_Other_Math_table_1"

definition unicode_prop_Other_Alphabetic_table_0 :: "u8 list" where
  "unicode_prop_Other_Alphabetic_table_0 =
    [0x43, 0x44, 0x80, 0x9c, 0x8c, 0x42, 0x3f, 0x8d, 0, 1, 1, 0,
    0xc7, 0x8a, 0xaf, 0x8c, 6, 0x8f, 0x80, 0xe4, 0x33, 0x19, 0xb, 0x80,
    0xa2, 0x80, 0x9d, 0x8f, 0xe5, 0x8a, 0xe4, 0xa, 0x88, 2, 3, 0xe9,
    0x80, 0xbb, 0x8b, 0x16, 0x85, 0x93, 0xb5, 9, 0x8e, 1, 0x22, 0x89,
    0x81, 0x9c, 0x82, 0xb9, 0x31, 9, 0x81, 0x89, 0x80, 0x89, 0x81, 0x9c,
    0x82, 0xb9, 0x23, 9, 0xb, 0x80, 0x9d, 0xa, 0x80, 0x8a, 0x82, 0xb9,
    0x38, 0x10, 0x81, 0x94, 0x81, 0x95, 0x13, 0x82, 0xb9, 0x31, 9, 0x81,
    0x88, 0x81, 0x89, 0x81, 0x9d, 0x80, 0xba, 0x22, 0x10, 0x82, 0x89, 0x80,
    0xa7, 0x84, 0xb8, 0x30, 0x10, 0x17, 0x81, 0x8a, 0x81, 0x9c, 0x82, 0xb9,
    0x30, 0x10, 0x17, 0x81, 0x8a, 0x81, 0x8e, 0x80, 0x8b, 0x83, 0xb9, 0x30,
    0x10, 0x82, 0x89, 0x80, 0x89, 0x81, 0x9c, 0x82]"

definition unicode_prop_Other_Alphabetic_table_1 :: "u8 list" where
  "unicode_prop_Other_Alphabetic_table_1 =
    [0xca, 0x28, 0, 0x87, 0x91, 0x81, 0xbc, 1, 0x86, 0x91, 0x80, 0xe2,
    1, 0x28, 0x81, 0x8f, 0x80, 0x40, 0xa2, 0x92, 0x88, 0x8a, 0x80, 0xa3,
    0xed, 0x8b, 0, 0xb, 0x96, 0x1b, 0x10, 0x11, 0x32, 0x83, 0x8c, 0x8b,
    0, 0x89, 0x83, 0x46, 0x73, 0x81, 0x9d, 0x81, 0x9d, 0x81, 0x9d, 0x81,
    0xc1, 0x92, 0x40, 0xbb, 0x81, 0xa1, 0x80, 0xf5, 0x8b, 0x83, 0x88, 0x40,
    0xdd, 0x84, 0xb8, 0x89, 0x81, 0x93, 0xc9, 0x81, 0x8a, 0x82, 0xb0, 0x84,
    0xaf, 0x8e, 0xbb, 0x82, 0x9d, 0x88, 9, 0xb8, 0x8a, 0xb1, 0x92, 0x41,
    0x9b, 0xa1, 0x46, 0xc0, 0xb3, 0x48, 0xf5, 0x9f, 0x60, 0x78, 0x73, 0x87,
    0xa1, 0x81, 0x41, 0x61, 7, 0x80, 0x96, 0x84, 0xd7, 0x81, 0xb1, 0x8f,
    0, 0xb8, 0x80, 0xa5, 0x84, 0x9b, 0x8b, 0xac, 0x83, 0xaf, 0x8b, 0xa4,
    0x80, 0xc2, 0x8d, 0x8b, 7, 0x81, 0xac, 0x82]"

definition unicode_prop_Other_Alphabetic_table_2 :: "u8 list" where
  "unicode_prop_Other_Alphabetic_table_2 =
    [0xb1, 0, 0x11, 0xc, 0x80, 0xab, 0x24, 0x80, 0x40, 0xec, 0x87, 0x60,
    0x4f, 0x32, 0x80, 0x48, 0x56, 0x84, 0x46, 0x85, 0x10, 0xc, 0x83, 0x43,
    0x13, 0x83, 0xc0, 0x80, 0x41, 0x40, 0x81, 0xcc, 0x82, 0x41, 2, 0x82,
    0xb4, 0x8d, 0xac, 0x81, 0x8a, 0x82, 0xac, 0x88, 0x88, 0x80, 0xbc, 0x82,
    0xa3, 0x8b, 0x91, 0x81, 0xb8, 0x82, 0xaf, 0x8c, 0x8d, 0x81, 0xdb, 0x88,
    8, 0x28, 8, 0x40, 0x9c, 0x89, 0x96, 0x83, 0xb9, 0x31, 9, 0x81,
    0x89, 0x80, 0x89, 0x81, 0xd3, 0x88, 0, 8, 3, 1, 0xe6, 0x8c,
    2, 0xe9, 0x91, 0x40, 0xec, 0x31, 0x86, 0x9c, 0x81, 0xd1, 0x8e, 0,
    0xe9, 0x8a, 0xe6, 0x8d, 0x41, 0, 0x8c, 0x40, 0xf6, 0x28, 9, 0xa,
    0, 0x80, 0x40, 0x8d, 0x31, 0x2b, 0x80, 0x9b, 0x89, 0xa9, 0x20, 0x83,
    0x91, 0x8a, 0xad, 0x8d, 0x40, 0xc7, 0x87, 0x40]"

definition unicode_prop_Other_Alphabetic_table_3 :: "u8 list" where
  "unicode_prop_Other_Alphabetic_table_3 =
    [0xc6, 0x38, 0x86, 0xd2, 0x95, 0x80, 0x8d, 0xf9, 0x2a, 0, 8, 0x10,
    2, 0x80, 0xc1, 0x20, 8, 0x83, 0x41, 0x5b, 0x83, 0x88, 8, 0x80,
    0xaf, 0x32, 0x82, 0x60, 0x41, 0xdc, 0x90, 0x4e, 0x1f, 0, 0xb6, 0x33,
    0xdc, 0x81, 0x60, 0x4c, 0xab, 0x80, 0x60, 0x23, 0x60, 0x30, 0x90, 0xe,
    1, 4, 0xe3, 0x80, 0x46, 0x52, 1, 6, 0xc, 0x80, 0x42, 0x50,
    0x80, 0x47, 0xe7, 0x99, 0x85, 0x99, 0x85, 0x99]"

definition unicode_prop_Other_Alphabetic_table :: "u8 list" where
  "unicode_prop_Other_Alphabetic_table =
     unicode_prop_Other_Alphabetic_table_0 @ unicode_prop_Other_Alphabetic_table_1 @ unicode_prop_Other_Alphabetic_table_2 @
     unicode_prop_Other_Alphabetic_table_3"

definition unicode_prop_Other_Lowercase_table :: "u8 list" where
  "unicode_prop_Other_Lowercase_table =
    [0x40, 0xa9, 0x80, 0x8e, 0x80, 0x41, 0xf4, 0x88, 0x31, 0x9d, 0x84, 0xdf,
    0x80, 0xb3, 0x80, 0x4d, 0x80, 0x80, 0x4c, 0x2e, 0xbe, 0x8c, 0x80, 0xa1,
    0xa4, 0x42, 0xb0, 0x80, 0x8c, 0x80, 0x8f, 0x8c, 0x40, 0xd2, 0x8f, 0x43,
    0x4f, 0x99, 0x47, 0x91, 0x81, 0x60, 0x7a, 0x1d, 0x81, 0x40, 0xd1, 0x80,
    0xff, 0x1a, 0x81, 0x43, 0x61, 0x83, 0x88, 0x80, 0x60, 0x5c, 0x15, 1,
    0x10, 0xa9, 0x80, 0x88, 0x60, 0xd8, 0x74, 0xbd]"

definition unicode_prop_Other_Uppercase_table :: "u8 list" where
  "unicode_prop_Other_Uppercase_table =
    [0x60, 0x21, 0x5f, 0x8f, 0x43, 0x45, 0x99, 0x61, 0xcc, 0x5f, 0x99, 0x85,
    0x99, 0x85, 0x99]"

definition unicode_prop_Other_Grapheme_Extend_table :: "u8 list" where
  "unicode_prop_Other_Grapheme_Extend_table =
    [0x49, 0xbd, 0x80, 0x97, 0x80, 0x41, 0x65, 0x80, 0x97, 0x80, 0xe5, 0x80,
    0x97, 0x80, 0x40, 0xe7, 0, 3, 8, 0x81, 0x88, 0x81, 0xe6, 0x80,
    0x97, 0x80, 0xf6, 0x80, 0x8e, 0x80, 0x49, 0x34, 0x80, 0x9d, 0x80, 0x43,
    0xff, 4, 0, 4, 0x81, 0xe4, 0x80, 0xc6, 0x81, 0x44, 0x17, 0x80,
    0x50, 0x20, 0x81, 0x60, 0x79, 0x22, 0x80, 0xeb, 0x80, 0x60, 0x55, 0xdc,
    0x81, 0x52, 0x1f, 0x80, 0xf3, 0x80, 0x41, 7, 0x80, 0x8d, 0x80, 0x88,
    0x80, 0xdf, 0x80, 0x88, 1, 0, 0x14, 0x80, 0x40, 0xdf, 0x80, 0x8b,
    0x80, 0x40, 0xf0, 0x80, 0x41, 5, 0x80, 0x42, 0x78, 0x80, 0x8b, 0x80,
    0x46, 2, 0x80, 0x60, 0x50, 0xad, 0x81, 0x60, 0x61, 0x72, 0xd, 0x85,
    0x6c, 0x2e, 0xac, 0xdf]"

definition unicode_prop_Other_Default_Ignorable_Code_Point_table :: "u8 list" where
  "unicode_prop_Other_Default_Ignorable_Code_Point_table =
    [0x43, 0x4e, 0x80, 0x4e, 0xe, 0x81, 0x46, 0x52, 0x81, 0x48, 0xae, 0x80,
    0x50, 0xfd, 0x80, 0x60, 0xce, 0x3a, 0x80, 0xce, 0x88, 0x6d, 0, 6,
    0, 0x9d, 0xdf, 0xff, 0x40, 0xef, 0x4e, 0xf]"

definition unicode_prop_Other_ID_Start_table :: "u8 list" where
  "unicode_prop_Other_ID_Start_table =
    [0x58, 0x84, 0x81, 0x48, 0x90, 0x80, 0x94, 0x80, 0x4f, 0x6b, 0x81]"

definition unicode_prop_Other_ID_Continue_table :: "u8 list" where
  "unicode_prop_Other_ID_Continue_table =
    [0x40, 0xb6, 0x80, 0x42, 0xce, 0x80, 0x4f, 0xe0, 0x88, 0x46, 0x67, 0x80,
    0x46, 0x30, 0x81, 0x50, 0xec, 0x80, 0x60, 0xce, 0x68, 0x80]"

definition unicode_prop_Prepended_Concatenation_Mark_table :: "u8 list" where
  "unicode_prop_Prepended_Concatenation_Mark_table =
    [0x45, 0xff, 0x85, 0x40, 0xd6, 0x80, 0xb0, 0x80, 0x41, 0x7f, 0x81, 0xcf,
    0x80, 0x61, 7, 0xd9, 0x80, 0x8e, 0x80]"

definition unicode_prop_ID_Continue1_table_0 :: "u8 list" where
  "unicode_prop_ID_Continue1_table_0 =
    [0xaf, 0x89, 0xa4, 0x80, 0xd6, 0x80, 0x42, 0x47, 0xef, 0x96, 0x80, 0x40,
    0xfa, 0x84, 0x41, 8, 0xac, 0, 1, 1, 0, 0xc7, 0x8a, 0xaf,
    0x9e, 0x28, 0xe4, 0x31, 0x29, 8, 0x19, 0x89, 0x96, 0x80, 0x9d, 0x9a,
    0xda, 0x8a, 0x8e, 0x89, 0xa0, 0x88, 0x88, 0x80, 0x97, 0x18, 0x88, 2,
    4, 0xaa, 0x82, 0xba, 0x88, 0xa9, 0x97, 0x80, 0xa0, 0xb5, 0x10, 0x91,
    6, 0x89, 9, 0x89, 0x90, 0x82, 0xb7, 0, 0x31, 9, 0x82, 0x88,
    0x80, 0x89, 9, 0x89, 0x8d, 1, 0x82, 0xb7, 0, 0x23, 9, 0x12,
    0x80, 0x93, 0x8b, 0x10, 0x8a, 0x82, 0xb7, 0, 0x38, 0x10, 0x82, 0x93,
    9, 0x89, 0x89, 0x28, 0x82, 0xb7, 0, 0x31, 9, 0x16, 0x82, 0x89,
    9, 0x89, 0x91, 0x80, 0xba, 0x22, 0x10, 0x83, 0x88, 0x80, 0x8d, 0x89,
    0x8f, 0x84, 0xb6, 0, 0x30, 0x10, 0x1e, 0x81]"

definition unicode_prop_ID_Continue1_table_1 :: "u8 list" where
  "unicode_prop_ID_Continue1_table_1 =
    [0x8a, 9, 0x89, 0x90, 0x82, 0xb7, 0, 0x30, 0x10, 0x1e, 0x81, 0x8a,
    9, 0x89, 0x10, 0x8b, 0x83, 0xb6, 8, 0x30, 0x10, 0x83, 0x88, 0x80,
    0x89, 9, 0x89, 0x90, 0x82, 0xc5, 3, 0x28, 0, 0x3d, 0x89, 9,
    0xbc, 1, 0x86, 0x8b, 0x38, 0x89, 0xd6, 1, 0x88, 0x8a, 0x30, 0x89,
    0xbd, 0xd, 0x89, 0x8a, 0, 0, 3, 0x81, 0xb0, 0x93, 1, 0x84,
    0x8a, 0x80, 0xa3, 0x88, 0x80, 0xe3, 0x93, 0x80, 0x89, 0x8b, 0x1b, 0x10,
    0x11, 0x32, 0x83, 0x8c, 0x8b, 0x80, 0x8e, 0x42, 0xbe, 0x82, 0x88, 0x88,
    0x43, 0x9f, 0x83, 0x9b, 0x82, 0x9c, 0x81, 0x9d, 0x81, 0xbf, 0x9f, 0x88,
    1, 0x89, 0xa0, 0x10, 0x8a, 0x40, 0x8e, 0x80, 0xf5, 0x8b, 0x83, 0x8b,
    0x89, 0x89, 0xff, 0x8a, 0xbb, 0x84, 0xb8, 0x89, 0x80, 0x9c, 0x81, 0x8a,
    0x85, 0x89, 0x95, 0x8d, 0x80, 0x9e, 0x81, 0x8b]"

definition unicode_prop_ID_Continue1_table_2 :: "u8 list" where
  "unicode_prop_ID_Continue1_table_2 =
    [0x93, 0x84, 0xae, 0x90, 0x8a, 0x89, 0x90, 0x88, 0x8b, 0x82, 0x9d, 0x8c,
    0x81, 0x89, 0xab, 0x8d, 0xaf, 0x93, 0x87, 0x89, 0x85, 0x89, 0xf5, 0x10,
    0x94, 0x18, 0x28, 0xa, 0x40, 0xc5, 0xbf, 0x42, 0xb, 0x81, 0xb0, 0x81,
    0x92, 0x80, 0xfa, 0x8c, 0x18, 0x82, 0x8b, 0x4b, 0xfd, 0x82, 0x40, 0x8c,
    0x80, 0xdf, 0x9f, 0x42, 0x29, 0x85, 0xe8, 0x81, 0xdf, 0x80, 0x60, 0x75,
    0x23, 0x89, 0xc4, 3, 0x89, 0x9f, 0x81, 0xcf, 0x81, 0x41, 0xf, 2,
    3, 0x80, 0x96, 0x23, 0x80, 0xd2, 0x81, 0xb1, 0x91, 0x89, 0x89, 0x85,
    0x91, 0x8c, 0x8a, 0x9b, 0x87, 0x98, 0x8c, 0xab, 0x83, 0xae, 0x8d, 0x8e,
    0x89, 0x8a, 0x80, 0x89, 0x89, 0xae, 0x8d, 0x8b, 7, 9, 0x89, 0xa0,
    0x82, 0xb1, 0, 0x11, 0xc, 8, 0x80, 0xa8, 0x24, 0x81, 0x40, 0xeb,
    0x38, 9, 0x89, 0x60, 0x4f, 0x23, 0x80, 0x42]"

definition unicode_prop_ID_Continue1_table_3 :: "u8 list" where
  "unicode_prop_ID_Continue1_table_3 =
    [0xe0, 0x8f, 0x8f, 0x8f, 0x11, 0x97, 0x82, 0x40, 0xbf, 0x89, 0xa4, 0x80,
    0xa4, 0x80, 0x42, 0x96, 0x80, 0x40, 0xe1, 0x80, 0x40, 0x94, 0x84, 0x41,
    0x24, 0x89, 0x45, 0x56, 0x10, 0xc, 0x83, 0xa7, 0x13, 0x80, 0x40, 0xa4,
    0x81, 0x42, 0x3c, 0x1f, 0x89, 0x85, 0x89, 0x9e, 0x84, 0x41, 0x3c, 0x81,
    0xcc, 0x85, 0xc5, 0x8a, 0xb0, 0x83, 0xf9, 0x82, 0xb4, 0x8e, 0x9e, 0x8a,
    9, 0x89, 0x83, 0xac, 0x8a, 0x30, 0xac, 0x89, 0x2a, 0xa3, 0x8d, 0x80,
    0x89, 0x21, 0xab, 0x80, 0x8b, 0x82, 0xaf, 0x8d, 0x3b, 0x80, 0x8b, 0xd1,
    0x8b, 0x28, 8, 0x40, 0x9c, 0x8b, 0x84, 0x89, 0x2b, 0xb6, 8, 0x31,
    9, 0x82, 0x88, 0x80, 0x89, 9, 0x32, 0x84, 0xc2, 0x88, 0, 8,
    3, 4, 0, 0x8d, 0x81, 0xd1, 0x91, 0x88, 0x89, 0x18, 0xd0, 0x93,
    0x8b, 0x89, 0x40, 0xd4, 0x31, 0x88, 0x9a, 0x81]"

definition unicode_prop_ID_Continue1_table_4 :: "u8 list" where
  "unicode_prop_ID_Continue1_table_4 =
    [0xd1, 0x90, 0x8e, 0x89, 0xd0, 0x8c, 0x87, 0x89, 0x85, 0x93, 0xb8, 0x8e,
    0x83, 0x89, 0x40, 0xf1, 0x8e, 0x40, 0xa4, 0x89, 0xc5, 0x28, 9, 0x18,
    0, 0x81, 0x8b, 0x89, 0xf6, 0x31, 0x32, 0x80, 0x9b, 0x89, 0xa7, 0x30,
    0x1f, 0x80, 0x88, 0x8a, 0xad, 0x8f, 0x40, 0xc5, 0x87, 0x40, 0x87, 0x89,
    0xb4, 0x38, 0x87, 0x8f, 0x89, 0xb7, 0x95, 0x80, 0x8d, 0xf9, 0x2a, 0,
    8, 0x30, 7, 0x89, 0xaf, 0x20, 8, 0x27, 0x89, 0xb5, 0x89, 0x41,
    8, 0x83, 0x88, 8, 0x80, 0xaf, 0x32, 0x84, 0x8c, 0x8a, 0x54, 0xe4,
    5, 0x8e, 0x60, 0x2c, 0xc7, 0x9b, 0x49, 0x25, 0x89, 0xd5, 0x89, 0xa5,
    0x84, 0xba, 0x86, 0x98, 0x89, 0x42, 0x15, 0x89, 0x41, 0xd4, 0, 0xb6,
    0x33, 0xd0, 0x80, 0x8a, 0x81, 0x60, 0x4c, 0xaa, 0x81, 0x50, 0x50, 0x89,
    0x42, 5, 0xad, 0x81, 0x96, 0x42, 0x1d, 0x22]"

definition unicode_prop_ID_Continue1_table_5 :: "u8 list" where
  "unicode_prop_ID_Continue1_table_5 =
    [0x2f, 0x39, 0x86, 0x9d, 0x83, 0x40, 0x93, 0x82, 0x45, 0x88, 0xb1, 0x41,
    0xff, 0xb6, 0x83, 0xb1, 0x38, 0x8d, 0x80, 0x95, 0x20, 0x8e, 0x45, 0x4f,
    0x30, 0x90, 0xe, 1, 4, 0xe3, 0x80, 0x40, 0x9f, 0x86, 0x88, 0x89,
    0x41, 0x63, 0x80, 0xbc, 0x8d, 0x41, 0xf1, 0x8d, 0x40, 0xf3, 8, 0x89,
    0x40, 0xe7, 1, 6, 0xc, 0x80, 0x41, 0xd9, 0x86, 0xec, 0x34, 0x89,
    0x52, 0x95, 0x89, 0x6c, 5, 5, 0x40, 0xef]"

definition unicode_prop_ID_Continue1_table :: "u8 list" where
  "unicode_prop_ID_Continue1_table =
     unicode_prop_ID_Continue1_table_0 @ unicode_prop_ID_Continue1_table_1 @ unicode_prop_ID_Continue1_table_2 @
     unicode_prop_ID_Continue1_table_3 @ unicode_prop_ID_Continue1_table_4 @ unicode_prop_ID_Continue1_table_5"

definition unicode_prop_XID_Start1_table :: "u8 list" where
  "unicode_prop_XID_Start1_table =
    [0x43, 0x79, 0x80, 0x4a, 0xb7, 0x80, 0xfe, 0x80, 0x60, 0x21, 0xe6, 0x81,
    0x60, 0xcb, 0xc0, 0x85, 0x41, 0x95, 0x81, 0xf3, 0, 0, 0, 0,
    0, 0, 0, 0x80, 0x41, 0x1e, 0x81]"

definition unicode_prop_XID_Continue1_table :: "u8 list" where
  "unicode_prop_XID_Continue1_table =
    [0x43, 0x79, 0x80, 0x60, 0x2d, 0x1f, 0x81, 0x60, 0xcb, 0xc0, 0x85, 0x41,
    0x95, 0x81, 0xf3, 0, 0, 0, 0, 0, 0, 0, 0x80]"

definition unicode_prop_Changes_When_Titlecased1_table :: "u8 list" where
  "unicode_prop_Changes_When_Titlecased1_table =
    [0x41, 0xc3, 8, 8, 0x81, 0xa4, 0x81, 0x4e, 0xdc, 0xaa, 0xa, 0x4e,
    0x87, 0x3f, 0x3f, 0x87, 0x8b, 0x80, 0x8e, 0x80, 0xae, 0x80]"

definition unicode_prop_Changes_When_Casefolded1_table :: "u8 list" where
  "unicode_prop_Changes_When_Casefolded1_table =
    [0x41, 0xef, 0x80, 0x41, 0x9e, 0x80, 0x9e, 0x80, 0x5a, 0xe4, 0x83, 0x40,
    0xb5, 0, 0, 0, 0x80, 0xde, 6, 6, 0x80, 0x8a, 9, 0x81,
    0x89, 0x10, 0x81, 0x8d, 0x80]"

definition unicode_prop_Changes_When_NFKC_Casefolded1_table_0 :: "u8 list" where
  "unicode_prop_Changes_When_NFKC_Casefolded1_table_0 =
    [0x40, 0x9f, 6, 0, 1, 0, 1, 0x12, 0x10, 0x82, 0xf3, 0x80,
    0x8b, 0x80, 0x40, 0x84, 1, 1, 0x80, 0xa2, 1, 0x80, 0x40, 0xbb,
    0x88, 0x9e, 0x29, 0x84, 0xda, 8, 0x81, 0x89, 0x80, 0xa3, 4, 2,
    4, 8, 7, 0x80, 0x9e, 0x80, 0xa0, 0x82, 0x9c, 0x80, 0x42, 0x28,
    0x80, 0xd7, 0x83, 0x42, 0xde, 0x87, 0xfb, 8, 0x80, 0xd2, 1, 0x80,
    0xa1, 0x11, 0x80, 0x40, 0xfc, 0x81, 0x42, 0xd4, 0x80, 0xfe, 0x80, 0xa7,
    0x81, 0xad, 0x80, 0xb5, 0x80, 0x88, 3, 3, 3, 0x80, 0x8b, 0x80,
    0x88, 0, 0x26, 0x80, 0x90, 0x80, 0x88, 3, 3, 3, 0x80, 0x8b,
    0x80, 0x41, 0x41, 0x80, 0xe1, 0x81, 0x46, 0x52, 0x81, 0xd4, 0x84, 0x45,
    0x1b, 0x10, 0x8a, 0x80, 0x91, 0x80, 0x9b, 0x8c, 0x80, 0xa1, 0xa4, 0x40,
    0xd5, 0x83, 0x40, 0xb5, 0, 0, 0, 0x80]"

definition unicode_prop_Changes_When_NFKC_Casefolded1_table_1 :: "u8 list" where
  "unicode_prop_Changes_When_NFKC_Casefolded1_table_1 =
    [0x99, 0, 0, 0, 0, 0, 0, 0x80, 0xb7, 5, 0, 0x13,
    5, 0x11, 2, 0xc, 0x11, 0, 0, 0xc, 0x15, 5, 8, 0x8f,
    0, 0x20, 0x8b, 0x12, 0x2a, 8, 0xb, 0, 7, 0x82, 0x8c, 6,
    0x92, 0x81, 0x9a, 0x80, 0x8c, 0x8a, 0x80, 0xd6, 0x18, 0x10, 0x8a, 1,
    0xc, 0xa, 0, 0x10, 0x11, 2, 6, 5, 0x1c, 0x85, 0x8f, 0x8f,
    0x8f, 0x88, 0x80, 0x40, 0xa1, 8, 0x81, 0x40, 0xf7, 0x81, 0x41, 0x34,
    0xd5, 0x99, 0x9a, 0x45, 0x20, 0x80, 0xe6, 0x82, 0xe4, 0x80, 0x41, 0x9e,
    0x81, 0x40, 0xf0, 0x80, 0x41, 0x2e, 0x80, 0xd2, 0x80, 0x8b, 0x40, 0xd5,
    0xa9, 0x80, 0xb4, 0, 0x82, 0xdf, 9, 0x80, 0xde, 0x80, 0xb0, 0xdd,
    0x82, 0x8d, 0xdf, 0x9e, 0x80, 0xa7, 0x87, 0xae, 0x80, 0x41, 0x7f, 0x60,
    0x72, 0x9b, 0x81, 0x40, 0xd1, 0x80, 0xff, 0x1a]"

definition unicode_prop_Changes_When_NFKC_Casefolded1_table_2 :: "u8 list" where
  "unicode_prop_Changes_When_NFKC_Casefolded1_table_2 =
    [0x81, 0x43, 0x61, 0x83, 0x88, 0x80, 0x60, 0x4d, 0x95, 0x41, 0xd, 8,
    0, 0x81, 0x89, 0, 0, 9, 0x82, 0xc3, 0x81, 0xe9, 0xc2, 0,
    0x97, 4, 0, 1, 1, 0x80, 0xeb, 0xa0, 0x41, 0x6a, 0x91, 0xbf,
    0x81, 0xb5, 0xa7, 0x8c, 0x82, 0x99, 0x95, 0x94, 0x81, 0x8b, 0x80, 0x92,
    3, 0x1a, 0, 0x80, 0x40, 0x86, 8, 0x80, 0x9f, 0x99, 0x40, 0x83,
    0x15, 0xd, 0xd, 0xa, 0x16, 6, 0x80, 0x88, 0x47, 0x87, 0x20, 0xa9,
    0x80, 0x88, 0x60, 0xb4, 0xe4, 0x83, 0x50, 0x31, 0xa3, 0x44, 0x63, 0x86,
    0x8d, 0x87, 0xbf, 0x85, 0x42, 0x3e, 0xd4, 0x80, 0xc6, 1, 8, 9,
    0xb, 0x80, 0x8b, 0, 6, 0x80, 0xc0, 3, 0xf, 6, 0x80, 0x9b,
    3, 4, 0, 0x16, 0x80, 0x41, 0x53, 0x81, 0x41, 0x23, 0x81, 0xb1,
    0x48, 0x2f, 0xbd, 0x4d, 0x91, 0x18, 0x9a, 1]"

definition unicode_prop_Changes_When_NFKC_Casefolded1_table_3 :: "u8 list" where
  "unicode_prop_Changes_When_NFKC_Casefolded1_table_3 =
    [0, 8, 0x80, 0x89, 3, 0, 0, 0x28, 0x18, 0, 0, 2,
    1, 0, 8, 0, 0, 0, 0, 1, 0, 0xb, 6, 3,
    3, 0, 0x80, 0x89, 0x80, 0x90, 0x22, 4, 0x80, 0x90, 0x42, 0x43,
    0x8a, 0x84, 0x9e, 0x80, 0x9f, 0x99, 0x82, 0xa2, 0x80, 0xee, 0x82, 0x8c,
    0xab, 0x83, 0x88, 0x31, 0x49, 0x9d, 0x89, 0x60, 0xfc, 5, 0x42, 0x1d,
    0x6b, 5, 0xe1, 0x4f, 0xff]"

definition unicode_prop_Changes_When_NFKC_Casefolded1_table :: "u8 list" where
  "unicode_prop_Changes_When_NFKC_Casefolded1_table =
     unicode_prop_Changes_When_NFKC_Casefolded1_table_0 @ unicode_prop_Changes_When_NFKC_Casefolded1_table_1 @ unicode_prop_Changes_When_NFKC_Casefolded1_table_2 @
     unicode_prop_Changes_When_NFKC_Casefolded1_table_3"

definition unicode_prop_Basic_Emoji1_table :: "u8 list" where
  "unicode_prop_Basic_Emoji1_table =
    [0x60, 0x23, 0x19, 0x81, 0x40, 0xcc, 0x1a, 1, 0x80, 0x42, 8, 0x81,
    0x94, 0x81, 0xb1, 0x8b, 0xaa, 0x80, 0x92, 0x80, 0x8c, 7, 0x81, 0x90,
    0xc, 0xf, 4, 0x80, 0x94, 6, 8, 3, 1, 6, 3, 0x81,
    0x9b, 0x80, 0xa2, 0, 3, 0x10, 0x80, 0xbc, 0x82, 0x97, 0x80, 0x8d,
    0x80, 0x43, 0x5a, 0x81, 0xb2, 3, 0x80, 0x61, 0xc4, 0xad, 0x80, 0x40,
    0xc9, 0x80, 0x40, 0xbd, 1, 0x89, 0xe5, 0x80, 0x97, 0x80, 0x93, 1,
    0x20, 0x82, 0x94, 0x81, 0x40, 0xad, 0xa0, 0x8b, 0x88, 0x80, 0xc5, 0x80,
    0x95, 0x8b, 0xaa, 0x1c, 0x8b, 0x90, 0x10, 0x82, 0xc6, 0, 0x80, 0x40,
    0xba, 0x81, 0xbe, 0x8c, 0x18, 0x97, 0x91, 0x80, 0x99, 0x81, 0x8c, 0x80,
    0xd5, 0xd4, 0xaf, 0xc5, 0x28, 0x12, 0xb, 0x13, 0x8a, 0xe, 0x88, 0x40,
    0xe2, 0x8b, 0x18, 0x41, 0x1a, 0xae, 0x80, 0x89, 0x80, 0x40, 0xb8, 0xef,
    0x8c, 0x82, 0x8a, 0x82, 0xb8, 0, 0x83, 0x8f, 0x81, 0x8b, 0x83, 0x89]"

definition unicode_prop_Basic_Emoji2_table :: "u8 list" where
  "unicode_prop_Basic_Emoji2_table =
    [0x40, 0xa8, 3, 0x80, 0x5f, 0x8c, 0x80, 0x8b, 0x80, 0x40, 0xd7, 0x80,
    0x95, 0x80, 0xd9, 0x85, 0x8e, 0x81, 0x41, 0x7c, 0x80, 0x40, 0xa5, 0x80,
    0x9c, 0x10, 0xc, 0x82, 0x40, 0xc6, 0x80, 0x40, 0xe6, 0x81, 0x89, 0x80,
    0x88, 0x80, 0xb9, 0xa, 0x84, 0x88, 1, 5, 3, 1, 0, 9,
    2, 2, 0xf, 0x14, 0, 0x80, 0x9b, 9, 0, 8, 0x80, 0x91,
    1, 0x80, 0x92, 0, 0x18, 0, 0xa, 5, 7, 0x81, 0x95, 5,
    0, 0, 0x80, 0x94, 5, 9, 1, 0x17, 4, 9, 8, 1,
    0, 0, 5, 2, 0x80, 0x90, 0x81, 0x8e, 1, 0x80, 0x9a, 0x81,
    0xbb, 0x80, 0x41, 0x91, 0x81, 0x41, 0xce, 0x82, 0x45, 0x27, 0x80, 0x8b,
    0x80, 0x42, 0x58, 0, 0x80, 0x61, 0xbe, 0xd5, 0x81, 0x8b, 0x81, 0x40,
    0x81, 0x80, 0xb3, 0x80, 0x40, 0xe8, 1, 0x88, 0x88, 0x80, 0xc5, 0x80,
    0x97, 8, 0x11, 0x81, 0xaa, 0x1c, 0x8b, 0x92, 0, 0, 0x80, 0xc6,
    0, 0x80, 0x40, 0xba, 0x80, 0xca, 0x81, 0xa3, 9, 0x86, 0x8c, 1,
    0x19, 0x80, 0x93, 1, 7, 0x81, 0x88, 4, 0x82, 0x8b, 0x17, 0x11,
    0, 3, 5, 2, 5, 0x80, 0x40, 0xcf, 0, 0x82, 0x8f, 0x2a,
    5, 1, 0x80]"

definition unicode_prop_RGI_Emoji_Flag_Sequence_table :: "u8 list" where
  "unicode_prop_RGI_Emoji_Flag_Sequence_table =
    [0xc, 0, 9, 0, 4, 1, 2, 6, 3, 3, 1, 2,
    1, 3, 7, 0xd, 0x18, 0, 9, 0, 0, 0x89, 8, 0,
    0, 0x81, 0x88, 0x83, 0x8c, 0x10, 0, 1, 7, 8, 0x29, 0x10,
    0x28, 0, 0x80, 0x8a, 0, 0xa, 0, 0xe, 0x15, 0x18, 0x83, 0x89,
    6, 0, 0x81, 0x8d, 0, 0x12, 8, 0, 3, 0, 0x24, 0,
    5, 0x21, 0, 0, 0x29, 0x90, 0, 2, 0, 8, 9, 0,
    8, 0x18, 0x8b, 0x80, 0x8c, 2, 0x19, 0x1a, 0x11, 0, 0, 0x80,
    0x9c, 0x80, 0x88, 2, 0, 0, 2, 0x20, 0x88, 0xa, 0, 3,
    1, 2, 5, 8, 0, 1, 9, 0x20, 0x21, 0x18, 0x22, 0,
    0, 0, 0, 0x18, 0x28, 0x89, 0x80, 0x8b, 0x80, 0x90, 0x80, 0x92,
    0x80, 0x8d, 5, 0x80, 0x8a, 0x80, 0x88, 0x80]"

definition unicode_prop_Emoji_Keycap_Sequence_table :: "u8 list" where
  "unicode_prop_Emoji_Keycap_Sequence_table =
    [0xa2, 5, 4, 0x89]"

definition unicode_prop_ASCII_Hex_Digit_table :: "u8 list" where
  "unicode_prop_ASCII_Hex_Digit_table =
    [0xaf, 0x89, 0x35, 0x99, 0x85]"

definition unicode_prop_Bidi_Control_table :: "u8 list" where
  "unicode_prop_Bidi_Control_table =
    [0x46, 0x1b, 0x80, 0x59, 0xf0, 0x81, 0x99, 0x84, 0xb6, 0x83]"

definition unicode_prop_Dash_table :: "u8 list" where
  "unicode_prop_Dash_table =
    [0xac, 0x80, 0x45, 0x5b, 0x80, 0xb2, 0x80, 0x4e, 0x40, 0x80, 0x44, 4,
    0x80, 0x48, 8, 0x85, 0xbc, 0x80, 0xa6, 0x80, 0x8e, 0x80, 0x41, 0x85,
    0x80, 0x4c, 3, 1, 0x80, 0x9e, 0xb, 0x80, 0x9b, 0x80, 0x41, 0xbd,
    0x80, 0x92, 0x80, 0xee, 0x80, 0x60, 0xcd, 0x8f, 0x81, 0xa4, 0x80, 0x89,
    0x80, 0x40, 0xa8, 0x80, 0x4e, 0x5f, 0x80, 0x41, 0x3d, 0x80]"

definition unicode_prop_Deprecated_table :: "u8 list" where
  "unicode_prop_Deprecated_table =
    [0x41, 0x48, 0x80, 0x45, 0x28, 0x80, 0x49, 2, 0, 0x80, 0x48, 0x28,
    0x81, 0x48, 0xc4, 0x85, 0x42, 0xb8, 0x81, 0x6d, 0xdc, 0xd5, 0x80]"

definition unicode_prop_Diacritic_table_0 :: "u8 list" where
  "unicode_prop_Diacritic_table_0 =
    [0xdd, 0, 0x80, 0xc6, 5, 3, 1, 0x81, 0x41, 0xf6, 0x40, 0x9e,
    7, 0x25, 0x90, 0xb, 0x80, 0x88, 0x81, 0x40, 0xfc, 0x84, 0x40, 0xd0,
    0x80, 0xb6, 0xac, 0, 1, 1, 0, 0x40, 0x82, 0x3b, 0x81, 0x40,
    0x85, 0xb, 0xa, 0x82, 0xc2, 0x9a, 0xda, 0x8a, 0xb9, 0x8a, 0xa1, 0x81,
    0xfd, 0x87, 0xa8, 0x89, 0x8f, 0x9b, 0xbc, 0x80, 0x8f, 2, 0x83, 0x9b,
    0x80, 0xc9, 0x80, 0x8f, 0x80, 0xed, 0x80, 0x8f, 0x80, 0xed, 0x80, 0x8f,
    0x80, 0xae, 0x82, 0xbb, 0x80, 0x8f, 6, 0x80, 0xf6, 0x80, 0xed, 0x80,
    0x8f, 0x80, 0xed, 0x80, 0x8f, 0x80, 0xec, 0x81, 0x8f, 0x80, 0xfb, 0x80,
    0xee, 0x80, 0x8b, 0x28, 0x80, 0xea, 0x80, 0x8c, 0x84, 0xca, 0x81, 0x9a,
    0, 0, 3, 0x81, 0xc1, 0x10, 0x81, 0xbd, 0x80, 0xef, 0, 0x81,
    0xa7, 0xb, 0x84, 0x98, 0x30, 0x80, 0x89, 0x81]"

definition unicode_prop_Diacritic_table_1 :: "u8 list" where
  "unicode_prop_Diacritic_table_1 =
    [0x42, 0xc0, 0x82, 0x43, 0xb3, 0x81, 0x9d, 0x80, 0x40, 0x93, 0x8a, 0x88,
    0x80, 0x41, 0x5a, 0x82, 0x41, 0x23, 0x80, 0x93, 0x39, 0x80, 0xaf, 0x8e,
    0x81, 0x8a, 0x82, 0x8e, 0x81, 0x8b, 0xc7, 0x80, 0x8e, 0x80, 0xa5, 0x88,
    0xb5, 0x81, 0xb9, 0x80, 0x8a, 0x81, 0xc1, 0x81, 0xbf, 0x85, 0xd1, 0x98,
    0x18, 0x28, 0xa, 0xb1, 0xbe, 0xaf, 0xa3, 0x84, 0x8b, 0xa4, 0x8a, 0x41,
    0xbc, 0, 0x82, 0x8a, 0x82, 0x8c, 0x82, 0x8c, 0x82, 0x8c, 0x81, 0x4c,
    0xef, 0x82, 0x41, 0x3c, 0x80, 0x41, 0xf9, 0x85, 0xe8, 0x83, 0xde, 0x80,
    0x60, 0x75, 0x71, 0x80, 0x8b, 8, 0x80, 0x9b, 0x81, 0xd1, 0x81, 0x8d,
    0xa1, 0xe5, 0x82, 0xe5, 5, 0x81, 0x8b, 0x80, 0xa4, 0x80, 0x40, 0x96,
    0x80, 0x9a, 0x91, 0xb8, 0x83, 0xa3, 0x80, 0xde, 0x80, 0x8b, 0x80, 0xa3,
    0x80, 0x40, 0x94, 0x82, 0xc0, 0x83, 0xb2, 0x80]"

definition unicode_prop_Diacritic_table_2 :: "u8 list" where
  "unicode_prop_Diacritic_table_2 =
    [0xe3, 0x84, 0x88, 0x82, 0xff, 0x81, 0x60, 0x4f, 0x2f, 0x80, 0x43, 0,
    0x8f, 0x41, 0xd, 0, 0x80, 0xae, 0x80, 0xac, 0x81, 0xc2, 0x80, 0x42,
    0xfb, 0x80, 0x44, 0x9e, 0x28, 0xa9, 0x80, 0x88, 0x42, 0x7c, 0x13, 0x80,
    0x40, 0xa4, 0x81, 0x42, 0x3a, 0x85, 0xa5, 0x80, 0x99, 0x84, 0x41, 0x8b,
    1, 0x82, 0xc5, 0x8a, 0xb0, 0x83, 0x40, 0xbf, 0x80, 0xa8, 0x80, 0xc7,
    0x81, 0xf7, 0x81, 0xbd, 0x80, 0xcb, 0x80, 0x88, 0x82, 0xe7, 0x81, 0x40,
    0xb1, 0x81, 0xcf, 0x81, 0x8f, 0x80, 0x97, 0x32, 0x84, 0xd8, 0x10, 0x81,
    0x8c, 0x81, 0xde, 2, 0x80, 0xfa, 0x81, 0x40, 0xfa, 0x81, 0xfd, 0x80,
    0xf5, 0x81, 0xf2, 0x80, 0x41, 0xc, 0x81, 0x41, 1, 0xb, 0x80, 0x40,
    0x9b, 0x80, 0xd2, 0x80, 0x91, 0x80, 0xd0, 0x80, 0x41, 0xa4, 0x80, 0x41,
    1, 0, 0x81, 0xd0, 0x80, 0xc0, 0x80, 0x41]"

definition unicode_prop_Diacritic_table_3 :: "u8 list" where
  "unicode_prop_Diacritic_table_3 =
    [0x66, 0x81, 0x96, 0x80, 0x54, 0xeb, 0x8e, 0x60, 0x2c, 0xd8, 0x80, 0x49,
    0xbf, 0x84, 0xba, 0x86, 0x42, 0x33, 0x81, 0x42, 0x21, 0x90, 0xcf, 0x81,
    0x60, 0x3f, 0xfd, 0x18, 0x30, 0x81, 0x5f, 0, 0xad, 0x81, 0x96, 0x42,
    0x1f, 0x12, 0x2f, 0x39, 0x86, 0x9d, 0x83, 0x4e, 0x81, 0xbd, 0x40, 0xc1,
    0x86, 0x41, 0x76, 0x80, 0xbc, 0x83, 0x42, 0xfd, 0x81, 0x42, 0xdf, 0x86,
    0xec, 0x10, 0x82]"

definition unicode_prop_Diacritic_table :: "u8 list" where
  "unicode_prop_Diacritic_table =
     unicode_prop_Diacritic_table_0 @ unicode_prop_Diacritic_table_1 @ unicode_prop_Diacritic_table_2 @
     unicode_prop_Diacritic_table_3"

definition unicode_prop_Extender_table :: "u8 list" where
  "unicode_prop_Extender_table =
    [0x40, 0xb6, 0x80, 0x42, 0x17, 0x81, 0x43, 0x6d, 0x80, 0x41, 0xb8, 0x80,
    0x42, 0x75, 0x80, 0x40, 0x88, 0x80, 0xd8, 0x80, 0x42, 0xef, 0x80, 0xfe,
    0x80, 0x49, 0x42, 0x80, 0xb7, 0x80, 0x42, 0x62, 0x80, 0x41, 0x8d, 0x80,
    0xc3, 0x80, 0x53, 0x88, 0x80, 0xaa, 0x84, 0xe6, 0x81, 0xdc, 0x82, 0x60,
    0x6f, 0x15, 0x80, 0x45, 0xf5, 0x80, 0x43, 0xc1, 0x80, 0x95, 0x80, 0x40,
    0x88, 0x80, 0xeb, 0x80, 0x94, 0x81, 0x60, 0x54, 0x7a, 0x80, 0x48, 0xf,
    0x81, 0x45, 0xca, 0x80, 0x9a, 3, 0x80, 0x44, 0xc6, 0x80, 0x41, 0x24,
    0x80, 0xf3, 0x81, 0x41, 0xf1, 0x82, 0x44, 0xce, 0x80, 0x43, 0x3f, 0x80,
    0x60, 0x4d, 0x67, 0x81, 0x44, 0x9b, 8, 0x80, 0x8d, 0x81, 0x60, 0x71,
    0x47, 0x81, 0x44, 0xb0, 0x80, 0x43, 0x53, 0x82]"

definition unicode_prop_Hex_Digit_table :: "u8 list" where
  "unicode_prop_Hex_Digit_table =
    [0xaf, 0x89, 0x35, 0x99, 0x85, 0x60, 0xfe, 0xa8, 0x89, 0x35, 0x99, 0x85]"

definition unicode_prop_IDS_Unary_Operator_table :: "u8 list" where
  "unicode_prop_IDS_Unary_Operator_table =
    [0x60, 0x2f, 0xfd, 0x81]"

definition unicode_prop_IDS_Binary_Operator_table :: "u8 list" where
  "unicode_prop_IDS_Binary_Operator_table =
    [0x60, 0x2f, 0xef, 9, 0x89, 0x41, 0xf0, 0x80]"

definition unicode_prop_IDS_Trinary_Operator_table :: "u8 list" where
  "unicode_prop_IDS_Trinary_Operator_table =
    [0x60, 0x2f, 0xf1, 0x81]"

definition unicode_prop_Ideographic_table :: "u8 list" where
  "unicode_prop_Ideographic_table =
    [0x60, 0x30, 5, 0x81, 0x98, 0x88, 0x8d, 0x82, 0x43, 0xc4, 0x59, 0xbf,
    0xbf, 0x60, 0x51, 0xff, 0x60, 0x58, 0xff, 0x41, 0x6d, 0x81, 0xe9, 0x60,
    0x75, 9, 0x80, 0x8c, 0x84, 0x88, 0x5c, 0xd5, 0xa8, 0x9f, 0xe0, 0xf2,
    0x60, 0x23, 0x7c, 0x41, 0x8b, 0x60, 0x4d, 3, 0x60, 0xa6, 0xdf, 0x9f,
    0x51, 0x1d, 0x81, 0x56, 0x8d, 0x81, 0x5d, 0x30, 0x8e, 0x42, 0x6d, 0x49,
    0xa1, 0x42, 0x1d, 0x45, 0xe1, 0x53, 0x4a, 0x84, 0x60, 0x21, 0x29]"

definition unicode_prop_Join_Control_table :: "u8 list" where
  "unicode_prop_Join_Control_table =
    [0x60, 0x20, 0xb, 0x81]"

definition unicode_prop_Logical_Order_Exception_table :: "u8 list" where
  "unicode_prop_Logical_Order_Exception_table =
    [0x4e, 0x3f, 0x84, 0xfa, 0x84, 0x4a, 0xef, 0x11, 0x80, 0x60, 0x90, 0xf9,
    9, 0, 0x81]"

definition unicode_prop_Modifier_Combining_Mark_table :: "u8 list" where
  "unicode_prop_Modifier_Combining_Mark_table =
    [0x46, 0x53, 9, 0x80, 0x40, 0x82, 5, 2, 0x81, 0x41, 0xe0, 8,
    0x12, 0x80, 0x9e, 0x80]"

definition unicode_prop_Noncharacter_Code_Point_table :: "u8 list" where
  "unicode_prop_Noncharacter_Code_Point_table =
    [0x60, 0xfd, 0xcf, 0x9f, 0x42, 0xd, 0x81, 0x60, 0xff, 0xfd, 0x81, 0x60,
    0xff, 0xfd, 0x81, 0x60, 0xff, 0xfd, 0x81, 0x60, 0xff, 0xfd, 0x81, 0x60,
    0xff, 0xfd, 0x81, 0x60, 0xff, 0xfd, 0x81, 0x60, 0xff, 0xfd, 0x81, 0x60,
    0xff, 0xfd, 0x81, 0x60, 0xff, 0xfd, 0x81, 0x60, 0xff, 0xfd, 0x81, 0x60,
    0xff, 0xfd, 0x81, 0x60, 0xff, 0xfd, 0x81, 0x60, 0xff, 0xfd, 0x81, 0x60,
    0xff, 0xfd, 0x81, 0x60, 0xff, 0xfd, 0x81, 0x60, 0xff, 0xfd, 0x81]"

definition unicode_prop_Pattern_Syntax_table :: "u8 list" where
  "unicode_prop_Pattern_Syntax_table =
    [0xa0, 0x8e, 0x89, 0x86, 0x99, 0x18, 0x80, 0x99, 0x83, 0xa1, 0x30, 0,
    8, 0, 0xb, 3, 2, 0x80, 0x96, 0x80, 0x9e, 0x80, 0x5f, 0x17,
    0x97, 0x87, 0x8e, 0x81, 0x92, 0x80, 0x89, 0x41, 0x30, 0x42, 0xcf, 0x40,
    0x9f, 0x42, 0x75, 0x9d, 0x44, 0x6b, 0x41, 0xff, 0xff, 0x41, 0x80, 0x13,
    0x98, 0x8e, 0x80, 0x60, 0xcd, 0xc, 0x81, 0x41, 4, 0x81]"

definition unicode_prop_Pattern_White_Space_table :: "u8 list" where
  "unicode_prop_Pattern_White_Space_table =
    [0x88, 0x84, 0x91, 0x80, 0xe3, 0x80, 0x5f, 0x87, 0x81, 0x97, 0x81]"

definition unicode_prop_Quotation_Mark_table :: "u8 list" where
  "unicode_prop_Quotation_Mark_table =
    [0xa1, 3, 0x80, 0x40, 0x82, 0x80, 0x8e, 0x80, 0x5f, 0x5b, 0x87, 0x98,
    0x81, 0x4e, 6, 0x80, 0x41, 0xc8, 0x83, 0x8c, 0x82, 0x60, 0xce, 0x20,
    0x83, 0x40, 0xbc, 3, 0x80, 0xd9, 0x81]"

definition unicode_prop_Radical_table :: "u8 list" where
  "unicode_prop_Radical_table =
    [0x60, 0x2e, 0x7f, 0x99, 0x80, 0xd8, 0x8b, 0x40, 0xd5]"

definition unicode_prop_Regional_Indicator_table :: "u8 list" where
  "unicode_prop_Regional_Indicator_table =
    [0x61, 0xf1, 0xe5, 0x99]"

definition unicode_prop_Sentence_Terminal_table_0 :: "u8 list" where
  "unicode_prop_Sentence_Terminal_table_0 =
    [0xa0, 0x80, 0x8b, 0x80, 0x8f, 0x80, 0x45, 0x48, 0x80, 0x40, 0x92, 0x82,
    0x40, 0xb3, 0x80, 0xaa, 0x82, 0x40, 0xf5, 0x80, 0xbc, 0, 2, 0x81,
    0x41, 0x24, 0x81, 0x46, 0xe3, 0x81, 0x43, 0x15, 3, 0x81, 0x43, 4,
    0x80, 0x40, 0xc5, 0x81, 0x40, 0x9c, 0x81, 0xac, 4, 0x80, 0x41, 0x39,
    0x81, 0x41, 0x61, 0x83, 0x40, 0xa1, 0x81, 0x89, 9, 0x81, 0x9c, 0x82,
    0x40, 0xba, 0x81, 0xc0, 0x81, 0x43, 0xa3, 0x80, 0x96, 0x81, 0x88, 0x82,
    0x4c, 0xae, 0x82, 0x41, 0x31, 0x80, 0x8c, 0x80, 0x95, 0x81, 0x41, 0xac,
    0x80, 0x60, 0x74, 0xfb, 0x80, 0x41, 0xd, 0x81, 0x40, 0xe2, 2, 0x80,
    0x41, 0x7d, 0x81, 0xd5, 0x81, 0xde, 0x80, 0x40, 0x97, 0x81, 0x40, 0x92,
    0x82, 0x40, 0x8f, 0x81, 0x40, 0xf8, 0x80, 0x60, 0x52, 0x25, 1, 0x81,
    0xba, 2, 0x81, 0x40, 0xa8, 0x80, 0x8b, 0x80]"

definition unicode_prop_Sentence_Terminal_table_1 :: "u8 list" where
  "unicode_prop_Sentence_Terminal_table_1 =
    [0x8f, 0x80, 0xc0, 0x80, 0x4a, 0xf3, 0x81, 0x44, 0xfc, 0x84, 0xab, 0x83,
    0x40, 0xbc, 0x81, 0xf4, 0x83, 0xfe, 0x82, 0x40, 0x80, 0xd, 0x80, 0x8f,
    0x81, 0xd7, 8, 0x81, 0xeb, 0x80, 0x41, 0x29, 0x81, 0xf4, 0x81, 0x41,
    0x74, 0xc, 0x8e, 0xe8, 0x81, 0x40, 0xf8, 0x82, 0x42, 4, 0, 0x80,
    0x40, 0xfa, 0x81, 0xd6, 0x81, 0x41, 0xa3, 0x81, 0x42, 0xb3, 0x81, 0xc9,
    0x81, 0x60, 0x4b, 0x28, 0x81, 0x40, 0x84, 0x80, 0xc0, 0x81, 0x8a, 0x80,
    0x42, 0x28, 0x81, 0x41, 0x27, 0x80, 0x60, 0x4e, 5, 0x80, 0x5d, 0xe7,
    0x80]"

definition unicode_prop_Sentence_Terminal_table :: "u8 list" where
  "unicode_prop_Sentence_Terminal_table =
     unicode_prop_Sentence_Terminal_table_0 @ unicode_prop_Sentence_Terminal_table_1"

definition unicode_prop_Soft_Dotted_table :: "u8 list" where
  "unicode_prop_Soft_Dotted_table =
    [0xe8, 0x81, 0x40, 0xc3, 0x80, 0x41, 0x18, 0x80, 0x9d, 0x80, 0xb3, 0x80,
    0x93, 0x80, 0x41, 0x3f, 0x80, 0xe1, 0, 0x80, 0x59, 8, 0x80, 0xb2,
    0x80, 0x8c, 2, 0x80, 0x40, 0x83, 0x80, 0x40, 0x9c, 0x80, 0x41, 0xa4,
    0x80, 0x40, 0xd5, 0x81, 0x4b, 0x31, 0x80, 0x61, 0xa7, 0xa4, 0x81, 0xb1,
    0x81, 0xb1, 0x81, 0xb1, 0x81, 0xb1, 0x81, 0xb1, 0x81, 0xb1, 0x81, 0xb1,
    0x81, 0xb1, 0x81, 0xb1, 0x81, 0xb1, 0x81, 0xb1, 0x81, 0xb1, 0x81, 0x48,
    0x85, 0x80, 0x41, 0x30, 0x81, 0x99, 0x80]"

definition unicode_prop_Terminal_Punctuation_table_0 :: "u8 list" where
  "unicode_prop_Terminal_Punctuation_table_0 =
    [0xa0, 0x80, 0x89, 0, 0x80, 0x8a, 0xa, 0x80, 0x43, 0x3d, 7, 0x80,
    0x42, 0, 0x80, 0xb8, 0x80, 0xc7, 0x80, 0x8d, 0, 0x82, 0x40, 0xb3,
    0x80, 0xaa, 0x8a, 0, 0x40, 0xea, 0x81, 0xb5, 0x28, 0x87, 0x9e, 0x80,
    0x41, 4, 0x81, 0x44, 0xf3, 0x81, 0x40, 0xab, 3, 0x85, 0x41, 0x36,
    0x81, 0x43, 0x14, 0x87, 0x43, 4, 0x80, 0xfb, 0x82, 0xc6, 0x81, 0x40,
    0x9c, 0x12, 0x80, 0xa6, 0x19, 0x81, 0x41, 0x39, 0x81, 0x41, 0x61, 0x83,
    0x40, 0xa1, 0x81, 0x89, 8, 0x82, 0x9c, 0x82, 0x40, 0xba, 0x84, 0xbd,
    0x81, 0x43, 0xa3, 0x80, 0x96, 0x81, 0x88, 0x82, 0x4c, 0xae, 0x82, 0x41,
    0x31, 0x80, 0x8c, 3, 0x80, 0x89, 0, 0xa, 0x81, 0x41, 0xab, 0x81,
    0x60, 0x74, 0xfa, 0x81, 0x41, 0xc, 0x82, 0x40, 0xe2, 0x84, 0x41, 0x7d,
    0x81, 0xd5, 0x81, 0xde, 0x80, 0x40, 0x96, 0x82]"

definition unicode_prop_Terminal_Punctuation_table_1 :: "u8 list" where
  "unicode_prop_Terminal_Punctuation_table_1 =
    [0x40, 0x92, 0x82, 0xfe, 0x80, 0x8f, 0x81, 0x40, 0xf8, 0x80, 0x60, 0x52,
    0x25, 1, 0x81, 0xb8, 0x10, 0x83, 0x40, 0xa8, 0x80, 0x89, 0, 0x80,
    0x8a, 0xa, 0x80, 0xc0, 1, 0x80, 0x44, 0x39, 0x80, 0xaf, 0x80, 0x44,
    0x85, 0x80, 0x40, 0xc6, 0x80, 0x41, 0x35, 0x81, 0x40, 0x97, 0x85, 0xc3,
    0x85, 0xd8, 0x83, 0x43, 0xb7, 0x84, 0xab, 0x83, 0x40, 0xbc, 0x86, 0xef,
    0x83, 0xfe, 0x82, 0x40, 0x80, 0xd, 0x80, 0x8f, 0x81, 0xd7, 0x84, 0xeb,
    0x80, 0x41, 0x29, 0x81, 0xf4, 0x82, 0x8b, 0x81, 0x41, 0x65, 0x1a, 0x8e,
    0xe8, 0x81, 0x40, 0xf8, 0x82, 0x42, 4, 0, 0x80, 0x40, 0xfa, 0x81,
    0xd6, 0xb, 0x81, 0x41, 0x9d, 0x82, 0xac, 0x80, 0x42, 0x84, 0x81, 0xc9,
    0x81, 0x45, 0x2a, 0x84, 0x60, 0x45, 0xf8, 0x81, 0x40, 0x84, 0x80, 0xc0,
    0x82, 0x89, 0x80, 0x42, 0x28, 0x81, 0x41, 0x26]"

definition unicode_prop_Terminal_Punctuation_table_2 :: "u8 list" where
  "unicode_prop_Terminal_Punctuation_table_2 =
    [0x81, 0x60, 0x4e, 5, 0x80, 0x5d, 0xe6, 0x83]"

definition unicode_prop_Terminal_Punctuation_table :: "u8 list" where
  "unicode_prop_Terminal_Punctuation_table =
     unicode_prop_Terminal_Punctuation_table_0 @ unicode_prop_Terminal_Punctuation_table_1 @ unicode_prop_Terminal_Punctuation_table_2"

definition unicode_prop_Unified_Ideograph_table :: "u8 list" where
  "unicode_prop_Unified_Ideograph_table =
    [0x60, 0x33, 0xff, 0x59, 0xbf, 0xbf, 0x60, 0x51, 0xff, 0x60, 0x5a, 0xd,
    8, 0, 0x81, 0x89, 0, 0, 9, 0x82, 0x61, 5, 0xd5, 0x60,
    0xa6, 0xdf, 0x9f, 0x51, 0x1d, 0x81, 0x56, 0x8d, 0x81, 0x5d, 0x30, 0x8e,
    0x42, 0x6d, 0x51, 0xa1, 0x53, 0x4a, 0x84, 0x60, 0x21, 0x29]"

definition unicode_prop_Variation_Selector_table :: "u8 list" where
  "unicode_prop_Variation_Selector_table =
    [0x58, 0xa, 0x10, 0x80, 0x60, 0xe5, 0xef, 0x8f, 0x6d, 2, 0xef, 0x40,
    0xef]"

definition unicode_prop_White_Space_table :: "u8 list" where
  "unicode_prop_White_Space_table =
    [0x88, 0x84, 0x91, 0x80, 0xe3, 0x80, 0x99, 0x80, 0x55, 0xde, 0x80, 0x49,
    0x7e, 0x8a, 0x9c, 0xc, 0x80, 0xae, 0x80, 0x4f, 0x9f, 0x80]"

definition unicode_prop_Bidi_Mirrored_table :: "u8 list" where
  "unicode_prop_Bidi_Mirrored_table =
    [0xa7, 0x81, 0x91, 0, 0x80, 0x9b, 0, 0x80, 0x9c, 0, 0x80, 0xac,
    0x80, 0x8e, 0x80, 0x4e, 0x7d, 0x83, 0x47, 0x5c, 0x81, 0x49, 0x9b, 0x81,
    0x89, 0x81, 0xb5, 0x81, 0x8d, 0x81, 0x40, 0xb0, 0x80, 0x40, 0xbf, 0x1a,
    0x2a, 2, 0xa, 0x18, 0x18, 0, 3, 0x88, 0x20, 0x80, 0x91, 0x23,
    0x88, 8, 0, 0x38, 0x9f, 0xb, 0x20, 0x88, 9, 0x92, 0x21, 0x88,
    0x21, 0xb, 0x97, 0x81, 0x8f, 0x3b, 0x93, 0xe, 0x81, 0x44, 0x3c, 0x8d,
    0xc9, 1, 0x18, 8, 0x14, 0x1c, 0x12, 0x8d, 0x41, 0x92, 0x95, 0xd,
    0x80, 0x8d, 0x38, 0x35, 0x10, 0x1c, 1, 0xc, 0x18, 2, 9, 0x89,
    0x29, 0x81, 0x8b, 0x92, 3, 8, 0, 8, 3, 0x21, 0x2a, 0x97,
    0x81, 0x8a, 0xb, 0x18, 9, 0xb, 0xaa, 0xf, 0x80, 0xa7, 0x20, 0,
    0x14, 0x22, 0x18, 0x14, 0, 0x40, 0xff, 0x80, 0x42, 2, 0x1a, 8,
    0x81, 0x8d, 9, 0x89, 0xaa, 0x87, 0x41, 0xaa, 0x89, 0xf, 0x60, 0xce,
    0x3c, 0x2c, 0x81, 0x40, 0xa1, 0x81, 0x91, 0, 0x80, 0x9b, 0, 0x80,
    0x9c, 0, 0, 8, 0x81, 0x60, 0xd7, 0x76, 0x80, 0xb8, 0x80, 0xb8,
    0x80, 0xb8, 0x80, 0xb8, 0x80]"

definition unicode_prop_Emoji_table_0 :: "u8 list" where
  "unicode_prop_Emoji_table_0 =
    [0xa2, 5, 4, 0x89, 0xee, 3, 0x80, 0x5f, 0x8c, 0x80, 0x8b, 0x80,
    0x40, 0xd7, 0x80, 0x95, 0x80, 0xd9, 0x85, 0x8e, 0x81, 0x41, 0x6e, 0x81,
    0x8b, 0x80, 0x40, 0xa5, 0x80, 0x98, 0x8a, 0x1a, 0x40, 0xc6, 0x80, 0x40,
    0xe6, 0x81, 0x89, 0x80, 0x88, 0x80, 0xb9, 0x18, 0x84, 0x88, 1, 1,
    9, 3, 1, 0, 9, 2, 2, 0xf, 0x14, 0, 4, 0x8b,
    0x8a, 9, 0, 8, 0x80, 0x91, 1, 0x81, 0x91, 0x28, 0, 0xa,
    0xc, 1, 0xb, 0x81, 0x8a, 0xc, 9, 4, 8, 0, 0x81, 0x93,
    0xc, 0x28, 0x19, 3, 1, 1, 0x28, 1, 0, 0, 5, 2,
    5, 0x80, 0x89, 0x81, 0x8e, 1, 3, 0, 3, 0x10, 0x80, 0x8a,
    0x81, 0xaf, 0x82, 0x88, 0x80, 0x8d, 0x80, 0x8d, 0x80, 0x41, 0x73, 0x81,
    0x41, 0xce, 0x82, 0x92, 0x81, 0xb2, 3, 0x80]"

definition unicode_prop_Emoji_table_1 :: "u8 list" where
  "unicode_prop_Emoji_table_1 =
    [0x44, 0xd9, 0x80, 0x8b, 0x80, 0x42, 0x58, 0, 0x80, 0x61, 0xbd, 0x69,
    0x80, 0x40, 0xc9, 0x80, 0x40, 0x9f, 0x81, 0x8b, 0x81, 0x8d, 1, 0x89,
    0xca, 0x99, 1, 0x96, 0x80, 0x93, 1, 0x88, 0x94, 0x81, 0x40, 0xad,
    0xa1, 0x81, 0xef, 9, 2, 0x81, 0xd2, 0xa, 0x80, 0x41, 6, 0x80,
    0xbe, 0x8a, 0x28, 0x97, 0x31, 0xf, 0x8b, 1, 0x19, 3, 0x81, 0x8c,
    9, 7, 0x81, 0x88, 4, 0x82, 0x8b, 0x17, 0x11, 0, 3, 5,
    2, 5, 0xd5, 0xaf, 0xc5, 0x27, 0xb, 0x82, 0x89, 0x10, 1, 0x10,
    0x81, 0x89, 0x40, 0xe2, 0x8b, 0x18, 0x41, 0x1a, 0xae, 0x80, 0x89, 0x80,
    0x40, 0xb8, 0xef, 0x8c, 0x82, 0x8a, 0x82, 0xb8, 0, 0x83, 0x8f, 0x81,
    0x8b, 0x83, 0x89]"

definition unicode_prop_Emoji_table :: "u8 list" where
  "unicode_prop_Emoji_table =
     unicode_prop_Emoji_table_0 @ unicode_prop_Emoji_table_1"

definition unicode_prop_Emoji_Component_table :: "u8 list" where
  "unicode_prop_Emoji_Component_table =
    [0xa2, 5, 4, 0x89, 0x5f, 0xd2, 0x80, 0x40, 0xd4, 0x80, 0x60, 0xdd,
    0x2a, 0x80, 0x60, 0xf3, 0xd5, 0x99, 0x41, 0xfa, 0x84, 0x45, 0xaf, 0x83,
    0x6c, 6, 0x6b, 0xdf]"

definition unicode_prop_Emoji_Modifier_table :: "u8 list" where
  "unicode_prop_Emoji_Modifier_table =
    [0x61, 0xf3, 0xfa, 0x84]"

definition unicode_prop_Emoji_Modifier_Base_table :: "u8 list" where
  "unicode_prop_Emoji_Modifier_Base_table =
    [0x60, 0x26, 0x1c, 0x80, 0x40, 0xda, 0x80, 0x8f, 0x83, 0x61, 0xcc, 0x76,
    0x80, 0xbb, 0x11, 1, 0x82, 0xf4, 9, 0x8a, 0x94, 0x92, 0x10, 0x1a,
    2, 0x30, 0, 0x97, 0x80, 0x40, 0xc8, 0xb, 0x80, 0x94, 3, 0x81,
    0x40, 0xad, 0x12, 0x84, 0xd2, 0x80, 0x8f, 0x82, 0x88, 0x80, 0x8a, 0x80,
    0x42, 0x3e, 1, 7, 0x3d, 0x80, 0x88, 0x89, 0xa, 0xb7, 0x80, 0xbc,
    8, 8, 0x80, 0x90, 0x10, 0x8c, 0x40, 0xe4, 0x82, 0xa9, 0x88]"

definition unicode_prop_Emoji_Presentation_table :: "u8 list" where
  "unicode_prop_Emoji_Presentation_table =
    [0x60, 0x23, 0x19, 0x81, 0x40, 0xcc, 0x1a, 1, 0x80, 0x42, 8, 0x81,
    0x94, 0x81, 0xb1, 0x8b, 0xaa, 0x80, 0x92, 0x80, 0x8c, 7, 0x81, 0x90,
    0xc, 0xf, 4, 0x80, 0x94, 6, 8, 3, 1, 6, 3, 0x81,
    0x9b, 0x80, 0xa2, 0, 3, 0x10, 0x80, 0xbc, 0x82, 0x97, 0x80, 0x8d,
    0x80, 0x43, 0x5a, 0x81, 0xb2, 3, 0x80, 0x61, 0xc4, 0xad, 0x80, 0x40,
    0xc9, 0x80, 0x40, 0xbd, 1, 0x89, 0xca, 0x99, 0, 0x97, 0x80, 0x93,
    1, 0x20, 0x82, 0x94, 0x81, 0x40, 0xad, 0xa0, 0x8b, 0x88, 0x80, 0xc5,
    0x80, 0x95, 0x8b, 0xaa, 0x1c, 0x8b, 0x90, 0x10, 0x82, 0xc6, 0, 0x80,
    0x40, 0xba, 0x81, 0xbe, 0x8c, 0x18, 0x97, 0x91, 0x80, 0x99, 0x81, 0x8c,
    0x80, 0xd5, 0xd4, 0xaf, 0xc5, 0x28, 0x12, 0xb, 0x13, 0x8a, 0xe, 0x88,
    0x40, 0xe2, 0x8b, 0x18, 0x41, 0x1a, 0xae, 0x80, 0x89, 0x80, 0x40, 0xb8,
    0xef, 0x8c, 0x82, 0x8a, 0x82, 0xb8, 0, 0x83, 0x8f, 0x81, 0x8b, 0x83,
    0x89]"

definition unicode_prop_Extended_Pictographic_table_0 :: "u8 list" where
  "unicode_prop_Extended_Pictographic_table_0 =
    [0x40, 0xa8, 3, 0x80, 0x5f, 0x8c, 0x80, 0x8b, 0x80, 0x40, 0xd7, 0x80,
    0x95, 0x80, 0xd9, 0x85, 0x8e, 0x81, 0x41, 0x6e, 0x81, 0x8b, 0x80, 0x40,
    0xa5, 0x80, 0x98, 0x8a, 0x1a, 0x40, 0xc6, 0x80, 0x40, 0xe6, 0x81, 0x89,
    0x80, 0x88, 0x80, 0xb9, 0x18, 0x84, 0x88, 1, 1, 9, 3, 1,
    0, 9, 2, 2, 0xf, 0x14, 0, 4, 0x8b, 0x8a, 9, 0,
    8, 0x80, 0x91, 1, 0x81, 0x91, 0x28, 0, 0xa, 0xc, 1, 0xb,
    0x81, 0x8a, 0xc, 9, 4, 8, 0, 0x81, 0x93, 0xc, 0x28, 0x19,
    3, 1, 1, 0x28, 1, 0, 0, 5, 2, 5, 0x80, 0x89,
    0x81, 0x8e, 1, 3, 0, 3, 0x10, 0x80, 0x8a, 0x81, 0xaf, 0x82,
    0x88, 0x80, 0x8d, 0x80, 0x8d, 0x80, 0x41, 0x73, 0x81, 0x41, 0xce, 0x82,
    0x92, 0x81, 0xb2, 3, 0x80, 0x44, 0xd9, 0x80]"

definition unicode_prop_Extended_Pictographic_table_1 :: "u8 list" where
  "unicode_prop_Extended_Pictographic_table_1 =
    [0x8b, 0x80, 0x42, 0x58, 0, 0x80, 0x61, 0xbd, 0x69, 0x80, 0xa6, 0x83,
    0xe3, 0x8b, 0x8e, 0x81, 0x8e, 0x80, 0x8d, 0x81, 0xa4, 0x89, 0xef, 0x81,
    0x8b, 0x81, 0x8d, 1, 0x89, 0x92, 0xb7, 0x9a, 0x8e, 0x89, 0x80, 0x93,
    1, 0x88, 3, 0x88, 0x96, 0x85, 0x40, 0xbb, 0x81, 0xef, 9, 2,
    0x81, 0xd2, 0xa, 3, 0x84, 0x40, 0xfd, 0x80, 0xbe, 0x8a, 0x28, 0x97,
    0x31, 0xf, 0x8b, 1, 0x19, 3, 0x81, 0x8c, 9, 7, 0x81, 0x88,
    4, 0x82, 0x8b, 0x17, 0x11, 0, 3, 5, 2, 5, 0xd5, 0xaf,
    0xc5, 0x27, 0x81, 0x90, 0x10, 5, 0x81, 0x8c, 0x40, 0xd9, 0xa5, 0x8b,
    0x83, 0xb7, 0x87, 0x89, 0x85, 0xa7, 0x87, 0x9d, 0x81, 0x8b, 0x19, 0x8d,
    0x88, 0xa6, 0x8b, 0xae, 0x80, 0x89, 0x80, 0x40, 0xb8, 0xd7, 0x87, 0x8d,
    0x40, 0x91, 0x40, 0xff, 0x43, 0xfd]"

definition unicode_prop_Extended_Pictographic_table :: "u8 list" where
  "unicode_prop_Extended_Pictographic_table =
     unicode_prop_Extended_Pictographic_table_0 @ unicode_prop_Extended_Pictographic_table_1"

definition unicode_prop_Default_Ignorable_Code_Point_table :: "u8 list" where
  "unicode_prop_Default_Ignorable_Code_Point_table =
    [0x40, 0xac, 0x80, 0x42, 0xa0, 0x80, 0x42, 0xcb, 0x80, 0x4b, 0x41, 0x81,
    0x46, 0x52, 0x81, 0xd4, 0x84, 0x47, 0xfa, 0x84, 0x99, 0x84, 0xb0, 0x8f,
    0x50, 0xf3, 0x80, 0x60, 0xcc, 0x9a, 0x8f, 0x40, 0xee, 0x80, 0x40, 0x9f,
    0x80, 0xce, 0x88, 0x60, 0xbc, 0xa6, 0x83, 0x54, 0xce, 0x87, 0x6c, 0x2e,
    0x84, 0x4f, 0xff]"

definition unicode_prop_ID_Start_table_0 :: "u8 list" where
  "unicode_prop_ID_Start_table_0 =
    [0xc0, 0x99, 0x85, 0x99, 0xae, 0x80, 0x89, 3, 4, 0x96, 0x80, 0x9e,
    0x80, 0x41, 0xc9, 0x83, 0x8b, 0x8d, 0x26, 0, 0x80, 0x40, 0x80, 0x20,
    9, 0x18, 5, 0, 0x10, 0, 0x93, 0x80, 0xd2, 0x80, 0x40, 0x8a,
    0x87, 0x40, 0xa5, 0x80, 0xa5, 8, 0x85, 0xa8, 0xc6, 0x9a, 0x1b, 0xac,
    0xaa, 0xa2, 8, 0xe2, 0, 0x8e, 0xe, 0x81, 0x89, 0x11, 0x80, 0x8f,
    0, 0x9d, 0x9c, 0xd8, 0x8a, 0x80, 0x97, 0xa0, 0x88, 0xb, 4, 0x95,
    0x18, 0x88, 2, 0x80, 0x96, 0x98, 0x86, 0x8a, 0x84, 0x97, 6, 0x8f,
    0xa9, 0xb9, 0xb5, 0x10, 0x91, 6, 0x89, 0x8e, 0x8f, 0x1f, 9, 0x81,
    0x95, 6, 0, 0x13, 0x10, 0x8f, 0x80, 0x8c, 8, 0x82, 0x8d, 0x81,
    0x89, 7, 0x2b, 9, 0x95, 6, 1, 1, 1, 0x9e, 0x18, 0x80,
    0x92, 0x82, 0x8f, 0x88, 2, 0x80, 0x95, 6]"

definition unicode_prop_ID_Start_table_1 :: "u8 list" where
  "unicode_prop_ID_Start_table_1 =
    [1, 4, 0x10, 0x91, 0x80, 0x8e, 0x81, 0x96, 0x80, 0x8a, 0x39, 9,
    0x95, 6, 1, 4, 0x10, 0x9d, 8, 0x82, 0x8e, 0x80, 0x90, 0,
    0x2a, 0x10, 0x1a, 8, 0, 0xa, 0xa, 0x12, 0x8b, 0x95, 0x80, 0xb3,
    0x38, 0x10, 0x96, 0x80, 0x8f, 0x10, 0x99, 0x10, 9, 0x81, 0x9d, 3,
    0x38, 0x10, 0x96, 0x80, 0x89, 4, 0x10, 0x9d, 0x10, 0x81, 0x8e, 0x81,
    0x90, 0x88, 2, 0x80, 0xa8, 8, 0x8f, 4, 0x17, 0x82, 0x97, 0x2c,
    0x91, 0x82, 0x97, 0x80, 0x88, 0, 0xe, 0xb9, 0xaf, 1, 0x8b, 0x86,
    0xb9, 8, 0, 0x20, 0x97, 0, 0x80, 0x89, 1, 0x88, 1, 0x20,
    0x80, 0x94, 0x83, 0x9f, 0x80, 0xbe, 0x38, 0xa3, 0x9a, 0x84, 0xf2, 0xaa,
    0x93, 0x80, 0x8f, 0x2b, 0x1a, 2, 0xe, 0x13, 0x8c, 0x8b, 0x80, 0x90,
    0xa5, 0, 0x20, 0x81, 0xaa, 0x80, 0x41, 0x4c]"

definition unicode_prop_ID_Start_table_2 :: "u8 list" where
  "unicode_prop_ID_Start_table_2 =
    [3, 0xe, 0, 3, 0x81, 0xa8, 3, 0x81, 0xa0, 3, 0xe, 0,
    3, 0x81, 0x8e, 0x80, 0xb8, 3, 0x81, 0xc2, 0xa4, 0x8f, 0x8f, 0xd5,
    0xd, 0x82, 0x42, 0x6b, 0x81, 0x90, 0x80, 0x99, 0x84, 0xca, 0x82, 0x8a,
    0x86, 0x91, 0x8c, 0x92, 0x8d, 0x91, 0x8d, 0x8c, 2, 0x8e, 0xb3, 0xa2,
    3, 0x80, 0xc2, 0xd8, 0x86, 0xa8, 0, 0x84, 0xc5, 0x89, 0x9e, 0xb0,
    0x9d, 0xc, 0x8a, 0xab, 0x83, 0x99, 0xb5, 0x96, 0x88, 0xb4, 0xd1, 0x80,
    0xdc, 0xae, 0x90, 0x87, 0xb5, 0x9d, 0x8c, 0x81, 0x89, 0xab, 0x99, 0xa3,
    0xa8, 0x82, 0x89, 0xa3, 0x81, 0x8a, 0x84, 0xaa, 0xa, 0xa8, 0x18, 0x28,
    0xa, 4, 0x40, 0xbf, 0xbf, 0x41, 0x15, 0xd, 0x81, 0xa5, 0xd, 0xf,
    0, 0, 0, 0x80, 0x9e, 0x81, 0xb4, 6, 0, 0x12, 6, 0x13,
    0xd, 0x83, 0x8c, 0x22, 6, 0xf3, 0x80, 0x8c]"

definition unicode_prop_ID_Start_table_3 :: "u8 list" where
  "unicode_prop_ID_Start_table_3 =
    [0x80, 0x8f, 0x8c, 0xe4, 3, 1, 0x89, 0, 0xd, 0x28, 0, 0,
    0x80, 0x8f, 0xb, 0x24, 0x18, 0x90, 0xa8, 0x4a, 0x76, 0x40, 0xe4, 0x2b,
    0x11, 0x8b, 0xa5, 0, 0x20, 0x81, 0xb7, 0x30, 0x8f, 0x96, 0x88, 0x30,
    0x30, 0x30, 0x30, 0x30, 0x30, 0x30, 0x86, 0x42, 0x25, 0x82, 0x98, 0x88,
    0x34, 0xc, 0x83, 0xd5, 0x1c, 0x80, 0xd9, 3, 0x84, 0xaa, 0x80, 0xdd,
    0x90, 0x9f, 0xaf, 0x8f, 0x41, 0xff, 0x59, 0xbf, 0xbf, 0x60, 0x56, 0x8c,
    0xc2, 0xad, 0x81, 0x41, 0xc, 0x82, 0x8f, 0x89, 0x81, 0x93, 0xae, 0x8f,
    0x9e, 0x81, 0xcf, 0xa6, 0x88, 0x81, 0xe6, 0x81, 0xd1, 0x93, 0x90, 2,
    3, 0x80, 0x96, 0x9c, 0xb3, 0x8d, 0xb1, 0xbd, 0x2a, 0, 0x81, 0x8a,
    0x9b, 0x89, 0x96, 0x98, 0x9c, 0x86, 0xae, 0x9b, 0x80, 0x8f, 0x20, 0x89,
    0x89, 0x20, 0xa8, 0x96, 0x10, 0x87, 0x93, 0x96]"

definition unicode_prop_ID_Start_table_4 :: "u8 list" where
  "unicode_prop_ID_Start_table_4 =
    [0x10, 0x82, 0xb1, 0, 0x11, 0xc, 8, 0, 0x97, 0x11, 0x8a, 0x32,
    0x8b, 0x29, 0x29, 0x85, 0x88, 0x30, 0x30, 0xaa, 0x80, 0x8d, 0x85, 0xf2,
    0x9c, 0x60, 0x2b, 0xa3, 0x8b, 0x96, 0x83, 0xb0, 0x60, 0x21, 3, 0x41,
    0x6d, 0x81, 0xe9, 0xa5, 0x86, 0x8b, 0x24, 0, 0x89, 0x80, 0x8c, 4,
    0, 1, 1, 0x80, 0xeb, 0xa0, 0x41, 0x6a, 0x91, 0xbf, 0x81, 0xb5,
    0xa7, 0x8b, 0xf3, 0x20, 0x40, 0x86, 0xa3, 0x99, 0x85, 0x99, 0x8a, 0xd8,
    0x15, 0xd, 0xd, 0xa, 0xa2, 0x8b, 0x80, 0x99, 0x80, 0x92, 1, 0x80,
    0x8e, 0x81, 0x8d, 0xa1, 0xfa, 0xc4, 0xb4, 0x41, 0xa, 0x9c, 0x82, 0xb0,
    0xae, 0x9f, 0x8c, 0x9d, 0x84, 0xa5, 0x89, 0x9d, 0x81, 0xa3, 0x1f, 4,
    0xa9, 0x40, 0x9d, 0x91, 0xa3, 0x83, 0xa3, 0x83, 0xa7, 0x87, 0xb3, 0x8b,
    0x8a, 0x80, 0x8e, 6, 1, 0x80, 0x8a, 0x80]"

definition unicode_prop_ID_Start_table_5 :: "u8 list" where
  "unicode_prop_ID_Start_table_5 =
    [0x8e, 6, 1, 0x82, 0xb3, 0x8b, 0x41, 0x36, 0x88, 0x95, 0x89, 0x87,
    0x97, 0x28, 0xa9, 0x80, 0x88, 0xc4, 0x29, 0, 0xab, 1, 0x10, 0x81,
    0x96, 0x89, 0x96, 0x88, 0x9e, 0xc0, 0x92, 1, 0x89, 0x95, 0x89, 0x99,
    0x85, 0x99, 0xa5, 0xb7, 0x29, 0xbf, 0x80, 0x8e, 0x18, 0x10, 0x9c, 0xa9,
    0x9c, 0x82, 0x9c, 0xa2, 0x38, 0x9b, 0x9a, 0xb5, 0x89, 0x95, 0x89, 0x92,
    0x8c, 0x91, 0xed, 0xc8, 0xb6, 0xb2, 0x8c, 0xb2, 0x8c, 0xa3, 0xa5, 0x9b,
    0x88, 0x96, 0x40, 0xf9, 0xa9, 0x29, 0x8f, 0x85, 0xb7, 0x9c, 0x89, 7,
    0x95, 0xa9, 0x91, 0xad, 0x94, 0x9a, 0x96, 0x8b, 0xb4, 0xb8, 9, 0x80,
    0x8c, 0xac, 0x9f, 0x98, 0x99, 0xa3, 0x9c, 1, 7, 0xa2, 0x10, 0x8b,
    0xaf, 0x8d, 0x83, 0x94, 0, 0x80, 0xa2, 0x91, 0x80, 0x98, 0x92, 0x81,
    0xbe, 0x30, 0, 0x18, 0x8e, 0x80, 0x89, 0x86]"

definition unicode_prop_ID_Start_table_6 :: "u8 list" where
  "unicode_prop_ID_Start_table_6 =
    [0xae, 0xa5, 0x39, 9, 0x95, 6, 1, 4, 0x10, 0x91, 0x80, 0x8b,
    0x84, 0x9d, 0x89, 0, 8, 0x80, 0xa5, 0, 0x98, 0, 0x80, 0xab,
    0xb4, 0x91, 0x83, 0x93, 0x82, 0x9d, 0xaf, 0x93, 8, 0x80, 0x40, 0xb7,
    0xae, 0xa8, 0x83, 0xa3, 0xaf, 0x93, 0x80, 0xba, 0xaa, 0x8c, 0x80, 0xc6,
    0x9a, 0xa4, 0x86, 0x40, 0xb8, 0xab, 0xf3, 0xbf, 0x9e, 0x39, 1, 0x38,
    8, 0x97, 0x8e, 0, 0x80, 0xdd, 0x39, 0xa6, 0x8f, 0, 0x80, 0x9b,
    0x80, 0x89, 0xa7, 0x30, 0x94, 0x80, 0x8a, 0xad, 0x92, 0x80, 0x91, 0xc8,
    0x40, 0xc6, 0xa0, 0x9e, 0x88, 0x80, 0xa4, 0x90, 0x80, 0xb0, 0x9d, 0xef,
    0x30, 8, 0xa5, 0x94, 0x80, 0x98, 0x28, 8, 0x9f, 0x8d, 0x80, 0x96,
    0xab, 0x41, 3, 0x92, 0x8e, 0, 0x8c, 0x80, 0xa1, 0xfb, 0x80, 0xce,
    0x43, 0x99, 0xe5, 0xee, 0x90, 0x40, 0xc3, 0x4a]"

definition unicode_prop_ID_Start_table_7 :: "u8 list" where
  "unicode_prop_ID_Start_table_7 =
    [0x4b, 0xe0, 0x8e, 0x44, 0x2f, 0x90, 0x85, 0x98, 0x4f, 0x9a, 0x84, 0x42,
    0x46, 0x5a, 0xb8, 0x9d, 0x46, 0xe1, 0x42, 0x38, 0x86, 0x9e, 0x90, 0xce,
    0x90, 0x9d, 0x91, 0xaf, 0x8f, 0x83, 0x9e, 0x94, 0x84, 0x92, 0x41, 0xaf,
    0xac, 0x40, 0xd2, 0xbf, 0x9f, 0x98, 0x81, 0x98, 0xab, 0xca, 0x20, 0xc1,
    0x8c, 0xbf, 8, 0x80, 0x8d, 0x84, 0x88, 0x5c, 0xd5, 0xa8, 0x9f, 0xe0,
    0xf2, 0x60, 0x21, 0xfc, 0x18, 0x30, 8, 0x41, 0x22, 0x8e, 0x80, 0x9c,
    0x11, 0x80, 0x8d, 0x1f, 0x41, 0x8b, 0x49, 3, 0xea, 0x84, 0x8c, 0x82,
    0x88, 0x86, 0x89, 0x57, 0x65, 0xd4, 0x80, 0xc6, 1, 8, 9, 0xb,
    0x80, 0x8b, 0, 6, 0x80, 0xc0, 3, 0xf, 6, 0x80, 0x9b, 3,
    4, 0, 0x16, 0x80, 0x41, 0x53, 0x81, 0x98, 0x80, 0x98, 0x80, 0x9e,
    0x80, 0x98, 0x80, 0x9e, 0x80, 0x98, 0x80, 0x9e]"

definition unicode_prop_ID_Start_table_8 :: "u8 list" where
  "unicode_prop_ID_Start_table_8 =
    [0x80, 0x98, 0x80, 0x9e, 0x80, 0x98, 7, 0x47, 0x33, 0x9e, 0x2d, 0x41,
    4, 0xbd, 0x40, 0x91, 0xac, 0x89, 0x86, 0x8f, 0x80, 0x41, 0x40, 0x9d,
    0x91, 0xab, 0x41, 0xe3, 0x9b, 0x40, 0xe3, 0x9d, 8, 0x40, 0xce, 0x9e,
    2, 1, 6, 0xc, 0x88, 0x81, 0x40, 0xdf, 0x30, 0x18, 8, 0x8e,
    0x80, 0x40, 0xc4, 0xba, 0xc3, 0x30, 0x44, 0xb3, 0x18, 0x9a, 1, 0,
    8, 0x80, 0x89, 3, 0, 0, 0x28, 0x18, 0, 0, 2, 1,
    0, 8, 0, 0, 0, 0, 1, 0, 0xb, 6, 3, 3,
    0, 0x80, 0x89, 0x80, 0x90, 0x22, 4, 0x80, 0x90, 0x51, 0x43, 0x60,
    0xa6, 0xdf, 0x9f, 0x51, 0x1d, 0x81, 0x56, 0x8d, 0x81, 0x5d, 0x30, 0x8e,
    0x42, 0x6d, 0x49, 0xa1, 0x42, 0x1d, 0x45, 0xe1, 0x53, 0x4a, 0x84, 0x60,
    0x21, 0x29]"

definition unicode_prop_ID_Start_table :: "u8 list" where
  "unicode_prop_ID_Start_table =
     unicode_prop_ID_Start_table_0 @ unicode_prop_ID_Start_table_1 @ unicode_prop_ID_Start_table_2 @
     unicode_prop_ID_Start_table_3 @ unicode_prop_ID_Start_table_4 @ unicode_prop_ID_Start_table_5 @
     unicode_prop_ID_Start_table_6 @ unicode_prop_ID_Start_table_7 @ unicode_prop_ID_Start_table_8"

definition unicode_prop_Case_Ignorable_table_0 :: "u8 list" where
  "unicode_prop_Case_Ignorable_table_0 =
    [0xa6, 5, 0x80, 0x8a, 0x80, 0xa2, 0, 0x80, 0xc6, 3, 0, 3,
    1, 0x81, 0x41, 0xf6, 0x40, 0xbf, 0x19, 0x18, 0x88, 8, 0x80, 0x40,
    0xfa, 0x86, 0x40, 0xce, 4, 0x80, 0xb0, 0xac, 0, 1, 1, 0,
    0xab, 0x80, 0x8a, 0x85, 0x89, 0x8a, 0, 0xa2, 0x80, 0x89, 0x94, 0x8f,
    0x80, 0xe4, 0x38, 0x89, 3, 0xa0, 0, 0x80, 0x9d, 0x9a, 0xda, 0x8a,
    0xb9, 0x8a, 0x18, 8, 0x97, 0x97, 0xaa, 0x82, 0xab, 6, 0xc, 0x88,
    0xa8, 0xb9, 0xb6, 0, 3, 0x3b, 2, 0x86, 0x89, 0x81, 0x8c, 0x80,
    0x8e, 0x80, 0xb9, 3, 0x1f, 0x80, 0x93, 0x81, 0x99, 1, 0x81, 0xb8,
    3, 0xb, 9, 0x12, 0x80, 0x9d, 0xa, 0x80, 0x8a, 0x81, 0xb8, 3,
    0x20, 0xb, 0x80, 0x93, 0x81, 0x95, 0x28, 0x80, 0xb9, 1, 0, 0x1f,
    6, 0x81, 0x8a, 0x81, 0x9d, 0x80, 0xbc, 0x80]"

definition unicode_prop_Case_Ignorable_table_1 :: "u8 list" where
  "unicode_prop_Case_Ignorable_table_1 =
    [0x8b, 0x80, 0xb1, 2, 0x80, 0xb6, 0, 0x14, 0x10, 0x1e, 0x81, 0x8a,
    0x81, 0x9c, 0x80, 0xb9, 1, 5, 4, 0x81, 0x93, 0x81, 0x9b, 0x81,
    0xb8, 0xb, 0x1f, 0x80, 0x93, 0x81, 0x9c, 0x80, 0xc7, 6, 0x10, 0x80,
    0xd9, 1, 0x86, 0x8a, 0x88, 0xe1, 1, 0x88, 0x88, 0, 0x86, 0xc8,
    0x81, 0x9a, 0, 0, 0x80, 0xb6, 0x8d, 4, 1, 0x84, 0x8a, 0x80,
    0xa3, 0x88, 0x80, 0xe5, 0x18, 0x28, 9, 0x81, 0x98, 0xb, 0x82, 0x8f,
    0x83, 0x8c, 1, 0xd, 0x80, 0x8e, 0x80, 0xdd, 0x80, 0x42, 0x5f, 0x82,
    0x43, 0xb1, 0x82, 0x9c, 0x81, 0x9d, 0x81, 0x9d, 0x81, 0xbf, 8, 0x37,
    1, 0x8a, 0x10, 0x20, 0xac, 0x84, 0xb2, 0x80, 0xc0, 0x81, 0xa1, 0x80,
    0xf5, 0x13, 0x81, 0x88, 5, 0x82, 0x40, 0xda, 9, 0x80, 0xb9, 0,
    0x30, 0, 1, 0x3d, 0x89, 8, 0xa6, 7]"

definition unicode_prop_Case_Ignorable_table_2 :: "u8 list" where
  "unicode_prop_Case_Ignorable_table_2 =
    [0xad, 0x81, 0x8b, 0x93, 0x83, 0xaf, 0, 0x20, 4, 0x80, 0xa7, 0x88,
    0x8b, 0x81, 0x9f, 0x19, 8, 0x82, 0xb7, 0, 0xa, 0, 0x82, 0xb9,
    0x39, 0x81, 0xbf, 0x85, 0xd1, 0x10, 0x8c, 6, 0x18, 0x28, 0x11, 0xb1,
    0xbe, 0x8c, 0x80, 0xa1, 0xe4, 0x41, 0xbc, 0, 0x82, 0x8a, 0x82, 0x8c,
    0x82, 0x8c, 0x82, 0x8c, 0x81, 0x8b, 0x27, 0x81, 0x89, 1, 1, 0x84,
    0xb0, 0x20, 0x89, 0, 0x8c, 0x80, 0x8f, 0x8c, 0xb2, 0xa0, 0x4b, 0x8a,
    0x81, 0xf0, 0x82, 0xfc, 0x80, 0x8e, 0x80, 0xdf, 0x9f, 0xae, 0x80, 0x41,
    0xd4, 0x80, 0xa3, 0x1a, 0x24, 0x80, 0xdc, 0x85, 0xdc, 0x82, 0x60, 0x6f,
    0x15, 0x80, 0x44, 0xe1, 0x85, 0x41, 0xd, 0x80, 0xe1, 0x18, 0x89, 0,
    0x9b, 0x83, 0xcf, 0x81, 0x8d, 0xa1, 0xcd, 0x80, 0x96, 0x82, 0xe5, 0x1a,
    0xf, 2, 3, 0x80, 0x98, 0xc, 0x80, 0x40]"

definition unicode_prop_Case_Ignorable_table_3 :: "u8 list" where
  "unicode_prop_Case_Ignorable_table_3 =
    [0x96, 0x81, 0x99, 0x91, 0x8c, 0x80, 0xa5, 0x87, 0x98, 0x8a, 0xad, 0x82,
    0xaf, 1, 0x19, 0x81, 0x90, 0x80, 0x94, 0x81, 0xc1, 0x29, 9, 0x81,
    0x8b, 7, 0x80, 0xa2, 0x80, 0x8a, 0x80, 0xb2, 0, 0x11, 0xc, 8,
    0x80, 0x9a, 0x80, 0x8d, 0xc, 8, 0x80, 0xe3, 0x84, 0x88, 0x82, 0xf8,
    1, 3, 0x80, 0x60, 0x4f, 0x2f, 0x80, 0x40, 0x92, 0x90, 0x42, 0x3c,
    0x8f, 0x10, 0x8b, 0x8f, 0xa1, 1, 0x80, 0x40, 0xa8, 6, 5, 0x80,
    0x8a, 0x80, 0xa2, 0, 0x80, 0xae, 0x80, 0xac, 0x81, 0xc2, 0x80, 0x94,
    0x82, 0x42, 0, 0x80, 0x40, 0xe1, 0x80, 0x40, 0x94, 0x84, 0x44, 4,
    0x28, 0xa9, 0x80, 0x88, 0x42, 0x45, 0x10, 0xc, 0x83, 0xa7, 0x13, 0x80,
    0x40, 0xa4, 0x81, 0x42, 0x3c, 0x83, 0xa5, 0x80, 0x99, 0x20, 0x80, 0x41,
    0x3a, 0x81, 0x97, 0x80, 0xb3, 0x85, 0xc5, 0x8a]"

definition unicode_prop_Case_Ignorable_table_4 :: "u8 list" where
  "unicode_prop_Case_Ignorable_table_4 =
    [0xb0, 0x83, 0xfa, 0x80, 0xb5, 0x8e, 0xa8, 1, 0x81, 0x89, 0x82, 0xb0,
    0x19, 9, 3, 0x80, 0x89, 0x80, 0xb1, 0x82, 0xa3, 0x20, 0x87, 0xbd,
    0x80, 0x8b, 0x81, 0xb3, 0x88, 0x89, 0x19, 0x80, 0xde, 0x11, 0, 0xd,
    1, 0x80, 0x40, 0x9c, 2, 0x87, 0x94, 0x81, 0xb8, 0xa, 0x80, 0xa4,
    0x32, 0x84, 0xc5, 0x85, 0x8c, 0, 0, 0x80, 0x8d, 0x81, 0xd4, 0x39,
    0x10, 0x80, 0x96, 0x80, 0xd3, 0x28, 3, 8, 0x81, 0x40, 0xed, 0x1d,
    8, 0x81, 0x9a, 0x81, 0xd4, 0x39, 0, 0x81, 0xe9, 0, 1, 0x28,
    0x80, 0xe4, 0, 1, 0x18, 0x84, 0x41, 2, 0x88, 1, 0x40, 0xff,
    8, 3, 0x80, 0x40, 0x8f, 0x19, 0xb, 0x80, 0x9f, 0x89, 0xa7, 0x29,
    0x1f, 0x80, 0x88, 0x29, 0x82, 0xad, 0x8c, 1, 0x40, 0xc5, 0, 0x10,
    0x80, 0x40, 0xc8, 0x30, 0x28, 0x80, 0xd1, 0x95]"

definition unicode_prop_Case_Ignorable_table_5 :: "u8 list" where
  "unicode_prop_Case_Ignorable_table_5 =
    [0xe, 1, 1, 0xf9, 0x2a, 0, 8, 0x30, 0x80, 0xc7, 0xa, 0,
    0x80, 0xc0, 0x80, 0x41, 0x18, 0x81, 0x8a, 0x81, 0xb3, 0x24, 0, 0x80,
    0x96, 0x80, 0x54, 0xd4, 0x90, 0x85, 0x8e, 0x60, 0x2c, 0xc7, 0x8b, 0x12,
    0x49, 0xbf, 0x84, 0xba, 0x86, 0x88, 0x83, 0x41, 0xfb, 0x82, 0xa7, 0x81,
    0x41, 0xe1, 0x80, 0xbe, 0x90, 0xbf, 8, 0x81, 0x8c, 0x81, 0x60, 0x3f,
    0xfb, 0x18, 0x30, 0x81, 0x4c, 0x9d, 8, 0x83, 0x52, 0x5b, 0xad, 0x81,
    0x96, 0x42, 0x1f, 0x82, 0x88, 0x8f, 0xe, 0x9d, 0x83, 0x40, 0x93, 0x82,
    0x47, 0xba, 0xb6, 0x83, 0xb1, 0x38, 0x8d, 0x80, 0x95, 0x20, 0x8e, 0x45,
    0x4f, 0x30, 0x90, 0xe, 1, 4, 0x84, 0xbd, 0xa0, 0x80, 0x40, 0x9f,
    0x8d, 0x41, 0x6f, 0x80, 0xbc, 0x83, 0x41, 0xfa, 0x84, 0x40, 0xfd, 0x81,
    0x40, 0xf2, 1, 6, 0xc, 0x80, 0x88, 0x80]"

definition unicode_prop_Case_Ignorable_table_6 :: "u8 list" where
  "unicode_prop_Case_Ignorable_table_6 =
    [0x41, 0xcf, 0x86, 0xec, 0x87, 0x4a, 0xae, 0x84, 0x6c, 0xc, 0, 0x80,
    0x9d, 0xdf, 0xff, 0x40, 0xef]"

definition unicode_prop_Case_Ignorable_table :: "u8 list" where
  "unicode_prop_Case_Ignorable_table =
     unicode_prop_Case_Ignorable_table_0 @ unicode_prop_Case_Ignorable_table_1 @ unicode_prop_Case_Ignorable_table_2 @
     unicode_prop_Case_Ignorable_table_3 @ unicode_prop_Case_Ignorable_table_4 @ unicode_prop_Case_Ignorable_table_5 @
     unicode_prop_Case_Ignorable_table_6"

definition unicode_prop_Cased1_table :: "u8 list" where
  "unicode_prop_Cased1_table =
    [0x40, 0xa9, 0x80, 0x8e, 0x80, 0xfc, 0x80, 0xd3, 0x80, 0x9b, 0x81, 0x8d,
    2, 0x80, 0xe1, 0x80, 0x91, 0x85, 0x9a, 1, 0, 1, 0x11, 3,
    4, 8, 1, 8, 0x30, 8, 1, 0x15, 0x20, 1, 0x31, 0x99,
    0x31, 0x9d, 0x84, 0x40, 0x94, 0x80, 0xd6, 0x82, 0xa6, 0x80, 0x41, 0x62,
    0x80, 0xa6, 0x80, 0x4b, 0x72, 0x80, 0x4c, 2, 0xf8, 2, 0x80, 0x8f,
    0x80, 0xb0, 0x40, 0xdb, 8, 0x80, 0x41, 0xd0, 0x80, 0x8c, 0x80, 0x8f,
    0x8c, 0xe4, 3, 1, 0x89, 0, 0x14, 0x28, 0x10, 0x11, 2, 1,
    0x18, 0xb, 0x24, 0x4b, 0x26, 1, 1, 0x86, 0xe5, 0x80, 0x60, 0x79,
    0xb6, 0x81, 0x40, 0x91, 0x81, 0xbd, 0x88, 0x94, 5, 0x80, 0x98, 0x80,
    0xc0, 0x1a, 0x82, 0x43, 0x34, 0xa2, 6, 0x80, 0x8d, 0x60, 0x5c, 0x15,
    1, 0x10, 0xa9, 0x80, 0x88, 0x60, 0xcc, 0x44, 0xd4, 0x80, 0xc6, 1,
    8, 9, 0xb, 0x80, 0x8b, 0, 6, 0x80, 0xc0, 3, 0xf, 6,
    0x80, 0x9b, 3, 4, 0, 0x16, 0x80, 0x41, 0x53, 0x81, 0x98, 0x80,
    0x98, 0x80, 0x9e, 0x80, 0x98, 0x80, 0x9e, 0x80, 0x98, 0x80, 0x9e, 0x80,
    0x98, 0x80, 0x9e, 0x80, 0x98, 7, 0x47, 0x33, 0x89, 0x80, 0x93, 0x2d,
    0x41, 4, 0xbd, 0x50, 0xc1, 0x99, 0x85, 0x99, 0x85, 0x99]"

definition unicode_prop_Cased1_index :: "u8 list" where
  "unicode_prop_Cased1_index =
    [0xb9, 2, 0x80, 0xa0, 0x1e, 0x40, 0x9e, 0xa6, 0x40, 0x55, 0xd4, 0x21,
    0x15, 0xd7, 0x21, 0x8a, 0xf1, 1]"

definition unicode_prop_Case_Ignorable_index :: "u8 list" where
  "unicode_prop_Case_Ignorable_index =
    [0xbe, 5, 0, 0xfe, 7, 0, 0x52, 0xa, 0xa0, 0xc1, 0xb, 0,
    0x82, 0xd, 0, 0x3f, 0x10, 0x80, 0xd4, 0x17, 0x40, 0xde, 0x1a, 0x20,
    0xe9, 0x1c, 0, 0x72, 0x20, 0, 0x16, 0xa0, 0x40, 0xc6, 0xa8, 0x40,
    0xc2, 0xaa, 0xa0, 0x30, 0xfe, 0, 0xb1, 7, 0x41, 0x51, 0xf, 1,
    0xd0, 0x11, 1, 0x5f, 0x14, 1, 0x44, 0x19, 0x61, 0xa8, 0x1c, 1,
    0x2a, 0x61, 0x61, 0xff, 0xaf, 1, 0x19, 0xe0, 0x61, 0, 0xe7, 1,
    0xf0, 1, 0xe]"

definition unicode_prop_ID_Start_index :: "u8 list" where
  "unicode_prop_ID_Start_index =
    [0xf6, 3, 0x20, 0xa6, 7, 0, 0xa9, 9, 0x20, 0xb1, 0xa, 0,
    0xba, 0xb, 0x20, 0x3b, 0xd, 0x20, 0xc7, 0xe, 0x20, 0x49, 0x12, 0,
    0x9b, 0x16, 0, 0xac, 0x19, 0, 0xc0, 0x1d, 0x80, 0x80, 0x20, 0x20,
    0x70, 0x2d, 0, 0, 0x32, 0, 6, 0xa8, 0, 0x77, 0xaa, 0,
    0xfc, 0xd7, 0, 0xfd, 0xfe, 0x40, 0xd1, 2, 1, 0xb2, 5, 0x21,
    0xf6, 8, 1, 0x49, 0xc, 1, 0x76, 0x10, 1, 0xdf, 0x12, 0x21,
    0xc8, 0x14, 0x41, 0x42, 0x19, 0x21, 0x31, 0x1d, 0x61, 0xf1, 0x2f, 0x41,
    0x78, 0x6b, 1, 0x23, 0xb1, 0xa1, 0xad, 0xd4, 1, 0x6f, 0xd7, 1,
    0xee, 0xe5, 1, 0x38, 0xee, 1, 0xe0, 0xa6, 0x42, 0x7a, 0x34, 3]"

definition unicode_prop_ID_Continue1_index :: "u8 list" where
  "unicode_prop_ID_Continue1_index =
    [0xfa, 6, 0, 0x70, 9, 0, 0xf0, 0xa, 0x40, 0x57, 0xc, 0,
    0xf0, 0xd, 0x60, 0xc7, 0xf, 0x20, 0xea, 0x17, 0x40, 0xec, 0x1a, 0,
    0xe, 0x20, 0x40, 0x7e, 0xa6, 0x20, 0xda, 0xa9, 0x20, 0x10, 0xfe, 0x40,
    0x40, 0xa, 0x41, 0xbb, 0x10, 0x21, 0x4e, 0x13, 0x41, 0xde, 0x15, 1,
    0xe5, 0x19, 1, 0x5a, 0x1d, 1, 0xf5, 0x6a, 0x21, 0x8c, 0xd1, 0x61,
    0x37, 0xe1, 0x41, 0xf0, 1, 0xe]"

definition unicode_prop_White_Space_index :: "u8 list" where
  "unicode_prop_White_Space_index =
    [1, 0x30, 0]"

definition unicode_prop_table :: "u8 list list" where
  "unicode_prop_table =
    [unicode_prop_Hyphen_table,
     unicode_prop_Other_Math_table,
     unicode_prop_Other_Alphabetic_table,
     unicode_prop_Other_Lowercase_table,
     unicode_prop_Other_Uppercase_table,
     unicode_prop_Other_Grapheme_Extend_table,
     unicode_prop_Other_Default_Ignorable_Code_Point_table,
     unicode_prop_Other_ID_Start_table,
     unicode_prop_Other_ID_Continue_table,
     unicode_prop_Prepended_Concatenation_Mark_table,
     unicode_prop_ID_Continue1_table,
     unicode_prop_XID_Start1_table,
     unicode_prop_XID_Continue1_table,
     unicode_prop_Changes_When_Titlecased1_table,
     unicode_prop_Changes_When_Casefolded1_table,
     unicode_prop_Changes_When_NFKC_Casefolded1_table,
     unicode_prop_Basic_Emoji1_table,
     unicode_prop_Basic_Emoji2_table,
     unicode_prop_RGI_Emoji_Flag_Sequence_table,
     unicode_prop_Emoji_Keycap_Sequence_table,
     unicode_prop_ASCII_Hex_Digit_table,
     unicode_prop_Bidi_Control_table,
     unicode_prop_Dash_table,
     unicode_prop_Deprecated_table,
     unicode_prop_Diacritic_table,
     unicode_prop_Extender_table,
     unicode_prop_Hex_Digit_table,
     unicode_prop_IDS_Unary_Operator_table,
     unicode_prop_IDS_Binary_Operator_table,
     unicode_prop_IDS_Trinary_Operator_table,
     unicode_prop_Ideographic_table,
     unicode_prop_Join_Control_table,
     unicode_prop_Logical_Order_Exception_table,
     unicode_prop_Modifier_Combining_Mark_table,
     unicode_prop_Noncharacter_Code_Point_table,
     unicode_prop_Pattern_Syntax_table,
     unicode_prop_Pattern_White_Space_table,
     unicode_prop_Quotation_Mark_table,
     unicode_prop_Radical_table,
     unicode_prop_Regional_Indicator_table,
     unicode_prop_Sentence_Terminal_table,
     unicode_prop_Soft_Dotted_table,
     unicode_prop_Terminal_Punctuation_table,
     unicode_prop_Unified_Ideograph_table,
     unicode_prop_Variation_Selector_table,
     unicode_prop_White_Space_table,
     unicode_prop_Bidi_Mirrored_table,
     unicode_prop_Emoji_table,
     unicode_prop_Emoji_Component_table,
     unicode_prop_Emoji_Modifier_table,
     unicode_prop_Emoji_Modifier_Base_table,
     unicode_prop_Emoji_Presentation_table,
     unicode_prop_Extended_Pictographic_table,
     unicode_prop_Default_Ignorable_Code_Point_table,
     unicode_prop_ID_Start_table,
     unicode_prop_Case_Ignorable_table]"

subsection \<open>General categories and scripts\<close>

definition unicode_gc_table_0 :: "u8 list" where
  "unicode_gc_table_0 =
    [0xfa, 0x18, 0x17, 0x56, 0xd, 0x56, 0x12, 0x13, 0x16, 0xc, 0x16, 0x11,
    0x36, 0xe9, 2, 0x36, 0x4c, 0x36, 0xe1, 0x12, 0x12, 0x16, 0x13, 0xe,
    0x10, 0xe, 0xe2, 0x12, 0x12, 0xc, 0x13, 0xc, 0xfa, 0x19, 0x17, 0x16,
    0x6d, 0xf, 0x16, 0xe, 0xf, 5, 0x14, 0xc, 0x1b, 0xf, 0xe, 0xf,
    0xc, 0x2b, 0xe, 2, 0x36, 0xe, 0xb, 5, 0x15, 0x4b, 0x16, 0xe1,
    0xf, 0xc, 0xc1, 0xe2, 0x10, 0xc, 0xe2, 0, 0xff, 0x30, 2, 0xff,
    8, 2, 0xff, 0x27, 0xbf, 0x22, 0x21, 2, 0x5f, 0x5f, 0x21, 0x22,
    0x61, 2, 0x21, 2, 0x41, 0x42, 0x21, 2, 0x21, 2, 0x9f, 0x7f,
    2, 0x5f, 0x5f, 0x21, 2, 0x5f, 0x3f, 2, 5, 0x3f, 0x22, 0x65,
    1, 3, 2, 1, 3, 2, 1, 3, 2, 0xff, 8, 2,
    0xff, 0xa, 2, 1, 3, 2, 0x5f, 0x21]"

definition unicode_gc_table_1 :: "u8 list" where
  "unicode_gc_table_1 =
    [2, 0xff, 0x32, 0xa2, 0x21, 2, 0x21, 0x22, 0x5f, 0x41, 2, 0xff,
    0, 0xe2, 0x3c, 0x25, 0xe2, 0x12, 0xe4, 0xa, 0x6e, 0xe4, 4, 0xee,
    6, 0x84, 0xce, 4, 0xe, 4, 0xee, 9, 0xe6, 0x68, 0x7f, 4,
    0xe, 0x3f, 0x20, 4, 0x42, 0x16, 1, 0x60, 0x2e, 1, 0x16, 0x41,
    0, 1, 0, 0x21, 2, 0xe1, 9, 0, 0xe1, 1, 0xe2, 0x1b,
    0x3f, 2, 0x41, 0x42, 0xff, 0x10, 0x62, 0x3f, 0xc, 0x5f, 0x3f, 2,
    0xe1, 0x2b, 0xe2, 0x28, 0xff, 0x1a, 0xf, 0x86, 0x28, 0xff, 0x2f, 0xff,
    6, 2, 0xff, 0x58, 0, 0xe1, 0x1e, 0x20, 4, 0xb6, 0xe2, 0x21,
    0x16, 0x11, 0x20, 0x2f, 0xd, 0, 0xe6, 0x25, 0x11, 6, 0x16, 0x26,
    0x16, 0x26, 0x16, 6, 0xe0, 0, 0xe5, 0x13, 0x60, 0x65, 0x36, 0xe0,
    3, 0xbb, 0x4c, 0x36, 0xd, 0x36, 0x2f, 0xe6]"

definition unicode_gc_table_2 :: "u8 list" where
  "unicode_gc_table_2 =
    [3, 0x16, 0x1b, 0x56, 0xe5, 0x18, 4, 0xe5, 2, 0xe6, 0xd, 0xe9,
    2, 0x76, 0x25, 6, 0xe5, 0x5b, 0x16, 5, 0xc6, 0x1b, 0xf, 0xa6,
    0x24, 0x26, 0xf, 0x66, 0x25, 0xe9, 2, 0x45, 0x2f, 5, 0xf6, 6,
    0, 0x1b, 5, 6, 0xe5, 0x16, 0xe6, 0x13, 0x20, 0xe5, 0x51, 0xe6,
    3, 5, 0xe0, 6, 0xe9, 2, 0xe5, 0x19, 0xe6, 1, 0x24, 0xf,
    0x56, 4, 0x20, 6, 0x2d, 0xe5, 0xe, 0x66, 4, 0xe6, 1, 4,
    0x46, 4, 0x86, 0x20, 0xf6, 7, 0, 0xe5, 0x11, 0x46, 0x20, 0x16,
    0, 0xe5, 3, 0x80, 0xe5, 0x10, 0xe, 0xc5, 0x3b, 0x80, 0xe6, 1,
    0xe5, 0x21, 4, 0xe6, 0x10, 0x1b, 0xe6, 0x18, 7, 0xe5, 0x2e, 6,
    7, 6, 5, 0x47, 0xe6, 0, 0x67, 6, 0x27, 5, 0xc6, 0xe5,
    2, 0x26, 0x36, 0xe9, 2, 0x16, 4, 0xe5]"

definition unicode_gc_table_3 :: "u8 list" where
  "unicode_gc_table_3 =
    [7, 6, 0x27, 0, 0xe5, 0, 0x20, 0x25, 0x20, 0xe5, 0xe, 0,
    0xc5, 0, 5, 0x40, 0x65, 0x20, 6, 5, 0x47, 0x66, 0x20, 0x27,
    0x20, 0x27, 6, 5, 0xe0, 0, 7, 0x60, 0x25, 0, 0x45, 0x26,
    0x20, 0xe9, 2, 0x25, 0x2d, 0xab, 0xf, 0xd, 5, 0x16, 6, 0x20,
    0x26, 7, 0, 0xa5, 0x60, 0x25, 0x20, 0xe5, 0xe, 0, 0xc5, 0,
    0x25, 0, 0x25, 0, 0x25, 0x20, 6, 0, 0x47, 0x26, 0x60, 0x26,
    0x20, 0x46, 0x40, 6, 0xc0, 0x65, 0, 5, 0xc0, 0xe9, 2, 0x26,
    0x45, 6, 0x16, 0xe0, 2, 0x26, 7, 0, 0xe5, 1, 0, 0x45,
    0, 0xe5, 0xe, 0, 0xc5, 0, 0x25, 0, 0x85, 0x20, 6, 5,
    0x47, 0x86, 0, 0x26, 7, 0, 0x27, 6, 0x20, 5, 0xe0, 7,
    0x25, 0x26, 0x20, 0xe9, 2, 0x16, 0xd, 0xc0]"

definition unicode_gc_table_4 :: "u8 list" where
  "unicode_gc_table_4 =
    [5, 0xa6, 0, 6, 0x27, 0, 0xe5, 0, 0x20, 0x25, 0x20, 0xe5,
    0xe, 0, 0xc5, 0, 0x25, 0, 0x85, 0x20, 6, 5, 7, 6,
    7, 0x66, 0x20, 0x27, 0x20, 0x27, 6, 0xc0, 0x26, 7, 0x60, 0x25,
    0, 0x45, 0x26, 0x20, 0xe9, 2, 0xf, 5, 0xab, 0xe0, 2, 6,
    5, 0, 0xa5, 0x40, 0x45, 0, 0x65, 0x40, 0x25, 0, 5, 0,
    0x25, 0x40, 0x25, 0x40, 0x45, 0x40, 0xe5, 4, 0x60, 0x27, 6, 0x27,
    0x40, 0x47, 0, 0x47, 6, 0x20, 5, 0xa0, 7, 0xe0, 6, 0xe9,
    2, 0x4b, 0xaf, 0xd, 0xf, 0x80, 6, 0x47, 6, 0xe5, 0, 0,
    0x45, 0, 0xe5, 0xf, 0, 0xe5, 8, 0x20, 6, 5, 0x46, 0x67,
    0, 0x46, 0, 0x66, 0xc0, 0x26, 0, 0x45, 0, 0x25, 0x20, 0x25,
    0x26, 0x20, 0xe9, 2, 0xc0, 0x16, 0xcb, 0xf]"

definition unicode_gc_table_5 :: "u8 list" where
  "unicode_gc_table_5 =
    [5, 6, 0x27, 0x16, 0xe5, 0, 0, 0x45, 0, 0xe5, 0xf, 0,
    0xe5, 2, 0, 0x85, 0x20, 6, 5, 7, 6, 0x87, 0, 6,
    0x27, 0, 0x27, 0x26, 0xc0, 0x27, 0x80, 0x45, 0, 0x25, 0x26, 0x20,
    0xe9, 2, 0, 0x25, 7, 0xe0, 4, 0x26, 0x27, 0xe5, 1, 0,
    0x45, 0, 0xe5, 0x21, 0x26, 5, 0x47, 0x66, 0, 0x47, 0, 0x47,
    6, 5, 0xf, 0x60, 0x45, 7, 0xcb, 0x45, 0x26, 0x20, 0xe9, 2,
    0xeb, 1, 0xf, 0xa5, 0, 6, 0x27, 0, 0xe5, 0xa, 0x40, 0xe5,
    0x10, 0, 0xe5, 1, 0, 5, 0x20, 0xc5, 0x40, 6, 0x60, 0x47,
    0x46, 0, 6, 0, 0xe7, 0, 0xa0, 0xe9, 2, 0x20, 0x27, 0x16,
    0xe0, 4, 0xe5, 0x28, 6, 0x25, 0xc6, 0x60, 0xd, 0xa5, 4, 0xe6,
    0, 0x16, 0xe9, 2, 0x36, 0xe0, 0x1d, 0x25]"

definition unicode_gc_table_6 :: "u8 list" where
  "unicode_gc_table_6 =
    [0, 5, 0, 0x85, 0, 0xe5, 0x10, 0, 5, 0, 0xe5, 2,
    6, 0x25, 0xe6, 1, 5, 0x20, 0x85, 0, 4, 0, 0xc6, 0,
    0xe9, 2, 0x20, 0x65, 0xe0, 0x18, 5, 0x4f, 0xf6, 7, 0xf, 0x16,
    0x4f, 0x26, 0xaf, 0xe9, 2, 0xeb, 2, 0xf, 6, 0xf, 6, 0xf,
    6, 0x12, 0x13, 0x12, 0x13, 0x27, 0xe5, 0, 0, 0xe5, 0x1c, 0x60,
    0xe6, 6, 7, 0x86, 0x16, 0x26, 0x85, 0xe6, 3, 0, 0xe6, 0x1c,
    0, 0xef, 0, 6, 0xaf, 0, 0x2f, 0x96, 0x6f, 0x36, 0xe0, 0x1d,
    0xe5, 0x23, 0x27, 0x66, 7, 0xa6, 7, 0x26, 0x27, 0x26, 5, 0xe9,
    2, 0xb6, 0xa5, 0x27, 0x26, 0x65, 0x46, 5, 0x47, 0x25, 0xc7, 0x45,
    0x66, 0xe5, 5, 6, 0x27, 0x26, 0xa7, 6, 5, 7, 0xe9, 2,
    0x47, 6, 0x2f, 0xe1, 0x1e, 0, 1, 0x80]"

definition unicode_gc_table_7 :: "u8 list" where
  "unicode_gc_table_7 =
    [1, 0x20, 0xe2, 0x23, 0x16, 4, 0x42, 0xe5, 0x80, 0xc1, 0, 0x65,
    0x20, 0xc5, 0, 5, 0, 0x65, 0x20, 0xe5, 0x21, 0, 0x65, 0x20,
    0xe5, 0x19, 0, 0x65, 0x20, 0xc5, 0, 5, 0, 0x65, 0x20, 0xe5,
    7, 0, 0xe5, 0x31, 0, 0x65, 0x20, 0xe5, 0x3b, 0x20, 0x46, 0xf6,
    1, 0xeb, 0xc, 0x40, 0xe5, 8, 0xef, 2, 0xa0, 0xe1, 0x4e, 0x20,
    0xa2, 0x20, 0x11, 0xe5, 0x81, 0xe4, 0xf, 0x16, 0xe5, 9, 0x17, 0xe5,
    0x12, 0x12, 0x13, 0x40, 0xe5, 0x43, 0x56, 0x4a, 0xe5, 0, 0xc0, 0xe5,
    0xa, 0x46, 7, 0xe0, 1, 0xe5, 0xb, 0x26, 7, 0x36, 0xe0, 1,
    0xe5, 0xa, 0x26, 0xe0, 4, 0xe5, 5, 0, 0x45, 0, 0x26, 0xe0,
    4, 0xe5, 0x2c, 0x26, 7, 0xc6, 0xe7, 0, 6, 0x27, 0xe6, 3,
    0x56, 4, 0x56, 0xd, 5, 6, 0x20, 0xe9]"

definition unicode_gc_table_8 :: "u8 list" where
  "unicode_gc_table_8 =
    [2, 0xa0, 0xeb, 2, 0xa0, 0xb6, 0x11, 0x76, 0x46, 0x1b, 6, 0xe9,
    2, 0xa0, 0xe5, 0x1b, 4, 0xe5, 0x2d, 0xc0, 0x85, 0x26, 0xe5, 0x1a,
    6, 5, 0x80, 0xe5, 0x3e, 0xe0, 2, 0xe5, 0x17, 0, 0x46, 0x67,
    0x26, 0x47, 0x60, 0x27, 6, 0xa7, 0x46, 0x60, 0xf, 0x40, 0x36, 0xe9,
    2, 0xe5, 0x16, 0x20, 0x85, 0xe0, 3, 0xe5, 0x24, 0x60, 0xe5, 0x12,
    0xa0, 0xe9, 2, 0xb, 0x40, 0xef, 0x1a, 0xe5, 0xf, 0x26, 0x27, 6,
    0x20, 0x36, 0xe5, 0x2d, 7, 6, 7, 0xc6, 0, 6, 7, 6,
    0x27, 0xe6, 0, 0xa7, 0xe6, 2, 0x20, 6, 0xe9, 2, 0xa0, 0xe9,
    2, 0xa0, 0xd6, 4, 0xb6, 0x20, 0xe6, 6, 8, 0xe6, 0x17, 0x20,
    0xe6, 4, 0xe0, 0xc, 0x66, 7, 0xe5, 0x27, 6, 7, 0x86, 7,
    6, 0x87, 6, 0x27, 0xe5, 0, 0, 0x36]"

definition unicode_gc_table_9 :: "u8 list" where
  "unicode_gc_table_9 =
    [0xe9, 2, 0xd6, 0xef, 2, 0xe6, 1, 0xef, 1, 0x56, 0x26, 7,
    0xe5, 0x16, 7, 0x66, 0x27, 0x26, 7, 0x46, 0x25, 0xe9, 2, 0xe5,
    0x24, 6, 7, 0x26, 0x47, 6, 7, 0x46, 0x27, 0xe0, 0, 0x76,
    0xe5, 0x1c, 0xe7, 0, 0xe6, 0, 0x27, 0x26, 0x40, 0x96, 0xe9, 2,
    0x40, 0x45, 0xe9, 2, 0xe5, 0x16, 0xa4, 0x36, 0xe2, 1, 0x3f, 0x80,
    0xe1, 0x23, 0x20, 0x41, 0xf6, 0, 0xe0, 0, 0x46, 0x16, 0xe6, 5,
    7, 0xc6, 0x65, 6, 0xa5, 6, 0x25, 7, 0x26, 5, 0x80, 0xe2,
    0x24, 0xe4, 0x37, 0xe2, 5, 4, 0xe2, 0x1a, 0xe4, 0x1d, 0xe6, 0x38,
    0xff, 0x80, 0xe, 0xe2, 0, 0xff, 0x5a, 0xe2, 0, 0xe1, 0, 0xa2,
    0x20, 0xa1, 0x20, 0xe2, 0, 0xe1, 0, 0xe2, 0, 0xe1, 0, 0xa2,
    0x20, 0xa1, 0x20, 0xe2, 0, 0, 1, 0]"

definition unicode_gc_table_10 :: "u8 list" where
  "unicode_gc_table_10 =
    [1, 0, 1, 0, 0x3f, 0xc2, 0xe1, 0, 0xe2, 6, 0x20, 0xe2,
    0, 0xe3, 0, 0xe2, 0, 0xe3, 0, 0xe2, 0, 0xe3, 0, 0x82,
    0, 0x22, 0x61, 3, 0xe, 2, 0x4e, 0x42, 0, 0x22, 0x61, 3,
    0x4e, 0x62, 0x20, 0x22, 0x61, 0, 0x4e, 0xe2, 0, 0x81, 0x4e, 0x20,
    0x42, 0, 0x22, 0x61, 3, 0x2e, 0, 0xf7, 3, 0x9b, 0xb1, 0x36,
    0x14, 0x15, 0x12, 0x34, 0x15, 0x12, 0x14, 0xf6, 0, 0x18, 0x19, 0x9b,
    0x17, 0xf6, 1, 0x14, 0x15, 0x76, 0x30, 0x56, 0xc, 0x12, 0x13, 0xf6,
    3, 0xc, 0x16, 0x10, 0xf6, 2, 0x17, 0x9b, 0, 0xfb, 2, 0xb,
    4, 0x20, 0xab, 0x4c, 0x12, 0x13, 4, 0xeb, 2, 0x4c, 0x12, 0x13,
    0, 0xe4, 5, 0x40, 0xed, 0x1a, 0xe0, 6, 0xe6, 5, 0x68, 6,
    0x48, 0xe6, 4, 0xe0, 7, 0x2f, 1, 0x6f]"

definition unicode_gc_table_11 :: "u8 list" where
  "unicode_gc_table_11 =
    [1, 0x2f, 2, 0x41, 0x22, 0x41, 2, 0xf, 1, 0x2f, 0xc, 0x81,
    0xaf, 1, 0xf, 1, 0xf, 1, 0xf, 0x61, 0xf, 2, 0x61, 2,
    0x65, 2, 0x2f, 0x22, 0x21, 0x8c, 0x3f, 0x42, 0xf, 0xc, 0x2f, 2,
    0xf, 0xeb, 8, 0xea, 0x1b, 0x3f, 0x6a, 0xb, 0x2f, 0x60, 0x8c, 0x8f,
    0x2c, 0x6f, 0xc, 0x2f, 0xc, 0x2f, 0xc, 0xcf, 0xc, 0xef, 0x17, 0x2c,
    0x2f, 0xc, 0xf, 0xc, 0xef, 0x17, 0xec, 0x80, 0x84, 0xef, 0, 0x12,
    0x13, 0x12, 0x13, 0xef, 0xc, 0x2c, 0xcf, 0x12, 0x13, 0xef, 0x49, 0xc,
    0xef, 0x16, 0xec, 0x11, 0xef, 0x20, 0xac, 0xef, 0x40, 0xe0, 0xe, 0xef,
    3, 0xe0, 0xd, 0xeb, 0x34, 0xef, 0x46, 0xeb, 0xe, 0xef, 0x80, 0x2f,
    0xc, 0xef, 1, 0xc, 0xef, 0x2e, 0xec, 0, 0xef, 0x67, 0xc, 0xef,
    0x80, 0x70, 0x12, 0x13, 0x12, 0x13, 0x12, 0x13]"

definition unicode_gc_table_12 :: "u8 list" where
  "unicode_gc_table_12 =
    [0x12, 0x13, 0x12, 0x13, 0x12, 0x13, 0x12, 0x13, 0xeb, 0x16, 0xef, 0x24,
    0x8c, 0x12, 0x13, 0xec, 0x17, 0x12, 0x13, 0x12, 0x13, 0x12, 0x13, 0x12,
    0x13, 0x12, 0x13, 0xec, 8, 0xef, 0x80, 0x78, 0xec, 0x7b, 0x12, 0x13,
    0x12, 0x13, 0x12, 0x13, 0x12, 0x13, 0x12, 0x13, 0x12, 0x13, 0x12, 0x13,
    0x12, 0x13, 0x12, 0x13, 0x12, 0x13, 0x12, 0x13, 0xec, 0x37, 0x12, 0x13,
    0x12, 0x13, 0xec, 0x18, 0x12, 0x13, 0xec, 0x80, 0x7a, 0xef, 0x28, 0xec,
    0xd, 0x2f, 0xac, 0xef, 0x1f, 0x20, 0xef, 0x80, 2, 0xe1, 0x28, 0xe2,
    0x28, 0x5f, 0x21, 0x22, 0xdf, 0x41, 2, 0x3f, 2, 0x3f, 0x82, 0x24,
    0x41, 2, 0xff, 0x5a, 2, 0xaf, 0x7f, 0x46, 0x3f, 0x80, 0x76, 0xb,
    0x36, 0xe2, 0x1e, 0, 2, 0x80, 2, 0x20, 0xe5, 0x30, 0xc0, 4,
    0x16, 0xe0, 6, 6, 0xe5, 0xf, 0xe0, 1]"

definition unicode_gc_table_13 :: "u8 list" where
  "unicode_gc_table_13 =
    [0xc5, 0, 0xc5, 0, 0xc5, 0, 0xc5, 0, 0xc5, 0, 0xc5, 0,
    0xc5, 0, 0xc5, 0, 0xe6, 0x18, 0x36, 0x14, 0x15, 0x14, 0x15, 0x56,
    0x14, 0x15, 0x16, 0x14, 0x15, 0xf6, 1, 0x11, 0x36, 0x11, 0x16, 0x14,
    0x15, 0x36, 0x14, 0x15, 0x12, 0x13, 0x12, 0x13, 0x12, 0x13, 0x12, 0x13,
    0x96, 4, 0xf6, 2, 0x31, 0x76, 0x11, 0x16, 0x12, 0xf6, 5, 0x2f,
    0x56, 0x12, 0x13, 0x12, 0x13, 0x12, 0x13, 0x12, 0x13, 0x11, 0xe0, 0x1a,
    0xef, 0x12, 0, 0xef, 0x51, 0xe0, 4, 0xef, 0x80, 0x4e, 0xe0, 0x12,
    0xef, 8, 0x17, 0x56, 0xf, 4, 5, 0xa, 0x12, 0x13, 0x12, 0x13,
    0x12, 0x13, 0x12, 0x13, 0x12, 0x13, 0x2f, 0x12, 0x13, 0x12, 0x13, 0x12,
    0x13, 0x12, 0x13, 0x11, 0x12, 0x33, 0xf, 0xea, 1, 0x66, 0x27, 0x11,
    0x84, 0x2f, 0x4a, 4, 5, 0x16, 0x2f, 0]"

definition unicode_gc_table_14 :: "u8 list" where
  "unicode_gc_table_14 =
    [0xe5, 0x4e, 0x20, 0x26, 0x2e, 0x24, 5, 0x11, 0xe5, 0x52, 0x16, 0x44,
    5, 0x80, 0xe5, 0x23, 0, 0xe5, 0x56, 0, 0x2f, 0x6b, 0xef, 2,
    0xe5, 0x18, 0xef, 0x1e, 0xe0, 1, 0xf, 0xe5, 8, 0xef, 0x17, 0,
    0xeb, 2, 0xef, 0x16, 0xeb, 0, 0xf, 0xeb, 7, 0xef, 0x18, 0xeb,
    2, 0xef, 0x1f, 0xeb, 7, 0xef, 0x80, 0xb8, 0xe5, 0x99, 0x38, 0xef,
    0x38, 0xe5, 0xc0, 0x11, 0x8d, 4, 0xe5, 0x83, 0xef, 0x40, 0xef, 0x2f,
    0xe0, 1, 0xe5, 0x20, 0xa4, 0x36, 0xe5, 0x80, 0x84, 4, 0x56, 0xe5,
    8, 0xe9, 2, 0x25, 0xe0, 0xc, 0xff, 0x26, 5, 6, 0x48, 0x16,
    0xe6, 2, 0x16, 4, 0xff, 0x14, 0x24, 0x26, 0xe5, 0x3e, 0xea, 2,
    0x26, 0xb6, 0xe0, 0, 0xee, 0xf, 0xe4, 1, 0x2e, 0xff, 6, 0x22,
    0xff, 0x36, 4, 0xe2, 0, 0x9f, 0xff, 2]"

definition unicode_gc_table_15 :: "u8 list" where
  "unicode_gc_table_15 =
    [4, 0x2e, 0x7f, 5, 0x7f, 0x22, 0xff, 0xd, 0x61, 2, 0x81, 2,
    0xff, 7, 0x41, 2, 0x5f, 0xff, 9, 0xe0, 0xc, 0x64, 0x3f, 5,
    0x24, 2, 0xc5, 6, 0x45, 6, 0x65, 6, 0xe5, 0xf, 0x27, 0x26,
    7, 0x6f, 6, 0x40, 0xab, 0x2f, 0xd, 0xf, 0xa0, 0xe5, 0x2c, 0x76,
    0xe0, 0, 0x27, 0xe5, 0x2a, 0xe7, 8, 0x26, 0xe0, 0, 0x36, 0xe9,
    2, 0xa0, 0xe6, 0xa, 0xa5, 0x56, 5, 0x16, 0x25, 6, 0xe9, 2,
    0xe5, 0x14, 0xe6, 0, 0x36, 0xe5, 0xf, 0xe6, 3, 0x27, 0xe0, 3,
    0x16, 0xe5, 0x15, 0x40, 0x46, 7, 0xe5, 0x27, 6, 0x27, 0x66, 0x27,
    0x26, 0x47, 0xf6, 5, 0, 4, 0xe9, 2, 0x60, 0x36, 0x85, 6,
    4, 0xe5, 1, 0xe9, 2, 0x85, 0, 0xe5, 0x21, 0xa6, 0x27, 0x26,
    0x27, 0x26, 0xe0, 1, 0x45, 6, 0xe5, 0]"

definition unicode_gc_table_16 :: "u8 list" where
  "unicode_gc_table_16 =
    [6, 7, 0x20, 0xe9, 2, 0x20, 0x76, 0xe5, 8, 4, 0xa5, 0x4f,
    5, 7, 6, 7, 0xe5, 0x2a, 6, 5, 0x46, 0x25, 0x26, 0x85,
    0x26, 5, 6, 5, 0xe0, 0x10, 0x25, 4, 0x36, 0xe5, 3, 7,
    0x26, 0x27, 0x36, 5, 0x24, 7, 6, 0xe0, 2, 0xa5, 0x20, 0xa5,
    0x20, 0xa5, 0xe0, 1, 0xc5, 0, 0xc5, 0, 0xe2, 0x23, 0xe, 0x64,
    0xe2, 1, 4, 0x2e, 0x60, 0xe2, 0x48, 0xe5, 0x1b, 0x27, 6, 0x27,
    6, 0x27, 0x16, 7, 6, 0x20, 0xe9, 2, 0xa0, 0xe5, 0xab, 0x1c,
    0xe0, 4, 0xe5, 0xf, 0x60, 0xe5, 0x29, 0x60, 0xfc, 0x87, 0x78, 0xfd,
    0x98, 0x78, 0xe5, 0x80, 0xe6, 0x20, 0xe5, 0x62, 0xe0, 0x1e, 0xc2, 0xe0,
    4, 0x82, 0x80, 5, 6, 0xe5, 2, 0xc, 0xe5, 5, 0, 0x85,
    0, 5, 0, 0x25, 0, 0x25, 0, 0xe5]"

definition unicode_gc_table_17 :: "u8 list" where
  "unicode_gc_table_17 =
    [0x64, 0xee, 9, 0xef, 8, 0xe5, 0x80, 0xe3, 0x13, 0x12, 0xef, 8,
    0xe5, 0x38, 0x2f, 0xe5, 0x2e, 0xef, 0, 0xe0, 0x18, 0xe5, 4, 0xd,
    0x4f, 0xe6, 8, 0xd6, 0x12, 0x13, 0x16, 0xa0, 0xe6, 8, 0x16, 0x31,
    0x30, 0x12, 0x13, 0x12, 0x13, 0x12, 0x13, 0x12, 0x13, 0x12, 0x13, 0x12,
    0x13, 0x12, 0x13, 0x12, 0x13, 0x36, 0x12, 0x13, 0x76, 0x50, 0x56, 0,
    0x76, 0x11, 0x12, 0x13, 0x12, 0x13, 0x12, 0x13, 0x56, 0xc, 0x11, 0x4c,
    0, 0x16, 0xd, 0x36, 0x60, 0x85, 0, 0xe5, 0x7f, 0x20, 0x1b, 0,
    0x56, 0xd, 0x56, 0x12, 0x13, 0x16, 0xc, 0x16, 0x11, 0x36, 0xe9, 2,
    0x36, 0x4c, 0x36, 0xe1, 0x12, 0x12, 0x16, 0x13, 0xe, 0x10, 0xe, 0xe2,
    0x12, 0x12, 0xc, 0x13, 0xc, 0x12, 0x13, 0x16, 0x12, 0x13, 0x36, 0xe5,
    2, 4, 0xe5, 0x25, 0x24, 0xe5, 0x17, 0x40]"

definition unicode_gc_table_18 :: "u8 list" where
  "unicode_gc_table_18 =
    [0xa5, 0x20, 0xa5, 0x20, 0xa5, 0x20, 0x45, 0x40, 0x2d, 0xc, 0xe, 0xf,
    0x2d, 0, 0xf, 0x6c, 0x2f, 0xe0, 2, 0x5b, 0x2f, 0x20, 0xe5, 4,
    0, 0xe5, 0x12, 0, 0xe5, 0xb, 0, 0x25, 0, 0xe5, 7, 0x20,
    0xe5, 6, 0xe0, 0x1a, 0xe5, 0x73, 0x80, 0x56, 0x60, 0xeb, 0x25, 0x40,
    0xef, 1, 0xea, 0x2d, 0x6b, 0xef, 9, 0x2b, 0x4f, 0, 0xef, 5,
    0x40, 0xf, 0xe0, 0x27, 0xef, 0x25, 6, 0xe0, 0x7a, 0xe5, 0x15, 0x40,
    0xe5, 0x29, 0xe0, 7, 6, 0xeb, 0x13, 0x60, 0xe5, 0x18, 0x6b, 0xe0,
    1, 0xe5, 0xc, 0xa, 0xe5, 0, 0xa, 0x80, 0xe5, 0x1e, 0x86, 0x80,
    0xe5, 0x16, 0, 0x16, 0xe5, 0x1c, 0x60, 0xe5, 0, 0x16, 0x8a, 0xe0,
    0x22, 0xe1, 0x20, 0xe2, 0x20, 0xe5, 0x46, 0x20, 0xe9, 2, 0xa0, 0xe1,
    0x1c, 0x60, 0xe2, 0x1c, 0x60, 0xe5, 0x20, 0xe0]"

definition unicode_gc_table_19 :: "u8 list" where
  "unicode_gc_table_19 =
    [0, 0xe5, 0x2c, 0xe0, 3, 0x16, 0xe1, 3, 0, 0xe1, 7, 0,
    0xc1, 0, 0x21, 0, 0xe2, 3, 0, 0xe2, 7, 0, 0xc2, 0,
    0x22, 0x40, 0xe5, 0x2c, 0xe0, 4, 0xe5, 0x80, 0xaf, 0xe0, 1, 0xe5,
    0xe, 0xe0, 2, 0xe5, 0, 0xe0, 0x10, 0xa4, 0, 0xe4, 0x22, 0,
    0xe4, 1, 0xe0, 0x3d, 0xa5, 0x20, 5, 0, 0xe5, 0x24, 0, 0x25,
    0x40, 5, 0x20, 0xe5, 0xf, 0, 0x16, 0xeb, 0, 0xe5, 0xf, 0x2f,
    0xcb, 0xe5, 0x17, 0xe0, 0, 0xeb, 1, 0xe0, 0x28, 0xe5, 0xb, 0,
    0x25, 0x80, 0x8b, 0xe5, 0xe, 0xab, 0x40, 0x16, 0xe5, 0x12, 0x80, 0x16,
    0xe5, 0x12, 0xe0, 0x1e, 0xe5, 0x30, 0x60, 0x2b, 0x25, 0xeb, 8, 0x20,
    0xeb, 0x26, 5, 0x46, 0, 0x26, 0x80, 0x66, 0x65, 0, 0x45, 0,
    0xe5, 0x15, 0x20, 0x46, 0x60, 6, 0xeb, 1]"

definition unicode_gc_table_20 :: "u8 list" where
  "unicode_gc_table_20 =
    [0xc0, 0xf6, 1, 0xc0, 0xe5, 0x15, 0x2b, 0x16, 0xe5, 0x15, 0x4b, 0xe0,
    0x18, 0xe5, 0, 0xf, 0xe5, 0x14, 0x26, 0x60, 0x8b, 0xd6, 0xe0, 1,
    0xe5, 0x2e, 0x40, 0xd6, 0xe5, 0xe, 0x20, 0xeb, 0, 0xe5, 0xb, 0x80,
    0xeb, 0, 0xe5, 0xa, 0xc0, 0x76, 0xe0, 4, 0xcb, 0xe0, 0x48, 0xe5,
    0x41, 0xe0, 0x2f, 0xe1, 0x2b, 0xe0, 5, 0xe2, 0x2b, 0xc0, 0xab, 0xe5,
    0x1c, 0x66, 0xe0, 0, 0xe9, 2, 0xa0, 0xe9, 2, 0x65, 4, 5,
    0xe1, 0xe, 0x40, 0x86, 0x11, 4, 0xe2, 0xe, 0xe0, 0, 0x2c, 0xe0,
    0x80, 0x48, 0xeb, 0x17, 0, 0xe5, 0x22, 0, 0x26, 0x11, 0x20, 0x25,
    0xe0, 8, 0x45, 4, 0x25, 0xe0, 0, 0x16, 0xef, 0, 0xe0, 0x19,
    0xa6, 0xe5, 0x15, 0xeb, 2, 5, 0xe0, 0, 0xe5, 0xe, 0xe6, 3,
    0x6b, 0x96, 0xe0, 0xe, 0xe5, 0xa, 0x66, 0x76]"

definition unicode_gc_table_21 :: "u8 list" where
  "unicode_gc_table_21 =
    [0xe0, 0x1e, 0xe5, 0xd, 0xcb, 0xe0, 0xc, 0xe5, 0xf, 0xe0, 1, 7,
    6, 7, 0xe5, 0x2d, 0xe6, 7, 0xd6, 0x60, 0xeb, 0xc, 0xe9, 2,
    6, 0x25, 0x26, 5, 0xe0, 1, 0x46, 7, 0xe5, 0x25, 0x47, 0x66,
    0x27, 0x26, 0x36, 0x1b, 0x76, 6, 0xe0, 2, 0x1b, 0x20, 0xe5, 0x11,
    0xc0, 0xe9, 2, 0xa0, 0x46, 0xe5, 0x1c, 0x86, 7, 0xe6, 0, 0,
    0xe9, 2, 0x76, 5, 0x27, 5, 0xe0, 0, 0xe5, 0x1b, 6, 0x36,
    5, 0xe0, 1, 0x26, 7, 0xe5, 0x28, 0x47, 0xe6, 1, 0x27, 0x65,
    0x76, 0x66, 0x16, 7, 6, 0xe9, 2, 5, 0x16, 5, 0x56, 0,
    0xeb, 0xc, 0xe0, 3, 0xe5, 0xa, 0, 0xe5, 0x11, 0x47, 0x46, 0x27,
    6, 7, 0x26, 0xb6, 6, 0x25, 6, 0xe0, 0x36, 0xc5, 0, 5,
    0, 0x65, 0, 0xe5, 7, 0, 0xe5, 2]"

definition unicode_gc_table_22 :: "u8 list" where
  "unicode_gc_table_22 =
    [0x16, 0xa0, 0xe5, 0x27, 6, 0x47, 0xe6, 0, 0x80, 0xe9, 2, 0xa0,
    0x26, 0x27, 0, 0xe5, 0, 0x20, 0x25, 0x20, 0xe5, 0xe, 0, 0xc5,
    0, 0x25, 0, 0x85, 0, 0x26, 5, 0x27, 6, 0x67, 0x20, 0x27,
    0x20, 0x47, 0x20, 5, 0xa0, 7, 0x80, 0x85, 0x27, 0x20, 0xc6, 0x40,
    0x86, 0xe0, 3, 0xe5, 2, 0, 5, 0x20, 5, 0, 0xe5, 0x1e,
    0, 5, 0x47, 0xa6, 0, 7, 0x20, 7, 0, 0x67, 0, 0x27,
    6, 7, 6, 5, 6, 5, 0x36, 0, 0x36, 0xe0, 0, 0x26,
    0xe0, 0x15, 0xe5, 0x2d, 0x47, 0xe6, 0, 0x27, 0x46, 7, 6, 0x65,
    0x96, 0xe9, 2, 0x36, 0, 0x16, 6, 0x45, 0xe0, 0x16, 0xe5, 0x28,
    0x47, 0xa6, 7, 6, 0x67, 0x26, 7, 0x26, 0x25, 0x16, 5, 0xe0,
    0, 0xe9, 2, 0xe0, 0x80, 0x1e, 0xe5, 0x27]"

definition unicode_gc_table_23 :: "u8 list" where
  "unicode_gc_table_23 =
    [0x47, 0x66, 0x20, 0x67, 0x26, 7, 0x26, 0xf6, 0xf, 0x65, 0x26, 0xe0,
    0x1a, 0xe5, 0x28, 0x47, 0xe6, 0, 0x27, 6, 7, 0x26, 0x56, 5,
    0xe0, 3, 0xe9, 2, 0xa0, 0xf6, 5, 0xe0, 0xb, 0xe5, 0x23, 6,
    7, 6, 0x27, 0xa6, 7, 6, 5, 0x16, 0xa0, 0xe9, 2, 0xa0,
    0xe9, 0xc, 0xe0, 0x14, 0xe5, 0x13, 0x20, 6, 7, 6, 0x27, 0x66,
    7, 0x86, 0x60, 0xe9, 2, 0x2b, 0x56, 0xf, 0xc5, 0xe0, 0x80, 0x31,
    0xe5, 0x24, 0x47, 0xe6, 1, 7, 0x26, 0x16, 0xe0, 0x5c, 0xe1, 0x18,
    0xe2, 0x18, 0xe9, 2, 0xeb, 1, 0xe0, 4, 0xe5, 0, 0x20, 5,
    0x20, 0xe5, 0, 0, 0x25, 0, 0xe5, 0x10, 0xa7, 0, 0x27, 0x20,
    0x26, 7, 6, 5, 7, 5, 7, 6, 0x56, 0xe0, 1, 0xe9,
    2, 0xe0, 0x3e, 0xe5, 0, 0x20, 0xe5, 0x1f]"

definition unicode_gc_table_24 :: "u8 list" where
  "unicode_gc_table_24 =
    [0x47, 0x66, 0x20, 0x26, 0x67, 6, 5, 0x16, 5, 7, 0xe0, 0x13,
    5, 0xe6, 2, 0xe5, 0x20, 0xa6, 7, 5, 0x66, 0xf6, 0, 6,
    0xe0, 0, 5, 0xa6, 0x27, 0x46, 0xe5, 0x26, 0xe6, 5, 7, 0x26,
    0x56, 5, 0x96, 0xe0, 5, 0xe5, 0x41, 0xc0, 0xf6, 2, 0xe0, 0x4e,
    6, 7, 0x46, 7, 6, 7, 0xe0, 0x50, 0xe5, 0x19, 0x16, 0xe0,
    6, 0xe9, 2, 0xa0, 0xe5, 1, 0, 0xe5, 0x1d, 7, 0xc6, 0,
    0xa6, 7, 6, 5, 0x96, 0xe0, 2, 0xe9, 2, 0xeb, 0xb, 0x40,
    0x36, 0xe5, 0x16, 0x20, 0xe6, 0xe, 0, 7, 0xc6, 7, 0x26, 7,
    0x26, 0xe0, 0x41, 0xc5, 0, 0x25, 0, 0xe5, 0x1e, 0xa6, 0x40, 6,
    0, 0x26, 0, 0xc6, 5, 6, 0xe0, 0, 0xe9, 2, 0xa0, 0xa5,
    0, 0x25, 0, 0xe5, 0x18, 0x87, 0, 0x26]"

definition unicode_gc_table_25 :: "u8 list" where
  "unicode_gc_table_25 =
    [0, 0x27, 6, 7, 6, 5, 0xc0, 0xe9, 2, 0xa0, 0xe5, 0x21,
    4, 0x25, 0x60, 0xe9, 2, 0xe0, 0x80, 0x6e, 0xe5, 0xb, 0x26, 0x27,
    0x36, 0xc0, 0x26, 5, 7, 0xe5, 5, 0, 0xe5, 0x1a, 0x27, 0x86,
    0x40, 0x27, 6, 7, 6, 0xf6, 5, 0xe9, 2, 6, 0xe0, 0x4d,
    5, 0xe0, 7, 0xeb, 0xd, 0xef, 0, 0x6d, 0xef, 9, 0xe0, 5,
    0x16, 0xe5, 0x83, 0x12, 0xe0, 0x5e, 0xea, 0x67, 0, 0x96, 0xe0, 3,
    0xe5, 0x80, 0x3c, 0xe0, 0x89, 0xc4, 0xe5, 0x59, 0x36, 0xe0, 5, 0xe5,
    0x83, 0xa8, 0xfb, 8, 6, 0xa5, 0xe6, 7, 0xe0, 2, 0xe5, 0x8f,
    0x13, 0x80, 0xe5, 0x81, 0xbf, 0xe0, 0x9a, 0x31, 0xe5, 0x16, 0xe6, 4,
    0x47, 0x46, 0xe9, 2, 0xe0, 0x86, 0x3e, 0xe5, 0x81, 0xb1, 0xc0, 0xe5,
    0x17, 0, 0xe9, 2, 0x60, 0x36, 0xe5, 0x47]"

definition unicode_gc_table_26 :: "u8 list" where
  "unicode_gc_table_26 =
    [0, 0xe9, 2, 0xa0, 0xe5, 0x16, 0x20, 0x86, 0x16, 0xe0, 2, 0xe5,
    0x28, 0xc6, 0x96, 0x6f, 0x64, 0x16, 0xf, 0xe0, 2, 0xe9, 2, 0,
    0xcb, 0, 0xe5, 0xd, 0x80, 0xe5, 0xb, 0xe0, 0x81, 0x28, 0x44, 0xe5,
    0x20, 0x24, 0x56, 0xe9, 2, 0xe0, 0x80, 0x3e, 0xe1, 0x18, 0xe2, 0x18,
    0xeb, 0xf, 0x76, 0x80, 0xe1, 0x11, 0x20, 0xe2, 0x11, 0xe0, 0x24, 0xe5,
    0x43, 0x60, 6, 5, 0xe7, 0x2f, 0xc0, 0x66, 0xe4, 5, 0xe0, 0x38,
    0x24, 0x16, 4, 6, 0xe0, 3, 0x27, 0x24, 0x4a, 0xe0, 1, 0xe5,
    0x9c, 0x4e, 0xe0, 0x21, 0xe5, 0x18, 0xe0, 0x59, 0xe5, 0x6b, 0xe0, 0xa1,
    0x75, 0x64, 0, 0xc4, 0, 0x24, 0, 0xe5, 0x80, 0x9b, 0xe0, 7,
    5, 0xe0, 0x15, 0x45, 0x20, 5, 0xe0, 6, 0x65, 0xe0, 0, 0xe5,
    0x81, 4, 0xe0, 0x88, 0x7c, 0xe5, 0x63, 0x80]"

definition unicode_gc_table_27 :: "u8 list" where
  "unicode_gc_table_27 =
    [0xe5, 5, 0x40, 0xe5, 1, 0xc0, 0xe5, 2, 0x20, 0xf, 0x26, 0x16,
    0x7b, 0xe0, 0x8e, 0xd4, 0xef, 0x80, 0x68, 0xe9, 2, 0x4f, 0x40, 0xef,
    0x81, 0x2c, 0xa0, 0xef, 0xf, 0xe0, 7, 0xef, 8, 0xc, 0xe0, 7,
    0xe6, 0x26, 0x20, 0xe6, 0xf, 0xe0, 1, 0xef, 0x6c, 0xe0, 0x34, 0xef,
    0x80, 0x6e, 0xe0, 2, 0xef, 0x1f, 0x20, 0xef, 0x34, 0x27, 0x46, 0x4f,
    0xa7, 0xfb, 0, 0xe6, 0, 0x2f, 0xc6, 0xef, 0x16, 0x66, 0xef, 0x35,
    0xe0, 0xd, 0xef, 0x3a, 0x46, 0xf, 0xe0, 0x72, 0xeb, 0xc, 0xe0, 4,
    0xeb, 0xc, 0xe0, 4, 0xef, 0x4f, 0xe0, 1, 0xeb, 0x11, 0xe0, 0x7f,
    0xe1, 0x12, 0xe2, 0x12, 0xe1, 0x12, 0xc2, 0, 0xe2, 0xa, 0xe1, 0x12,
    0xe2, 0x12, 1, 0, 0x21, 0x20, 1, 0x20, 0x21, 0x20, 0x61, 0,
    0xe1, 0, 0x62, 0, 2, 0, 0xc2, 0]"

definition unicode_gc_table_28 :: "u8 list" where
  "unicode_gc_table_28 =
    [0xe2, 3, 0xe1, 0x12, 0xe2, 0x12, 0x21, 0, 0x61, 0x20, 0xe1, 0,
    0, 0xc1, 0, 0xe2, 0x12, 0x21, 0, 0x61, 0, 0x81, 0, 1,
    0x40, 0xc1, 0, 0xe2, 0x12, 0xe1, 0x12, 0xe2, 0x12, 0xe1, 0x12, 0xe2,
    0x12, 0xe1, 0x12, 0xe2, 0x12, 0xe1, 0x12, 0xe2, 0x12, 0xe1, 0x12, 0xe2,
    0x12, 0xe1, 0x12, 0xe2, 0x14, 0x20, 0xe1, 0x11, 0xc, 0xe2, 0x11, 0xc,
    0xa2, 0xe1, 0x11, 0xc, 0xe2, 0x11, 0xc, 0xa2, 0xe1, 0x11, 0xc, 0xe2,
    0x11, 0xc, 0xa2, 0xe1, 0x11, 0xc, 0xe2, 0x11, 0xc, 0xa2, 0xe1, 0x11,
    0xc, 0xe2, 0x11, 0xc, 0xa2, 0x3f, 0x20, 0xe9, 0x2a, 0xef, 0x81, 0x78,
    0xe6, 0x2f, 0x6f, 0xe6, 0x2a, 0xef, 0, 6, 0xef, 6, 6, 0x2f,
    0x96, 0xe0, 7, 0x86, 0, 0xe6, 7, 0xe0, 0x83, 0xc8, 0xe2, 2,
    5, 0xe2, 0xc, 0xa0, 0xa2, 0xe0, 0x80, 0x4d]"

definition unicode_gc_table_29 :: "u8 list" where
  "unicode_gc_table_29 =
    [0xc6, 0, 0xe6, 9, 0x20, 0xc6, 0, 0x26, 0, 0x86, 0x80, 0xe4,
    0x36, 0xe0, 0x19, 6, 0xe0, 0x68, 0xe5, 0x25, 0x40, 0xc6, 0xc4, 0x20,
    0xe9, 2, 0x60, 5, 0xf, 0xe0, 0x80, 0xb8, 0xe5, 0x16, 6, 0xe0,
    9, 0xe5, 0x24, 0x66, 0xe9, 2, 0x80, 0xd, 0xe0, 0x81, 0x48, 0xe5,
    0x13, 4, 0x66, 0xe9, 2, 0xe0, 0x80, 0x4e, 0xe5, 0x16, 0x26, 5,
    0xe9, 2, 0x60, 0x16, 0xe0, 0x80, 0x38, 0xe5, 0x17, 0, 0x45, 6,
    0x25, 6, 0xc5, 0x26, 0x85, 6, 0xe0, 0, 5, 4, 0xe0, 0x80,
    0x58, 0xc5, 0, 0x65, 0, 0x25, 0, 0xe5, 7, 0, 0xe5, 0x80,
    0x3d, 0x20, 0xeb, 1, 0xc6, 0xe0, 0x21, 0xe1, 0x1a, 0xe2, 0x1a, 0xc6,
    4, 0x60, 0xe9, 2, 0x60, 0x36, 0xe0, 0x82, 0x89, 0xeb, 0x33, 0xf,
    0x4b, 0xd, 0x6b, 0xe0, 0x44, 0xeb, 0x25, 0xf]"

definition unicode_gc_table_30 :: "u8 list" where
  "unicode_gc_table_30 =
    [0xeb, 7, 0xe0, 0x80, 0x3a, 0x65, 0, 0xe5, 0x13, 0, 0x25, 0,
    5, 0x20, 5, 0, 0xe5, 2, 0, 0x65, 0, 5, 0, 5,
    0xa0, 5, 0x60, 5, 0, 5, 0, 5, 0, 0x45, 0, 0x25,
    0, 5, 0x20, 5, 0, 5, 0, 5, 0, 5, 0, 5,
    0, 0x25, 0, 5, 0x20, 0x65, 0, 0xc5, 0, 0x65, 0, 0x65,
    0, 5, 0, 0xe5, 2, 0, 0xe5, 9, 0x80, 0x45, 0, 0x85,
    0, 0xe5, 9, 0xe0, 0x2c, 0x2c, 0xe0, 0x80, 0x86, 0xef, 0x24, 0x60,
    0xef, 0x5c, 0xe0, 4, 0xef, 7, 0x20, 0xef, 7, 0, 0xef, 7,
    0, 0xef, 0x1d, 0xe0, 2, 0xeb, 5, 0xef, 0x80, 0x19, 0xe0, 0x30,
    0xef, 0x15, 0xe0, 5, 0xef, 0x24, 0x60, 0xef, 1, 0xc0, 0x2f, 0xe0,
    6, 0xaf, 0xe0, 0x80, 0x12, 0xef, 0x80, 0x73]"

definition unicode_gc_table_31 :: "u8 list" where
  "unicode_gc_table_31 =
    [0x8e, 0xef, 0x82, 0x51, 0x40, 0xef, 9, 0x40, 0xef, 5, 0x40, 0xef,
    0x80, 0x52, 0xa0, 0xef, 4, 0x60, 0xf, 0xe0, 7, 0xef, 4, 0x60,
    0xef, 0x30, 0xe0, 0, 0xef, 2, 0xa0, 0xef, 0x20, 0xe0, 0, 0xef,
    0x16, 0x20, 0xef, 4, 0x60, 0x2f, 0xe0, 6, 0xec, 1, 0xe0, 0x1f,
    0xef, 0x80, 0xd0, 0xe0, 0, 0xef, 6, 0x20, 0xef, 5, 0x40, 0xef,
    3, 0x40, 0xef, 0x31, 0, 0xf, 0x60, 0xef, 8, 0x20, 0xef, 4,
    0x60, 0xef, 2, 0xc0, 0xef, 0x80, 0xb, 0, 0xef, 0x54, 0xe9, 2,
    0xf, 0xe0, 0x83, 0x7d, 0xe5, 0xc0, 0x66, 0x58, 0xe0, 0x18, 0xe5, 0x90,
    0x96, 0x20, 0xe5, 0x96, 6, 0x20, 0xe5, 0x9c, 0xa9, 0xe0, 7, 0xe5,
    0x81, 0xe6, 0xe0, 0x89, 0x1a, 0xe5, 0x81, 0x96, 0xe0, 0x85, 0x5a, 0xe5,
    0x92, 0xc3, 0x80, 0xe5, 0xa0, 0xa2, 0xe0, 0xca]"

definition unicode_gc_table_32 :: "u8 list" where
  "unicode_gc_table_32 =
    [0x8a, 0xff, 0x1b, 0xe0, 0x16, 0xfb, 0x58, 0xe0, 0x78, 0xe6, 0x80, 0x68,
    0xe0, 0xc0, 0xbd, 0x88, 0xfd, 0xc0, 0xbf, 0x76, 0x20, 0xfd, 0xc0, 0xbf,
    0x76, 0x20]"

definition unicode_gc_table :: "u8 list" where
  "unicode_gc_table =
     unicode_gc_table_0 @ unicode_gc_table_1 @ unicode_gc_table_2 @
     unicode_gc_table_3 @ unicode_gc_table_4 @ unicode_gc_table_5 @
     unicode_gc_table_6 @ unicode_gc_table_7 @ unicode_gc_table_8 @
     unicode_gc_table_9 @ unicode_gc_table_10 @ unicode_gc_table_11 @
     unicode_gc_table_12 @ unicode_gc_table_13 @ unicode_gc_table_14 @
     unicode_gc_table_15 @ unicode_gc_table_16 @ unicode_gc_table_17 @
     unicode_gc_table_18 @ unicode_gc_table_19 @ unicode_gc_table_20 @
     unicode_gc_table_21 @ unicode_gc_table_22 @ unicode_gc_table_23 @
     unicode_gc_table_24 @ unicode_gc_table_25 @ unicode_gc_table_26 @
     unicode_gc_table_27 @ unicode_gc_table_28 @ unicode_gc_table_29 @
     unicode_gc_table_30 @ unicode_gc_table_31 @ unicode_gc_table_32"

definition unicode_script_table_0 :: "u8 list" where
  "unicode_script_table_0 =
    [0xc0, 0x1a, 0x99, 0x4c, 0x85, 0x1a, 0x99, 0x4c, 0xae, 0x1a, 0x80, 0x4c,
    0x8e, 0x1a, 0x80, 0x4c, 0x84, 0x1a, 0x96, 0x4c, 0x80, 0x1a, 0x9e, 0x4c,
    0x80, 0x1a, 0xe1, 0x60, 0x4c, 0xa6, 0x1a, 0x84, 0x4c, 0x84, 0x1a, 0x81,
    0xe, 0x93, 0x1a, 0xe0, 0xf, 0x3b, 0x83, 0x2e, 0x80, 0x1a, 0x82, 0x2e,
    1, 0x83, 0x2e, 0x80, 0x1a, 0x80, 0x2e, 3, 0x80, 0x2e, 0x80, 0x1a,
    0x80, 0x2e, 0x80, 0x1a, 0x82, 0x2e, 0, 0x80, 0x2e, 0, 0x93, 0x2e,
    0, 0xbe, 0x2e, 0x8d, 0x1b, 0x8f, 0x2e, 0xe0, 0x24, 0x1e, 0x81, 0x3b,
    0xe0, 0x48, 0x1e, 0, 0xa5, 5, 1, 0xb1, 5, 1, 0x82, 5,
    0, 0xb6, 0x38, 7, 0x9a, 0x38, 3, 0x85, 0x38, 0xa, 0x84, 4,
    0x80, 0x1a, 0x85, 4, 0x80, 0x1a, 0x8d, 4, 0x80, 0x1a, 0x82, 4,
    0x80, 0x1a, 0x9f, 4, 0x80, 0x1a, 0x89, 4]"

definition unicode_script_table_1 :: "u8 list" where
  "unicode_script_table_1 =
    [0x8a, 0x3b, 0x99, 4, 0x80, 0x3b, 0xe0, 0xb, 4, 0x80, 0x1a, 0xa1,
    4, 0x8d, 0x93, 0, 0xbb, 0x93, 1, 0x82, 0x93, 0xaf, 4, 0xb1,
    0x9e, 0xd, 0xba, 0x6b, 1, 0x82, 0x6b, 0xad, 0x85, 1, 0x8e, 0x85,
    0, 0x9b, 0x57, 1, 0x80, 0x57, 0, 0x8a, 0x93, 4, 0xa1, 4,
    4, 0xca, 4, 0x80, 0x1a, 0x9c, 4, 0xd0, 0x21, 0x83, 0x3b, 0x8e,
    0x21, 0x81, 0x1a, 0x99, 0x21, 0x83, 0xb, 0, 0x87, 0xb, 1, 0x81,
    0xb, 1, 0x95, 0xb, 0, 0x86, 0xb, 0, 0x80, 0xb, 2, 0x83,
    0xb, 1, 0x88, 0xb, 1, 0x81, 0xb, 1, 0x83, 0xb, 7, 0x80,
    0xb, 3, 0x81, 0xb, 0, 0x84, 0xb, 1, 0x98, 0xb, 1, 0x82,
    0x31, 0, 0x85, 0x31, 3, 0x81, 0x31, 1, 0x95, 0x31, 0, 0x86,
    0x31, 0, 0x81, 0x31, 0, 0x81, 0x31, 0]"

definition unicode_script_table_2 :: "u8 list" where
  "unicode_script_table_2 =
    [0x81, 0x31, 1, 0x80, 0x31, 0, 0x84, 0x31, 3, 0x81, 0x31, 1,
    0x82, 0x31, 2, 0x80, 0x31, 6, 0x83, 0x31, 0, 0x80, 0x31, 6,
    0x90, 0x31, 9, 0x82, 0x2f, 0, 0x88, 0x2f, 0, 0x82, 0x2f, 0,
    0x95, 0x2f, 0, 0x86, 0x2f, 0, 0x81, 0x2f, 0, 0x84, 0x2f, 1,
    0x89, 0x2f, 0, 0x82, 0x2f, 0, 0x82, 0x2f, 1, 0x80, 0x2f, 0xe,
    0x83, 0x2f, 1, 0x8b, 0x2f, 6, 0x86, 0x2f, 0, 0x82, 0x7a, 0,
    0x87, 0x7a, 1, 0x81, 0x7a, 1, 0x95, 0x7a, 0, 0x86, 0x7a, 0,
    0x81, 0x7a, 0, 0x84, 0x7a, 1, 0x88, 0x7a, 1, 0x81, 0x7a, 1,
    0x82, 0x7a, 6, 0x82, 0x7a, 3, 0x81, 0x7a, 0, 0x84, 0x7a, 1,
    0x91, 0x7a, 9, 0x81, 0x9b, 0, 0x85, 0x9b, 2, 0x82, 0x9b, 0,
    0x83, 0x9b, 2, 0x81, 0x9b, 0, 0x80, 0x9b]"

definition unicode_script_table_3 :: "u8 list" where
  "unicode_script_table_3 =
    [0, 0x81, 0x9b, 2, 0x81, 0x9b, 2, 0x82, 0x9b, 2, 0x8b, 0x9b,
    3, 0x84, 0x9b, 2, 0x82, 0x9b, 0, 0x83, 0x9b, 1, 0x80, 0x9b,
    5, 0x80, 0x9b, 0xd, 0x94, 0x9b, 4, 0x8c, 0x9d, 0, 0x82, 0x9d,
    0, 0x96, 0x9d, 0, 0x8f, 0x9d, 1, 0x88, 0x9d, 0, 0x82, 0x9d,
    0, 0x83, 0x9d, 6, 0x81, 0x9d, 0, 0x82, 0x9d, 0, 0x81, 0x9d,
    1, 0x83, 0x9d, 1, 0x89, 0x9d, 6, 0x88, 0x9d, 0x8c, 0x40, 0,
    0x82, 0x40, 0, 0x96, 0x40, 0, 0x89, 0x40, 0, 0x84, 0x40, 1,
    0x88, 0x40, 0, 0x82, 0x40, 0, 0x83, 0x40, 6, 0x81, 0x40, 4,
    0x82, 0x40, 0, 0x83, 0x40, 1, 0x89, 0x40, 0, 0x82, 0x40, 0xb,
    0x8c, 0x56, 0, 0x82, 0x56, 0, 0xb2, 0x56, 0, 0x82, 0x56, 0,
    0x85, 0x56, 3, 0x8f, 0x56, 1, 0x99, 0x56]"

definition unicode_script_table_4 :: "u8 list" where
  "unicode_script_table_4 =
    [0, 0x82, 0x8c, 0, 0x91, 0x8c, 2, 0x97, 0x8c, 0, 0x88, 0x8c,
    0, 0x80, 0x8c, 1, 0x86, 0x8c, 2, 0x80, 0x8c, 3, 0x85, 0x8c,
    0, 0x80, 0x8c, 0, 0x87, 0x8c, 5, 0x89, 0x8c, 1, 0x82, 0x8c,
    0xb, 0xb9, 0x9f, 3, 0x80, 0x1a, 0x9b, 0x9f, 0x24, 0x81, 0x4b, 0,
    0x80, 0x4b, 0, 0x84, 0x4b, 0, 0x97, 0x4b, 0, 0x80, 0x4b, 0,
    0x96, 0x4b, 1, 0x84, 0x4b, 0, 0x80, 0x4b, 0, 0x86, 0x4b, 0,
    0x89, 0x4b, 1, 0x83, 0x4b, 0x1f, 0xc7, 0xa0, 0, 0xa3, 0xa0, 3,
    0xa6, 0xa0, 0, 0xa3, 0xa0, 0, 0x8e, 0xa0, 0, 0x86, 0xa0, 0x83,
    0x1a, 0x81, 0xa0, 0x24, 0xe0, 0x3f, 0x65, 0xa5, 0x29, 0, 0x80, 0x29,
    4, 0x80, 0x29, 1, 0xaa, 0x29, 0x80, 0x1a, 0x83, 0x29, 0xe0, 0x9f,
    0x34, 0xc8, 0x28, 0, 0x83, 0x28, 1, 0x86]"

definition unicode_script_table_5 :: "u8 list" where
  "unicode_script_table_5 =
    [0x28, 0, 0x80, 0x28, 0, 0x83, 0x28, 1, 0xa8, 0x28, 0, 0x83,
    0x28, 1, 0xa0, 0x28, 0, 0x83, 0x28, 1, 0x86, 0x28, 0, 0x80,
    0x28, 0, 0x83, 0x28, 1, 0x8e, 0x28, 0, 0xb8, 0x28, 0, 0x83,
    0x28, 1, 0xc2, 0x28, 1, 0x9f, 0x28, 2, 0x99, 0x28, 5, 0xd5,
    0x18, 1, 0x85, 0x18, 1, 0xe2, 0x1f, 0x13, 0x9c, 0x6e, 2, 0xca,
    0x84, 0x82, 0x1a, 0x8a, 0x84, 6, 0x95, 0x94, 8, 0x80, 0x94, 0x94,
    0x36, 0x81, 0x1a, 8, 0x93, 0x12, 0xb, 0x8c, 0x95, 0, 0x82, 0x95,
    0, 0x81, 0x95, 0xb, 0xdd, 0x46, 1, 0x89, 0x46, 5, 0x89, 0x46,
    5, 0x81, 0x62, 0x81, 0x1a, 0x80, 0x62, 0x80, 0x1a, 0x93, 0x62, 5,
    0xd8, 0x62, 6, 0xaa, 0x62, 4, 0xc5, 0x13, 9, 0x9e, 0x4e, 0,
    0x8b, 0x4e, 3, 0x8b, 0x4e, 3, 0x80, 0x4e]"

definition unicode_script_table_6 :: "u8 list" where
  "unicode_script_table_6 =
    [2, 0x8b, 0x4e, 0x9d, 0x96, 1, 0x84, 0x96, 0xa, 0xab, 0x69, 3,
    0x99, 0x69, 5, 0x8a, 0x69, 2, 0x81, 0x69, 0x9f, 0x46, 0x9b, 0x11,
    1, 0x81, 0x11, 0xbe, 0x97, 0, 0x9c, 0x97, 1, 0x8a, 0x97, 5,
    0x89, 0x97, 5, 0x8d, 0x97, 1, 0xad, 0x3b, 1, 0x8b, 0x3b, 0x13,
    0xcc, 7, 0, 0xb1, 7, 0xbf, 0x90, 0xb3, 0xa, 7, 0x83, 0xa,
    0xb7, 0x4d, 2, 0x8e, 0x4d, 2, 0x82, 0x4d, 0xaf, 0x6f, 0x8a, 0x1e,
    4, 0xaa, 0x29, 1, 0x82, 0x29, 0x87, 0x90, 7, 0x82, 0x3b, 0x80,
    0x1a, 0x8c, 0x3b, 0x80, 0x1a, 0x86, 0x3b, 0x83, 0x1a, 0x80, 0x3b, 0x85,
    0x1a, 0x80, 0x3b, 0x82, 0x1a, 0x81, 0x3b, 0x80, 0x1a, 4, 0xa5, 0x4c,
    0x84, 0x2e, 0x80, 0x1e, 0xb0, 0x4c, 0x84, 0x2e, 0x83, 0x4c, 0x84, 0x2e,
    0x8c, 0x4c, 0x80, 0x1e, 0xc5, 0x4c, 0x80, 0x2e]"

definition unicode_script_table_7 :: "u8 list" where
  "unicode_script_table_7 =
    [0xbf, 0x3b, 0xe0, 0x9f, 0x4c, 0x95, 0x2e, 1, 0x85, 0x2e, 1, 0xa5,
    0x2e, 1, 0x85, 0x2e, 1, 0x87, 0x2e, 0, 0x80, 0x2e, 0, 0x80,
    0x2e, 0, 0x80, 0x2e, 0, 0x9e, 0x2e, 1, 0xb4, 0x2e, 0, 0x8e,
    0x2e, 0, 0x8d, 0x2e, 1, 0x85, 0x2e, 0, 0x92, 0x2e, 1, 0x82,
    0x2e, 0, 0x88, 0x2e, 0, 0x8b, 0x1a, 0x81, 0x3b, 0xd6, 0x1a, 0,
    0x8a, 0x1a, 0x80, 0x4c, 1, 0x8a, 0x1a, 0x80, 0x4c, 0x8e, 0x1a, 0,
    0x8c, 0x4c, 2, 0xa1, 0x1a, 0xd, 0xa0, 0x3b, 0xe, 0xa5, 0x1a, 0x80,
    0x2e, 0x82, 0x1a, 0x81, 0x4c, 0x85, 0x1a, 0x80, 0x4c, 0x9a, 0x1a, 0x80,
    0x4c, 0x90, 0x1a, 0xa8, 0x4c, 0x82, 0x1a, 3, 0xe2, 0x39, 0x1a, 0x15,
    0x8a, 0x1a, 0x14, 0xe3, 0x3f, 0x1a, 0xe0, 0x9f, 0x10, 0xe2, 0x13, 0x1a,
    1, 0xe0, 0x29, 0x1a, 0xdf, 0x2a, 0x9f, 0x4c]"

definition unicode_script_table_8 :: "u8 list" where
  "unicode_script_table_8 =
    [0xe0, 0x13, 0x1b, 4, 0x86, 0x1b, 0xa5, 0x29, 0, 0x80, 0x29, 4,
    0x80, 0x29, 1, 0xb7, 0xa1, 6, 0x81, 0xa1, 0xd, 0x80, 0xa1, 0x96,
    0x28, 8, 0x86, 0x28, 0, 0x86, 0x28, 0, 0x86, 0x28, 0, 0x86,
    0x28, 0, 0x86, 0x28, 0, 0x86, 0x28, 0, 0x86, 0x28, 0, 0x86,
    0x28, 0, 0x9f, 0x1e, 0xdd, 0x1a, 0x21, 0x99, 0x33, 0, 0xd8, 0x33,
    0xb, 0xe0, 0x75, 0x33, 0x19, 0x94, 0x1a, 0x80, 0x33, 0x80, 0x1a, 0x80,
    0x33, 0x98, 0x1a, 0x88, 0x33, 0x83, 0x3b, 0x81, 0x34, 0x87, 0x1a, 0x83,
    0x33, 0x83, 0x1a, 0, 0xd5, 0x39, 1, 0x81, 0x3b, 0x81, 0x1a, 0x82,
    0x39, 0x80, 0x1a, 0xd9, 0x41, 0x81, 0x1a, 0x82, 0x41, 4, 0xaa, 0xe,
    0, 0xdd, 0x34, 0, 0x8f, 0x1a, 0x9f, 0xe, 0xa5, 0x1a, 8, 0x80,
    0x1a, 0x8f, 0x41, 0x9e, 0x34, 0, 0xbf, 0x1a]"

definition unicode_script_table_9 :: "u8 list" where
  "unicode_script_table_9 =
    [0x9e, 0x34, 0xd0, 0x1a, 0xae, 0x41, 0x80, 0x1a, 0xd7, 0x41, 0xe0, 0x47,
    0x1a, 0xf0, 9, 0x5f, 0x33, 0xbf, 0x1a, 0xf0, 0x41, 0x9f, 0x33, 0xe4,
    0x2c, 0xae, 2, 0xb6, 0xae, 8, 0xaf, 0x51, 0xe0, 0xcb, 0xa9, 0x13,
    0xdf, 0x1e, 0xd7, 8, 7, 0xa1, 0x1a, 0xe0, 5, 0x4c, 0x82, 0x1a,
    0xd1, 0x4c, 0x13, 0x8e, 0x4c, 0xac, 0x92, 2, 0x89, 0x1a, 5, 0xb7,
    0x80, 7, 0xc5, 0x86, 7, 0x8b, 0x86, 5, 0x9f, 0x21, 0xad, 0x44,
    0x80, 0x1a, 0x80, 0x44, 0xa3, 0x83, 0xa, 0x80, 0x83, 0x9c, 0x34, 2,
    0xcd, 0x3e, 0, 0x80, 0x1a, 0x89, 0x3e, 3, 0x81, 0x3e, 0x9e, 0x65,
    0, 0xb6, 0x17, 8, 0x8d, 0x17, 1, 0x89, 0x17, 1, 0x83, 0x17,
    0x9f, 0x65, 0xc2, 0x98, 0x17, 0x84, 0x98, 0x96, 0x5c, 9, 0x85, 0x28,
    1, 0x85, 0x28, 1, 0x85, 0x28, 8, 0x86]"

definition unicode_script_table_10 :: "u8 list" where
  "unicode_script_table_10 =
    [0x28, 0, 0x86, 0x28, 0, 0xaa, 0x4c, 0x80, 0x1a, 0x88, 0x4c, 0x80,
    0x2e, 0x83, 0x4c, 0x81, 0x1a, 3, 0xcf, 0x18, 0xad, 0x5c, 1, 0x89,
    0x5c, 5, 0xf0, 0x1b, 0x43, 0x34, 0xb, 0x96, 0x34, 3, 0xb0, 0x34,
    0x70, 0x10, 0xa3, 0xe1, 0xd, 0x33, 1, 0xe0, 9, 0x33, 0x25, 0x86,
    0x4c, 0xb, 0x84, 5, 4, 0x99, 0x38, 0, 0x84, 0x38, 0, 0x80,
    0x38, 0, 0x81, 0x38, 0, 0x81, 0x38, 0, 0x89, 0x38, 0xe1, 0x8d,
    4, 0x81, 0x1a, 0xe0, 0x2f, 4, 0x1f, 0x8f, 4, 0x8f, 0x3b, 0x89,
    0x1a, 5, 0x8d, 0x3b, 0x81, 0x1e, 0xa2, 0x1a, 0, 0x92, 0x1a, 0,
    0x83, 0x1a, 3, 0x84, 4, 0, 0xe0, 0x26, 4, 1, 0x80, 0x1a,
    0, 0x9f, 0x1a, 0x99, 0x4c, 0x85, 0x1a, 0x99, 0x4c, 0x8a, 0x1a, 0x89,
    0x41, 0x80, 0x1a, 0xac, 0x41, 0x81, 0x1a, 0x9e]"

definition unicode_script_table_11 :: "u8 list" where
  "unicode_script_table_11 =
    [0x34, 2, 0x85, 0x34, 1, 0x85, 0x34, 1, 0x85, 0x34, 1, 0x82,
    0x34, 2, 0x86, 0x1a, 0, 0x86, 0x1a, 9, 0x84, 0x1a, 1, 0x8b,
    0x50, 0, 0x99, 0x50, 0, 0x92, 0x50, 0, 0x81, 0x50, 0, 0x8e,
    0x50, 1, 0x8d, 0x50, 0x21, 0xe0, 0x1a, 0x50, 4, 0x82, 0x1a, 3,
    0xac, 0x1a, 2, 0x88, 0x1a, 0xce, 0x2e, 0, 0x8c, 0x1a, 2, 0x80,
    0x2e, 0x2e, 0xac, 0x1a, 0x80, 0x3b, 0x60, 0x21, 0x9c, 0x52, 2, 0xb0,
    0x14, 0xe, 0x80, 0x3b, 0x9a, 0x1a, 3, 0xa3, 0x72, 8, 0x82, 0x72,
    0x9a, 0x2b, 4, 0xaa, 0x74, 4, 0x9d, 0xa8, 0, 0x80, 0xa8, 0xa3,
    0x75, 3, 0x8d, 0x75, 0x29, 0xcf, 0x20, 0xaf, 0x88, 0x9d, 0x7c, 1,
    0x89, 0x7c, 5, 0xa3, 0x7b, 3, 0xa3, 0x7b, 3, 0xa7, 0x26, 7,
    0xb3, 0x15, 0xa, 0x80, 0x15, 0x8a, 0xaa, 0]"

definition unicode_script_table_12 :: "u8 list" where
  "unicode_script_table_12 =
    [0x8e, 0xaa, 0, 0x86, 0xaa, 0, 0x81, 0xaa, 0, 0x8a, 0xaa, 0,
    0x8e, 0xaa, 0, 0x86, 0xaa, 0, 0x81, 0xaa, 2, 0xb3, 0xa4, 0xb,
    0xe0, 0xd6, 0x4f, 8, 0x95, 0x4f, 9, 0x87, 0x4f, 0x17, 0x85, 0x4c,
    0, 0xa9, 0x4c, 0, 0x88, 0x4c, 0x44, 0x85, 0x1d, 1, 0x80, 0x1d,
    0, 0xab, 0x1d, 0, 0x81, 0x1d, 2, 0x80, 0x1d, 1, 0x80, 0x1d,
    0x95, 0x3a, 0, 0x88, 0x3a, 0x9f, 0x7e, 0x9e, 0x66, 7, 0x88, 0x66,
    0x2f, 0x92, 0x37, 0, 0x81, 0x37, 4, 0x84, 0x37, 0x9b, 0x81, 2,
    0x80, 0x81, 0x99, 0x53, 4, 0x80, 0x53, 0x99, 0x8a, 0x25, 0x9f, 0x5f,
    0x97, 0x5e, 3, 0x93, 0x5e, 1, 0xad, 0x5e, 0x83, 0x45, 0, 0x81,
    0x45, 4, 0x87, 0x45, 0, 0x82, 0x45, 0, 0x9c, 0x45, 1, 0x82,
    0x45, 3, 0x89, 0x45, 6, 0x88, 0x45, 6]"

definition unicode_script_table_13 :: "u8 list" where
  "unicode_script_table_13 =
    [0x9f, 0x77, 0x9f, 0x73, 0x1f, 0xa6, 0x58, 3, 0x8b, 0x58, 8, 0xb5,
    6, 2, 0x86, 6, 0x95, 0x3d, 1, 0x87, 0x3d, 0x92, 0x3c, 4,
    0x87, 0x3c, 0x91, 0x82, 6, 0x83, 0x82, 0xb, 0x86, 0x82, 0x4f, 0xc8,
    0x78, 0x36, 0xb2, 0x71, 0xc, 0xb2, 0x71, 6, 0x85, 0x71, 0xa7, 0x35,
    7, 0x89, 0x35, 5, 0xa5, 0x2c, 2, 0x9c, 0x2c, 7, 0x81, 0x2c,
    0x60, 0x6f, 0x9e, 4, 0, 0xa9, 0xad, 0, 0x82, 0xad, 1, 0x81,
    0xad, 0xf, 0x85, 4, 7, 0x88, 4, 0x20, 0x85, 4, 0xa7, 0x76,
    7, 0xa9, 0x8d, 0x15, 0x99, 0x79, 0x25, 0x9b, 0x19, 0x13, 0x96, 0x27,
    8, 0xcd, 0xf, 3, 0xa3, 0xf, 8, 0x80, 0xf, 0xc2, 0x3f, 9,
    0x80, 0x3f, 1, 0x98, 0x8e, 6, 0x89, 0x8e, 5, 0xb4, 0x16, 0,
    0x91, 0x16, 7, 0xa6, 0x55, 8, 0xdf, 0x87]"

definition unicode_script_table_14 :: "u8 list" where
  "unicode_script_table_14 =
    [0, 0x93, 0x8c, 0xa, 0x91, 0x47, 0, 0xae, 0x47, 0x3d, 0x86, 0x64,
    0, 0x80, 0x64, 0, 0x83, 0x64, 0, 0x8e, 0x64, 0, 0x8a, 0x64,
    5, 0xba, 0x49, 4, 0x89, 0x49, 5, 0x83, 0x2d, 0, 0x87, 0x2d,
    1, 0x81, 0x2d, 1, 0x95, 0x2d, 0, 0x86, 0x2d, 0, 0x81, 0x2d,
    0, 0x84, 0x2d, 0, 0x80, 0x3b, 0x88, 0x2d, 1, 0x81, 0x2d, 1,
    0x82, 0x2d, 1, 0x80, 0x2d, 5, 0x80, 0x2d, 4, 0x86, 0x2d, 1,
    0x86, 0x2d, 2, 0x84, 0x2d, 0xa, 0x89, 0xa7, 0, 0x80, 0xa7, 1,
    0x80, 0xa7, 0, 0xa5, 0xa7, 0, 0x89, 0xa7, 0, 0x80, 0xa7, 1,
    0x80, 0xa7, 0, 0x83, 0xa7, 0, 0x89, 0xa7, 0, 0x81, 0xa7, 7,
    0x81, 0xa7, 0x1c, 0xdb, 0x6a, 0, 0x84, 0x6a, 0x1d, 0xc7, 0xa2, 7,
    0x89, 0xa2, 0x60, 0x45, 0xb5, 0x89, 1, 0xa5]"

definition unicode_script_table_15 :: "u8 list" where
  "unicode_script_table_15 =
    [0x89, 0x21, 0xc4, 0x61, 0xa, 0x89, 0x61, 5, 0x8c, 0x62, 0x12, 0xb9,
    0x9a, 5, 0x89, 0x9a, 5, 0x93, 0x65, 0x1b, 0x9a, 2, 1, 0x8e,
    2, 3, 0x96, 2, 0x60, 0x58, 0xbb, 0x23, 0x60, 3, 0xd2, 0xac,
    0xb, 0x80, 0xac, 0x86, 0x22, 1, 0x80, 0x22, 1, 0x87, 0x22, 0,
    0x81, 0x22, 0, 0x9d, 0x22, 0, 0x81, 0x22, 1, 0x8b, 0x22, 8,
    0x89, 0x22, 0x45, 0x87, 0x68, 1, 0xad, 0x68, 1, 0x8a, 0x68, 0x1a,
    0xc7, 0xaf, 7, 0xd2, 0x8f, 0xc, 0x8f, 0x13, 0xb8, 0x7f, 6, 0x89,
    0x21, 0x55, 0x87, 0x87, 0x57, 0xa1, 0x91, 0xd, 0x89, 0x91, 5, 0x88,
    0xd, 0, 0xac, 0xd, 0, 0x8d, 0xd, 9, 0x9c, 0xd, 2, 0x9f,
    0x59, 1, 0x95, 0x59, 0, 0x8d, 0x59, 0x48, 0x86, 0x5a, 0, 0x81,
    0x5a, 0, 0xab, 0x5a, 2, 0x80, 0x5a, 0]"

definition unicode_script_table_16 :: "u8 list" where
  "unicode_script_table_16 =
    [0x81, 0x5a, 0, 0x88, 0x5a, 7, 0x89, 0x5a, 5, 0x85, 0x30, 0,
    0x81, 0x30, 0, 0xa4, 0x30, 0, 0x81, 0x30, 0, 0x85, 0x30, 6,
    0x89, 0x30, 5, 0xab, 0xa5, 3, 0x89, 0xa5, 0x60, 0x95, 0x98, 0x54,
    6, 0x90, 0x43, 0, 0xa8, 0x43, 2, 0x9c, 0x43, 0x54, 0x80, 0x51,
    0xe, 0xb1, 0x9b, 0xc, 0x80, 0x9b, 0xe3, 0x39, 0x1c, 0x60, 5, 0xe0,
    0xe, 0x1c, 0, 0x84, 0x1c, 0xa, 0xe0, 0x63, 0x1c, 0x69, 0xeb, 0xe0,
    2, 0x1f, 0xc, 0xe3, 0xf5, 0x25, 9, 0xef, 0x3a, 0x25, 4, 0xe1,
    0xe6, 3, 0x70, 0xa, 0x58, 0xb9, 0x32, 0x66, 0x65, 0xe1, 0xd8, 8,
    6, 0x9e, 0x63, 0, 0x89, 0x63, 3, 0x81, 0x63, 0xce, 0xa3, 0,
    0x89, 0xa3, 5, 0x9d, 9, 1, 0x85, 9, 9, 0xc5, 0x7d, 9,
    0x89, 0x7d, 0, 0x86, 0x7d, 0, 0x94, 0x7d]"

definition unicode_script_table_17 :: "u8 list" where
  "unicode_script_table_17 =
    [4, 0x92, 0x7d, 0x61, 0x4f, 0xb9, 0x4a, 0x60, 0x65, 0xda, 0x5b, 4,
    0x98, 0xc, 1, 0x98, 0xc, 0x2b, 0xca, 0x60, 3, 0xb8, 0x60, 6,
    0x90, 0x60, 0x3f, 0x80, 0x9c, 0x80, 0x6c, 0x81, 0x33, 0x80, 0x48, 0xa,
    0x86, 0x33, 8, 0xf0, 0xa, 0x9f, 0x9c, 0xe1, 0x75, 0x48, 0x28, 0x80,
    0x48, 0x9e, 0x9c, 0x60, 0, 0xe0, 0x12, 0x9c, 0x70, 0x11, 0x9c, 0x83,
    0x41, 0, 0x86, 0x41, 0, 0x81, 0x41, 0, 0x80, 0x41, 0xe0, 0xbe,
    0x39, 0x82, 0x41, 0xe, 0x80, 0x39, 0x1c, 0x82, 0x39, 1, 0x80, 0x41,
    0xd, 0x83, 0x41, 7, 0xe1, 0x2b, 0x6c, 0x68, 0xa3, 0xe0, 0xa, 0x24,
    4, 0x8c, 0x24, 2, 0x88, 0x24, 6, 0x89, 0x24, 1, 0x83, 0x24,
    0x83, 0x1a, 0x6e, 0xfb, 0xe0, 0x9c, 0x1a, 2, 0xe1, 0x53, 0x1a, 5,
    0x96, 0x1a, 0xe, 0x90, 0x1a, 0xe, 0xad, 0x3b]"

definition unicode_script_table_18 :: "u8 list" where
  "unicode_script_table_18 =
    [1, 0x96, 0x3b, 8, 0xe0, 0x13, 0x1a, 0x3b, 0xe0, 0x95, 0x1a, 9,
    0xa6, 0x1a, 1, 0xbd, 0x1a, 0x82, 0x3b, 0x90, 0x1a, 0x87, 0x3b, 0x81,
    0x1a, 0x86, 0x3b, 0x9d, 0x1a, 0x83, 0x3b, 0xbc, 0x1a, 0x14, 0xc5, 0x2e,
    0x60, 0x19, 0x93, 0x1a, 0xb, 0x93, 0x1a, 0xb, 0xd6, 0x1a, 8, 0x98,
    0x1a, 0x60, 0x26, 0xd4, 0x1a, 0, 0xc6, 0x1a, 0, 0x81, 0x1a, 1,
    0x80, 0x1a, 1, 0x81, 0x1a, 1, 0x83, 0x1a, 0, 0x8b, 0x1a, 0,
    0x80, 0x1a, 0, 0x86, 0x1a, 0, 0xc0, 0x1a, 0, 0x83, 0x1a, 1,
    0x87, 0x1a, 0, 0x86, 0x1a, 0, 0x9b, 0x1a, 0, 0x83, 0x1a, 0,
    0x84, 0x1a, 0, 0x80, 0x1a, 2, 0x86, 0x1a, 0, 0xe0, 0xf3, 0x1a,
    1, 0xe0, 0xc3, 0x1a, 1, 0xb1, 0x1a, 0xe2, 0x2b, 0x8b, 0xe, 0x84,
    0x8b, 0, 0x8e, 0x8b, 0x63, 0xef, 0x9e, 0x4c]"

definition unicode_script_table_19 :: "u8 list" where
  "unicode_script_table_19 =
    [5, 0x85, 0x4c, 0x60, 0x74, 0x86, 0x2a, 0, 0x90, 0x2a, 1, 0x86,
    0x2a, 0, 0x81, 0x2a, 0, 0x84, 0x2a, 4, 0xbd, 0x1e, 0x20, 0x80,
    0x1e, 0x60, 0xf, 0xac, 0x6d, 2, 0x8d, 0x6d, 1, 0x89, 0x6d, 3,
    0x81, 0x6d, 0x60, 0xdf, 0x9e, 0xa6, 0x10, 0xb9, 0xab, 4, 0x80, 0xab,
    0x61, 0x6f, 0xa9, 0x67, 0x60, 0x75, 0xaa, 0x70, 3, 0x80, 0x70, 0x60,
    0x5f, 0x9e, 0x99, 0, 0x95, 0x99, 7, 0x81, 0x99, 0x60, 0x7f, 0x86,
    0x28, 0, 0x83, 0x28, 0, 0x81, 0x28, 0, 0x8e, 0x28, 0, 0xe0,
    0x64, 0x5d, 1, 0x8f, 0x5d, 0x28, 0xcb, 1, 3, 0x89, 1, 3,
    0x81, 1, 0x62, 0xb0, 0xc3, 0x1a, 0x4b, 0xbc, 0x1a, 0x60, 0x61, 0x83,
    4, 0, 0x9a, 4, 0, 0x81, 4, 0, 0x80, 4, 1, 0x80,
    4, 0, 0x89, 4, 0, 0x83, 4, 0]"

definition unicode_script_table_20 :: "u8 list" where
  "unicode_script_table_20 =
    [0x80, 4, 0, 0x80, 4, 5, 0x80, 4, 3, 0x80, 4, 0,
    0x80, 4, 0, 0x80, 4, 0, 0x82, 4, 0, 0x81, 4, 0,
    0x80, 4, 1, 0x80, 4, 0, 0x80, 4, 0, 0x80, 4, 0,
    0x80, 4, 0, 0x80, 4, 0, 0x81, 4, 0, 0x80, 4, 1,
    0x83, 4, 0, 0x86, 4, 0, 0x83, 4, 0, 0x83, 4, 0,
    0x80, 4, 0, 0x89, 4, 0, 0x90, 4, 4, 0x82, 4, 0,
    0x84, 4, 0, 0x90, 4, 0x33, 0x81, 4, 0x60, 0xad, 0xab, 0x1a,
    3, 0xe0, 3, 0x1a, 0xb, 0x8e, 0x1a, 1, 0x8e, 0x1a, 0, 0x8e,
    0x1a, 0, 0xa4, 0x1a, 9, 0xe0, 0x4d, 0x1a, 0x37, 0x99, 0x1a, 0x80,
    0x39, 0x81, 0x1a, 0xc, 0xab, 0x1a, 3, 0x88, 0x1a, 6, 0x81, 0x1a,
    0xd, 0x85, 0x1a, 0x60, 0x39, 0xe3, 0x78, 0x1a]"

definition unicode_script_table_21 :: "u8 list" where
  "unicode_script_table_21 =
    [2, 0x90, 0x1a, 2, 0x8c, 0x1a, 2, 0xe0, 0x79, 0x1a, 5, 0x8b,
    0x1a, 3, 0x80, 0x1a, 0xe, 0x8b, 0x1a, 3, 0xb7, 0x1a, 7, 0x89,
    0x1a, 5, 0xa7, 0x1a, 7, 0x9d, 0x1a, 1, 0x8b, 0x1a, 3, 0x81,
    0x1a, 0xd, 0x88, 0x1a, 0x26, 0xe0, 0xf7, 0x1a, 7, 0x8d, 0x1a, 1,
    0x8c, 0x1a, 2, 0x8a, 0x1a, 2, 0xb8, 0x1a, 0, 0x80, 0x1a, 3,
    0x8f, 0x1a, 1, 0x8b, 0x1a, 3, 0x89, 0x1a, 6, 0xe0, 0x32, 0x1a,
    0, 0xe0, 6, 0x1a, 0x63, 0xa4, 0xf0, 0x96, 0x7f, 0x33, 0x1f, 0xf0,
    0, 0xbd, 0x33, 1, 0xf0, 6, 0x2d, 0x33, 1, 0xf0, 0xc, 0xd0,
    0x33, 0xe, 0xe2, 0xd, 0x33, 0x69, 0x41, 0xe1, 0xbd, 0x33, 0x65, 0x81,
    0xf0, 2, 0xea, 0x33, 4, 0xf0, 0x10, 0xc9, 0x33, 0x7a, 0xbb, 0x26,
    0x80, 0x1a, 0x1d, 0xdf, 0x1a, 0x60, 0x1f, 0xe0]"

definition unicode_script_table_22 :: "u8 list" where
  "unicode_script_table_22 =
    [0x8f, 0x3b]"

definition unicode_script_table :: "u8 list" where
  "unicode_script_table =
     unicode_script_table_0 @ unicode_script_table_1 @ unicode_script_table_2 @
     unicode_script_table_3 @ unicode_script_table_4 @ unicode_script_table_5 @
     unicode_script_table_6 @ unicode_script_table_7 @ unicode_script_table_8 @
     unicode_script_table_9 @ unicode_script_table_10 @ unicode_script_table_11 @
     unicode_script_table_12 @ unicode_script_table_13 @ unicode_script_table_14 @
     unicode_script_table_15 @ unicode_script_table_16 @ unicode_script_table_17 @
     unicode_script_table_18 @ unicode_script_table_19 @ unicode_script_table_20 @
     unicode_script_table_21 @ unicode_script_table_22"

definition unicode_script_ext_table_0 :: "u8 list" where
  "unicode_script_ext_table_0 =
    [0x80, 0x36, 0, 0, 0x10, 6, 0x14, 0x1b, 0x24, 0x26, 0x29, 0x2a,
    0x30, 0x2b, 0x2e, 0x33, 0x4c, 0x53, 0x55, 0x74, 0x88, 0x81, 0x83, 0,
    0, 7, 0xb, 0x1e, 0x21, 0x4c, 0x51, 0x9f, 0xa6, 9, 0, 0,
    2, 0xe, 0x4c, 0, 0, 2, 2, 0xe, 0x4c, 0, 0, 0,
    2, 0x4c, 0x51, 8, 0, 0, 2, 0x4c, 0x9f, 0, 0, 0,
    2, 0xe, 0x4c, 0x25, 0, 0, 8, 0x18, 0x1b, 0x1e, 0x2e, 0x4c,
    0x74, 0x91, 0x96, 0, 8, 0x18, 0x1e, 0x2e, 0x4c, 0x7b, 0x91, 0x96,
    0xa4, 0, 4, 0x18, 0x1e, 0x4c, 0xa1, 0, 5, 0x2a, 0x4c, 0x91,
    0x93, 0x9f, 0, 0xb, 0x15, 0x18, 0x1b, 0x1e, 0x2b, 0x2e, 0x4c, 0x7b,
    0x93, 0xa1, 0xa4, 0, 6, 0x1b, 0x26, 0x2a, 0x2b, 0x41, 0x4c, 0,
    5, 0x1e, 0x2e, 0x4c, 0x74, 0xa1, 0, 9]"

definition unicode_script_ext_table_1 :: "u8 list" where
  "unicode_script_ext_table_1 =
    [0x1b, 0x24, 0x38, 0x4c, 0x74, 0x93, 0x96, 0xa1, 0xa4, 0, 0xb, 5,
    0x1e, 0x24, 0x2b, 0x2e, 0x38, 0x4c, 0x74, 0x93, 0x96, 0xa1, 0, 2,
    0x4c, 0xa1, 0, 3, 0x24, 0x4c, 0x93, 0, 4, 0x18, 0x1e, 0x4c,
    0x7b, 0, 3, 0x18, 0x4c, 0x96, 0, 2, 0x4c, 0x91, 0, 2,
    0x28, 0x4c, 0, 0, 0, 2, 0x4c, 0x91, 0, 3, 0x1e, 0x4c,
    0xa4, 0, 0, 0, 4, 0x2e, 0x4c, 0x74, 0xa4, 0xe, 0, 0,
    6, 0x18, 0x24, 0x41, 0x4c, 0x93, 0xa1, 0, 4, 0x18, 0x24, 0x4c,
    0x93, 0, 2, 0x4c, 0x93, 6, 0, 0, 3, 0x4c, 0x91, 0x93,
    0, 2, 0x4c, 0x93, 0, 0, 0, 3, 0x18, 0x4c, 0x93, 0,
    7, 0x15, 0x18, 0x2b, 0x4c, 0x91, 0x93, 0x9f, 0xf, 0, 0, 1,
    0x2e, 1, 0, 0, 1, 0x2e, 0x11, 0]"

definition unicode_script_ext_table_2 :: "u8 list" where
  "unicode_script_ext_table_2 =
    [0, 2, 0x4c, 0x7b, 4, 0, 0, 3, 0x15, 0x4c, 0xa4, 3,
    0, 0xc, 1, 0x4c, 3, 0, 1, 2, 0x1b, 0x2e, 0x80, 0x8c,
    0, 0, 2, 0x1e, 0x74, 0, 2, 0x1e, 0x2a, 1, 2, 0x1e,
    0x4c, 0, 2, 0x1e, 0x2a, 0x80, 0x80, 0, 0, 3, 5, 0x29,
    0x2a, 0x80, 1, 0, 0, 7, 4, 0x2c, 0x6b, 0x35, 0x93, 0x9e,
    0xad, 0xd, 0, 0, 7, 4, 0x2c, 0x6b, 0x35, 0x93, 0x9e, 0xad,
    0, 3, 4, 0x93, 0x9e, 1, 0, 0, 8, 1, 4, 0x2c,
    0x6b, 0x35, 0x93, 0x9e, 0xad, 0x1f, 0, 0, 9, 1, 4, 0x57,
    0x58, 0x79, 0x82, 0x35, 0x8d, 0x93, 9, 0, 0xa, 2, 4, 0x93,
    9, 0, 9, 3, 4, 0x9e, 0xad, 5, 0, 0, 2, 4,
    0x93, 0x62, 0, 0, 2, 4, 0x35, 0x81]"

definition unicode_script_ext_table_3 :: "u8 list" where
  "unicode_script_ext_table_3 =
    [0xfb, 0, 0, 0xf, 0xb, 0x21, 0x2d, 0x2f, 0x31, 0x40, 0x4c, 0x56,
    0x68, 0x6a, 0x7a, 0x87, 0x9b, 0x9d, 0xa2, 0, 0xd, 0xb, 0x21, 0x2d,
    0x2f, 0x31, 0x40, 0x4c, 0x56, 0x6a, 0x7a, 0x9b, 0x9d, 0xa2, 0x10, 0,
    0, 0x15, 0xb, 0x21, 0x23, 0x30, 0x5a, 0x2d, 0x2f, 0x31, 0x40, 0x55,
    0x56, 0x68, 0x70, 0x7a, 0x49, 0x8c, 0x92, 0x9a, 0x9b, 0x9d, 0xa2, 0,
    0x17, 0xb, 0x21, 0x23, 0x30, 0x5a, 0x2d, 0x2f, 0x32, 0x31, 0x40, 0x4e,
    0x55, 0x56, 0x68, 0x70, 0x7a, 0x49, 0x8c, 0x92, 0x9a, 0x9b, 0x9d, 0xa2,
    9, 4, 0x21, 0x23, 0x3f, 0x55, 0x75, 0, 9, 3, 0xb, 0x16,
    0x92, 0x75, 0, 9, 2, 0x31, 0x64, 0x75, 0, 9, 2, 0x2f,
    0x47, 0x80, 0x75, 0, 0xd, 2, 0x2d, 0x9b, 0x80, 0x71, 0, 9,
    3, 0x40, 0x68, 0xa7, 0x82, 0xcf, 0, 9]"

definition unicode_script_ext_table_4 :: "u8 list" where
  "unicode_script_ext_table_4 =
    [3, 0x16, 0x65, 0x96, 0x80, 0x30, 0, 0, 3, 0x29, 0x2a, 0x4c,
    0x85, 0x6e, 0, 2, 1, 0x84, 0x46, 0, 1, 4, 0x12, 0x36,
    0x95, 0x94, 0x80, 0x4a, 0, 1, 2, 0x62, 0x80, 0, 0, 0,
    2, 0x62, 0x80, 0x84, 0x49, 0, 0, 4, 0xb, 0x21, 0x2d, 0x40,
    0, 1, 0x21, 0, 4, 0xb, 0x21, 0x2d, 0x40, 0, 3, 0x21,
    0x2d, 0x40, 0, 1, 0x21, 0, 5, 0xb, 0x21, 0x6a, 0x9d, 0xa2,
    0, 3, 0xb, 0x21, 0x9d, 0, 3, 0x21, 0x6a, 0x87, 0, 4,
    0xb, 0x21, 0x6a, 0x9d, 0, 2, 0x21, 0x87, 0, 6, 0x21, 0x40,
    0x56, 0x7a, 0x9b, 0x9d, 0, 1, 0x21, 1, 2, 0x21, 0x87, 1,
    1, 0x21, 0, 2, 0x21, 0x87, 0, 2, 0xb, 0x21, 0, 3,
    0x21, 0x6a, 0xa2, 5, 1, 0x21, 0, 3]"

definition unicode_script_ext_table_5 :: "u8 list" where
  "unicode_script_ext_table_5 =
    [0x21, 0x68, 0x6a, 0, 3, 0xb, 0x21, 0x87, 0, 2, 0x21, 0x6a,
    0, 1, 0x21, 0, 4, 0xb, 0x21, 0x6a, 0x87, 3, 1, 0x21,
    0, 0xb, 0xb, 0x21, 0x2d, 0x40, 0x56, 0x68, 0x7a, 0x8c, 0x9d, 0xa2,
    0xa7, 0, 2, 0x21, 0x2d, 0, 4, 0x21, 0x2d, 0x40, 0xa7, 1,
    2, 0xb, 0x21, 0, 1, 0xb, 1, 2, 0x21, 0x2d, 0, 1,
    0x68, 0x80, 0x44, 0, 1, 1, 0x2e, 0x35, 0, 0, 3, 0x1e,
    0x4c, 0x93, 0, 0, 0, 1, 0x93, 0x81, 0xb3, 0, 0, 3,
    0x4c, 0x62, 0x80, 0x1e, 0, 0, 2, 1, 4, 9, 0, 0,
    6, 0x14, 0x29, 0x2a, 0x71, 0x52, 0x78, 1, 0, 0, 4, 0x14,
    0x2e, 0x71, 0x5f, 0x80, 0x11, 0, 0, 3, 0x21, 0x2d, 0x4c, 0x8c,
    0xa5, 0, 0, 2, 0x1b, 0x4c, 0x17, 0]"

definition unicode_script_ext_table_6 :: "u8 list" where
  "unicode_script_ext_table_6 =
    [0, 2, 6, 0x78, 0, 7, 6, 0x14, 0x29, 0x71, 0x3f, 0x53,
    0x85, 9, 0, 0, 1, 0x24, 3, 0, 0, 3, 1, 4,
    0x71, 0, 0, 0, 2, 0x1e, 0x2a, 0x81, 0x2b, 0, 0xf, 2,
    0x33, 0x9c, 0, 0, 0, 7, 0xe, 0x34, 0x33, 0x39, 0x41, 0x62,
    0xae, 0, 8, 0xe, 0x34, 0x33, 0x39, 0x41, 0x62, 0x80, 0xae, 0,
    5, 0xe, 0x34, 0x33, 0x39, 0x41, 1, 0, 0, 1, 0x33, 0,
    0, 1, 8, 0xe, 0x34, 0x33, 0x39, 0x41, 0x62, 0xa0, 0xae, 1,
    9, 0xe, 0x34, 0x33, 0x39, 0x41, 0x51, 0x62, 0xa0, 0xae, 5, 6,
    0xe, 0x34, 0x33, 0x39, 0x41, 0xae, 0, 0, 0, 5, 0xe, 0x34,
    0x33, 0x39, 0x41, 7, 6, 0xe, 0x34, 0x33, 0x39, 0x41, 0xae, 3,
    5, 0xe, 0x34, 0x33, 0x39, 0x41, 9, 0]"

definition unicode_script_ext_table_7 :: "u8 list" where
  "unicode_script_ext_table_7 =
    [3, 2, 0xe, 0x33, 1, 0, 0, 5, 0xe, 0x34, 0x33, 0x39,
    0x41, 4, 2, 0x39, 0x41, 0, 0, 0, 5, 0xe, 0x34, 0x33,
    0x39, 0x41, 3, 0, 1, 3, 0x33, 0x39, 0x41, 1, 1, 0x33,
    0x58, 0, 3, 2, 0x39, 0x41, 2, 0, 0, 2, 0x39, 0x41,
    0x59, 0, 0, 6, 0xe, 0x34, 0x33, 0x39, 0x41, 0xae, 0, 2,
    0x39, 0x41, 0x80, 0x12, 0, 0xf, 1, 0x33, 0x1f, 0, 0x25, 1,
    0x33, 8, 0, 0, 2, 0x33, 0x9c, 0x2f, 0, 0x27, 1, 0x33,
    0x37, 0, 0x30, 1, 0x33, 0xe, 0, 0xb, 1, 0x33, 0x32, 0,
    0, 1, 0x33, 0x57, 0, 0x18, 1, 0x33, 9, 0, 4, 1,
    0x33, 0x5f, 0, 0x1e, 1, 0x33, 0xc0, 0x31, 0xef, 0, 0, 2,
    0x1e, 0x2a, 0x80, 0xf, 0, 7, 2, 0x33]"

definition unicode_script_ext_table_8 :: "u8 list" where
  "unicode_script_ext_table_8 =
    [0x4c, 0x80, 0xa7, 0, 2, 0x10, 0x21, 0x23, 0x2f, 0x31, 0x47, 0x40,
    0x3f, 0x55, 0x56, 0x61, 0x68, 0x87, 0x49, 0x9a, 0xa2, 0xa7, 2, 0xf,
    0x21, 0x23, 0x2f, 0x31, 0x47, 0x40, 0x3f, 0x55, 0x61, 0x68, 0x87, 0x49,
    0x9a, 0xa2, 0xa7, 1, 0xb, 0x21, 0x23, 0x2f, 0x31, 0x47, 0x3f, 0x55,
    0x61, 0x49, 0x9a, 0xa2, 0, 0xc, 0x21, 0x23, 0x2f, 0x31, 0x47, 0x3f,
    0x55, 0x61, 0x87, 0x49, 0x9a, 0xa2, 0, 0xb, 0x21, 0x23, 0x2f, 0x31,
    0x47, 0x3f, 0x55, 0x61, 0x49, 0x9a, 0xa2, 0x80, 0x36, 0, 0, 3,
    0xb, 0x21, 0xa7, 0, 0, 0, 2, 0x21, 0x9b, 0x39, 0, 0,
    3, 0x44, 0x4c, 0x65, 0x80, 0x1f, 0, 0, 2, 0x11, 0x3e, 0xc0,
    0x12, 0xed, 0, 1, 2, 4, 0x6b, 0x80, 0x31, 0, 0, 2,
    4, 0x9e, 9, 0, 0, 2, 4, 0x9e]"

definition unicode_script_ext_table_9 :: "u8 list" where
  "unicode_script_ext_table_9 =
    [0x46, 0, 1, 5, 0xe, 0x34, 0x33, 0x39, 0x41, 0x80, 0x99, 0,
    4, 6, 0xe, 0x34, 0x33, 0x39, 0x41, 0xae, 9, 0, 0, 2,
    0x39, 0x41, 0x2c, 0, 1, 2, 0x39, 0x41, 0x80, 0xdf, 0, 1,
    3, 0x1f, 0x1d, 0x50, 0, 2, 0x1d, 0x50, 3, 0, 0x2c, 3,
    0x1d, 0x4f, 0x50, 2, 0, 8, 2, 0x1d, 0x50, 0x81, 0x1f, 0,
    0x1b, 2, 4, 0x1b, 0x87, 0x75, 0, 0, 2, 0x58, 0x79, 0x87,
    0x8d, 0, 0, 2, 0x2d, 0x9b, 0, 0, 0, 2, 0x2d, 0x9b,
    0x36, 0, 1, 2, 0x2d, 0x9b, 0x8c, 0x12, 0, 1, 2, 0x2d,
    0x9b, 0, 0, 0, 2, 0x2d, 0x9b, 0xc0, 0x5c, 0x4b, 0, 3,
    1, 0x24, 0x96, 0x3b, 0, 0x11, 1, 0x33, 0x9e, 0x5d, 0, 1,
    1, 0x33, 0xce, 0xcd, 0x2d, 0]"

definition unicode_script_ext_table :: "u8 list" where
  "unicode_script_ext_table =
     unicode_script_ext_table_0 @ unicode_script_ext_table_1 @ unicode_script_ext_table_2 @
     unicode_script_ext_table_3 @ unicode_script_ext_table_4 @ unicode_script_ext_table_5 @
     unicode_script_ext_table_6 @ unicode_script_ext_table_7 @ unicode_script_ext_table_8 @
     unicode_script_ext_table_9"

subsection \<open>Sequences\<close>

definition unicode_rgi_emoji_tag_sequence :: "u8 list" where
  "unicode_rgi_emoji_tag_sequence =
    [0x67, 0x62, 0x65, 0x6e, 0x67, 0, 0x67, 0x62, 0x73, 0x63, 0x74, 0,
    0x67, 0x62, 0x77, 0x6c, 0x73, 0]"

definition unicode_rgi_emoji_zwj_sequence_0 :: "u8 list" where
  "unicode_rgi_emoji_zwj_sequence_0 =
    [2, 0xb8, 0x19, 0x40, 0x86, 2, 0xd1, 0x39, 0xb0, 0x19, 2, 0x26,
    0x39, 0x42, 0x86, 2, 0xb4, 0x36, 0x42, 0x86, 3, 0x68, 0x54, 0x64,
    0x87, 0x68, 0x54, 2, 0xdc, 0x39, 0x42, 0x86, 2, 0xd1, 0x39, 0x73,
    0x13, 2, 0x39, 0x39, 0x40, 0x86, 2, 0x69, 0x34, 0xbd, 0x19, 3,
    0xb6, 0x36, 0x40, 0x86, 0xa1, 0x87, 3, 0x68, 0x74, 0x1d, 0x19, 0x68,
    0x74, 3, 0x68, 0x34, 0xbd, 0x19, 0xa1, 0x87, 2, 0xf1, 0x7a, 0xf2,
    0x7a, 2, 0xca, 0x33, 0x42, 0x86, 2, 0x69, 0x34, 0xb0, 0x19, 4,
    0x68, 0x14, 0x68, 0x14, 0x67, 0x14, 0x66, 0x14, 2, 0xf9, 0x26, 0x42,
    0x86, 3, 0x69, 0x74, 0x1d, 0x19, 0x69, 0x74, 3, 0xd1, 0x19, 0xbc,
    0x19, 0xa1, 0x87, 2, 0x3c, 0x19, 0x40, 0x86, 2, 0x68, 0x34, 0xeb,
    0x13, 2, 0xc3, 0x33, 0xa1, 0x87, 2, 0x70]"

definition unicode_rgi_emoji_zwj_sequence_1 :: "u8 list" where
  "unicode_rgi_emoji_zwj_sequence_1 =
    [0x34, 0x40, 0x86, 2, 0xd4, 0x39, 0x42, 0x86, 2, 0xcf, 0x39, 0x42,
    0x86, 3, 0xd1, 0x79, 0xef, 0x1a, 0xd1, 0x79, 3, 0x68, 0x74, 0xef,
    0x1a, 0x68, 0x74, 3, 0x69, 0x74, 0xef, 0x1a, 0x69, 0x74, 2, 0x47,
    0x36, 0x40, 0x86, 3, 0x68, 0x74, 0x30, 0x14, 0x68, 0x74, 2, 0x39,
    0x39, 0x42, 0x86, 4, 0xd1, 0x79, 0x64, 0x87, 0x8b, 0x14, 0xd1, 0x79,
    3, 0x69, 0x74, 0x30, 0x14, 0x69, 0x74, 2, 0xd1, 0x39, 0x95, 0x86,
    2, 0x68, 0x34, 0x93, 0x13, 2, 0x69, 0x34, 0xed, 0x13, 2, 0xda,
    0x39, 0x40, 0x86, 3, 0x69, 0x34, 0xaf, 0x19, 0xa1, 0x87, 2, 0xd1,
    0x39, 0x93, 0x13, 3, 0xce, 0x39, 0x42, 0x86, 0xa1, 0x87, 3, 0xd1,
    0x79, 0x64, 0x87, 0xd1, 0x79, 3, 0xc3, 0x33, 0x42, 0x86, 0xa1, 0x87,
    3, 0x69, 0x74, 0x1d, 0x19, 0x68, 0x74, 2]"

definition unicode_rgi_emoji_zwj_sequence_2 :: "u8 list" where
  "unicode_rgi_emoji_zwj_sequence_2 =
    [0x69, 0x34, 0x92, 0x16, 2, 0xd1, 0x39, 0x96, 0x86, 4, 0x69, 0x14,
    0x64, 0x87, 0x8b, 0x14, 0x68, 0x14, 2, 0x47, 0x36, 0x42, 0x86, 2,
    0x68, 0x34, 0x7c, 0x13, 2, 0x86, 0x34, 0x42, 0x86, 2, 0xd1, 0x39,
    0x7c, 0x13, 2, 0x69, 0x14, 0xa4, 0x13, 2, 0xda, 0x39, 0x42, 0x86,
    2, 0x37, 0x39, 0x40, 0x86, 2, 0xd1, 0x39, 8, 0x87, 4, 0x68,
    0x54, 0x64, 0x87, 0x8b, 0x14, 0x68, 0x54, 2, 0x4d, 0x36, 0x40, 0x86,
    2, 0x68, 0x34, 0x2c, 0x15, 2, 0x69, 0x34, 0xaf, 0x19, 2, 0x6e,
    0x34, 0x40, 0x86, 2, 0xcd, 0x39, 0x42, 0x86, 2, 0xd1, 0x39, 0x2c,
    0x15, 2, 0x6f, 0x14, 0x40, 0x86, 3, 0xd1, 0x39, 0xbc, 0x19, 0xa1,
    0x87, 2, 0x68, 0x34, 0xa8, 0x13, 2, 0x69, 0x34, 0x73, 0x13, 4,
    0x69, 0x54, 0x64, 0x87, 0x8b, 0x14, 0x68, 0x54]"

definition unicode_rgi_emoji_zwj_sequence_3 :: "u8 list" where
  "unicode_rgi_emoji_zwj_sequence_3 =
    [2, 0x71, 0x34, 0x42, 0x86, 2, 0x45, 0x36, 0x40, 0x86, 2, 0xd1,
    0x39, 0xa8, 0x13, 3, 0x69, 0x54, 0x64, 0x87, 0x68, 0x54, 3, 0x69,
    0x54, 0x64, 0x87, 0x69, 0x54, 3, 0xce, 0x39, 0x40, 0x86, 0xa1, 0x87,
    2, 0xd8, 0x39, 0x40, 0x86, 3, 0xc3, 0x33, 0x40, 0x86, 0xa1, 0x87,
    2, 0x4d, 0x36, 0x42, 0x86, 2, 0xd1, 0x19, 0x92, 0x16, 2, 0xd1,
    0x39, 0xeb, 0x13, 2, 0x68, 0x34, 0xbc, 0x14, 2, 0xd1, 0x39, 0xbc,
    0x14, 2, 0x3d, 0x39, 0x40, 0x86, 2, 0xb8, 0x39, 0x42, 0x86, 2,
    0xa3, 0x36, 0x40, 0x86, 2, 0x75, 0x35, 0x40, 0x86, 2, 0xd8, 0x39,
    0x42, 0x86, 2, 0x69, 0x34, 0x93, 0x13, 2, 0x35, 0x39, 0x40, 0x86,
    2, 0x4b, 0x36, 0x40, 0x86, 2, 0x3d, 0x39, 0x42, 0x86, 2, 0x38,
    0x39, 0x42, 0x86, 2, 0xa3, 0x36, 0x42, 0x86]"

definition unicode_rgi_emoji_zwj_sequence_4 :: "u8 list" where
  "unicode_rgi_emoji_zwj_sequence_4 =
    [3, 0x69, 0x14, 0x67, 0x14, 0x67, 0x14, 2, 0xb6, 0x36, 0x40, 0x86,
    2, 0x69, 0x34, 0x7c, 0x13, 2, 0x75, 0x35, 0x42, 0x86, 2, 0xcc,
    0x93, 0x40, 0x86, 2, 0x6f, 0x34, 0x42, 0x86, 2, 0xcc, 0x33, 0x40,
    0x86, 3, 0xd1, 0x39, 0xbd, 0x19, 0xa1, 0x87, 2, 0x87, 0x34, 0x40,
    0x86, 2, 0x82, 0x34, 0x40, 0x86, 2, 0x69, 0x14, 0x3e, 0x13, 2,
    0xd6, 0x39, 0x40, 0x86, 2, 0x68, 0x14, 0xbd, 0x19, 2, 0x4b, 0x36,
    0x42, 0x86, 2, 0x46, 0x36, 0x42, 0x86, 2, 0x69, 0x34, 0x2c, 0x15,
    3, 0xb6, 0x36, 0x42, 0x86, 0xa1, 0x87, 2, 0xc4, 0x33, 0x40, 0x86,
    2, 0x26, 0x19, 0x40, 0x86, 2, 0x69, 0x14, 0xb0, 0x19, 2, 0xde,
    0x19, 0x42, 0x86, 2, 0x69, 0x34, 0xa8, 0x13, 2, 0xcc, 0x33, 0x42,
    0x86, 2, 0x82, 0x34, 0x42, 0x86, 2, 0xd1]"

definition unicode_rgi_emoji_zwj_sequence_5 :: "u8 list" where
  "unicode_rgi_emoji_zwj_sequence_5 =
    [0x19, 0x93, 0x13, 2, 0x81, 0x14, 0x42, 0x86, 3, 0xd1, 0x79, 0x30,
    0x14, 0xd1, 0x79, 2, 0x68, 0x34, 0xbb, 0x14, 2, 0x69, 0x34, 0x95,
    0x86, 2, 0xd1, 0x39, 0xbb, 0x14, 2, 0x69, 0x34, 0xeb, 0x13, 2,
    0xd1, 0x39, 0x84, 0x13, 2, 0x69, 0x34, 0xbc, 0x14, 4, 0x69, 0x54,
    0x64, 0x87, 0x8b, 0x14, 0x69, 0x54, 2, 0x26, 0x39, 0x40, 0x86, 2,
    0xb4, 0x36, 0x40, 0x86, 2, 0x47, 0x16, 0x42, 0x86, 2, 0xdc, 0x39,
    0x40, 0x86, 2, 0xca, 0x33, 0x40, 0x86, 2, 0xf9, 0x26, 0x40, 0x86,
    2, 0x69, 0x34, 8, 0x87, 3, 0x69, 0x14, 0x69, 0x14, 0x66, 0x14,
    3, 0xd1, 0x59, 0x1d, 0x19, 0xd1, 0x59, 2, 0xd4, 0x39, 0x40, 0x86,
    2, 0xcf, 0x39, 0x40, 0x86, 2, 0x68, 0x34, 0xa4, 0x13, 2, 0xd1,
    0x39, 0xa4, 0x13, 2, 0xd1, 0x19, 0xa8, 0x13]"

definition unicode_rgi_emoji_zwj_sequence_6 :: "u8 list" where
  "unicode_rgi_emoji_zwj_sequence_6 =
    [2, 0xd7, 0x39, 0x42, 0x86, 3, 0x69, 0x34, 0xbc, 0x19, 0xa1, 0x87,
    2, 0x68, 0x14, 0xb0, 0x19, 2, 0x3c, 0x39, 0x42, 0x86, 2, 0x68,
    0x14, 0x73, 0x13, 4, 0x69, 0x14, 0x69, 0x14, 0x66, 0x14, 0x66, 0x14,
    3, 0x68, 0x34, 0xaf, 0x19, 0xa1, 0x87, 2, 0x68, 0x34, 0x80, 0x16,
    2, 0x73, 0x34, 0x42, 0x86, 2, 0xd1, 0x39, 0x80, 0x16, 2, 0x68,
    0x34, 0xb0, 0x19, 2, 0x86, 0x34, 0x40, 0x86, 2, 0x38, 0x19, 0x42,
    0x86, 2, 0x69, 0x34, 0xbb, 0x14, 2, 0xb5, 0x36, 0x42, 0x86, 2,
    0xcd, 0x39, 0x40, 0x86, 2, 0x68, 0x34, 0x27, 0x15, 2, 0x68, 0x34,
    0x95, 0x86, 3, 0x68, 0x14, 0x68, 0x14, 0x66, 0x14, 2, 0x71, 0x34,
    0x40, 0x86, 2, 0xd1, 0x39, 0x27, 0x15, 2, 0x2e, 0x16, 0xa8, 0x14,
    2, 0xc3, 0x33, 0x42, 0x86, 2, 0x69, 0x14]"

definition unicode_rgi_emoji_zwj_sequence_7 :: "u8 list" where
  "unicode_rgi_emoji_zwj_sequence_7 =
    [0x66, 0x14, 2, 0x68, 0x34, 0x96, 0x86, 2, 0xd1, 0x39, 0x70, 0x1a,
    3, 0x69, 0x14, 0x64, 0x87, 0x68, 0x14, 2, 0x69, 0x34, 0xa4, 0x13,
    2, 0xb8, 0x39, 0x40, 0x86, 2, 0x68, 0x34, 0x3e, 0x13, 3, 0xd1,
    0x19, 0xaf, 0x19, 0xa1, 0x87, 2, 0xd1, 0x39, 0x3e, 0x13, 2, 0x68,
    0x34, 0xbd, 0x19, 2, 0xd1, 0x19, 0xbb, 0x14, 2, 0xd1, 0x19, 0x95,
    0x86, 2, 0xdb, 0x39, 0x42, 0x86, 2, 0x38, 0x39, 0x40, 0x86, 2,
    0x69, 0x34, 0x80, 0x16, 2, 0x69, 0x14, 0xeb, 0x13, 4, 0x68, 0x14,
    0x69, 0x14, 0x67, 0x14, 0x67, 0x14, 2, 0x6f, 0x34, 0x40, 0x86, 2,
    0x77, 0x34, 0x42, 0x86, 2, 0x46, 0x36, 0x40, 0x86, 2, 0x68, 0x34,
    0x92, 0x16, 2, 0x4e, 0x36, 0x42, 0x86, 3, 0x69, 0x14, 0xbd, 0x19,
    0xa1, 0x87, 2, 0xde, 0x19, 0x40, 0x86, 2]"

definition unicode_rgi_emoji_zwj_sequence_8 :: "u8 list" where
  "unicode_rgi_emoji_zwj_sequence_8 =
    [0x69, 0x34, 0x27, 0x15, 3, 0xc3, 0x13, 0x40, 0x86, 0xa1, 0x87, 2,
    0x81, 0x14, 0x40, 0x86, 3, 0xd1, 0x39, 0xaf, 0x19, 0xa1, 0x87, 2,
    0x68, 0x34, 0xbc, 0x19, 2, 0xd1, 0x19, 0x80, 0x16, 2, 0xd9, 0x39,
    0x42, 0x86, 2, 0xd1, 0x39, 0xbc, 0x19, 2, 0xdc, 0x19, 0x42, 0x86,
    2, 0x68, 0x34, 0x73, 0x13, 2, 0x69, 0x34, 0x3e, 0x13, 2, 0x47,
    0x16, 0x40, 0x86, 2, 0xd1, 0x39, 0xbd, 0x19, 2, 0x3e, 0x39, 0x42,
    0x86, 2, 0x69, 0x14, 0x95, 0x86, 2, 0x68, 0x14, 0x96, 0x86, 3,
    0x69, 0x34, 0xbd, 0x19, 0xa1, 0x87, 2, 0xd7, 0x39, 0x40, 0x86, 2,
    0x45, 0x16, 0x42, 0x86, 2, 0x68, 0x34, 0xed, 0x13, 3, 0x68, 0x34,
    0xbc, 0x19, 0xa1, 0x87, 2, 0xd1, 0x39, 0xed, 0x13, 2, 0x3c, 0x39,
    0x40, 0x86, 2, 0xd1, 0x19, 0x70, 0x1a, 2]"

definition unicode_rgi_emoji_zwj_sequence_9 :: "u8 list" where
  "unicode_rgi_emoji_zwj_sequence_9 =
    [0xd1, 0x39, 0x92, 0x16, 2, 0x73, 0x34, 0x40, 0x86, 2, 0x38, 0x19,
    0x40, 0x86, 2, 0xb5, 0x36, 0x40, 0x86, 2, 0x68, 0x34, 0xaf, 0x19,
    2, 0xd1, 0x39, 0xaf, 0x19, 2, 0x69, 0x34, 0xbc, 0x19, 2, 0xb6,
    0x16, 0x42, 0x86, 2, 0x26, 0x14, 0x25, 0x15, 2, 0xc3, 0x33, 0x40,
    0x86, 2, 0xdd, 0x39, 0x42, 0x86, 2, 0xcb, 0x93, 0x42, 0x86, 2,
    0xcb, 0x33, 0x42, 0x86, 2, 0x81, 0x34, 0x42, 0x86, 2, 0xce, 0x39,
    0xa1, 0x87, 2, 0xdb, 0x39, 0x40, 0x86, 2, 0x68, 0x34, 8, 0x87,
    2, 0xd1, 0x19, 0xb0, 0x19, 2, 0x77, 0x34, 0x40, 0x86, 2, 0x4e,
    0x36, 0x40, 0x86, 2, 0xce, 0x39, 0x42, 0x86, 2, 0x4e, 0x16, 0x42,
    0x86, 2, 0xd9, 0x39, 0x40, 0x86, 2, 0xdc, 0x19, 0x40, 0x86, 2,
    0x3e, 0x39, 0x40, 0x86, 2, 0xb9, 0x39, 0x42]"

definition unicode_rgi_emoji_zwj_sequence_10 :: "u8 list" where
  "unicode_rgi_emoji_zwj_sequence_10 =
    [0x86, 2, 0xda, 0x19, 0x42, 0x86, 2, 0x42, 0x16, 0x94, 0x81, 2,
    0x45, 0x16, 0x40, 0x86, 2, 0x69, 0x14, 0xbd, 0x19, 2, 0x70, 0x34,
    0x42, 0x86, 2, 0xce, 0x19, 0xa1, 0x87, 2, 0xc3, 0x13, 0x42, 0x86,
    2, 0x68, 0x14, 8, 0x87, 2, 0xd1, 0x19, 0x7c, 0x13, 2, 0x68,
    0x14, 0x92, 0x16, 2, 0xb6, 0x16, 0x40, 0x86, 2, 0x37, 0x39, 0x42,
    0x86, 3, 0xce, 0x19, 0x42, 0x86, 0xa1, 0x87, 3, 0x68, 0x14, 0x67,
    0x14, 0x67, 0x14, 2, 0xdd, 0x39, 0x40, 0x86, 2, 0xcf, 0x19, 0x42,
    0x86, 2, 0xd1, 0x19, 0x2c, 0x15, 2, 0x4b, 0x13, 0xe9, 0x17, 2,
    0x68, 0x14, 0x67, 0x14, 2, 0xcb, 0x93, 0x40, 0x86, 2, 0x6e, 0x34,
    0x42, 0x86, 2, 0xcb, 0x33, 0x40, 0x86, 2, 0x81, 0x34, 0x40, 0x86,
    2, 0xb6, 0x36, 0xa1, 0x87, 2, 0x45, 0x36]"

definition unicode_rgi_emoji_zwj_sequence_11 :: "u8 list" where
  "unicode_rgi_emoji_zwj_sequence_11 =
    [0x42, 0x86, 2, 0xb4, 0x16, 0x42, 0x86, 2, 0x69, 0x14, 0x73, 0x13,
    4, 0x69, 0x14, 0x69, 0x14, 0x67, 0x14, 0x66, 0x14, 2, 0x35, 0x39,
    0x42, 0x86, 2, 0x68, 0x14, 0x93, 0x13, 2, 0xb6, 0x36, 0x42, 0x86,
    3, 0x68, 0x14, 0x69, 0x14, 0x66, 0x14, 2, 0xce, 0x39, 0x40, 0x86,
    2, 0x4e, 0x16, 0x40, 0x86, 2, 0x87, 0x34, 0x42, 0x86, 2, 0x86,
    0x14, 0x42, 0x86, 2, 0xd6, 0x39, 0x42, 0x86, 2, 0xc4, 0x33, 0x42,
    0x86, 2, 0x69, 0x34, 0x96, 0x86, 2, 0xb9, 0x39, 0x40, 0x86, 2,
    0x68, 0x14, 0xa8, 0x13, 2, 0xd1, 0x19, 0x84, 0x13, 2, 0xda, 0x19,
    0x40, 0x86, 2, 0xd8, 0x19, 0x42, 0x86, 2, 0xc3, 0x13, 0x40, 0x86,
    2, 0xb9, 0x19, 0x42, 0x86, 2, 0x3d, 0x19, 0x42, 0x86, 2, 0xcf,
    0x19, 0x40, 0x86, 4, 0x68, 0x14, 0x68, 0x14]"

definition unicode_rgi_emoji_zwj_sequence_12 :: "u8 list" where
  "unicode_rgi_emoji_zwj_sequence_12 =
    [0x67, 0x14, 0x67, 0x14, 3, 0xd1, 0x19, 0xd1, 0x19, 0xd2, 0x19, 2,
    0x68, 0x14, 0xbb, 0x14, 2, 0x3b, 0x14, 0x44, 0x87, 2, 0xd1, 0x19,
    0x27, 0x15, 2, 0xb4, 0x16, 0x40, 0x86, 2, 0xcd, 0x19, 0x42, 0x86,
    2, 0xd3, 0x86, 0xa5, 0x14, 2, 0x70, 0x14, 0x42, 0x86, 3, 0xb6,
    0x16, 0x42, 0x86, 0xa1, 0x87, 4, 0x69, 0x14, 0x64, 0x87, 0x8b, 0x14,
    0x69, 0x14, 2, 0x36, 0x16, 0x2b, 0x93, 2, 0x68, 0x14, 0x80, 0x16,
    2, 0x86, 0x14, 0x40, 0x86, 2, 8, 0x14, 0x1b, 0xb, 2, 0xd1,
    0x19, 0xbc, 0x19, 2, 0xca, 0x13, 0x42, 0x86, 2, 0x41, 0x94, 0xe8,
    0x95, 2, 0xd8, 0x19, 0x40, 0x86, 2, 0xb9, 0x19, 0x40, 0x86, 2,
    0xd1, 0x19, 0xed, 0x13, 2, 0xf9, 0x86, 0x42, 0x86, 3, 0xd1, 0x19,
    0xbd, 0x19, 0xa1, 0x87, 2, 0x3d, 0x19, 0x40]"

definition unicode_rgi_emoji_zwj_sequence_13 :: "u8 list" where
  "unicode_rgi_emoji_zwj_sequence_13 =
    [0x86, 2, 0xd6, 0x19, 0x42, 0x86, 3, 0x69, 0x14, 0x66, 0x14, 0x66,
    0x14, 2, 0xd1, 0x19, 0xaf, 0x19, 3, 0x69, 0x14, 0x69, 0x14, 0x67,
    0x14, 2, 0xcd, 0x19, 0x40, 0x86, 2, 0x70, 0x14, 0x40, 0x86, 3,
    0x68, 0x14, 0xbc, 0x19, 0xa1, 0x87, 2, 0x6e, 0x14, 0x42, 0x86, 2,
    0x69, 0x14, 0x92, 0x16, 3, 0x68, 0x14, 0x68, 0x14, 0x67, 0x14, 2,
    0x69, 0x14, 0x67, 0x14, 2, 0x75, 0x95, 0x42, 0x86, 3, 0x69, 0x14,
    0x64, 0x87, 0x69, 0x14, 2, 0xd1, 0x19, 0xbc, 0x14, 2, 0xdf, 0x19,
    0x42, 0x86, 2, 0xca, 0x13, 0x40, 0x86, 2, 0x82, 0x14, 0x42, 0x86,
    2, 0x69, 0x14, 0x93, 0x13, 2, 0x68, 0x14, 0x7c, 0x13, 2, 0xf9,
    0x86, 0x40, 0x86, 2, 0xd6, 0x19, 0x40, 0x86, 2, 0x68, 0x14, 0x2c,
    0x15, 2, 0x69, 0x14, 0xa8, 0x13, 2, 0xd4]"

definition unicode_rgi_emoji_zwj_sequence_14 :: "u8 list" where
  "unicode_rgi_emoji_zwj_sequence_14 =
    [0x19, 0x42, 0x86, 4, 0x68, 0x14, 0x69, 0x14, 0x66, 0x14, 0x66, 0x14,
    2, 0x77, 0x14, 0x42, 0x86, 2, 0x39, 0x19, 0x42, 0x86, 2, 0xd1,
    0x19, 0xa4, 0x13, 2, 0x6e, 0x14, 0x40, 0x86, 3, 0xd1, 0x19, 0xd2,
    0x19, 0xd2, 0x19, 2, 0x69, 0x14, 0xbb, 0x14, 2, 0xd1, 0x19, 0x96,
    0x86, 2, 0x75, 0x95, 0x40, 0x86, 4, 0x68, 0x14, 0x64, 0x87, 0x8b,
    0x14, 0x68, 0x14, 2, 0xd1, 0x19, 0x3e, 0x13, 2, 0xdf, 0x19, 0x40,
    0x86, 2, 0x82, 0x14, 0x40, 0x86, 2, 0x44, 0x13, 0xeb, 0x17, 2,
    0xdd, 0x19, 0x42, 0x86, 3, 0x68, 0x14, 0xaf, 0x19, 0xa1, 0x87, 2,
    0x69, 0x14, 0x80, 0x16, 2, 0xa3, 0x16, 0x42, 0x86, 2, 0x69, 0x14,
    0x96, 0x86, 2, 0x46, 0x16, 0x42, 0x86, 2, 0xb6, 0x16, 0xa1, 0x87,
    2, 0x68, 0x14, 0x27, 0x15, 2, 0x26, 0x14]"

definition unicode_rgi_emoji_zwj_sequence_15 :: "u8 list" where
  "unicode_rgi_emoji_zwj_sequence_15 =
    [0x1b, 0xb, 2, 0xd4, 0x19, 0x40, 0x86, 2, 0x77, 0x14, 0x40, 0x86,
    2, 0x39, 0x19, 0x40, 0x86, 2, 0x37, 0x19, 0x42, 0x86, 3, 0x69,
    0x14, 0x67, 0x14, 0x66, 0x14, 3, 0xc3, 0x13, 0x42, 0x86, 0xa1, 0x87,
    2, 0x68, 0x14, 0xbc, 0x19, 2, 0xd1, 0x19, 0xeb, 0x13, 4, 0x69,
    0x14, 0x69, 0x14, 0x67, 0x14, 0x67, 0x14, 2, 0xd1, 0x19, 8, 0x87,
    2, 0x68, 0x14, 0xed, 0x13, 3, 0x69, 0x14, 0xbc, 0x19, 0xa1, 0x87,
    2, 0xdd, 0x19, 0x40, 0x86, 2, 0xc3, 0x13, 0xa1, 0x87, 3, 0x68,
    0x14, 0x66, 0x14, 0x66, 0x14, 3, 0x68, 0x14, 0x69, 0x14, 0x67, 0x14,
    2, 0xa3, 0x16, 0x40, 0x86, 2, 0xdb, 0x19, 0x42, 0x86, 2, 0x68,
    0x14, 0xaf, 0x19, 2, 0x46, 0x16, 0x40, 0x86, 2, 0x35, 0x16, 0xab,
    0x14, 2, 0x68, 0x14, 0x95, 0x86, 2, 0x42]"

definition unicode_rgi_emoji_zwj_sequence_16 :: "u8 list" where
  "unicode_rgi_emoji_zwj_sequence_16 =
    [0x16, 0x95, 0x81, 2, 0xc4, 0x13, 0x42, 0x86, 2, 0x15, 0x14, 0xba,
    0x19, 3, 0xd1, 0x19, 0x1d, 0x19, 0xd1, 0x19, 2, 0x69, 0x14, 8,
    0x87, 2, 0x69, 0x14, 0x7c, 0x13, 2, 0x37, 0x19, 0x40, 0x86, 2,
    0x73, 0x14, 0x42, 0x86, 2, 0x69, 0x14, 0x2c, 0x15, 2, 0xb5, 0x16,
    0x42, 0x86, 2, 0x35, 0x19, 0x42, 0x86, 4, 0x68, 0x14, 0x69, 0x14,
    0x67, 0x14, 0x66, 0x14, 2, 0x64, 0x87, 0x25, 0x15, 2, 0x64, 0x87,
    0x79, 0x1a, 2, 0x68, 0x14, 0xbc, 0x14, 3, 0xce, 0x19, 0x40, 0x86,
    0xa1, 0x87, 2, 0x87, 0x14, 0x42, 0x86, 2, 0x4d, 0x16, 0x42, 0x86,
    4, 0x68, 0x14, 0x68, 0x14, 0x66, 0x14, 0x66, 0x14, 2, 0xdb, 0x19,
    0x40, 0x86, 2, 0xd9, 0x19, 0x42, 0x86, 2, 0xc4, 0x13, 0x40, 0x86,
    2, 0xd1, 0x19, 0xbd, 0x19, 2, 0x68, 0x14]"

definition unicode_rgi_emoji_zwj_sequence_17 :: "u8 list" where
  "unicode_rgi_emoji_zwj_sequence_17 =
    [0xa4, 0x13, 2, 0x3e, 0x19, 0x42, 0x86, 2, 0xf3, 0x93, 0xa7, 0x86,
    3, 0x69, 0x14, 0xaf, 0x19, 0xa1, 0x87, 2, 0xf3, 0x93, 8, 0x13,
    2, 0xd1, 0x19, 0xd2, 0x19, 2, 0x73, 0x14, 0x40, 0x86, 2, 0xb5,
    0x16, 0x40, 0x86, 2, 0x35, 0x19, 0x40, 0x86, 2, 0x69, 0x14, 0x27,
    0x15, 2, 0xce, 0x19, 0x42, 0x86, 2, 0x71, 0x14, 0x42, 0x86, 2,
    0xd1, 0x19, 0x73, 0x13, 2, 0x68, 0x14, 0x3e, 0x13, 2, 0xf4, 0x13,
    0x20, 0x86, 2, 0x87, 0x14, 0x40, 0x86, 3, 0xb6, 0x16, 0x40, 0x86,
    0xa1, 0x87, 2, 0x4d, 0x16, 0x40, 0x86, 2, 0x69, 0x14, 0xbc, 0x19,
    2, 0x4b, 0x16, 0x42, 0x86, 2, 0xd9, 0x19, 0x40, 0x86, 2, 0x3e,
    0x19, 0x40, 0x86, 2, 0x69, 0x14, 0xed, 0x13, 2, 0xd7, 0x19, 0x42,
    0x86, 2, 0xb8, 0x19, 0x42, 0x86, 3, 0x68]"

definition unicode_rgi_emoji_zwj_sequence_18 :: "u8 list" where
  "unicode_rgi_emoji_zwj_sequence_18 =
    [0x14, 0x67, 0x14, 0x66, 0x14, 2, 0x3c, 0x19, 0x42, 0x86, 2, 0x68,
    0x14, 0x66, 0x14, 3, 0x68, 0x14, 0x64, 0x87, 0x68, 0x14, 2, 0x69,
    0x14, 0xaf, 0x19, 2, 0xce, 0x19, 0x40, 0x86, 2, 0x71, 0x14, 0x40,
    0x86, 2, 0x68, 0x14, 0xeb, 0x13, 3, 0x68, 0x14, 0xbd, 0x19, 0xa1,
    0x87, 2, 0x6f, 0x14, 0x42, 0x86, 4, 0xd1, 0x19, 0xd1, 0x19, 0xd2,
    0x19, 0xd2, 0x19, 2, 0x69, 0x14, 0xbc, 0x14, 2, 0xcc, 0x93, 0x42,
    0x86, 2, 0x4b, 0x16, 0x40, 0x86, 2, 0x26, 0x19, 0x42, 0x86, 2,
    0xd7, 0x19, 0x40, 0x86]"

definition unicode_rgi_emoji_zwj_sequence :: "u8 list" where
  "unicode_rgi_emoji_zwj_sequence =
     unicode_rgi_emoji_zwj_sequence_0 @ unicode_rgi_emoji_zwj_sequence_1 @ unicode_rgi_emoji_zwj_sequence_2 @
     unicode_rgi_emoji_zwj_sequence_3 @ unicode_rgi_emoji_zwj_sequence_4 @ unicode_rgi_emoji_zwj_sequence_5 @
     unicode_rgi_emoji_zwj_sequence_6 @ unicode_rgi_emoji_zwj_sequence_7 @ unicode_rgi_emoji_zwj_sequence_8 @
     unicode_rgi_emoji_zwj_sequence_9 @ unicode_rgi_emoji_zwj_sequence_10 @ unicode_rgi_emoji_zwj_sequence_11 @
     unicode_rgi_emoji_zwj_sequence_12 @ unicode_rgi_emoji_zwj_sequence_13 @ unicode_rgi_emoji_zwj_sequence_14 @
     unicode_rgi_emoji_zwj_sequence_15 @ unicode_rgi_emoji_zwj_sequence_16 @ unicode_rgi_emoji_zwj_sequence_17 @
     unicode_rgi_emoji_zwj_sequence_18"

subsection \<open>Names\<close>

definition unicode_gc_name_table :: "string list" where
  "unicode_gc_name_table =
    [''Cn,Unassigned'', ''Lu,Uppercase_Letter'', ''Ll,Lowercase_Letter'',
    ''Lt,Titlecase_Letter'', ''Lm,Modifier_Letter'', ''Lo,Other_Letter'',
    ''Mn,Nonspacing_Mark'', ''Mc,Spacing_Mark'', ''Me,Enclosing_Mark'',
    ''Nd,Decimal_Number,digit'', ''Nl,Letter_Number'', ''No,Other_Number'',
    ''Sm,Math_Symbol'', ''Sc,Currency_Symbol'', ''Sk,Modifier_Symbol'', ''So,Other_Symbol'',
    ''Pc,Connector_Punctuation'', ''Pd,Dash_Punctuation'', ''Ps,Open_Punctuation'',
    ''Pe,Close_Punctuation'', ''Pi,Initial_Punctuation'', ''Pf,Final_Punctuation'',
    ''Po,Other_Punctuation'', ''Zs,Space_Separator'', ''Zl,Line_Separator'',
    ''Zp,Paragraph_Separator'', ''Cc,Control,cntrl'', ''Cf,Format'', ''Cs,Surrogate'',
    ''Co,Private_Use'', ''LC,Cased_Letter'', ''L,Letter'', ''M,Mark,Combining_Mark'',
    ''N,Number'', ''S,Symbol'', ''P,Punctuation,punct'', ''Z,Separator'', ''C,Other'']"

definition unicode_script_name_table :: "string list" where
  "unicode_script_name_table =
    [''Adlam,Adlm'', ''Ahom,Ahom'', ''Anatolian_Hieroglyphs,Hluw'', ''Arabic,Arab'',
    ''Armenian,Armn'', ''Avestan,Avst'', ''Balinese,Bali'', ''Bamum,Bamu'',
    ''Bassa_Vah,Bass'', ''Batak,Batk'', ''Bengali,Beng'', ''Beria_Erfe,Berf'',
    ''Bhaiksuki,Bhks'', ''Bopomofo,Bopo'', ''Brahmi,Brah'', ''Braille,Brai'',
    ''Buginese,Bugi'', ''Buhid,Buhd'', ''Canadian_Aboriginal,Cans'', ''Carian,Cari'',
    ''Caucasian_Albanian,Aghb'', ''Chakma,Cakm'', ''Cham,Cham'', ''Cherokee,Cher'',
    ''Chorasmian,Chrs'', ''Common,Zyyy'', ''Coptic,Copt,Qaac'', ''Cuneiform,Xsux'',
    ''Cypriot,Cprt'', ''Cyrillic,Cyrl'', ''Cypro_Minoan,Cpmn'', ''Deseret,Dsrt'',
    ''Devanagari,Deva'', ''Dives_Akuru,Diak'', ''Dogra,Dogr'', ''Duployan,Dupl'',
    ''Egyptian_Hieroglyphs,Egyp'', ''Elbasan,Elba'', ''Elymaic,Elym'', ''Ethiopic,Ethi'',
    ''Georgian,Geor'', ''Glagolitic,Glag'', ''Gothic,Goth'', ''Garay,Gara'',
    ''Grantha,Gran'', ''Greek,Grek'', ''Gujarati,Gujr'', ''Gunjala_Gondi,Gong'',
    ''Gurmukhi,Guru'', ''Gurung_Khema,Gukh'', ''Han,Hani'', ''Hangul,Hang'',
    ''Hanifi_Rohingya,Rohg'', ''Hanunoo,Hano'', ''Hatran,Hatr'', ''Hebrew,Hebr'',
    ''Hiragana,Hira'', ''Imperial_Aramaic,Armi'', ''Inherited,Zinh,Qaai'',
    ''Inscriptional_Pahlavi,Phli'', ''Inscriptional_Parthian,Prti'', ''Javanese,Java'',
    ''Kaithi,Kthi'', ''Kannada,Knda'', ''Katakana,Kana'', ''Katakana_Or_Hiragana,Hrkt'',
    ''Kawi,Kawi'', ''Kayah_Li,Kali'', ''Kharoshthi,Khar'', ''Khmer,Khmr'', ''Khojki,Khoj'',
    ''Khitan_Small_Script,Kits'', ''Khudawadi,Sind'', ''Kirat_Rai,Krai'', ''Lao,Laoo'',
    ''Latin,Latn'', ''Lepcha,Lepc'', ''Limbu,Limb'', ''Linear_A,Lina'', ''Linear_B,Linb'',
    ''Lisu,Lisu'', ''Lycian,Lyci'', ''Lydian,Lydi'', ''Makasar,Maka'', ''Mahajani,Mahj'',
    ''Malayalam,Mlym'', ''Mandaic,Mand'', ''Manichaean,Mani'', ''Marchen,Marc'',
    ''Masaram_Gondi,Gonm'', ''Medefaidrin,Medf'', ''Meetei_Mayek,Mtei'',
    ''Mende_Kikakui,Mend'', ''Meroitic_Cursive,Merc'', ''Meroitic_Hieroglyphs,Mero'',
    ''Miao,Plrd'', ''Modi,Modi'', ''Mongolian,Mong'', ''Mro,Mroo'', ''Multani,Mult'',
    ''Myanmar,Mymr'', ''Nabataean,Nbat'', ''Nag_Mundari,Nagm'', ''Nandinagari,Nand'',
    ''New_Tai_Lue,Talu'', ''Newa,Newa'', ''Nko,Nkoo'', ''Nushu,Nshu'',
    ''Nyiakeng_Puachue_Hmong,Hmnp'', ''Ogham,Ogam'', ''Ol_Chiki,Olck'', ''Ol_Onal,Onao'',
    ''Old_Hungarian,Hung'', ''Old_Italic,Ital'', ''Old_North_Arabian,Narb'',
    ''Old_Permic,Perm'', ''Old_Persian,Xpeo'', ''Old_Sogdian,Sogo'',
    ''Old_South_Arabian,Sarb'', ''Old_Turkic,Orkh'', ''Old_Uyghur,Ougr'', ''Oriya,Orya'',
    ''Osage,Osge'', ''Osmanya,Osma'', ''Pahawh_Hmong,Hmng'', ''Palmyrene,Palm'',
    ''Pau_Cin_Hau,Pauc'', ''Phags_Pa,Phag'', ''Phoenician,Phnx'', ''Psalter_Pahlavi,Phlp'',
    ''Rejang,Rjng'', ''Runic,Runr'', ''Samaritan,Samr'', ''Saurashtra,Saur'',
    ''Sharada,Shrd'', ''Shavian,Shaw'', ''Siddham,Sidd'', ''Sidetic,Sidt'',
    ''SignWriting,Sgnw'', ''Sinhala,Sinh'', ''Sogdian,Sogd'', ''Sora_Sompeng,Sora'',
    ''Soyombo,Soyo'', ''Sundanese,Sund'', ''Sunuwar,Sunu'', ''Syloti_Nagri,Sylo'',
    ''Syriac,Syrc'', ''Tagalog,Tglg'', ''Tagbanwa,Tagb'', ''Tai_Le,Tale'', ''Tai_Tham,Lana'',
    ''Tai_Viet,Tavt'', ''Tai_Yo,Tayo'', ''Takri,Takr'', ''Tamil,Taml'', ''Tangut,Tang'',
    ''Telugu,Telu'', ''Thaana,Thaa'', ''Thai,Thai'', ''Tibetan,Tibt'', ''Tifinagh,Tfng'',
    ''Tirhuta,Tirh'', ''Tangsa,Tnsa'', ''Todhri,Todr'', ''Tolong_Siki,Tols'', ''Toto,Toto'',
    ''Tulu_Tigalari,Tutg'', ''Ugaritic,Ugar'', ''Vai,Vaii'', ''Vithkuqi,Vith'',
    ''Wancho,Wcho'', ''Warang_Citi,Wara'', ''Yezidi,Yezi'', ''Yi,Yiii'',
    ''Zanabazar_Square,Zanb'']"

definition unicode_prop_name_table :: "string list" where
  "unicode_prop_name_table =
    [''ASCII_Hex_Digit,AHex'', ''Bidi_Control,Bidi_C'', ''Dash'', ''Deprecated,Dep'',
    ''Diacritic,Dia'', ''Extender,Ext'', ''Hex_Digit,Hex'', ''IDS_Unary_Operator,IDSU'',
    ''IDS_Binary_Operator,IDSB'', ''IDS_Trinary_Operator,IDST'', ''Ideographic,Ideo'',
    ''Join_Control,Join_C'', ''Logical_Order_Exception,LOE'',
    ''Modifier_Combining_Mark,MCM'', ''Noncharacter_Code_Point,NChar'',
    ''Pattern_Syntax,Pat_Syn'', ''Pattern_White_Space,Pat_WS'', ''Quotation_Mark,QMark'',
    ''Radical'', ''Regional_Indicator,RI'', ''Sentence_Terminal,STerm'', ''Soft_Dotted,SD'',
    ''Terminal_Punctuation,Term'', ''Unified_Ideograph,UIdeo'', ''Variation_Selector,VS'',
    ''White_Space,space'', ''Bidi_Mirrored,Bidi_M'', ''Emoji'', ''Emoji_Component,EComp'',
    ''Emoji_Modifier,EMod'', ''Emoji_Modifier_Base,EBase'', ''Emoji_Presentation,EPres'',
    ''Extended_Pictographic,ExtPict'', ''Default_Ignorable_Code_Point,DI'', ''ID_Start,IDS'',
    ''Case_Ignorable,CI'', ''ASCII'', ''Alphabetic,Alpha'', ''Any'', ''Assigned'', ''Cased'',
    ''Changes_When_Casefolded,CWCF'', ''Changes_When_Casemapped,CWCM'',
    ''Changes_When_Lowercased,CWL'', ''Changes_When_NFKC_Casefolded,CWKCF'',
    ''Changes_When_Titlecased,CWT'', ''Changes_When_Uppercased,CWU'',
    ''Grapheme_Base,Gr_Base'', ''Grapheme_Extend,Gr_Ext'', ''ID_Continue,IDC'',
    ''ID_Compat_Math_Start'', ''ID_Compat_Math_Continue'', ''Lowercase,Lower'', ''Math'',
    ''Uppercase,Upper'', ''XID_Continue,XIDC'', ''XID_Start,XIDS'']"

definition unicode_sequence_prop_name_table :: "string list" where
  "unicode_sequence_prop_name_table =
    [''Basic_Emoji'', ''Emoji_Keycap_Sequence'', ''RGI_Emoji_Modifier_Sequence'',
    ''RGI_Emoji_Flag_Sequence'', ''RGI_Emoji_Tag_Sequence'', ''RGI_Emoji_ZWJ_Sequence'',
    ''RGI_Emoji'']"

end
