(* ===== verification/Rqsort.thy ===== *)
theory Rqsort
  imports "HOL-Library.Multiset"
begin

text \<open>
  The generic sort of \<open>libregexp/cutils.h\<close> (\<open>rqsort\<close>, \<open>heapsortx\<close>, \<open>med3\<close>): a three-way
  quicksort with an explicit stack, insertion sort below 7 elements and heap sort below
  a depth of 50 partitions. An array is a list of its elements (the exchange functions swap
  elements of \<open>size\<close> bytes whatever their alignment); \<open>cmp\<close> is the comparison function with its
  \<open>opaque\<close> argument. The theorems: it terminates for every comparison function, permutes the
  array, sorts it when the comparison is a total preorder, and its stack of 50 segments
  suffices.
\<close>

subsection \<open>The algorithm\<close>

definition swap :: "'a list \<Rightarrow> nat \<Rightarrow> nat \<Rightarrow> 'a list" where
  "swap xs i j = xs[i := xs ! j, j := xs ! i]"

definition swap_block :: "'a list \<Rightarrow> nat \<Rightarrow> nat \<Rightarrow> nat \<Rightarrow> 'a list" where
  "swap_block xs a b span = fold (\<lambda>k ys. swap ys (a + k) (b + k)) [0..<span] xs"

text \<open>\<open>sift\<close> is the inner loop of \<open>heapsortx\<close>, with \<open>r\<close> and \<open>c\<close> relative to the base \<open>b\<close>.\<close>

definition larger_child :: "('a \<Rightarrow> 'a \<Rightarrow> int) \<Rightarrow> nat \<Rightarrow> 'a list \<Rightarrow> nat \<Rightarrow> nat \<Rightarrow> nat" where
  "larger_child cmp b xs c n =
     (if c < n - 1 \<and> cmp (xs ! (b + c)) (xs ! (b + c + 1)) \<le> 0 then c + 1 else c)"

function sift :: "('a \<Rightarrow> 'a \<Rightarrow> int) \<Rightarrow> nat \<Rightarrow> 'a list \<Rightarrow> nat \<Rightarrow> nat \<Rightarrow> 'a list" where
  "sift cmp b xs r n =
     (let c = r * 2 + 1 in
      if c < n then
        let c' = larger_child cmp b xs c n in
        if cmp (xs ! (b + r)) (xs ! (b + c')) > 0 then xs
        else sift cmp b (swap xs (b + r) (b + c')) c' n
      else xs)"
  by pat_completeness auto
termination
  by (relation "measure (\<lambda>(cmp, b, xs, r, n). n - r)") (auto simp: larger_child_def)

declare sift.simps [simp del]

definition heapsortx :: "('a \<Rightarrow> 'a \<Rightarrow> int) \<Rightarrow> 'a list \<Rightarrow> nat \<Rightarrow> nat \<Rightarrow> 'a list" where
  "heapsortx cmp xs b nmemb =
     (if nmemb > 1 then
        let ys = fold (\<lambda>i zs. sift cmp b zs i nmemb) (rev [0..<nmemb div 2]) xs
        in fold (\<lambda>i zs. sift cmp b (swap zs b (b + i)) 0 i) (rev [1..<nmemb]) ys
      else xs)"

definition med3 :: "('a \<Rightarrow> 'a \<Rightarrow> int) \<Rightarrow> 'a list \<Rightarrow> nat \<Rightarrow> nat \<Rightarrow> nat \<Rightarrow> nat" where
  "med3 cmp xs a b c =
     (if cmp (xs ! a) (xs ! b) < 0
      then (if cmp (xs ! b) (xs ! c) < 0 then b else if cmp (xs ! a) (xs ! c) < 0 then c else a)
      else (if cmp (xs ! b) (xs ! c) > 0 then b else if cmp (xs ! a) (xs ! c) < 0 then a else c))"

text \<open>
  The two scans of a partition. Positions are relative to the base \<open>b\<close>, where the pivot is;
  \<open>i\<close> stands for \<open>pi\<close> and \<open>i\<close>, \<open>lt\<close> for \<open>plt\<close> and \<open>lt\<close>, \<open>gt\<close> for \<open>pgt\<close> and \<open>gt\<close>, which move together.
\<close>

function scan_left :: "('a \<Rightarrow> 'a \<Rightarrow> int) \<Rightarrow> nat \<Rightarrow> 'a list \<Rightarrow> nat \<Rightarrow> nat \<Rightarrow> nat \<Rightarrow> 'a list \<times> nat \<times> nat" where
  "scan_left cmp b xs i lt j =
     (if i < j \<and> cmp (xs ! b) (xs ! (b + i)) \<ge> 0 then
        if cmp (xs ! b) (xs ! (b + i)) = 0
        then scan_left cmp b (swap xs (b + lt) (b + i)) (i + 1) (lt + 1) j
        else scan_left cmp b xs (i + 1) lt j
      else (xs, i, lt))"
  by pat_completeness auto
termination
  by (relation "measure (\<lambda>(cmp, b, xs, i, lt, j). j - i)") auto

declare scan_left.simps [simp del]

function scan_right :: "('a \<Rightarrow> 'a \<Rightarrow> int) \<Rightarrow> nat \<Rightarrow> 'a list \<Rightarrow> nat \<Rightarrow> nat \<Rightarrow> nat \<Rightarrow> 'a list \<times> nat \<times> nat" where
  "scan_right cmp b xs i j gt =
     (let j' = j - 1 in
      if i < j' \<and> cmp (xs ! b) (xs ! (b + j')) \<le> 0 then
        if cmp (xs ! b) (xs ! (b + j')) = 0
        then scan_right cmp b (swap xs (b + (gt - 1)) (b + j')) i j' (gt - 1)
        else scan_right cmp b xs i j' gt
      else (xs, j', gt))"
  by pat_completeness auto
termination
  by (relation "measure (\<lambda>(cmp, b, xs, i, j, gt). j)") auto

declare scan_right.simps [simp del]

lemma scan_right_less: "scan_right cmp b xs i j gt = (ys, j', gt') \<Longrightarrow> j' \<le> j - 1"
proof (induction cmp b xs i j gt rule: scan_right.induct)
  case (1 cmp b xs i j gt)
  show ?case
    using 1(3) 1(1) [OF refl] 1(2) [OF refl]
    by (subst (asm) scan_right.simps) (fastforce simp: Let_def split: if_splits)
qed

function partition_loop ::
    "('a \<Rightarrow> 'a \<Rightarrow> int) \<Rightarrow> nat \<Rightarrow> 'a list \<Rightarrow> nat \<Rightarrow> nat \<Rightarrow> nat \<Rightarrow> nat \<Rightarrow> 'a list \<times> nat \<times> nat \<times> nat" where
  "partition_loop cmp b xs i lt j gt =
     (case scan_left cmp b xs i lt j of (ys, i', lt') \<Rightarrow>
        case scan_right cmp b ys i' j gt of (zs, j', gt') \<Rightarrow>
          if i' \<ge> j' then (zs, i', lt', gt')
          else partition_loop cmp b (swap zs (b + i') (b + j')) (i' + 1) lt' j' gt')"
  by pat_completeness auto
termination
  by (relation "measure (\<lambda>(cmp, b, xs, i, lt, j, gt). j)") (auto dest!: scan_right_less [OF sym])

declare partition_loop.simps [simp del]

text \<open>
  A whole partition of the segment of \<open>n\<close> elements at \<open>b\<close>: the array and the bounds of the
  middle part, equal to the pivot.
\<close>

definition partition3 :: "('a \<Rightarrow> 'a \<Rightarrow> int) \<Rightarrow> 'a list \<Rightarrow> nat \<Rightarrow> nat \<Rightarrow> 'a list \<times> nat \<times> nat" where
  "partition3 cmp xs b n =
     (let m4 = n div 4;
          m = med3 cmp xs (b + m4) (b + 2 * m4) (b + 3 * m4)
      in case partition_loop cmp b (swap xs b m) 1 1 n n of (ys, i, lt, gt) \<Rightarrow>
        let span = min lt (i - lt);
            zs = swap_block ys b (b + i - span) span;
            span' = min (n - gt) (gt - i)
        in (swap_block zs (b + i) (b + n - span') span', i - lt, n - (gt - i)))"

text \<open>Insertion sort of the segment: \<open>pj\<close> goes down from \<open>pi\<close>.\<close>

fun insert_down :: "('a \<Rightarrow> 'a \<Rightarrow> int) \<Rightarrow> nat \<Rightarrow> 'a list \<Rightarrow> nat \<Rightarrow> 'a list" where
  "insert_down cmp b xs 0 = xs"
| "insert_down cmp b xs (Suc j) =
     (if cmp (xs ! (b + j)) (xs ! (b + Suc j)) > 0
      then insert_down cmp b (swap xs (b + Suc j) (b + j)) j else xs)"

definition insertion_sort :: "('a \<Rightarrow> 'a \<Rightarrow> int) \<Rightarrow> 'a list \<Rightarrow> nat \<Rightarrow> nat \<Rightarrow> 'a list" where
  "insertion_sort cmp xs b n = fold (\<lambda>i ys. insert_down cmp b ys i) [1..<n] xs"

subsection \<open>Permutations of a segment\<close>

definition seg_perm :: "nat \<Rightarrow> nat \<Rightarrow> 'a list \<Rightarrow> 'a list \<Rightarrow> bool" where
  "seg_perm b n xs ys \<longleftrightarrow> mset ys = mset xs \<and> (\<forall>k < length xs. k < b \<or> b + n \<le> k \<longrightarrow> ys ! k = xs ! k)"

lemma seg_perm_length: "seg_perm b n xs ys \<Longrightarrow> length ys = length xs"
  unfolding seg_perm_def by (metis size_mset)

lemma seg_perm_refl [simp]: "seg_perm b n xs xs"
  by (simp add: seg_perm_def)

lemma seg_perm_trans: "seg_perm b n xs ys \<Longrightarrow> seg_perm b n ys zs \<Longrightarrow> seg_perm b n xs zs"
  using seg_perm_length [of b n xs ys] by (simp add: seg_perm_def)

lemma seg_perm_swap: "b \<le> i \<Longrightarrow> i < b + n \<Longrightarrow> b \<le> j \<Longrightarrow> j < b + n \<Longrightarrow> b + n \<le> length xs \<Longrightarrow>
    seg_perm b n xs (swap xs i j)"
  by (simp add: seg_perm_def swap_def mset_swap)

lemma length_swap [simp]: "length (swap xs i j) = length xs"
  by (simp add: swap_def)

lemma swap_nth: "i < length xs \<Longrightarrow> j < length xs \<Longrightarrow>
    swap xs i j ! k = (if k = j then xs ! i else if k = i then xs ! j else xs ! k)"
  by (simp add: swap_def nth_list_update)

lemma seg_perm_mono: "seg_perm b n xs ys \<Longrightarrow> b' \<le> b \<Longrightarrow> b + n \<le> b' + n' \<Longrightarrow> seg_perm b' n' xs ys"
  by (auto simp: seg_perm_def)

text \<open>The segment itself is permuted.\<close>

lemma seg_perm_slice:
  assumes "seg_perm b n xs ys" "b + n \<le> length xs"
  shows "mset (take n (drop b ys)) = mset (take n (drop b xs))"
proof -
  have len: "length ys = length xs" using assms(1) by (rule seg_perm_length)
  have pre: "take b ys = take b xs" and post: "drop (b + n) ys = drop (b + n) xs"
    using assms len by (auto simp: seg_perm_def intro!: nth_equalityI)
  have split: "zs = take b zs @ take n (drop b zs) @ drop (b + n) zs" for zs :: "'a list"
    by (metis append_take_drop_id drop_drop add.commute)
  have "mset ys = mset xs" using assms(1) by (simp add: seg_perm_def)
  then have "mset (take b ys) + (mset (take n (drop b ys)) + mset (drop (b + n) ys))
      = mset (take b xs) + (mset (take n (drop b xs)) + mset (drop (b + n) xs))"
    using split [of xs] split [of ys] by (metis mset_append)
  then show ?thesis by (simp add: pre post)
qed

lemma seg_perm_elem:
  assumes "seg_perm b n xs ys" "b + n \<le> length xs" "k < n"
  obtains k' where "k' < n" "ys ! (b + k) = xs ! (b + k')"
proof -
  have len: "length ys = length xs" using assms(1) by (rule seg_perm_length)
  have "ys ! (b + k) = take n (drop b ys) ! k" using assms len by simp
  also have "\<dots> \<in> set (take n (drop b ys))" using assms len by (intro nth_mem) simp
  also have "\<dots> = set (take n (drop b xs))" using seg_perm_slice [OF assms(1,2)] by (rule mset_eq_setD)
  finally show ?thesis using assms that by (auto simp: in_set_conv_nth)
qed

lemma seg_perm_swap_block:
  assumes "c + span \<le> n" "d + span \<le> n" "b + n \<le> length xs"
  shows "seg_perm b n xs (swap_block xs (b + c) (b + d) span)"
  unfolding swap_block_def using assms(1,2)
proof (induction span)
  case (Suc span)
  let ?ys = "fold (\<lambda>k ys. swap ys (b + c + k) (b + d + k)) [0..<span] xs"
  have "seg_perm b n xs ?ys" using Suc by simp
  moreover have "b + n \<le> length ?ys" using seg_perm_length [OF calculation] assms(3) by simp
  then have "seg_perm b n ?ys (swap ?ys (b + c + span) (b + d + span))"
    using Suc.prems by (intro seg_perm_swap) auto
  ultimately show ?case by (auto intro: seg_perm_trans)
qed simp

lemma seg_perm_sift:
  "r < n \<Longrightarrow> n \<le> m \<Longrightarrow> b + m \<le> length xs \<Longrightarrow> seg_perm b m xs (sift cmp b xs r n)"
proof (induction cmp b xs r n rule: sift.induct)
  case (1 cmp b xs r n)
  let ?c = "r * 2 + 1"
  let ?c' = "larger_child cmp b xs ?c n"
  show ?case
  proof (cases "?c < n \<and> \<not> cmp (xs ! (b + r)) (xs ! (b + ?c')) > 0")
    case True
    have c': "?c' < n" using True by (auto simp: larger_child_def)
    then have sw: "seg_perm b m xs (swap xs (b + r) (b + ?c'))"
      using 1(2-4) by (intro seg_perm_swap) auto
    have "seg_perm b m (swap xs (b + r) (b + ?c')) (sift cmp b (swap xs (b + r) (b + ?c')) ?c' n)"
      using 1(1) [OF refl _ refl] True c' 1(3,4) by simp
    with sw have "seg_perm b m xs (sift cmp b (swap xs (b + r) (b + ?c')) ?c' n)" by (rule seg_perm_trans)
    then show ?thesis using True by (subst sift.simps) (simp add: Let_def)
  next
    case False
    then have "sift cmp b xs r n = xs" by (subst sift.simps) (auto simp: Let_def)
    then show ?thesis by simp
  qed
qed

lemma seg_perm_fold:
  assumes "\<And>i ys. i \<in> set is \<Longrightarrow> length ys = length xs \<Longrightarrow> seg_perm b n ys (f i ys)"
  shows "seg_perm b n xs (fold f is xs)"
  using assms
proof (induction "is" arbitrary: xs)
  case (Cons i "is")
  have one: "seg_perm b n xs (f i xs)" using Cons.prems by simp
  then have "seg_perm b n (f i xs) (fold f is (f i xs))"
    using Cons by (simp add: seg_perm_length [OF one])
  with one show ?case by (simp add: seg_perm_trans)
qed simp

lemma seg_perm_heapsortx:
  assumes "b + n \<le> length xs"
  shows "seg_perm b n xs (heapsortx cmp xs b n)"
proof (cases "n > 1")
  case True
  let ?ys = "fold (\<lambda>i zs. sift cmp b zs i n) (rev [0..<n div 2]) xs"
  have one: "seg_perm b n xs ?ys"
    using assms True by (intro seg_perm_fold seg_perm_sift) auto
  have "seg_perm b n ?ys (fold (\<lambda>i zs. sift cmp b (swap zs b (b + i)) 0 i) (rev [1..<n]) ?ys)"
  proof (rule seg_perm_fold)
    fix i zs assume i: "i \<in> set (rev [1..<n])" "length (zs :: 'a list) = length ?ys"
    then have len: "b + n \<le> length zs" using assms seg_perm_length [OF one] by simp
    have "seg_perm b n zs (swap zs b (b + i))" using i len by (intro seg_perm_swap) auto
    moreover have "seg_perm b n (swap zs b (b + i)) (sift cmp b (swap zs b (b + i)) 0 i)"
      using i len by (intro seg_perm_sift) auto
    ultimately show "seg_perm b n zs (sift cmp b (swap zs b (b + i)) 0 i)" by (rule seg_perm_trans)
  qed
  with one show ?thesis unfolding heapsortx_def Let_def if_P [OF True] by (rule seg_perm_trans)
qed (simp add: heapsortx_def)

lemma seg_perm_insert_down:
  "i < n \<Longrightarrow> b + n \<le> length xs \<Longrightarrow> seg_perm b n xs (insert_down cmp b xs i)"
proof (induction cmp b xs i rule: insert_down.induct)
  case (2 cmp b xs j)
  have sw: "seg_perm b n xs (swap xs (b + Suc j) (b + j))" using 2 by (intro seg_perm_swap) auto
  then show ?case using 2 by (auto intro: seg_perm_trans)
qed simp

lemma seg_perm_insertion_sort:
  "b + n \<le> length xs \<Longrightarrow> seg_perm b n xs (insertion_sort cmp xs b n)"
  unfolding insertion_sort_def by (intro seg_perm_fold seg_perm_insert_down) auto

subsection \<open>The partition\<close>

definition zone :: "('a \<Rightarrow> bool) \<Rightarrow> nat \<Rightarrow> 'a list \<Rightarrow> nat \<Rightarrow> nat \<Rightarrow> bool" where
  "zone P b xs lo hi \<longleftrightarrow> (\<forall>k. lo \<le> k \<and> k < hi \<longrightarrow> P (xs ! (b + k)))"

lemma zoneD: "zone P b xs lo hi \<Longrightarrow> lo \<le> k \<Longrightarrow> k < hi \<Longrightarrow> P (xs ! (b + k))"
  by (simp add: zone_def)

lemma zone_cong: "\<forall>k. lo \<le> k \<and> k < hi \<longrightarrow> ys ! (b + k) = xs ! (b + k) \<Longrightarrow> zone P b ys lo hi = zone P b xs lo hi"
  by (auto simp: zone_def)

lemma scan_left_props:
  assumes "scan_left cmp b xs i lt j = (ys, i', lt')"
    and "1 \<le> lt" "lt \<le> i" "i \<le> j" "j \<le> n" "b + n \<le> length xs"
    and "zone (\<lambda>x. cmp (xs ! b) x = 0) b xs 1 lt" "zone (\<lambda>x. cmp (xs ! b) x > 0) b xs lt i"
  shows "seg_perm b n xs ys \<and> ys ! b = xs ! b \<and> 1 \<le> lt' \<and> lt' \<le> i' \<and> i \<le> i' \<and> i' \<le> j
    \<and> (\<forall>k. i' \<le> k \<and> k < n \<longrightarrow> ys ! (b + k) = xs ! (b + k))
    \<and> zone (\<lambda>x. cmp (xs ! b) x = 0) b ys 1 lt' \<and> zone (\<lambda>x. cmp (xs ! b) x > 0) b ys lt' i'
    \<and> (i' < j \<longrightarrow> cmp (xs ! b) (ys ! (b + i')) < 0)"
  using assms
proof (induction cmp b xs i lt j rule: scan_left.induct)
  case (1 cmp b xs i lt j)
  show ?case
  proof (cases "i < j \<and> cmp (xs ! b) (xs ! (b + i)) \<ge> 0")
    case False
    then have "ys = xs" "i' = i" "lt' = lt" using 1(3) by (subst (asm) scan_left.simps; simp)+
    then show ?thesis using 1(4-10) False by auto
  next
    case go: True
    show ?thesis
    proof (cases "cmp (xs ! b) (xs ! (b + i)) = 0")
      case True
      let ?xs = "swap xs (b + lt) (b + i)"
      have nth: "?xs ! k = (if k = b + i then xs ! (b + lt) else if k = b + lt then xs ! (b + i) else xs ! k)" for k
        using 1(4-8) go by (intro swap_nth) auto
      have piv: "?xs ! b = xs ! b" using 1(4,5) by (simp add: nth)
      have run: "scan_left cmp b ?xs (i + 1) (lt + 1) j = (ys, i', lt')"
        using 1(3) go True by (subst (asm) scan_left.simps) simp
      have zE: "zone (\<lambda>x. cmp (?xs ! b) x = 0) b ?xs 1 (lt + 1)"
        using 1(9) 1(5) True unfolding piv by (auto simp: zone_def nth less_Suc_eq)
      have zL: "zone (\<lambda>x. cmp (?xs ! b) x > 0) b ?xs (lt + 1) (i + 1)"
        using 1(10) 1(5) unfolding piv by (auto simp: zone_def nth less_Suc_eq)
      have sp: "seg_perm b n xs ?xs" using 1(4-8) go by (intro seg_perm_swap) auto
      note ih = 1(1) [OF go True run _ _ _ 1(7) _ zE zL, unfolded piv]
      then show ?thesis using 1(4-8) go seg_perm_trans [OF sp] by (auto simp: nth)
    next
      case False
      have run: "scan_left cmp b xs (i + 1) lt j = (ys, i', lt')"
        using 1(3) go False by (subst (asm) scan_left.simps) simp
      have zL: "zone (\<lambda>x. cmp (xs ! b) x > 0) b xs lt (i + 1)"
        using 1(10) go False by (auto simp: zone_def less_Suc_eq)
      note ih = 1(2) [OF go False run 1(4) _ _ 1(7,8,9) zL]
      then show ?thesis using 1(5,6) go by auto
    qed
  qed
qed

lemma scan_right_props:
  assumes "scan_right cmp b xs i j gt = (ys, j', gt')"
    and "1 \<le> i" "i \<le> j" "j \<le> gt" "gt \<le> n" "b + n \<le> length xs"
    and "zone (\<lambda>x. cmp (xs ! b) x < 0) b xs j gt" "zone (\<lambda>x. cmp (xs ! b) x = 0) b xs gt n"
  shows "seg_perm b n xs ys \<and> ys ! b = xs ! b \<and> j' < j \<and> i \<le> j' + 1 \<and> i \<le> gt' \<and> gt' \<le> n \<and> j' < gt'
    \<and> (i < j \<longrightarrow> i \<le> j')
    \<and> (\<forall>k. k \<le> i \<and> k < j \<or> k \<le> j' \<longrightarrow> ys ! (b + k) = xs ! (b + k))
    \<and> zone (\<lambda>x. cmp (xs ! b) x < 0) b ys (j' + 1) gt' \<and> zone (\<lambda>x. cmp (xs ! b) x = 0) b ys gt' n
    \<and> (i < j' \<longrightarrow> cmp (xs ! b) (ys ! (b + j')) > 0)"
  using assms
proof (induction cmp b xs i j gt rule: scan_right.induct)
  case (1 cmp b xs i j gt)
  let ?j = "j - 1"
  show ?case
  proof (cases "i < ?j \<and> cmp (xs ! b) (xs ! (b + ?j)) \<le> 0")
    case False
    then have eq: "ys = xs" "j' = ?j" "gt' = gt" 
      using 1(3) unfolding scan_right.simps [of cmp b xs i j gt] Let_def if_not_P [OF False] by simp_all
    have "Suc ?j = j" using 1(4,5) by simp
    then show ?thesis unfolding eq using 1(4-10) False by auto
  next
    case go: True
    show ?thesis
    proof (cases "cmp (xs ! b) (xs ! (b + ?j)) = 0")
      case True
      let ?xs = "swap xs (b + (gt - 1)) (b + ?j)"
      have nth: "?xs ! k = (if k = b + ?j then xs ! (b + (gt - 1)) else if k = b + (gt - 1) then xs ! (b + ?j) else xs ! k)" for k
        using 1(4-8) go by (intro swap_nth) auto
      have piv: "?xs ! b = xs ! b" using nth [of b] 1(4-6) go by auto
      have run: "scan_right cmp b ?xs i ?j (gt - 1) = (ys, j', gt')"
        using 1(3) unfolding scan_right.simps [of cmp b xs i j gt] Let_def if_P [OF go] if_P [OF True] .
      have zG: "zone (\<lambda>x. cmp (?xs ! b) x < 0) b ?xs ?j (gt - 1)"
        unfolding zone_def piv
      proof (intro allI impI)
        fix k assume k: "?j \<le> k \<and> k < gt - 1"
        show "cmp (xs ! b) (?xs ! (b + k)) < 0"
        proof (cases "k = ?j")
          case True
          then have "?xs ! (b + k) = xs ! (b + (gt - 1))" by (simp only: nth refl if_True)
          moreover have "j \<le> gt - 1" "gt - 1 < gt" using k True 1(4,5) by auto
          ultimately show ?thesis using zoneD [OF 1(9)] by metis
        next
          case False
          then have "j \<le> k" "k < gt" "k \<noteq> gt - 1" using k by auto
          then have "?xs ! (b + k) = xs ! (b + k)" using False by (simp only: nth) auto
          then show ?thesis using zoneD [OF 1(9) \<open>j \<le> k\<close> \<open>k < gt\<close>] by simp
        qed
      qed
      have zE: "zone (\<lambda>x. cmp (?xs ! b) x = 0) b ?xs (gt - 1) n"
        unfolding zone_def piv
      proof (intro allI impI)
        fix k assume k: "gt - 1 \<le> k \<and> k < n"
        show "cmp (xs ! b) (?xs ! (b + k)) = 0"
        proof (cases "k = gt - 1")
          case True
          then have "?xs ! (b + k) = xs ! (b + ?j)" by (simp only: nth) auto
          then show ?thesis using \<open>cmp (xs ! b) (xs ! (b + ?j)) = 0\<close> by simp
        next
          case False
          then have "gt \<le> k" "k \<noteq> ?j" using k 1(4-6) by auto
          then have "?xs ! (b + k) = xs ! (b + k)" using False by (simp only: nth) auto
          then show ?thesis using zoneD [OF 1(10) \<open>gt \<le> k\<close>] k by simp
        qed
      qed
      have sp: "seg_perm b n xs ?xs" using 1(4-8) go by (intro seg_perm_swap) auto
      have pre: "i \<le> ?j" "?j \<le> gt - 1" "gt - 1 \<le> n" "b + n \<le> length ?xs" using 1(4-8) go by auto
      note ih = 1(1) [OF refl go True run 1(4) pre zG zE, unfolded piv]
      have keep: "?xs ! (b + k) = xs ! (b + k)" if "k < ?j" for k
        using that 1(6) by (simp only: nth) auto
      have "seg_perm b n xs ys" using sp ih by (blast intro: seg_perm_trans)
      moreover have "\<forall>k. k \<le> i \<and> k < j \<or> k \<le> j' \<longrightarrow> ys ! (b + k) = xs ! (b + k)"
      proof (intro allI impI)
        fix k assume "k \<le> i \<and> k < j \<or> k \<le> j'"
        then have "k \<le> i \<and> k < ?j \<or> k \<le> j'" "k < ?j" using go ih by auto
        then have "ys ! (b + k) = ?xs ! (b + k)" using ih by blast
        then show "ys ! (b + k) = xs ! (b + k)" using keep [OF \<open>k < ?j\<close>] by simp
      qed
      ultimately show ?thesis using ih go by auto
    next
      case False
      have run: "scan_right cmp b xs i ?j gt = (ys, j', gt')"
        using 1(3) unfolding scan_right.simps [of cmp b xs i j gt] Let_def if_P [OF go] if_not_P [OF False] .
      have zG: "zone (\<lambda>x. cmp (xs ! b) x < 0) b xs ?j gt"
        unfolding zone_def
      proof (intro allI impI)
        fix k assume k: "?j \<le> k \<and> k < gt"
        show "cmp (xs ! b) (xs ! (b + k)) < 0"
        proof (cases "k = ?j")
          case True
          then show ?thesis using go \<open>cmp (xs ! b) (xs ! (b + ?j)) \<noteq> 0\<close> by simp
        next
          case False
          then have "j \<le> k" using k by linarith
          then show ?thesis using zoneD [OF 1(9)] k by simp
        qed
      qed
      have pre: "i \<le> ?j" "?j \<le> gt" using 1(5,6) go by auto
      note ih = 1(2) [OF refl go False run 1(4) pre 1(7,8) zG 1(10)]
      have "\<forall>k. k \<le> i \<and> k < j \<or> k \<le> j' \<longrightarrow> ys ! (b + k) = xs ! (b + k)"
      proof (intro allI impI)
        fix k assume "k \<le> i \<and> k < j \<or> k \<le> j'"
        then have "k \<le> i \<and> k < ?j \<or> k \<le> j'" using go by auto
        then show "ys ! (b + k) = xs ! (b + k)" using ih by blast
      qed
      moreover have "j' < j" using ih by linarith
      ultimately show ?thesis using ih go by blast
    qed
  qed
qed

lemma partition_loop_props:
  assumes "partition_loop cmp b xs i lt j gt = (ys, i', lt', gt')"
    and "1 \<le> lt" "lt \<le> i" "i \<le> j" "j \<le> gt" "gt \<le> n" "b + n \<le> length xs"
    and "zone (\<lambda>x. cmp (xs ! b) x = 0) b xs 1 lt" "zone (\<lambda>x. cmp (xs ! b) x > 0) b xs lt i"
    and "zone (\<lambda>x. cmp (xs ! b) x < 0) b xs j gt" "zone (\<lambda>x. cmp (xs ! b) x = 0) b xs gt n"
  shows "seg_perm b n xs ys \<and> ys ! b = xs ! b \<and> 1 \<le> lt' \<and> lt' \<le> i' \<and> i' \<le> gt' \<and> gt' \<le> n
    \<and> zone (\<lambda>x. cmp (xs ! b) x = 0) b ys 1 lt' \<and> zone (\<lambda>x. cmp (xs ! b) x > 0) b ys lt' i'
    \<and> zone (\<lambda>x. cmp (xs ! b) x < 0) b ys i' gt' \<and> zone (\<lambda>x. cmp (xs ! b) x = 0) b ys gt' n"
  using assms
proof (induction cmp b xs i lt j gt rule: partition_loop.induct)
  case (1 cmp b xs i lt j gt)
  obtain us i1 lt1 where left: "scan_left cmp b xs i lt j = (us, i1, lt1)" by (metis prod_cases3)
  obtain zs j1 gt1 where right: "scan_right cmp b us i1 j gt = (zs, j1, gt1)" by (metis prod_cases3)
  have "j \<le> n" using 1(6,7) by simp
  note l = scan_left_props [OF left 1(3-5) this 1(8-10)]
  have us: "us ! b = xs ! b" "b + n \<le> length us"
    using l 1(8) seg_perm_length [of b n xs us] by simp_all
  have "zone (\<lambda>x. cmp (us ! b) x < 0) b us j gt = zone (\<lambda>x. cmp (us ! b) x < 0) b xs j gt"
    "zone (\<lambda>x. cmp (us ! b) x = 0) b us gt n = zone (\<lambda>x. cmp (us ! b) x = 0) b xs gt n"
    using l 1(6,7) by (auto intro!: zone_cong)
  then have z: "zone (\<lambda>x. cmp (us ! b) x < 0) b us j gt" "zone (\<lambda>x. cmp (us ! b) x = 0) b us gt n"
    using 1(11,12) us(1) by simp_all
  have "1 \<le> i1" "i1 \<le> j" using l by linarith+
  note r = scan_right_props [OF right this 1(6,7) us(2) z, unfolded us(1)]
  have zs: "zs ! b = xs ! b" "b + n \<le> length zs" "seg_perm b n xs zs"
    using r us(2) seg_perm_length [of b n us zs] seg_perm_trans [of b n xs us zs] l by simp_all
  have below: "zs ! (b + k) = us ! (b + k)" if "k < i1" for k
  proof -
    have "k \<le> i1 \<and> k < j" using that \<open>i1 \<le> j\<close> by simp
    then show ?thesis using r by blast
  qed
  have zE: "zone (\<lambda>x. cmp (xs ! b) x = 0) b zs 1 lt1" and zL: "zone (\<lambda>x. cmp (xs ! b) x > 0) b zs lt1 i1"
    using l below zone_cong [of 1 lt1 zs b us "\<lambda>x. cmp (xs ! b) x = 0"]
      zone_cong [of lt1 i1 zs b us "\<lambda>x. cmp (xs ! b) x > 0"] by simp_all
  have zG: "zone (\<lambda>x. cmp (xs ! b) x < 0) b zs (j1 + 1) gt1" using r by blast
  show ?case
  proof (cases "i1 \<ge> j1")
    case True
    have res: "ys = zs" "i' = i1" "lt' = lt1" "gt' = gt1"
      using 1(2) left right True by (simp_all add: partition_loop.simps [of cmp b xs])
    have "zone (\<lambda>x. cmp (xs ! b) x < 0) b zs i1 gt1"
      unfolding zone_def
    proof (intro allI impI)
      fix k assume k: "i1 \<le> k \<and> k < gt1"
      show "cmp (xs ! b) (zs ! (b + k)) < 0"
      proof (cases "j1 + 1 \<le> k")
        case True
        show ?thesis using zoneD [OF zG True] k by simp
      next
        case False
        moreover have "j1 < j" using r by blast
        ultimately have "k = i1" "k = j1" "i1 < j" using k \<open>i1 \<ge> j1\<close> by linarith+
        moreover have "zs ! (b + i1) = us ! (b + i1)" using r \<open>i1 < j\<close> by blast
        ultimately show ?thesis using l by auto
      qed
    qed
    then show ?thesis using l r zs zE zL unfolding res by blast
  next
    case False
    let ?zs = "swap zs (b + i1) (b + j1)"
    have run: "partition_loop cmp b ?zs (i1 + 1) lt1 j1 gt1 = (ys, i', lt', gt')"
      using 1(2) left right False by (simp add: partition_loop.simps [of cmp b xs])
    have "j1 < j" using r by blast
    then have j1: "j1 < n" "i1 < n" "i1 < j" using False 1(6,7) by linarith+
    have rb: "j1 < gt1" "gt1 \<le> n" and lb: "1 \<le> lt1" "lt1 \<le> i1" using l r by blast+
    have nth: "?zs ! k = (if k = b + j1 then zs ! (b + i1) else if k = b + i1 then zs ! (b + j1) else zs ! k)" for k
      using j1 zs(2) by (intro swap_nth) auto
    have piv: "?zs ! b = xs ! b" using False zs(1) \<open>1 \<le> i1\<close> by (simp add: nth)
    have low: "cmp (xs ! b) (zs ! (b + i1)) < 0"
    proof -
      have "zs ! (b + i1) = us ! (b + i1)" using r j1(3) by blast
      then show ?thesis using l j1(3) by simp
    qed
    have high: "cmp (xs ! b) (zs ! (b + j1)) > 0"
    proof -
      have "i1 < j1" using False by simp
      then show ?thesis using r by blast
    qed
    have y1: "zone (\<lambda>x. cmp (?zs ! b) x = 0) b ?zs 1 lt1"
      using zE lb False unfolding piv by (subst zone_cong [of 1 lt1 ?zs b zs]) (auto simp: nth)
    have y2: "zone (\<lambda>x. cmp (?zs ! b) x > 0) b ?zs lt1 (i1 + 1)"
      using zL high False unfolding piv by (auto simp: zone_def nth less_Suc_eq)
    have y3: "zone (\<lambda>x. cmp (?zs ! b) x < 0) b ?zs j1 gt1"
      unfolding zone_def piv
    proof (intro allI impI)
      fix k assume k: "j1 \<le> k \<and> k < gt1"
      show "cmp (xs ! b) (?zs ! (b + k)) < 0"
      proof (cases "k = j1")
        case True
        then show ?thesis using low by (simp add: nth)
      next
        case other: False
        then have "j1 + 1 \<le> k" "k < gt1" using k by auto
        then have "cmp (xs ! b) (zs ! (b + k)) < 0" using zoneD [OF zG] by simp
        then show ?thesis using other k False by (simp add: nth)
      qed
    qed
    have y4: "zone (\<lambda>x. cmp (?zs ! b) x = 0) b ?zs gt1 n"
    proof -
      have "zone (\<lambda>x. cmp (xs ! b) x = 0) b ?zs gt1 n = zone (\<lambda>x. cmp (xs ! b) x = 0) b zs gt1 n"
        using rb False by (intro zone_cong) (auto simp: nth)
      then show ?thesis using r unfolding piv by blast
    qed
    have sp: "seg_perm b n zs ?zs" using j1 zs(2) by (intro seg_perm_swap) auto
    have pre: "1 \<le> lt1" "lt1 \<le> i1 + 1" "i1 + 1 \<le> j1" "j1 \<le> gt1" "gt1 \<le> n" "b + n \<le> length ?zs"
      using rb lb False zs(2) by simp_all
    note ih = 1(1) [OF left [symmetric] refl right [symmetric] refl False run pre y1 y2 y3 y4, unfolded piv]
    then show ?thesis using seg_perm_trans [OF zs(3) seg_perm_trans [OF sp]] by blast
  qed
qed

lemma swap_block_nth:
  assumes "c + span \<le> d" "b + d + span \<le> length xs"
  shows "swap_block xs (b + c) (b + d) span ! (b + k) =
    (if c \<le> k \<and> k < c + span then xs ! (b + (d + (k - c)))
     else if d \<le> k \<and> k < d + span then xs ! (b + (c + (k - d))) else xs ! (b + k))"
  using assms
proof (induction span arbitrary: k)
  case (Suc span)
  let ?ys = "swap_block xs (b + c) (b + d) span"
  have len: "length ?ys = length xs"
    unfolding swap_block_def by (rule fold_invariant [where P = "\<lambda>zs. length zs = length xs" and Q = "\<lambda>_. True"]) auto
  have step: "swap_block xs (b + c) (b + d) (Suc span) = swap ?ys (b + c + span) (b + d + span)"
    by (simp add: swap_block_def)
  have ih: "?ys ! (b + k) =
    (if c \<le> k \<and> k < c + span then xs ! (b + (d + (k - c)))
     else if d \<le> k \<and> k < d + span then xs ! (b + (c + (k - d))) else xs ! (b + k))" for k
    using Suc.prems by (intro Suc.IH) auto
  have "swap ?ys (b + c + span) (b + d + span) ! (b + k) =
      (if k = d + span then ?ys ! (b + (c + span)) else if k = c + span then ?ys ! (b + (d + span)) else ?ys ! (b + k))"
    using Suc.prems len by (subst swap_nth) (auto simp: add.assoc)
  also have "\<dots> = (if k = d + span then xs ! (b + (c + span)) else if k = c + span then xs ! (b + (d + span))
      else ?ys ! (b + k))"
    using Suc.prems by (simp add: ih)
  finally show ?case unfolding step ih using Suc.prems by (auto simp: less_Suc_eq)
qed (auto simp: swap_block_def)

lemma med3_cases: "med3 cmp xs a b c = a \<or> med3 cmp xs a b c = b \<or> med3 cmp xs a b c = c"
  by (simp add: med3_def)

lemma partition3_props:
  assumes "partition3 cmp xs b n = (ys, lt, gt)" "6 < n" "b + n \<le> length xs"
  obtains v where "seg_perm b n xs ys" "lt < gt" "gt \<le> n"
    "zone (\<lambda>x. cmp v x > 0) b ys 0 lt"
    "zone (\<lambda>x. cmp v x = 0 \<or> x = v) b ys lt gt"
    "zone (\<lambda>x. cmp v x < 0) b ys gt n"
proof -
  let ?m = "med3 cmp xs (b + n div 4) (b + 2 * (n div 4)) (b + 3 * (n div 4))"
  let ?xs = "swap xs b ?m"
  have m: "b \<le> ?m" "?m < b + n"
    using med3_cases [of cmp xs "b + n div 4" "b + 2 * (n div 4)" "b + 3 * (n div 4)"] assms(2) by auto
  then have sp1: "seg_perm b n xs ?xs" using assms(2,3) by (intro seg_perm_swap) auto
  then have len1: "b + n \<le> length ?xs" using assms(3) by simp
  obtain us i l g where loop: "partition_loop cmp b ?xs 1 1 n n = (us, i, l, g)" by (metis prod_cases4)
  have pre: "1 \<le> n" using assms(2) by simp
  have z: "zone P b ?xs 1 1" "zone P b ?xs n n" for P :: "'a \<Rightarrow> bool" by (auto simp: zone_def)
  note p = partition_loop_props [OF loop order.refl order.refl pre order.refl order.refl len1 z(1) z(1) z(2) z(2)]
  let ?v = "?xs ! b"
  have b1: "1 \<le> l" "l \<le> i" "i \<le> g" "g \<le> n" and piv: "us ! b = ?v" and spu: "seg_perm b n ?xs us"
    and zE: "zone (\<lambda>x. cmp ?v x = 0) b us 1 l" and zL: "zone (\<lambda>x. cmp ?v x > 0) b us l i"
    and zG: "zone (\<lambda>x. cmp ?v x < 0) b us i g" and zE2: "zone (\<lambda>x. cmp ?v x = 0) b us g n"
    using p by blast+
  have lenu: "b + n \<le> length us" using spu len1 seg_perm_length [OF spu] by simp
  let ?s = "min l (i - l)"
  let ?zs = "swap_block us (b + 0) (b + (i - ?s)) ?s"
  let ?s' = "min (n - g) (g - i)"
  have run: "ys = swap_block ?zs (b + i) (b + (n - ?s')) ?s'" "lt = i - l" "gt = n - (g - i)"
    using assms(1) loop b1 by (auto simp: partition3_def Let_def)
  have sz: "seg_perm b n us ?zs"
    using b1 lenu by (intro seg_perm_swap_block) auto
  have lenz: "b + n \<le> length ?zs" using sz lenu seg_perm_length [OF sz] by simp
  have "seg_perm b n ?zs ys" unfolding run using b1 lenz by (intro seg_perm_swap_block) auto
  then have sp: "seg_perm b n xs ys" using sp1 spu sz by (blast intro: seg_perm_trans)
  obtain s where s: "?s = s" "s \<le> l" "s \<le> i - l" "s = l \<or> s = i - l" by (metis min.cobounded1 min.cobounded2 min_def)
  obtain t where t: "?s' = t" "t \<le> n - g" "t \<le> g - i" "t = n - g \<or> t = g - i" by (metis min.cobounded1 min.cobounded2 min_def)
  note b1 = b1 s(2,3) t(2,3)
  have zs: "?zs ! (b + k) = (if k < s then us ! (b + (i - s + k))
      else if i - s \<le> k \<and> k < i then us ! (b + (k - (i - s))) else us ! (b + k))" for k
  proof -
    have pre: "0 + s \<le> i - s" "b + (i - s) + s \<le> length us" "i - s + s = i" using b1 lenu by linarith+
    show ?thesis using swap_block_nth [OF pre(1,2), of k] unfolding pre(3) s(1) by simp
  qed
  have ys: "ys ! (b + k) = (if i \<le> k \<and> k < i + t then ?zs ! (b + (n - t + (k - i)))
      else if n - t \<le> k \<and> k < n then ?zs ! (b + (i + (k - (n - t)))) else ?zs ! (b + k))" for k
  proof -
    have pre: "i + t \<le> n - t" "b + (n - t) + t \<le> length ?zs" "n - t + t = n" using b1 lenz by linarith+
    show ?thesis using swap_block_nth [OF pre(1,2), of k] unfolding pre(3) run t(1) .
  qed
  have eq: "cmp ?v (us ! (b + k)) = 0 \<or> us ! (b + k) = ?v" if "k < l" for k
    using zoneD [OF zE, of k] piv that by (cases k) auto
  have y_low: "ys ! (b + k) = ?zs ! (b + k)" if "k < i" for k
  proof -
    have "\<not> i \<le> k" "\<not> n - t \<le> k" using that b1 by linarith+
    then show ?thesis by (simp only: ys) simp
  qed
  have z_high: "?zs ! (b + k) = us ! (b + k)" if "i \<le> k" for k
  proof -
    have "\<not> k < s" "\<not> k < i" using that b1 by linarith+
    then show ?thesis by (simp only: zs) simp
  qed
  have left: "\<exists>k'. ys ! (b + k) = us ! (b + k') \<and> (if k < i - l then l \<le> k' \<and> k' < i else k' < l)"
    if "k < i" for k
  proof (cases "k < s")
    case True
    then have "k < i - l" "l \<le> i - s + k" "i - s + k < i" using b1 s(4) by linarith+
    moreover have "ys ! (b + k) = us ! (b + (i - s + k))" using True that by (simp only: y_low zs if_True)
    ultimately show ?thesis by (intro exI [of _ "i - s + k"]) simp
  next
    case s1: False
    show ?thesis
    proof (cases "i - s \<le> k")
      case True
      then have "\<not> k < i - l" "k - (i - s) < l" using that b1 s(4) by linarith+
      moreover have "ys ! (b + k) = us ! (b + (k - (i - s)))"
        using True that s1 by (simp only: y_low zs) simp
      ultimately show ?thesis by (intro exI [of _ "k - (i - s)"]) simp
    next
      case False
      then have "if k < i - l then l \<le> k \<and> k < i else k < l" using that b1 s(4) s1 by auto
      moreover have "ys ! (b + k) = us ! (b + k)" using False that s1 by (simp only: y_low zs) simp
      ultimately show ?thesis by blast
    qed
  qed
  have right: "\<exists>k'. ys ! (b + k) = us ! (b + k') \<and> (if k < gt then g \<le> k' \<and> k' < n else i \<le> k' \<and> k' < g)"
    if "i \<le> k" "k < n" for k
  proof (cases "k < i + t")
    case True
    then have "k < gt" "g \<le> n - t + (k - i)" "n - t + (k - i) < n" "i \<le> n - t + (k - i)"
      using that b1 t(4) run(3) by linarith+
    moreover have "ys ! (b + k) = us ! (b + (n - t + (k - i)))"
      using True that calculation(4) by (simp only: ys z_high) simp
    ultimately show ?thesis by (intro exI [of _ "n - t + (k - i)"]) simp
  next
    case t1: False
    show ?thesis
    proof (cases "n - t \<le> k")
      case True
      then have "\<not> k < gt" "i + (k - (n - t)) < g" using that b1 t(4) run(3) by linarith+
      moreover have "ys ! (b + k) = us ! (b + (i + (k - (n - t))))"
        using True that t1 by (simp only: ys z_high) (simp add: z_high)
      ultimately show ?thesis by (intro exI [of _ "i + (k - (n - t))"]) simp
    next
      case False
      then have "if k < gt then g \<le> k \<and> k < n else i \<le> k \<and> k < g" using that b1 t(4) t1 run(3) by auto
      moreover have "ys ! (b + k) = us ! (b + k)"
        using False that t1 by (simp only: ys z_high) (simp add: z_high)
      ultimately show ?thesis by blast
    qed
  qed
  have bounds: "lt \<le> i" "i \<le> gt" "gt \<le> n" "lt < gt" using run(2,3) b1 by linarith+
  have "zone (\<lambda>x. cmp ?v x > 0) b ys 0 lt"
    unfolding zone_def
  proof (intro allI impI)
    fix k assume "0 \<le> k \<and> k < lt"
    then have "k < i" "k < i - l" using bounds run(2) by linarith+
    with left [OF this(1)] show "cmp ?v (ys ! (b + k)) > 0" using zoneD [OF zL] by fastforce
  qed
  moreover have "zone (\<lambda>x. cmp ?v x = 0 \<or> x = ?v) b ys lt gt"
    unfolding zone_def
  proof (intro allI impI)
    fix k assume k: "lt \<le> k \<and> k < gt"
    show "cmp ?v (ys ! (b + k)) = 0 \<or> ys ! (b + k) = ?v"
    proof (cases "k < i")
      case True
      then have "\<not> k < i - l" using k run(2) by linarith
      with left [OF True] show ?thesis using eq by fastforce
    next
      case False
      then have "i \<le> k" "k < n" using k bounds by linarith+
      with right [OF this] k show ?thesis using zoneD [OF zE2] by fastforce
    qed
  qed
  moreover have "zone (\<lambda>x. cmp ?v x < 0) b ys gt n"
    unfolding zone_def
  proof (intro allI impI)
    fix k assume k: "gt \<le> k \<and> k < n"
    then have "i \<le> k" "k < n" "\<not> k < gt" using bounds by linarith+
    with right [OF this(1,2)] show "cmp ?v (ys ! (b + k)) < 0" using zoneD [OF zG] by fastforce
  qed
  ultimately show thesis using sp bounds by (intro that [of ?v])
qed

subsection \<open>The sort\<close>

text \<open>
  The head of the list is the segment being processed, its tail is \<open>stack[]\<close>. \<open>None\<close> stands for
  an access out of bounds: of the array, or of the 50 entries of the stack.
\<close>

lemma partition3_bounds:
  "partition3 cmp xs b n = (ys, lt, gt) \<Longrightarrow> 6 < n \<Longrightarrow> b + n \<le> length xs \<Longrightarrow> lt < gt \<and> gt \<le> n"
  by (erule partition3_props [of cmp xs b n ys lt gt]) auto

type_synonym segment = "nat \<times> nat \<times> nat"

function rqsort_loop :: "('a \<Rightarrow> 'a \<Rightarrow> int) \<Rightarrow> segment list \<Rightarrow> 'a list \<Rightarrow> 'a list option" where
  "rqsort_loop cmp [] xs = Some xs"
| "rqsort_loop cmp ((b, n, depth) # st) xs =
     (if b + n > length xs then None
      else if n > 6 then
        if depth + 1 > 50 then rqsort_loop cmp st (heapsortx cmp xs b n)
        else case partition3 cmp xs b n of (ys, lt, gt) \<Rightarrow>
          if length st \<ge> 50 then None
          else if lt > n - gt
          then rqsort_loop cmp ((b + gt, n - gt, depth + 1) # (b, lt, depth + 1) # st) ys
          else rqsort_loop cmp ((b, lt, depth + 1) # (b + gt, n - gt, depth + 1) # st) ys
      else rqsort_loop cmp st (insertion_sort cmp xs b n))"
  by pat_completeness auto
termination
  by (relation "measure (\<lambda>(cmp, st, xs). \<Sum>(b, n, d) \<leftarrow> st. 2 * n + 1)")
    (auto dest!: partition3_bounds [OF sym])

declare rqsort_loop.simps [simp del]

definition rqsort :: "('a \<Rightarrow> 'a \<Rightarrow> int) \<Rightarrow> 'a list \<Rightarrow> 'a list option" where
  "rqsort cmp xs = (if length xs < 2 then Some xs else rqsort_loop cmp [(0, length xs, 0)] xs)"

subsection \<open>The segments sort\<close>

definition seg_sorted :: "('a \<Rightarrow> 'a \<Rightarrow> int) \<Rightarrow> nat \<Rightarrow> nat \<Rightarrow> 'a list \<Rightarrow> bool" where
  "seg_sorted cmp b n xs \<longleftrightarrow> (\<forall>p q. p < q \<and> q < n \<longrightarrow> cmp (xs ! (b + p)) (xs ! (b + q)) \<le> 0)"

text \<open>
  Heaps: every parent from \<open>lo\<close> on is at least its children; while an element sinks from
  \<open>r\<close> the parent \<open>r\<close> is excepted, and its own parent dominates its children.
\<close>

definition heap_except :: "('a \<Rightarrow> 'a \<Rightarrow> int) \<Rightarrow> nat \<Rightarrow> nat \<Rightarrow> nat \<Rightarrow> nat \<Rightarrow> 'a list \<Rightarrow> bool" where
  "heap_except cmp b lo n r xs \<longleftrightarrow>
     (\<forall>p c. lo \<le> p \<and> p \<noteq> r \<and> (c = 2 * p + 1 \<or> c = 2 * p + 2) \<and> c < n \<longrightarrow>
        cmp (xs ! (b + c)) (xs ! (b + p)) \<le> 0)
   \<and> (\<forall>q c. lo \<le> q \<and> (r = 2 * q + 1 \<or> r = 2 * q + 2) \<and> (c = 2 * r + 1 \<or> c = 2 * r + 2) \<and> c < n \<longrightarrow>
        cmp (xs ! (b + c)) (xs ! (b + q)) \<le> 0)"

definition heap :: "('a \<Rightarrow> 'a \<Rightarrow> int) \<Rightarrow> nat \<Rightarrow> nat \<Rightarrow> nat \<Rightarrow> 'a list \<Rightarrow> bool" where
  "heap cmp b lo n xs \<longleftrightarrow> (\<forall>p c. lo \<le> p \<and> (c = 2 * p + 1 \<or> c = 2 * p + 2) \<and> c < n \<longrightarrow>
        cmp (xs ! (b + c)) (xs ! (b + p)) \<le> 0)"

definition covered :: "segment list \<Rightarrow> nat \<Rightarrow> nat \<Rightarrow> bool" where
  "covered segs i j \<longleftrightarrow> (\<exists>(b, n, d) \<in> set segs. b \<le> i \<and> j < b + n)"

definition ordered_except :: "('a \<Rightarrow> 'a \<Rightarrow> int) \<Rightarrow> segment list \<Rightarrow> 'a list \<Rightarrow> bool" where
  "ordered_except cmp segs xs \<longleftrightarrow>
     (\<forall>i j. i < j \<and> j < length xs \<and> \<not> covered segs i j \<longrightarrow> cmp (xs ! i) (xs ! j) \<le> 0)"

definition segs_disjoint :: "segment list \<Rightarrow> bool" where
  "segs_disjoint segs \<longleftrightarrow>
     sorted_wrt (\<lambda>(b, n, d) (b', n', d'). b + n \<le> b' \<or> b' + n' \<le> b) segs"

text \<open>What a comparison function has to satisfy: the sign is that of a total preorder.\<close>

locale comparison =
  fixes cmp :: "'a \<Rightarrow> 'a \<Rightarrow> int"
  assumes anti: "0 < cmp x y \<longleftrightarrow> cmp y x < 0"
    and trans: "cmp x y \<le> 0 \<Longrightarrow> cmp y z \<le> 0 \<Longrightarrow> cmp x z \<le> 0"
begin

lemma refl: "cmp x x = 0"
  using anti [of x x] by linarith

lemma le_total: "cmp x y \<le> 0 \<or> cmp y x \<le> 0"
  using anti [of x y] anti [of y x] by linarith

lemma ge_le: "cmp x y \<ge> 0 \<longleftrightarrow> cmp y x \<le> 0"
  using anti [of x y] anti [of y x] by linarith

lemma insert_down_sorts:
  assumes "j \<le> i" "b + i < length xs"
    and "\<forall>p q. p < q \<and> q \<le> i \<and> q \<noteq> j \<longrightarrow> cmp (xs ! (b + p)) (xs ! (b + q)) \<le> 0"
  shows "seg_sorted cmp b (Suc i) (insert_down cmp b xs j)"
  using assms
proof (induction j arbitrary: xs)
  case 0
  then show ?case by (auto simp: seg_sorted_def less_Suc_eq_le)
next
  case (Suc j)
  note H = Suc.prems(3)
  show ?case
  proof (cases "cmp (xs ! (b + j)) (xs ! (b + Suc j)) > 0")
    case True
    let ?xs = "swap xs (b + Suc j) (b + j)"
    have nth: "?xs ! (b + k) = (if k = j then xs ! (b + Suc j) else if k = Suc j then xs ! (b + j) else xs ! (b + k))" for k
      using Suc.prems(1,2) by (subst swap_nth) auto
    have "\<forall>p q. p < q \<and> q \<le> i \<and> q \<noteq> j \<longrightarrow> cmp (?xs ! (b + p)) (?xs ! (b + q)) \<le> 0"
    proof (intro allI impI)
      fix p q assume pq: "p < q \<and> q \<le> i \<and> q \<noteq> j"
      show "cmp (?xs ! (b + p)) (?xs ! (b + q)) \<le> 0"
      proof (cases "q = Suc j")
        case q: True
        show ?thesis
        proof (cases "p = j")
          case True
          then show ?thesis using q \<open>0 < cmp _ _\<close> anti nth [of j] nth [of "Suc j"] by simp
        next
          case False
          then have "p < j" using pq q by simp
          moreover have "?xs ! (b + p) = xs ! (b + p)" "?xs ! (b + q) = xs ! (b + j)"
            using nth [of p] nth [of "Suc j"] False pq q by simp_all
          ultimately show ?thesis using H Suc.prems(1) by simp
        qed
      next
        case False
        then have "?xs ! (b + q) = xs ! (b + q)" using nth [of q] pq by simp
        moreover have "p = j \<or> p = Suc j \<or> ?xs ! (b + p) = xs ! (b + p)" using nth [of p] by auto
        moreover have "?xs ! (b + j) = xs ! (b + Suc j)" "?xs ! (b + Suc j) = xs ! (b + j)"
          using nth [of j] nth [of "Suc j"] by simp_all
        moreover have "cmp (xs ! (b + Suc j)) (xs ! (b + q)) \<le> 0" if "p = j"
          using H [rule_format, of "Suc j" q] that pq False by linarith
        moreover have "cmp (xs ! (b + j)) (xs ! (b + q)) \<le> 0" if "p = Suc j"
          using H [rule_format, of j q] that pq False by linarith
        moreover have "cmp (xs ! (b + p)) (xs ! (b + q)) \<le> 0" using H pq False by blast
        ultimately show ?thesis by metis
      qed
    qed
    then show ?thesis using True Suc.prems by (simp add: Suc.IH)
  next
    case False
    have "cmp (xs ! (b + p)) (xs ! (b + q)) \<le> 0" if pq: "p < q" "q \<le> i" for p q
    proof (cases "q = Suc j \<and> p \<noteq> j")
      case True
      then have "cmp (xs ! (b + p)) (xs ! (b + j)) \<le> 0" using H pq Suc.prems(1) by simp
      then show ?thesis using True False trans by fastforce
    next
      case other: False
      then show ?thesis using pq H False by (cases "q = Suc j") auto
    qed
    then show ?thesis using False by (auto simp: seg_sorted_def less_Suc_eq_le)
  qed
qed

lemma insertion_sort_sorts:
  assumes "b + n \<le> length xs"
  shows "seg_sorted cmp b n (insertion_sort cmp xs b n)"
proof -
  have "m \<le> n \<Longrightarrow> seg_sorted cmp b m (fold (\<lambda>i ys. insert_down cmp b ys i) [1..<m] xs)" for m
  proof (induction m)
    case (Suc m)
    let ?ys = "fold (\<lambda>i ys. insert_down cmp b ys i) [1..<m] xs"
    show ?case
    proof (cases "m = 0")
      case False
      have "seg_perm b n xs ?ys"
        using assms Suc.prems by (intro seg_perm_fold seg_perm_insert_down) auto
      then have "b + m < length ?ys" using assms Suc.prems seg_perm_length by fastforce
      moreover have "\<forall>p q. p < q \<and> q \<le> m \<and> q \<noteq> m \<longrightarrow> cmp (?ys ! (b + p)) (?ys ! (b + q)) \<le> 0"
        using Suc by (auto simp: seg_sorted_def)
      ultimately have "seg_sorted cmp b (Suc m) (insert_down cmp b ?ys m)"
        by (intro insert_down_sorts) auto
      then show ?thesis using False by simp
    qed (simp add: seg_sorted_def)
  qed (simp add: seg_sorted_def)
  then show ?thesis by (simp add: insertion_sort_def)
qed

lemma sift_heap:
  assumes "heap_except cmp b lo n r xs" "lo \<le> r" "b + n \<le> length xs"
  shows "heap cmp b lo n (sift cmp b xs r n)"
  using assms
proof (induction "n - r" arbitrary: xs r rule: less_induct)
  case less
  let ?c = "r * 2 + 1"
  let ?m = "larger_child cmp b xs ?c n"
  note H1 = less.prems(1) [unfolded heap_except_def, THEN conjunct1, rule_format]
  note H2 = less.prems(1) [unfolded heap_except_def, THEN conjunct2, rule_format]
  show ?case
  proof (cases "?c < n")
    case False
    then have "sift cmp b xs r n = xs" by (simp add: sift.simps [of cmp b xs r n])
    moreover have "cmp (xs ! (b + c)) (xs ! (b + p)) \<le> 0"
      if "lo \<le> p" "c = 2 * p + 1 \<or> c = 2 * p + 2" "c < n" for p c
      using H1 [of p c] that False by auto
    ultimately show ?thesis by (simp add: heap_def)
  next
    case c: True
    have m: "?m = 2 * r + 1 \<or> ?m = 2 * r + 2" "?m < n" "r < ?m" using c by (auto simp: larger_child_def)
    have other: "cmp (xs ! (b + k)) (xs ! (b + ?m)) \<le> 0"
      if "k = 2 * r + 1 \<or> k = 2 * r + 2" "k < n" for k
      using that refl le_total [of "xs ! (b + ?c)" "xs ! (b + ?c + 1)"] by (auto simp: larger_child_def mult.commute)
    show ?thesis
    proof (cases "cmp (xs ! (b + r)) (xs ! (b + ?m)) > 0")
      case True
      then have eq: "sift cmp b xs r n = xs" using c by (simp add: sift.simps [of cmp b xs r n] Let_def)
      have "cmp (xs ! (b + k)) (xs ! (b + p)) \<le> 0"
        if k: "lo \<le> p" "k = 2 * p + 1 \<or> k = 2 * p + 2" "k < n" for p k
      proof (cases "p = r")
        case eqr: True
        have "cmp (xs ! (b + ?m)) (xs ! (b + r)) \<le> 0" using True anti by (simp add: order_less_imp_le)
        then show ?thesis using other [of k] k eqr trans by blast
      qed (use H1 k in auto)
      then show ?thesis unfolding eq heap_def by blast
    next
      case False
      let ?xs = "swap xs (b + r) (b + ?m)"
      have run: "sift cmp b xs r n = sift cmp b ?xs ?m n"
        using c False by (simp add: sift.simps [of cmp b xs r n] Let_def)
      have nth: "?xs ! (b + k) = (if k = ?m then xs ! (b + r) else if k = r then xs ! (b + ?m) else xs ! (b + k))" for k
        using m less.prems(3) by (subst swap_nth) auto
      have sink: "cmp (xs ! (b + r)) (xs ! (b + ?m)) \<le> 0" using False by simp
      have "heap_except cmp b lo n ?m ?xs"
        unfolding heap_except_def
      proof (intro conjI allI impI)
        fix p k assume pk: "lo \<le> p \<and> p \<noteq> ?m \<and> (k = 2 * p + 1 \<or> k = 2 * p + 2) \<and> k < n"
        show "cmp (?xs ! (b + k)) (?xs ! (b + p)) \<le> 0"
        proof (cases "p = r")
          case True
          then have "?xs ! (b + p) = xs ! (b + ?m)" using m(3) nth [of p] by simp
          moreover have "k \<noteq> r" using pk True by auto
          then have "?xs ! (b + k) = (if k = ?m then xs ! (b + r) else xs ! (b + k))"
            using nth [of k] by simp
          ultimately show ?thesis using sink other [of k] pk True by auto
        next
          case pr: False
          have "k \<noteq> ?m" using m(1) pk pr by auto
          then have k: "?xs ! (b + k) = (if k = r then xs ! (b + ?m) else xs ! (b + k))"
            "?xs ! (b + p) = xs ! (b + p)" using pk pr nth [of k] nth [of p] by simp_all
          show ?thesis
          proof (cases "k = r")
            case True
            have "cmp (xs ! (b + ?m)) (xs ! (b + p)) \<le> 0"
              using H2 [of p ?m] pk True m(1,2) by blast
            then show ?thesis using k True by simp
          next
            case False
            then show ?thesis using k H1 [of p k] pk pr by simp
          qed
        qed
      next
        fix q k assume qk: "lo \<le> q \<and> (?m = 2 * q + 1 \<or> ?m = 2 * q + 2) \<and> (k = 2 * ?m + 1 \<or> k = 2 * ?m + 2) \<and> k < n"
        then have "q = r" using m(1) by auto
        moreover have "k \<noteq> ?m" "k \<noteq> r" using qk m(3) by auto
        ultimately have "?xs ! (b + k) = xs ! (b + k)" "?xs ! (b + q) = xs ! (b + ?m)"
          using m(3) nth [of k] nth [of q] by simp_all
        then show "cmp (?xs ! (b + k)) (?xs ! (b + q)) \<le> 0"
          using H1 [of ?m k] qk m(3) less.prems(2) by simp
      qed
      then show ?thesis unfolding run using less.prems(2,3) m by (intro less.hyps) auto
    qed
  qed
qed

lemma heap_max:
  "heap cmp b 0 n xs \<Longrightarrow> k < n \<Longrightarrow> cmp (xs ! (b + k)) (xs ! b) \<le> 0"
proof (induction k rule: less_induct)
  case (less k)
  show ?case
  proof (cases "k = 0")
    case False
    let ?p = "(k - 1) div 2"
    have p: "?p < k" "k = 2 * ?p + 1 \<or> k = 2 * ?p + 2" using False by auto
    then have "cmp (xs ! (b + k)) (xs ! (b + ?p)) \<le> 0" using less.prems by (simp add: heap_def)
    moreover have "cmp (xs ! (b + ?p)) (xs ! b) \<le> 0" using less p by simp
    ultimately show ?thesis by (rule trans)
  qed (simp add: refl)
qed

lemma heap_build:
  assumes "b + n \<le> length xs"
  shows "heap cmp b 0 n (fold (\<lambda>i zs. sift cmp b zs i n) (rev [0..<n div 2]) xs)"
proof -
  have "m \<le> n div 2 \<Longrightarrow> length xs' = length xs \<Longrightarrow> heap cmp b m n xs' \<Longrightarrow>
      heap cmp b 0 n (fold (\<lambda>i zs. sift cmp b zs i n) (rev [0..<m]) xs')" for m xs'
  proof (induction m arbitrary: xs')
    case (Suc m)
    have len: "b + n \<le> length xs'" using Suc.prems(2) assms by simp
    have "heap_except cmp b m n m xs'"
      using Suc.prems(3) by (auto simp: heap_def heap_except_def)
    then have "heap cmp b m n (sift cmp b xs' m n)" using len by (intro sift_heap) auto
    moreover have "seg_perm b n xs' (sift cmp b xs' m n)"
      using Suc.prems(1) len by (intro seg_perm_sift) auto
    ultimately show ?case using Suc.prems seg_perm_length by (fastforce intro: Suc.IH)
  qed simp
  moreover have "heap cmp b (n div 2) n xs" by (auto simp: heap_def)
  ultimately show ?thesis by blast
qed

lemma heapsortx_sorts:
  assumes "b + n \<le> length xs"
  shows "seg_sorted cmp b n (heapsortx cmp xs b n)"
proof (cases "n > 1")
  case True
  let ?step = "\<lambda>i zs. sift cmp b (swap zs b (b + i)) 0 i"
  have "m < n \<Longrightarrow> length zs = length xs \<Longrightarrow> heap cmp b 0 (Suc m) zs \<Longrightarrow>
      \<forall>p q. p < q \<and> m < q \<and> q < n \<longrightarrow> cmp (zs ! (b + p)) (zs ! (b + q)) \<le> 0 \<Longrightarrow>
      seg_sorted cmp b n (fold ?step (rev [1..<Suc m]) zs)" for m zs
  proof (induction m arbitrary: zs)
    case 0
    then show ?case by (auto simp: seg_sorted_def)
  next
    case (Suc m)
    let ?ys = "swap zs b (b + Suc m)"
    let ?us = "sift cmp b ?ys 0 (Suc m)"
    have len: "b + n \<le> length zs" using Suc.prems(2) assms by simp
    have nth: "?ys ! (b + k) = (if k = Suc m then zs ! b else if k = 0 then zs ! (b + Suc m) else zs ! (b + k))" for k
      using Suc.prems(1) len by (subst swap_nth) auto
    have "heap_except cmp b 0 (Suc m) 0 ?ys"
      unfolding heap_except_def
    proof (intro conjI allI impI)
      fix p c assume pc: "0 \<le> p \<and> p \<noteq> 0 \<and> (c = 2 * p + 1 \<or> c = 2 * p + 2) \<and> c < Suc m"
      then have "?ys ! (b + c) = zs ! (b + c)" "?ys ! (b + p) = zs ! (b + p)"
        using nth [of c] nth [of p] by auto
      then show "cmp (?ys ! (b + c)) (?ys ! (b + p)) \<le> 0"
        using Suc.prems(3) pc by (simp add: heap_def)
    qed auto
    then have heap: "heap cmp b 0 (Suc m) ?us" using Suc.prems(1) len by (intro sift_heap) auto
    have perm: "seg_perm b (Suc m) ?ys ?us" using Suc.prems(1) len by (intro seg_perm_sift) auto
    have high: "?us ! (b + q) = ?ys ! (b + q)" if "Suc m \<le> q" "q < n" for q
      using perm that len by (simp add: seg_perm_def)
    have "\<forall>p q. p < q \<and> m < q \<and> q < n \<longrightarrow> cmp (?us ! (b + p)) (?us ! (b + q)) \<le> 0"
    proof (intro allI impI)
      fix p q assume pq: "p < q \<and> m < q \<and> q < n"
      obtain p' where p': "?us ! (b + p) = ?ys ! (b + p')" "if p \<le> m then p' \<le> m else p' = p"
      proof (cases "p \<le> m")
        case True
        then show thesis
          using seg_perm_elem [OF perm, of p] that Suc.prems(1) len by (auto simp: less_Suc_eq_le)
      next
        case False
        then show thesis using high [of p] pq that [of p] by auto
      qed
      have "p' < q" using p'(2) pq by (auto split: if_splits)
      have q: "?us ! (b + q) = ?ys ! (b + q)" using high [of q] pq by simp
      have "cmp (?ys ! (b + p')) (?ys ! (b + q)) \<le> 0"
      proof (cases "q = Suc m")
        case True
        have "?ys ! (b + p') = zs ! (b + (if p' = 0 then Suc m else p'))"
          using \<open>p' < q\<close> True nth [of p'] by (cases "p' = 0") simp_all
        moreover have "?ys ! (b + q) = zs ! b" using nth [of q] True by simp
        moreover have "cmp (zs ! (b + (if p' = 0 then Suc m else p'))) (zs ! b) \<le> 0"
          using heap_max [OF Suc.prems(3)] \<open>p' < q\<close> True by simp
        ultimately show ?thesis by simp
      next
        case False
        then have "Suc m < q" using pq by simp
        then have "\<forall>k < q. cmp (zs ! (b + k)) (zs ! (b + q)) \<le> 0" using Suc.prems(4) pq by blast
        moreover have "?ys ! (b + q) = zs ! (b + q)" using \<open>Suc m < q\<close> nth [of q] by simp
        moreover have "0 < q" "Suc m < q" using \<open>Suc m < q\<close> by simp_all
        moreover have "?ys ! (b + p') \<in> {zs ! b, zs ! (b + Suc m), zs ! (b + p')}" using nth [of p'] by simp
        ultimately show ?thesis using \<open>p' < q\<close> by (metis add.right_neutral insertE singletonD)
      qed
      then show "cmp (?us ! (b + p)) (?us ! (b + q)) \<le> 0" using p'(1) q by simp
    qed
    moreover have "length ?us = length xs" using seg_perm_length [OF perm] Suc.prems(2) by simp
    ultimately have "seg_sorted cmp b n (fold ?step (rev [1..<Suc m]) ?us)"
      using Suc.prems(1) heap by (intro Suc.IH) auto
    then show ?case by simp
  qed
  note sort = this [of "n - 1"]
  let ?ys = "fold (\<lambda>i zs. sift cmp b zs i n) (rev [0..<n div 2]) xs"
  have perm: "seg_perm b n xs ?ys" using assms True by (intro seg_perm_fold seg_perm_sift) auto
  have "seg_sorted cmp b n (fold ?step (rev [1..<Suc (n - 1)]) ?ys)"
    using True heap_build [OF assms] seg_perm_length [OF perm] by (intro sort) auto
  then show ?thesis using True by (simp add: heapsortx_def Let_def)
qed (simp add: heapsortx_def seg_sorted_def)

text \<open>
  The pending segments: outside a common pending segment the array is in order, and the segments
  are disjoint.
\<close>

lemma segment_step:
  assumes inv: "ordered_except cmp ((b, n, d) # st) xs" "segs_disjoint ((b, n, d) # st)"
    and perm: "seg_perm b n xs ys" "b + n \<le> length xs"
    and new: "\<forall>(b', n', d') \<in> set new. b \<le> b' \<and> b' + n' \<le> b + n"
    and inside: "\<And>p q. p < q \<Longrightarrow> q < n \<Longrightarrow>
      (\<exists>(b', n', d') \<in> set new. b' \<le> b + p \<and> b + q < b' + n') \<or> cmp (ys ! (b + p)) (ys ! (b + q)) \<le> 0"
  shows "ordered_except cmp (new @ st) ys"
  unfolding ordered_except_def
proof (intro allI impI)
  fix i j assume ij: "i < j \<and> j < length ys \<and> \<not> covered (new @ st) i j"
  have len: "length ys = length xs" using perm(1) by (rule seg_perm_length)
  have nst: "\<not> covered st i j" using ij by (auto simp: covered_def)
  show "cmp (ys ! i) (ys ! j) \<le> 0"
  proof (cases "b \<le> i \<and> j < b + n")
    case True
    then obtain p q where pq: "i = b + p" "j = b + q" "p < q" "q < n"
      using ij by (metis add_less_cancel_left le_add_diff_inverse order.trans less_imp_le)
    then show ?thesis using inside [OF pq(3,4)] ij by (auto simp: covered_def)
  next
    case False
    have src: "\<exists>k'. ys ! k = xs ! k' \<and> (if b \<le> k \<and> k < b + n then b \<le> k' \<and> k' < b + n else k' = k)"
      if "k < length xs" for k
    proof (cases "b \<le> k \<and> k < b + n")
      case True
      then show ?thesis using seg_perm_elem [OF perm, of "k - b"]
        by (metis add_less_cancel_left le_add1 le_add_diff_inverse)
    next
      case False
      then show ?thesis using perm(1) that by (intro exI [of _ k]) (auto simp: seg_perm_def)
    qed
    obtain i' where i': "ys ! i = xs ! i'" "if b \<le> i \<and> i < b + n then b \<le> i' \<and> i' < b + n else i' = i"
      using src [of i] ij len by auto
    obtain j' where j': "ys ! j = xs ! j'" "if b \<le> j \<and> j < b + n then b \<le> j' \<and> j' < b + n else j' = j"
      using src [of j] ij len by auto
    have "i' < j'" using i'(2) j'(2) False ij by (auto split: if_splits)
    have "j' < length xs" using j'(2) ij len perm(2) by (auto split: if_splits)
    have "\<not> (b \<le> i' \<and> j' < b + n)" using i'(2) j'(2) False ij by (auto split: if_splits)
    moreover have "\<not> covered st i' j'"
    proof
      assume "covered st i' j'"
      then obtain b2 n2 d2 where seg: "(b2, n2, d2) \<in> set st" "b2 \<le> i'" "j' < b2 + n2"
        by (auto simp: covered_def)
      then have "b + n \<le> b2 \<or> b2 + n2 \<le> b" using inv(2) by (auto simp: segs_disjoint_def)
      then have "i' = i" "j' = j" using i'(2) j'(2) seg \<open>i' < j'\<close> ij by (auto split: if_splits)
      then show False using seg nst by (auto simp: covered_def)
    qed
    ultimately have "\<not> covered ((b, n, d) # st) i' j'" by (simp add: covered_def)
    then show ?thesis
      using inv(1) \<open>i' < j'\<close> \<open>j' < length xs\<close> i'(1) j'(1) by (simp add: ordered_except_def)
  qed
qed

lemma segment_done:
  assumes "ordered_except cmp ((b, n, d) # st) xs" "segs_disjoint ((b, n, d) # st)"
    and "seg_perm b n xs ys" "b + n \<le> length xs" "seg_sorted cmp b n ys"
  shows "ordered_except cmp st ys" "segs_disjoint st"
proof -
  have "ordered_except cmp ([] @ st) ys"
    using assms by (intro segment_step [OF assms(1-4)]) (auto simp: seg_sorted_def)
  then show "ordered_except cmp st ys" by simp
  show "segs_disjoint st" using assms(2) by (simp add: segs_disjoint_def)
qed

lemma partition_splits:
  assumes inv: "ordered_except cmp ((b, n, d) # st) xs" "segs_disjoint ((b, n, d) # st)"
    and part: "partition3 cmp xs b n = (ys, lt, gt)" "6 < n" "b + n \<le> length xs"
    and new: "new = [(b, lt, d1), (b + gt, n - gt, d2)] \<or> new = [(b + gt, n - gt, d2), (b, lt, d1)]"
  shows "seg_perm b n xs ys" "ordered_except cmp (new @ st) ys" "segs_disjoint (new @ st)"
proof -
  obtain v where perm: "seg_perm b n xs ys" and b: "lt < gt" "gt \<le> n"
    and zL: "zone (\<lambda>x. cmp v x > 0) b ys 0 lt"
    and zE: "zone (\<lambda>x. cmp v x = 0 \<or> x = v) b ys lt gt"
    and zG: "zone (\<lambda>x. cmp v x < 0) b ys gt n"
    using partition3_props [OF part] by metis
  show "seg_perm b n xs ys" by fact
  have low: "cmp (ys ! (b + p)) v \<le> 0" if "p < gt" for p
  proof (cases "p < lt")
    case True
    then have "cmp v (ys ! (b + p)) > 0" using zoneD [OF zL, of p] by simp
    then show ?thesis using anti [of v "ys ! (b + p)"] by linarith
  next
    case False
    then have "cmp v (ys ! (b + p)) \<ge> 0" using zoneD [OF zE, of p] that refl [of v] by force
    then show ?thesis using ge_le [of v "ys ! (b + p)"] by blast
  qed
  have high: "cmp v (ys ! (b + q)) \<le> 0" if "lt \<le> q" "q < n" for q
  proof (cases "q < gt")
    case True
    then show ?thesis using zoneD [OF zE, of q] that refl [of v] by force
  next
    case False
    then show ?thesis using zoneD [OF zG, of q] that by simp
  qed
  show "ordered_except cmp (new @ st) ys"
  proof (rule segment_step [OF inv perm part(3)])
    show "\<forall>(b', n', d') \<in> set new. b \<le> b' \<and> b' + n' \<le> b + n" using new b by auto
    fix p q assume pq: "p < q" "q < n"
    show "(\<exists>(b', n', d') \<in> set new. b' \<le> b + p \<and> b + q < b' + n') \<or> cmp (ys ! (b + p)) (ys ! (b + q)) \<le> 0"
    proof (cases "q < lt \<or> gt \<le> p")
      case True
      then show ?thesis using new pq b by auto
    next
      case False
      then show ?thesis using low [of p] high [of q] pq trans by (metis not_le)
    qed
  qed
  have "\<forall>(b', n', d') \<in> set st. b + n \<le> b' \<or> b' + n' \<le> b" and "segs_disjoint st"
    using inv(2) by (auto simp: segs_disjoint_def)
  then show "segs_disjoint (new @ st)"
    using new b by (fastforce simp: segs_disjoint_def)
qed

end

lemma rqsort_loop_sorts:
  "\<lbrakk>comparison cmp; rqsort_loop cmp st xs = Some ys; ordered_except cmp st xs; segs_disjoint st\<rbrakk> \<Longrightarrow>
   mset ys = mset xs \<and> ordered_except cmp [] ys"
proof (induction cmp st xs rule: rqsort_loop.induct)
  case (1 cmp xs)
  then show ?case by (simp add: rqsort_loop.simps)
next
  case (2 cmp b n d st xs)
  note C = 2(5)
  note inv = 2(7,8)
  have len: "b + n \<le> length xs" using 2(6) by (simp add: rqsort_loop.simps split: if_splits)
  then have nlen: "\<not> b + n > length xs" by simp
  note finish = comparison.segment_done [OF C inv _ len]
  consider (heap) "n > 6" "d + 1 > 50" | (part) "n > 6" "\<not> d + 1 > 50" | (ins) "\<not> n > 6" by blast
  then show ?case
  proof cases
    case heap
    let ?zs = "heapsortx cmp xs b n"
    have run: "rqsort_loop cmp st ?zs = Some ys" using 2(6) nlen heap by (simp add: rqsort_loop.simps)
    have perm: "seg_perm b n xs ?zs" using len by (rule seg_perm_heapsortx)
    note fin = finish [OF perm comparison.heapsortx_sorts [OF C len]]
    from 2(1) [OF nlen heap C run fin] perm show ?thesis by (simp add: seg_perm_def)
  next
    case ins
    let ?zs = "insertion_sort cmp xs b n"
    have run: "rqsort_loop cmp st ?zs = Some ys" using 2(6) nlen ins by (simp add: rqsort_loop.simps)
    have perm: "seg_perm b n xs ?zs" using len by (rule seg_perm_insertion_sort)
    note fin = finish [OF perm comparison.insertion_sort_sorts [OF C len]]
    from 2(4) [OF nlen ins C run fin] perm show ?thesis by (simp add: seg_perm_def)
  next
    case part
    obtain zs lt gt where p: "partition3 cmp xs b n = (zs, lt, gt)" by (metis prod_cases3)
    note split = comparison.partition_splits [OF C inv p part(1) len]
    have st: "\<not> length st \<ge> 50"
      using 2(6) nlen part p by (simp add: rqsort_loop.simps split: if_splits)
    show ?thesis
    proof (cases "lt > n - gt")
      case True
      have run: "rqsort_loop cmp ([(b + gt, n - gt, d + 1), (b, lt, d + 1)] @ st) zs = Some ys"
        using 2(6) nlen part p st True by (simp add: rqsort_loop.simps(2) [of cmp b n d])
      note new = split [of "[(b + gt, n - gt, d + 1), (b, lt, d + 1)]" "d + 1" "d + 1", OF disjI2 [OF refl]]
      from 2(2) [OF nlen part p [symmetric] refl st True C run [unfolded append_Cons append_Nil] new(2,3) [unfolded append_Cons append_Nil]] new(1)
      show ?thesis by (simp add: seg_perm_def)
    next
      case False
      have run: "rqsort_loop cmp ([(b, lt, d + 1), (b + gt, n - gt, d + 1)] @ st) zs = Some ys"
        using 2(6) nlen part p st False by (simp add: rqsort_loop.simps(2) [of cmp b n d])
      note new = split [of "[(b, lt, d + 1), (b + gt, n - gt, d + 1)]" "d + 1" "d + 1", OF disjI1 [OF refl]]
      from 2(3) [OF nlen part p [symmetric] refl st False C run [unfolded append_Cons append_Nil] new(2,3) [unfolded append_Cons append_Nil]] new(1)
      show ?thesis by (simp add: seg_perm_def)
    qed
  qed
qed

subsection \<open>The stack suffices\<close>

text \<open>
  The smaller part is processed first, so a segment above \<open>k\<close> others on the stack has at most
  the \<open>2 ^ k\<close>-th part of the \<open>N\<close> elements.
\<close>

fun fits :: "nat \<Rightarrow> segment list \<Rightarrow> bool" where
  "fits N [] = True"
| "fits N ((b, n, d) # st) = (n * 2 ^ length st \<le> N \<and> fits N st)"

lemma rqsort_loop_returns:
  "\<lbrakk>fits N st; \<forall>(b, n, d) \<in> set st. b + n \<le> length xs; N < 7 * 2 ^ 50\<rbrakk> \<Longrightarrow>
   \<exists>ys. rqsort_loop cmp st xs = Some ys \<and> mset ys = mset xs"
proof (induction cmp st xs rule: rqsort_loop.induct)
  case (1 cmp xs)
  then show ?case by (simp add: rqsort_loop.simps)
next
  case (2 cmp b n d st xs)
  have len: "b + n \<le> length xs" and nlen: "\<not> b + n > length xs" using 2(6) by auto
  have st: "\<forall>(b, n, d) \<in> set st. b + n \<le> length zs" if "seg_perm b n xs zs" for zs
    using 2(6) seg_perm_length [OF that] by auto
  have fit: "fits N st" using 2(5) by simp
  consider (heap) "n > 6" "d + 1 > 50" | (part) "n > 6" "\<not> d + 1 > 50" | (ins) "\<not> n > 6" by blast
  then show ?case
  proof cases
    case heap
    have perm: "seg_perm b n xs (heapsortx cmp xs b n)" using len by (rule seg_perm_heapsortx)
    from 2(1) [OF nlen heap fit st [OF perm] 2(7)] perm show ?thesis
      using nlen heap by (simp add: rqsort_loop.simps seg_perm_def)
  next
    case ins
    have perm: "seg_perm b n xs (insertion_sort cmp xs b n)" using len by (rule seg_perm_insertion_sort)
    from 2(4) [OF nlen ins fit st [OF perm] 2(7)] perm show ?thesis
      using nlen ins by (simp add: rqsort_loop.simps seg_perm_def)
  next
    case part
    obtain zs lt gt where p: "partition3 cmp xs b n = (zs, lt, gt)" by (metis prod_cases3)
    have perm: "seg_perm b n xs zs" and b: "lt < gt" "gt \<le> n"
      using partition3_props [OF p part(1) len] by metis+
    have room: "\<not> length st \<ge> 50"
    proof
      assume "length st \<ge> 50"
      then have "(2::nat) ^ 50 \<le> 2 ^ length st" by (rule power_increasing) simp
      then have "7 * 2 ^ 50 \<le> n * 2 ^ length st" using part(1) by (intro mult_le_mono) auto
      then show False using 2(5,7) by simp
    qed
    have half: "s * 2 ^ Suc (length st) \<le> N" if "2 * s \<le> n" for s
    proof -
      have "s * 2 ^ Suc (length st) = (2 * s) * 2 ^ length st" by simp
      also have "\<dots> \<le> n * 2 ^ length st" using that by (rule mult_le_mono1)
      also have "\<dots> \<le> N" using 2(5) by simp
      finally show ?thesis .
    qed
    have whole: "l * 2 ^ length st \<le> N" if "l \<le> n" for l
    proof -
      have "n * 2 ^ length st \<le> N" using 2(5) by simp
      then show ?thesis by (rule order.trans [OF mult_le_mono1 [OF that]])
    qed
    have lenz: "length zs = length xs" using perm by (rule seg_perm_length)
    show ?thesis
    proof (cases "lt > n - gt")
      case True
      have "fits N ((b + gt, n - gt, d + 1) # (b, lt, d + 1) # st)"
        using fit half [of "n - gt"] whole [of lt] b True by simp
      moreover have "\<forall>(b, n, d) \<in> set ((b + gt, n - gt, d + 1) # (b, lt, d + 1) # st). b + n \<le> length zs"
        using st [OF perm] b len lenz by auto
      ultimately show ?thesis
        using 2(2) [OF nlen part p [symmetric] refl room True] 2(7) nlen part p room True perm
        by (simp add: rqsort_loop.simps(2) [of cmp b n d] seg_perm_def)
    next
      case False
      have "fits N ((b, lt, d + 1) # (b + gt, n - gt, d + 1) # st)"
        using fit half [of lt] whole [of "n - gt"] b False by simp
      moreover have "\<forall>(b, n, d) \<in> set ((b, lt, d + 1) # (b + gt, n - gt, d + 1) # st). b + n \<le> length zs"
        using st [OF perm] b len lenz by auto
      ultimately show ?thesis
        using 2(3) [OF nlen part p [symmetric] refl room False] 2(7) nlen part p room False perm
        by (simp add: rqsort_loop.simps(2) [of cmp b n d] seg_perm_def)
    qed
  qed
qed

lemma rqsort_permutes: "length xs < 2 ^ 52 \<Longrightarrow> \<exists>ys. rqsort cmp xs = Some ys \<and> mset ys = mset xs"
  using rqsort_loop_returns [of "length xs" "[(0, length xs, 0)]" xs cmp] by (auto simp: rqsort_def)

lemma rqsort_sorted:
  assumes "comparison cmp" "rqsort cmp xs = Some ys"
  shows "sorted_wrt (\<lambda>x y. cmp x y \<le> 0) ys"
proof (cases "length xs < 2")
  case True
  then have "length ys < 2" using assms(2) by (simp add: rqsort_def)
  then show ?thesis by (cases ys; cases "tl ys") auto
next
  case False
  have "ordered_except cmp [(0, length xs, 0)] xs" "segs_disjoint [(0, length xs, 0)]"
    by (auto simp: ordered_except_def covered_def segs_disjoint_def)
  then show ?thesis
    using rqsort_loop_sorts [OF assms(1)] assms(2) False
    by (auto simp: rqsort_def ordered_except_def covered_def sorted_wrt_iff_nth_less)
qed

subsection \<open>Properties\<close>

text \<open>C16: The sort always returns, and permutes its input.
  For every comparison function, lawful or not, and every array of fewer than 2^52 elements,
  \<open>rqsort\<close> terminates, every segment it works on lies in the array, its stack stays within 50
  segments (the model returns \<open>None\<close> where either fails), and it returns a permutation of the
  array. The element accesses inside a segment are total list operations, not checked ones.\<close>

theorem rqsort_returns_permutation:
  assumes "length xs < 2 ^ 52"
  shows "\<exists>ys. rqsort cmp xs = Some ys \<and> mset ys = mset xs"
  using assms by (rule rqsort_permutes)

theorem rqsort_returns_permutation_witness:
  "\<exists>ys. rqsort (\<lambda>x y. 1) [3, 1, 2, 9, 8, 7, 5, 4 :: int] = Some ys \<and> mset ys = mset [3, 1, 2, 9, 8, 7, 5, 4]"
  by (rule rqsort_returns_permutation) simp

text \<open>C15: The sort sorts.
  When the comparison function is the sign of a total preorder, the result of \<open>rqsort\<close> is in
  order, by whichever of quicksort, heap sort and insertion sort its segments went through.\<close>

theorem rqsort_sorts:
  assumes "\<And>x y. 0 < cmp x y \<longleftrightarrow> cmp y x < 0"
    and "\<And>x y z. cmp x y \<le> 0 \<Longrightarrow> cmp y z \<le> 0 \<Longrightarrow> cmp x z \<le> 0"
    and "rqsort cmp xs = Some ys"
  shows "sorted_wrt (\<lambda>x y. cmp x y \<le> 0) ys"
  using assms by (intro rqsort_sorted) (unfold_locales; blast)

theorem rqsort_sorts_witness:
  "\<exists>ys. rqsort (\<lambda>x y. x - y) [3, 1, 2, 9, 8, 7, 5, 4 :: int] = Some ys \<and> sorted ys"
proof -
  let ?cmp = "\<lambda>x y :: int. x - y"
  obtain ys where ys: "rqsort ?cmp [3, 1, 2, 9, 8, 7, 5, 4] = Some ys"
    using rqsort_permutes [of "[3, 1, 2, 9, 8, 7, 5, 4]" ?cmp] by auto
  have "sorted_wrt (\<lambda>x y. ?cmp x y \<le> 0) ys"
    by (rule rqsort_sorts [OF _ _ ys]) auto
  then show ?thesis using ys by (intro exI [of _ ys]) simp
qed
end
