(* ===== verification/CharRangeFold.thy ===== *)
theory CharRangeFold
  imports CaseConv Rqsort
begin

text \<open>
  Case folding of sets: \<open>unicode_case1\<close>, \<open>cr_sort_and_remove_overlap\<close> and
  \<open>cr_regexp_canonicalize\<close> of \<open>libregexp/libunicode.c\<close>. A character class under the \<open>i\<close> flag is
  replaced by the set of the canonical forms of its members; the theorems show that this is
  what the functions compute, for every set, and with the tables of the source.
\<close>

subsection \<open>The code points a conversion changes\<close>

abbreviation (input) "CASE_U \<equiv> (1 :: u32)"
abbreviation (input) "CASE_L \<equiv> (2 :: u32)"
abbreviation (input) "CASE_F \<equiv> (4 :: u32)"

definition entry_type :: "u32 \<Rightarrow> u32" where
  "entry_type v = drop_bit 4 v AND 0xf"

text \<open>The table of run masks, as the run types of each row.\<close>

definition tab_run_types :: "u32 list list" where
  "tab_run_types =
     [[RUN_TYPE_U, RUN_TYPE_UF, RUN_TYPE_UL, RUN_TYPE_LSU, RUN_TYPE_U2L_399_EXT2, RUN_TYPE_UF_D20,
       RUN_TYPE_UF_D1_EXT, RUN_TYPE_U_EXT, RUN_TYPE_UF_EXT2, RUN_TYPE_UF_EXT3],
      [RUN_TYPE_L, RUN_TYPE_LF, RUN_TYPE_UL, RUN_TYPE_LSU, RUN_TYPE_U2L_399_EXT2, RUN_TYPE_LF_EXT,
       RUN_TYPE_LF_EXT2],
      [RUN_TYPE_UF, RUN_TYPE_LF, RUN_TYPE_UL, RUN_TYPE_LSU, RUN_TYPE_U2L_399_EXT2, RUN_TYPE_LF_EXT,
       RUN_TYPE_LF_EXT2, RUN_TYPE_UF_D20, RUN_TYPE_UF_D1_EXT, RUN_TYPE_LF_EXT, RUN_TYPE_UF_EXT2,
       RUN_TYPE_UF_EXT3]]"

definition type_in_mask :: "u32 \<Rightarrow> u32 \<Rightarrow> bool" where
  "type_in_mask case_mask typ \<longleftrightarrow>
     (\<exists>i \<in> {0, 1, 2}. bit case_mask i \<and> typ \<in> set (tab_run_types ! i))"

text \<open>The intervals a table entry contributes, in the order of the calls of \<open>cr_add_interval\<close>.\<close>

definition entry_intervals :: "u32 \<Rightarrow> u32 \<Rightarrow> (u32 \<times> u32) list" where
  "entry_intervals case_mask v =
     (let typ = entry_type v; code = entry_code v; len = entry_len v;
          upper = case_mask AND CASE_U \<noteq> 0;
          both = upper \<and> case_mask AND (CASE_L OR CASE_F) \<noteq> 0
      in if \<not> type_in_mask case_mask typ then []
         else if typ = RUN_TYPE_UL \<and> \<not> both then
           (let code = code + (if upper then 1 else 0)
            in map (\<lambda>k. (code + 2 * of_nat k, code + 2 * of_nat k + 1)) [0..<(unat len + 1) div 2])
         else if typ = RUN_TYPE_LSU \<and> \<not> both then
           (if \<not> upper then [(code, code + 1)] else []) @ [(code + 1, code + 2)]
           @ (if upper then [(code + 2, code + 3)] else [])
         else [(code, code + len)])"

fun add_intervals :: "(u32 \<times> u32) list \<Rightarrow> char_range \<Rightarrow> int \<times> char_range" where
  "add_intervals [] cr = (0, cr)"
| "add_intervals ((a, b) # is) cr =
     (case cr_add_interval cr a b of
        (ret, cr') \<Rightarrow> if ret \<noteq> 0 then (-1, cr') else add_intervals is cr')"

definition unicode_case1 :: "char_range \<Rightarrow> u32 \<Rightarrow> int \<times> char_range" where
  "unicode_case1 cr case_mask =
     (if case_mask = 0 then (0, cr)
      else add_intervals (concat (map (entry_intervals case_mask) case_conv_table1)) cr)"

subsection \<open>Sorting and merging intervals\<close>

definition point_cmp :: "u32 \<times> u32 \<Rightarrow> u32 \<times> u32 \<Rightarrow> int" where
  "point_cmp p1 p2 =
     (if fst p1 > fst p2 then 1 else 0) - (if fst p1 < fst p2 then 1 else 0)"

fun pairs :: "u32 list \<Rightarrow> (u32 \<times> u32) list" where
  "pairs (a # b # pts) = (a, b) # pairs pts"
| "pairs _ = []"

definition unpairs :: "(u32 \<times> u32) list \<Rightarrow> u32 list" where
  "unpairs is = concat (map (\<lambda>(a, b). [a, b]) is)"

fun absorb :: "u32 \<Rightarrow> (u32 \<times> u32) list \<Rightarrow> u32 \<times> (u32 \<times> u32) list" where
  "absorb e ((start1, end1) # is) =
     (if start1 > e then (e, (start1, end1) # is)
      else if end1 \<le> e then absorb e is
      else absorb end1 is)"
| "absorb e [] = (e, [])"

lemma absorb_length: "absorb e is = (e', is') \<Longrightarrow> length is' \<le> length is"
  by (induction e "is" rule: absorb.induct) (auto split: if_splits)

function merge_overlap :: "(u32 \<times> u32) list \<Rightarrow> (u32 \<times> u32) list" where
  "merge_overlap [] = []"
| "merge_overlap ((start, e) # is) =
     (case absorb e is of (e', is') \<Rightarrow> (start, e') # merge_overlap is')"
  by pat_completeness auto
termination
  by (relation "measure length") (auto dest!: absorb_length [OF sym])

text \<open>\<open>None\<close> is the undefined behaviour of a sort that overruns, which never happens.\<close>

definition cr_sort_and_remove_overlap :: "char_range \<Rightarrow> char_range option" where
  "cr_sort_and_remove_overlap cr =
     map_option (\<lambda>is. cr\<lparr>cr_points := unpairs (merge_overlap is)\<rparr>) (rqsort point_cmp (pairs (cr_points cr)))"

subsection \<open>Canonicalizing a set\<close>

text \<open>The position in the table moves forward only; \<open>None\<close> is the failed assertion.\<close>

definition entry_covers :: "u32 \<Rightarrow> u32 \<Rightarrow> bool" where
  "entry_covers v c \<longleftrightarrow> c \<ge> entry_code v \<and> c < entry_code v + entry_len v"

function fold_seek :: "u32 \<Rightarrow> nat \<Rightarrow> nat option" where
  "fold_seek c idx =
     (if idx < length case_conv_table1 then
        if entry_covers (case_conv_table1 ! idx) c then Some idx else fold_seek c (idx + 1)
      else None)"
  by pat_completeness auto
termination
  by (relation "measure (\<lambda>(c, idx). length case_conv_table1 - idx)") auto

declare fold_seek.simps [simp del]

text \<open>One code point: \<open>idx\<close>, the pending interval \<open>d_start\<close>, \<open>d_end\<close>, and the result so far.\<close>

type_synonym fold_state = "nat \<times> u32 \<times> u32 \<times> char_range"

definition fold_char :: "bool \<Rightarrow> u32 \<Rightarrow> fold_state \<Rightarrow> fold_state option" where
  "fold_char is_unicode c st =
     (case st of (idx, d_start, d_end, cr) \<Rightarrow>
        case fold_seek c idx of
          None \<Rightarrow> None
        | Some idx' \<Rightarrow>
            let d = lre_case_folding_entry c idx' (case_conv_table1 ! idx') is_unicode in
            Some (if d_start = -1 then (idx', d, d + 1, cr)
                  else if d_end = d then (idx', d_start, d_end + 1, cr)
                  else (idx', d, d + 1, snd (cr_add_interval cr d_start d_end))))"

lemma u32_Suc: "(c :: u32) < e \<Longrightarrow> unat (c + 1) = Suc (unat c)"
proof -
  assume "c < e"
  then have "c \<noteq> 0xFFFFFFFF" using u32_le_max [of e] by auto
  moreover have "(0xFFFFFFFF :: u32) = - 1" by simp
  ultimately have "1 + c \<noteq> 0" by (metis add_eq_0_iff)
  then show ?thesis using unatSuc [of c] by (simp add: add.commute)
qed

function fold_interval :: "bool \<Rightarrow> u32 \<Rightarrow> u32 \<Rightarrow> fold_state \<Rightarrow> fold_state option" where
  "fold_interval is_unicode c e st =
     (if c < e then
        case fold_char is_unicode c st of
          None \<Rightarrow> None
        | Some st' \<Rightarrow> fold_interval is_unicode (c + 1) e st'
      else Some st)"
  by pat_completeness auto
termination
  by (relation "measure (\<lambda>(is_unicode, c, e, st). unat e - unat c)")
    (auto simp: u32_Suc word_less_nat_alt)

declare fold_interval.simps [simp del]

fun fold_intervals :: "bool \<Rightarrow> (u32 \<times> u32) list \<Rightarrow> fold_state \<Rightarrow> fold_state option" where
  "fold_intervals is_unicode [] st = Some st"
| "fold_intervals is_unicode ((start, e) # is) st =
     (case fold_interval is_unicode start e st of
        None \<Rightarrow> None
      | Some st' \<Rightarrow> fold_intervals is_unicode is st')"

definition cr_regexp_canonicalize :: "char_range \<Rightarrow> bool \<Rightarrow> (int \<times> char_range) option" where
  "cr_regexp_canonicalize cr is_unicode =
     (let empty = cr_init (cr_realloc_func cr) in
      case unicode_case1 empty (if is_unicode then CASE_F else CASE_U) of (r1, cr_mask) \<Rightarrow>
      if r1 \<noteq> 0 then Some (-1, cr) else
      case cr_op empty (cr_points cr_mask) (cr_points cr) CR_OP_INTER of (r2, cr_inter) \<Rightarrow>
      if r2 \<noteq> 0 then Some (-1, cr) else
      case cr_invert cr_mask of (r3, cr_mask') \<Rightarrow>
      if r3 \<noteq> 0 then Some (-1, cr) else
      case cr_op empty (cr_points cr_mask') (cr_points cr) CR_OP_INTER of (r4, cr_sub) \<Rightarrow>
      if r4 \<noteq> 0 then Some (-1, cr) else
      case fold_intervals is_unicode (pairs (cr_points cr_inter)) (0, -1, -1, empty) of
        None \<Rightarrow> None
      | Some (idx, d_start, d_end, cr_result) \<Rightarrow>
          case (if d_start \<noteq> -1 then cr_add_interval cr_result d_start d_end else (0, cr_result)) of
            (r5, cr_result') \<Rightarrow>
          if r5 \<noteq> 0 then Some (-1, cr) else
          case cr_sort_and_remove_overlap cr_result' of
            None \<Rightarrow> None
          | Some cr_sorted \<Rightarrow>
              Some (case cr_op (cr\<lparr>cr_points := []\<rparr>) (cr_points cr_sorted) (cr_points cr_sub) CR_OP_UNION of
                      (r6, cr') \<Rightarrow> if r6 \<noteq> 0 then (-1, cr') else (0, cr')))"

subsection \<open>The table\<close>

lemma table_chunks:
  "case_conv_table1 =
    [0x209a30, 0x309a00, 0x5a8173, 0x601730, 0x6c0730, 0x6f81b3, 0x701700, 0x7c0700, 0x7f8100,
    0x803040, 0x9801c3, 0x988190, 0x990640, 0x9c9040, 0xa481b4, 0xa52e40, 0xbc0130, 0xbc8640,
    0xbf8170, 0xc00100, 0xc08130, 0xc10440, 0xc30130, 0xc38240, 0xc48230, 0xc58240, 0xc70130,
    0xc78130, 0xc80130, 0xc88240, 0xc98130, 0xca0130, 0xca8100, 0xcb0130, 0xcb8130, 0xcc0240,
    0xcd0100, 0xcd8101, 0xce0130, 0xce8130, 0xcf0100, 0xcf8130, 0xd00640, 0xd30130, 0xd38240,
    0xd48130, 0xd60240, 0xd70130, 0xd78240, 0xd88230, 0xd98440, 0xdb8130, 0xdc0240, 0xde0240] @
    [0xdf8100, 0xe20350, 0xe38350, 0xe50350, 0xe69040, 0xee8100, 0xef1240, 0xf801b4, 0xf88350,
    0xfa0240, 0xfb0130, 0xfb8130, 0xfc2840, 0x1100130, 0x1111240, 0x11d0131, 0x11d8240, 0x11e8130,
    0x11f0131, 0x11f8201, 0x1208240, 0x1218130, 0x1220130, 0x1228130, 0x1230a40, 0x1280101, 0x1288101,
    0x1290101, 0x1298100, 0x12a0100, 0x12b0200, 0x12c8100, 0x12d8100, 0x12e0101, 0x1300100, 0x1308101,
    0x1318100, 0x1320101, 0x1328101, 0x1330101, 0x1340100, 0x1348100, 0x1350101, 0x1358101, 0x1360101,
    0x1378100, 0x1388101, 0x1390100, 0x13a8100, 0x13e8101, 0x1400100, 0x1410101, 0x1418100, 0x1438101] @
    [0x1440100, 0x1448100, 0x1450200, 0x1460100, 0x1490100, 0x14e8101, 0x14f0101, 0x1a28173, 0x1b80440,
    0x1bb0240, 0x1bd8300, 0x1bf8130, 0x1c30130, 0x1c40330, 0x1c60130, 0x1c70230, 0x1c801d0, 0x1c89130,
    0x1d18930, 0x1d60100, 0x1d68300, 0x1d801d3, 0x1d89100, 0x1e10173, 0x1e18900, 0x1e60100, 0x1e68200,
    0x1e78130, 0x1e80173, 0x1e88173, 0x1ea8173, 0x1eb0173, 0x1eb8100, 0x1ec1840, 0x1f80173, 0x1f88173,
    0x1f90100, 0x1f98100, 0x1fa01a0, 0x1fa8173, 0x1fb8240, 0x1fc8130, 0x1fd0240, 0x1fe8330, 0x2001030,
    0x2082030, 0x2182000, 0x2281000, 0x2302240, 0x2453640, 0x2600130, 0x2608e40, 0x2678100, 0x2686040] @
    [0x298a630, 0x2b0a600, 0x2c381b5, 0x8502631, 0x8638131, 0x8668131, 0x8682b00, 0x87e8300, 0x9d05011,
    0x9f80610, 0x9fc0620, 0xe400174, 0xe408174, 0xe410174, 0xe418174, 0xe420174, 0xe428174, 0xe430174,
    0xe438180, 0xe440180, 0xe448240, 0xe482b30, 0xe5e8330, 0xebc8101, 0xebe8101, 0xec70101, 0xf007e40,
    0xf3f1840, 0xf4b01b5, 0xf4b81b6, 0xf4c01b6, 0xf4c81b6, 0xf4d01b7, 0xf4d8180, 0xf4f0130, 0xf506040,
    0xf800800, 0xf840830, 0xf880600, 0xf8c0630, 0xf900800, 0xf940830, 0xf980800, 0xf9c0830, 0xfa00600,
    0xfa40630, 0xfa801b0, 0xfa88100, 0xfa901d3, 0xfa98100, 0xfaa01d3, 0xfaa8100, 0xfab01d3, 0xfab8100] @
    [0xfac8130, 0xfad8130, 0xfae8130, 0xfaf8130, 0xfb00800, 0xfb40830, 0xfb80200, 0xfb90400, 0xfbb0201,
    0xfbc0201, 0xfbd0201, 0xfbe0201, 0xfc008b7, 0xfc40867, 0xfc808b8, 0xfcc0868, 0xfd008b8, 0xfd40868,
    0xfd80200, 0xfd901b9, 0xfd981b1, 0xfda01b9, 0xfdb01b1, 0xfdb81d7, 0xfdc0230, 0xfdd0230, 0xfde0161,
    0xfdf0173, 0xfe101b9, 0xfe181b2, 0xfe201ba, 0xfe301b2, 0xfe381d8, 0xfe40430, 0xfe60162, 0xfe80201,
    0xfe901d0, 0xfe981d0, 0xfeb01b0, 0xfeb81d0, 0xfec0230, 0xfed0230, 0xff00201, 0xff101d3, 0xff181d3,
    0xff201ba, 0xff28101, 0xff301b0, 0xff381d3, 0xff40231, 0xff50230, 0xff60131, 0xff901ba, 0xff981b2] @
    [0xffa01bb, 0xffb01b2, 0xffb81d9, 0xffc0230, 0xffd0230, 0xffe0162, 0x109301a0, 0x109501a0, 0x109581a0,
    0x10990131, 0x10a70101, 0x10b01031, 0x10b81001, 0x10c18240, 0x125b1a31, 0x12681a01, 0x16003031, 0x16183001,
    0x16300240, 0x16310130, 0x16318130, 0x16320130, 0x16328100, 0x16330100, 0x16338640, 0x16368130, 0x16370130,
    0x16378130, 0x16380130, 0x16390240, 0x163a8240, 0x163f0230, 0x16406440, 0x16758440, 0x16790240, 0x16802600,
    0x16938100, 0x16968100, 0x53202e40, 0x53401c40, 0x53910e40, 0x53993e40, 0x53bc8440, 0x53be8130, 0x53bf0a40,
    0x53c58240, 0x53c68130, 0x53c80440, 0x53ca0101, 0x53cb1440, 0x53d50130, 0x53d58130, 0x53d60130, 0x53d68130] @
    [0x53d70130, 0x53d80130, 0x53d88130, 0x53d90130, 0x53d98131, 0x53da1040, 0x53e20131, 0x53e28130, 0x53e30130,
    0x53e38440, 0x53e58130, 0x53e61040, 0x53ee0130, 0x53fa8240, 0x55a98101, 0x55b85020, 0x7d8001b2, 0x7d8081b2,
    0x7d8101b2, 0x7d8181da, 0x7d8201da, 0x7d8281b3, 0x7d8301b3, 0x7d8981bb, 0x7d8a01bb, 0x7d8a81bb, 0x7d8b01bc,
    0x7d8b81bb, 0x7f909a31, 0x7fa09a01, 0x82002831, 0x82142801, 0x82582431, 0x826c2401, 0x82b80b31, 0x82be0f31,
    0x82c60731, 0x82ca0231, 0x82cb8b01, 0x82d18f01, 0x82d98701, 0x82dd8201, 0x86403331, 0x86603301, 0x86a81631,
    0x86b81601, 0x8c502031, 0x8c602001, 0xb7202031, 0xb7302001, 0xb7501931, 0xb75d9901, 0xf4802231, 0xf4912201]"
  by (simp only: case_conv_table1_def append.simps)

lemma table_order:
  "successively (\<lambda>v w. entry_code v + entry_len v \<le> entry_code w) case_conv_table1"
  unfolding table_chunks successively_append_iff
  by (intro conjI; code_simp)

lemma table_shapes:
  "\<forall>v \<in> set case_conv_table1. (entry_type v = RUN_TYPE_LSU \<longrightarrow> entry_len v = 3)
     \<and> (entry_type v = RUN_TYPE_UL \<longrightarrow> entry_len v AND 1 = 0) \<and> entry_type v \<le> 13"
  unfolding table_chunks set_append ball_Un
  by (intro conjI; code_simp)

lemma entry_code_less: "entry_code v < 0x20000"
proof -
  have "unat v < 131072 * 32768" using unsigned_less [where ?'a = nat, of v] by simp
  then have "unat v div 32768 < 131072" by (rule less_mult_imp_div_less)
  then show ?thesis by (simp add: entry_code_def word_less_nat_alt unat_drop_bit)
qed

lemma entry_len_less: "entry_len v < 0x80"
  using unat_and_mask [of "drop_bit 8 v" 7]
  by (simp add: entry_len_def word_less_nat_alt mask_eq_exp_minus_1)

lemma unat_entry_end: "unat (entry_code v + entry_len v) = unat (entry_code v) + unat (entry_len v)"
  using entry_code_less [of v] entry_len_less [of v]
  by (intro unat_add_lem [THEN iffD1]) (simp add: word_less_nat_alt)

lemma entry_end_ge: "entry_code v \<le> entry_code v + entry_len v"
  by (simp add: word_le_nat_alt unat_entry_end)

lemma table_sorted: "sorted_wrt (\<lambda>v w. entry_code v + entry_len v \<le> entry_code w) case_conv_table1"
proof -
  have "transp (\<lambda>v w. entry_code v + entry_len v \<le> entry_code w)"
    by (rule transpI) (meson entry_end_ge order.trans)
  then show ?thesis using table_order by (simp add: successively_conv_sorted_wrt)
qed

lemma table_length [simp]: "length case_conv_table1 = 378"
  by (simp add: case_conv_table1_def)

lemma table_mono:
  "i < j \<Longrightarrow> j < 378 \<Longrightarrow> entry_code (case_conv_table1 ! i) + entry_len (case_conv_table1 ! i) \<le> entry_code (case_conv_table1 ! j)"
  using table_sorted by (simp add: sorted_wrt_iff_nth_less)

lemma covers_unique:
  assumes "entry_covers (case_conv_table1 ! i) c" "entry_covers (case_conv_table1 ! j) c" "i < 378" "j < 378"
  shows "i = j"
proof (rule ccontr)
  assume "i \<noteq> j"
  then consider "i < j" | "j < i" by linarith
  then show False
    using table_mono [of i j] table_mono [of j i] assms by cases (auto simp: entry_covers_def)
qed

lemma case_search_loop_correct:
  "0 \<le> a \<Longrightarrow> b < 378 \<Longrightarrow>
   case case_search_loop c a b of
     None \<Rightarrow> \<forall>k. a \<le> int k \<and> int k \<le> b \<longrightarrow> \<not> entry_covers (case_conv_table1 ! k) c
   | Some (k, v) \<Rightarrow> k < 378 \<and> v = case_conv_table1 ! k \<and> entry_covers v c"
proof (induction c a b rule: case_search_loop.induct)
  case (1 c a b)
  show ?case
  proof (cases "a \<le> b")
    case True
    let ?i = "(b + a) div 2"
    let ?v = "case_conv_table1 ! nat ?i"
    have i: "a \<le> ?i" "?i \<le> b" "nat ?i < 378" "int (nat ?i) = ?i" using True 1(3,4) by auto
    consider (lt) "c < entry_code ?v" | (gt) "\<not> c < entry_code ?v" "c \<ge> entry_code ?v + entry_len ?v"
      | (eq) "entry_covers ?v c" unfolding entry_covers_def by (meson not_le)
    then show ?thesis
    proof cases
      case lt
      have "\<not> entry_covers (case_conv_table1 ! k) c" if "?i \<le> int k" "int k \<le> b" for k
      proof (cases "k = nat ?i")
        case False
        then have "nat ?i < k" "k < 378" using that i 1(4) by linarith+
        then show ?thesis using table_mono [of "nat ?i" k] entry_end_ge [of ?v] lt
          by (auto simp: entry_covers_def)
      qed (use lt in \<open>auto simp: entry_covers_def\<close>)
      then have up: "\<forall>k. ?i \<le> int k \<and> int k \<le> b \<longrightarrow> \<not> entry_covers (case_conv_table1 ! k) c" by blast
      have run: "case_search_loop c a b = case_search_loop c a (?i - 1)"
        using True lt by (subst case_search_loop.simps) (simp add: Let_def)
      have "case case_search_loop c a (?i - 1) of
           None \<Rightarrow> \<forall>k. a \<le> int k \<and> int k \<le> ?i - 1 \<longrightarrow> \<not> entry_covers (case_conv_table1 ! k) c
         | Some (k, v) \<Rightarrow> k < 378 \<and> v = case_conv_table1 ! k \<and> entry_covers v c"
        using lt i 1(3,4) by (intro 1(1) [OF True refl refl refl refl]) auto
      then show ?thesis unfolding run using up by (force split: option.splits)
    next
      case gt
      have "\<not> entry_covers (case_conv_table1 ! k) c" if "a \<le> int k" "int k \<le> ?i" for k
      proof (cases "k = nat ?i")
        case False
        then have "k < nat ?i" using that i by linarith
        then show ?thesis using table_mono [of k "nat ?i"] i(3) gt
          by (auto simp: entry_covers_def)
      qed (use gt in \<open>auto simp: entry_covers_def\<close>)
      then have down: "\<forall>k. a \<le> int k \<and> int k \<le> ?i \<longrightarrow> \<not> entry_covers (case_conv_table1 ! k) c" by blast
      have run: "case_search_loop c a b = case_search_loop c (?i + 1) b"
        using True gt by (subst case_search_loop.simps) (simp add: Let_def)
      have "case case_search_loop c (?i + 1) b of
           None \<Rightarrow> \<forall>k. ?i + 1 \<le> int k \<and> int k \<le> b \<longrightarrow> \<not> entry_covers (case_conv_table1 ! k) c
         | Some (k, v) \<Rightarrow> k < 378 \<and> v = case_conv_table1 ! k \<and> entry_covers v c"
        using gt i 1(3,4) by (intro 1(2) [OF True refl refl refl refl]) auto
      then show ?thesis unfolding run using down by (force split: option.splits)
    next
      case eq
      then have "case_search_loop c a b = Some (nat ?i, ?v)"
        using True by (subst case_search_loop.simps) (auto simp: Let_def entry_covers_def not_less not_le)
      then show ?thesis using i eq by simp
    qed
  qed (subst case_search_loop.simps, auto)
qed

lemma case_search_iff:
  "case_search c = Some (k, v) \<longleftrightarrow> k < 378 \<and> v = case_conv_table1 ! k \<and> entry_covers v c"
proof -
  have "case case_search c of
     None \<Rightarrow> \<forall>k. 0 \<le> int k \<and> int k \<le> 377 \<longrightarrow> \<not> entry_covers (case_conv_table1 ! k) c
   | Some (k, v) \<Rightarrow> k < 378 \<and> v = case_conv_table1 ! k \<and> entry_covers v c"
    using case_search_loop_correct [of 0 377 c] by (simp add: case_search_def)
  then show ?thesis by (cases "case_search c") (auto dest: covers_unique)
qed

lemma case_search_None: "case_search c = None \<longleftrightarrow> (\<forall>k < 378. \<not> entry_covers (case_conv_table1 ! k) c)"
proof
  assume none: "\<forall>k < 378. \<not> entry_covers (case_conv_table1 ! k) c"
  show "case_search c = None"
  proof (cases "case_search c")
    case (Some p)
    then show ?thesis using case_search_iff [of c "fst p" "snd p"] none by auto
  qed
qed (use case_search_iff [of c] in auto)

subsection \<open>What is outside the mask does not change\<close>

definition in_intervals :: "u32 \<Rightarrow> (u32 \<times> u32) list \<Rightarrow> bool" where
  "in_intervals c is \<longleftrightarrow> (\<exists>(a, b) \<in> set is. a \<le> c \<and> c < b)"

text \<open>The intervals of an entry as offsets from its first code point.\<close>

definition entry_offsets :: "u32 \<Rightarrow> u32 \<Rightarrow> (nat \<times> nat) list" where
  "entry_offsets case_mask v =
     (let typ = entry_type v; len = unat (entry_len v);
          upper = case_mask AND CASE_U \<noteq> 0;
          both = upper \<and> case_mask AND (CASE_L OR CASE_F) \<noteq> 0
      in if \<not> type_in_mask case_mask typ then []
         else if typ = RUN_TYPE_UL \<and> \<not> both then
           (let d = (if upper then 1 else 0) in map (\<lambda>k. (d + 2 * k, d + 2 * k + 1)) [0..<(len + 1) div 2])
         else if typ = RUN_TYPE_LSU \<and> \<not> both then
           (if \<not> upper then [(0, 1)] else []) @ [(1, 2)] @ (if upper then [(2, 3)] else [])
         else [(0, len)])"

lemma entry_intervals_offsets:
  "entry_intervals case_mask v =
   map (\<lambda>(a, b). (entry_code v + of_nat a, entry_code v + of_nat b)) (entry_offsets case_mask v)"
  by (simp add: entry_intervals_def entry_offsets_def Let_def add.assoc)

fun nsorted :: "nat \<Rightarrow> (nat \<times> nat) list \<Rightarrow> nat \<Rightarrow> bool" where
  "nsorted lo [] hi \<longleftrightarrow> lo \<le> hi"
| "nsorted lo ((a, b) # is) hi \<longleftrightarrow> lo \<le> a \<and> a \<le> b \<and> nsorted b is hi"

lemma nsorted_le: "nsorted lo is hi \<Longrightarrow> lo \<le> hi"
  by (induction lo "is" hi rule: nsorted.induct) auto

lemma nsorted_mono: "nsorted lo is hi \<Longrightarrow> lo' \<le> lo \<Longrightarrow> hi \<le> hi' \<Longrightarrow> nsorted lo' is hi'"
  by (induction lo "is" hi arbitrary: lo' rule: nsorted.induct) auto

lemma nsorted_append: "nsorted lo xs m \<Longrightarrow> nsorted m ys hi \<Longrightarrow> nsorted lo (xs @ ys) hi"
  by (induction lo xs m rule: nsorted.induct) (auto intro: nsorted_mono)

lemma nsorted_steps:
  "nsorted lo (map (\<lambda>k. (d + 2 * k, d + 2 * k + 1)) [i..<i + n]) (d + 2 * (i + n))"
  if "lo \<le> d + 2 * i"
  using that
proof (induction n arbitrary: i lo)
  case (Suc n)
  have "[i..<i + Suc n] = i # [Suc i..<Suc i + n]" by (simp add: upt_rec)
  then show ?case using Suc.IH [of "d + 2 * i + 1" "Suc i"] Suc.prems by simp
qed simp

lemma u32_even: "(x :: u32) AND 1 = 0 \<longleftrightarrow> even (unat x)"
proof -
  have "unat (x AND 1) = unat x mod 2" using unat_and_mask [of x 1] by simp
  then show ?thesis by (metis even_iff_mod_2_eq_zero unat_0 word_unat_eq_iff)
qed

lemma nsorted_shift: "nsorted lo (map (map_prod ((+) k) ((+) k)) is) hi" if "nsorted lo' is hi'" "lo \<le> k + lo'" "k + hi' \<le> hi"
  using that by (induction lo' "is" hi' arbitrary: lo rule: nsorted.induct) auto

lemma entry_offsets_nsorted:
  assumes "v \<in> set case_conv_table1"
  shows "nsorted 0 (entry_offsets m v) (unat (entry_len v))"
proof -
  let ?len = "unat (entry_len v)"
  have "even ?len" if "entry_type v = RUN_TYPE_UL" using table_shapes assms that u32_even by blast
  then obtain n where n: "entry_type v = RUN_TYPE_UL \<Longrightarrow> ?len = 2 * n" by blast
  have lsu: "entry_type v = RUN_TYPE_LSU \<Longrightarrow> ?len = 3" using table_shapes assms by auto
  have ul: "nsorted 0 (map (\<lambda>k. (d + 2 * k, d + 2 * k + 1)) [0..<n]) (2 * n)" if "d \<le> 1" for d
  proof (cases n)
    case (Suc m)
    then show ?thesis using nsorted_steps [of 0 d 0 "m"] that
      by (auto simp: intro!: nsorted_append [where m = "d + 2 * m"])
  qed simp
  show ?thesis
    using n lsu ul [of 0] ul [of 1] by (auto simp: entry_offsets_def Let_def)
qed

lemma nsorted_bounds: "nsorted lo is hi \<Longrightarrow> (a, b) \<in> set is \<Longrightarrow> lo \<le> a \<and> a \<le> b \<and> b \<le> hi"
  by (induction lo "is" hi rule: nsorted.induct) (auto dest: nsorted_le)

lemma entry_intervals_nsorted:
  assumes "v \<in> set case_conv_table1"
  shows "nsorted (unat (entry_code v)) (map (map_prod unat unat) (entry_intervals m v)) (unat (entry_code v + entry_len v))"
proof -
  have un: "unat (entry_code v + of_nat a) = unat (entry_code v) + a" if "a \<le> unat (entry_len v)" for a
  proof -
    have "unat (entry_code v) < 131072" "a < 128" "unat (of_nat a :: u32) = a"
      using entry_code_less [of v] entry_len_less [of v] that
      by (auto simp: word_less_nat_alt unat_of_nat)
    then show ?thesis by (intro unat_add_lem [THEN iffD1, THEN trans]) auto
  qed
  have "map (map_prod unat unat) (entry_intervals m v) =
    map (map_prod ((+) (unat (entry_code v))) ((+) (unat (entry_code v)))) (entry_offsets m v)"
    using nsorted_bounds [OF entry_offsets_nsorted [OF assms, of m]]
    by (fastforce simp: entry_intervals_offsets map_prod_def intro: un order.trans)
  then show ?thesis
    using nsorted_shift [OF entry_offsets_nsorted [OF assms, of m]] by (simp add: unat_entry_end)
qed

lemma entry_intervals_covers:
  "v \<in> set case_conv_table1 \<Longrightarrow> in_intervals c (entry_intervals m v) \<Longrightarrow> entry_covers v c"
  using nsorted_bounds [OF entry_intervals_nsorted [of v m], of "unat (fst p)" "unat (snd p)" for p]
  by (force simp: in_intervals_def entry_covers_def word_le_nat_alt word_less_nat_alt)

lemma unpairs_simps [simp]:
  "unpairs [] = []" "unpairs ((a, b) # is) = a # b # unpairs is" "unpairs (xs @ ys) = unpairs xs @ unpairs ys"
  by (simp_all add: unpairs_def)

lemma pairs_unpairs [simp]: "pairs (unpairs is) = is"
  by (induction "is") auto

lemma unpairs_pairs: "even (length pts) \<Longrightarrow> unpairs (pairs pts) = pts"
  by (induction pts rule: pairs.induct) auto

lemma even_length_unpairs [simp]: "even (length (unpairs is))"
  by (induction "is") auto

lemma in_intervals_simps [simp]:
  "\<not> in_intervals c []" "in_intervals c ((a, b) # is) \<longleftrightarrow> a \<le> c \<and> c < b \<or> in_intervals c is"
  "in_intervals c (xs @ ys) \<longleftrightarrow> in_intervals c xs \<or> in_intervals c ys"
  by (auto simp: in_intervals_def)

lemma cr_mem_unpairs: "sorted (unpairs is) \<Longrightarrow> cr_mem (unpairs is) c \<longleftrightarrow> in_intervals c is"
proof (induction "is")
  case (Cons p "is")
  obtain a b where p: "p = (a, b)" by (cases p)
  have "a \<le> b" "\<forall>x \<in> set (unpairs is). b \<le> x" "sorted (unpairs is)" using Cons.prems by (auto simp: p)
  then show ?case
    using Cons.IH cr_mem_Cons2 [of a b "unpairs is" c]
    by (cases "a = b") (auto simp: p cr_mem_def)
qed (simp add: cr_mem_def)

lemma nsorted_sorted: "nsorted lo (map (map_prod unat unat) is) hi \<Longrightarrow> sorted (unpairs is) \<and> (\<forall>x \<in> set (unpairs is). lo \<le> unat x \<and> unat x \<le> hi)"
proof (induction "is" arbitrary: lo)
  case (Cons p "is")
  obtain a b where p: "p = (a, b)" by (cases p)
  have "sorted (unpairs is) \<and> (\<forall>x \<in> set (unpairs is). unat b \<le> unat x \<and> unat x \<le> hi)"
    using Cons.prems by (intro Cons.IH) (simp add: p)
  moreover have "lo \<le> unat a" "unat a \<le> unat b" "unat b \<le> hi" using Cons.prems nsorted_le by (auto simp: p)
  moreover from this have "a \<le> b" by (simp add: word_le_nat_alt)
  moreover have "\<forall>x \<in> set (unpairs is). b \<le> x" using calculation by (simp add: word_le_nat_alt)
  ultimately show ?case unfolding p by (auto intro: order.trans)
qed simp

lemma cr_add_interval_cases:
  obtains (ok) n where "cr_add_interval cr a b = (0, cr\<lparr>cr_size := n, cr_points := cr_points cr @ [a, b]\<rparr>)"
  | (failed) "cr_add_interval cr a b = (-1, cr)" "\<exists>n. \<not> cr_realloc_func cr n"
proof (cases "cr_len cr + 2 > cr_size cr")
  case True
  show ?thesis
    by (rule cr_realloc_cases [of cr "cr_len cr + 2"])
      (use True in \<open>auto simp: cr_add_interval_def cr_realloc_def Let_def intro: ok failed split: if_splits\<close>)
next
  case False
  then show ?thesis by (intro ok [of "cr_size cr"]) (simp add: cr_add_interval_def)
qed

lemma add_intervals_cases:
  "add_intervals is cr = (ret, cr') \<Longrightarrow>
   ret = 0 \<and> cr_points cr' = cr_points cr @ unpairs is \<and> cr_realloc_func cr' = cr_realloc_func cr
   \<or> ret = -1 \<and> (\<exists>n. \<not> cr_realloc_func cr n)"
proof (induction "is" cr rule: add_intervals.induct)
  case (2 a b "is" cr)
  then show ?case by (cases rule: cr_add_interval_cases [of cr a b]) auto
qed auto

definition mask_intervals :: "u32 \<Rightarrow> (u32 \<times> u32) list" where
  "mask_intervals m = concat (map (entry_intervals m) case_conv_table1)"

lemma nsorted_concat:
  assumes "sorted_wrt (\<lambda>v w. entry_code v + entry_len v \<le> entry_code w) vs"
    and "set vs \<subseteq> set case_conv_table1" and "\<forall>v \<in> set vs. lo \<le> unat (entry_code v)"
    and "\<forall>v \<in> set vs. unat (entry_code v + entry_len v) \<le> hi" and "lo \<le> hi"
  shows "nsorted lo (map (map_prod unat unat) (concat (map (entry_intervals m) vs))) hi"
  using assms
proof (induction vs arbitrary: lo)
  case (Cons v vs)
  have "nsorted lo (map (map_prod unat unat) (entry_intervals m v)) (unat (entry_code v + entry_len v))"
    using entry_intervals_nsorted [of v m] Cons.prems by (auto intro: nsorted_mono)
  then show ?case using Cons by (auto simp: word_le_nat_alt intro!: nsorted_append)
qed simp

lemma mask_intervals_sorted: "sorted (unpairs (mask_intervals m))"
  using nsorted_concat [OF table_sorted order.refl, of 0 "2 ^ 32" m]
    nsorted_sorted [of 0 "mask_intervals m" "2 ^ 32"] unsigned_less [where ?'a = nat and ?'b = 32]
  by (auto simp: mask_intervals_def less_imp_le)

lemma in_mask: "in_intervals c (mask_intervals m) \<longleftrightarrow> (\<exists>v \<in> set case_conv_table1. in_intervals c (entry_intervals m v))"
  by (auto simp: in_intervals_def mask_intervals_def)

lemma unicode_case1_cases:
  assumes "unicode_case1 cr m = (ret, cr')" "m \<noteq> 0"
  shows "ret = 0 \<and> cr_points cr' = cr_points cr @ unpairs (mask_intervals m) \<and> cr_realloc_func cr' = cr_realloc_func cr
   \<or> ret = -1 \<and> (\<exists>n. \<not> cr_realloc_func cr n)"
  using assms add_intervals_cases by (simp add: unicode_case1_def mask_intervals_def)

abbreviation fold_mask :: "bool \<Rightarrow> u32" where
  "fold_mask is_unicode \<equiv> (if is_unicode then CASE_F else CASE_U)"

lemma u32_le_cases: "(t :: u32) \<le> w \<longleftrightarrow> t = w \<or> w \<noteq> 0 \<and> t \<le> w - 1"
proof (cases "w = 0")
  case False
  then have "unat (w - 1) = unat w - 1" "0 < unat w" by (simp_all add: unat_minus_one unat_gt_0)
  then show ?thesis using False by (auto simp: word_le_nat_alt word_unat_eq_iff)
qed (simp add: word_le_nat_alt word_unat_eq_iff)

lemma case_split13: "(t :: u32) \<le> 13 \<Longrightarrow> t \<in> {0,1,2,3,4,5,6,7,8,9,10,11,12,13}"
  by (subst (asm) u32_le_cases, simp)+ blast

lemma type_in_single:
  "type_in_mask CASE_F t \<longleftrightarrow> t \<in> {2, 3, 4, 5, 6, 7, 8, 10, 11, 12, 13}"
  "type_in_mask CASE_U t \<longleftrightarrow> t \<in> {0, 2, 4, 5, 6, 7, 8, 9, 11, 13}"
proof -
  have "bit (4 :: u32) 2" "\<not> bit (4 :: u32) 1" "\<not> bit (4 :: u32) 0" "\<not> bit (1 :: u32) 2" "\<not> bit (1 :: u32) 1" "bit (1 :: u32) 0"
    by code_simp+
  then show "type_in_mask CASE_F t \<longleftrightarrow> t \<in> {2, 3, 4, 5, 6, 7, 8, 10, 11, 12, 13}"
    "type_in_mask CASE_U t \<longleftrightarrow> t \<in> {0, 2, 4, 5, 6, 7, 8, 9, 11, 13}"
    unfolding type_in_mask_def tab_run_types_def by (simp_all del: bit_numeral_iff) blast+
qed

lemma mask_bits: "(4 :: u32) AND 1 = 0" "(4 :: u32) AND (2 OR 4) \<noteq> 0" "(1 :: u32) AND 1 \<noteq> 0" "(1 :: u32) AND (2 OR 4) = 0"
  by code_simp+

lemma entry_intervals_single:
  assumes "m = CASE_F \<or> m = CASE_U"
  shows "entry_type v = RUN_TYPE_UL \<Longrightarrow> entry_intervals m v =
      map (\<lambda>k. (entry_code v + (if m = CASE_U then 1 else 0) + 2 * of_nat k,
                 entry_code v + (if m = CASE_U then 1 else 0) + 2 * of_nat k + 1)) [0..<(unat (entry_len v) + 1) div 2]" (is "_ \<Longrightarrow> ?UL")
    and "entry_type v = RUN_TYPE_LSU \<Longrightarrow> entry_intervals m v =
      (if m = CASE_F then [(entry_code v, entry_code v + 1)] else []) @ [(entry_code v + 1, entry_code v + 2)]
      @ (if m = CASE_U then [(entry_code v + 2, entry_code v + 3)] else [])" (is "_ \<Longrightarrow> ?LSU")
    and "\<lbrakk>type_in_mask m (entry_type v); entry_type v \<noteq> RUN_TYPE_UL; entry_type v \<noteq> RUN_TYPE_LSU\<rbrakk> \<Longrightarrow>
      entry_intervals m v = [(entry_code v, entry_code v + entry_len v)]" (is "_ \<Longrightarrow> _ \<Longrightarrow> _ \<Longrightarrow> ?DEF")
proof -
  have ne: "(4 :: u32) \<noteq> 1" by simp
  note defs = entry_intervals_def Let_def mask_bits type_in_single
  show "entry_type v = RUN_TYPE_UL \<Longrightarrow> ?UL" using assms by (elim disjE; simp only: defs) (simp_all add: ne)
  show "entry_type v = RUN_TYPE_LSU \<Longrightarrow> ?LSU" using assms by (elim disjE; simp only: defs) (simp_all add: ne)
  show "\<lbrakk>type_in_mask m (entry_type v); entry_type v \<noteq> RUN_TYPE_UL; entry_type v \<noteq> RUN_TYPE_LSU\<rbrakk> \<Longrightarrow> ?DEF"
    by (simp add: entry_intervals_def Let_def)
qed
lemma ul_unmasked:
  assumes "entry_covers v c" "entry_type v = RUN_TYPE_UL" "v \<in> set case_conv_table1"
    and "\<not> in_intervals c (entry_intervals m v)" "m = CASE_F \<or> m = CASE_U"
  shows "odd (unat (c - entry_code v)) \<longleftrightarrow> m = CASE_F"
proof (rule ccontr)
  define a where "a = unat (c - entry_code v)"
  define d :: nat where "d = (if m = CASE_U then 1 else 0)"
  assume "\<not> ?thesis"
  then have "\<exists>k. a = d + 2 * k" using assms(5) unfolding a_def d_def
    by (cases "even (unat (c - entry_code v))") (auto elim!: evenE oddE)
  then obtain k where k: "a = d + 2 * k" by blast
  have len: "even (unat (entry_len v))" using assms table_shapes u32_even by blast
  have a: "a = unat c - unat (entry_code v)" "a < unat (entry_len v)"
    using assms(1) by (auto simp: a_def entry_covers_def word_le_nat_alt word_less_nat_alt unat_entry_end unat_sub)
  then have "k < (unat (entry_len v) + 1) div 2" using k len by auto
  moreover have c: "c = entry_code v + of_nat d + 2 * of_nat k"
  proof -
    have "c = entry_code v + of_nat a" by (simp add: a_def)
    then show ?thesis by (simp add: k add.assoc)
  qed
  moreover have "c < c + 1" using assms(1) u32_Suc [of c "entry_code v + entry_len v"]
    by (simp add: entry_covers_def word_less_nat_alt)
  ultimately have "in_intervals c (entry_intervals m v)"
    unfolding in_intervals_def entry_intervals_single(1) [OF assms(5,2)]
    by (intro bexI [of _ "(entry_code v + of_nat d + 2 * of_nat k, entry_code v + of_nat d + 2 * of_nat k + 1)"]) (auto simp: d_def)
  then show False using assms(4) by simp
qed

lemma lsu_unmasked:
  assumes "entry_covers v c" "entry_type v = RUN_TYPE_LSU" "v \<in> set case_conv_table1"
    and "\<not> in_intervals c (entry_intervals m v)" "m = CASE_F \<or> m = CASE_U"
  shows "c - entry_code v = (if m = CASE_F then 2 else 0)"
proof -
  define a where "a = c - entry_code v"
  have c: "c = entry_code v + a" by (simp add: a_def)
  have "entry_len v = 3" using assms table_shapes by blast
  moreover have "unat a < unat (entry_len v)"
    using assms(1) by (auto simp: a_def entry_covers_def word_le_nat_alt word_less_nat_alt unat_entry_end unat_sub)
  ultimately have "unat a < 3" by simp
  then have "unat a \<in> {0, 1, 2}" by auto
  then have a: "a = 0 \<or> a = 1 \<or> a = 2" by (auto simp: word_unat_eq_iff)
  have lt: "entry_code v + k < entry_code v + (k + 1)" if "k \<le> 2" for k
  proof -
    have k: "unat k \<le> 2" using that by (simp add: word_le_nat_alt)
    have "unat (k + 1) = unat k + 1" using k by (intro unat_add_lem [THEN iffD1, THEN trans]) auto
    moreover have "unat (entry_code v + j) = unat (entry_code v) + unat j" if "unat j \<le> 3" for j
      using entry_code_less [of v] that
      by (intro unat_add_lem [THEN iffD1, THEN trans]) (auto simp: word_less_nat_alt)
    ultimately show ?thesis using k by (simp add: word_less_nat_alt)
  qed
  have "entry_code v < entry_code v + 1" "entry_code v + 1 < entry_code v + 2" "entry_code v + 2 < entry_code v + 3"
    using lt [of 0] lt [of 1] lt [of 2] by (simp_all add: add.assoc)
  then show ?thesis
    using a assms(4,5) unfolding a_def [symmetric] entry_intervals_single(2) [OF assms(5,2)] c by auto
qed

lemma conv_unmasked:
  assumes v: "v \<in> set case_conv_table1" and cov: "entry_covers v c"
    and out: "\<not> in_intervals c (entry_intervals m v)" and m: "m = CASE_F \<and> t = 2 \<or> m = CASE_U \<and> t = 0"
  shows "lre_case_conv_entry c t k v = [c]"
proof -
  have m': "m = CASE_F \<or> m = CASE_U" using m by blast
  have t13: "entry_type v \<le> 13" using table_shapes v by blast
  have ex: "(drop_bit 4 v AND 0xf) = entry_type v" by (simp add: entry_type_def)
  have in_full: "in_intervals c [(entry_code v, entry_code v + entry_len v)]"
    using cov by (simp add: entry_covers_def)
  consider (none) "\<not> type_in_mask m (entry_type v)" | (ul) "entry_type v = RUN_TYPE_UL" | (lsu) "entry_type v = RUN_TYPE_LSU"
    using entry_intervals_single(3) [OF m', of v] out in_full by metis
  then show ?thesis
  proof cases
    case none
    then consider "t = 2" "entry_type v \<in> {RUN_TYPE_U, RUN_TYPE_L, RUN_TYPE_U_EXT}" |
       "t = 0" "entry_type v \<in> {RUN_TYPE_L, RUN_TYPE_LF, RUN_TYPE_LF_EXT, RUN_TYPE_LF_EXT2}"
      using m case_split13 [OF t13] type_in_single by blast
    moreover have "\<not> (2 :: u32) \<le> 1" by code_simp
    ultimately show ?thesis
      by cases (auto simp: lre_case_conv_entry.simps [of c] ex Let_def)
  next
    case ul
    have "odd (unat (c - entry_code v)) \<longleftrightarrow> m = CASE_F" by (rule ul_unmasked [OF cov ul v out m'])
    then have "(c - entry_code v) AND 1 = 0 \<longleftrightarrow> m = CASE_U" using m' by (auto simp: u32_even)
    moreover have "x AND 1 = 0 \<or> x AND 1 = 1" for x :: u32
      by (simp add: and_one_eq) (metis even_iff_mod_2_eq_zero odd_iff_mod_2_eq_one)
    ultimately show ?thesis
      using m by (auto simp: lre_case_conv_entry.simps [of c] ex ul Let_def)
  next
    case lsu
    show ?thesis
      using lsu_unmasked [OF cov lsu v out m'] m by (auto simp: lre_case_conv_entry.simps [of c] ex lsu Let_def)
  qed
qed

lemma small_codes: "c < 128 \<Longrightarrow> k < 378 \<Longrightarrow> entry_covers (case_conv_table1 ! k) c \<Longrightarrow> k = 0 \<or> k = 1"
proof (rule ccontr)
  assume c: "c < 128" "k < 378" "entry_covers (case_conv_table1 ! k) c" and "\<not> (k = 0 \<or> k = 1)"
  then have "2 \<le> k" by auto
  have "entry_code (case_conv_table1 ! 2) = 0xb5" by (simp add: case_conv_table1_def entry_code_def)
  moreover have "entry_code (case_conv_table1 ! 2) \<le> entry_code (case_conv_table1 ! k)"
    using table_mono [of 2 k] entry_end_ge [of "case_conv_table1 ! 2"] \<open>2 \<le> k\<close> c(2) by (cases "k = 2") auto
  ultimately show False using c by (auto simp: entry_covers_def dest: order.strict_trans1)
qed

lemma ascii_entries:
  "case_conv_table1 ! 0 = 0x209a30" "case_conv_table1 ! 1 = 0x309a00"
  "in_intervals c (entry_intervals CASE_F 0x209a30) \<longleftrightarrow> 0x41 \<le> c \<and> c < 0x5b"
  "in_intervals c (entry_intervals CASE_U 0x209a30) \<longleftrightarrow> False"
  "in_intervals c (entry_intervals CASE_F 0x309a00) \<longleftrightarrow> False"
  "in_intervals c (entry_intervals CASE_U 0x309a00) \<longleftrightarrow> 0x61 \<le> c \<and> c < 0x7b"
proof -
  have "entry_intervals CASE_F 0x209a30 = [(0x41, 0x5b)]" "entry_intervals CASE_U 0x209a30 = []"
    "entry_intervals CASE_F 0x309a00 = []" "entry_intervals CASE_U 0x309a00 = [(0x61, 0x7b)]"
    by code_simp+
  then show "in_intervals c (entry_intervals CASE_F 0x209a30) \<longleftrightarrow> 0x41 \<le> c \<and> c < 0x5b"
  "in_intervals c (entry_intervals CASE_U 0x209a30) \<longleftrightarrow> False"
  "in_intervals c (entry_intervals CASE_F 0x309a00) \<longleftrightarrow> False"
  "in_intervals c (entry_intervals CASE_U 0x309a00) \<longleftrightarrow> 0x61 \<le> c \<and> c < 0x7b"
    by simp_all
qed (simp_all add: case_conv_table1_def)

lemma ascii_bounds: "c \<le> 0x5a \<longleftrightarrow> c < (0x5b :: u32)" "c \<le> 0x7a \<longleftrightarrow> c < (0x7b :: u32)"
  by (auto simp: word_le_nat_alt word_less_nat_alt)

lemma in_mask_nth: "in_intervals c (mask_intervals m) \<longleftrightarrow> (\<exists>k < 378. in_intervals c (entry_intervals m (case_conv_table1 ! k)))"
  by (auto simp: in_mask in_set_conv_nth Bex_def)

lemma ascii_fold:
  assumes "c < 128"
  shows "in_intervals c (mask_intervals (fold_mask u)) \<longleftrightarrow> (if u then 0x41 \<le> c \<and> c < 0x5b else 0x61 \<le> c \<and> c < 0x7b)"
proof -
  have "in_intervals c (mask_intervals m) \<longleftrightarrow> (\<exists>k \<in> {0, 1}. in_intervals c (entry_intervals m (case_conv_table1 ! k)))" for m
  proof
    assume "in_intervals c (mask_intervals m)"
    then obtain k where k: "k < 378" "in_intervals c (entry_intervals m (case_conv_table1 ! k))"
      by (auto simp: in_mask_nth)
    then have "entry_covers (case_conv_table1 ! k) c" by (intro entry_intervals_covers) simp_all
    then show "\<exists>k \<in> {0, 1}. in_intervals c (entry_intervals m (case_conv_table1 ! k))"
      using small_codes [OF assms] k by blast
  qed (auto simp: in_mask_nth intro: exI [of _ 0] exI [of _ 1])
  then show ?thesis by (simp add: ascii_entries ascii_entries(2) [unfolded One_nat_def])
qed

text \<open>The mask is exact enough: what is outside it is its own canonical form.\<close>

lemma canonicalize_unmasked:
  assumes "\<not> in_intervals c (mask_intervals (fold_mask u))"
  shows "lre_canonicalize c u = c"
proof (cases "c < 128")
  case True
  then show ?thesis using assms ascii_fold [OF True, of u]
    by (cases u) (auto simp: lre_canonicalize_def ascii_lower_def ascii_upper_def ascii_bounds)
next
  case False
  show ?thesis
  proof (cases "case_search c")
    case (Some p)
    obtain k v where p: "p = (k, v)" by (cases p)
    then have v: "v \<in> set case_conv_table1" "entry_covers v c" using Some case_search_iff [of c k v] by auto
    moreover have "\<not> in_intervals c (entry_intervals (fold_mask u) v)" using assms v by (auto simp: in_mask)
    ultimately have "lre_case_conv_entry c (if u then 2 else 0) k v = [c]"
      by (intro conv_unmasked [of v c "fold_mask u"]) auto
    then show ?thesis using False Some
      by (cases u) (simp_all add: p lre_canonicalize_def lre_case_folding_entry_def)
  qed (use False in \<open>simp add: lre_canonicalize_def\<close>)
qed

lemma canonicalize_masked:
  assumes "k < 378" "in_intervals c (entry_intervals (fold_mask u) (case_conv_table1 ! k))"
  shows "lre_case_folding_entry c k (case_conv_table1 ! k) u = lre_canonicalize c u"
proof -
  have cov: "entry_covers (case_conv_table1 ! k) c"
    using assms entry_intervals_covers by (metis nth_mem table_length)
  show ?thesis
  proof (cases "c < 128")
    case False
    then show ?thesis using assms(1) cov case_search_iff [of c k "case_conv_table1 ! k"]
      by (simp add: lre_canonicalize_def)
  next
    case True
    show ?thesis
    proof (cases u)
      case False
      then show ?thesis using True by (simp add: lre_canonicalize_def lre_case_folding_entry_def)
    next
      case u: True
      then have "k = 0" using small_codes [OF True assms(1) cov] assms(2) ascii_entries by auto
      moreover have "lre_case_conv_entry c 2 0 0x209a30 = [c - 0x41 + 0x61]"
      proof -
        have "drop_bit 4 0x209a30 AND 0xf = (3 :: u32)" "entry_code 0x209a30 = 0x41"
          "entry_code (case_conv_table1 ! unat (push_bit 8 (0x209a30 AND 0xf) OR ucast (case_conv_table2 ! 0) :: u32)) = 0x61"
          by code_simp+
        then show ?thesis by (subst lre_case_conv_entry.simps) (simp only: Let_def, simp)
      qed
      ultimately show ?thesis using True u assms(2)
        by (auto simp: lre_canonicalize_def lre_case_folding_entry_def ascii_entries ascii_lower_def ascii_bounds)
    qed
  qed
qed

lemma conv_small:
  assumes v: "v \<in> set case_conv_table1" and cov: "entry_covers v c" and res: "lre_case_conv_entry c t k v = [x]"
  shows "unat x < 2 ^ 19"
proof -
  define a where "a = c - entry_code v"
  have code: "unat (entry_code v) < 2 ^ 17" for v using entry_code_less [of v] by (simp add: word_less_nat_alt)
  have len: "unat (entry_len v) < 128" using entry_len_less [of v] by (simp add: word_less_nat_alt)
  have a: "unat a < 128"
    using cov len by (auto simp: a_def entry_covers_def word_le_nat_alt word_less_nat_alt unat_entry_end unat_sub)
  have c: "c = a + entry_code v" by (simp add: a_def)
  have add: "unat (y + z) < 2 ^ 19" if "unat y < 2 ^ 18" "unat z < 2 ^ 18" for y z :: u32
    using that unat_plus_if' [of y z] by auto
  have ext: "unat (ext i) < 2 ^ 16" for i
    using unsigned_less [where ?'a = nat, of "case_conv_ext ! unat i"]
    by (simp add: ext_def unsigned_ucast_eq take_bit_nat_eq_self)
  define data where "data = push_bit 8 (v AND 0xf) OR (ucast (case_conv_table2 ! k) :: u32)"
  have data: "unat data < 2 ^ 12"
  proof -
    have "take_bit 12 data = data"
    proof (rule bit_word_eqI)
      fix n assume n: "n < LENGTH(32)"
      have v: "v AND 0xf = take_bit 4 v" by (simp add: take_bit_eq_mask mask_eq_exp_minus_1)
      have "\<not> n < 12 \<Longrightarrow> \<not> bit (case_conv_table2 ! k) n" using bit_imp_le_length [of "case_conv_table2 ! k" n] by auto
      then show "bit (take_bit 12 data) n = bit data n"
        unfolding data_def v by (auto simp: bit_simps)
    qed
    then have "unat data = unat data mod 2 ^ 12" by (metis unsigned_take_bit_eq take_bit_eq_mod)
    then show ?thesis using mod_less_divisor [of "2 ^ 12" "unat data"] by simp
  qed
  define l :: u32 where "l = (if t \<noteq> 0 then 1 else 0)"
  have x1: "unat (a XOR 1) < 2 ^ 18"
  proof -
    have "a < 0x80" using a by (simp add: word_less_nat_alt)
    then have "uint a < 2 ^ 7" by (simp add: word_less_def)
    then have "uint a XOR 1 < 2 ^ 7" using XOR_upper [of "uint a" 7 1] by simp
    then have "a XOR 1 < 0x80" by (simp add: word_less_def unsigned_xor_eq)
    then show ?thesis by (simp add: word_less_nat_alt)
  qed
  have l2: "unat (2 * l) < 2 ^ 18" by (simp add: l_def)
  have small: "unat a < 2 ^ 18" "unat (entry_code w) < 2 ^ 18" "unat (ext i) < 2 ^ 18" "unat data < 2 ^ 18" for w i
    using a code [of w] ext [of i] data by auto
  have bounds: "unat (a + entry_code w) < 2 ^ 19" "unat ((a XOR 1) + entry_code w) < 2 ^ 19" "unat (a + ext i) < 2 ^ 19"
    "unat (data + (if b then 0x20 else 0)) < 2 ^ 19" "unat (ext i + (if b then 1 else 0)) < 2 ^ 19" "unat (ext i) < 2 ^ 19" for w i b
    proof -
    have "unat (if b then 0x20 else 0 :: u32) < 2 ^ 18" "unat (if b then 1 else 0 :: u32) < 2 ^ 18" by simp_all
    then show "unat (data + (if b then 0x20 else 0)) < 2 ^ 19" "unat (ext i + (if b then 1 else 0)) < 2 ^ 19"
      using add small by blast+
    show "unat (ext i) < 2 ^ 19" using ext [of i] by (rule less_trans) simp
  qed (intro add small x1)+
  have xc: "unat c < 2 ^ 19" unfolding c by (rule bounds)
  have lsu: "unat (c + (2 * l - 1)) < 2 ^ 19" if "a = 1"
    using add [OF small(2) l2, of v] that by (simp add: c algebra_simps)
  have lsu2: "unat (c + (2 * l - 1) * 2) < 2 ^ 19" if "a = (1 - l) * 2"
  proof -
    have eq: "c + (2 * l - 1) * 2 = entry_code v + 2 * l" unfolding c that by (simp add: algebra_simps)
    show ?thesis unfolding eq by (rule add [OF small(2) l2])
  qed
  define ty where "ty = drop_bit 4 v AND 0xf"
  have split: "(if P then A else B) = [x] \<Longrightarrow> (P \<Longrightarrow> A = [x] \<Longrightarrow> Q) \<Longrightarrow> (\<not> P \<Longrightarrow> B = [x] \<Longrightarrow> Q) \<Longrightarrow> Q"
    for P Q and A B :: "u32 list" by (cases P) auto
  have one: "[e] = [x] \<Longrightarrow> unat e < 2 ^ 19 \<Longrightarrow> unat x < 2 ^ 19" for e :: u32 by simp
  have two: "[e, f] = [x] \<Longrightarrow> Q" "[e, f, g] = [x] \<Longrightarrow> Q" for e f g :: u32 and Q by simp_all
  note run = res [unfolded lre_case_conv_entry.simps [of c t k v] Let_def, folded l_def data_def a_def, folded ty_def]
  show ?thesis
    using run by (elim split two; elim one) (rule bounds xc lsu lsu2 | assumption)+
qed

lemma fold_entry_small:
  assumes v: "v \<in> set case_conv_table1" and cov: "entry_covers v c"
  shows "lre_case_folding_entry c k v u \<noteq> 0xFFFFFFFF"
proof -
  have c: "unat c < 2 ^ 19"
    using cov entry_code_less [of v] entry_len_less [of v] unat_entry_end [of v]
    by (auto simp: entry_covers_def word_less_nat_alt)
  have "hd res \<noteq> 0xFFFFFFFF" if "lre_case_conv_entry c t k v = res" "length res = 1" for t res
    using that conv_small [OF v cov, of t k "hd res"] by (cases res) auto
  moreover have "c \<noteq> 0xFFFFFFFF" using c by auto
  moreover have "ascii_upper c \<noteq> 0xFFFFFFFF" if "c < 128"
  proof -
    have "unat c < 128" using that by (simp add: word_less_nat_alt)
    moreover have "unat (c - 0x61 + 0x41) < 2 ^ 20" if "0x61 \<le> c"
      using that calculation unat_plus_if' [of "c - 0x61" "0x41"] unat_sub [of "0x61" c] by (auto simp: word_le_nat_alt)
    ultimately show ?thesis by (auto simp: ascii_upper_def word_unat_eq_iff)
  qed
  ultimately show ?thesis by (auto simp: lre_case_folding_entry_def Let_def)
qed

lemma fold_seek_finds:
  "idx \<le> k \<Longrightarrow> k < 378 \<Longrightarrow> entry_covers (case_conv_table1 ! k) c \<Longrightarrow> fold_seek c idx = Some k"
proof (induction c idx rule: fold_seek.induct)
  case (1 c idx)
  show ?case
  proof (cases "entry_covers (case_conv_table1 ! idx) c")
    case True
    then have "idx = k" using covers_unique [of idx c k] "1.prems" by auto
    then show ?thesis using "1.prems" by (simp add: fold_seek.simps [of c k])
  next
    case False
    then have "idx < k" using "1.prems" by (metis le_neq_implies_less)
    then show ?thesis using "1.IH" [OF _ False] "1.prems" False by (simp add: fold_seek.simps [of c idx])
  qed
qed

text \<open>
  What the loop keeps: its result and the pending interval together are the images of the
  code points seen (\<open>S\<close>), all of them below \<open>lo\<close>, and no entry behind its position covers a code point from \<open>lo\<close> on.
\<close>

definition fold_inv :: "u32 set \<Rightarrow> nat \<Rightarrow> fold_state \<Rightarrow> bool" where
  "fold_inv S lo st =
     (case st of (idx, d_start, d_end, cr) \<Rightarrow>
        (\<forall>n. cr_realloc_func cr n)
        \<and> (\<forall>c k. lo \<le> unat c \<and> k < 378 \<and> entry_covers (case_conv_table1 ! k) c \<longrightarrow> idx \<le> k)
        \<and> (\<exists>is. cr_points cr = unpairs is \<and> length is \<le> lo \<and> (\<forall>(a, b) \<in> set is. a < b)
             \<and> (if d_start = -1 then is = [] \<and> S = {}
                else d_start < d_end \<and> (\<forall>x. in_intervals x (is @ [(d_start, d_end)]) \<longleftrightarrow> x \<in> S))))"

lemma fold_inv_mono: "fold_inv S lo st \<Longrightarrow> lo \<le> lo' \<Longrightarrow> fold_inv S lo' st"
proof -
  obtain idx ds de cr where st: "st = (idx, ds, de, cr)" by (cases st)
  show "fold_inv S lo st \<Longrightarrow> lo \<le> lo' \<Longrightarrow> fold_inv S lo' st"
    unfolding fold_inv_def st prod.case by (meson order.trans)
qed

lemma u32_interval_snoc:
  "d \<noteq> 0xFFFFFFFF \<Longrightarrow> d < d + 1" "d \<noteq> 0xFFFFFFFF \<Longrightarrow> (x :: u32) < d + 1 \<longleftrightarrow> x < d \<or> x = d"
proof -
  assume "d \<noteq> 0xFFFFFFFF"
  moreover have "(0xFFFFFFFF :: u32) = - 1" by simp
  ultimately have "1 + d \<noteq> 0" by (metis add_eq_0_iff)
  then have "unat (d + 1) = Suc (unat d)" using unatSuc [of d] by (simp add: add.commute)
  then show "d < d + 1" "(x :: u32) < d + 1 \<longleftrightarrow> x < d \<or> x = d"
    by (auto simp: word_less_nat_alt word_unat_eq_iff)
qed

lemma fold_char_step:
  assumes inv: "fold_inv S (unat c) st" and k: "k < 378" "entry_covers (case_conv_table1 ! k) c"
  shows "\<exists>st'. fold_char u c st = Some st' \<and>
    fold_inv (insert (lre_case_folding_entry c k (case_conv_table1 ! k) u) S) (Suc (unat c)) st'"
proof -
  obtain idx ds de cr where st: "st = (idx, ds, de, cr)" by (cases st)
  define d where "d = lre_case_folding_entry c k (case_conv_table1 ! k) u"
  have d: "d \<noteq> 0xFFFFFFFF" "d \<noteq> -1" using fold_entry_small [of "case_conv_table1 ! k" c k u] k by (auto simp: d_def)
  have seek: "fold_seek c idx = Some k"
    using inv k by (intro fold_seek_finds) (auto simp: fold_inv_def st)
  have later: "k \<le> k'" if "Suc (unat c) \<le> unat c'" "k' < 378" "entry_covers (case_conv_table1 ! k') c'" for c' k'
  proof (rule ccontr)
    assume "\<not> k \<le> k'"
    then have "entry_code (case_conv_table1 ! k') + entry_len (case_conv_table1 ! k') \<le> entry_code (case_conv_table1 ! k)"
      using table_mono [of k' k] k by simp
    then show False using that k by (auto simp: entry_covers_def word_less_nat_alt word_le_nat_alt)
  qed
  obtain "is" where pts: "cr_points cr = unpairs is" "length is \<le> unat c" "\<forall>(a, b) \<in> set is. a < b" "\<forall>n. cr_realloc_func cr n"
    and S: "if ds = -1 then is = [] \<and> S = {} else ds < de \<and> (\<forall>x. in_intervals x (is @ [(ds, de)]) \<longleftrightarrow> x \<in> S)"
    using inv by (auto simp: fold_inv_def st)
  have run: "fold_char u c st = Some (if ds = -1 then (k, d, d + 1, cr) else if de = d then (k, ds, de + 1, cr)
      else (k, d, d + 1, snd (cr_add_interval cr ds de)))"
    by (simp add: fold_char_def st seek Let_def d_def)
  consider "ds = -1" | "ds \<noteq> -1" "de = d" | "ds \<noteq> -1" "de \<noteq> d" by blast
  then have "fold_inv (insert d S) (Suc (unat c)) (if ds = -1 then (k, d, d + 1, cr) else if de = d then (k, ds, de + 1, cr)
      else (k, d, d + 1, snd (cr_add_interval cr ds de)))"
  proof cases
    case 1
    then show ?thesis using S pts d later u32_interval_snoc [of d]
      by (auto simp: fold_inv_def intro!: exI [of _ "[]"])
  next
    case 2
    then have "ds < de + 1" using S u32_interval_snoc(2) [OF d(1), of ds] by auto
    then show ?thesis using 2 S pts d later u32_interval_snoc(2) [OF d(1)]
      by (auto simp: fold_inv_def intro!: exI [of _ "is"])
  next
    case 3
    show ?thesis
    proof (cases rule: cr_add_interval_cases [of cr ds de])
      case (ok n)
      then show ?thesis using 3 S pts d later u32_interval_snoc [OF d(1)]
        by (auto simp: fold_inv_def intro!: exI [of _ "is @ [(ds, de)]"])
    qed (use pts in blast)
  qed
  then show ?thesis using run by (auto simp: d_def)
qed

lemma fold_interval_inv:
  assumes "fold_inv S (unat c) st" "c \<le> e"
    and "\<And>x. c \<le> x \<Longrightarrow> x < e \<Longrightarrow> in_intervals x (mask_intervals (fold_mask u))"
  shows "\<exists>st'. fold_interval u c e st = Some st' \<and>
    fold_inv (S \<union> (\<lambda>x. lre_canonicalize x u) ` {x. c \<le> x \<and> x < e}) (unat e) st'"
  using assms
proof (induction u c e st arbitrary: S rule: fold_interval.induct)
  case (1 u c e st)
  show ?case
  proof (cases "c < e")
    case True
    obtain k where k: "k < 378" "in_intervals c (entry_intervals (fold_mask u) (case_conv_table1 ! k))"
      using "1.prems"(3) [of c] True by (auto simp: in_mask_nth)
    then have cov: "entry_covers (case_conv_table1 ! k) c" by (intro entry_intervals_covers) simp_all
    obtain st1 where st1: "fold_char u c st = Some st1" and inv: "fold_inv (insert (lre_canonicalize c u) S) (unat (c + 1)) st1"
      using fold_char_step [OF "1.prems"(1) k(1) cov, of u] canonicalize_masked [OF k] True by (auto simp: u32_Suc)
    have le: "c + 1 \<le> e" and lt: "\<And>x. c + 1 \<le> x \<Longrightarrow> c \<le> x"
      using True u32_Suc [OF True] by (auto simp: word_le_nat_alt word_less_nat_alt)
    have split: "{x. c \<le> x \<and> x < e} = insert c {x. c + 1 \<le> x \<and> x < e}"
      using True u32_Suc [OF True] by (auto simp: word_le_nat_alt word_less_nat_alt word_unat_eq_iff)
    show ?thesis
      using "1.IH" [OF True st1 inv le] "1.prems"(3) lt st1 True
      by (simp add: fold_interval.simps [of u c e] split)
  next
    case False
    then have empty: "{x. c \<le> x \<and> x < e} = {}" and "e = c" using "1.prems"(2) by auto
    moreover have "fold_interval u c e st = Some st" using False by (subst fold_interval.simps) simp
    ultimately show ?thesis unfolding empty using "1.prems"(1) by simp
  qed
qed

lemma fold_intervals_inv:
  assumes "fold_inv S lo st" "lo \<le> 2 ^ 32" "sorted (unpairs is)" "\<forall>x \<in> set (unpairs is). lo \<le> unat x"
    and "\<And>x. in_intervals x is \<Longrightarrow> in_intervals x (mask_intervals (fold_mask u))"
  shows "\<exists>st' hi. fold_intervals u is st = Some st' \<and> hi \<le> 2 ^ 32 \<and>
    fold_inv (S \<union> (\<lambda>x. lre_canonicalize x u) ` {x. in_intervals x is}) hi st'"
  using assms
proof (induction "is" arbitrary: S lo st)
  case (Cons p "is")
  obtain a b where p: "p = (a, b)" by (cases p)
  have ab: "a \<le> b" "lo \<le> unat a" "sorted (unpairs is)"
    using Cons.prems(3,4) by (auto simp: p)
  have b: "\<forall>x \<in> set (unpairs is). unat b \<le> unat x"
    using Cons.prems(3) by (auto simp: p word_le_nat_alt)
  obtain st1 where st1: "fold_interval u a b st = Some st1"
    and inv: "fold_inv (S \<union> (\<lambda>x. lre_canonicalize x u) ` {x. a \<le> x \<and> x < b}) (unat b) st1"
    using fold_interval_inv [OF fold_inv_mono [OF Cons.prems(1) ab(2)] ab(1), of u] Cons.prems(5) by (auto simp: p)
  have "{x. in_intervals x (p # is)} = {x. a \<le> x \<and> x < b} \<union> {x. in_intervals x is}" by (auto simp: p)
  then show ?case
    using Cons.IH [OF inv _ ab(3) b] Cons.prems(5) st1 unsigned_less [where ?'a = nat, of b] by (simp add: p image_Un Un_assoc)
qed auto

lemma absorb_props:
  assumes "absorb e is = (e', is')" "start \<le> e" "sorted_wrt (\<lambda>p q. fst p \<le> fst q) is" "\<forall>p \<in> set is. start \<le> fst p"
  shows "e \<le> e' \<and> sorted_wrt (\<lambda>p q. fst p \<le> fst q) is' \<and> set is' \<subseteq> set is \<and> (\<forall>p \<in> set is'. e' < fst p)
    \<and> (\<forall>x. in_intervals x ((start, e) # is) \<longleftrightarrow> in_intervals x ((start, e') # is'))"
  using assms
proof (induction e "is" arbitrary: e' is' rule: absorb.induct)
  case (1 e start1 end1 "is")
  show ?case
  proof (cases "start1 > e")
    case True
    then have "\<forall>p \<in> set is. e < fst p" using 1(5) by (auto intro: order.strict_trans2)
    then show ?thesis using 1 True by auto
  next
    case False
    show ?thesis
    proof (cases "end1 \<le> e")
      case True
      have "e \<le> e' \<and> sorted_wrt (\<lambda>p q. fst p \<le> fst q) is' \<and> set is' \<subseteq> set is \<and> (\<forall>p \<in> set is'. e' < fst p)
        \<and> (\<forall>x. in_intervals x ((start, e) # is) \<longleftrightarrow> in_intervals x ((start, e') # is'))"
        using 1(1) [OF False True] 1(3-6) False True by simp
      moreover have "in_intervals x ((start, e) # (start1, end1) # is) = in_intervals x ((start, e) # is)" for x
        using True 1(6) by (auto dest: order.strict_trans2 order.trans)
      ultimately show ?thesis by auto
    next
      case F: False
      then have "start \<le> end1" using 1(4) by auto
      then have "end1 \<le> e' \<and> sorted_wrt (\<lambda>p q. fst p \<le> fst q) is' \<and> set is' \<subseteq> set is \<and> (\<forall>p \<in> set is'. e' < fst p)
        \<and> (\<forall>x. in_intervals x ((start, end1) # is) \<longleftrightarrow> in_intervals x ((start, e') # is'))"
        using 1(2) [OF False F] 1(3-6) False F by simp
      moreover have "in_intervals x ((start, e) # (start1, end1) # is) = in_intervals x ((start, end1) # is)" for x
        using False F 1(6) by auto
      ultimately show ?thesis using F by auto
    qed
  qed
qed auto

lemma merge_overlap_props:
  assumes "sorted_wrt (\<lambda>p q. fst p \<le> fst q) is" "\<forall>(a, b) \<in> set is. a \<le> b"
  shows "sorted (unpairs (merge_overlap is)) \<and> set (map fst (merge_overlap is)) \<subseteq> set (map fst is)
    \<and> (\<forall>x. in_intervals x (merge_overlap is) \<longleftrightarrow> in_intervals x is)"
  using assms
proof (induction "is" rule: merge_overlap.induct)
  case (2 start e "is")
  obtain e' is' where ab: "absorb e is = (e', is')" by (cases "absorb e is")
  have p: "e \<le> e'" "sorted_wrt (\<lambda>p q. fst p \<le> fst q) is'" "set is' \<subseteq> set is" "\<forall>p \<in> set is'. e' < fst p"
     "\<And>x. in_intervals x ((start, e) # is) \<longleftrightarrow> in_intervals x ((start, e') # is')"
    using absorb_props [OF ab, of start] 2(2,3) by auto
  have IH: "sorted (unpairs (merge_overlap is'))" "set (map fst (merge_overlap is')) \<subseteq> set (map fst is')"
     "\<And>x. in_intervals x (merge_overlap is') \<longleftrightarrow> in_intervals x is'"
  proof -
    have "\<forall>(a, b) \<in> set is'. a \<le> b" using p(3) 2(3) by auto
    from 2(1) [OF ab [symmetric] p(2) this] show "sorted (unpairs (merge_overlap is'))"
      "set (map fst (merge_overlap is')) \<subseteq> set (map fst is')" "\<And>x. in_intervals x (merge_overlap is') \<longleftrightarrow> in_intervals x is'"
      by blast+
  qed
  have "\<forall>x \<in> set (unpairs js). e' \<le> x" if "sorted (unpairs js)" "\<forall>a \<in> set (map fst js). e' < a" for js
  proof (cases js)
    case (Cons p js')
    obtain a b where p: "p = (a, b)" by (cases p)
    have "e' \<le> a" "\<forall>x \<in> set (unpairs js). a \<le> x" using that by (auto simp: Cons p intro: less_imp_le)
    then show ?thesis by (auto intro: order.trans)
  qed simp
  then have "\<forall>x \<in> set (unpairs (merge_overlap is')). e' \<le> x" using IH p(4) by force
  moreover have "start \<le> e'" using 2(3) p(1) by auto
  moreover have "set (map fst (merge_overlap is')) \<subseteq> set (map fst is)" using IH(2) p(3) by auto
  ultimately show ?case using IH(1,3) p(5) by (auto simp: ab)
qed simp

interpretation point: comparison point_cmp
  by unfold_locales (auto simp: point_cmp_def split: if_splits)

lemma cr_sort_and_remove_overlap_props:
  assumes "length (cr_points cr) < 2 ^ 52" "\<forall>(a, b) \<in> set (pairs (cr_points cr)). a \<le> b"
  shows "\<exists>cr'. cr_sort_and_remove_overlap cr = Some cr' \<and> cr_wf (cr_points cr')
    \<and> (\<forall>x. cr_mem (cr_points cr') x \<longleftrightarrow> in_intervals x (pairs (cr_points cr)))"
proof -
  have "length (pairs pts) \<le> length pts" for pts by (induction pts rule: pairs.induct) auto
  then have "length (pairs (cr_points cr)) < 2 ^ 52" using assms(1) by (rule order.strict_trans1)
  then obtain js where js: "rqsort point_cmp (pairs (cr_points cr)) = Some js" "mset js = mset (pairs (cr_points cr))"
    using rqsort_permutes by blast
  have "sorted_wrt (\<lambda>p q. point_cmp p q \<le> 0) js"
    by (rule rqsort_sorted [OF point.comparison_axioms js(1)])
  then have "sorted_wrt (\<lambda>p q. fst p \<le> fst q) js"
    by (rule sorted_wrt_mono_rel [rotated]) (auto simp: point_cmp_def split: if_splits)
  moreover have "set js = set (pairs (cr_points cr))" using js(2) by (metis set_mset_mset)
  ultimately show ?thesis
    using merge_overlap_props [of js] assms(2) js
    by (auto simp: cr_sort_and_remove_overlap_def cr_wf_def cr_mem_unpairs in_intervals_def)
qed


lemma fold_inv_final:
  assumes "fold_inv S hi (idx, d_start, d_end, cr)" "hi \<le> 2 ^ 32"
  shows "\<exists>cr'. (if d_start \<noteq> -1 then cr_add_interval cr d_start d_end else (0, cr)) = (0, cr') \<and>
     length (cr_points cr') < 2 ^ 52 \<and> (\<forall>(a, b) \<in> set (pairs (cr_points cr')). a \<le> b) \<and>
     (\<forall>x. in_intervals x (pairs (cr_points cr')) \<longleftrightarrow> x \<in> S)"
proof -
  have len: "length (unpairs is) = 2 * length is" for "is" :: "(u32 \<times> u32) list"
    by (induction "is") auto
  obtain "is" where pts: "cr_points cr = unpairs is" "length is \<le> hi" "\<forall>(a, b) \<in> set is. a < b" "\<forall>n. cr_realloc_func cr n"
    and S: "if d_start = -1 then is = [] \<and> S = {} else d_start < d_end \<and> (\<forall>x. in_intervals x (is @ [(d_start, d_end)]) \<longleftrightarrow> x \<in> S)"
    using assms(1) by (auto simp: fold_inv_def)
  show ?thesis
  proof (cases "d_start = -1")
    case True
    then show ?thesis using S pts by simp
  next
    case False
    show ?thesis
    proof (cases rule: cr_add_interval_cases [of cr d_start d_end])
      case (ok n)
      have "cr_points cr @ [d_start, d_end] = unpairs (is @ [(d_start, d_end)])" by (simp add: pts)
      then show ?thesis using ok False S pts assms(2)
        by (auto simp: len less_imp_le simp del: unpairs_simps(3))
    qed (use pts in blast)
  qed
qed

text \<open>C6: canonicalizing a set.
When no allocation fails, \<open>cr_regexp_canonicalize\<close> returns 0 (its assertion never fails and its
sort never overruns) and leaves the canonical vector of exactly the canonical forms,
by \<open>lre_canonicalize\<close>, of the members of the set: what the two passes over the case table,
the merging of adjacent results and the sort compute is the image of the set.\<close>

theorem cr_regexp_canonicalize_is_image:
  assumes alloc: "\<And>n. cr_realloc_func cr n" and wf: "cr_wf (cr_points cr)"
  shows "\<exists>cr'. cr_regexp_canonicalize cr u = Some (0, cr') \<and> cr_canonical (cr_points cr')
    \<and> cr_set (cr_points cr') = (\<lambda>c. lre_canonicalize c u) ` cr_set (cr_points cr)"
proof -
  let ?empty = "cr_init (cr_realloc_func cr)" and ?m = "fold_mask u"
  let ?f = "\<lambda>c. lre_canonicalize c u"
  have e: "cr_points ?empty = []" "\<And>n. cr_realloc_func ?empty n" using alloc by (simp_all add: cr_init_def)
  obtain mask where mask: "unicode_case1 ?empty ?m = (0, mask)" "cr_points mask = unpairs (mask_intervals ?m)" "\<And>n. cr_realloc_func mask n"
    using unicode_case1_cases [of ?empty ?m] e by (cases "unicode_case1 ?empty ?m") auto
  have wfm: "cr_wf (cr_points mask)" by (simp add: mask cr_wf_def mask_intervals_sorted)
  have memm: "cr_mem (cr_points mask) c \<longleftrightarrow> in_intervals c (mask_intervals ?m)" for c
    by (simp add: mask cr_mem_unpairs mask_intervals_sorted)
  obtain inter where inter: "cr_op ?empty (cr_points mask) (cr_points cr) CR_OP_INTER = (0, inter)"
    using cr_op_alloc_ok [OF e(2)] by blast
  note inter_p = cr_op_props [OF inter e(1) wfm wf]
  obtain mask' where mask': "cr_invert mask = (0, mask')"
    by (rule cr_realloc_cases [of mask "cr_len mask + 2"])
      (use mask(3) in \<open>auto simp: cr_invert_def cr_realloc_def Let_def split: if_splits\<close>)
  note mask'_p = cr_invert_props [OF mask' wfm]
  obtain sub where sub: "cr_op ?empty (cr_points mask') (cr_points cr) CR_OP_INTER = (0, sub)"
    using cr_op_alloc_ok [OF e(2)] by blast
  note sub_p = cr_op_props [OF sub e(1) cr_canonical_wf [OF mask'_p [THEN conjunct1]] wf]
  have wfi: "cr_wf (cr_points inter)" using inter_p cr_canonical_wf by blast
  have pi: "unpairs (pairs (cr_points inter)) = cr_points inter" "sorted (cr_points inter)"
    using wfi by (simp_all add: unpairs_pairs cr_wf_def)
  have memi: "in_intervals x (pairs (cr_points inter)) \<longleftrightarrow> in_intervals x (mask_intervals ?m) \<and> cr_mem (cr_points cr) x" for x
    using cr_mem_unpairs [of "pairs (cr_points inter)" x] pi inter_p memm by (simp add: op_is_in_def)
  have "fold_inv {} 0 (0, -1, -1, ?empty)" using e by (auto simp: fold_inv_def intro!: exI [of _ "[]"])
  then obtain st hi where fold: "fold_intervals u (pairs (cr_points inter)) (0, -1, -1, ?empty) = Some st" "hi \<le> 2 ^ 32"
      "fold_inv ({} \<union> ?f ` {x. in_intervals x (pairs (cr_points inter))}) hi st"
    using fold_intervals_inv [of "{}" 0 _ "pairs (cr_points inter)" u] pi memi by fastforce
  obtain idx ds de res where st: "st = (idx, ds, de, res)" by (cases st)
  obtain res' where res': "(if ds \<noteq> -1 then cr_add_interval res ds de else (0, res)) = (0, res')"
      "length (cr_points res') < 2 ^ 52" "\<forall>(a, b) \<in> set (pairs (cr_points res')). a \<le> b"
      "\<And>x. in_intervals x (pairs (cr_points res')) \<longleftrightarrow> x \<in> ?f ` {x. in_intervals x (pairs (cr_points inter))}"
    using fold_inv_final [OF fold(3) [unfolded st] fold(2)] by auto
  obtain srt where srt: "cr_sort_and_remove_overlap res' = Some srt" "cr_wf (cr_points srt)"
      "\<And>x. cr_mem (cr_points srt) x \<longleftrightarrow> in_intervals x (pairs (cr_points res'))"
    using cr_sort_and_remove_overlap_props [OF res'(2,3)] by blast
  obtain cr' where cr': "cr_op (cr\<lparr>cr_points := []\<rparr>) (cr_points srt) (cr_points sub) CR_OP_UNION = (0, cr')"
    using cr_op_alloc_ok [of "cr\<lparr>cr_points := []\<rparr>" "cr_points srt" "cr_points sub" CR_OP_UNION] alloc by auto
  note cr'_p = cr_op_props [OF cr' _ srt(2) cr_canonical_wf [OF sub_p [THEN conjunct1]]]
  have "cr_regexp_canonicalize cr u = Some (0, cr')"
    by (simp add: cr_regexp_canonicalize_def Let_def mask(1) inter mask' sub fold(1) st res'(1) srt(1) cr')
  moreover have "cr_canonical (cr_points cr')" using cr'_p by simp
  moreover have "cr_set (cr_points cr') = ?f ` cr_set (cr_points cr)"
  proof -
    have max: "\<not> cr_mem (cr_points cr) 0xFFFFFFFF"
      using wf count_le_all [of "cr_points cr" "0xFFFFFFFF"] u32_le_max by (simp add: cr_mem_def cr_wf_def)
    have "cr_mem (cr_points cr') x \<longleftrightarrow> x \<in> ?f ` {x. in_intervals x (mask_intervals ?m) \<and> cr_mem (cr_points cr) x}
        \<or> \<not> in_intervals x (mask_intervals ?m) \<and> cr_mem (cr_points cr) x" for x
      using cr'_p sub_p mask'_p max srt(3) res'(4) by (auto simp: op_is_in_def memi memm)
    then show ?thesis using canonicalize_unmasked [of _ u] by (auto simp: cr_set_def image_iff) metis+
  qed
  ultimately show ?thesis by blast
qed

theorem cr_regexp_canonicalize_is_image_witness:
  "\<exists>cr'. cr_regexp_canonicalize (cr_init (\<lambda>n. True)\<lparr>cr_points := [0x41, 0x44]\<rparr>) True = Some (0, cr')
    \<and> cr_mem (cr_points cr') 0x61 \<and> \<not> cr_mem (cr_points cr') 0x41"
proof -
  let ?cr = "cr_init (\<lambda>n. True)\<lparr>cr_points := [0x41, 0x44]\<rparr>"
  have members: "cr_set [0x41, 0x44] = {c. 0x41 \<le> c \<and> c < 0x44}" using cr_mem_Cons2 [of "0x41" "0x44" "[]"] by (auto simp: cr_set_def) (simp_all add: cr_mem_def)
  have "\<And>n. cr_realloc_func ?cr n" "cr_wf (cr_points ?cr)" by (simp_all add: cr_init_def cr_wf_def)
  from cr_regexp_canonicalize_is_image [OF this, of True]
  obtain cr' where cr': "cr_regexp_canonicalize ?cr True = Some (0, cr')"
    and set': "cr_set (cr_points cr') = (\<lambda>c. lre_canonicalize c True) ` cr_set [0x41, 0x44]" by auto
  have A: "lre_canonicalize 0x41 True = 0x61" by (simp add: lre_canonicalize_def ascii_lower_def)
  have ge: "x \<ge> 0x61" if "0x41 \<le> c" "c < 0x44" "x = lre_canonicalize c True" for c x
  proof -
    have "unat c = 0x41 \<or> unat c = 0x42 \<or> unat c = 0x43" using that(1,2) by (auto simp: word_le_nat_alt word_less_nat_alt)
    then have "c = 0x41 \<or> c = 0x42 \<or> c = 0x43" by (auto simp: word_unat_eq_iff)
    then show ?thesis using that(3) by (auto simp: lre_canonicalize_def ascii_lower_def)
  qed
  have "0x61 \<in> cr_set (cr_points cr')" unfolding set' members using A by (intro image_eqI [of _ _ "0x41"]) simp_all
  moreover have "0x41 \<notin> cr_set (cr_points cr')" unfolding set' members using ge [of _ "0x41"] by auto
  ultimately show ?thesis using cr' by (auto simp: cr_set_def)
qed
end
