(* ===== verification/UnicodeProps.thy ===== *)
theory UnicodeProps
  imports UnicodeTables CharRangeFold "HOL-Library.Monad_Syntax"
begin

text \<open>
  The Unicode properties of \<open>libregexp/libunicode.c\<close>: the indexed lookup behind
  \<open>lre_is_id_start\<close> and its relatives, the run-length decoders \<open>unicode_prop1\<close>,
  \<open>unicode_general_category1\<close> and \<open>unicode_script\<close>, the stack programs of
  \<open>unicode_prop_ops\<close> and the emoji sequences. A read behind the end of a table, a failed
  assertion and a write behind the end of a local array are \<open>None\<close>.
\<close>

subsection \<open>Lookup through an index\<close>

definition get_le24 :: "u8 list \<Rightarrow> nat \<Rightarrow> u32" where
  "get_le24 t i = ucast (rd t i) OR push_bit 8 (ucast (rd t (i + 1))) OR push_bit 16 (ucast (rd t (i + 2)))"

definition index_code :: "u8 list \<Rightarrow> nat \<Rightarrow> u32" where
  "index_code t idx = get_le24 t (idx * 3) AND (push_bit 21 1 - 1)"

function index_search :: "u8 list \<Rightarrow> u32 \<Rightarrow> nat \<Rightarrow> nat \<Rightarrow> nat" where
  "index_search t c idx_min idx_max =
     (if idx_max - idx_min > 1 then
        let idx = (idx_max + idx_min) div 2 in
        if c < index_code t idx then index_search t c idx_min idx else index_search t c idx idx_max
      else idx_min)"
  by pat_completeness auto
termination
  by (relation "measure (\<lambda>(t, c, lo, hi). hi - lo)") auto

declare index_search.simps [simp del]

text \<open>The code point and the offset the scan starts with; \<open>None\<close> is the result -1.\<close>

definition get_index_pos :: "u32 \<Rightarrow> u8 list \<Rightarrow> nat \<Rightarrow> (u32 \<times> nat) option" where
  "get_index_pos c index_table index_table_len =
     (if c < index_code index_table 0 then Some (0, 0)
      else if c \<ge> get_le24 index_table ((index_table_len - 1) * 3) then None
      else
        let idx_min = index_search index_table c 0 (index_table_len - 1);
            v = get_le24 index_table (idx_min * 3)
        in Some (v AND (push_bit 21 1 - 1), (idx_min + 1) * 32 + unat (drop_bit 21 v)))"

text \<open>The longer runs of a property table: the number of code points less one, and the rest.\<close>

fun prop_long_run :: "u32 \<Rightarrow> u8 list \<Rightarrow> (u32 \<times> u8 list) option" where
  "prop_long_run b p =
     (if b \<ge> 0x80 then Some (b - 0x80, p)
      else if b < 0x60 then
        (case p of p0 # p' \<Rightarrow> Some (push_bit 8 (b - 0x40) OR ucast p0, p') | _ \<Rightarrow> None)
      else
        (case p of p0 # p1 # p' \<Rightarrow> Some (push_bit 16 (b - 0x60) OR push_bit 8 (ucast p0) OR ucast p1, p')
         | _ \<Rightarrow> None))"

lemma prop_long_run_length: "prop_long_run b p = Some (n, p') \<Longrightarrow> length p' \<le> length p"
  by (auto split: if_splits list.splits)

declare prop_long_run.simps [simp del]

function table_scan :: "u32 \<Rightarrow> u32 \<Rightarrow> bool \<Rightarrow> u8 list \<Rightarrow> bool option" where
  "table_scan c code inside [] = None"
| "table_scan c code inside (b # p) =
     (let b = ucast b in
      if b < 64 then
        let code = code + (drop_bit 3 b + 1) in
        if c < code then Some inside
        else
          let code = code + ((b AND 7) + 1) in
          if c < code then Some (\<not> inside) else table_scan c code inside p
      else
        case prop_long_run b p of
          None \<Rightarrow> None
        | Some (n, p') \<Rightarrow>
            let code = code + (n + 1) in
            if c < code then Some inside else table_scan c code (\<not> inside) p')"
  by pat_completeness auto
termination
  by (relation "measure (\<lambda>(c, code, inside, p). length p)")
    (auto simp: less_Suc_eq_le dest: prop_long_run_length)

definition lre_is_in_table :: "u32 \<Rightarrow> u8 list \<Rightarrow> u8 list \<Rightarrow> nat \<Rightarrow> bool option" where
  "lre_is_in_table c table index_table index_table_len =
     (case get_index_pos c index_table index_table_len of
        None \<Rightarrow> Some False
      | Some (code, pos) \<Rightarrow> if pos \<le> length table then table_scan c code False (drop pos table) else None)"

definition lre_is_cased :: "u32 \<Rightarrow> bool option" where
  "lre_is_cased c =
     (if case_search c \<noteq> None then Some True
      else lre_is_in_table c unicode_prop_Cased1_table unicode_prop_Cased1_index
             (length unicode_prop_Cased1_index div 3))"

definition lre_is_case_ignorable :: "u32 \<Rightarrow> bool option" where
  "lre_is_case_ignorable c =
     lre_is_in_table c unicode_prop_Case_Ignorable_table unicode_prop_Case_Ignorable_index
       (length unicode_prop_Case_Ignorable_index div 3)"

definition lre_is_id_start :: "u32 \<Rightarrow> bool option" where
  "lre_is_id_start c =
     lre_is_in_table c unicode_prop_ID_Start_table unicode_prop_ID_Start_index
       (length unicode_prop_ID_Start_index div 3)"

definition lre_is_id_continue :: "u32 \<Rightarrow> bool option" where
  "lre_is_id_continue c =
     (case lre_is_id_start c of
        Some False \<Rightarrow>
          lre_is_in_table c unicode_prop_ID_Continue1_table unicode_prop_ID_Continue1_index
            (length unicode_prop_ID_Continue1_index div 3)
      | r \<Rightarrow> r)"

definition lre_is_white_space :: "u32 \<Rightarrow> bool option" where
  "lre_is_white_space c =
     lre_is_in_table c unicode_prop_White_Space_table unicode_prop_White_Space_index
       (length unicode_prop_White_Space_index div 3)"

subsection \<open>Decoding a property\<close>

text \<open>A run is added when \<open>inside\<close> (\<open>bit\<close> in the source) is set.\<close>

definition add_if :: "bool \<Rightarrow> char_range \<Rightarrow> u32 \<Rightarrow> u32 \<Rightarrow> int \<times> char_range" where
  "add_if inside cr c0 c = (if inside then cr_add_interval cr c0 c else (0, cr))"

function prop1_loop :: "u32 \<Rightarrow> bool \<Rightarrow> u8 list \<Rightarrow> char_range \<Rightarrow> (int \<times> char_range) option" where
  "prop1_loop c inside [] cr = Some (0, cr)"
| "prop1_loop c inside (b # p) cr =
     (let b = ucast b in
      if b < 64 then
        let c1 = c + (drop_bit 3 b + 1); c2 = c1 + ((b AND 7) + 1) in
        case add_if inside cr c c1 of (ret, cr1) \<Rightarrow>
        if ret \<noteq> 0 then Some (-1, cr1) else
        (case add_if (\<not> inside) cr1 c1 c2 of (ret, cr2) \<Rightarrow>
         if ret \<noteq> 0 then Some (-1, cr2) else prop1_loop c2 inside p cr2)
      else
        case prop_long_run b p of
          None \<Rightarrow> None
        | Some (n, p') \<Rightarrow>
            let c1 = c + (n + 1) in
            case add_if inside cr c c1 of (ret, cr1) \<Rightarrow>
            if ret \<noteq> 0 then Some (-1, cr1) else prop1_loop c1 (\<not> inside) p' cr1)"
  by pat_completeness auto
termination
  by (relation "measure (\<lambda>(c, inside, p, cr). length p)")
    (auto simp: less_Suc_eq_le dest: prop_long_run_length)

definition unicode_prop1 :: "char_range \<Rightarrow> nat \<Rightarrow> (int \<times> char_range) option" where
  "unicode_prop1 cr prop_idx =
     (if prop_idx < length unicode_prop_table
      then prop1_loop 0 False (unicode_prop_table ! prop_idx) cr else None)"

subsection \<open>General categories\<close>

text \<open>The head of a run: its length less one, its category, and the rest of the table.\<close>

fun gc_run :: "u8 \<Rightarrow> u8 list \<Rightarrow> (u32 \<times> u32 \<times> u8 list) option" where
  "gc_run b p =
     (let n = drop_bit 5 (ucast b) :: u32; v = ucast b AND 0x1f :: u32 in
      if n \<noteq> 7 then Some (n, v, p)
      else case p of
        p0 # p' \<Rightarrow>
          (let n = ucast p0 :: u32 in
           if n < 128 then Some (n + 7, v, p')
           else if n < 128 + 64 then
             (case p' of p1 # p'' \<Rightarrow> Some ((push_bit 8 (n - 128) OR ucast p1) + (7 + 128), v, p'') | _ \<Rightarrow> None)
           else
             (case p' of
                p1 # p2 # p'' \<Rightarrow>
                  Some ((push_bit 16 (n - 128 - 64) OR push_bit 8 (ucast p1) OR ucast p2)
                        + (7 + 128 + push_bit 14 1), v, p'')
              | _ \<Rightarrow> None))
      | _ \<Rightarrow> None)"

lemma gc_run_length: "gc_run b p = Some (n, v, p') \<Longrightarrow> length p' \<le> length p"
  by (auto simp: Let_def split: if_splits list.splits)

declare gc_run.simps [simp del]

text \<open>Every other code point of a run in which upper and lower case alternate.\<close>

definition add_alternate :: "char_range \<Rightarrow> u32 \<Rightarrow> u32 \<Rightarrow> int \<times> char_range" where
  "add_alternate cr c0 c =
     add_intervals (map (\<lambda>k. (c0 + 2 * of_nat k, c0 + 2 * of_nat k + 1)) [0..<(unat c - unat c0 + 1) div 2]) cr"

abbreviation (input) "GC_Lu \<equiv> (2 :: u32)"
abbreviation (input) "GC_Ll \<equiv> (4 :: u32)"

function gc1_loop :: "u32 \<Rightarrow> u32 \<Rightarrow> u8 list \<Rightarrow> char_range \<Rightarrow> (int \<times> char_range) option" where
  "gc1_loop gc_mask c [] cr = Some (0, cr)"
| "gc1_loop gc_mask c (b # p) cr =
     (case gc_run b p of
        None \<Rightarrow> None
      | Some (n, v, p') \<Rightarrow>
          let c1 = c + (n + 1); b = gc_mask AND (GC_Lu OR GC_Ll) in
          case (if v = 31 then
                  if b = 0 then (0, cr)
                  else if b = GC_Lu OR GC_Ll then cr_add_interval cr c c1
                  else add_alternate cr (c + (if gc_mask AND GC_Ll \<noteq> 0 then 1 else 0)) c1
                else if drop_bit (unat v) gc_mask AND 1 \<noteq> 0 then cr_add_interval cr c c1
                else (0, cr))
          of (ret, cr') \<Rightarrow> if ret \<noteq> 0 then Some (-1, cr') else gc1_loop gc_mask c1 p' cr')"
  by pat_completeness auto
termination
  by (relation "measure (\<lambda>(m, c, p, cr). length p)") (auto simp: less_Suc_eq_le dest: gc_run_length)

definition unicode_general_category1 :: "char_range \<Rightarrow> u32 \<Rightarrow> (int \<times> char_range) option" where
  "unicode_general_category1 cr gc_mask = gc1_loop gc_mask 0 unicode_gc_table cr"

subsection \<open>Names\<close>

function name_in_entry :: "string \<Rightarrow> string \<Rightarrow> bool" where
  "name_in_entry p name \<longleftrightarrow>
     takeWhile (\<lambda>x. x \<noteq> CHR '','') p = name
     \<or> (case dropWhile (\<lambda>x. x \<noteq> CHR '','') p of [] \<Rightarrow> False | _ # p' \<Rightarrow> name_in_entry p' name)"
  by pat_completeness auto
termination
  by (relation "measure (length \<circ> fst)")
    (auto, metis Suc_le_lessD length_Cons length_dropWhile_le)

declare name_in_entry.simps [simp del]

fun find_name :: "string list \<Rightarrow> string \<Rightarrow> nat \<Rightarrow> int" where
  "find_name [] name pos = -1"
| "find_name (p # t) name pos = (if name_in_entry p name then int pos else find_name t name (pos + 1))"

definition unicode_find_name :: "string list \<Rightarrow> string \<Rightarrow> int" where
  "unicode_find_name name_table name = find_name name_table name 0"

text \<open>The masks \<open>M(a) | M(b) | ...\<close> of category numbers.\<close>

definition gc_bits :: "nat list \<Rightarrow> u32" where
  "gc_bits ids = foldr (\<lambda>i m. push_bit i 1 OR m) ids 0"

definition unicode_gc_mask_table :: "u32 list" where
  "unicode_gc_mask_table =
     [gc_bits [1, 2, 3], gc_bits [1, 2, 3, 4, 5], gc_bits [6, 7, 8], gc_bits [9, 10, 11],
      gc_bits [12, 13, 14, 15], gc_bits [16, 17, 18, 19, 20, 21, 22], gc_bits [23, 24, 25],
      gc_bits [26, 27, 28, 29, 0]]"

definition unicode_general_category :: "char_range \<Rightarrow> string \<Rightarrow> (int \<times> char_range) option" where
  "unicode_general_category cr gc_name =
     (let gc_idx = unicode_find_name unicode_gc_name_table gc_name in
      if gc_idx < 0 then Some (-2, cr)
      else unicode_general_category1 cr
        (if gc_idx \<le> 29 then push_bit (nat gc_idx) 1 else unicode_gc_mask_table ! (nat gc_idx - 30)))"

subsection \<open>Scripts\<close>

text \<open>The head of a run: its type, its length less one, its script, and the rest of the table.\<close>

fun script_run :: "u8 \<Rightarrow> u8 list \<Rightarrow> (u32 \<times> u32 \<times> u32 \<times> u8 list) option" where
  "script_run b p =
     (let typ = drop_bit 7 (ucast b) :: u32; n = ucast b AND 0x7f :: u32 in
      case (if n < 96 then Some (n, p)
            else if n < 112 then
              (case p of p0 # p' \<Rightarrow> Some ((push_bit 8 (n - 96) OR ucast p0) + 96, p') | _ \<Rightarrow> None)
            else
              (case p of
                 p0 # p1 # p' \<Rightarrow>
                   Some ((push_bit 16 (n - 112) OR push_bit 8 (ucast p0) OR ucast p1) + (96 + push_bit 12 1), p')
               | _ \<Rightarrow> None))
      of None \<Rightarrow> None
       | Some (n, p') \<Rightarrow>
           if typ = 0 then Some (typ, n, 0, p')
           else (case p' of v # p'' \<Rightarrow> Some (typ, n, ucast v, p'') | _ \<Rightarrow> None))"

lemma script_run_length: "script_run b p = Some (t, n, v, p') \<Longrightarrow> length p' \<le> length p"
  by (auto simp: Let_def split: if_splits list.splits option.splits prod.splits)

declare script_run.simps [simp del]

function script_loop :: "u32 \<Rightarrow> u32 \<Rightarrow> u8 list \<Rightarrow> char_range \<Rightarrow> (int \<times> char_range) option" where
  "script_loop script_idx c [] cr = Some (0, cr)"
| "script_loop script_idx c (b # p) cr =
     (case script_run b p of
        None \<Rightarrow> None
      | Some (typ, n, v, p') \<Rightarrow>
          let c1 = c + n + 1 in
          case add_if (typ \<noteq> 0 \<and> (v = script_idx \<or> script_idx = 0)) cr c c1 of (ret, cr') \<Rightarrow>
          if ret \<noteq> 0 then Some (-1, cr') else script_loop script_idx c1 p' cr')"
  by pat_completeness auto
termination
  by (relation "measure (\<lambda>(m, c, p, cr). length p)") (auto simp: less_Suc_eq_le dest: script_run_length)

text \<open>The head of a run of script extensions: its length less one, the scripts, and the rest.\<close>

fun script_ext_run :: "u8 \<Rightarrow> u8 list \<Rightarrow> (u32 \<times> u8 list \<times> u8 list) option" where
  "script_ext_run b p =
     (let b = ucast b :: u32 in
      case (if b < 128 then Some (b, p)
            else if b < 128 + 64 then
              (case p of p0 # p' \<Rightarrow> Some ((push_bit 8 (b - 128) OR ucast p0) + 128, p') | _ \<Rightarrow> None)
            else
              (case p of
                 p0 # p1 # p' \<Rightarrow>
                   Some ((push_bit 16 (b - 128 - 64) OR push_bit 8 (ucast p0) OR ucast p1) + (128 + push_bit 14 1), p')
               | _ \<Rightarrow> None))
      of Some (n, v_len # p') \<Rightarrow>
           if unat v_len \<le> length p' then Some (n, take (unat v_len) p', drop (unat v_len) p') else None
       | _ \<Rightarrow> None)"

lemma script_ext_run_length: "script_ext_run b p = Some (n, vs, p') \<Longrightarrow> length p' \<le> length p"
  by (auto simp: Let_def split: if_splits list.splits option.splits prod.splits)

declare script_ext_run.simps [simp del]

function script_ext_loop :: "u32 \<Rightarrow> bool \<Rightarrow> u32 \<Rightarrow> u8 list \<Rightarrow> char_range \<Rightarrow> (int \<times> char_range) option" where
  "script_ext_loop script_idx is_common c [] cr2 = Some (0, cr2)"
| "script_ext_loop script_idx is_common c (b # p) cr2 =
     (case script_ext_run b p of
        None \<Rightarrow> None
      | Some (n, vs, p') \<Rightarrow>
          let c1 = c + n + 1 in
          case add_if (if is_common then vs \<noteq> [] else script_idx \<in> ucast ` set vs) cr2 c c1 of (ret, cr') \<Rightarrow>
          if ret \<noteq> 0 then Some (-1, cr') else script_ext_loop script_idx is_common c1 p' cr')"
  by pat_completeness auto
termination
  by (relation "measure (\<lambda>(m, i, c, p, cr). length p)") (auto simp: less_Suc_eq_le dest: script_ext_run_length)

text \<open>
  At \<open>fail\<close> the function frees its vectors and then jumps to \<open>fail\<close> again: it does not return
  (and frees the vectors a second time when \<open>is_ext\<close> is set). That is \<open>Never_returns\<close>.
\<close>

datatype 'a outcome = Returns 'a | Never_returns | Undefined

definition run_or_hang :: "(int \<times> char_range) option \<Rightarrow> (char_range \<Rightarrow> 'a outcome) \<Rightarrow> 'a outcome" where
  "run_or_hang r k =
     (case r of None \<Rightarrow> Undefined | Some (ret, cr) \<Rightarrow> if ret \<noteq> 0 then Never_returns else k cr)"

definition script_index :: "string \<Rightarrow> int" where
  "script_index script_name =
     (if script_name = ''Unknown'' \<or> script_name = ''Zzzz'' then 0
      else let i = unicode_find_name unicode_script_name_table script_name
           in if i < 0 then -2 else i + 1)"

definition unicode_script :: "char_range \<Rightarrow> string \<Rightarrow> bool \<Rightarrow> (int \<times> char_range) outcome" where
  "unicode_script cr script_name is_ext =
     (let script_idx = script_index script_name in
      if script_idx < 0 then Returns (-2, cr) else
      let idx = of_int script_idx;
          is_common = script_idx = 26 \<or> script_idx = 59;
          empty = cr_init (cr_realloc_func cr)
      in run_or_hang (script_loop idx 0 unicode_script_table (if is_ext then empty else cr)) (\<lambda>cr1.
         run_or_hang (Some (if idx = 0 then cr_invert cr1 else (0, cr1))) (\<lambda>cr1.
         if \<not> is_ext then Returns (0, cr1)
         else run_or_hang (script_ext_loop idx is_common 0 unicode_script_ext_table empty) (\<lambda>cr2.
           if is_common then
             run_or_hang (Some (cr_invert cr2)) (\<lambda>cr2.
             run_or_hang (Some (cr_op cr (cr_points cr1) (cr_points cr2) CR_OP_INTER)) (\<lambda>cr. Returns (0, cr)))
           else
             run_or_hang (Some (cr_op cr (cr_points cr1) (cr_points cr2) CR_OP_UNION)) (\<lambda>cr. Returns (0, cr))))))"

subsection \<open>Properties composed of others\<close>

datatype prop_op =
    POP_GC u32 | POP_PROP nat | POP_CASE u32 | POP_UNION | POP_INTER | POP_XOR | POP_INVERT | POP_END

fun set_op_of :: "prop_op \<Rightarrow> char_range_op option" where
  "set_op_of POP_UNION = Some CR_OP_UNION"
| "set_op_of POP_INTER = Some CR_OP_INTER"
| "set_op_of POP_XOR = Some CR_OP_XOR"
| "set_op_of _ = None"

text \<open>
  The instructions that push a set, and the stack machine: the top of the stack is the head
  of the list. A failed assertion, and running past the last argument, is \<open>None\<close>.
\<close>

definition prop_operand :: "realloc_func \<Rightarrow> prop_op \<Rightarrow> (int \<times> char_range) option" where
  "prop_operand ra op =
     (case op of
        POP_GC a \<Rightarrow> unicode_general_category1 (cr_init ra) a
      | POP_PROP a \<Rightarrow> unicode_prop1 (cr_init ra) a
      | POP_CASE a \<Rightarrow> Some (unicode_case1 (cr_init ra) a)
      | _ \<Rightarrow> None)"

fun prop_ops_loop :: "char_range \<Rightarrow> prop_op list \<Rightarrow> char_range list \<Rightarrow> (int \<times> char_range) option" where
  "prop_ops_loop cr [] stack = None"
| "prop_ops_loop cr (POP_END # ops) stack =
     (case stack of [t] \<Rightarrow> Some (cr_copy cr t) | _ \<Rightarrow> None)"
| "prop_ops_loop cr (POP_INVERT # ops) stack =
     (case stack of
        t # rest \<Rightarrow>
          (case cr_invert t of
             (ret, t') \<Rightarrow> if ret \<noteq> 0 then Some (-1, cr) else prop_ops_loop cr ops (t' # rest))
      | [] \<Rightarrow> None)"
| "prop_ops_loop cr (op # ops) stack =
     (if length stack \<ge> 4 then None else
      case set_op_of op of
        Some sop \<Rightarrow>
          (case stack of
             cr2 # cr1 # rest \<Rightarrow>
               (case cr_op (cr_init (cr_realloc_func cr)) (cr_points cr1) (cr_points cr2) sop of
                  (ret, cr3) \<Rightarrow> if ret \<noteq> 0 then Some (-1, cr) else prop_ops_loop cr ops (cr3 # rest))
           | _ \<Rightarrow> None)
      | None \<Rightarrow>
          (case prop_operand (cr_realloc_func cr) op of
             None \<Rightarrow> None
           | Some (ret, t) \<Rightarrow> if ret \<noteq> 0 then Some (-1, cr) else prop_ops_loop cr ops (t # stack)))"

definition unicode_prop_ops :: "char_range \<Rightarrow> prop_op list \<Rightarrow> (int \<times> char_range) option" where
  "unicode_prop_ops cr ops = prop_ops_loop cr ops []"

text \<open>The numbers of the properties that the code names.\<close>

abbreviation (input) "UNICODE_PROP_Other_Math \<equiv> (1 :: nat)"
abbreviation (input) "UNICODE_PROP_Other_Alphabetic \<equiv> (2 :: nat)"
abbreviation (input) "UNICODE_PROP_Other_Lowercase \<equiv> (3 :: nat)"
abbreviation (input) "UNICODE_PROP_Other_Uppercase \<equiv> (4 :: nat)"
abbreviation (input) "UNICODE_PROP_Other_Grapheme_Extend \<equiv> (5 :: nat)"
abbreviation (input) "UNICODE_PROP_Other_ID_Start \<equiv> (7 :: nat)"
abbreviation (input) "UNICODE_PROP_Other_ID_Continue \<equiv> (8 :: nat)"
abbreviation (input) "UNICODE_PROP_ID_Continue1 \<equiv> (10 :: nat)"
abbreviation (input) "UNICODE_PROP_XID_Start1 \<equiv> (11 :: nat)"
abbreviation (input) "UNICODE_PROP_XID_Continue1 \<equiv> (12 :: nat)"
abbreviation (input) "UNICODE_PROP_Changes_When_Titlecased1 \<equiv> (13 :: nat)"
abbreviation (input) "UNICODE_PROP_Changes_When_Casefolded1 \<equiv> (14 :: nat)"
abbreviation (input) "UNICODE_PROP_Changes_When_NFKC_Casefolded1 \<equiv> (15 :: nat)"
abbreviation (input) "UNICODE_PROP_Basic_Emoji1 \<equiv> (16 :: nat)"
abbreviation (input) "UNICODE_PROP_Basic_Emoji2 \<equiv> (17 :: nat)"
abbreviation (input) "UNICODE_PROP_RGI_Emoji_Flag_Sequence \<equiv> (18 :: nat)"
abbreviation (input) "UNICODE_PROP_Emoji_Keycap_Sequence \<equiv> (19 :: nat)"
abbreviation (input) "UNICODE_PROP_ASCII_Hex_Digit \<equiv> (20 :: nat)"
abbreviation (input) "UNICODE_PROP_Pattern_Syntax \<equiv> (35 :: nat)"
abbreviation (input) "UNICODE_PROP_Pattern_White_Space \<equiv> (36 :: nat)"
abbreviation (input) "UNICODE_PROP_Emoji_Modifier_Base \<equiv> (50 :: nat)"
abbreviation (input) "UNICODE_PROP_ID_Start \<equiv> (54 :: nat)"
abbreviation (input) "UNICODE_PROP_ASCII \<equiv> (56 :: nat)"
abbreviation (input) "UNICODE_PROP_Alphabetic \<equiv> (57 :: nat)"
abbreviation (input) "UNICODE_PROP_Any \<equiv> (58 :: nat)"
abbreviation (input) "UNICODE_PROP_Assigned \<equiv> (59 :: nat)"
abbreviation (input) "UNICODE_PROP_Cased \<equiv> (60 :: nat)"
abbreviation (input) "UNICODE_PROP_Changes_When_Casefolded \<equiv> (61 :: nat)"
abbreviation (input) "UNICODE_PROP_Changes_When_Casemapped \<equiv> (62 :: nat)"
abbreviation (input) "UNICODE_PROP_Changes_When_Lowercased \<equiv> (63 :: nat)"
abbreviation (input) "UNICODE_PROP_Changes_When_NFKC_Casefolded \<equiv> (64 :: nat)"
abbreviation (input) "UNICODE_PROP_Changes_When_Titlecased \<equiv> (65 :: nat)"
abbreviation (input) "UNICODE_PROP_Changes_When_Uppercased \<equiv> (66 :: nat)"
abbreviation (input) "UNICODE_PROP_Grapheme_Base \<equiv> (67 :: nat)"
abbreviation (input) "UNICODE_PROP_Grapheme_Extend \<equiv> (68 :: nat)"
abbreviation (input) "UNICODE_PROP_ID_Continue \<equiv> (69 :: nat)"
abbreviation (input) "UNICODE_PROP_Lowercase \<equiv> (72 :: nat)"
abbreviation (input) "UNICODE_PROP_Math \<equiv> (73 :: nat)"
abbreviation (input) "UNICODE_PROP_Uppercase \<equiv> (74 :: nat)"
abbreviation (input) "UNICODE_PROP_XID_Continue \<equiv> (75 :: nat)"
abbreviation (input) "UNICODE_PROP_XID_Start \<equiv> (76 :: nat)"

definition prop_program :: "nat \<Rightarrow> prop_op list option" where
  "prop_program prop_idx =
    (if prop_idx = UNICODE_PROP_Assigned then
       Some [POP_GC (gc_bits [0]), POP_INVERT, POP_END]
     else if prop_idx = UNICODE_PROP_Math then
       Some [POP_GC (gc_bits [12]), POP_PROP UNICODE_PROP_Other_Math, POP_UNION, POP_END]
     else if prop_idx = UNICODE_PROP_Lowercase then
       Some [POP_GC (gc_bits [2]), POP_PROP UNICODE_PROP_Other_Lowercase, POP_UNION, POP_END]
     else if prop_idx = UNICODE_PROP_Uppercase then
       Some [POP_GC (gc_bits [1]), POP_PROP UNICODE_PROP_Other_Uppercase, POP_UNION, POP_END]
     else if prop_idx = UNICODE_PROP_Cased then
       Some [POP_GC (gc_bits [1, 2, 3]), POP_PROP UNICODE_PROP_Other_Uppercase, POP_UNION,
          POP_PROP UNICODE_PROP_Other_Lowercase, POP_UNION, POP_END]
     else if prop_idx = UNICODE_PROP_Alphabetic then
       Some [POP_GC (gc_bits [1, 2, 3, 4, 5, 10]), POP_PROP UNICODE_PROP_Other_Uppercase,
          POP_UNION, POP_PROP UNICODE_PROP_Other_Lowercase, POP_UNION,
          POP_PROP UNICODE_PROP_Other_Alphabetic, POP_UNION, POP_END]
     else if prop_idx = UNICODE_PROP_Grapheme_Base then
       Some [POP_GC (gc_bits [26, 27, 28, 29, 0, 24, 25, 8, 6]),
          POP_PROP UNICODE_PROP_Other_Grapheme_Extend, POP_UNION, POP_INVERT, POP_END]
     else if prop_idx = UNICODE_PROP_Grapheme_Extend then
       Some [POP_GC (gc_bits [8, 6]), POP_PROP UNICODE_PROP_Other_Grapheme_Extend, POP_UNION,
          POP_END]
     else if prop_idx = UNICODE_PROP_XID_Start then
       Some [POP_GC (gc_bits [1, 2, 3, 4, 5, 10]), POP_PROP UNICODE_PROP_Other_ID_Start,
          POP_UNION, POP_PROP UNICODE_PROP_Pattern_Syntax,
          POP_PROP UNICODE_PROP_Pattern_White_Space, POP_UNION,
          POP_PROP UNICODE_PROP_XID_Start1, POP_UNION, POP_INVERT, POP_INTER, POP_END]
     else if prop_idx = UNICODE_PROP_XID_Continue then
       Some [POP_GC (gc_bits [1, 2, 3, 4, 5, 10, 6, 7, 9, 16]),
          POP_PROP UNICODE_PROP_Other_ID_Start, POP_UNION,
          POP_PROP UNICODE_PROP_Other_ID_Continue, POP_UNION,
          POP_PROP UNICODE_PROP_Pattern_Syntax, POP_PROP UNICODE_PROP_Pattern_White_Space,
          POP_UNION, POP_PROP UNICODE_PROP_XID_Continue1, POP_UNION, POP_INVERT, POP_INTER,
          POP_END]
     else if prop_idx = UNICODE_PROP_Changes_When_Titlecased then
       Some [POP_CASE CASE_U, POP_PROP UNICODE_PROP_Changes_When_Titlecased1, POP_XOR,
          POP_END]
     else if prop_idx = UNICODE_PROP_Changes_When_Casefolded then
       Some [POP_CASE CASE_F, POP_PROP UNICODE_PROP_Changes_When_Casefolded1, POP_XOR,
          POP_END]
     else if prop_idx = UNICODE_PROP_Changes_When_NFKC_Casefolded then
       Some [POP_CASE CASE_F, POP_PROP UNICODE_PROP_Changes_When_NFKC_Casefolded1, POP_XOR,
          POP_END]
     else if prop_idx = UNICODE_PROP_ID_Continue then
       Some [POP_PROP UNICODE_PROP_ID_Start, POP_PROP UNICODE_PROP_ID_Continue1, POP_XOR,
          POP_END]
     else None)"

definition unicode_prop :: "char_range \<Rightarrow> string \<Rightarrow> (int \<times> char_range) option" where
  "unicode_prop cr prop_name =
     (let i = unicode_find_name unicode_prop_name_table prop_name in
      if i < 0 then Some (-2, cr) else
      let prop_idx = nat i + UNICODE_PROP_ASCII_Hex_Digit in
      if prop_idx = UNICODE_PROP_ASCII then Some (cr_add_interval cr 0 0x80)
      else if prop_idx = UNICODE_PROP_Any then Some (cr_add_interval cr 0 0x110000)
      else if prop_idx = UNICODE_PROP_Changes_When_Uppercased then Some (unicode_case1 cr CASE_U)
      else if prop_idx = UNICODE_PROP_Changes_When_Lowercased then Some (unicode_case1 cr CASE_L)
      else if prop_idx = UNICODE_PROP_Changes_When_Casemapped
        then Some (unicode_case1 cr (CASE_U OR CASE_L OR CASE_F))
      else case prop_program prop_idx of
             Some ops \<Rightarrow> unicode_prop_ops cr ops
           | None \<Rightarrow>
               if prop_idx \<ge> length unicode_prop_table then Some (-2, cr) else unicode_prop1 cr prop_idx)"

subsection \<open>Properties of strings\<close>

text \<open>
  The callback is \<open>cb\<close>, its argument \<open>opaque\<close> the state \<open>st\<close>. Each of the following is the
  list of the sequences passed to it, in order.
\<close>

definition members :: "u32 list \<Rightarrow> u32 list" where
  "members pts = concat (map (\<lambda>(a, b). map of_nat [unat a..<unat b]) (pairs pts))"

fun tag_sequences :: "u8 list \<Rightarrow> u8 list \<Rightarrow> u32 list list option" where
  "tag_sequences acc [] = (if acc = [] then Some [] else None)"
| "tag_sequences acc (c # t) =
     (if c \<noteq> 0 then tag_sequences (acc @ [c]) t
      else if length acc + 2 \<le> 16 then
        map_option (\<lambda>r. ([0x1F3F4] @ map (\<lambda>x. 0xe0000 + ucast x) acc @ [0xe007f]) # r) (tag_sequences [] t)
      else None)"

text \<open>
  A ZWJ sequence is spread into the 16 cells of \<open>seq\<close>: the positions that skin tones
  (\<open>mod_pos\<close>, at most two) and the hair component (\<open>hc_pos\<close>) vary are filled in afterwards.
\<close>

record zwj_state =
  zw_seq :: "u32 list"
  zw_mod :: nat
  zw_mod_pos :: "nat list"
  zw_hc_pos :: "nat option"

definition put_seq :: "u32 \<Rightarrow> zwj_state \<Rightarrow> zwj_state option" where
  "put_seq c z = (if length (zw_seq z) < 16 then Some (z\<lparr>zw_seq := zw_seq z @ [c]\<rparr>) else None)"

definition zwj_element :: "u8 \<Rightarrow> u8 \<Rightarrow> bool \<Rightarrow> zwj_state \<Rightarrow> zwj_state option" where
  "zwj_element lo hi is_last z =
     (let code = ucast lo OR push_bit 8 (ucast hi) :: u32;
          pres = drop_bit 15 code \<noteq> 0;
          mod1 = unat (drop_bit 13 code AND 3);
          code = code AND 0x1fff;
          c = (if code < 0x1000 then code + 0x2000 else 0x1f000 + (code - 0x1000))
      in do {
        let z = (if c = 0x1f9b0 then z\<lparr>zw_hc_pos := Some (length (zw_seq z))\<rparr> else z);
        z \<leftarrow> put_seq c z;
        z \<leftarrow> (if mod1 \<noteq> 0 then
                (if length (zw_mod_pos z) < 2
                 then put_seq 0 (z\<lparr>zw_mod := mod1, zw_mod_pos := zw_mod_pos z @ [length (zw_seq z)]\<rparr>)
                 else None)
              else Some z);
        z \<leftarrow> (if pres then put_seq 0xfe0f z else Some z);
        if is_last then Some z else put_seq 0x200d z
      })"

fun zwj_elements :: "nat \<Rightarrow> u8 list \<Rightarrow> zwj_state \<Rightarrow> (zwj_state \<times> u8 list) option" where
  "zwj_elements 0 t z = Some (z, t)"
| "zwj_elements (Suc n) (lo # hi # t) z =
     (case zwj_element lo hi (n = 0) z of None \<Rightarrow> None | Some z' \<Rightarrow> zwj_elements n t z')"
| "zwj_elements (Suc n) _ z = None"

lemma zwj_elements_length: "zwj_elements n t z = Some (z', t') \<Longrightarrow> length t' \<le> length t"
  by (induction n t z rule: zwj_elements.induct) (auto split: option.splits)

text \<open>The number of variants by the last skin tone mode, and one variant.\<close>

definition zwj_n_mod :: "nat \<Rightarrow> nat" where
  "zwj_n_mod m = (if m = 1 then 5 else if m = 2 then 25 else if m = 3 then 20 else 1)"

definition zwj_variant :: "zwj_state \<Rightarrow> nat \<Rightarrow> nat \<Rightarrow> u32 list option" where
  "zwj_variant z hc_idx mod_idx =
     (let seq = (case zw_hc_pos z of Some k \<Rightarrow> (zw_seq z)[k := 0x1f9b0 + of_nat hc_idx] | None \<Rightarrow> zw_seq z)
      in if zw_mod z = 1 then
           (case zw_mod_pos z of k # _ \<Rightarrow> Some (seq[k := 0x1f3fb + of_nat mod_idx]) | _ \<Rightarrow> None)
         else if zw_mod z = 2 \<or> zw_mod z = 3 then
           (let i0 = mod_idx div 5; i1 = mod_idx mod 5;
                i0 = (if zw_mod z = 3 \<and> i0 \<ge> i1 then i0 + 1 else i0)
            in case zw_mod_pos z of
                 [k0, k1] \<Rightarrow> Some (seq[k0 := 0x1f3fb + of_nat i0, k1 := 0x1f3fb + of_nat i1])
               | _ \<Rightarrow> None)
         else Some seq)"

definition zwj_variants :: "zwj_state \<Rightarrow> u32 list option list" where
  "zwj_variants z =
     concat (map (\<lambda>hc. map (zwj_variant z hc) [0..<zwj_n_mod (zw_mod z)])
       [0..<if zw_hc_pos z \<noteq> None then 4 else 1])"

function zwj_sequences :: "u8 list \<Rightarrow> u32 list list option" where
  "zwj_sequences [] = Some []"
| "zwj_sequences (len # t) =
     (case zwj_elements (unat len) t \<lparr>zw_seq = [], zw_mod = 0, zw_mod_pos = [], zw_hc_pos = None\<rparr> of
        None \<Rightarrow> None
      | Some (z, t') \<Rightarrow> do {
          vs \<leftarrow> those (zwj_variants z);
          rest \<leftarrow> zwj_sequences t';
          Some (vs @ rest)
        })"
  by pat_completeness auto
termination
  by (relation "measure length") (auto simp: less_Suc_eq_le dest: zwj_elements_length)

text \<open>The cases that decode a property into the temporary \<open>cr\<close> and visit its members.\<close>

definition visit_prop ::
    "char_range \<Rightarrow> nat \<Rightarrow> (u32 \<Rightarrow> u32 list list) \<Rightarrow> ('s \<Rightarrow> u32 list \<Rightarrow> 's) \<Rightarrow> 's \<Rightarrow> (int \<times> char_range \<times> 's) option" where
  "visit_prop cr prop f cb st =
     (case unicode_prop1 cr prop of
        None \<Rightarrow> None
      | Some (ret, cr') \<Rightarrow>
          if ret < 0 then Some (-1, cr', st)
          else Some (0, cr', foldl cb st (concat (map f (members (cr_points cr'))))))"

definition sequence_prop_case ::
    "nat \<Rightarrow> ('s \<Rightarrow> u32 list \<Rightarrow> 's) \<Rightarrow> 's \<Rightarrow> char_range \<Rightarrow> (int \<times> char_range \<times> 's) option" where
  "sequence_prop_case idx cb st cr =
     (if idx = 0 then
        (case visit_prop cr UNICODE_PROP_Basic_Emoji1 (\<lambda>c. [[c]]) cb st of
           Some (ret, cr', st') \<Rightarrow>
             if ret < 0 then Some (-1, cr', st')
             else visit_prop (cr'\<lparr>cr_points := []\<rparr>) UNICODE_PROP_Basic_Emoji2 (\<lambda>c. [[c, 0xfe0f]]) cb st'
         | None \<Rightarrow> None)
      else if idx = 1 then visit_prop cr UNICODE_PROP_Emoji_Keycap_Sequence (\<lambda>c. [[c, 0xfe0f, 0x20e3]]) cb st
      else if idx = 2 then
        visit_prop cr UNICODE_PROP_Emoji_Modifier_Base (\<lambda>c. map (\<lambda>j. [c, 0x1f3fb + of_nat j]) [0..<5]) cb st
      else if idx = 3 then
        visit_prop cr UNICODE_PROP_RGI_Emoji_Flag_Sequence (\<lambda>c. [[0x1F1E6 + c div 26, 0x1F1E6 + c mod 26]]) cb st
      else if idx = 4 then
        map_option (\<lambda>seqs. (0, cr, foldl cb st seqs)) (tag_sequences [] unicode_rgi_emoji_tag_sequence)
      else if idx = 5 then
        map_option (\<lambda>seqs. (0, cr, foldl cb st seqs)) (zwj_sequences unicode_rgi_emoji_zwj_sequence)
      else Some (-2, cr, st))"

text \<open>\<open>RGI_Emoji\<close> (6) runs all the others, in their order.\<close>

fun sequence_prop_all ::
    "nat list \<Rightarrow> ('s \<Rightarrow> u32 list \<Rightarrow> 's) \<Rightarrow> 's \<Rightarrow> char_range \<Rightarrow> (int \<times> char_range \<times> 's) option" where
  "sequence_prop_all [] cb st cr = Some (0, cr, st)"
| "sequence_prop_all (i # is) cb st cr =
     (case sequence_prop_case i cb st cr of
        None \<Rightarrow> None
      | Some (ret, cr', st') \<Rightarrow>
          if ret < 0 then Some (ret, cr', st') else sequence_prop_all is cb st' (cr'\<lparr>cr_points := []\<rparr>))"

definition unicode_sequence_prop1 ::
    "nat \<Rightarrow> ('s \<Rightarrow> u32 list \<Rightarrow> 's) \<Rightarrow> 's \<Rightarrow> char_range \<Rightarrow> (int \<times> char_range \<times> 's) option" where
  "unicode_sequence_prop1 idx cb st cr =
     (if idx = 6 then sequence_prop_all [0..<6] cb st cr else sequence_prop_case idx cb st cr)"

definition unicode_sequence_prop ::
    "string \<Rightarrow> ('s \<Rightarrow> u32 list \<Rightarrow> 's) \<Rightarrow> 's \<Rightarrow> char_range \<Rightarrow> (int \<times> char_range \<times> 's) option" where
  "unicode_sequence_prop prop_name cb st cr =
     (let i = unicode_find_name unicode_sequence_prop_name_table prop_name in
      if i < 0 then Some (-2, cr, st) else unicode_sequence_prop1 (nat i) cb st cr)"

subsection \<open>The runs of a table\<close>

text \<open>What one byte and its operands stand for: one run or two, and the bytes after it.\<close>

definition prop_step :: "u8 \<Rightarrow> u8 list \<Rightarrow> (u32 list \<times> u8 list) option" where
  "prop_step b p =
     (if ucast b < (64 :: u32) then Some ([drop_bit 3 (ucast b) + 1, (ucast b AND 7) + 1], p)
      else map_option (\<lambda>(n, p'). ([n + 1], p')) (prop_long_run (ucast b) p))"

lemma prop_step_length: "prop_step b p = Some (rs, p') \<Longrightarrow> length p' \<le> length p"
  by (auto simp: prop_step_def dest: prop_long_run_length split: if_splits)

function prop_runs :: "u8 list \<Rightarrow> u32 list option" where
  "prop_runs [] = Some []"
| "prop_runs (b # p) =
     (case prop_step b p of
        None \<Rightarrow> None
      | Some (rs, p') \<Rightarrow> map_option (\<lambda>rest. rs @ rest) (prop_runs p'))"
  by pat_completeness auto
termination
  by (relation "measure length") (auto simp: less_Suc_eq_le dest: prop_step_length)

text \<open>The end of the runs from \<open>s\<close>, when no sum wraps around.\<close>

fun runs_end :: "u32 \<Rightarrow> u32 list \<Rightarrow> u32 option" where
  "runs_end s [] = Some s"
| "runs_end s (r # rs) = (if s < s + r then runs_end (s + r) rs else None)"

fun run_at :: "u32 \<Rightarrow> u32 \<Rightarrow> bool \<Rightarrow> u32 list \<Rightarrow> bool" where
  "run_at c s inside [] = False"
| "run_at c s inside (r # rs) = (if c < s + r then inside else run_at c (s + r) (\<not> inside) rs)"

fun run_intervals :: "u32 \<Rightarrow> bool \<Rightarrow> u32 list \<Rightarrow> (u32 \<times> u32) list" where
  "run_intervals s inside [] = []"
| "run_intervals s inside (r # rs) = (if inside then [(s, s + r)] else []) @ run_intervals (s + r) (\<not> inside) rs"

lemma runs_end_le: "runs_end s rs = Some e \<Longrightarrow> s \<le> e"
  by (induction s rs rule: runs_end.induct) (auto split: if_splits)

lemma run_intervals_bounds:
  "runs_end s rs = Some e \<Longrightarrow> sorted (unpairs (run_intervals s inside rs)) \<and>
     (\<forall>x \<in> set (unpairs (run_intervals s inside rs)). s \<le> x \<and> x \<le> e)"
proof (induction s inside rs rule: run_intervals.induct)
  case (2 s inside r rs)
  then have "s < s + r" "runs_end (s + r) rs = Some e" "s + r \<le> e"
    by (auto split: if_splits dest: runs_end_le)
  with 2 show ?case by (auto intro: less_imp_le order.trans)
qed simp

lemma run_intervals_mem:
  "runs_end s rs = Some e \<Longrightarrow> in_intervals c (run_intervals s inside rs) \<longleftrightarrow> s \<le> c \<and> run_at c s inside rs"
proof (induction s inside rs rule: run_intervals.induct)
  case (2 s inside r rs)
  then have "s < s + r" "runs_end (s + r) rs = Some e" by (auto split: if_splits)
  with 2 show ?case by auto
qed simp

lemma run_at_end: "runs_end s rs = Some e \<Longrightarrow> e \<le> c \<Longrightarrow> \<not> run_at c s inside rs"
proof (induction c s inside rs rule: run_at.induct)
  case (2 c s inside r rs)
  then have "runs_end (s + r) rs = Some e" "s + r \<le> c" by (auto split: if_splits dest: runs_end_le)
  with 2 show ?case by (auto simp: not_less)
qed simp

lemma runs_end_append: "runs_end s (xs @ ys) = Option.bind (runs_end s xs) (\<lambda>m. runs_end m ys)"
  by (induction s xs rule: runs_end.induct) auto

lemma run_at_append:
  "runs_end s xs = Some m \<Longrightarrow> m \<le> c \<Longrightarrow> run_at c s inside (xs @ ys) = run_at c m (inside \<noteq> odd (length xs)) ys"
proof (induction c s inside xs rule: run_at.induct)
  case (2 c s inside r rs)
  then have "runs_end (s + r) rs = Some m" "s + r \<le> c" by (auto split: if_splits dest: runs_end_le)
  with 2 show ?case by (auto simp: not_less)
qed simp

subsection \<open>The decoder and the scan follow the runs\<close>

lemma add_if_ok:
  "(\<And>n. cr_realloc_func cr n) \<Longrightarrow> \<exists>cr'. add_if inside cr a b = (0, cr') \<and> cr_realloc_func cr' = cr_realloc_func cr
     \<and> cr_points cr' = cr_points cr @ unpairs (if inside then [(a, b)] else [])"
  by (rule cr_add_interval_cases [of cr a b]) (auto simp: add_if_def)

lemma prop1_loop_runs:
  assumes "\<And>n. cr_realloc_func cr n" "prop_runs t = Some rs"
  shows "\<exists>cr'. prop1_loop c inside t cr = Some (0, cr') \<and> cr_points cr' = cr_points cr @ unpairs (run_intervals c inside rs)
     \<and> cr_realloc_func cr' = cr_realloc_func cr"
  using assms
proof (induction c inside t cr arbitrary: rs rule: prop1_loop.induct)
  case (2 c inside b p cr)
  show ?case
  proof (cases "ucast b < (64 :: u32)")
    case True
    let ?r1 = "drop_bit 3 (ucast b) + 1 :: u32" and ?r2 = "(ucast b AND 7) + 1 :: u32"
    obtain rest where rest: "prop_runs p = Some rest" "rs = [?r1, ?r2] @ rest"
      using 2(4) True by (auto simp: prop_step_def)
    obtain cr1 where cr1: "add_if inside cr c (c + ?r1) = (0, cr1)" "cr_realloc_func cr1 = cr_realloc_func cr"
        "cr_points cr1 = cr_points cr @ unpairs (if inside then [(c, c + ?r1)] else [])"
      using add_if_ok [OF 2(3)] by blast
    obtain cr2 where cr2: "add_if (\<not> inside) cr1 (c + ?r1) (c + ?r1 + ?r2) = (0, cr2)" "cr_realloc_func cr2 = cr_realloc_func cr"
        "cr_points cr2 = cr_points cr1 @ unpairs (if \<not> inside then [(c + ?r1, c + ?r1 + ?r2)] else [])"
      using add_if_ok [of cr1 "\<not> inside" "c + ?r1" "c + ?r1 + ?r2"] 2(3) cr1 by auto
    have "\<exists>cr'. prop1_loop (c + ?r1 + ?r2) inside p cr2 = Some (0, cr') \<and>
        cr_points cr' = cr_points cr2 @ unpairs (run_intervals (c + ?r1 + ?r2) inside rest) \<and> cr_realloc_func cr' = cr_realloc_func cr2"
      by (rule 2(1) [OF refl True refl refl cr1(1) [symmetric] _ cr2(1) [symmetric] _ _ rest(1)]) (use 2(3) cr2 in auto)
    then show ?thesis using True cr1 cr2 rest by (auto simp: Let_def)
  next
    case False
    then obtain n p' rest where n: "prop_long_run (ucast b) p = Some (n, p')" "prop_runs p' = Some rest" "rs = (n + 1) # rest"
      using 2(4) by (auto simp: prop_step_def split: option.splits)
    obtain cr1 where cr1: "add_if inside cr c (c + (n + 1)) = (0, cr1)" "cr_realloc_func cr1 = cr_realloc_func cr"
        "cr_points cr1 = cr_points cr @ unpairs (if inside then [(c, c + (n + 1))] else [])"
      using add_if_ok [OF 2(3)] by blast
    have "\<exists>cr'. prop1_loop (c + (n + 1)) (\<not> inside) p' cr1 = Some (0, cr') \<and>
        cr_points cr' = cr_points cr1 @ unpairs (run_intervals (c + (n + 1)) (\<not> inside) rest) \<and> cr_realloc_func cr' = cr_realloc_func cr1"
      by (rule 2(2) [OF refl False n(1) refl refl cr1(1) [symmetric] _ _ n(2)]) (use 2(3) cr1 in auto)
    then show ?thesis using False n cr1 by (auto simp: Let_def)
  qed
qed simp

lemma table_scan_runs:
  assumes "prop_runs t = Some rs" "runs_end code rs = Some e" "code \<le> c" "c < e"
  shows "table_scan c code inside t = Some (run_at c code inside rs)"
  using assms
proof (induction c code inside t arbitrary: rs rule: table_scan.induct)
  case (2 c code inside b p)
  show ?case
  proof (cases "ucast b < (64 :: u32)")
    case True
    then obtain rest where rest: "prop_runs p = Some rest" "rs = [drop_bit 3 (ucast b) + 1, (ucast b AND 7) + 1] @ rest"
      using 2(3) by (auto simp: prop_step_def)
    show ?thesis
      using 2(1) [OF refl True refl _ refl _ rest(1)] 2(4-6) True rest(2)
      by (auto simp: Let_def not_less split: if_splits)
  next
    case False
    then obtain n p' rest where n: "prop_long_run (ucast b) p = Some (n, p')" "prop_runs p' = Some rest" "rs = (n + 1) # rest"
      using 2(3) by (auto simp: prop_step_def split: option.splits)
    show ?thesis
      using 2(2) [OF refl False n(1) refl refl _ n(2)] 2(4-6) False n(1,3)
      by (auto simp: Let_def not_less split: if_splits)
  qed
qed simp

fun index_entries :: "u8 list \<Rightarrow> u32 list" where
  "index_entries (a # b # c # t) = (ucast a OR push_bit 8 (ucast b) OR push_bit 16 (ucast c)) # index_entries t"
| "index_entries _ = []"

lemma get_le24_entries: "i < length (index_entries t) \<Longrightarrow> get_le24 t (i * 3) = index_entries t ! i"
proof (induction t arbitrary: i rule: index_entries.induct)
  case (1 a b c t)
  show ?case
  proof (cases i)
    case (Suc j)
    have "get_le24 (a # b # c # t) (Suc j * 3) = get_le24 t (j * 3)" by (simp add: get_le24_def rd_def)
    then show ?thesis using 1 Suc by simp
  qed (simp add: get_le24_def rd_def)
qed simp_all

subsection \<open>The runs as numbers\<close>

lemma join_byte: "push_bit 8 (x :: u32) OR ucast (p :: u8) = push_bit 8 x + ucast p"
proof -
  have "push_bit 8 x AND ucast p = 0"
    by (rule bit_word_eqI) (auto simp: bit_simps dest: bit_imp_le_length)
  then show ?thesis by (simp add: disjunctive_add_eq_or)
qed

lemma unat_ucast_u8_u32: "unat (ucast (b :: u8) :: u32) = unat b"
  by (simp add: unsigned_ucast_eq take_bit_nat_eq_self order.strict_trans [OF unsigned_less])

lemma unat_push8: "unat (x :: u32) < 2 ^ 24 \<Longrightarrow> unat (push_bit 8 x) = unat x * 256"
  by (simp add: push_bit_eq_mult unat_mult_lem [THEN iffD1])

lemma unat_add_small: "unat (x :: u32) + unat y < 2 ^ 32 \<Longrightarrow> unat (x + y) = unat x + unat y"
  by (intro unat_add_lem [THEN iffD1]) simp

text \<open>The runs of a byte, the number of bytes read, and the bytes after them.\<close>

fun run_numbers :: "int \<Rightarrow> int list \<Rightarrow> (int list \<times> int \<times> int list) option" where
  "run_numbers b p =
     (if b < 64 then Some ([b div 8 + 1, b mod 8 + 1], 1, p)
      else if b \<ge> 128 then Some ([b - 127], 1, p)
      else if b < 96 then (case p of p0 # p' \<Rightarrow> Some ([(b - 64) * 256 + p0 + 1], 2, p') | _ \<Rightarrow> None)
      else (case p of p0 # p1 # p' \<Rightarrow> Some ([(b - 96) * 65536 + p0 * 256 + p1 + 1], 3, p') | _ \<Rightarrow> None))"

abbreviation (input) nums :: "'a::len word list \<Rightarrow> int list" where
  "nums ws \<equiv> map (\<lambda>w. int (unat w)) ws"

lemma prop_step_numbers:
  "map_option (\<lambda>(rs, p'). (nums rs, 1 + int (length p) - int (length p'), nums p')) (prop_step b p)
   = run_numbers (int (unat b)) (nums p)"
proof -
  let ?b = "ucast b :: u32"
  have b: "unat ?b = unat b" "unat b < 256" using unsigned_less [where ?'a = nat, of b] by (simp_all add: unat_ucast_u8_u32)
  have byte: "unat (ucast q :: u32) < 256" for q :: u8 using unsigned_less [where ?'a = nat, of q] by (simp add: unat_ucast_u8_u32)
  have cmp: "?b < 64 \<longleftrightarrow> unat b < 64" "0x80 \<le> ?b \<longleftrightarrow> 128 \<le> unat b" "?b < 0x60 \<longleftrightarrow> unat b < 96"
    using b by (simp_all add: word_less_nat_alt word_le_nat_alt)
  have le: "k \<le> unat b \<Longrightarrow> k < 256 \<Longrightarrow> unat (?b - of_nat k) = unat b - k" for k
    using b by (simp add: unat_sub word_le_nat_alt unat_of_nat)
  consider "unat b < 64" | "128 \<le> unat b" | "64 \<le> unat b" "unat b < 96" | "96 \<le> unat b" "unat b < 128" by linarith
  then show ?thesis
  proof cases
    case 1
    have "unat (drop_bit 3 ?b + 1) = unat b div 8 + 1" "unat ((?b AND 7) + 1) = unat b mod 8 + 1"
      using 1 b unat_and_mask [of ?b 3] by (simp_all add: unat_add_small unat_drop_bit mask_eq_exp_minus_1)
    then show ?thesis using 1 cmp by (simp add: prop_step_def zdiv_int zmod_int del: of_nat_unat)
  next
    case 2
    then have "unat (?b - 0x80 + 1) = unat b - 127" using le [of 128] b(2) unat_add_small [of "?b - 0x80" 1] by simp
    then show ?thesis using 2 cmp b by (simp add: prop_step_def prop_long_run.simps of_nat_diff del: of_nat_unat)
  next
    case 3
    have "unat ((push_bit 8 (?b - 0x40) OR ucast q) + 1) = (unat b - 64) * 256 + unat q + 1" for q :: u8
      using 3 le [of 64] byte [of q] unat_push8 [of "?b - 0x40"]
      by (simp add: join_byte unat_add_small unat_ucast_u8_u32)
    then show ?thesis using 3 cmp by (cases p) (auto simp: prop_step_def prop_long_run.simps of_nat_diff simp del: of_nat_unat)
  next
    case 4
    have "unat ((push_bit 16 (?b - 0x60) OR push_bit 8 (ucast q) OR ucast r) + 1) = (unat b - 96) * 65536 + unat q * 256 + unat r + 1" for q r :: u8
    proof -
      have "push_bit 16 (?b - 0x60) OR push_bit 8 (ucast q) OR ucast r = push_bit 8 (push_bit 8 (?b - 0x60) OR ucast q) OR ucast r"
        by (simp add: push_bit_or or.assoc)
      also have "\<dots> = push_bit 8 (push_bit 8 (?b - 0x60) + ucast q) + ucast r" by (simp only: join_byte)
      finally have "push_bit 16 (?b - 0x60) OR push_bit 8 (ucast q) OR ucast r = push_bit 8 (push_bit 8 (?b - 0x60) + ucast q) + ucast r" .
      then show ?thesis
        using 4 le [of 96] byte [of q] byte [of r] unat_push8 [of "?b - 0x60"] unat_push8 [of "push_bit 8 (?b - 0x60) + ucast q"]
        by (simp add: unat_add_small unat_ucast_u8_u32)
    qed
    then show ?thesis using 4 cmp by (cases p; cases "tl p") (auto simp: prop_step_def prop_long_run.simps of_nat_diff simp del: of_nat_unat)
  qed
qed

lemma run_numbers_props:
  "run_numbers b p = Some (rs, d, p') \<Longrightarrow> 0 \<le> b \<Longrightarrow> \<forall>x \<in> set p. 0 \<le> x \<Longrightarrow>
   (\<forall>r \<in> set rs. 0 < r) \<and> length p' \<le> length p \<and> (\<forall>x \<in> set p'. 0 \<le> x) \<and> rs \<noteq> []"
  by (cases p; cases "tl p") (auto split: if_splits simp: add_pos_nonneg intro: add_nonneg_pos pos_imp_zdiv_nonneg_iff [THEN iffD2])

lemma runs_end_numbers:
  "\<lbrakk>\<forall>r \<in> set rs. 0 < r; int (unat s) + sum_list (nums rs) < 2 ^ 32\<rbrakk> \<Longrightarrow>
   \<exists>e. runs_end s rs = Some e \<and> int (unat e) = int (unat s) + sum_list (nums rs)"
proof (induction s rs rule: runs_end.induct)
  case (2 s r rs)
  have "0 \<le> sum_list (nums rs)" by (rule sum_list_nonneg) auto
  then have sum: "int (unat (s + r)) = int (unat s) + int (unat r)" using 2(3)
    by (subst unat_add_small) (auto simp del: of_nat_unat)
  moreover have "0 < unat r" using 2(2) by (simp add: word_less_nat_alt)
  ultimately have "s < s + r" by (simp add: word_less_nat_alt del: of_nat_unat)
  then show ?case using 2(1) 2(2,3) sum by (simp add: add.assoc del: of_nat_unat)
qed simp

lemma run_numbers_length: "run_numbers b p = Some (rs, d, p') \<Longrightarrow> length p' \<le> length p"
  by (auto split: if_splits list.splits)

declare run_numbers.simps [simp del]

text \<open>
  A table with its index: \<open>vs\<close> are the entries from number \<open>k\<close> on, \<open>bs\<close> the bytes from
  position \<open>pos\<close> on, \<open>code\<close> and \<open>inside\<close> the state of the scan there. At the position of an
  entry the scan must be at the entry's code point and outside; the last entry is the end.
\<close>

function index_fits :: "int list \<Rightarrow> int \<Rightarrow> int \<Rightarrow> int \<Rightarrow> bool \<Rightarrow> int list \<Rightarrow> bool" where
  "index_fits vs k pos code inside bs \<longleftrightarrow>
     (if vs \<noteq> [] \<and> tl vs \<noteq> [] \<and> pos = 32 * (k + 1) + hd vs div 0x200000 then
        hd vs mod 0x200000 = code \<and> \<not> inside \<and> index_fits (tl vs) (k + 1) pos code inside bs
      else case bs of
        [] \<Rightarrow> vs = [code]
      | b # p \<Rightarrow>
          (case run_numbers b p of
             Some ([r], d, p') \<Rightarrow> index_fits vs k (pos + d) (code + r) (\<not> inside) p'
           | Some ([r, s], d, p') \<Rightarrow> index_fits vs k (pos + d) (code + r + s) inside p'
           | _ \<Rightarrow> False))"
  by pat_completeness auto
termination
  by (relation "measure (\<lambda>(vs, k, pos, code, inside, bs). length vs + length bs)") (auto simp: less_Suc_eq_le dest: run_numbers_length)

declare index_fits.simps [simp del]

lemma run_numbers_one_two:
  "run_numbers b p = Some (rs, d, p') \<Longrightarrow> (\<exists>r. rs = [r]) \<or> (\<exists>r s. rs = [r, s])"
  by (auto simp: run_numbers.simps split: if_splits list.splits)

lemma index_fits_step:
  assumes "index_fits vs k pos code inside (b # p)" "\<not> (vs \<noteq> [] \<and> tl vs \<noteq> [] \<and> pos = 32 * (k + 1) + hd vs div 0x200000)"
  obtains rs d p' where "run_numbers b p = Some (rs, d, p')"
    "index_fits vs k (pos + d) (code + sum_list rs) (inside \<noteq> odd (length rs)) p'"
proof -
  have "case run_numbers b p of
             Some ([r], d, p') \<Rightarrow> index_fits vs k (pos + d) (code + r) (\<not> inside) p'
           | Some ([r, s], d, p') \<Rightarrow> index_fits vs k (pos + d) (code + r + s) inside p'
           | _ \<Rightarrow> False"
    using assms(1) unfolding index_fits.simps [of vs k pos code inside "b # p"] if_not_P [OF assms(2)] by simp
  moreover obtain rs d p' where r: "run_numbers b p = Some (rs, d, p')"
    using calculation by (cases "run_numbers b p") auto
  ultimately have "index_fits vs k (pos + d) (code + sum_list rs) (inside \<noteq> odd (length rs)) p'"
    using run_numbers_one_two [OF r] by (auto simp: add.assoc)
  with r show thesis by (rule that)
qed

lemma index_fits_match:
  assumes "index_fits vs k pos code inside bs" "vs \<noteq> [] \<and> tl vs \<noteq> [] \<and> pos = 32 * (k + 1) + hd vs div 0x200000"
  shows "hd vs mod 0x200000 = code" "\<not> inside" "index_fits (tl vs) (k + 1) pos code inside bs"
proof -
  have "hd vs mod 0x200000 = code \<and> \<not> inside \<and> index_fits (tl vs) (k + 1) pos code inside bs"
    using assms(1) unfolding index_fits.simps [of vs k pos] if_P [OF assms(2)] .
  then show "hd vs mod 0x200000 = code" "\<not> inside" "index_fits (tl vs) (k + 1) pos code inside bs" by blast+
qed

lemma index_fits_le:
  "index_fits vs k pos code inside bs \<Longrightarrow> \<forall>x \<in> set bs. 0 \<le> x \<Longrightarrow> vs \<noteq> [] \<and> code \<le> last vs"
proof (induction "length vs + length bs" arbitrary: vs k pos code inside bs rule: less_induct)
  case less
  show ?case
  proof (cases "vs \<noteq> [] \<and> tl vs \<noteq> [] \<and> pos = 32 * (k + 1) + hd vs div 0x200000")
    case True
    have "tl vs \<noteq> [] \<and> code \<le> last (tl vs)"
      using True by (intro less(1) [OF _ index_fits_match(3) [OF less(2) True] less(3)]) auto
    then show ?thesis using True by (simp add: last_tl)
  next
    case False
    show ?thesis
    proof (cases bs)
      case Nil
      then have "vs = [code]" using less(2) False by (subst (asm) index_fits.simps) auto
      then show ?thesis by simp
    next
      case (Cons b p)
      obtain rs d p' where r: "run_numbers b p = Some (rs, d, p')"
          "index_fits vs k (pos + d) (code + sum_list rs) (inside \<noteq> odd (length rs)) p'"
        using index_fits_step [OF less(2) [unfolded Cons] False] by blast
      have p: "\<forall>r \<in> set rs. 0 < r" "length p' \<le> length p" "\<forall>x \<in> set p'. 0 \<le> x"
        using run_numbers_props [OF r(1)] less(3) Cons by auto
      have "0 \<le> sum_list rs" by (rule sum_list_nonneg) (use p in force)
      moreover have "vs \<noteq> [] \<and> code + sum_list rs \<le> last vs"
        using p Cons by (intro less(1) [OF _ r(2)]) auto
      ultimately show ?thesis by auto
    qed
  qed
qed

lemma prop_step_suffix: "prop_step b p = Some (rs, p') \<Longrightarrow> length p' \<le> length p \<and> p' = drop (length p - length p') p"
  by (auto simp: prop_step_def prop_long_run.simps split: if_splits list.splits)

lemma index_fits_sound:
  assumes "index_fits vs k pos code inside (nums t)" "code = int (unat s)" "last vs < 2 ^ 32"
  shows "\<exists>rs e. prop_runs t = Some rs \<and> runs_end s rs = Some e \<and> int (unat e) = last vs \<and>
    (\<forall>i. i + 1 < length vs \<longrightarrow> (\<exists>j rs' s'. j \<le> length t \<and> pos + int j = 32 * (k + int i + 1) + vs ! i div 0x200000
       \<and> s \<le> s' \<and> int (unat s') = vs ! i mod 0x200000 \<and> prop_runs (drop j t) = Some rs' \<and> runs_end s' rs' = Some e
       \<and> (\<forall>c \<ge> s'. run_at c s inside rs = run_at c s' False rs')))"
  using assms
proof (induction "length vs + length t" arbitrary: vs k pos code inside t s rule: less_induct)
  case less
  show ?case
  proof (cases "vs \<noteq> [] \<and> tl vs \<noteq> [] \<and> pos = 32 * (k + 1) + hd vs div 0x200000")
    case True
    note m = index_fits_match [OF less(2) True]
    have lt: "length (tl vs) + length t < length vs + length t" "last (tl vs) < 2 ^ 32" "last (tl vs) = last vs"
      using True less(4) by (auto simp: last_tl)
    obtain rs e where IH: "prop_runs t = Some rs" "runs_end s rs = Some e" "int (unat e) = last vs"
      "\<forall>i. i + 1 < length (tl vs) \<longrightarrow> (\<exists>j rs' s'. j \<le> length t \<and> pos + int j = 32 * ((k + 1) + int i + 1) + tl vs ! i div 0x200000
       \<and> s \<le> s' \<and> int (unat s') = tl vs ! i mod 0x200000 \<and> prop_runs (drop j t) = Some rs' \<and> runs_end s' rs' = Some e
       \<and> (\<forall>c \<ge> s'. run_at c s inside rs = run_at c s' False rs'))"
      using less(1) [OF lt(1) m(3) less(3) lt(2)] unfolding lt(3) by blast
    have "\<exists>j rs' s'. j \<le> length t \<and> pos + int j = 32 * (k + int i + 1) + vs ! i div 0x200000
       \<and> s \<le> s' \<and> int (unat s') = vs ! i mod 0x200000 \<and> prop_runs (drop j t) = Some rs' \<and> runs_end s' rs' = Some e
       \<and> (\<forall>c \<ge> s'. run_at c s inside rs = run_at c s' False rs')" if i: "i + 1 < length vs" for i
    proof (cases i)
      case 0
      have "vs ! 0 = hd vs" using True by (cases vs) auto
      then show ?thesis using 0 True m IH(1,2) less(3) by (intro exI [of _ "0 :: nat"] exI [of _ rs] exI [of _ s]) auto
    next
      case (Suc i')
      have "vs ! i = tl vs ! i'" using Suc True by (cases vs) auto
      moreover have "i' + 1 < length (tl vs)" using i Suc by simp
      ultimately show ?thesis using IH(4) [rule_format, of i'] Suc by (simp add: algebra_simps)
    qed
    then show ?thesis using IH(1-3) by blast
  next
    case False
    show ?thesis
    proof (cases t)
      case Nil
      then have "vs = [code]" using less(2) False by (subst (asm) index_fits.simps) auto
      then show ?thesis using Nil less(3) by (auto simp del: of_nat_unat)
    next
      case (Cons b p)
      obtain rs d bs' where r: "run_numbers (int (unat b)) (nums p) = Some (rs, d, bs')"
          "index_fits vs k (pos + d) (code + sum_list rs) (inside \<noteq> odd (length rs)) bs'"
      proof -
        have "index_fits vs k pos code inside (int (unat b) # nums p)" using less(2) Cons by (simp del: of_nat_unat)
        from index_fits_step [OF this False] show thesis using that by blast
      qed
      obtain ws p' where w: "prop_step b p = Some (ws, p')" "rs = nums ws" "bs' = nums p'" "d = 1 + int (length p) - int (length p')"
        using r(1) prop_step_numbers [where b = b and p = p] by (auto simp del: of_nat_unat)
      have p: "\<forall>r \<in> set rs. 0 < r" using run_numbers_props [OF r(1)] by auto
      have "code + sum_list rs \<le> last vs" using index_fits_le [OF r(2)] w(3) by auto
      then have lt: "int (unat s) + sum_list (nums ws) < 2 ^ 32" using less(3,4) w(2) by simp
      have "\<forall>r \<in> set ws. 0 < r" using p w(2) by (auto simp: word_less_nat_alt simp del: of_nat_unat)
      then obtain s1 where s1: "runs_end s ws = Some s1" "int (unat s1) = code + sum_list rs"
        using runs_end_numbers [OF _ lt] less(3) w(2) by auto
      have suf: "p' = drop (length p - length p') p" "length p' \<le> length p" using prop_step_suffix [OF w(1)] by auto
      obtain rest e where IH: "prop_runs p' = Some rest" "runs_end s1 rest = Some e" "int (unat e) = last vs"
        "\<forall>i. i + 1 < length vs \<longrightarrow> (\<exists>j rs' s'. j \<le> length p' \<and> (pos + d) + int j = 32 * (k + int i + 1) + vs ! i div 0x200000
       \<and> s1 \<le> s' \<and> int (unat s') = vs ! i mod 0x200000 \<and> prop_runs (drop j p') = Some rs' \<and> runs_end s' rs' = Some e
       \<and> (\<forall>c \<ge> s'. run_at c s1 (inside \<noteq> odd (length rs)) rest = run_at c s' False rs'))"
      proof -
        have "length vs + length p' < length vs + length t" using suf(2) Cons by simp
        from less(1) [OF this r(2) [unfolded w(3)] s1(2) [symmetric] less(4)] show thesis using that by blast
      qed
      have "\<exists>j rs' s'. j \<le> length t \<and> pos + int j = 32 * (k + int i + 1) + vs ! i div 0x200000
       \<and> s \<le> s' \<and> int (unat s') = vs ! i mod 0x200000 \<and> prop_runs (drop j t) = Some rs' \<and> runs_end s' rs' = Some e
       \<and> (\<forall>c \<ge> s'. run_at c s inside (ws @ rest) = run_at c s' False rs')" if i: "i + 1 < length vs" for i
      proof -
        obtain j rs' s' where j: "j \<le> length p'" "(pos + d) + int j = 32 * (k + int i + 1) + vs ! i div 0x200000"
           "s1 \<le> s'" "int (unat s') = vs ! i mod 0x200000" "prop_runs (drop j p') = Some rs'" "runs_end s' rs' = Some e"
           "\<And>c. s' \<le> c \<Longrightarrow> run_at c s1 (inside \<noteq> odd (length rs)) rest = run_at c s' False rs'"
          using IH(4) i by blast
        let ?j = "Suc (length p - length p') + j"
        have "drop ?j t = drop j p'" using suf(1) Cons drop_drop [of j "length p - length p'" p] by (simp add: add.commute)
        moreover have "?j \<le> length t" "int ?j = d + int j" using j(1) suf Cons w(4) by auto
        moreover have "s \<le> s1" using runs_end_le [OF s1(1)] .
        moreover have "run_at c s inside (ws @ rest) = run_at c s' False rs'" if "s' \<le> c" for c
          using run_at_append [OF s1(1), of c inside rest] j(3,7) that w(2) by simp
        ultimately show ?thesis using j by (intro exI [of _ ?j] exI [of _ rs'] exI [of _ s']) auto
      qed
      moreover have "prop_runs t = Some (ws @ rest)" using w(1) IH(1) Cons by simp
      moreover have "runs_end s (ws @ rest) = Some e" using s1(1) IH(2) by (simp add: runs_end_append)
      ultimately show ?thesis using IH(3) by blast
    qed
  qed
qed

subsection \<open>Lookup is membership\<close>

lemma index_search_props:
  "lo < hi \<Longrightarrow> index_code t lo \<le> c \<Longrightarrow> lo \<le> index_search t c lo hi \<and> index_search t c lo hi < hi
     \<and> index_code t (index_search t c lo hi) \<le> c"
proof (induction t c lo hi rule: index_search.induct)
  case (1 t c lo hi)
  let ?m = "(hi + lo) div 2"
  show ?case
  proof (cases "hi - lo > 1")
    case True
    then have m: "lo < ?m" "?m < hi" by auto
    show ?thesis
    proof (cases "c < index_code t ?m")
      case lt: True
      then show ?thesis using 1(1) [OF True refl lt m(1) 1(4)] m True
        by (subst (1 2 3) index_search.simps) (simp add: Let_def)
    next
      case ge: False
      then show ?thesis using 1(2) [OF True refl ge m(2)] m True
        by (subst (1 2 3) index_search.simps) (auto simp: Let_def not_less)
    qed
  next
    case False
    then show ?thesis using 1(3,4) by (subst (1 2 3) index_search.simps) auto
  qed
qed

lemma unat_mask21: "unat (v AND (push_bit 21 1 - 1) :: u32) = unat v mod 0x200000"
  using unat_and_mask [of v 21] by (simp add: mask_eq_exp_minus_1 push_bit_eq_mult)

lemma int_mod21: "int a = int b mod 0x200000 \<longleftrightarrow> a = b mod 0x200000"
proof -
  have "int b mod 0x200000 = int (b mod 0x200000)" unfolding zmod_int by simp
  then show ?thesis by (simp only: of_nat_eq_iff)
qed

lemma int_pos21: "int j = 32 * (int i + 1) + int b div 0x200000 \<longleftrightarrow> (i + 1) * 32 + b div 0x200000 = j"
proof -
  have eq: "int b div 0x200000 = int (b div 0x200000)" unfolding zdiv_int by simp
  have "int j = 32 * (int i + 1) + int q \<longleftrightarrow> (i + 1) * 32 + q = j" for q by auto
  then show ?thesis unfolding eq .
qed

lemma lookup_correct:
  assumes fit: "index_fits (nums (index_entries ix)) 0 0 0 False (nums t)"
    and n: "length ix div 3 = length (index_entries ix)" and last: "last (nums (index_entries ix)) < 0x200000"
  shows "\<exists>rs e. prop_runs t = Some rs \<and> runs_end 0 rs = Some e
     \<and> (\<forall>c. lre_is_in_table c t ix (length ix div 3) = Some (run_at c 0 False rs))"
proof -
  let ?es = "index_entries ix" and ?vs = "nums (index_entries ix)"
  have ne: "?vs \<noteq> []" using index_fits_le [OF fit] by auto
  obtain rs e where rs: "prop_runs t = Some rs" "runs_end 0 rs = Some e" "int (unat e) = last ?vs"
    and entry: "\<And>i. i + 1 < length ?vs \<Longrightarrow> \<exists>j rs' s'. j \<le> length t \<and> 0 + int j = 32 * (0 + int i + 1) + ?vs ! i div 0x200000
       \<and> 0 \<le> s' \<and> int (unat s') = ?vs ! i mod 0x200000 \<and> prop_runs (drop j t) = Some rs' \<and> runs_end s' rs' = Some e
       \<and> (\<forall>c \<ge> s'. run_at c 0 False rs = run_at c s' False rs')"
    using index_fits_sound [OF fit, of 0] last by auto
  have len: "length ix div 3 = length ?vs" using n by simp
  have le24: "get_le24 ix (i * 3) = ?es ! i" if "i < length ?vs" for i
    using get_le24_entries [of i ix] that by simp
  have e: "?es ! (length ?vs - 1) = e"
  proof -
    have "last ?vs = int (unat (last ?es))" using ne by (simp add: last_map)
    then have "last ?es = e" using rs(3) by (simp add: word_unat_eq_iff del: of_nat_unat)
    then show ?thesis using ne by (simp add: last_conv_nth)
  qed
  have code: "unat (index_code ix i) = unat (?es ! i) mod 0x200000" if "i < length ?vs" for i
    unfolding index_code_def le24 [OF that] by (rule unat_mask21)
  have scan: "lre_is_in_table c t ix (length ix div 3) = Some (run_at c 0 False rs)" for c
  proof (cases "c < index_code ix 0")
    case True
    have "index_code ix 0 \<le> e"
    proof (cases "length ?vs = 1")
      case one: True
      have "unat (index_code ix 0) = unat e mod 0x200000" using code [of 0] e one ne by simp
      then show ?thesis by (simp add: word_le_nat_alt)
    next
      case False
      then obtain rs' s' where "int (unat s') = ?vs ! 0 mod 0x200000" "runs_end s' rs' = Some e"
        using entry [of 0] ne by (cases ?es) (auto simp del: of_nat_unat)
      moreover have "unat (index_code ix 0) = unat (?es ! 0) mod 0x200000" using ne by (intro code) simp
      moreover have "?vs ! 0 = int (unat (?es ! 0))" using ne by (intro nth_map) simp
      ultimately have "s' = index_code ix 0" by (simp add: word_unat_eq_iff int_mod21 del: of_nat_unat)
      then show ?thesis using runs_end_le \<open>runs_end s' rs' = Some e\<close> by blast
    qed
    then have "table_scan c 0 False t = Some (run_at c 0 False rs)"
      using True by (intro table_scan_runs [OF rs(1,2)]) auto
    then show ?thesis using True by (simp add: lre_is_in_table_def get_index_pos_def)
  next
    case False
    have last24: "get_le24 ix ((length ix div 3 - 1) * 3) = e"
      using le24 [of "length ?vs - 1"] ne e len by simp
    show ?thesis
    proof (cases "c \<ge> e")
      case True
      then show ?thesis using False last24 run_at_end [OF rs(2) True, of False]
        by (simp add: lre_is_in_table_def get_index_pos_def)
    next
      case c: False
      have "length ?vs \<noteq> 1"
      proof
        assume "length ?vs = 1"
        then have "unat (index_code ix 0) = unat e" using code [of 0] e rs(3) last ne by (simp del: of_nat_unat)
        then show False using False c by (simp add: word_unat_eq_iff [symmetric])
      qed
      then have n2: "0 < length ?vs - 1" using ne by (cases ?es) auto
      let ?i = "index_search ix c 0 (length ?vs - 1)"
      have i: "?i < length ?vs - 1" "index_code ix ?i \<le> c"
        using index_search_props [OF n2, of ix c] False by auto
      then have "?i + 1 < length ?vs" by simp
      from entry [OF this] obtain j rs' s' where j: "j \<le> length t" "int j = 32 * (int ?i + 1) + ?vs ! ?i div 0x200000"
         "int (unat s') = ?vs ! ?i mod 0x200000" "prop_runs (drop j t) = Some rs'" "runs_end s' rs' = Some e"
         "\<And>c. s' \<le> c \<Longrightarrow> run_at c 0 False rs = run_at c s' False rs'" by auto
      have v: "?vs ! ?i = int (unat (?es ! ?i))" using i(1) by (intro nth_map) simp
      have "unat (index_code ix ?i) = unat (?es ! ?i) mod 0x200000" using i(1) by (intro code) simp
      then have s': "s' = index_code ix ?i" using j(3) unfolding v by (simp add: word_unat_eq_iff int_mod21 del: of_nat_unat)
      have "unat (drop_bit 21 (?es ! ?i)) = unat (?es ! ?i) div 0x200000" by (simp add: unat_drop_bit)
      then have pos: "(?i + 1) * 32 + unat (drop_bit 21 (?es ! ?i)) = j"
        using j(2) unfolding v by (simp add: int_pos21 del: of_nat_unat)
      have "get_index_pos c ix (length ix div 3) = Some (s', j)"
        using False c last24 le24 [of ?i] i(1) pos s' len
        by (simp add: get_index_pos_def Let_def index_code_def)
      moreover have "table_scan c s' False (drop j t) = Some (run_at c s' False rs')"
        using i(2) c by (intro table_scan_runs [OF j(4,5)]) (auto simp: s')
      ultimately show ?thesis using j(1,6) i(2) s' by (simp add: lre_is_in_table_def)
    qed
  qed
  show ?thesis using rs scan by blast
qed
end
