(* ===== verification/RegexpScan.thy ===== *)
theory RegexpScan
  imports RegexpEmit UnicodeProps
begin

text \<open>
  The scanners of the pattern compiler of \<open>libregexp/libregexp.c\<close>: the functions that read the
  pattern and emit nothing, or only the indices of groups. A pointer into the pattern is an
  offset, \<open>*p\<close> is \<open>rd buf p\<close>; a function that updates \<open>*pp\<close> returns the new offset. The theorems
  show what the scanners return and that their pointers stay inside the pattern.
\<close>

subsection \<open>The characters the grammar names\<close>

abbreviation (input) "CH_dollar \<equiv> (0x24 :: u8)"
abbreviation (input) "CH_amp \<equiv> (0x26 :: u8)"
abbreviation (input) "CH_lparen \<equiv> (0x28 :: u8)"
abbreviation (input) "CH_rparen \<equiv> (0x29 :: u8)"
abbreviation (input) "CH_star \<equiv> (0x2A :: u8)"
abbreviation (input) "CH_plus \<equiv> (0x2B :: u8)"
abbreviation (input) "CH_comma \<equiv> (0x2C :: u8)"
abbreviation (input) "CH_minus \<equiv> (0x2D :: u8)"
abbreviation (input) "CH_dot \<equiv> (0x2E :: u8)"
abbreviation (input) "CH_0 \<equiv> (0x30 :: u8)"
abbreviation (input) "CH_3 \<equiv> (0x33 :: u8)"
abbreviation (input) "CH_7 \<equiv> (0x37 :: u8)"
abbreviation (input) "CH_9 \<equiv> (0x39 :: u8)"
abbreviation (input) "CH_colon \<equiv> (0x3A :: u8)"
abbreviation (input) "CH_lt \<equiv> (0x3C :: u8)"
abbreviation (input) "CH_equal \<equiv> (0x3D :: u8)"
abbreviation (input) "CH_gt \<equiv> (0x3E :: u8)"
abbreviation (input) "CH_question \<equiv> (0x3F :: u8)"
abbreviation (input) "CH_exclam \<equiv> (0x21 :: u8)"
abbreviation (input) "CH_A \<equiv> (0x41 :: u8)"
abbreviation (input) "CH_B \<equiv> (0x42 :: u8)"
abbreviation (input) "CH_D \<equiv> (0x44 :: u8)"
abbreviation (input) "CH_P \<equiv> (0x50 :: u8)"
abbreviation (input) "CH_S \<equiv> (0x53 :: u8)"
abbreviation (input) "CH_W \<equiv> (0x57 :: u8)"
abbreviation (input) "CH_Z \<equiv> (0x5A :: u8)"
abbreviation (input) "CH_lbracket \<equiv> (0x5B :: u8)"
abbreviation (input) "CH_backslash \<equiv> (0x5C :: u8)"
abbreviation (input) "CH_rbracket \<equiv> (0x5D :: u8)"
abbreviation (input) "CH_caret \<equiv> (0x5E :: u8)"
abbreviation (input) "CH_underscore \<equiv> (0x5F :: u8)"
abbreviation (input) "CH_a \<equiv> (0x61 :: u8)"
abbreviation (input) "CH_b \<equiv> (0x62 :: u8)"
abbreviation (input) "CH_c \<equiv> (0x63 :: u8)"
abbreviation (input) "CH_d \<equiv> (0x64 :: u8)"
abbreviation (input) "CH_f \<equiv> (0x66 :: u8)"
abbreviation (input) "CH_i \<equiv> (0x69 :: u8)"
abbreviation (input) "CH_k \<equiv> (0x6B :: u8)"
abbreviation (input) "CH_m \<equiv> (0x6D :: u8)"
abbreviation (input) "CH_n \<equiv> (0x6E :: u8)"
abbreviation (input) "CH_p \<equiv> (0x70 :: u8)"
abbreviation (input) "CH_q \<equiv> (0x71 :: u8)"
abbreviation (input) "CH_r \<equiv> (0x72 :: u8)"
abbreviation (input) "CH_s \<equiv> (0x73 :: u8)"
abbreviation (input) "CH_t \<equiv> (0x74 :: u8)"
abbreviation (input) "CH_u \<equiv> (0x75 :: u8)"
abbreviation (input) "CH_v \<equiv> (0x76 :: u8)"
abbreviation (input) "CH_w \<equiv> (0x77 :: u8)"
abbreviation (input) "CH_x \<equiv> (0x78 :: u8)"
abbreviation (input) "CH_z \<equiv> (0x7A :: u8)"
abbreviation (input) "CH_lbrace \<equiv> (0x7B :: u8)"
abbreviation (input) "CH_bar \<equiv> (0x7C :: u8)"
abbreviation (input) "CH_rbrace \<equiv> (0x7D :: u8)"

abbreviation (input) "INT32_MAX \<equiv> (2147483647 :: int)"
abbreviation (input) "TMP_BUF_SIZE \<equiv> (128 :: nat)"
abbreviation (input) "UTF8_CHAR_LEN_MAX \<equiv> (4 :: nat)"
abbreviation (input) "LRE_GROUP_NAME_TRAILER_LEN \<equiv> (2 :: nat)"

definition lre_is_digit :: "u8 \<Rightarrow> bool" where
  "lre_is_digit c \<longleftrightarrow> CH_0 \<le> c \<and> c \<le> CH_9"

definition is_octal :: "u8 \<Rightarrow> bool" where
  "is_octal c \<longleftrightarrow> CH_0 \<le> c \<and> c \<le> CH_7"

subsection \<open>Numbers\<close>

text \<open>
  The 64-bit \<open>v\<close> is below \<open>INT32_MAX\<close>, or equal to it, before each digit: it does not wrap
  around and is an integer here.
\<close>

function parse_digits_loop :: "u8 list \<Rightarrow> bool \<Rightarrow> nat \<Rightarrow> int \<Rightarrow> int \<times> nat" where
  "parse_digits_loop buf allow_overflow p v =
     (let c = rd buf p in
      if \<not> lre_is_digit c then (v, p)
      else
        let v1 = v * 10 + uint c - 48 in
        if v1 \<ge> INT32_MAX then
          (if allow_overflow then parse_digits_loop buf allow_overflow (p + 1) INT32_MAX else (-1, p))
        else parse_digits_loop buf allow_overflow (p + 1) v1)"
  by pat_completeness auto

lemma digit_in_buffer: "lre_is_digit (rd buf p) \<Longrightarrow> p < length buf"
  by (rule rd_neq_0_bound) (auto simp: lre_is_digit_def)

termination parse_digits_loop
  by (relation "measure (\<lambda>(buf, a, p, v). length buf - p)")
    (auto dest: digit_in_buffer intro: diff_less_mono2)

declare parse_digits_loop.simps [simp del]

text \<open>On overflow, when it is not allowed, \<open>*pp\<close> is not updated.\<close>

definition parse_digits :: "u8 list \<Rightarrow> nat \<Rightarrow> bool \<Rightarrow> int \<times> nat" where
  "parse_digits buf p allow_overflow =
     (case parse_digits_loop buf allow_overflow p 0 of
        (v, p') \<Rightarrow> if v < 0 then (-1, p) else (v, p'))"

subsection \<open>Escape sequences\<close>

text \<open>
  \<open>lre_parse_escape\<close> gets the offset after the backslash. It returns the code point and the
  offset after the sequence, or -1 (malformed) or -2 (not an escape) and the offset it got.
\<close>

fun hex4_loop :: "u8 list \<Rightarrow> nat \<Rightarrow> nat \<Rightarrow> u32 \<Rightarrow> (u32 \<times> nat) option" where
  "hex4_loop buf p 0 c = Some (c, p)"
| "hex4_loop buf p (Suc n) c =
     (case from_hex (rd buf p) of
        None \<Rightarrow> None
      | Some h \<Rightarrow> hex4_loop buf (p + 1) n (push_bit 4 c OR h))"

function hex_braces_loop :: "u8 list \<Rightarrow> nat \<Rightarrow> u32 \<Rightarrow> (u32 \<times> nat) option" where
  "hex_braces_loop buf p c =
     (case from_hex (rd buf p) of
        None \<Rightarrow> None
      | Some h \<Rightarrow>
          let c1 = push_bit 4 c OR h in
          if c1 > 0x10FFFF then None
          else if rd buf (p + 1) = CH_rbrace then Some (c1, p + 2)
          else hex_braces_loop buf (p + 1) c1)"
  by pat_completeness auto

lemma hex_in_buffer: "from_hex (rd buf p) = Some h \<Longrightarrow> p < length buf"
  by (rule rd_neq_0_bound) (auto simp: from_hex_def)

termination hex_braces_loop
  by (relation "measure (\<lambda>(buf, p, c). length buf - p)")
    (auto dest: hex_in_buffer intro: diff_less_mono2)

declare hex_braces_loop.simps [simp del]

definition escape_hex2 :: "u8 list \<Rightarrow> nat \<Rightarrow> (u32 \<times> nat) option" where
  "escape_hex2 buf p =
     (case from_hex (rd buf p) of
        None \<Rightarrow> None
      | Some h0 \<Rightarrow>
          (case from_hex (rd buf (p + 1)) of
             None \<Rightarrow> None
           | Some h1 \<Rightarrow> Some (push_bit 4 h0 OR h1, p + 2)))"

definition escape_unicode :: "u8 list \<Rightarrow> nat \<Rightarrow> nat \<Rightarrow> (u32 \<times> nat) option" where
  "escape_unicode buf p allow_utf16 =
     (if rd buf p = CH_lbrace \<and> allow_utf16 \<noteq> 0 then hex_braces_loop buf (p + 1) 0
      else
        case hex4_loop buf p 4 0 of
          None \<Rightarrow> None
        | Some (c, p1) \<Rightarrow>
            if is_hi_surrogate c \<and> allow_utf16 = 2 \<and> rd buf p1 = CH_backslash \<and> rd buf (p1 + 1) = CH_u
            then
              (case hex4_loop buf (p1 + 2) 4 0 of
                 Some (c1, p2) \<Rightarrow>
                   if is_lo_surrogate c1 then Some (from_surrogate c c1, p2) else Some (c, p1)
               | None \<Rightarrow> Some (c, p1))
            else Some (c, p1))"

definition escape_octal :: "u8 list \<Rightarrow> nat \<Rightarrow> u32 \<Rightarrow> u32 \<times> nat" where
  "escape_octal buf p c =
     (if \<not> is_octal (rd buf p) then (c, p)
      else
        let c = push_bit 3 c OR (ucast (rd buf p) - 0x30); p = p + 1 in
        if c \<ge> 32 \<or> \<not> is_octal (rd buf p) then (c, p)
        else (push_bit 3 c OR (ucast (rd buf p) - 0x30), p + 1))"

definition escape_result :: "nat \<Rightarrow> (u32 \<times> nat) option \<Rightarrow> int \<times> nat" where
  "escape_result p0 r = (case r of None \<Rightarrow> (-1, p0) | Some (v, p') \<Rightarrow> (uint v, p'))"

definition lre_parse_escape :: "u8 list \<Rightarrow> nat \<Rightarrow> nat \<Rightarrow> int \<times> nat" where
  "lre_parse_escape buf p0 allow_utf16 =
     (let c = rd buf p0; p = p0 + 1
      in if c = CH_b then (8, p)
         else if c = CH_f then (12, p)
         else if c = CH_n then (10, p)
         else if c = CH_r then (13, p)
         else if c = CH_t then (9, p)
         else if c = CH_v then (11, p)
         else if c = CH_x then escape_result p0 (escape_hex2 buf p)
         else if c = CH_u then escape_result p0 (escape_unicode buf p allow_utf16)
         else if is_octal c then
           (if allow_utf16 = 2 then
              (if c \<noteq> CH_0 \<or> lre_is_digit (rd buf p) then (-1, p0) else (0, p))
            else escape_result p0 (Some (escape_octal buf p (ucast c - 0x30))))
         else (-2, p0))"

subsection \<open>The pointers stay in the pattern\<close>

text \<open>
  \<open>steps buf p p'\<close>: the pointer moved forward and did not pass the terminator.
\<close>

definition steps :: "u8 list \<Rightarrow> nat \<Rightarrow> nat \<Rightarrow> bool" where
  "steps buf p p' \<longleftrightarrow> p < p' \<and> p' \<le> length buf"

named_theorems scan_bounds

lemma steps_one [scan_bounds]: "rd buf p \<noteq> 0 \<Longrightarrow> steps buf p (p + 1)"
  using rd_neq_0_bound [of buf p] by (simp add: steps_def)

lemma steps_trans: "steps buf p q \<Longrightarrow> steps buf q r \<Longrightarrow> steps buf p r"
  by (simp add: steps_def)

lemma hex4_loop_steps: "hex4_loop buf p n c = Some (c', p') \<Longrightarrow> p' = p + n \<and> (0 < n \<longrightarrow> p' \<le> length buf)"
proof (induction buf p n c rule: hex4_loop.induct)
  case (2 buf p n c)
  from 2(2) obtain h where h: "from_hex (rd buf p) = Some h"
    "hex4_loop buf (p + 1) n (push_bit 4 c OR h) = Some (c', p')"
    by (auto split: option.splits)
  from 2(1) [OF h] hex_in_buffer [OF h(1)] show ?case by (cases n) auto
qed simp

lemma hex_braces_loop_steps:
  "hex_braces_loop buf p c = Some (c', p') \<Longrightarrow> steps buf p p' \<and> c' \<le> 0x10FFFF"
proof (induction buf p c rule: hex_braces_loop.induct)
  case (1 buf p c)
  from 1(2) obtain h where h: "from_hex (rd buf p) = Some h"
    by (auto simp: hex_braces_loop.simps [of buf p] split: option.splits)
  note eq = 1(2) [unfolded hex_braces_loop.simps [of buf p] h option.case Let_def]
  show ?case
  proof (cases "rd buf (p + 1) = CH_rbrace")
    case True
    then show ?thesis using eq rd_neq_0_bound [of buf "p + 1"]
      by (auto simp: steps_def split: if_splits)
  next
    case False
    with eq have le: "\<not> push_bit 4 c OR h > 0x10FFFF"
      and rec: "hex_braces_loop buf (p + 1) (push_bit 4 c OR h) = Some (c', p')"
      by (auto split: if_splits)
    from 1(1) [OF h refl le False rec] show ?thesis by (simp add: steps_def)
  qed
qed

lemma from_hex_less: "from_hex c = Some h \<Longrightarrow> h < 16"
  by (auto simp: from_hex_def word_less_nat_alt word_le_nat_alt unat_ucast_u8_u32 unat_sub_if_size
      unat_word_ariths word_size split: if_splits)

lemma or_less_pow2:
  assumes "unat (x :: u32) < 2 ^ k" "unat y < 2 ^ k"
  shows "unat (x OR y) < 2 ^ k"
proof -
  have nat_int: "int (unat v) < 2 ^ k \<longleftrightarrow> unat v < 2 ^ k" for v :: u32
    using of_nat_less_iff [of "unat v" "2 ^ k", where ?'a = int] by (simp del: of_nat_unat)
  have "uint x < 2 ^ k" "uint y < 2 ^ k"
    using assms nat_int [of x] nat_int [of y] by simp_all
  then have "uint x OR uint y < 2 ^ k" by (intro OR_upper) simp_all
  then have "uint (x OR y) < 2 ^ k" by (simp add: unsigned_or_eq)
  then show ?thesis using nat_int [of "x OR y"] by simp
qed

lemma join_nibble_less:
  assumes "unat (c :: u32) < 2 ^ k" "unat h < 16" "k + 4 < 32"
  shows "unat (push_bit 4 c OR h) < 2 ^ (k + 4)"
proof (rule or_less_pow2)
  have lt: "unat c * 16 < 2 ^ (k + 4)" using assms(1) by (simp add: power_add)
  also have "(2 :: nat) ^ (k + 4) \<le> 2 ^ 32" using assms(3) by (intro power_increasing) simp_all
  finally have "unat (push_bit 4 c) = unat c * 16"
    by (simp add: push_bit_eq_mult unat_word_ariths)
  with lt show "unat (push_bit 4 c) < 2 ^ (k + 4)" by simp
  have "(16 :: nat) \<le> 2 ^ (k + 4)" by (simp add: power_add)
  with assms(2) show "unat h < 2 ^ (k + 4)" by simp
qed

lemma hex4_loop_less:
  "hex4_loop buf p n c = Some (c', p') \<Longrightarrow> unat c < 2 ^ k \<Longrightarrow> k + 4 * n < 32 \<Longrightarrow> unat c' < 2 ^ (k + 4 * n)"
proof (induction buf p n c arbitrary: k rule: hex4_loop.induct)
  case (2 buf p n c)
  from 2(2) obtain h where h: "from_hex (rd buf p) = Some h"
    "hex4_loop buf (p + 1) n (push_bit 4 c OR h) = Some (c', p')"
    by (auto split: option.splits)
  have "unat (push_bit 4 c OR h) < 2 ^ (k + 4)"
    using 2(3,4) from_hex_less [OF h(1)] by (intro join_nibble_less) (simp_all add: word_less_nat_alt)
  from 2(1) [OF h this] 2(4) show ?case by (simp add: algebra_simps)
qed simp

lemma hex4_loop_start: "hex4_loop buf p 4 0 = Some (c, p') \<Longrightarrow> unat c < 0x10000"
  using hex4_loop_less [of buf p 4 0 c p' 0] by simp

lemma escape_unicode_hex4:
  assumes "hex4_loop buf p 4 0 = Some (c1, p1)" "\<not> (rd buf p = CH_lbrace \<and> a \<noteq> 0)"
  shows "escape_unicode buf p a = Some (c1, p1) \<or>
     (\<exists>c2 p2. hex4_loop buf (p1 + 2) 4 0 = Some (c2, p2) \<and> escape_unicode buf p a = Some (from_surrogate c1 c2, p2)
        \<and> is_hi_surrogate c1 \<and> is_lo_surrogate c2)"
  unfolding escape_unicode_def assms(1) if_not_P [OF assms(2)] option.case prod.case
  by (cases "hex4_loop buf (p1 + 2) 4 0") (auto split: if_splits)

lemma unat_from_surrogate_le: "unat (from_surrogate hi lo) \<le> 0x10FFFF"
  using mod_less_divisor [of 1024 "unat hi"] mod_less_divisor [of 1024 "unat lo"]
  by (simp add: unat_from_surrogate del: mod_less_divisor)

lemma escape_unicode_bounds:
  assumes "escape_unicode buf p a = Some (c, p')"
  shows "steps buf p p' \<and> unat c \<le> 0x10FFFF"
proof (cases "rd buf p = CH_lbrace \<and> a \<noteq> 0")
  case True
  with assms show ?thesis
    using hex_braces_loop_steps [of buf "p + 1" 0 c p']
    by (simp add: escape_unicode_def steps_def word_le_nat_alt)
next
  case False
  show ?thesis
  proof (cases "hex4_loop buf p 4 0")
    case None
    then have "escape_unicode buf p a = None" unfolding escape_unicode_def if_not_P [OF False] by simp
    with assms show ?thesis by simp
  next
    case (Some cp)
    obtain c1 p1 where h: "hex4_loop buf p 4 0 = Some (c1, p1)" using Some by (cases cp) simp
    have p1: "steps buf p p1" "unat c1 < 0x10000" "p1 = p + 4"
      using hex4_loop_steps [OF h] hex4_loop_start [OF h] by (simp_all add: steps_def)
    from escape_unicode_hex4 [OF h False] assms p1 show ?thesis
      using unat_from_surrogate_le by (auto simp: steps_def dest!: hex4_loop_steps)
  qed
qed

lemma octal_value:
  assumes "is_octal b"
  shows "unat (ucast b - 0x30 :: u32) < 8"
proof -
  have "48 \<le> unat b" "unat b \<le> 55" using assms by (simp_all add: is_octal_def word_le_nat_alt)
  then show ?thesis by (simp add: unat_ucast_u8_u32 unat_sub_if_size)
qed

lemma escape_hex2_bounds:
  assumes "escape_hex2 buf p = Some (c, p')"
  shows "steps buf p p' \<and> unat c < 256"
proof -
  from assms obtain h0 h1 where h: "from_hex (rd buf p) = Some h0" "from_hex (rd buf (p + 1)) = Some h1"
    "c = push_bit 4 h0 OR h1" "p' = p + 2"
    by (auto simp: escape_hex2_def split: option.splits)
  have "unat c < 2 ^ (4 + 4)"
    unfolding h(3) using from_hex_less [OF h(1)] from_hex_less [OF h(2)]
    by (intro join_nibble_less) (simp_all add: word_less_nat_alt)
  then show ?thesis using hex_in_buffer [OF h(2)] h(4) by (simp add: steps_def)
qed

lemma octal_in_buffer: "is_octal (rd buf p) \<Longrightarrow> p < length buf"
  by (rule rd_neq_0_bound) (auto simp: is_octal_def)

lemma join_octal_less:
  assumes "unat (c :: u32) < 2 ^ k" "is_octal b" "k + 3 < 32"
  shows "unat (push_bit 3 c OR (ucast b - 0x30)) < 2 ^ (k + 3)"
proof (rule or_less_pow2)
  have lt: "unat c * 8 < 2 ^ (k + 3)" using assms(1) by (simp add: power_add)
  also have "(2 :: nat) ^ (k + 3) \<le> 2 ^ 32" using assms(3) by (intro power_increasing) simp_all
  finally have "unat (push_bit 3 c) = unat c * 8"
    by (simp add: push_bit_eq_mult unat_word_ariths)
  with lt show "unat (push_bit 3 c) < 2 ^ (k + 3)" by simp
  have "(8 :: nat) \<le> 2 ^ (k + 3)" by (simp add: power_add)
  with octal_value [OF assms(2)] show "unat (ucast b - 0x30 :: u32) < 2 ^ (k + 3)" by simp
qed

lemma escape_octal_bounds:
  assumes "unat c < 8"
  shows "p \<le> snd (escape_octal buf p c) \<and> (p \<le> length buf \<longrightarrow> snd (escape_octal buf p c) \<le> length buf)
    \<and> unat (fst (escape_octal buf p c)) < 256"
proof (cases "is_octal (rd buf p)")
  case False
  then show ?thesis using assms by (simp add: escape_octal_def)
next
  case True
  define c1 where "c1 = push_bit 3 c OR (ucast (rd buf p) - 0x30)"
  have c1: "unat c1 < 64" using join_octal_less [of c 3 "rd buf p"] assms True by (simp add: c1_def)
  show ?thesis
  proof (cases "c1 \<ge> 32 \<or> \<not> is_octal (rd buf (p + 1))")
    case True
    then have "escape_octal buf p c = (c1, p + 1)"
      using \<open>is_octal (rd buf p)\<close> by (auto simp: escape_octal_def c1_def Let_def)
    then show ?thesis using c1 octal_in_buffer [OF \<open>is_octal (rd buf p)\<close>] by simp
  next
    case False
    then have "unat c1 < 2 ^ 5" by (simp add: word_le_nat_alt)
    then have "unat (push_bit 3 c1 OR (ucast (rd buf (p + 1)) - 0x30)) < 2 ^ (5 + 3)"
      using False by (intro join_octal_less) simp_all
    moreover have "escape_octal buf p c = (push_bit 3 c1 OR (ucast (rd buf (p + 1)) - 0x30), p + 2)"
      using \<open>is_octal (rd buf p)\<close> False by (simp add: escape_octal_def c1_def Let_def)
    ultimately show ?thesis using octal_in_buffer [of buf "p + 1"] False by simp
  qed
qed

lemma uint_le_of_unat: "unat v \<le> n \<Longrightarrow> uint v \<le> int n"
  using of_nat_mono [of "unat v" n, where ?'a = int] by simp

definition escape_ok :: "u8 list \<Rightarrow> nat \<Rightarrow> int \<times> nat \<Rightarrow> bool" where
  "escape_ok buf p r \<longleftrightarrow> (fst r = -1 \<or> fst r = -2) \<and> snd r = p
     \<or> fst r \<in> {0..0x10FFFF} \<and> p < snd r \<and> snd r \<le> length buf"

lemma escape_ok_result:
  "(\<And>v q. r = Some (v, q) \<Longrightarrow> p < q \<and> q \<le> length buf \<and> unat v \<le> 0x10FFFF)
     \<Longrightarrow> escape_ok buf p (escape_result p r)"
  using uint_le_of_unat [of "fst (the r)" "0x10FFFF"]
  by (cases r) (auto simp: escape_ok_def escape_result_def)

lemma escape_ok_if: "(b \<Longrightarrow> escape_ok buf p x) \<Longrightarrow> (\<not> b \<Longrightarrow> escape_ok buf p y) \<Longrightarrow> escape_ok buf p (if b then x else y)"
  by simp

lemma escape_ok_parts:
  "escape_ok buf p (escape_result p (escape_hex2 buf (p + 1)))"
  "escape_ok buf p (escape_result p (escape_unicode buf (p + 1) a))"
  "is_octal (rd buf p) \<Longrightarrow>
     escape_ok buf p (escape_result p (Some (escape_octal buf (p + 1) (ucast (rd buf p) - 0x30))))"
  by (rule escape_ok_result, drule escape_hex2_bounds, simp add: steps_def)
    (rule escape_ok_result, drule escape_unicode_bounds, simp add: steps_def,
     rule escape_ok_result,
     use escape_octal_bounds [OF octal_value, of "rd buf p" "p + 1" buf] octal_in_buffer [of buf p] in simp)

lemma escape_ok_escape: "escape_ok buf p (lre_parse_escape buf p a)"
proof -
  have one: "rd buf p \<noteq> 0 \<Longrightarrow> v \<in> {0..0x10FFFF} \<Longrightarrow> escape_ok buf p (v, p + 1)" for v
    using rd_neq_0_bound [of buf p] by (auto simp: escape_ok_def)
  have none: "escape_ok buf p (-1, p)" "escape_ok buf p (-2, p)" by (simp_all add: escape_ok_def)
  show ?thesis
    unfolding lre_parse_escape_def Let_def
    by (intro escape_ok_if escape_ok_parts none one) auto
qed

text \<open>C14: Every result of \<open>lre_parse_escape\<close>, on any bytes, in any of its three modes, is either -1 or
  -2 with the pointer left where it was, or a code point (0 to 0x10FFFF) with the pointer moved
  forward, at most to the terminator of the pattern.
\<close>

theorem lre_parse_escape_bounds:
  "(fst (lre_parse_escape buf p a) = -1 \<or> fst (lre_parse_escape buf p a) = -2)
      \<and> snd (lre_parse_escape buf p a) = p
   \<or> fst (lre_parse_escape buf p a) \<in> {0..0x10FFFF}
      \<and> p < snd (lre_parse_escape buf p a) \<and> snd (lre_parse_escape buf p a) \<le> length buf"
  using escape_ok_escape [of buf p a] by (simp only: escape_ok_def)


subsection \<open>Identifiers and group names\<close>

definition lre_id_start_table_ascii :: "u32 list" where
  "lre_id_start_table_ascii = [0x00000000, 0x00000010, 0x87FFFFFE, 0x07FFFFFE]"

definition lre_id_continue_table_ascii :: "u32 list" where
  "lre_id_continue_table_ascii = [0x00000000, 0x03FF0010, 0x87FFFFFE, 0x07FFFFFE]"

text \<open>The table searches below are never undefined (theory \<open>UnicodeLookup\<close>).\<close>

definition lre_js_is_ident_first :: "u32 \<Rightarrow> bool" where
  "lre_js_is_ident_first c \<longleftrightarrow>
     (if c < 128
      then drop_bit (unat (c AND 31)) (lre_id_start_table_ascii ! unat (drop_bit 5 c)) AND 1 \<noteq> 0
      else lre_is_id_start c = Some True)"

definition lre_js_is_ident_next :: "u32 \<Rightarrow> bool" where
  "lre_js_is_ident_next c \<longleftrightarrow>
     (if c < 128
      then drop_bit (unat (c AND 31)) (lre_id_continue_table_ascii ! unat (drop_bit 5 c)) AND 1 \<noteq> 0
      else lre_is_id_continue c = Some True \<or> c = 0x200C \<or> c = 0x200D)"

text \<open>
  One character of a group name: its code point and the offset after it. An escape that is
  malformed, or none, is \<open>None\<close> (the code goes on with a code point above 0x10FFFF and
  returns -1).
\<close>

definition group_name_char :: "u8 list \<Rightarrow> nat \<Rightarrow> (u32 \<times> nat) option" where
  "group_name_char buf p =
     (let c = rd buf p in
      if c = CH_backslash then
        (if rd buf (p + 1) \<noteq> CH_u then None
         else case lre_parse_escape buf (p + 1) 2 of
                (ret, p') \<Rightarrow> if ret < 0 then None else Some (of_int ret, p'))
      else if c \<ge> 128 then
        (case utf8_decode_len buf p UTF8_CHAR_LEN_MAX of
           (c, p') \<Rightarrow>
             if is_hi_surrogate c then
               (case utf8_decode_len buf p' UTF8_CHAR_LEN_MAX of
                  (d, p1) \<Rightarrow> if is_lo_surrogate d then Some (from_surrogate c d, p1) else Some (c, p'))
             else Some (c, p'))
      else Some (ucast c, p + 1))"

text \<open>
  \<open>q\<close> is the part of the name already in the buffer. The name ends at the character \<open>>\<close>,
  and the pattern at a 0, which is no identifier character. \<open>None\<close> is -1.
\<close>

fun group_name_step :: "u8 list \<Rightarrow> nat \<Rightarrow> nat \<Rightarrow> u8 list \<Rightarrow> (u8 list \<times> nat) option" where
  "group_name_step buf buf_size p q =
     (case group_name_char buf p of
        None \<Rightarrow> None
      | Some (c, p') \<Rightarrow>
          if c > 0x10FFFF then None
          else if \<not> (if q = [] then lre_js_is_ident_first c else lre_js_is_ident_next c) then None
          else if length q + UTF8_CHAR_LEN_MAX + 1 > buf_size then None
          else Some (q @ (if c < 128 then [ucast c] else utf8_encode c), p'))"

declare group_name_step.simps [simp del]

lemma utf8_encode_not_Nil: "utf8_encode c \<noteq> []"
  by (simp add: utf8_encode_def)

lemma group_name_step_grows:
  "group_name_step buf n p q = Some (q', p') \<Longrightarrow> length q < length q' \<and> length q + 5 \<le> n"
  by (auto simp: group_name_step.simps utf8_encode_not_Nil split: option.splits if_splits)

function group_name_loop :: "u8 list \<Rightarrow> nat \<Rightarrow> nat \<Rightarrow> u8 list \<Rightarrow> (u8 list \<times> nat) option" where
  "group_name_loop buf buf_size p q =
     (if rd buf p = CH_gt then Some (q, p)
      else case group_name_step buf buf_size p q of
             None \<Rightarrow> None
           | Some (q', p') \<Rightarrow> group_name_loop buf buf_size p' q')"
  by pat_completeness auto
termination group_name_loop
  by (relation "measure (\<lambda>(buf, n, p, q). n - length q)") (auto dest: group_name_step_grows)

declare group_name_loop.simps [simp del]

definition re_parse_group_name :: "nat \<Rightarrow> u8 list \<Rightarrow> nat \<Rightarrow> (u8 list \<times> nat) option" where
  "re_parse_group_name buf_size buf p =
     (case group_name_loop buf buf_size p [] of
        None \<Rightarrow> None
      | Some (q, p') \<Rightarrow> if q = [] then None else Some (q, p' + 1))"

text \<open>The pointers of a group name.\<close>

lemma cont_in_buffer: "is_cont (rd buf p) \<Longrightarrow> p < length buf"
  by (rule rd_neq_0_bound) (auto simp: is_cont_def)

lemma utf8_decode_steps:
  assumes "p < length buf"
  shows "steps buf p (snd (utf8_decode buf p))"
proof -
  have n2: "steps buf p (snd (utf8_need2 buf (p + 1) c l))" for c l
    using assms cont_in_buffer [of buf "p + 2"] by (auto simp: utf8_need2_def steps_def Let_def)
  have n3: "steps buf p (snd (utf8_need3 buf (p + 1) c l u))" for c l u
    using assms cont_in_buffer [of buf "p + 3"] by (auto simp: utf8_need3_def steps_def Let_def numeral_3_eq_3)
  have iff: "(b \<Longrightarrow> steps buf p (snd x)) \<Longrightarrow> (\<not> b \<Longrightarrow> steps buf p (snd y)) \<Longrightarrow> steps buf p (snd (if b then x else y))"
    for b and x y :: "u32 \<times> nat"
    by simp
  show ?thesis
    unfolding utf8_decode_def Let_def
    using assms cont_in_buffer [of buf "p + 1"] by (intro iff n2 n3) (simp_all add: steps_def)
qed

lemma utf8_decode_len_steps: "p < length buf \<Longrightarrow> steps buf p (snd (utf8_decode_len buf p UTF8_CHAR_LEN_MAX))"
  using utf8_decode_steps by (simp add: utf8_decode_len_def)

lemma utf8_decode_end: "length buf \<le> p \<Longrightarrow> fst (utf8_decode_len buf p UTF8_CHAR_LEN_MAX) = 0"
  by (simp add: utf8_decode_len_def utf8_decode_def)

lemma escape_steps:
  assumes "lre_parse_escape buf p a = (ret, p')" "0 \<le> ret"
  shows "steps buf p p'" "ret \<le> 0x10FFFF"
proof -
  have "escape_ok buf p (ret, p')" using escape_ok_escape [of buf p a] assms(1) by simp
  with assms(2) show "steps buf p p'" "ret \<le> 0x10FFFF" by (auto simp: escape_ok_def steps_def)
qed

lemma group_name_char_steps:
  assumes "group_name_char buf p = Some (c, p')" "p < length buf"
  shows "steps buf p p'"
proof (cases "rd buf p = CH_backslash")
  case True
  with assms(1) obtain ret where e: "lre_parse_escape buf (p + 1) 2 = (ret, p')" "0 \<le> ret"
    by (auto simp: group_name_char_def split: if_splits prod.splits)
  from escape_steps(1) [OF e] show ?thesis by (simp add: steps_def)
next
  case bs: False
  show ?thesis
  proof (cases "rd buf p \<ge> 128")
    case True
    obtain d q where d: "utf8_decode_len buf p UTF8_CHAR_LEN_MAX = (d, q)" by (rule prod.exhaust)
    obtain e q2 where e: "utf8_decode_len buf q UTF8_CHAR_LEN_MAX = (e, q2)" by (rule prod.exhaust)
    have sd: "steps buf p q" using utf8_decode_len_steps [OF assms(2)] d by simp
    have "p' = q \<or> p' = q2 \<and> is_lo_surrogate e"
      using assms(1) bs True d e by (auto simp: group_name_char_def Let_def split: if_splits)
    moreover have "steps buf q q2" if "is_lo_surrogate e"
    proof -
      have "e \<noteq> 0" using that by (auto simp: is_lo_surrogate_iff)
      then have "q < length buf" using utf8_decode_end [of buf q] e by (cases "q < length buf") auto
      then show ?thesis using utf8_decode_len_steps [of q buf] e by simp
    qed
    ultimately show ?thesis using sd steps_trans by blast
  next
    case False
    with assms bs show ?thesis by (auto simp: group_name_char_def steps_def Let_def)
  qed
qed

lemma ident_zero: "\<not> lre_js_is_ident_first 0" "\<not> lre_js_is_ident_next 0"
  by code_simp+

lemma group_name_step_steps:
  assumes "group_name_step buf n p q = Some (q', p')"
  shows "steps buf p p'"
proof -
  obtain c p2 where g: "group_name_char buf p = Some (c, p2)"
    using assms by (cases "group_name_char buf p") (auto simp: group_name_step.simps)
  note eq = assms [unfolded group_name_step.simps g option.case prod.case]
  have ident: "if q = [] then lre_js_is_ident_first c else lre_js_is_ident_next c"
    using eq by (cases "q = []") (simp_all split: if_splits)
  have "p2 = p'" using eq by (simp split: if_splits)
  with g ident have c: "group_name_char buf p = Some (c, p')"
    "if q = [] then lre_js_is_ident_first c else lre_js_is_ident_next c" by simp_all
  have "c \<noteq> 0" using c(2) ident_zero by (auto split: if_splits)
  have "p < length buf"
  proof (rule ccontr)
    assume "\<not> p < length buf"
    then have "group_name_char buf p = Some (0, p + 1)" by (simp add: group_name_char_def)
    with c(1) \<open>c \<noteq> 0\<close> show False by simp
  qed
  from group_name_char_steps [OF c(1) this] show ?thesis .
qed

lemma group_name_loop_steps:
  "group_name_loop buf n p q = Some (q', p') \<Longrightarrow> p \<le> p' \<and> p' < length buf"
proof (induction buf n p q rule: group_name_loop.induct)
  case (1 buf n p q)
  show ?case
  proof (cases "rd buf p = CH_gt")
    case True
    then show ?thesis using 1(2) rd_neq_0_bound [of buf p] by (simp add: group_name_loop.simps [of buf n p])
  next
    case False
    then obtain q1 p1 where s: "group_name_step buf n p q = Some (q1, p1)"
      "group_name_loop buf n p1 q1 = Some (q', p')"
      using 1(2) by (auto simp: group_name_loop.simps [of buf n p] split: option.splits)
    from 1(1) [OF False s(1) refl s(2)] group_name_step_steps [OF s(1)] show ?thesis
      by (simp add: steps_def)
  qed
qed

lemma re_parse_group_name_steps:
  "re_parse_group_name n buf p = Some (name, p') \<Longrightarrow> steps buf p p'"
  by (auto simp: re_parse_group_name_def steps_def split: option.splits if_splits dest!: group_name_loop_steps)

subsection \<open>Counting groups\<close>

text \<open>
  \<open>re_parse_captures\<close> scans the pattern without parsing it. The state changes only by the
  indices it emits. The result is the returned integer, \<open>*phas_named_captures\<close> and the state.
\<close>

function skip_class :: "u8 list \<Rightarrow> nat \<Rightarrow> nat" where
  "skip_class buf p =
     (if p < length buf \<and> rd buf p \<noteq> CH_rbracket
      then skip_class buf (if rd buf p = CH_backslash then p + 2 else p + 1)
      else p)"
  by pat_completeness auto
termination skip_class by (relation "measure (\<lambda>(buf, p). length buf - p)") auto

declare skip_class.simps [simp del]

text \<open>A named group: the number of matches, the offset of the last character read, the state.\<close>

definition match_capture_name ::
    "re_parse_state \<Rightarrow> u8 list option \<Rightarrow> bool \<Rightarrow> nat \<Rightarrow> int \<Rightarrow> int \<Rightarrow> int \<times> nat \<times> re_parse_state" where
  "match_capture_name s capture_name emit_group_index p capture_index n =
     (case capture_name of
        None \<Rightarrow> (n, p, s)
      | Some cname \<Rightarrow>
          (case re_parse_group_name TMP_BUF_SIZE (ps_buf s) (p + 3) of
             None \<Rightarrow> (n, p + 3, s)
           | Some (name, p') \<Rightarrow>
               if name = cname
               then (n + 1, p', if emit_group_index then emit_u8 (of_int capture_index) s else s)
               else (n, p', s)))"

definition is_named_group :: "u8 list \<Rightarrow> nat \<Rightarrow> bool" where
  "is_named_group buf p \<longleftrightarrow>
     rd buf (p + 2) = CH_lt \<and> rd buf (p + 3) \<noteq> CH_equal \<and> rd buf (p + 3) \<noteq> CH_exclam"


lemma match_capture_name_ge:
  "match_capture_name s cname emit p i n = (n', p', s') \<Longrightarrow> p \<le> p'"
  by (auto simp: match_capture_name_def steps_def split: option.splits if_splits
      dest!: re_parse_group_name_steps)

text \<open>\<open>k\<close> is \<open>capture_index\<close>, \<open>named\<close> is \<open>*phas_named_captures\<close>.\<close>

function captures_loop ::
    "u8 list option \<Rightarrow> bool \<Rightarrow> nat \<Rightarrow> int \<Rightarrow> int \<Rightarrow> int \<Rightarrow> re_parse_state \<Rightarrow> int \<times> int \<times> int \<times> re_parse_state" where
  "captures_loop cname emit p k n named s =
     (if \<not> p < length (ps_buf s) then (k, n, named, s)
      else
        let c = rd (ps_buf s) p in
        if c = CH_lparen then
          (if rd (ps_buf s) (p + 1) = CH_question then
             (if is_named_group (ps_buf s) p then
                (case match_capture_name s cname emit p k n of
                   (n', p', s') \<Rightarrow>
                     if k + 1 \<ge> int CAPTURE_COUNT_MAX then (k + 1, n', 1, s')
                     else captures_loop cname emit (p' + 1) (k + 1) n' 1 s')
              else captures_loop cname emit (p + 1) k n named s)
           else if k + 1 \<ge> int CAPTURE_COUNT_MAX then (k + 1, n, named, s)
           else captures_loop cname emit (p + 1) (k + 1) n named s)
        else if c = CH_backslash then captures_loop cname emit (p + 2) k n named s
        else if c = CH_lbracket then
          captures_loop cname emit (skip_class (ps_buf s) (p + 1) + 1) k n named s
        else captures_loop cname emit (p + 1) k n named s)"
  by pat_completeness auto

lemma skip_class_ge: "p \<le> skip_class buf p"
proof (induction buf p rule: skip_class.induct)
  case (1 buf p)
  show ?case
  proof (cases "p < length buf \<and> rd buf p \<noteq> CH_rbracket")
    case True
    then show ?thesis using 1 by (cases "rd buf p = CH_backslash") (auto simp: skip_class.simps [of buf p])
  qed (auto simp: skip_class.simps [of buf p])
qed

lemma ps_buf_emit [simp]: "ps_buf (emit_u8 v s) = ps_buf s"
  by (simp add: emit_u8_def)

lemma match_capture_name_moves:
  assumes "(n', p', s') = match_capture_name s cname emit p i n"
  shows "p \<le> p' \<and> ps_buf s' = ps_buf s"
  using match_capture_name_ge [OF assms [symmetric]] assms
  by (auto simp: match_capture_name_def split: option.splits if_splits)

termination captures_loop
  by (relation "measure (\<lambda>(cname, emit, p, k, n, named, s). length (ps_buf s) - p)")
    (auto intro!: diff_less_mono2 order.trans [OF _ skip_class_ge] simp: less_Suc_eq_le le_SucI
       dest!: match_capture_name_moves)

declare captures_loop.simps [simp del]

definition re_parse_captures ::
    "re_parse_state \<Rightarrow> u8 list option \<Rightarrow> bool \<Rightarrow> int \<times> int \<times> re_parse_state" where
  "re_parse_captures s capture_name emit_group_index =
     (case captures_loop capture_name emit_group_index 0 1 0 0 s of
        (capture_index, n, named, s') \<Rightarrow>
          (if capture_name = None then capture_index else n, named, s'))"

definition re_count_captures :: "re_parse_state \<Rightarrow> int \<times> re_parse_state" where
  "re_count_captures s =
     (if ps_total_capture_count s < 0 then
        (case re_parse_captures s None False of
           (n, named, s') \<Rightarrow>
             (n, s'\<lparr>ps_total_capture_count := n, ps_has_named_captures := named\<rparr>))
      else (ps_total_capture_count s, s))"

definition re_has_named_captures :: "re_parse_state \<Rightarrow> bool \<times> re_parse_state" where
  "re_has_named_captures s =
     (let s' = (if ps_has_named_captures s < 0 then snd (re_count_captures s) else s)
      in (ps_has_named_captures s' \<noteq> 0, s'))"

subsection \<open>The names of the groups parsed so far\<close>

text \<open>
  \<open>group_names\<close> holds, for each group, its name, a 0 and a scope byte. \<open>name_at\<close> is the
  string at an offset: the bytes before the next 0.
\<close>

definition name_at :: "u8 list \<Rightarrow> nat \<Rightarrow> u8 list" where
  "name_at names p = takeWhile (\<lambda>b. b \<noteq> 0) (drop p names)"

function find_group_loop ::
    "u8 list \<Rightarrow> bool \<Rightarrow> nat \<Rightarrow> int \<Rightarrow> int \<Rightarrow> re_parse_state \<Rightarrow> int \<times> re_parse_state" where
  "find_group_loop name emit p k n s =
     (let names = db_buf (ps_group_names s) in
      if p < length names then
        (let nm = name_at names p; p' = p + length nm + LRE_GROUP_NAME_TRAILER_LEN in
         if nm = name
         then find_group_loop name emit p' (k + 1) (n + 1) (if emit then emit_u8 (of_int k) s else s)
         else find_group_loop name emit p' (k + 1) n s)
      else (n, s))"
  by pat_completeness auto

lemma ps_group_names_emit [simp]: "ps_group_names (emit_u8 v s) = ps_group_names s"
  by (simp add: emit_u8_def)

termination find_group_loop
  by (relation "measure (\<lambda>(name, emit, p, k, n, s). db_size (ps_group_names s) - p)")
    (auto intro: diff_less_mono2)

declare find_group_loop.simps [simp del]

definition find_group_name :: "re_parse_state \<Rightarrow> u8 list \<Rightarrow> bool \<Rightarrow> int \<times> re_parse_state" where
  "find_group_name s name emit_group_index = find_group_loop name emit_group_index 0 1 0 s"

function duplicate_group_loop :: "u8 list \<Rightarrow> u8 list \<Rightarrow> u8 \<Rightarrow> nat \<Rightarrow> bool" where
  "duplicate_group_loop names name scope p =
     (if p < length names then
        (let nm = name_at names p in
         if nm = name \<and> rd names (p + length nm + 1) = scope then True
         else duplicate_group_loop names name scope (p + length nm + LRE_GROUP_NAME_TRAILER_LEN))
      else False)"
  by pat_completeness auto
termination duplicate_group_loop
  by (relation "measure (\<lambda>(names, name, scope, p). length names - p)") (auto intro: diff_less_mono2)

declare duplicate_group_loop.simps [simp del]

definition is_duplicate_group_name :: "re_parse_state \<Rightarrow> u8 list \<Rightarrow> u8 \<Rightarrow> bool" where
  "is_duplicate_group_name s name scope =
     duplicate_group_loop (db_buf (ps_group_names s)) name scope 0"

subsection \<open>The outcome of a parsing function\<close>

text \<open>
  A parsing function returns its results (\<open>Parsed\<close>), or -1 after storing a message in the
  state (\<open>Rejected\<close>; every caller passes -1 on). \<open>Hangs\<close> is a call that does not return,
  \<open>Crashed\<close> undefined behaviour: a write outside an allocated block, an index outside an
  array, a failed assertion. \<open>Out_of_fuel\<close> marks a recursion deeper than the fuel given to
  the model.
\<close>

datatype 'a parsed = Parsed 'a | Rejected re_parse_state | Hangs | Crashed | Out_of_fuel

primrec pbind :: "'a parsed \<Rightarrow> ('a \<Rightarrow> 'b parsed) \<Rightarrow> 'b parsed" where
  "pbind (Parsed x) f = f x"
| "pbind (Rejected s) f = Rejected s"
| "pbind Hangs f = Hangs"
| "pbind Crashed f = Crashed"
| "pbind Out_of_fuel f = Out_of_fuel"

lemma pbind_cong [fundef_cong]:
  "m = m' \<Longrightarrow> (\<And>x. m' = Parsed x \<Longrightarrow> f x = g x) \<Longrightarrow> pbind m f = pbind m' g"
  by (cases m') simp_all

lemma pbind_Parsed_iff: "pbind m f = Parsed y \<longleftrightarrow> (\<exists>x. m = Parsed x \<and> f x = Parsed y)"
  by (cases m) simp_all

definition parse_error :: "re_parse_state \<Rightarrow> string \<Rightarrow> 'a parsed" where
  "parse_error s msg = Rejected (snd (re_parse_error s msg))"

definition out_of_memory :: "re_parse_state \<Rightarrow> 'a parsed" where
  "out_of_memory s = Rejected (snd (re_parse_out_of_memory s))"

definition quoted :: "u8 \<Rightarrow> string" where
  "quoted c = [CHR 0x27, char_of (unat c), CHR 0x27]"

text \<open>
  \<open>on_parsed P m\<close>: if \<open>m\<close> has a result, \<open>P\<close> holds of it and the model had fuel enough
  otherwise. The rules follow the structure of a parsing function.
\<close>

definition on_parsed :: "('a \<Rightarrow> bool) \<Rightarrow> 'a parsed \<Rightarrow> bool" where
  "on_parsed P m \<longleftrightarrow> (case m of Parsed x \<Rightarrow> P x | Out_of_fuel \<Rightarrow> False | _ \<Rightarrow> True)"

named_theorems parsed_rules

lemma on_parsed_simps [simp]:
  "on_parsed P (Parsed x) \<longleftrightarrow> P x" "on_parsed P (Rejected s)" "on_parsed P Hangs" "on_parsed P Crashed"
  "\<not> on_parsed P Out_of_fuel" "on_parsed P (parse_error s msg)" "on_parsed P (out_of_memory s)"
  by (simp_all add: on_parsed_def parse_error_def out_of_memory_def)

lemma on_parsed_if [parsed_rules]:
  "(b \<Longrightarrow> on_parsed P m) \<Longrightarrow> (\<not> b \<Longrightarrow> on_parsed P m') \<Longrightarrow> on_parsed P (if b then m else m')"
  by simp

lemma on_parsed_bind:
  "on_parsed Q m \<Longrightarrow> (\<And>x. Q x \<Longrightarrow> on_parsed P (f x)) \<Longrightarrow> on_parsed P (pbind m f)"
  by (cases m) simp_all

lemma on_parsed_mono: "on_parsed Q m \<Longrightarrow> (\<And>x. Q x \<Longrightarrow> P x) \<Longrightarrow> on_parsed P m"
  by (cases m) simp_all

lemma on_parsedD: "on_parsed P m \<Longrightarrow> m = Parsed x \<Longrightarrow> P x"
  by simp

lemma on_parsed_fuel: "on_parsed P m \<Longrightarrow> m \<noteq> Out_of_fuel"
  by (cases m) simp_all

lemma on_parsed_option [parsed_rules]:
  "(r = None \<Longrightarrow> on_parsed P m) \<Longrightarrow> (\<And>x. r = Some x \<Longrightarrow> on_parsed P (f x)) \<Longrightarrow>
     on_parsed P (case r of None \<Rightarrow> m | Some x \<Rightarrow> f x)"
  by (cases r) simp_all

lemma on_parsed_prod [parsed_rules]:
  "(\<And>x y. r = (x, y) \<Longrightarrow> on_parsed P (f x y)) \<Longrightarrow> on_parsed P (case r of (x, y) \<Rightarrow> f x y)"
  by (cases r) simp

definition re_parse_expect :: "re_parse_state \<Rightarrow> nat \<Rightarrow> u8 \<Rightarrow> nat parsed" where
  "re_parse_expect s p c =
     (if rd (ps_buf s) p \<noteq> c then parse_error s (''expecting '' @ quoted c) else Parsed (p + 1))"

subsection \<open>Modifiers\<close>

definition modifier_flag :: "u8 \<Rightarrow> u32 option" where
  "modifier_flag c =
     (if c = CH_i then Some LRE_FLAG_IGNORECASE
      else if c = CH_m then Some LRE_FLAG_MULTILINE
      else if c = CH_s then Some LRE_FLAG_DOTALL
      else None)"

lemma modifier_in_buffer: "modifier_flag (rd buf p) = Some v \<Longrightarrow> p < length buf"
  by (rule rd_neq_0_bound) (auto simp: modifier_flag_def)

function modifiers_loop :: "re_parse_state \<Rightarrow> nat \<Rightarrow> u32 \<Rightarrow> (u32 \<times> nat) parsed" where
  "modifiers_loop s p m =
     (case modifier_flag (rd (ps_buf s) p) of
        None \<Rightarrow> Parsed (m, p)
      | Some v \<Rightarrow>
          if m AND v \<noteq> 0
          then parse_error s (''duplicate modifier: '' @ quoted (rd (ps_buf s) p))
          else modifiers_loop s (p + 1) (m OR v))"
  by pat_completeness auto
termination modifiers_loop
  by (relation "measure (\<lambda>(s, p, m). length (ps_buf s) - p)")
    (auto dest: modifier_in_buffer intro: diff_less_mono2)

declare modifiers_loop.simps [simp del]

definition re_parse_modifiers :: "re_parse_state \<Rightarrow> nat \<Rightarrow> (u32 \<times> nat) parsed" where
  "re_parse_modifiers s p = modifiers_loop s p 0"

definition update_modifier :: "bool \<Rightarrow> u32 \<Rightarrow> u32 \<Rightarrow> u32 \<Rightarrow> bool" where
  "update_modifier val add_mask remove_mask flag =
     (if remove_mask AND flag \<noteq> 0 then False else if add_mask AND flag \<noteq> 0 then True else val)"

end
