(* ===== verification/StringList.thy ===== *)
theory StringList
  imports CharRange "HOL-Library.Multiset"
begin

text \<open>
  The string lists of \<open>libregexp/libregexp.c\<close> (\<open>REStringList\<close>): the union of a code point
  set and of the strings of a hash table, which is what a character class with \<open>\q{...}\<close>
  or a property of strings denotes. This theory models the hash table as it is, buckets, stored
  hashes and growth included, and shows which set of strings each operation computes.
\<close>

subsection \<open>The list and its operations\<close>

text \<open>
  A bucket is the chain of its strings. \<open>hash_size\<close> is the length of the table, \<open>len\<close> of a
  string the length of \<open>rs_buf\<close>. The allocator is the one of the code point set, as in C.
\<close>

record re_string =
  rs_hash :: u32
  rs_buf :: "u32 list"

record re_string_list =
  sl_cr :: char_range
  sl_n_strings :: nat
  sl_hash_bits :: nat
  sl_hash_table :: "re_string list list"

abbreviation sl_hash_size :: "re_string_list \<Rightarrow> nat" where
  "sl_hash_size s \<equiv> length (sl_hash_table s)"

definition re_string_hash :: "u32 list \<Rightarrow> u32" where
  "re_string_hash buf = hash32 (fold (\<lambda>b h. h * 263 + b) buf 1)"

definition re_string_list_init :: "realloc_func \<Rightarrow> re_string_list" where
  "re_string_list_init ra =
     \<lparr>sl_cr = cr_init ra, sl_n_strings = 0, sl_hash_bits = 0, sl_hash_table = []\<rparr>"

definition hash_slot :: "nat \<Rightarrow> u32 \<Rightarrow> nat" where
  "hash_slot bits h0 = unat (drop_bit (32 - bits) h0)"

definition rehash_one :: "nat \<Rightarrow> re_string \<Rightarrow> re_string list list \<Rightarrow> re_string list list" where
  "rehash_one bits p tab = (let h = hash_slot bits (rs_hash p) in tab[h := p # tab ! h])"

definition grow_table :: "re_string_list \<Rightarrow> int \<times> re_string_list" where
  "grow_table s =
     (let bits = nat (max_int (int (sl_hash_bits s) + 1) 4); sz = 2 ^ bits in
      if \<not> cr_realloc_func (sl_cr s) (8 * sz) then (-1, s)
      else (0, s\<lparr>sl_hash_bits := bits,
                 sl_hash_table := fold (fold (rehash_one bits)) (sl_hash_table s) (replicate sz [])\<rparr>))"

definition re_string_find2 ::
    "re_string_list \<Rightarrow> u32 list \<Rightarrow> u32 \<Rightarrow> bool \<Rightarrow> int \<times> re_string_list" where
  "re_string_find2 s buf h0 add_flag =
     (let h = (if sl_n_strings s \<noteq> 0 then hash_slot (sl_hash_bits s) h0 else 0) in
      if sl_n_strings s \<noteq> 0 \<and> (\<exists>p \<in> set (sl_hash_table s ! h). rs_hash p = h0 \<and> rs_buf p = buf)
      then (1, s)
      else if \<not> add_flag then (0, s)
      else
        let grow = sl_n_strings s + 1 > sl_hash_size s;
            (ret, s1) = (if grow then grow_table s else (0, s));
            h = (if grow then hash_slot (sl_hash_bits s1) h0 else h)
        in if ret \<noteq> 0 then (-1, s1)
           else if \<not> cr_realloc_func (sl_cr s1) (16 + 4 * length buf) then (-1, s1)
           else (1, s1\<lparr>sl_hash_table := (sl_hash_table s1)
                          [h := \<lparr>rs_hash = h0, rs_buf = buf\<rparr> # sl_hash_table s1 ! h],
                       sl_n_strings := sl_n_strings s1 + 1\<rparr>))"

definition re_string_find :: "re_string_list \<Rightarrow> u32 list \<Rightarrow> bool \<Rightarrow> int \<times> re_string_list" where
  "re_string_find s buf add_flag = re_string_find2 s buf (re_string_hash buf) add_flag"

definition re_string_add :: "re_string_list \<Rightarrow> u32 list \<Rightarrow> int \<times> re_string_list" where
  "re_string_add s buf =
     (if length buf = 1 then
        case cr_union_interval (sl_cr s) (hd buf) (hd buf) of (ret, cr) \<Rightarrow> (ret, s\<lparr>sl_cr := cr\<rparr>)
      else case re_string_find s buf True of (ret, s') \<Rightarrow> (if ret < 0 then -1 else 0, s'))"

text \<open>The loops of \<open>re_string_list_op\<close>: adding every string of \<open>b\<close>, and filtering those of \<open>a\<close>.\<close>

fun add_all :: "('s \<Rightarrow> 'x \<Rightarrow> int \<times> 's) \<Rightarrow> 'x list \<Rightarrow> 's \<Rightarrow> int \<times> 's" where
  "add_all add [] a = (0, a)"
| "add_all add (p # ps) a =
     (case add a p of (ret, a') \<Rightarrow> if ret < 0 then (-1, a') else add_all add ps a')"

definition add_string :: "re_string_list \<Rightarrow> re_string \<Rightarrow> int \<times> re_string_list" where
  "add_string a p = re_string_find2 a (rs_buf p) (rs_hash p) True"

definition keep_string :: "re_string_list \<Rightarrow> char_range_op \<Rightarrow> re_string \<Rightarrow> bool" where
  "keep_string b op p =
     (let ret = fst (re_string_find2 b (rs_buf p) (rs_hash p) False)
      in if op = CR_OP_SUB then ret = 0 else ret \<noteq> 0)"

definition filter_strings :: "re_string_list \<Rightarrow> char_range_op \<Rightarrow> re_string_list \<Rightarrow> re_string_list" where
  "filter_strings b op a =
     a\<lparr>sl_hash_table := map (filter (keep_string b op)) (sl_hash_table a),
       sl_n_strings := sl_n_strings a
         - length (filter (\<lambda>p. \<not> keep_string b op p) (concat (sl_hash_table a)))\<rparr>"

text \<open>\<open>None\<close> is the call of \<open>abort\<close>.\<close>

definition re_string_list_op ::
    "re_string_list \<Rightarrow> re_string_list \<Rightarrow> char_range_op \<Rightarrow> (int \<times> re_string_list) option" where
  "re_string_list_op a b op =
     (case cr_op1 (sl_cr a) (cr_points (sl_cr b)) op of
        (ret, cr) \<Rightarrow>
          let a' = a\<lparr>sl_cr := cr\<rparr> in
          if ret \<noteq> 0 then Some (-1, a')
          else case op of
            CR_OP_UNION \<Rightarrow>
              Some (if sl_n_strings b \<noteq> 0 then add_all add_string (concat (sl_hash_table b)) a' else (0, a'))
          | CR_OP_INTER \<Rightarrow> Some (0, filter_strings b op a')
          | CR_OP_SUB \<Rightarrow> Some (0, filter_strings b op a')
          | CR_OP_XOR \<Rightarrow> None)"

subsection \<open>The invariant of the hash table\<close>

definition sl_all :: "re_string_list \<Rightarrow> re_string list" where
  "sl_all s = concat (sl_hash_table s)"

definition table_ok :: "nat \<Rightarrow> re_string list list \<Rightarrow> bool" where
  "table_ok bits tab \<longleftrightarrow> length tab = (if bits = 0 then 0 else 2 ^ bits) \<and> bits \<le> 32
     \<and> (\<forall>i < length tab. \<forall>p \<in> set (tab ! i). hash_slot bits (rs_hash p) = i)"

definition string_ok :: "re_string \<Rightarrow> bool" where
  "string_ok p \<longleftrightarrow> rs_hash p = re_string_hash (rs_buf p) \<and> length (rs_buf p) \<noteq> 1"

definition sl_wf :: "re_string_list \<Rightarrow> bool" where
  "sl_wf s \<longleftrightarrow> table_ok (sl_hash_bits s) (sl_hash_table s)
     \<and> sl_n_strings s = length (sl_all s)
     \<and> distinct (map rs_buf (sl_all s))
     \<and> (\<forall>p \<in> set (sl_all s). string_ok p)
     \<and> cr_wf (cr_points (sl_cr s))"

definition sl_strings :: "re_string_list \<Rightarrow> u32 list set" where
  "sl_strings s = rs_buf ` set (sl_all s)"

lemma hash_slot_less: "bits \<le> 32 \<Longrightarrow> hash_slot bits h < 2 ^ bits"
proof -
  assume "bits \<le> 32"
  then have "(2::nat) ^ bits * 2 ^ (32 - bits) = 2 ^ 32" by (simp add: power_add [symmetric])
  moreover have "unat h < 2 ^ 32" using unsigned_less [of h] by simp
  ultimately have "unat h div 2 ^ (32 - bits) < 2 ^ bits"
    by (simp add: less_mult_imp_div_less)
  then show ?thesis by (simp add: hash_slot_def unat_drop_bit)
qed

lemma concat_update:
  "i < length tab \<Longrightarrow> mset (concat (tab[i := x # tab ! i])) = add_mset x (mset (concat tab))"
proof (induction tab arbitrary: i)
  case (Cons t tab)
  then show ?case by (cases i) auto
qed simp

lemma table_ok_update:
  assumes "table_ok bits tab" "bits \<noteq> 0"
  shows "table_ok bits (rehash_one bits p tab)"
    and "mset (concat (rehash_one bits p tab)) = add_mset p (mset (concat tab))"
proof -
  let ?h = "hash_slot bits (rs_hash p)"
  have h: "?h < length tab" using assms hash_slot_less [of bits] by (simp add: table_ok_def)
  show "mset (concat (rehash_one bits p tab)) = add_mset p (mset (concat tab))"
    using concat_update [OF h] by (simp add: rehash_one_def Let_def)
  show "table_ok bits (rehash_one bits p tab)"
    using assms h by (auto simp: table_ok_def rehash_one_def nth_list_update Let_def split: if_splits)
qed

lemma rehash_fold:
  assumes "table_ok bits tab" "bits \<noteq> 0"
  shows "table_ok bits (fold (rehash_one bits) ps tab)
    \<and> mset (concat (fold (rehash_one bits) ps tab)) = mset ps + mset (concat tab)"
  using assms(1)
proof (induction ps arbitrary: tab)
  case (Cons p ps)
  then show ?case using table_ok_update [OF Cons.prems assms(2)] by simp
qed simp

lemma rehash_table:
  assumes "table_ok bits tab" "bits \<noteq> 0"
  shows "table_ok bits (fold (fold (rehash_one bits)) old tab)
    \<and> mset (concat (fold (fold (rehash_one bits)) old tab)) = mset (concat old) + mset (concat tab)"
  using assms(1)
proof (induction old arbitrary: tab)
  case (Cons ps old)
  then show ?case using rehash_fold [OF Cons.prems assms(2), of ps] by simp
qed simp

lemma table_ok_replicate: "bits \<noteq> 0 \<Longrightarrow> bits \<le> 32 \<Longrightarrow> table_ok bits (replicate (2 ^ bits) [])"
  by (simp add: table_ok_def)

lemma in_concat_nth: "x \<in> set (concat tab) \<longleftrightarrow> (\<exists>i < length tab. x \<in> set (tab ! i))"
  by (simp add: set_conv_nth [of tab]) blast

lemma bits_nonzero: "sl_wf s \<Longrightarrow> sl_n_strings s \<noteq> 0 \<Longrightarrow> sl_hash_bits s \<noteq> 0"
  by (auto simp: sl_wf_def table_ok_def sl_all_def split: if_splits)

lemma find_iff:
  assumes "sl_wf s" "h0 = re_string_hash buf"
  shows "sl_n_strings s \<noteq> 0 \<and>
      (\<exists>p \<in> set (sl_hash_table s ! hash_slot (sl_hash_bits s) h0). rs_hash p = h0 \<and> rs_buf p = buf)
    \<longleftrightarrow> buf \<in> sl_strings s" (is "?l \<longleftrightarrow> _")
proof
  assume l: ?l
  then have "sl_hash_bits s \<noteq> 0" using bits_nonzero [OF assms(1)] by simp
  then have "hash_slot (sl_hash_bits s) h0 < sl_hash_size s"
    using assms(1) hash_slot_less [of "sl_hash_bits s"] by (simp add: sl_wf_def table_ok_def)
  with l show "buf \<in> sl_strings s"
    unfolding sl_strings_def sl_all_def image_iff Bex_def in_concat_nth by blast
next
  assume "buf \<in> sl_strings s"
  then obtain i p where i: "i < sl_hash_size s" and p: "p \<in> set (sl_hash_table s ! i)" "rs_buf p = buf"
    unfolding sl_strings_def sl_all_def image_iff Bex_def in_concat_nth by blast
  then have "p \<in> set (sl_all s)" unfolding sl_all_def in_concat_nth by blast
  then have "sl_n_strings s \<noteq> 0" "rs_hash p = h0"
    using assms i p by (auto simp: sl_wf_def string_ok_def)
  moreover have "hash_slot (sl_hash_bits s) (rs_hash p) = i"
    using assms(1) i p(1) by (simp add: sl_wf_def table_ok_def)
  ultimately have "sl_n_strings s \<noteq> 0" "rs_hash p = h0" "hash_slot (sl_hash_bits s) h0 = i" by auto
  then show ?l using p by blast
qed

text \<open>
  The slot of a string is computed before the table has been tested to hold strings, so a
  string may only be added to a table that is not an emptied one. The second bound keeps
  \<open>1 << hash_bits\<close> in range: a table doubles only when it is full.
\<close>

definition sl_ready :: "re_string_list \<Rightarrow> bool" where
  "sl_ready s \<longleftrightarrow> sl_wf s \<and> (sl_n_strings s = 0 \<longrightarrow> sl_hash_size s = 0)
     \<and> (sl_hash_size s \<le> 16 \<or> sl_hash_size s \<le> 2 * sl_n_strings s)"

lemma ready_bits:
  assumes "sl_ready s" "sl_n_strings s < 2 ^ 30"
  shows "sl_hash_bits s < 32"
proof (cases "sl_hash_bits s = 0")
  case False
  then have "(2::nat) ^ sl_hash_bits s = sl_hash_size s"
    using assms(1) by (simp add: sl_ready_def sl_wf_def table_ok_def)
  also have "\<dots> < 2 ^ 32" using assms by (auto simp: sl_ready_def)
  finally show ?thesis by (simp only: power_strict_increasing_iff one_less_numeral_iff semiring_norm)
qed simp

lemma grow_table_props:
  assumes "grow_table s = (ret, s')" "table_ok (sl_hash_bits s) (sl_hash_table s)" "sl_hash_bits s < 32"
  shows "ret = 0 \<and> table_ok (sl_hash_bits s') (sl_hash_table s') \<and> sl_hash_bits s' \<noteq> 0
       \<and> mset (sl_all s') = mset (sl_all s) \<and> sl_n_strings s' = sl_n_strings s \<and> sl_cr s' = sl_cr s
     \<or> ret = -1 \<and> s' = s \<and> (\<exists>n. \<not> cr_realloc_func (sl_cr s) n)"
proof -
  let ?bits = "nat (max_int (int (sl_hash_bits s) + 1) 4)"
  have bits: "?bits \<noteq> 0" "?bits \<le> 32" using assms(3) by (auto simp: max_int_def)
  note tab = rehash_table [OF table_ok_replicate [OF bits] bits(1), of "sl_hash_table s"]
  show ?thesis
    using assms(1) tab bits by (auto simp: grow_table_def Let_def sl_all_def split: if_splits)
qed

lemma sl_wf_mset:
  assumes "sl_wf s" "mset (sl_all s') = mset (sl_all s)" "sl_n_strings s' = sl_n_strings s"
    "sl_cr s' = sl_cr s" "table_ok (sl_hash_bits s') (sl_hash_table s')"
  shows "sl_wf s'" "sl_strings s' = sl_strings s"
proof -
  have "length (sl_all s') = length (sl_all s)" using assms(2) by (metis size_mset)
  moreover have "set (sl_all s') = set (sl_all s)" using assms(2) by (rule mset_eq_setD)
  moreover have "distinct (map rs_buf (sl_all s')) = distinct (map rs_buf (sl_all s))"
    using assms(2) by (metis mset_eq_imp_distinct_iff mset_map)
  ultimately show "sl_wf s'" "sl_strings s' = sl_strings s"
    using assms by (auto simp: sl_wf_def sl_strings_def)
qed

lemma sl_wf_insert:
  assumes "sl_wf s" "sl_hash_bits s \<noteq> 0" "buf \<notin> sl_strings s" "length buf \<noteq> 1"
    and "h0 = re_string_hash buf" "h = hash_slot (sl_hash_bits s) h0"
    and "s' = s\<lparr>sl_hash_table := (sl_hash_table s)[h := \<lparr>rs_hash = h0, rs_buf = buf\<rparr> # sl_hash_table s ! h],
               sl_n_strings := sl_n_strings s + 1\<rparr>"
  shows "sl_wf s'" "sl_strings s' = insert buf (sl_strings s)"
proof -
  let ?p = "\<lparr>rs_hash = h0, rs_buf = buf\<rparr>"
  have tab: "sl_hash_table s' = rehash_one (sl_hash_bits s) ?p (sl_hash_table s)"
    using assms(6,7) by (simp add: rehash_one_def Let_def)
  note up = table_ok_update [OF _ assms(2), of "sl_hash_table s" ?p, folded tab]
  have wf: "table_ok (sl_hash_bits s) (sl_hash_table s)" using assms(1) by (simp add: sl_wf_def)
  have ms: "mset (sl_all s') = mset (?p # sl_all s)" using up(2) [OF wf] by (simp add: sl_all_def)
  then have len: "length (sl_all s') = length (sl_all s) + 1" by (metis size_mset length_Cons Suc_eq_plus1)
  have st: "set (sl_all s') = insert ?p (set (sl_all s))" using ms by (metis list.set(2) mset_eq_setD)
  then show str: "sl_strings s' = insert buf (sl_strings s)" by (simp add: sl_strings_def)
  have "mset (map rs_buf (sl_all s')) = mset (map rs_buf (?p # sl_all s))" using ms by (metis mset_map)
  then have "distinct (map rs_buf (sl_all s')) = distinct (map rs_buf (?p # sl_all s))"
    by (rule mset_eq_imp_distinct_iff)
  also have "\<dots>" using assms(1,3) by (auto simp: sl_wf_def sl_strings_def)
  finally show "sl_wf s'"
    using assms up(1) [OF wf] len st by (auto simp: sl_wf_def string_ok_def)
qed

lemma grow_size:
  "grow_table s = (0, s') \<Longrightarrow> table_ok (sl_hash_bits s) (sl_hash_table s) \<Longrightarrow> sl_hash_bits s < 32 \<Longrightarrow>
   sl_hash_size s' \<le> 16 \<or> sl_hash_size s' = 2 * sl_hash_size s"
proof -
  assume grow: "grow_table s = (0, s')" "table_ok (sl_hash_bits s) (sl_hash_table s)" "sl_hash_bits s < 32"
  have "sl_hash_size s' = 2 ^ sl_hash_bits s'"
    using grow_table_props [OF grow] by (simp add: table_ok_def)
  moreover have "sl_hash_bits s' = nat (max_int (int (sl_hash_bits s) + 1) 4)"
    using grow(1) by (auto simp: grow_table_def Let_def split: if_splits)
  ultimately show ?thesis
    using grow(2) by (auto simp: max_int_def table_ok_def nat_add_distrib split: if_splits)
qed

lemma find2_add:
  assumes "re_string_find2 s buf (re_string_hash buf) True = (ret, s')" "sl_ready s"
    "sl_n_strings s < 2 ^ 30" "length buf \<noteq> 1"
  shows "ret = 1 \<and> sl_ready s' \<and> sl_strings s' = insert buf (sl_strings s) \<and> sl_cr s' = sl_cr s
       \<and> sl_n_strings s' \<le> sl_n_strings s + 1
     \<or> ret = -1 \<and> sl_wf s' \<and> sl_strings s' = sl_strings s \<and> sl_cr s' = sl_cr s
       \<and> (\<exists>n. \<not> cr_realloc_func (sl_cr s) n)"
proof (cases "buf \<in> sl_strings s")
  case True
  have wf: "sl_wf s" using assms(2) by (simp add: sl_ready_def)
  then show ?thesis
    using assms(1,2) True find_iff [OF wf refl, of buf]
    by (auto simp: re_string_find2_def Let_def split: if_splits)
next
  case False
  have wf: "sl_wf s" using assms(2) by (simp add: sl_ready_def)
  have tab: "table_ok (sl_hash_bits s) (sl_hash_table s)" using wf by (simp add: sl_wf_def)
  have bits: "sl_hash_bits s < 32" using assms(2,3) by (rule ready_bits)
  let ?grow = "sl_n_strings s + 1 > sl_hash_size s"
  obtain r s1 where grow: "(if ?grow then grow_table s else (0, s)) = (r, s1)" by fastforce
  let ?h = "hash_slot (sl_hash_bits s1) (re_string_hash buf)"
  let ?s2 = "s1\<lparr>sl_hash_table := (sl_hash_table s1)
      [?h := \<lparr>rs_hash = re_string_hash buf, rs_buf = buf\<rparr> # sl_hash_table s1 ! ?h],
      sl_n_strings := sl_n_strings s1 + 1\<rparr>"
  have s1: "r = 0 \<and> sl_wf s1 \<and> sl_strings s1 = sl_strings s \<and> sl_cr s1 = sl_cr s \<and> sl_hash_bits s1 \<noteq> 0
        \<and> sl_n_strings s1 = sl_n_strings s \<and> (sl_hash_size s1 \<le> 16 \<or> sl_hash_size s1 \<le> 2 * (sl_n_strings s + 1))
      \<or> r = -1 \<and> s1 = s \<and> (\<exists>n. \<not> cr_realloc_func (sl_cr s) n)"
  proof (cases ?grow)
    case True
    then have g: "grow_table s = (r, s1)" using grow by simp
    show ?thesis
      using grow_table_props [OF g tab bits] sl_wf_mset [OF wf, of s1] grow_size [of s s1] g tab bits True
      by fastforce
  next
    case False
    then have "sl_n_strings s \<noteq> 0" using assms(2) by (auto simp: sl_ready_def)
    then show ?thesis
      using False grow wf bits_nonzero [OF wf] assms(2) by (auto simp: sl_ready_def)
  qed
  have "sl_n_strings s \<noteq> 0" if "\<not> ?grow" using assms(2) that by (auto simp: sl_ready_def)
  then have run: "(ret, s') = (if r \<noteq> 0 then (-1, s1)
      else if \<not> cr_realloc_func (sl_cr s1) (16 + 4 * length buf) then (-1, s1) else (1, ?s2))"
    using assms(1) grow False find_iff [OF wf refl, of buf]
    by (auto simp: re_string_find2_def Let_def split: if_splits prod.splits)
  show ?thesis
  proof (cases "r = 0 \<and> cr_realloc_func (sl_cr s1) (16 + 4 * length buf)")
    case True
    then have s1': "sl_wf s1" "sl_hash_bits s1 \<noteq> 0" "buf \<notin> sl_strings s1" using s1 False by auto
    note ins = sl_wf_insert [OF s1' assms(4) refl refl refl]
    have "(ret, s') = (1, ?s2)" using run True by simp
    moreover have "sl_hash_size ?s2 = sl_hash_size s1" "sl_n_strings ?s2 = sl_n_strings s1 + 1"
      "sl_cr ?s2 = sl_cr s1" by simp_all
    ultimately show ?thesis using ins s1 True by (auto simp: sl_ready_def simp del: list_update_beyond)
  next
    case False
    then show ?thesis using run s1 wf by (auto split: if_splits)
  qed
qed

subsection \<open>Adding many strings\<close>

text \<open>
  The contract of an operation that adds one element to a collection: \<open>ok n\<close> is the
  invariant with room for \<open>n\<close> more elements, \<open>oom\<close> says that the allocator may fail.
\<close>

locale string_sink =
  fixes add :: "'s \<Rightarrow> 'x \<Rightarrow> int \<times> 's"
    and ok :: "nat \<Rightarrow> 's \<Rightarrow> bool"
    and good :: "'x \<Rightarrow> bool"
    and lang :: "'s \<Rightarrow> 'l set"
    and word :: "'x \<Rightarrow> 'l"
    and oom :: "'s \<Rightarrow> bool"
  assumes add_ok: "\<lbrakk>ok (Suc n) s; good x; add s x = (r, s')\<rbrakk> \<Longrightarrow>
      r \<ge> 0 \<and> ok n s' \<and> lang s' = insert (word x) (lang s) \<and> oom s' = oom s \<or> r < 0 \<and> oom s"
begin

lemma add_all_ok:
  "\<lbrakk>ok (length xs) s; \<forall>x \<in> set xs. good x; add_all add xs s = (r, s')\<rbrakk> \<Longrightarrow>
   r = 0 \<and> ok 0 s' \<and> lang s' = word ` set xs \<union> lang s \<and> oom s' = oom s \<or> r = -1 \<and> oom s"
proof (induction xs arbitrary: s)
  case (Cons x xs)
  obtain r1 s1 where one: "add s x = (r1, s1)" by fastforce
  show ?case
  proof (cases "r1 < 0")
    case True
    then show ?thesis using Cons.prems one add_ok [of "length xs" s x r1 s1] by auto
  next
    case False
    then have "ok (length xs) s1 \<and> lang s1 = insert (word x) (lang s) \<and> oom s1 = oom s"
      "add_all add xs s1 = (r, s')"
      using Cons.prems one add_ok [of "length xs" s x r1 s1] by auto
    moreover from this have "r = 0 \<and> ok 0 s' \<and> lang s' = word ` set xs \<union> lang s1 \<and> oom s' = oom s1 \<or> r = -1 \<and> oom s1"
      using Cons.IH [of s1] Cons.prems(2) by simp
    ultimately show ?thesis by auto
  qed
qed simp

end

text \<open>What a list denotes: the one-character strings of its set and the strings of its table.\<close>

definition sl_lang :: "re_string_list \<Rightarrow> u32 list set" where
  "sl_lang s = (\<lambda>c. [c]) ` cr_set (cr_points (sl_cr s)) \<union> sl_strings s"

definition sl_oom :: "re_string_list \<Rightarrow> bool" where
  "sl_oom s \<longleftrightarrow> (\<exists>n. \<not> cr_realloc_func (sl_cr s) n)"

definition sl_room :: "nat \<Rightarrow> re_string_list \<Rightarrow> bool" where
  "sl_room n s \<longleftrightarrow> sl_ready s \<and> sl_n_strings s + n \<le> 2 ^ 30"

interpretation strs: string_sink add_string sl_room string_ok sl_lang rs_buf sl_oom
proof
  fix n s p r s'
  assume "sl_room (Suc n) s" "string_ok p" "add_string s p = (r, s')"
  then have "re_string_find2 s (rs_buf p) (re_string_hash (rs_buf p)) True = (r, s')" "sl_ready s"
      "sl_n_strings s < 2 ^ 30" "length (rs_buf p) \<noteq> 1" and n: "sl_n_strings s + Suc n \<le> 2 ^ 30"
    by (simp_all add: add_string_def string_ok_def sl_room_def)
  from find2_add [OF this(1-4)]
  show "r \<ge> 0 \<and> sl_room n s' \<and> sl_lang s' = insert (rs_buf p) (sl_lang s) \<and> sl_oom s' = sl_oom s
      \<or> r < 0 \<and> sl_oom s"
    using n by (elim disjE) (simp_all add: sl_room_def sl_oom_def sl_lang_def)
qed

subsection \<open>The operations on languages\<close>

lemma strings_length: "sl_wf s \<Longrightarrow> x \<in> sl_strings s \<Longrightarrow> length x \<noteq> 1"
  by (auto simp: sl_wf_def string_ok_def sl_strings_def)

lemma keep_string_iff:
  assumes "sl_wf b" "string_ok p" "op \<noteq> CR_OP_UNION" "op \<noteq> CR_OP_XOR"
  shows "keep_string b op p \<longleftrightarrow> (rs_buf p \<in> sl_strings b) = (op = CR_OP_INTER)"
  using assms(2-4) find_iff [OF assms(1) refl, of "rs_buf p"]
  by (cases op) (auto simp: keep_string_def re_string_find2_def string_ok_def Let_def)

lemma filter_strings_props:
  assumes "sl_wf a" "sl_wf b" "op \<noteq> CR_OP_UNION" "op \<noteq> CR_OP_XOR"
  shows "sl_wf (filter_strings b op a)"
    and "sl_strings (filter_strings b op a) = set_op op (sl_strings a) (sl_strings b)"
proof -
  let ?a = "filter_strings b op a" and ?keep = "keep_string b op"
  have all: "sl_all ?a = filter ?keep (sl_all a)"
    by (simp add: filter_strings_def sl_all_def filter_concat)
  have ok: "\<forall>p \<in> set (sl_all a). string_ok p" using assms(1) by (simp add: sl_wf_def)
  have "sl_n_strings a = length (filter ?keep (sl_all a)) + length (filter (\<lambda>p. \<not> ?keep p) (sl_all a))"
    using assms(1) by (simp add: sl_wf_def sum_length_filter_compl)
  then have "sl_n_strings ?a = length (sl_all ?a)"
    by (simp add: all) (simp add: filter_strings_def sl_all_def)
  moreover have "table_ok (sl_hash_bits ?a) (sl_hash_table ?a)"
    using assms(1) by (auto simp: sl_wf_def table_ok_def filter_strings_def)
  moreover have "distinct (map rs_buf (sl_all ?a))"
    using assms(1) by (simp add: all sl_wf_def distinct_map_filter)
  ultimately show "sl_wf ?a" using assms(1) by (simp add: sl_wf_def all) (simp add: filter_strings_def)
  show "sl_strings ?a = set_op op (sl_strings a) (sl_strings b)"
  proof -
    have "set (sl_all ?a) = {p \<in> set (sl_all a). (rs_buf p \<in> sl_strings b) = (op = CR_OP_INTER)}"
      using ok keep_string_iff [OF assms(2) _ assms(3,4)] by (auto simp: all)
    then have "sl_strings ?a = {x \<in> sl_strings a. (x \<in> sl_strings b) = (op = CR_OP_INTER)}"
      by (auto simp: sl_strings_def [of ?a] sl_strings_def [of a])
    then show ?thesis using assms(3,4) by (cases op) auto
  qed
qed

lemma set_op_lang:
  fixes A B :: "'a set"
  assumes "op \<noteq> CR_OP_XOR" "\<And>c. [c] \<notin> S" "\<And>c. [c] \<notin> T"
  shows "(\<lambda>c. [c]) ` set_op op A B \<union> set_op op S T
    = set_op op ((\<lambda>c. [c]) ` A \<union> S) ((\<lambda>c. [c]) ` B \<union> T)"
  using assms by (cases op) auto

lemma cr_op_loop_realloc:
  "cr_op_loop op a b ai bi cr = (ret, cr') \<Longrightarrow> cr_realloc_func cr' = cr_realloc_func cr"
proof (induction op a b ai bi cr rule: cr_op_loop.induct)
  case (1 op a b ai bi cr)
  show ?case
  proof (cases "next_point a b ai bi")
    case None
    then show ?thesis using 1(3) by (simp add: cr_op_loop.simps [of op a b ai bi])
  next
    case (Some x)
    then obtain v ai' bi' where np: "next_point a b ai bi = Some (v, ai', bi')" by (cases x) auto
    show ?thesis
      using 1(1) [OF np refl refl] 1(2) [OF np refl refl] 1(3) np
      by (rule_tac cr_add_point_cases [of cr v])
        (auto simp: cr_op_loop.simps [of op a b ai bi] split: if_splits)
  qed
qed

lemma cr_op1_realloc: "cr_op1 cr b op = (ret, cr') \<Longrightarrow> cr_realloc_func cr' = cr_realloc_func cr"
  by (auto simp: cr_op1_def cr_op_def cr_compress_def Let_def split: prod.splits if_splits
      dest!: cr_op_loop_realloc)

lemma cr_op1_ret: "cr_op1 cr b op = (ret, cr') \<Longrightarrow> ret = 0 \<or> ret = -1 \<and> (\<exists>n. \<not> cr_realloc_func cr n)"
  using cr_op_alloc_ok [of "cr\<lparr>cr_points := [], cr_size := 0\<rparr>" "cr_points cr" b op]
    cr_op_loop_ret [of op "cr_points cr" b 0 0 "cr\<lparr>cr_points := [], cr_size := 0\<rparr>"]
  by (auto simp: cr_op1_def cr_op_def Let_def split: prod.splits if_splits)

lemma no_singleton: "sl_wf s \<Longrightarrow> [c] \<notin> sl_strings s"
  using strings_length [of s "[c]"] by auto

lemma re_string_list_op_ok:
  assumes "re_string_list_op a b op = Some (ret, a')"
    and "sl_wf a" "sl_wf b" "op = CR_OP_UNION \<Longrightarrow> sl_room (sl_n_strings b) a"
  shows "ret = 0 \<and> sl_wf a' \<and> sl_lang a' = set_op op (sl_lang a) (sl_lang b) \<or> ret = -1 \<and> sl_oom a"
proof -
  obtain r cr where run: "cr_op1 (sl_cr a) (cr_points (sl_cr b)) op = (r, cr)" by fastforce
  let ?a = "a\<lparr>sl_cr := cr\<rparr>"
  have xor: "op \<noteq> CR_OP_XOR" if "r = 0" using assms(1) run that by (auto simp: re_string_list_op_def Let_def)
  show ?thesis
  proof (cases "r = 0")
    case False
    then show ?thesis
      using assms(1) run cr_op1_ret [OF run] by (auto simp: re_string_list_op_def Let_def sl_oom_def)
  next
    case True
    note run = run [unfolded True]
    have "cr_wf (cr_points (sl_cr a))" "cr_wf (cr_points (sl_cr b))" using assms(2,3) by (auto simp: sl_wf_def)
    note props = cr_op1_props [OF run this]
    have cr: "cr_wf (cr_points cr)" "cr_set (cr_points cr) = set_op op (cr_set (cr_points (sl_cr a))) (cr_set (cr_points (sl_cr b)))"
      using props cr_set_op cr_canonical_wf by blast+
    have wf: "sl_wf ?a" using assms(2) cr(1) by (simp add: sl_wf_def sl_all_def)
    have keep: "sl_all ?a = sl_all a" "sl_strings ?a = sl_strings a" by (simp_all add: sl_all_def sl_strings_def)
    have oom: "sl_oom ?a = sl_oom a" using cr_op1_realloc [OF run] by (simp add: sl_oom_def)
    have lang: "sl_lang a' = set_op op (sl_lang a) (sl_lang b)"
      if "sl_cr a' = cr" "sl_strings a' = set_op op (sl_strings a) (sl_strings b)"
      using set_op_lang [OF xor [OF True] no_singleton [OF assms(2)] no_singleton [OF assms(3)]] cr(2) that
      by (simp add: sl_lang_def)
    show ?thesis
    proof (cases "op = CR_OP_UNION")
      case union: True
      show ?thesis
      proof (cases "sl_n_strings b = 0")
        case True
        then have "sl_strings b = {}" using assms(3) by (simp add: sl_wf_def sl_strings_def)
        moreover have "ret = 0" "a' = ?a"
          using assms(1) run \<open>r = 0\<close> union True by (simp_all add: re_string_list_op_def Let_def)
        ultimately show ?thesis using wf keep lang union by simp
      next
        case False
        then have add: "add_all add_string (sl_all b) ?a = (ret, a')"
          using assms(1) run \<open>r = 0\<close> union by (simp add: re_string_list_op_def Let_def sl_all_def)
        have "sl_room (length (sl_all b)) ?a"
          using assms(3,4) wf union by (simp add: sl_room_def sl_ready_def sl_wf_def [of b])
        moreover have "\<forall>p \<in> set (sl_all b). string_ok p" using assms(3) by (simp add: sl_wf_def)
        moreover have "rs_buf ` set (sl_all b) \<union> sl_lang ?a = set_op op (sl_lang a) (sl_lang b)"
          using cr(2) keep union by (auto simp: sl_lang_def) (auto simp: sl_strings_def)
        ultimately show ?thesis
          using strs.add_all_ok [OF _ _ add] oom by (auto simp: sl_room_def sl_ready_def)
      qed
    next
      case False
      then have a': "ret = 0" "a' = filter_strings b op ?a"
        using assms(1) run True xor by (cases op; simp add: re_string_list_op_def Let_def)+
      note f = filter_strings_props [OF wf assms(3) False xor [OF True]]
      show ?thesis
        using a' f lang keep by (simp add: filter_strings_def [of b op])
    qed
  qed
qed

lemma cr_mem_insert:
  "cr_union_interval cr c c = (0, cr') \<Longrightarrow> cr_wf (cr_points cr) \<Longrightarrow> c \<noteq> 0xFFFFFFFF \<Longrightarrow>
   cr_wf (cr_points cr') \<and> cr_set (cr_points cr') = insert c (cr_set (cr_points cr))"
  using cr_op1_props [of cr "[c, c + 1]" CR_OP_UNION cr'] cr_mem_interval [of c c] cr_canonical_wf
  by (auto simp: cr_union_interval_def cr_set_def op_is_in_def)

lemma re_string_add_ok:
  assumes "re_string_add s buf = (ret, s')" "sl_room (Suc n) s"
    and "length buf = 1 \<longrightarrow> hd buf \<noteq> 0xFFFFFFFF"
  shows "ret = 0 \<and> sl_room n s' \<and> sl_lang s' = insert buf (sl_lang s) \<and> sl_oom s' = sl_oom s
    \<or> ret = -1 \<and> sl_oom s"
proof (cases "length buf = 1")
  case True
  then obtain c where buf: "buf = [c]" "c \<noteq> 0xFFFFFFFF" using assms(3) by (cases buf) auto
  obtain r cr where run: "cr_union_interval (sl_cr s) c c = (r, cr)" by fastforce
  then have s': "ret = r" "s' = s\<lparr>sl_cr := cr\<rparr>" using assms(1) buf by (auto simp: re_string_add_def)
  have r: "r = 0 \<or> r = -1 \<and> sl_oom s"
    using run cr_op1_ret [of "sl_cr s" "[c, c + 1]" CR_OP_UNION r cr] by (auto simp: cr_union_interval_def sl_oom_def)
  have oom: "sl_oom s' = sl_oom s"
    using run s' cr_op1_realloc [of "sl_cr s" "[c, c + 1]" CR_OP_UNION r cr] by (simp add: cr_union_interval_def sl_oom_def)
  have wf: "cr_wf (cr_points (sl_cr s))" using assms(2) by (simp add: sl_room_def sl_ready_def sl_wf_def)
  have all: "sl_all s' = sl_all s" "sl_strings s' = sl_strings s" by (simp_all add: s' sl_all_def sl_strings_def)
  show ?thesis
  proof (cases "r = 0")
    case True
    note ins = cr_mem_insert [OF run [unfolded True] wf buf(2)]
    have "sl_room n s'"
      using assms(2) ins all unfolding s'(2) by (auto simp: sl_room_def sl_ready_def sl_wf_def)
    moreover have "sl_lang s' = insert buf (sl_lang s)"
      using ins all by (simp add: sl_lang_def s'(2) buf(1))
    ultimately show ?thesis using True s' oom by simp
  qed (use r s' in auto)
next
  case False
  have room: "sl_ready s" "sl_n_strings s < 2 ^ 30" using assms(2) by (simp_all add: sl_room_def)
  obtain r where run: "re_string_find2 s buf (re_string_hash buf) True = (r, s')" "ret = (if r < 0 then -1 else 0)"
    using assms(1) False by (auto simp: re_string_add_def re_string_find_def split: prod.splits)
  from find2_add [OF run(1) room False]
  show ?thesis
    using run(2) assms(2) by (elim disjE) (simp_all add: sl_room_def sl_lang_def sl_oom_def)
qed

interpretation slist: string_sink re_string_add sl_room "\<lambda>buf. length buf = 1 \<longrightarrow> hd buf \<noteq> 0xFFFFFFFF"
  sl_lang "\<lambda>buf. buf" sl_oom
proof
  fix n s x r s'
  assume "sl_room (Suc n) s" "length x = 1 \<longrightarrow> hd x \<noteq> 0xFFFFFFFF" "re_string_add s x = (r, s')"
  then show "r \<ge> 0 \<and> sl_room n s' \<and> sl_lang s' = insert x (sl_lang s) \<and> sl_oom s' = sl_oom s
      \<or> r < 0 \<and> sl_oom s"
    using re_string_add_ok [of s x r s' n] by auto
qed

lemma init_room: "n \<le> 2 ^ 30 \<Longrightarrow> sl_room n (re_string_list_init ra)"
  by (simp add: sl_room_def sl_ready_def sl_wf_def table_ok_def sl_all_def re_string_list_init_def
      cr_init_def cr_wf_def)

subsection \<open>Properties\<close>

lemma list_op_returns: "op \<noteq> CR_OP_XOR \<Longrightarrow> \<exists>ret a'. re_string_list_op a b op = Some (ret, a')"
  by (cases op) (auto simp: re_string_list_op_def Let_def split: prod.splits)

lemma n_strings_card: "sl_wf s \<Longrightarrow> sl_n_strings s = card (sl_strings s)"
  using distinct_card [of "map rs_buf (sl_all s)"] by (simp add: sl_wf_def sl_strings_def)

text \<open>C12: The operations on string lists compute the operations on languages.
  \<open>re_string_list_op\<close> leaves in its first argument the union, intersection or difference of
  what the two lists denote, one-character strings (code point set) and longer or
  empty strings (hash table) together, and keeps the table well-formed, or it returns -1, and then
  an allocation can fail. For the union the first list must have room (\<open>sl_room\<close>): not
  emptied before, a table that is at most 16 slots or twice its strings (every table grown
  by insertion is), and in all at most 2^30 strings, so that the table size stays in range.\<close>

theorem string_list_op_computes_language:
  assumes "re_string_list_op a b op = Some (ret, a')" "sl_wf a" "sl_wf b"
    and "op = CR_OP_UNION \<Longrightarrow> sl_room (sl_n_strings b) a"
  shows "ret = 0 \<and> sl_wf a' \<and> sl_lang a' = set_op op (sl_lang a) (sl_lang b)
    \<or> ret = -1 \<and> (\<exists>n. \<not> cr_realloc_func (sl_cr a) n)"
  using re_string_list_op_ok [OF assms] by (simp add: sl_oom_def)

definition string_list_example :: "u32 list list \<Rightarrow> re_string_list" where
  "string_list_example xs = snd (add_all re_string_add xs (re_string_list_init (\<lambda>n. True)))"

lemma string_list_example_ok:
  assumes "length xs \<le> 100" "\<forall>x \<in> set xs. length x = 1 \<longrightarrow> hd x \<noteq> 0xFFFFFFFF"
  shows "sl_room 0 (string_list_example xs) \<and> sl_lang (string_list_example xs) = set xs
    \<and> sl_oom (string_list_example xs) = False"
proof -
  obtain r s' where run: "add_all re_string_add xs (re_string_list_init (\<lambda>n. True)) = (r, s')" by fastforce
  have "sl_lang (re_string_list_init (\<lambda>n. True)) = {}" "\<not> sl_oom (re_string_list_init (\<lambda>n. True))"
    by (simp_all add: sl_lang_def sl_strings_def sl_all_def re_string_list_init_def cr_init_def
        cr_set_def cr_mem_def sl_oom_def)
  then show ?thesis
    using slist.add_all_ok [OF init_room assms(2) run] assms(1) run by (auto simp: string_list_example_def)
qed

text \<open>The class of "a", "ab" and "cd", intersected with that of "ab" and "x".\<close>

lemma string_list_op_computes_language_witness:
  "\<exists>a'. re_string_list_op (string_list_example [[97], [97, 98], [99, 100]])
      (string_list_example [[97, 98], [120]]) CR_OP_INTER = Some (0, a') \<and> sl_lang a' = {[97, 98]}"
proof -
  let ?a = "string_list_example [[97], [97, 98], [99, 100]]"
  let ?b = "string_list_example [[97, 98], [120]]"
  have a: "sl_wf ?a" "sl_lang ?a = {[97], [97, 98], [99, 100]}" "\<not> sl_oom ?a"
    using string_list_example_ok [of "[[97], [97, 98], [99, 100]]"] by (simp_all add: sl_room_def sl_ready_def)
  have b: "sl_wf ?b" "sl_lang ?b = {[97, 98], [120]}"
    using string_list_example_ok [of "[[97, 98], [120]]"] by (simp_all add: sl_room_def sl_ready_def)
  obtain ret a' where run: "re_string_list_op ?a ?b CR_OP_INTER = Some (ret, a')"
    using list_op_returns [of CR_OP_INTER ?a ?b] by auto
  have "\<not> (\<exists>n. \<not> cr_realloc_func (sl_cr ?a) n)" using a(3) by (simp add: sl_oom_def)
  then have "ret = 0" "sl_lang a' = set_op CR_OP_INTER (sl_lang ?a) (sl_lang ?b)"
    using string_list_op_computes_language [OF run a(1) b(1)] by simp_all
  then show ?thesis using run a(2) b(2) by (intro exI [of _ a']) simp
qed

text \<open>C13: Looking up after adding.
  After \<open>re_string_add\<close> of a string that is not a single character (such a one goes to the
  character range, not to the table) to a list (not emptied, fewer than 2^30 strings), a search
  finds that string and exactly the strings it found before, whatever the hash
  values collide on and whether or not the table had to grow.\<close>

theorem string_find_after_add:
  assumes "re_string_add s buf = (0, s')" "sl_ready s" "sl_n_strings s < 2 ^ 30" "length buf \<noteq> 1"
  shows "fst (re_string_find s' x False) = (if x = buf then 1 else fst (re_string_find s x False))"
proof -
  have find: "fst (re_string_find t x False) = (if x \<in> sl_strings t then 1 else 0)" if "sl_wf t" for t
    using find_iff [OF that refl, of x] by (auto simp: re_string_find_def re_string_find2_def Let_def)
  obtain r where "re_string_find2 s buf (re_string_hash buf) True = (r, s')" "\<not> r < 0"
    using assms(1,4) by (auto simp: re_string_add_def re_string_find_def split: prod.splits if_splits)
  from find2_add [OF this(1) assms(2-4)] this(2) have "sl_ready s'" "sl_strings s' = insert buf (sl_strings s)"
    by auto
  then show ?thesis using find [of s] find [of s'] assms(2) by (auto simp: sl_ready_def)
qed

lemma string_find_after_add_witness:
  "\<exists>s'. re_string_add (string_list_example [[97, 98]]) [99, 100] = (0, s') \<and>
     fst (re_string_find s' [99, 100] False) = 1"
proof -
  let ?s = "string_list_example [[97, 98]]"
  have s: "sl_room 0 ?s" "\<not> sl_oom ?s" using string_list_example_ok [of "[[97, 98]]"] by simp_all
  have wf: "sl_wf ?s" using s(1) by (simp add: sl_room_def sl_ready_def)
  have "sl_strings ?s \<subseteq> {[97, 98]}"
    using string_list_example_ok [of "[[97, 98]]"] by (auto simp: sl_lang_def)
  then have n: "sl_n_strings ?s \<le> 1"
    using n_strings_card [OF wf] card_mono [of "{[97, 98 :: u32]}" "sl_strings ?s"] by simp
  then have "sl_room (Suc 0) ?s" using s(1) by (simp add: sl_room_def)
  obtain r s' where run: "re_string_add ?s [99, 100] = (r, s')" by fastforce
  from re_string_add_ok [OF run \<open>sl_room (Suc 0) ?s\<close>] s(2) have "r = 0" by simp
  with run string_find_after_add [of ?s "[99, 100]" s' "[99, 100]"] s(1) n show ?thesis
    by (intro exI [of _ s']) (simp add: sl_room_def)
qed

definition emptied_table :: re_string_list where
  "emptied_table = filter_strings (string_list_example [[97, 98]]) CR_OP_SUB (string_list_example [[97, 98]])"

lemma ab_hash: "re_string_hash [97, 98] = 0xf9810a16"
  by (simp add: re_string_hash_def hash32_def)

lemma last_slot: "(replicate 16 [])[15 := x] = replicate 15 [] @ [x]"
  by (simp add: numeral_eq_Suc)

lemma first_slot: "(replicate 15 [] @ [[]])[0 := x] = x # replicate 15 []"
  by (simp add: numeral_eq_Suc)

lemma ab_table:
  "string_list_example [[97, 98]] =
     \<lparr>sl_cr = cr_init (\<lambda>n. True), sl_n_strings = 1, sl_hash_bits = 4,
      sl_hash_table = replicate 15 [] @ [[\<lparr>rs_hash = 0xf9810a16, rs_buf = [97, 98]\<rparr>]]\<rparr>"
  by (simp add: last_slot string_list_example_def re_string_list_init_def re_string_add_def re_string_find_def
      re_string_find2_def grow_table_def ab_hash hash_slot_def cr_init_def max_int_def Let_def)

text \<open>C24: adding to an emptied table loses the string.
  When \<open>re_string_list_op\<close> has removed every string of a list whose table is allocated, the
  slot for the next string is not computed (\<open>h\<close> keeps its initial 0). The added string is in
  the list, but a search finds it only if 0 happens to be its slot; otherwise a further
  addition stores it a second time. (The pattern compiler never adds to such a list.)\<close>

theorem emptied_table_loses_string:
  assumes "re_string_list_op a b op = Some (0, s)" "op \<noteq> CR_OP_UNION" "sl_wf a" "sl_wf b"
    and "sl_n_strings s = 0" "sl_hash_bits s \<noteq> 0" "length buf \<noteq> 1" "re_string_add s buf = (0, s1)"
  shows "buf \<in> sl_strings s1 \<and>
    fst (re_string_find s1 buf False) = (if hash_slot (sl_hash_bits s) (re_string_hash buf) = 0 then 1 else 0) \<and>
    (hash_slot (sl_hash_bits s) (re_string_hash buf) \<noteq> 0 \<longrightarrow>
       (\<forall>s2. re_string_add s1 buf = (0, s2) \<longrightarrow> count (mset (map rs_buf (sl_all s2))) buf = 2))"
proof -
  let ?h = "hash_slot (sl_hash_bits s) (re_string_hash buf)"
  let ?p = "\<lparr>rs_hash = re_string_hash buf, rs_buf = buf\<rparr>"
  have wf: "sl_wf s" using re_string_list_op_ok [OF assms(1,3,4)] assms(2) by simp
  have size: "sl_hash_size s = 2 ^ sl_hash_bits s" "sl_hash_bits s \<le> 32"
    using wf assms(6) by (simp_all add: sl_wf_def table_ok_def)
  then have big: "2 \<le> sl_hash_size s" using power_increasing [of 1 "sl_hash_bits s" "2 :: nat"] assms(6) by simp
  have h: "?h < sl_hash_size s" using hash_slot_less [OF size(2)] size(1) by simp
  have empty: "concat (sl_hash_table s) = []" using wf assms(5) by (simp add: sl_wf_def sl_all_def)
  then have slot: "sl_hash_table s ! i = []" if "i < sl_hash_size s" for i using that by simp
  have s1: "s1 = s\<lparr>sl_hash_table := (sl_hash_table s)[0 := [?p]], sl_n_strings := 1\<rparr>"
    using assms(5,7,8) big slot [of 0]
    by (auto simp: re_string_add_def re_string_find_def re_string_find2_def Let_def split: if_splits)
  have all1: "mset (sl_all s1) = {#?p#}"
  proof -
    have "0 < sl_hash_size s" using big by linarith
    from concat_update [OF this, of ?p] slot [OF this] show ?thesis by (simp only: s1 sl_all_def empty) simp
  qed
  have at: "sl_hash_table s1 ! ?h = (if ?h = 0 then [?p] else [])"
    using h slot by (auto simp: s1 nth_list_update)
  have "count (mset (map rs_buf (sl_all s2))) buf = 2" if "?h \<noteq> 0" "re_string_add s1 buf = (0, s2)" for s2
  proof -
    have "sl_hash_table s2 = (sl_hash_table s1)[?h := ?p # sl_hash_table s1 ! ?h]"
      using that assms(7) at big
      by (auto simp: s1 re_string_add_def re_string_find_def re_string_find2_def Let_def split: if_splits)
    then have "mset (sl_all s2) = {#?p, ?p#}"
      using concat_update [of ?h "sl_hash_table s1" ?p] h all1 by (simp add: s1 sl_all_def)
    then show ?thesis by (simp add: mset_map)
  qed
  moreover have "buf \<in> sl_strings s1" using all1 mset_eq_setD [of "sl_all s1" "[?p]"] by (simp add: sl_strings_def)
  moreover have "fst (re_string_find s1 buf False) = (if ?h = 0 then 1 else 0)"
    using at by (simp add: re_string_find_def re_string_find2_def Let_def) (simp add: s1)
  ultimately show ?thesis by blast
qed

text \<open>"ab" is removed and added again; its slot is 15.\<close>

theorem emptied_table_loses_string_witness:
  "\<exists>s1 s2. re_string_add emptied_table [97, 98] = (0, s1) \<and> re_string_add s1 [97, 98] = (0, s2) \<and>
     fst (re_string_find s1 [97, 98] False) = 0 \<and> count (mset (map rs_buf (sl_all s2))) [97, 98] = 2"
proof -
  let ?l = "string_list_example [[97, 98]]" and ?buf = "[97, 98] :: u32 list"
  have wf: "sl_wf ?l" using string_list_example_ok [of "[[97, 98]]"] by (simp add: sl_room_def sl_ready_def)
  have empty: "emptied_table = \<lparr>sl_cr = cr_init (\<lambda>n. True), sl_n_strings = 0, sl_hash_bits = 4,
      sl_hash_table = replicate 15 [] @ [[]]\<rparr>"
    by (simp add: emptied_table_def ab_table filter_strings_def keep_string_def re_string_find2_def
        hash_slot_def nth_append Let_def)
  have cr: "cr_op1 (sl_cr ?l) (cr_points (sl_cr ?l)) CR_OP_SUB = (0, sl_cr ?l)"
    by (simp add: ab_table cr_init_def cr_op1_def cr_op_def cr_op_loop.simps next_point_def cr_compress_def
        compress_loop.simps Let_def)
  have op: "re_string_list_op ?l ?l CR_OP_SUB = Some (0, emptied_table)"
    by (simp add: re_string_list_op_def cr emptied_table_def)
  let ?s1 = "emptied_table\<lparr>sl_hash_table := [\<lparr>rs_hash = 0xf9810a16, rs_buf = ?buf\<rparr>] # replicate 15 [],
      sl_n_strings := 1\<rparr>"
  have add1: "re_string_add emptied_table ?buf = (0, ?s1)"
    by (simp add: empty re_string_add_def re_string_find_def re_string_find2_def ab_hash hash_slot_def
        cr_init_def nth_append first_slot Let_def)
  obtain s2 where add2: "re_string_add ?s1 ?buf = (0, s2)"
    by (simp add: empty re_string_add_def re_string_find_def re_string_find2_def ab_hash hash_slot_def
        cr_init_def Let_def)
  have slot: "hash_slot (sl_hash_bits emptied_table) (re_string_hash ?buf) = 15"
    by (simp add: empty ab_hash hash_slot_def)
  from emptied_table_loses_string [OF op _ wf wf _ _ _ add1] add1 add2 slot show ?thesis
    by (intro exI [of _ ?s1] exI [of _ s2]) (simp add: empty)
qed

end
