(* ===== verification/RegexpClass.thy ===== *)
theory RegexpClass
  imports RegexpScan StringList CharRangeFold
begin

text \<open>
  Character classes in the pattern compiler of \<open>libregexp/libregexp.c\<close>: the predefined classes,
  \<open>\p{...}\<close>, \<open>\q{...}\<close>, class atoms, and classes with their nested classes and set operations.
  Each parser builds a string list (theory \<open>StringList\<close>) and returns it with the new offset.
  A string list that an error path frees is not part of the result.
\<close>

subsection \<open>The predefined classes\<close>

abbreviation (input) "CLASS_RANGE_BASE \<equiv> (0x40000000 :: u32)"

abbreviation (input) "CHAR_RANGE_d \<equiv> (0 :: u32)"
abbreviation (input) "CHAR_RANGE_D \<equiv> (1 :: u32)"
abbreviation (input) "CHAR_RANGE_s \<equiv> (2 :: u32)"
abbreviation (input) "CHAR_RANGE_S \<equiv> (3 :: u32)"
abbreviation (input) "CHAR_RANGE_w \<equiv> (4 :: u32)"
abbreviation (input) "CHAR_RANGE_W \<equiv> (5 :: u32)"

text \<open>Each table (theory \<open>CaseTables\<close>) starts with its number of ranges.\<close>

definition char_range_table :: "u16 list list" where
  "char_range_table = [char_range_d, char_range_s, char_range_w]"

fun cr_add_points :: "char_range \<Rightarrow> u32 list \<Rightarrow> int \<times> char_range" where
  "cr_add_points cr [] = (0, cr)"
| "cr_add_points cr (v # vs) =
     (case cr_add_point cr v of (ret, cr') \<Rightarrow> if ret \<noteq> 0 then (-1, cr') else cr_add_points cr' vs)"

definition cr_init_char_range :: "re_parse_state \<Rightarrow> u32 \<Rightarrow> int \<times> re_string_list" where
  "cr_init_char_range s c =
     (let c_pt = char_range_table ! unat (drop_bit 1 c);
          len = unat (hd c_pt);
          cr = re_string_list_init (ps_realloc s)
      in case cr_add_points (sl_cr cr) (map ucast (take (len * 2) (tl c_pt))) of
           (ret, pts) \<Rightarrow>
             if ret \<noteq> 0 then (-1, cr\<lparr>sl_cr := pts\<rparr>)
             else if c AND 1 \<noteq> 0 then
               (case cr_invert pts of (ret, pts') \<Rightarrow> (if ret \<noteq> 0 then -1 else 0, cr\<lparr>sl_cr := pts'\<rparr>))
             else (0, cr\<lparr>sl_cr := pts\<rparr>))"

subsection \<open>Case folding of a string list\<close>

text \<open>
  \<open>re_string_list_canonicalize\<close> moves the strings to a new table, folded. The strings keep
  their buckets' order.
\<close>

fun add_folded :: "bool \<Rightarrow> re_string list \<Rightarrow> re_string_list \<Rightarrow> int \<times> re_string_list" where
  "add_folded is_unicode [] s = (0, s)"
| "add_folded is_unicode (p # ps) s =
     (case re_string_add s (map (\<lambda>c. lre_canonicalize c is_unicode) (rs_buf p)) of
        (ret, s') \<Rightarrow> if ret \<noteq> 0 then (-1, s') else add_folded is_unicode ps s')"

definition re_string_list_canonicalize :: "re_string_list \<Rightarrow> bool \<Rightarrow> (int \<times> re_string_list) option" where
  "re_string_list_canonicalize s is_unicode =
     (case cr_regexp_canonicalize (sl_cr s) is_unicode of
        None \<Rightarrow> None
      | Some (ret, cr) \<Rightarrow>
          let s1 = s\<lparr>sl_cr := cr\<rparr> in
          if ret \<noteq> 0 then Some (-1, s1)
          else if sl_n_strings s1 \<noteq> 0 then
            Some (add_folded is_unicode (concat (sl_hash_table s1))
              (s1\<lparr>sl_n_strings := 0, sl_hash_bits := 0, sl_hash_table := []\<rparr>))
          else Some (0, s1))"

definition canonicalize_list :: "re_string_list \<Rightarrow> bool \<Rightarrow> re_string_list parsed \<Rightarrow> re_string_list parsed" where
  "canonicalize_list cr is_unicode failed =
     (case re_string_list_canonicalize cr is_unicode of
        None \<Rightarrow> Crashed
      | Some (ret, cr') \<Rightarrow> if ret \<noteq> 0 then failed else Parsed cr')"

definition invert_list :: "re_parse_state \<Rightarrow> re_string_list \<Rightarrow> re_string_list parsed" where
  "invert_list s cr =
     (case cr_invert (sl_cr cr) of
        (ret, pts) \<Rightarrow> if ret \<noteq> 0 then out_of_memory s else Parsed (cr\<lparr>sl_cr := pts\<rparr>))"

subsection \<open>Unicode properties\<close>

definition is_unicode_char :: "u8 \<Rightarrow> bool" where
  "is_unicode_char c \<longleftrightarrow>
     CH_0 \<le> c \<and> c \<le> CH_9 \<or> CH_A \<le> c \<and> c \<le> CH_Z \<or> CH_a \<le> c \<and> c \<le> CH_z \<or> c = CH_underscore"

lemma unicode_char_in_buffer: "is_unicode_char (rd buf p) \<Longrightarrow> p < length buf"
  by (rule rd_neq_0_bound) (auto simp: is_unicode_char_def)

text \<open>Names and values go to arrays of 64 bytes; \<open>None\<close> is a name that does not fit.\<close>

function property_word :: "u8 list \<Rightarrow> nat \<Rightarrow> string \<Rightarrow> (string \<times> nat) option" where
  "property_word buf p q =
     (if is_unicode_char (rd buf p) then
        (if length q \<ge> 63 then None
         else property_word buf (p + 1) (q @ [char_of (unat (rd buf p))]))
      else Some (q, p))"
  by pat_completeness auto
termination
  by (relation "measure (\<lambda>(buf, p, q). length buf - p)")
    (auto dest: unicode_char_in_buffer intro: diff_less_mono2)

declare property_word.simps [simp del]

definition script_set :: "re_parse_state \<Rightarrow> re_string_list \<Rightarrow> string \<Rightarrow> bool \<Rightarrow> re_string_list parsed" where
  "script_set s cr value script_ext =
     (case unicode_script (sl_cr cr) value script_ext of
        Never_returns \<Rightarrow> Hangs
      | Undefined \<Rightarrow> Crashed
      | Returns (ret, pts) \<Rightarrow>
          if ret = 0 then Parsed (cr\<lparr>sl_cr := pts\<rparr>)
          else if ret = -2 then parse_error s ''unknown unicode script''
          else out_of_memory s)"

definition category_set :: "re_parse_state \<Rightarrow> re_string_list \<Rightarrow> string \<Rightarrow> re_string_list parsed" where
  "category_set s cr value =
     (case unicode_general_category (sl_cr cr) value of
        None \<Rightarrow> Crashed
      | Some (ret, pts) \<Rightarrow>
          if ret = 0 then Parsed (cr\<lparr>sl_cr := pts\<rparr>)
          else if ret = -2 then parse_error s ''unknown unicode general category''
          else out_of_memory s)"

text \<open>The callback ignores the result of \<open>re_string_add\<close>, as the comment in the code says.\<close>

definition seq_prop_cb :: "re_string_list \<Rightarrow> u32 list \<Rightarrow> re_string_list" where
  "seq_prop_cb sl seq = snd (re_string_add sl seq)"

text \<open>A name without a value: a category, else a property, else a property of strings.\<close>

definition binary_property_set ::
    "re_parse_state \<Rightarrow> re_string_list \<Rightarrow> string \<Rightarrow> bool \<Rightarrow> bool \<Rightarrow> re_string_list parsed" where
  "binary_property_set s cr name is_inv allow_sequence_prop =
     (case unicode_general_category (sl_cr cr) name of
        None \<Rightarrow> Crashed
      | Some (ret, pts) \<Rightarrow>
          if ret = -1 then out_of_memory s
          else if ret \<ge> 0 then Parsed (cr\<lparr>sl_cr := pts\<rparr>)
          else case unicode_prop pts name of
            None \<Rightarrow> Crashed
          | Some (ret, pts) \<Rightarrow>
              if ret = -1 then out_of_memory s
              else if ret \<ge> 0 then Parsed (cr\<lparr>sl_cr := pts\<rparr>)
              else if \<not> is_inv \<and> allow_sequence_prop then
                (case unicode_sequence_prop name seq_prop_cb (cr\<lparr>sl_cr := pts\<rparr>) (cr_init (ps_realloc s)) of
                   None \<Rightarrow> Crashed
                 | Some (ret, _, cr') \<Rightarrow>
                     if ret = -1 then out_of_memory s
                     else if ret < 0 then parse_error s ''unknown unicode property name''
                     else Parsed cr')
              else parse_error s ''unknown unicode property name'')"

definition property_set ::
    "re_parse_state \<Rightarrow> string \<Rightarrow> string \<Rightarrow> bool \<Rightarrow> bool \<Rightarrow> re_string_list parsed" where
  "property_set s name value is_inv allow_sequence_prop =
     (let cr = re_string_list_init (ps_realloc s) in
      if name = ''Script'' \<or> name = ''sc'' then script_set s cr value False
      else if name = ''Script_Extensions'' \<or> name = ''scx'' then script_set s cr value True
      else if name = ''General_Category'' \<or> name = ''gc'' then category_set s cr value
      else if value = [] then binary_property_set s cr name is_inv allow_sequence_prop
      else parse_error s ''unknown unicode property name'')"

text \<open>With \<open>unicode_sets\<close> the set is folded before it is inverted, without it after.\<close>

definition parse_unicode_property ::
    "re_parse_state \<Rightarrow> nat \<Rightarrow> bool \<Rightarrow> bool \<Rightarrow> (re_string_list \<times> nat) parsed" where
  "parse_unicode_property s p is_inv allow_sequence_prop =
     (let buf = ps_buf s in
      if rd buf p \<noteq> CH_lbrace then parse_error s (''expecting '' @ quoted CH_lbrace @ '' after '' @ [CHR 0x5C, CHR ''p''])
      else case property_word buf (p + 1) [] of
        None \<Rightarrow> parse_error s ''unknown unicode property name''
      | Some (name, p) \<Rightarrow>
          (case (if rd buf p = CH_equal then property_word buf (p + 1) [] else Some ([], p)) of
             None \<Rightarrow> parse_error s ''unknown unicode property value''
           | Some (value, p) \<Rightarrow>
               if rd buf p \<noteq> CH_rbrace then parse_error s (''expecting '' @ quoted CH_rbrace)
               else
                 pbind (property_set s name value is_inv allow_sequence_prop) (\<lambda>cr.
                 pbind (if ps_ignore_case s \<and> ps_unicode_sets s
                        then canonicalize_list cr (ps_is_unicode s) (out_of_memory s) else Parsed cr) (\<lambda>cr.
                 pbind (if is_inv then invert_list s cr else Parsed cr) (\<lambda>cr.
                 pbind (if ps_ignore_case s \<and> \<not> ps_unicode_sets s
                        then canonicalize_list cr (ps_is_unicode s) (out_of_memory s) else Parsed cr) (\<lambda>cr.
                 Parsed (cr, p + 1)))))))"

subsection \<open>Class atoms\<close>

text \<open>
  An atom is a character or, at \<open>CLASS_RANGE_BASE\<close> and above, a class with its set. The set
  of a character is not used (in the code it is not initialized): it is the empty list here.
  With \<open>want_cr\<close> false (a null \<open>cr\<close>) there are no classes.
\<close>

definition no_set :: "re_parse_state \<Rightarrow> re_string_list" where
  "no_set s = re_string_list_init (ps_realloc s)"

definition normal_char :: "re_parse_state \<Rightarrow> u32 \<Rightarrow> nat \<Rightarrow> (u32 \<times> re_string_list \<times> nat) parsed" where
  "normal_char s c p =
     (if c \<ge> 128 then
        (case utf8_decode_len (ps_buf s) p UTF8_CHAR_LEN_MAX of
           (c', p') \<Rightarrow>
             if c' > 0xffff \<and> \<not> ps_is_unicode s then parse_error s ''malformed unicode char''
             else Parsed (c', no_set s, p'))
      else Parsed (c, no_set s, p + 1))"

definition invalid_escape :: "re_parse_state \<Rightarrow> 'a parsed" where
  "invalid_escape s = parse_error s ''invalid escape sequence in regular expression''"

text \<open>\<open>p\<close> is the offset of the character after the backslash.\<close>

definition default_escape :: "re_parse_state \<Rightarrow> u32 \<Rightarrow> nat \<Rightarrow> (u32 \<times> re_string_list \<times> nat) parsed" where
  "default_escape s c p =
     (case lre_parse_escape (ps_buf s) p (if ps_is_unicode s then 2 else 0) of
        (ret, p') \<Rightarrow>
          if ret \<ge> 0 then Parsed (of_int ret, no_set s, p')
          else if ps_is_unicode s then invalid_escape s
          else normal_char s c p)"

definition class_range_code :: "u8 \<Rightarrow> u32 option" where
  "class_range_code c =
     (if c = CH_d then Some CHAR_RANGE_d else if c = CH_D then Some CHAR_RANGE_D
      else if c = CH_s then Some CHAR_RANGE_s else if c = CH_S then Some CHAR_RANGE_S
      else if c = CH_w then Some CHAR_RANGE_w else if c = CH_W then Some CHAR_RANGE_W
      else None)"

text \<open>The characters that an escape always stands for themselves.\<close>

definition syntax_char :: "u8 \<Rightarrow> bool" where
  "syntax_char c \<longleftrightarrow> c \<in> {CH_caret, CH_dollar, CH_backslash, CH_dot, CH_star, CH_plus, CH_question,
     CH_lparen, CH_rparen, CH_lbracket, CH_rbracket, CH_lbrace, CH_rbrace, CH_bar, 0x2F}"

text \<open>The control escape with the letter at \<open>p\<close> (Annex B.1.4 allows more in a class).\<close>

definition control_escape ::
    "re_parse_state \<Rightarrow> nat \<Rightarrow> bool \<Rightarrow> (u32 \<times> re_string_list \<times> nat) parsed" where
  "control_escape s p inclass =
     (let c = rd (ps_buf s) p in
      if CH_a \<le> c \<and> c \<le> CH_z \<or> CH_A \<le> c \<and> c \<le> CH_Z
         \<or> (CH_0 \<le> c \<and> c \<le> CH_9 \<or> c = CH_underscore) \<and> inclass \<and> \<not> ps_is_unicode s
      then Parsed (ucast c AND 0x1f, no_set s, p + 1)
      else if ps_is_unicode s then invalid_escape s
      else Parsed (ucast CH_backslash, no_set s, p - 1))"

definition class_escape ::
    "(nat \<Rightarrow> (re_string_list \<times> nat) parsed) \<Rightarrow> re_parse_state \<Rightarrow> bool \<Rightarrow> nat \<Rightarrow> bool
      \<Rightarrow> (u32 \<times> re_string_list \<times> nat) parsed" where
  "class_escape string_disjunction s want_cr p inclass =
     (let c = rd (ps_buf s) p in
      case class_range_code c of
        Some code \<Rightarrow>
          if \<not> want_cr then default_escape s code p
          else (case cr_init_char_range s code of
                  (ret, cr) \<Rightarrow>
                    if ret \<noteq> 0 then Rejected s else Parsed (code + CLASS_RANGE_BASE, cr, p + 1))
      | None \<Rightarrow>
          if c = CH_c then control_escape s (p + 1) inclass
          else if c = CH_minus then
            (if \<not> inclass \<and> ps_is_unicode s then invalid_escape s
             else Parsed (ucast c, no_set s, p + 1))
          else if syntax_char c then Parsed (ucast c, no_set s, p + 1)
          else if c = CH_p \<or> c = CH_P then
            (if ps_is_unicode s \<and> want_cr then
               pbind (parse_unicode_property s (p + 1) (c = CH_P) (ps_unicode_sets s))
                 (\<lambda>(cr, p'). Parsed (CLASS_RANGE_BASE, cr, p'))
             else default_escape s (ucast c) p)
          else if c = CH_q then
            (if ps_unicode_sets s \<and> want_cr \<and> inclass then
               pbind (string_disjunction (p + 1)) (\<lambda>(cr, p'). Parsed (CLASS_RANGE_BASE, cr, p'))
             else default_escape s (ucast c) p)
          else default_escape s (ucast c) p)"

text \<open>The punctuators that may not be doubled, and the characters that need an escape, in a set.\<close>

definition double_punctuator :: "u8 \<Rightarrow> bool" where
  "double_punctuator c \<longleftrightarrow> c \<in> {CH_amp, CH_exclam, 0x23, CH_dollar, 0x25, CH_star, CH_plus, CH_comma,
     CH_dot, CH_colon, 0x3B, CH_lt, CH_equal, CH_gt, CH_question, 0x40, CH_caret, 0x60, 0x7E}"

definition set_syntax_char :: "u8 \<Rightarrow> bool" where
  "set_syntax_char c \<longleftrightarrow> c \<in> {CH_lparen, CH_rparen, CH_lbracket, CH_rbracket, CH_lbrace, CH_rbrace,
     0x2F, CH_minus, CH_bar}"

definition class_atom ::
    "(nat \<Rightarrow> (re_string_list \<times> nat) parsed) \<Rightarrow> re_parse_state \<Rightarrow> bool \<Rightarrow> nat \<Rightarrow> bool
      \<Rightarrow> (u32 \<times> re_string_list \<times> nat) parsed" where
  "class_atom string_disjunction s want_cr p inclass =
     (let buf = ps_buf s; c = rd buf p in
      if c = CH_backslash then
        (if p + 1 \<ge> length buf then parse_error s ''unexpected end''
         else class_escape string_disjunction s want_cr (p + 1) inclass)
      else if c = 0 \<and> p \<ge> length buf then parse_error s ''unexpected end''
      else if double_punctuator c \<and> ps_unicode_sets s \<and> rd buf (p + 1) = c then
        parse_error s ''invalid class set operation in regular expression''
      else if set_syntax_char c \<and> ps_unicode_sets s then
        parse_error s ''invalid character in class in regular expression''
      else normal_char s (ucast c) p)"

text \<open>
  Inside a string disjunction the atoms are parsed with a null \<open>cr\<close>, where another one is not possible.
\<close>

definition string_atom :: "re_parse_state \<Rightarrow> nat \<Rightarrow> (u32 \<times> re_string_list \<times> nat) parsed" where
  "string_atom s p = class_atom (\<lambda>_. Crashed) s False p False"

subsection \<open>The pointers of class atoms\<close>

lemma property_word_ge: "property_word buf p q = Some (w, p') \<Longrightarrow> p \<le> p'"
proof (induction buf p q rule: property_word.induct)
  case (1 buf p q)
  show ?case
  proof (cases "is_unicode_char (rd buf p)")
    case True
    then have "\<not> length q \<ge> 63"
      and "property_word buf (p + 1) (q @ [char_of (unat (rd buf p))]) = Some (w, p')"
      using 1(2) by (simp_all add: property_word.simps [of buf p] split: if_splits)
    from 1(1) [OF True this] show ?thesis by simp
  next
    case False
    then show ?thesis using 1(2) by (simp add: property_word.simps [of buf p])
  qed
qed

lemma on_parsed_lists [simp]:
  "on_parsed (\<lambda>_. True) (canonicalize_list cr u (out_of_memory s))" "on_parsed (\<lambda>_. True) (invert_list s cr)"
  by (auto simp: canonicalize_list_def invert_list_def split: option.splits prod.splits)

lemma on_parsed_outcome [parsed_rules]:
  "(r = Never_returns \<Longrightarrow> on_parsed P m1) \<Longrightarrow> (r = Undefined \<Longrightarrow> on_parsed P m2)
    \<Longrightarrow> (\<And>x. r = Returns x \<Longrightarrow> on_parsed P (f x))
    \<Longrightarrow> on_parsed P (case r of Never_returns \<Rightarrow> m1 | Undefined \<Rightarrow> m2 | Returns x \<Rightarrow> f x)"
  by (cases r) simp_all

lemma property_set_fuel: "on_parsed (\<lambda>_. True) (property_set s name v is_inv allow)"
  unfolding property_set_def script_set_def category_set_def binary_property_set_def Let_def
  by (intro parsed_rules) simp_all

lemma property_pointer:
  assumes "property_word buf (p + 1) [] = Some (name, p1)"
    and "(if rd buf p1 = CH_equal then property_word buf (p1 + 1) [] else Some ([], p1)) = Some (v, p2)"
    and "rd buf p2 = CH_rbrace"
  shows "steps buf p (p2 + 1)"
  using property_word_ge [OF assms(1)] property_word_ge [of buf "p1 + 1" "[]" v p2] assms(2,3)
    rd_neq_0_bound [of buf p2]
  by (auto simp: steps_def split: if_splits)

lemma parse_unicode_property_steps:
  "on_parsed (\<lambda>(cr, p'). steps (ps_buf s) p p') (parse_unicode_property s p is_inv allow)"
  unfolding parse_unicode_property_def Let_def
  by (intro parsed_rules on_parsed_bind [where Q = "\<lambda>_. True"] property_set_fuel on_parsed_lists)
    (simp_all only: on_parsed_simps prod.case not_not simp_thms, rule property_pointer, assumption+)

abbreviation (input) "lands s p \<equiv> on_parsed (\<lambda>(c, cr, p'). steps (ps_buf s) p p')"

lemma normal_char_steps: "p < length (ps_buf s) \<Longrightarrow> lands s p (normal_char s c p)"
  unfolding normal_char_def
  by (intro parsed_rules) (auto dest: utf8_decode_len_steps simp: steps_def)

lemma default_escape_steps: "p < length (ps_buf s) \<Longrightarrow> lands s p (default_escape s c p)"
  unfolding default_escape_def
  by (intro parsed_rules) (auto dest: escape_steps normal_char_steps simp: invalid_escape_def)

abbreviation (input) "stays s p \<equiv> on_parsed (\<lambda>(c, cr, p'). p \<le> p' \<and> p' \<le> length (ps_buf s))"

lemma control_escape_stays: "p < length (ps_buf s) \<Longrightarrow> stays s p (control_escape s (p + 1) inclass)"
  unfolding control_escape_def Let_def invalid_escape_def
  by (cases "p + 1 < length (ps_buf s)") (intro parsed_rules; simp)+

lemma lands_stays: "lands s p m \<Longrightarrow> stays s p m"
  by (erule on_parsed_mono) (auto simp: steps_def)

lemma class_escape_stays:
  assumes "p < length (ps_buf s)"
    and q: "\<And>q. on_parsed (\<lambda>(cr, p'). steps (ps_buf s) q p') (qd q)"
  shows "stays s p (class_escape qd s want p inclass)"
  unfolding class_escape_def Let_def
  by (intro parsed_rules lands_stays [OF default_escape_steps] control_escape_stays
      on_parsed_bind [OF parse_unicode_property_steps] on_parsed_bind [OF q] assms(1))
    (use assms(1) in \<open>auto simp: steps_def invalid_escape_def\<close>)

lemma class_atom_steps:
  assumes "\<And>q. on_parsed (\<lambda>(cr, p'). steps (ps_buf s) q p') (qd q)"
  shows "lands s p (class_atom qd s want p inclass)"
proof (cases "p < length (ps_buf s)")
  case True
  have "lands s p (class_escape qd s want (p + 1) inclass)" if "\<not> p + 1 \<ge> length (ps_buf s)"
    by (rule on_parsed_mono [OF class_escape_stays [OF _ assms]]) (use that in \<open>auto simp: steps_def\<close>)
  with True show ?thesis
    unfolding class_atom_def Let_def by (intro parsed_rules normal_char_steps) simp_all
qed (simp add: class_atom_def)

subsection \<open>Strings of a class\<close>

text \<open>
  The loops that follow read at least one byte of the pattern in each round. They get the
  length of the pattern plus one as fuel, which is more than they use.
\<close>

abbreviation (input) "scan_fuel s \<equiv> Suc (length (ps_buf s))"

text \<open>The characters of one string, collected as 32-bit cells in a byte buffer.\<close>

fun string_chars :: "nat \<Rightarrow> re_parse_state \<Rightarrow> nat \<Rightarrow> dyn_buf \<Rightarrow> (dyn_buf \<times> nat) parsed" where
  "string_chars 0 s p str = Out_of_fuel"
| "string_chars (Suc n) s p str =
     (if rd (ps_buf s) p \<noteq> CH_rbrace \<and> rd (ps_buf s) p \<noteq> CH_bar then
        pbind (string_atom s p) (\<lambda>(c, _, p').
          case dbuf_put_u32 str c of
            (ret, str') \<Rightarrow> if ret \<noteq> 0 then out_of_memory s else string_chars n s p' str')
      else Parsed (str, p))"

definition u32_cells :: "u8 list \<Rightarrow> u32 list" where
  "u32_cells buf = map (\<lambda>i. get_u32 buf (4 * i)) [0..<length buf div 4]"

fun string_alternatives ::
    "nat \<Rightarrow> re_parse_state \<Rightarrow> nat \<Rightarrow> dyn_buf \<Rightarrow> re_string_list \<Rightarrow> (re_string_list \<times> nat) parsed" where
  "string_alternatives 0 s p str cr = Out_of_fuel"
| "string_alternatives (Suc n) s p str cr =
     pbind (string_chars (scan_fuel s) s p (str\<lparr>db_buf := []\<rparr>)) (\<lambda>(str, p).
       case re_string_add cr (u32_cells (db_buf str)) of
         (ret, cr) \<Rightarrow>
           if ret \<noteq> 0 then out_of_memory s
           else if rd (ps_buf s) p = CH_rbrace then Parsed (cr, p)
           else string_alternatives n s (p + 1) str cr)"

definition parse_class_string_disjunction :: "re_parse_state \<Rightarrow> nat \<Rightarrow> (re_string_list \<times> nat) parsed" where
  "parse_class_string_disjunction s p =
     (if rd (ps_buf s) p \<noteq> CH_lbrace
      then parse_error s (''expecting '' @ quoted CH_lbrace @ '' after '' @ [CHR 0x5C, CHR ''q''])
      else
        pbind (string_alternatives (scan_fuel s) s (p + 1) (dbuf_init2 (ps_realloc s))
                 (re_string_list_init (ps_realloc s))) (\<lambda>(cr, p).
        pbind (if ps_ignore_case s then canonicalize_list cr True (Rejected s) else Parsed cr) (\<lambda>cr.
        Parsed (cr, p + 1))))"

definition get_class_atom ::
    "re_parse_state \<Rightarrow> nat \<Rightarrow> bool \<Rightarrow> (u32 \<times> re_string_list \<times> nat) parsed" where
  "get_class_atom s p inclass = class_atom (parse_class_string_disjunction s) s True p inclass"

lemma string_atom_lands: "lands s p (string_atom s p)"
  unfolding string_atom_def by (rule class_atom_steps) simp

lemma string_chars_steps:
  "length (ps_buf s) - p < n \<Longrightarrow>
     on_parsed (\<lambda>(str', p'). p \<le> p' \<and> p' < length (ps_buf s) \<and> rd (ps_buf s) p' \<in> {CH_rbrace, CH_bar})
       (string_chars n s p str)"
proof (induction n arbitrary: p str)
  case (Suc n)
  have step: "on_parsed (\<lambda>(str', p''). p \<le> p'' \<and> p'' < length (ps_buf s) \<and> rd (ps_buf s) p'' \<in> {CH_rbrace, CH_bar})
      (string_chars n s p' str')" if "steps (ps_buf s) p p'" for p' str'
    by (rule on_parsed_mono [OF Suc.IH]) (use that Suc.prems in \<open>auto simp: steps_def\<close>)
  show ?case
    unfolding string_chars.simps
    by (intro parsed_rules on_parsed_bind [OF string_atom_lands]; (rule step)?)
      (use rd_neq_0_bound [of "ps_buf s" p] in auto)
qed simp

lemma string_alternatives_steps:
  "length (ps_buf s) - p < n \<Longrightarrow>
     on_parsed (\<lambda>(cr', p'). p \<le> p' \<and> p' < length (ps_buf s)) (string_alternatives n s p str cr)"
proof (induction n arbitrary: p str cr)
  case (Suc n)
  have step: "on_parsed (\<lambda>(cr', p''). p \<le> p'' \<and> p'' < length (ps_buf s))
      (string_alternatives n s (p' + 1) str' cr')" if "p \<le> p'" "p' < length (ps_buf s)" for p' str' cr'
    by (rule on_parsed_mono [OF Suc.IH]) (use that Suc.prems in auto)
  have fuel: "length (ps_buf s) - p < scan_fuel s" by simp
  show ?case
    unfolding string_alternatives.simps
    by (intro parsed_rules on_parsed_bind [OF string_chars_steps [OF fuel]]; (rule step)?) auto
qed simp

lemma parse_class_string_disjunction_steps:
  "on_parsed (\<lambda>(cr, p'). steps (ps_buf s) p p') (parse_class_string_disjunction s p)"
proof -
  have list: "on_parsed (\<lambda>_. True) (canonicalize_list cr True (Rejected s))" for cr
    by (auto simp: canonicalize_list_def split: option.splits)
  have "length (ps_buf s) - (p + 1) < scan_fuel s" by simp
  then show ?thesis
    unfolding parse_class_string_disjunction_def
    by (intro parsed_rules on_parsed_bind [OF string_alternatives_steps]
        on_parsed_bind [where Q = "\<lambda>_. True"] list) (auto simp: steps_def)
qed

lemma get_class_atom_lands: "lands s p (get_class_atom s p inclass)"
  unfolding get_class_atom_def by (rule class_atom_steps) (rule parse_class_string_disjunction_steps)

subsection \<open>Classes\<close>

definition list_op ::
    "re_parse_state \<Rightarrow> re_string_list \<Rightarrow> re_string_list \<Rightarrow> char_range_op \<Rightarrow> re_string_list parsed" where
  "list_op s cr cr1 op =
     (case re_string_list_op cr cr1 op of
        None \<Rightarrow> Crashed
      | Some (ret, cr') \<Rightarrow> if ret \<noteq> 0 then out_of_memory s else Parsed cr')"

text \<open>One character, one class, and a range of characters, added to a class.\<close>

definition add_char :: "re_parse_state \<Rightarrow> re_string_list \<Rightarrow> u32 \<Rightarrow> re_string_list parsed \<Rightarrow> re_string_list parsed" where
  "add_char s cr c1 failed =
     (let c = (if ps_ignore_case s then lre_canonicalize c1 (ps_is_unicode s) else c1) in
      case cr_union_interval (sl_cr cr) c c of
        (ret, pts) \<Rightarrow> if ret \<noteq> 0 then failed else Parsed (cr\<lparr>sl_cr := pts\<rparr>))"

definition add_atom ::
    "re_parse_state \<Rightarrow> re_string_list \<Rightarrow> u32 \<Rightarrow> re_string_list \<Rightarrow> re_string_list parsed" where
  "add_atom s cr c1 cr1 =
     (if c1 \<ge> CLASS_RANGE_BASE then list_op s cr cr1 CR_OP_UNION
      else add_char s cr c1 (out_of_memory s))"

definition add_range ::
    "re_parse_state \<Rightarrow> re_string_list \<Rightarrow> u32 \<Rightarrow> u32 \<Rightarrow> re_string_list parsed" where
  "add_range s cr c1 c2 =
     (if ps_ignore_case s then
        (case cr_add_interval (cr_init (ps_realloc s)) c1 (c2 + 1) of
           (ret, cr2) \<Rightarrow>
             if ret \<noteq> 0 then out_of_memory s
             else case cr_regexp_canonicalize cr2 (ps_is_unicode s) of
               None \<Rightarrow> Crashed
             | Some (ret, cr2) \<Rightarrow>
                 if ret \<noteq> 0 then out_of_memory s
                 else case cr_op1 (sl_cr cr) (cr_points cr2) CR_OP_UNION of
                   (ret, pts) \<Rightarrow> if ret \<noteq> 0 then out_of_memory s else Parsed (cr\<lparr>sl_cr := pts\<rparr>))
      else
        case cr_union_interval (sl_cr cr) c1 c2 of
          (ret, pts) \<Rightarrow> if ret \<noteq> 0 then out_of_memory s else Parsed (cr\<lparr>sl_cr := pts\<rparr>))"

lemma on_parsed_class_ops [simp]:
  "on_parsed (\<lambda>_. True) (list_op s cr cr1 op)" "on_parsed (\<lambda>_. True) (add_atom s cr c1 cr1)"
  "on_parsed (\<lambda>_. True) (add_range s cr c1 c2)" "on_parsed (\<lambda>_. True) (add_char s cr c1 (Rejected s))"
  by (auto simp: list_op_def add_atom_def add_char_def add_range_def Let_def
      split: option.splits prod.splits)

text \<open>
  The elements of a class up to \<open>]\<close>. \<open>nested\<close> parses a nested class; an element returns the
  class so far, the offset and \<open>is_first\<close>.
\<close>

definition invalid_class_range :: "re_parse_state \<Rightarrow> 'a parsed" where
  "invalid_class_range s = parse_error s ''invalid class range''"

definition class_element ::
    "(nat \<Rightarrow> (re_string_list \<times> nat) parsed) \<Rightarrow> re_parse_state \<Rightarrow> nat \<Rightarrow> re_string_list \<Rightarrow> bool
      \<Rightarrow> (re_string_list \<times> nat \<times> bool) parsed" where
  "class_element nested s p cr is_first =
     (let buf = ps_buf s in
      if rd buf p = CH_lbracket \<and> ps_unicode_sets s then
        pbind (nested p) (\<lambda>(cr1, p').
        pbind (list_op s cr cr1 CR_OP_UNION) (\<lambda>cr'. Parsed (cr', p', is_first)))
      else
        pbind (get_class_atom s p True) (\<lambda>(c1, cr1, p1).
          let atom = pbind (add_atom s cr c1 cr1) (\<lambda>cr'. Parsed (cr', p1, is_first)) in
          if rd buf p1 = CH_minus \<and> rd buf (p1 + 1) \<noteq> CH_rbracket then
            (if rd buf (p1 + 1) = CH_minus \<and> ps_unicode_sets s \<and> is_first then atom
             else if c1 \<ge> CLASS_RANGE_BASE then
               (if ps_is_unicode s then invalid_class_range s else atom)
             else
               pbind (get_class_atom s (p1 + 1) True) (\<lambda>(c2, cr2, p2).
                 if c2 \<ge> CLASS_RANGE_BASE then
                   (if ps_is_unicode s then invalid_class_range s else atom)
                 else if c2 < c1 then invalid_class_range s
                 else pbind (add_range s cr c1 c2) (\<lambda>cr'. Parsed (cr', p2, False))))
          else atom))"

definition re_parse_class_set_operand ::
    "(nat \<Rightarrow> (re_string_list \<times> nat) parsed) \<Rightarrow> re_parse_state \<Rightarrow> nat \<Rightarrow> (re_string_list \<times> nat) parsed" where
  "re_parse_class_set_operand nested s p =
     (if rd (ps_buf s) p = CH_lbracket then nested p
      else
        pbind (get_class_atom s p True) (\<lambda>(c1, cr, p').
          if c1 < CLASS_RANGE_BASE then
            pbind (add_char s (re_string_list_init (ps_realloc s)) c1 (Rejected s)) (\<lambda>cr'. Parsed (cr', p'))
          else Parsed (cr, p')))"

text \<open>The two operators: \<open>&&\<close> (not followed by a third \<open>&\<close>) and \<open>--\<close>.\<close>

definition at_operator :: "u8 list \<Rightarrow> nat \<Rightarrow> char_range_op \<Rightarrow> bool" where
  "at_operator buf p op \<longleftrightarrow>
     (if op = CR_OP_INTER
      then rd buf p = CH_amp \<and> rd buf (p + 1) = CH_amp \<and> rd buf (p + 2) \<noteq> CH_amp
      else rd buf p = CH_minus \<and> rd buf (p + 1) = CH_minus)"

fun class_operands ::
    "nat \<Rightarrow> (nat \<Rightarrow> (re_string_list \<times> nat) parsed) \<Rightarrow> re_parse_state \<Rightarrow> char_range_op
      \<Rightarrow> nat \<Rightarrow> re_string_list \<Rightarrow> (re_string_list \<times> nat) parsed" where
  "class_operands 0 nested s op p cr = Out_of_fuel"
| "class_operands (Suc n) nested s op p cr =
     (if rd (ps_buf s) p = CH_rbracket then Parsed (cr, p)
      else if at_operator (ps_buf s) p op then
        pbind (re_parse_class_set_operand nested s (p + 2)) (\<lambda>(cr1, p').
        pbind (list_op s cr cr1 op) (\<lambda>cr'. class_operands n nested s op p' cr'))
      else parse_error s ''invalid operation in regular expression'')"

definition class_operations ::
    "(nat \<Rightarrow> (re_string_list \<times> nat) parsed) \<Rightarrow> re_parse_state \<Rightarrow> nat \<Rightarrow> re_string_list \<Rightarrow> bool
      \<Rightarrow> (re_string_list \<times> nat) parsed" where
  "class_operations nested s p cr is_first =
     (if ps_unicode_sets s \<and> is_first then
        (if at_operator (ps_buf s) p CR_OP_INTER
         then class_operands (scan_fuel s) nested s CR_OP_INTER p cr
         else if at_operator (ps_buf s) p CR_OP_SUB
         then class_operands (scan_fuel s) nested s CR_OP_SUB p cr
         else Parsed (cr, p))
      else Parsed (cr, p))"

fun class_elements ::
    "nat \<Rightarrow> (nat \<Rightarrow> (re_string_list \<times> nat) parsed) \<Rightarrow> re_parse_state \<Rightarrow> nat \<Rightarrow> re_string_list
      \<Rightarrow> bool \<Rightarrow> (re_string_list \<times> nat) parsed" where
  "class_elements 0 nested s p cr is_first = Out_of_fuel"
| "class_elements (Suc n) nested s p cr is_first =
     (if rd (ps_buf s) p = CH_rbracket then Parsed (cr, p)
      else
        pbind (class_element nested s p cr is_first) (\<lambda>(cr1, p1, is_first1).
        pbind (class_operations nested s p1 cr1 is_first1) (\<lambda>(cr2, p2).
        class_elements n nested s p2 cr2 False)))"

definition class_invert :: "re_parse_state \<Rightarrow> re_string_list \<Rightarrow> re_string_list parsed" where
  "class_invert s cr =
     (if sl_n_strings cr \<noteq> 0 then
        parse_error s ''negated character class with strings in regular expression debugger eval code''
      else invert_list s cr)"

text \<open>
  \<open>lre_check_stack_overflow\<close> always says no (\<open>re_wrapper.c\<close>). The fuel bounds the nesting.
\<close>

fun re_parse_nested_class :: "nat \<Rightarrow> re_parse_state \<Rightarrow> nat \<Rightarrow> (re_string_list \<times> nat) parsed" where
  "re_parse_nested_class 0 s p = Out_of_fuel"
| "re_parse_nested_class (Suc n) s p =
     (let invert = (rd (ps_buf s) (p + 1) = CH_caret);
          p1 = (if invert then p + 2 else p + 1)
      in pbind (class_elements (scan_fuel s) (re_parse_nested_class n s) s p1
                 (re_string_list_init (ps_realloc s)) True) (\<lambda>(cr, p2).
         pbind (if invert then class_invert s cr else Parsed cr) (\<lambda>cr.
         Parsed (cr, p2 + 1))))"

subsection \<open>The class parser returns\<close>

abbreviation (input) "class_lands s p \<equiv> on_parsed (\<lambda>(cr, p'). steps (ps_buf s) p p')"
abbreviation (input) "class_stays s p \<equiv> on_parsed (\<lambda>(cr, p'). p \<le> p' \<and> p' \<le> length (ps_buf s))"

lemma class_element_lands:
  assumes "\<And>q. rd (ps_buf s) q = CH_lbracket \<Longrightarrow> p \<le> q \<Longrightarrow> class_lands s q (nested q)"
  shows "on_parsed (\<lambda>(cr, p', is_first). steps (ps_buf s) p p') (class_element nested s p cr is_first)"
  unfolding class_element_def Let_def invalid_class_range_def
  by (intro parsed_rules on_parsed_bind [OF get_class_atom_lands] on_parsed_bind [OF assms]
      on_parsed_bind [where Q = "\<lambda>_. True"] on_parsed_class_ops) (auto simp: steps_def)

lemma re_parse_class_set_operand_lands:
  assumes "\<And>q. rd (ps_buf s) q = CH_lbracket \<Longrightarrow> p \<le> q \<Longrightarrow> class_lands s q (nested q)"
  shows "class_lands s p (re_parse_class_set_operand nested s p)"
  unfolding re_parse_class_set_operand_def
  by (intro parsed_rules on_parsed_bind [OF get_class_atom_lands] assms
      on_parsed_bind [where Q = "\<lambda>_. True"] on_parsed_class_ops) auto

lemma at_operator_in_buffer: "at_operator buf p op \<Longrightarrow> p + 2 \<le> length buf"
  using rd_neq_0_bound [of buf "p + 1"] by (auto simp: at_operator_def split: if_splits)

lemma class_operands_stays:
  assumes "\<And>q. rd (ps_buf s) q = CH_lbracket \<Longrightarrow> p \<le> q \<Longrightarrow> class_lands s q (nested q)"
    and "length (ps_buf s) - p < n" "p \<le> length (ps_buf s)"
  shows "class_stays s p (class_operands n nested s op p cr)"
  using assms
proof (induction n arbitrary: p cr)
  case (Suc n)
  have step: "class_stays s p (class_operands n nested s op p' cr')"
    if "steps (ps_buf s) (p + 2) p'" for p' cr'
    by (rule on_parsed_mono [OF Suc.IH]) (use that Suc.prems in \<open>auto simp: steps_def\<close>)
  have operand: "class_lands s (p + 2) (re_parse_class_set_operand nested s (p + 2))"
    by (rule re_parse_class_set_operand_lands) (use Suc.prems(1) in auto)
  show ?case
    unfolding class_operands.simps
    by (intro parsed_rules on_parsed_bind [OF operand] on_parsed_bind [where Q = "\<lambda>_. True"]
        on_parsed_class_ops; (rule step)?) (use Suc.prems in auto)
qed simp

lemma class_operations_stays:
  assumes "\<And>q. rd (ps_buf s) q = CH_lbracket \<Longrightarrow> p \<le> q \<Longrightarrow> class_lands s q (nested q)"
    and "p \<le> length (ps_buf s)"
  shows "class_stays s p (class_operations nested s p cr is_first)"
proof -
  have "length (ps_buf s) - p < scan_fuel s" by simp
  note loop = class_operands_stays [OF assms(1) this assms(2)]
  show ?thesis
    unfolding class_operations_def by (intro parsed_rules; (rule loop)?) (use assms(2) in auto)
qed

lemma class_elements_stays:
  assumes "\<And>q. rd (ps_buf s) q = CH_lbracket \<Longrightarrow> p \<le> q \<Longrightarrow> class_lands s q (nested q)"
    and "length (ps_buf s) - p < n"
  shows "on_parsed (\<lambda>(cr, p'). p \<le> p' \<and> p' < length (ps_buf s)) (class_elements n nested s p cr is_first)"
  using assms
proof (induction n arbitrary: p cr is_first)
  case (Suc n)
  have tail: "on_parsed (\<lambda>(cr, p'). p \<le> p' \<and> p' < length (ps_buf s)) (class_elements n nested s p2 cr2 False)"
    if "p < p2" "p2 \<le> length (ps_buf s)" for p2 cr2
    by (rule on_parsed_mono [OF Suc.IH]) (use that Suc.prems in auto)
  have body: "on_parsed (\<lambda>(cr, p'). p \<le> p' \<and> p' < length (ps_buf s))
     (pbind (class_operations nested s p1 cr1 is_first1) (\<lambda>(cr2, p2). class_elements n nested s p2 cr2 False))"
    if "steps (ps_buf s) p p1" for cr1 p1 is_first1
  proof -
    have "class_stays s p1 (class_operations nested s p1 cr1 is_first1)"
      by (rule class_operations_stays) (use that Suc.prems(1) in \<open>auto simp: steps_def\<close>)
    then show ?thesis
      by (rule on_parsed_bind) (use that in \<open>auto simp: steps_def intro!: tail split del: prod.split\<close>)
  qed
  show ?case
    unfolding class_elements.simps
    by (intro parsed_rules on_parsed_bind [OF class_element_lands]; (rule body)?)
      (use Suc.prems(1) rd_neq_0_bound [of "ps_buf s" p] in auto)
qed simp

lemma re_parse_nested_class_lands:
  "rd (ps_buf s) p = CH_lbracket \<Longrightarrow> length (ps_buf s) - p < n \<Longrightarrow> class_lands s p (re_parse_nested_class n s p)"
proof (induction n arbitrary: p)
  case (Suc n)
  have p: "p < length (ps_buf s)" using Suc.prems(1) rd_neq_0_bound [of "ps_buf s" p] by simp
  have elements: "on_parsed (\<lambda>(cr, p'). p < p' \<and> p' < length (ps_buf s))
      (class_elements (scan_fuel s) (re_parse_nested_class n s) s p1 cr True)"
    if "p < p1" for p1 cr
    by (rule on_parsed_mono [OF class_elements_stays]) (use that Suc p in auto)
  have inv: "on_parsed (\<lambda>_. True) (class_invert s cr)" for cr
    by (simp add: class_invert_def)
  show ?case
    unfolding re_parse_nested_class.simps Let_def
    by (intro parsed_rules on_parsed_bind [OF elements] on_parsed_bind [where Q = "\<lambda>_. True"] inv)
      (auto simp: steps_def)
qed simp

end
