(* ===== verification/RegexpParse.thy ===== *)
theory RegexpParse
  imports RegexpClass Rqsort
begin

text \<open>
  The pattern compiler of \<open>libregexp/libregexp.c\<close>: the emission of a string list, terms with
  their quantifiers, alternatives, disjunctions and \<open>lre_compile\<close>. A parsing function takes
  the state and returns it; \<open>s->buf_ptr\<close> is \<open>ps_ptr\<close>. The recursion through groups is opened:
  \<open>re_parse_term\<close> and \<open>re_parse_alternative\<close> get \<open>re_parse_disjunction\<close> at the next depth as
  the argument \<open>parse_disj\<close>.
\<close>

subsection \<open>Patching what was emitted\<close>

text \<open>
  A 32-bit store into the buffer. Outside the allocated block it is undefined; past the
  size, which only happens after a failed emission, it has no effect that is ever read.
\<close>

definition patch_u32 :: "nat \<Rightarrow> u32 \<Rightarrow> re_parse_state \<Rightarrow> re_parse_state parsed" where
  "patch_u32 pos v s =
     (let d = ps_byte_code s in
      if pos + 4 \<le> db_allocated d then
        Parsed (s\<lparr>ps_byte_code := d\<lparr>db_buf := take (db_size d) (put_u32 (db_buf d @ replicate 4 0) pos v)\<rparr>\<rparr>)
      else Crashed)"

text \<open>The jump field at \<open>pos\<close> gets the distance from its end to the end of the code.\<close>

definition patch_jump :: "nat \<Rightarrow> re_parse_state \<Rightarrow> re_parse_state parsed" where
  "patch_jump pos s = patch_u32 pos (of_nat (bc_size s) - (of_nat pos + 4)) s"

text \<open>\<open>dbuf_insert\<close> followed by the stores that fill the gap.\<close>

definition insert_code :: "re_parse_state \<Rightarrow> nat \<Rightarrow> u8 list \<Rightarrow> re_parse_state parsed" where
  "insert_code s pos bytes =
     (case dbuf_insert (ps_byte_code s) pos (length bytes) of
        (ret, d) \<Rightarrow>
          if ret \<noteq> 0 then out_of_memory (s\<lparr>ps_byte_code := d\<rparr>)
          else Parsed (s\<lparr>ps_byte_code := d\<lparr>db_buf := put_bytes (db_buf d) pos bytes\<rparr>\<rparr>))"

subsection \<open>String lists\<close>

text \<open>The order of the strings: the longest first.\<close>

definition re_string_cmp_len :: "re_string \<Rightarrow> re_string \<Rightarrow> int" where
  "re_string_cmp_len a b =
     of_bool (length (rs_buf a) < length (rs_buf b)) - of_bool (length (rs_buf a) > length (rs_buf b))"

definition emit_chars :: "u32 list \<Rightarrow> re_parse_state \<Rightarrow> re_parse_state" where
  "emit_chars cs s = foldl re_emit_char s cs"

text \<open>
  Every string but the last alternative is preceded by a split and followed by a goto. The
  operand of a goto holds, until it is patched, the position of the previous one, so that
  the gotos form a list that starts at \<open>last_match_pos\<close> and ends at -1.
\<close>

fun emit_strings :: "bool \<Rightarrow> re_string list \<Rightarrow> int \<Rightarrow> re_parse_state \<Rightarrow> (int \<times> re_parse_state) parsed" where
  "emit_strings others [] last_match_pos s = Parsed (last_match_pos, s)"
| "emit_strings others (p # tab) last_match_pos s =
     (if others \<or> tab \<noteq> [] then
        (case re_emit_op_u32 s REOP_split_next_first 0 of
           (split_pos, s1) \<Rightarrow>
             case re_emit_op_u32 (emit_chars (rs_buf p) s1) REOP_goto (of_int last_match_pos) of
               (pos, s2) \<Rightarrow>
                 pbind (patch_jump split_pos s2) (\<lambda>s3. emit_strings others tab (int pos) s3))
      else emit_strings others tab last_match_pos (emit_chars (rs_buf p) s))"

text \<open>
  The list of gotos goes down. It can only go up, or leave the code, after a failed
  emission; what the code then does is not followed further.
\<close>

function patch_gotos :: "int \<Rightarrow> re_parse_state \<Rightarrow> re_parse_state parsed" where
  "patch_gotos last_match_pos s =
     (if last_match_pos = -1 then Parsed s
      else if last_match_pos < 0 \<or> nat last_match_pos + 4 > bc_size s then Crashed
      else
        let next_pos = sint (get_u32 (db_buf (ps_byte_code s)) (nat last_match_pos)) in
        case patch_jump (nat last_match_pos) s of
          Parsed s' \<Rightarrow> if next_pos \<ge> last_match_pos then Crashed else patch_gotos next_pos s'
        | r \<Rightarrow> r)"
  by pat_completeness auto
termination
  by (relation "measure (\<lambda>(pos, s). nat (pos + 1))") auto

declare patch_gotos.simps [simp del]

definition emit_range_after_strings ::
    "bool \<Rightarrow> u32 list \<Rightarrow> re_parse_state \<Rightarrow> re_parse_state parsed" where
  "emit_range_after_strings has_empty_string points s =
     (if points = [] then Parsed s
      else if has_empty_string then
        (case re_emit_op_u32 s REOP_split_next_first 0 of
           (split_pos, s1) \<Rightarrow>
             case re_emit_range s1 points of
               (ret, s2) \<Rightarrow> if ret \<noteq> 0 then Rejected s2 else patch_jump split_pos s2)
      else
        case re_emit_range s points of (ret, s1) \<Rightarrow> if ret \<noteq> 0 then Rejected s1 else Parsed s1)"

definition re_emit_string_list :: "re_parse_state \<Rightarrow> re_string_list \<Rightarrow> re_parse_state parsed" where
  "re_emit_string_list s sl =
     (let points = cr_points (sl_cr sl) in
      if sl_n_strings sl = 0 then
        (case re_emit_range s points of (ret, s1) \<Rightarrow> if ret \<noteq> 0 then Rejected s1 else Parsed s1)
      else if \<not> ps_realloc s (8 * sl_n_strings sl) then out_of_memory s
      else
        let strings = concat (sl_hash_table sl);
            has_empty_string = (\<exists>p \<in> set strings. rs_buf p = []);
            tab = filter (\<lambda>p. rs_buf p \<noteq> []) strings
        in if length tab > sl_n_strings sl then Crashed
           else case rqsort re_string_cmp_len tab of
             None \<Rightarrow> Crashed
           | Some tab \<Rightarrow>
               pbind (emit_strings (has_empty_string \<or> points \<noteq> []) tab (-1) s) (\<lambda>(last_match_pos, s).
               pbind (emit_range_after_strings has_empty_string points s) (\<lambda>s.
               patch_gotos last_match_pos s)))"

definition re_parse_char_class :: "re_parse_state \<Rightarrow> nat \<Rightarrow> (nat \<times> re_parse_state) parsed" where
  "re_parse_char_class s p =
     pbind (re_parse_nested_class (scan_fuel s) s p) (\<lambda>(cr, p').
     pbind (re_emit_string_list s cr) (\<lambda>s'. Parsed (p', s')))"

subsection \<open>Atoms\<close>

text \<open>
  An atom leaves \<open>last_atom_start\<close> with \<open>last_capture_count\<close> (\<open>None\<close> is
  \<open>last_atom_start = -1\<close>), the offset after it and the new state.
\<close>

type_synonym atom_result = "((nat \<times> int) option \<times> nat \<times> re_parse_state) parsed"

definition emit_prev :: "bool \<Rightarrow> re_parse_state \<Rightarrow> re_parse_state" where
  "emit_prev is_backward_dir s = (if is_backward_dir then re_emit_op s REOP_prev else s)"

text \<open>The label \<open>normal_char\<close>: a character, or a class with its set.\<close>

definition emit_atom ::
    "bool \<Rightarrow> re_parse_state \<Rightarrow> u32 \<Rightarrow> re_string_list \<Rightarrow> nat \<Rightarrow> atom_result" where
  "emit_atom is_backward_dir s c cr p =
     (let start = Some (bc_size s, ps_capture_count s); s1 = emit_prev is_backward_dir s in
      pbind
        (if c \<ge> CLASS_RANGE_BASE then
           (if c = CLASS_RANGE_BASE + CHAR_RANGE_s then Parsed (re_emit_op s1 REOP_space)
            else if c = CLASS_RANGE_BASE + CHAR_RANGE_S then Parsed (re_emit_op s1 REOP_not_space)
            else re_emit_string_list s1 cr)
         else
           Parsed (re_emit_char s1
             (if ps_ignore_case s1 then lre_canonicalize c (ps_is_unicode s1) else c)))
        (\<lambda>s2. Parsed (start, p, emit_prev is_backward_dir s2)))"

definition parse_class_atom :: "bool \<Rightarrow> re_parse_state \<Rightarrow> nat \<Rightarrow> atom_result" where
  "parse_class_atom is_backward_dir s p =
     pbind (get_class_atom s p False) (\<lambda>(c, cr, p'). emit_atom is_backward_dir s c cr p')"

text \<open>Octal digits: at most \<open>n\<close> of them, after the value \<open>c\<close>.\<close>

fun octal_digits :: "nat \<Rightarrow> u8 list \<Rightarrow> nat \<Rightarrow> u32 \<Rightarrow> u32 \<times> nat" where
  "octal_digits 0 buf p c = (c, p)"
| "octal_digits (Suc n) buf p c =
     (if is_octal (rd buf p)
      then octal_digits n buf (p + 1) (push_bit 3 c + (ucast (rd buf p) - 0x30))
      else (c, p))"

text \<open>A null escape at \<open>p\<close> (after the 0), in Annex B the start of an octal escape.\<close>

definition parse_null_escape :: "bool \<Rightarrow> re_parse_state \<Rightarrow> nat \<Rightarrow> atom_result" where
  "parse_null_escape is_backward_dir s p =
     (if ps_is_unicode s then
        (if lre_is_digit (rd (ps_buf s) p)
         then parse_error s ''invalid decimal escape in regular expression''
         else emit_atom is_backward_dir s 0 (no_set s) p)
      else case octal_digits 2 (ps_buf s) p 0 of
             (c, p') \<Rightarrow> emit_atom is_backward_dir s c (no_set s) p')"

definition back_reference_op :: "bool \<Rightarrow> bool \<Rightarrow> reop" where
  "back_reference_op is_backward_dir ignore_case =
     (if is_backward_dir
      then if ignore_case then REOP_backward_back_reference_i else REOP_backward_back_reference
      else if ignore_case then REOP_back_reference_i else REOP_back_reference)"

text \<open>
  A decimal escape at \<open>q\<close>: a back reference when there is such a group, else (Annex B) an
  octal escape of at most three digits, or a digit 8 or 9.
\<close>

definition parse_decimal_escape :: "bool \<Rightarrow> re_parse_state \<Rightarrow> nat \<Rightarrow> atom_result" where
  "parse_decimal_escape is_backward_dir s q =
     (case parse_digits (ps_buf s) q False of
        (c, p) \<Rightarrow>
          let (max_capture, s1) =
                (if c \<ge> 0 \<and> c \<ge> ps_capture_count s then re_count_captures s else (ps_capture_count s, s))
          in if c < 0 \<or> c \<ge> max_capture then
               (if \<not> ps_is_unicode s1 then
                  (let c0 = rd (ps_buf s1) q in
                   if c0 \<le> CH_7 then
                     (case octal_digits (if c0 \<le> CH_3 then 3 else 2) (ps_buf s1) q 0 of
                        (c', p') \<Rightarrow> emit_atom is_backward_dir s1 c' (no_set s1) p')
                   else emit_atom is_backward_dir s1 (ucast c0) (no_set s1) (q + 1))
                else parse_error s1 ''back reference out of range in regular expression'')
             else
               Parsed (Some (bc_size s1, ps_capture_count s1), p,
                 emit_u8 (of_int c)
                   (re_emit_op_u8 s1 (back_reference_op is_backward_dir (ps_ignore_case s1)) 1)))"

text \<open>A reference by name at \<open>p\<close> (the backslash), and its fallback to a character.\<close>

definition no_named_reference :: "bool \<Rightarrow> re_parse_state \<Rightarrow> nat \<Rightarrow> string \<Rightarrow> atom_result" where
  "no_named_reference is_backward_dir s p msg =
     (if ps_is_unicode s then parse_error s msg
      else case re_has_named_captures s of
             (named, s') \<Rightarrow> if named then parse_error s' msg else parse_class_atom is_backward_dir s' p)"

definition parse_named_reference :: "bool \<Rightarrow> re_parse_state \<Rightarrow> nat \<Rightarrow> atom_result" where
  "parse_named_reference is_backward_dir s p =
     (if rd (ps_buf s) (p + 2) \<noteq> CH_lt then no_named_reference is_backward_dir s p ''expecting group name''
      else case re_parse_group_name TMP_BUF_SIZE (ps_buf s) (p + 3) of
        None \<Rightarrow> no_named_reference is_backward_dir s p ''invalid group name''
      | Some (name, p1) \<Rightarrow>
          let start = Some (bc_size s, ps_capture_count s);
              op = back_reference_op is_backward_dir (ps_ignore_case s);
              n = fst (find_group_name s name False)
          in if n \<noteq> 0 then
               Parsed (start, p1, snd (find_group_name (re_emit_op_u8 s op (of_int n)) name True))
             else
               (case re_parse_captures s (Some name) False of
                  (n, _, _) \<Rightarrow>
                    if n = 0 then no_named_reference is_backward_dir s p ''group name not defined''
                    else case re_parse_captures (re_emit_op_u8 s op (of_int n)) (Some name) True of
                           (_, _, s') \<Rightarrow> Parsed (start, p1, s')))"

definition parse_escape_term :: "bool \<Rightarrow> re_parse_state \<Rightarrow> nat \<Rightarrow> atom_result" where
  "parse_escape_term is_backward_dir s p =
     (let c = rd (ps_buf s) (p + 1); i = ps_ignore_case s \<and> ps_is_unicode s in
      if c = CH_b then
        Parsed (None, p + 2, re_emit_op s (if i then REOP_word_boundary_i else REOP_word_boundary))
      else if c = CH_B then
        Parsed (None, p + 2, re_emit_op s (if i then REOP_not_word_boundary_i else REOP_not_word_boundary))
      else if c = CH_k then parse_named_reference is_backward_dir s p
      else if c = CH_0 then parse_null_escape is_backward_dir s (p + 2)
      else if lre_is_digit c then parse_decimal_escape is_backward_dir s (p + 1)
      else parse_class_atom is_backward_dir s p)"

subsection \<open>Groups\<close>

text \<open>\<open>parse_disj is_backward_dir s\<close> parses the disjunction inside the parentheses.\<close>

type_synonym parser = "bool \<Rightarrow> re_parse_state \<Rightarrow> re_parse_state parsed"

definition parse_inner ::
    "parser \<Rightarrow> bool \<Rightarrow> re_parse_state \<Rightarrow> nat \<Rightarrow> (nat \<times> re_parse_state) parsed" where
  "parse_inner parse_disj is_backward_dir s p =
     pbind (parse_disj is_backward_dir (s\<lparr>ps_ptr := p\<rparr>)) (\<lambda>s'.
     pbind (re_parse_expect s' (ps_ptr s') CH_rparen) (\<lambda>p'. Parsed (p', s')))"

definition parse_modifier_group :: "parser \<Rightarrow> bool \<Rightarrow> re_parse_state \<Rightarrow> nat \<Rightarrow> atom_result" where
  "parse_modifier_group parse_disj is_backward_dir s p =
     pbind (re_parse_modifiers s (p + 2)) (\<lambda>(add_mask, p).
     pbind (if rd (ps_buf s) p = CH_minus then re_parse_modifiers s (p + 1) else Parsed (0, p))
       (\<lambda>(remove_mask, p).
     if add_mask = 0 \<and> remove_mask = 0 \<or> add_mask AND remove_mask \<noteq> 0
     then parse_error s ''invalid modifiers''
     else
       pbind (re_parse_expect s p CH_colon) (\<lambda>p.
         let upd = (\<lambda>v. update_modifier v add_mask remove_mask);
             s1 = s\<lparr>ps_ignore_case := upd (ps_ignore_case s) LRE_FLAG_IGNORECASE,
                    ps_multi_line := upd (ps_multi_line s) LRE_FLAG_MULTILINE,
                    ps_dotall := upd (ps_dotall s) LRE_FLAG_DOTALL\<rparr>
         in pbind (parse_inner parse_disj is_backward_dir s1 p) (\<lambda>(p', s2).
              Parsed (Some (bc_size s1, ps_capture_count s1), p',
                s2\<lparr>ps_ignore_case := ps_ignore_case s, ps_multi_line := ps_multi_line s,
                   ps_dotall := ps_dotall s\<rparr>)))))"

definition parse_lookahead ::
    "parser \<Rightarrow> re_parse_state \<Rightarrow> bool \<Rightarrow> bool \<Rightarrow> nat \<Rightarrow> atom_result" where
  "parse_lookahead parse_disj s is_neg is_backward_lookahead p =
     (let start = (if \<not> ps_is_unicode s \<and> \<not> is_backward_lookahead
                   then Some (bc_size s, ps_capture_count s) else None)
      in case re_emit_op_u32 s (if is_neg then REOP_negative_lookahead else REOP_lookahead) 0 of
           (pos, s1) \<Rightarrow>
             pbind (parse_inner parse_disj is_backward_lookahead s1 p) (\<lambda>(p', s2).
               let s3 = re_emit_op s2 (if is_neg then REOP_negative_lookahead_match else REOP_lookahead_match)
               in if db_error (ps_byte_code s3) then Rejected s3
                  else pbind (patch_jump pos s3) (\<lambda>s4. Parsed (start, p', s4))))"

definition save_op :: "bool \<Rightarrow> reop" where
  "save_op is_end = (if is_end then REOP_save_end else REOP_save_start)"

definition parse_capture :: "parser \<Rightarrow> bool \<Rightarrow> re_parse_state \<Rightarrow> nat \<Rightarrow> atom_result" where
  "parse_capture parse_disj is_backward_dir s p =
     (if ps_capture_count s \<ge> int CAPTURE_COUNT_MAX then parse_error s ''too many captures''
      else
        let start = Some (bc_size s, ps_capture_count s);
            capture_index = of_int (ps_capture_count s);
            s1 = re_emit_op_u8 (s\<lparr>ps_capture_count := ps_capture_count s + 1\<rparr>)
                   (save_op is_backward_dir) capture_index
        in pbind (parse_disj is_backward_dir (s1\<lparr>ps_ptr := p\<rparr>)) (\<lambda>s2.
             let s3 = re_emit_op_u8 s2 (save_op (\<not> is_backward_dir)) capture_index
             in pbind (re_parse_expect s3 (ps_ptr s3) CH_rparen) (\<lambda>p'. Parsed (start, p', s3))))"

definition put_group_names :: "u8 list \<Rightarrow> re_parse_state \<Rightarrow> re_parse_state" where
  "put_group_names bytes s =
     s\<lparr>ps_group_names := snd (dbuf_put (ps_group_names s) bytes)\<rparr>"

definition putc_group_names :: "u8 \<Rightarrow> re_parse_state \<Rightarrow> re_parse_state" where
  "putc_group_names b s = s\<lparr>ps_group_names := snd (dbuf_putc (ps_group_names s) b)\<rparr>"

definition parse_named_capture :: "parser \<Rightarrow> bool \<Rightarrow> re_parse_state \<Rightarrow> nat \<Rightarrow> atom_result" where
  "parse_named_capture parse_disj is_backward_dir s p =
     (case re_parse_group_name TMP_BUF_SIZE (ps_buf s) p of
        None \<Rightarrow> parse_error s ''invalid group name''
      | Some (name, p') \<Rightarrow>
          if is_duplicate_group_name s name (ps_group_name_scope s)
          then parse_error s ''duplicate group name''
          else
            parse_capture parse_disj is_backward_dir
              ((putc_group_names (ps_group_name_scope s) (put_group_names (name @ [0]) s))
                 \<lparr>ps_has_named_captures := 1\<rparr>) p')"

definition parse_group :: "parser \<Rightarrow> bool \<Rightarrow> re_parse_state \<Rightarrow> nat \<Rightarrow> atom_result" where
  "parse_group parse_disj is_backward_dir s p =
     (let buf = ps_buf s; c2 = rd buf (p + 2); c3 = rd buf (p + 3) in
      if rd buf (p + 1) \<noteq> CH_question then
        parse_capture parse_disj is_backward_dir (putc_group_names 0 (putc_group_names 0 s)) (p + 1)
      else if c2 = CH_colon then
        pbind (parse_inner parse_disj is_backward_dir s (p + 3)) (\<lambda>(p', s').
          Parsed (Some (bc_size s, ps_capture_count s), p', s'))
      else if c2 = CH_i \<or> c2 = CH_m \<or> c2 = CH_s \<or> c2 = CH_minus then
        parse_modifier_group parse_disj is_backward_dir s p
      else if c2 = CH_equal \<or> c2 = CH_exclam then parse_lookahead parse_disj s (c2 = CH_exclam) False (p + 3)
      else if c2 = CH_lt \<and> (c3 = CH_equal \<or> c3 = CH_exclam) then
        parse_lookahead parse_disj s (c3 = CH_exclam) True (p + 4)
      else if c2 = CH_lt then parse_named_capture parse_disj is_backward_dir s (p + 3)
      else parse_error s ''invalid group'')"

text \<open>A brace that starts an atom: an error when it could be a repetition count.\<close>

definition parse_brace :: "bool \<Rightarrow> re_parse_state \<Rightarrow> nat \<Rightarrow> atom_result" where
  "parse_brace is_backward_dir s p =
     (let buf = ps_buf s in
      if ps_is_unicode s then parse_error s ''syntax error''
      else if \<not> lre_is_digit (rd buf (p + 1)) then parse_class_atom is_backward_dir s p
      else
        let p1 = snd (parse_digits buf (p + 1) True);
            p2 = (if rd buf p1 = CH_comma then
                    (if lre_is_digit (rd buf (p1 + 1)) then snd (parse_digits buf (p1 + 1) True) else p1 + 1)
                  else p1)
        in if rd buf p2 \<noteq> CH_rbrace then parse_class_atom is_backward_dir s p
           else parse_error s ''nothing to repeat'')"

definition parse_atom :: "parser \<Rightarrow> bool \<Rightarrow> re_parse_state \<Rightarrow> atom_result" where
  "parse_atom parse_disj is_backward_dir s =
     (let p = ps_ptr s; c = rd (ps_buf s) p in
      if c = CH_caret then
        Parsed (None, p + 1, re_emit_op s (if ps_multi_line s then REOP_line_start_m else REOP_line_start))
      else if c = CH_dollar then
        Parsed (None, p + 1, re_emit_op s (if ps_multi_line s then REOP_line_end_m else REOP_line_end))
      else if c = CH_dot then
        Parsed (Some (bc_size s, ps_capture_count s), p + 1,
          emit_prev is_backward_dir
            (re_emit_op (emit_prev is_backward_dir s) (if ps_dotall s then REOP_any else REOP_dot)))
      else if c = CH_lbrace then parse_brace is_backward_dir s p
      else if c = CH_star \<or> c = CH_plus \<or> c = CH_question then parse_error s ''nothing to repeat''
      else if c = CH_lparen then parse_group parse_disj is_backward_dir s p
      else if c = CH_backslash then parse_escape_term is_backward_dir s p
      else if c = CH_lbracket then
        pbind (re_parse_char_class (emit_prev is_backward_dir s) p) (\<lambda>(p', s').
          Parsed (Some (bc_size s, ps_capture_count s), p', emit_prev is_backward_dir s'))
      else if (c = CH_rbracket \<or> c = CH_rbrace) \<and> ps_is_unicode s then parse_error s ''syntax error''
      else parse_class_atom is_backward_dir s p)"

subsection \<open>Quantifiers\<close>

text \<open>The bounds of the quantifier at \<open>p\<close>, or \<open>None\<close> when there is none.\<close>

definition quantifier_bounds :: "re_parse_state \<Rightarrow> nat \<Rightarrow> ((int \<times> int) option \<times> nat) parsed" where
  "quantifier_bounds s p =
     (let buf = ps_buf s; c = rd buf p in
      if c = CH_star then Parsed (Some (0, INT32_MAX), p + 1)
      else if c = CH_plus then Parsed (Some (1, INT32_MAX), p + 1)
      else if c = CH_question then Parsed (Some (0, 1), p + 1)
      else if c = CH_lbrace then
        (if \<not> lre_is_digit (rd buf (p + 1)) then
           (if ps_is_unicode s then parse_error s ''invalid repetition count'' else Parsed (None, p))
         else
           case parse_digits buf (p + 1) True of
             (quant_min, p1) \<Rightarrow>
               case (if rd buf p1 = CH_comma then
                       (if lre_is_digit (rd buf (p1 + 1)) then parse_digits buf (p1 + 1) True
                        else (INT32_MAX, p1 + 1))
                     else (quant_min, p1))
               of (quant_max, p2) \<Rightarrow>
                 if quant_max < quant_min then parse_error s ''invalid repetition count''
                 else if rd buf p2 \<noteq> CH_rbrace \<and> \<not> ps_is_unicode s then Parsed (None, p)
                 else pbind (re_parse_expect s p2 CH_rbrace)
                        (\<lambda>p3. Parsed (Some (quant_min, quant_max), p3)))
      else Parsed (None, p))"

definition save_reset_code :: "int \<Rightarrow> re_parse_state \<Rightarrow> u8 list" where
  "save_reset_code last_capture_count s =
     [reop_code REOP_save_reset, of_int last_capture_count, of_int (ps_capture_count s - 1)]"

definition char_pos_code :: "bool \<Rightarrow> u8 list" where
  "char_pos_code add_zero_advance_check =
     (if add_zero_advance_check then [reop_code REOP_set_char_pos, 0] else [])"

definition set_i32_code :: "int \<Rightarrow> u8 list" where
  "set_i32_code v = [reop_code REOP_set_i32, 0] @ bytes_u32 (of_int v)"

definition loop_split_op :: "bool \<Rightarrow> bool \<Rightarrow> reop" where
  "loop_split_op add_zero_advance_check greedy =
     (if add_zero_advance_check
      then if greedy then REOP_loop_check_adv_split_goto_first else REOP_loop_check_adv_split_next_first
      else if greedy then REOP_loop_split_goto_first else REOP_loop_split_next_first)"

definition split_op :: "bool \<Rightarrow> reop" where
  "split_op next_first = (if next_first then REOP_split_next_first else REOP_split_goto_first)"

text \<open>
  The code of an optional atom (\<open>quant_min = 0\<close>) of \<open>len\<close> bytes at \<open>start\<close>. Every insertion
  fills its gap, so the stores of the C code are the inserted bytes. \<open>last_atom_start\<close> at
  the end of the C code is the operand of the backward jump.
\<close>

definition emit_optional ::
    "re_parse_state \<Rightarrow> nat \<Rightarrow> nat \<Rightarrow> int \<Rightarrow> bool \<Rightarrow> bool \<Rightarrow> re_parse_state parsed" where
  "emit_optional s start len quant_max greedy zadv =
     (let zlen = (if zadv then 2 else 0) in
      if quant_max = 0 then
        Parsed (s\<lparr>ps_byte_code := (ps_byte_code s)\<lparr>db_buf := take start (db_buf (ps_byte_code s))\<rparr>\<rparr>)
      else if quant_max = 1 \<or> quant_max = INT32_MAX then
        (let has_goto = quant_max = INT32_MAX in
         pbind (insert_code s start
                  ([reop_code (split_op greedy)]
                   @ bytes_u32 (of_nat (len + (if has_goto then 5 else 0) + zlen * 2))
                   @ char_pos_code zadv)) (\<lambda>s1.
           let s2 = (if zadv then re_emit_op_u8 s1 REOP_check_advance 0 else s1)
           in Parsed (if has_goto then snd (re_emit_goto s2 REOP_goto (of_nat start)) else s2)))
      else
        pbind (insert_code s start
                 ([reop_code (split_op greedy)] @ bytes_u32 (of_nat (6 + zlen + len + 10))
                  @ set_i32_code quant_max @ char_pos_code zadv)) (\<lambda>s1.
          Parsed (snd (re_emit_goto_u8_u32 s1 (loop_split_op zadv greedy) 0 (of_int quant_max)
                         (of_nat (start + 11))))))"

text \<open>The code of an atom that matches at least once.\<close>

definition emit_repeated ::
    "re_parse_state \<Rightarrow> nat \<Rightarrow> int \<Rightarrow> int \<Rightarrow> bool \<Rightarrow> bool \<Rightarrow> re_parse_state parsed" where
  "emit_repeated s start quant_min quant_max greedy zadv0 =
     (if quant_min = 1 \<and> quant_max = INT32_MAX \<and> \<not> zadv0 then
        Parsed (snd (re_emit_goto s (split_op (\<not> greedy)) (of_nat start)))
      else
        let zadv = zadv0 \<and> quant_min \<noteq> quant_max in
        pbind (insert_code s start (set_i32_code quant_max @ char_pos_code zadv)) (\<lambda>s1.
          Parsed
            (if quant_min = quant_max then snd (re_emit_goto_u8 s1 REOP_loop 0 (of_nat (start + 6)))
             else snd (re_emit_goto_u8_u32 s1 (loop_split_op zadv greedy) 0
                         (of_int (quant_max - quant_min)) (of_nat (start + 6))))))"

definition emit_quantifier ::
    "re_parse_state \<Rightarrow> nat \<Rightarrow> int \<Rightarrow> int \<Rightarrow> int \<Rightarrow> bool \<Rightarrow> re_parse_state parsed" where
  "emit_quantifier s start last_capture_count quant_min quant_max greedy =
     (case re_need_check_adv_and_capture_init (drop start (db_buf (ps_byte_code s))) of
        None \<Rightarrow> Crashed
      | Some (zadv, need_capture_init) \<Rightarrow>
          let captures = last_capture_count \<noteq> ps_capture_count s;
              reset = save_reset_code last_capture_count s
          in pbind (if need_capture_init \<and> captures then insert_code s start reset else Parsed s) (\<lambda>s1.
             let len = bc_size s1 - start in
             if quant_min = 0 then
               pbind (if \<not> need_capture_init \<and> captures
                      then pbind (insert_code s1 start reset) (\<lambda>s2. Parsed (s2, start + 3))
                      else Parsed (s1, start)) (\<lambda>(s2, start2).
               emit_optional s2 start2 len quant_max greedy zadv)
             else emit_repeated s1 start quant_min quant_max greedy zadv))"

definition parse_quantifier :: "(nat \<times> int) option \<Rightarrow> nat \<Rightarrow> re_parse_state \<Rightarrow> re_parse_state parsed" where
  "parse_quantifier last_atom p s =
     (case last_atom of
        None \<Rightarrow> Parsed (s\<lparr>ps_ptr := p\<rparr>)
      | Some (start, last_capture_count) \<Rightarrow>
          pbind (quantifier_bounds s p) (\<lambda>(bounds, p1).
            case bounds of
              None \<Rightarrow> Parsed (s\<lparr>ps_ptr := p1\<rparr>)
            | Some (quant_min, quant_max) \<Rightarrow>
                let lazy = rd (ps_buf s) p1 = CH_question in
                pbind (emit_quantifier s start last_capture_count quant_min quant_max (\<not> lazy)) (\<lambda>s'.
                Parsed (s'\<lparr>ps_ptr := if lazy then p1 + 1 else p1\<rparr>))))"

definition re_parse_term :: "parser \<Rightarrow> bool \<Rightarrow> re_parse_state \<Rightarrow> re_parse_state parsed" where
  "re_parse_term parse_disj is_backward_dir s =
     pbind (parse_atom parse_disj is_backward_dir s) (\<lambda>(last_atom, p, s'). parse_quantifier last_atom p s')"

subsection \<open>Alternatives and disjunctions\<close>

text \<open>
  In a lookbehind the code of each term is moved before the code of the terms already
  parsed: the block from \<open>start\<close> to \<open>term_start\<close> and the term change places.
\<close>

definition move_term :: "nat \<Rightarrow> nat \<Rightarrow> re_parse_state \<Rightarrow> re_parse_state parsed" where
  "move_term start term_start s =
     (case dbuf_claim (ps_byte_code s) (bc_size s - term_start) of
        (ret, d) \<Rightarrow>
          if ret \<noteq> 0 then Rejected (s\<lparr>ps_byte_code := d\<rparr>)
          else
            let code = db_buf d in
            Parsed (s\<lparr>ps_byte_code := d\<lparr>db_buf :=
              take start code @ drop term_start code @ take (term_start - start) (drop start code)\<rparr>\<rparr>))"

fun alternative_terms ::
    "nat \<Rightarrow> parser \<Rightarrow> bool \<Rightarrow> nat \<Rightarrow> re_parse_state \<Rightarrow> re_parse_state parsed" where
  "alternative_terms 0 parse_disj is_backward_dir start s = Out_of_fuel"
| "alternative_terms (Suc n) parse_disj is_backward_dir start s =
     (let c = rd (ps_buf s) (ps_ptr s) in
      if ps_ptr s \<ge> length (ps_buf s) \<or> c = CH_bar \<or> c = CH_rparen then Parsed s
      else
        pbind (re_parse_term parse_disj is_backward_dir s) (\<lambda>s1.
        pbind (if is_backward_dir then move_term start (bc_size s) s1 else Parsed s1) (\<lambda>s2.
        alternative_terms n parse_disj is_backward_dir start s2)))"

definition re_parse_alternative :: "parser \<Rightarrow> bool \<Rightarrow> re_parse_state \<Rightarrow> re_parse_state parsed" where
  "re_parse_alternative parse_disj is_backward_dir s =
     alternative_terms (scan_fuel s) parse_disj is_backward_dir (bc_size s) s"

fun disjunction_alternatives ::
    "nat \<Rightarrow> parser \<Rightarrow> bool \<Rightarrow> nat \<Rightarrow> re_parse_state \<Rightarrow> re_parse_state parsed" where
  "disjunction_alternatives 0 parse_disj is_backward_dir start s = Out_of_fuel"
| "disjunction_alternatives (Suc n) parse_disj is_backward_dir start s =
     (if rd (ps_buf s) (ps_ptr s) \<noteq> CH_bar then Parsed s
      else
        let s0 = s\<lparr>ps_ptr := ps_ptr s + 1\<rparr>; len = bc_size s0 - start in
        pbind (insert_code s0 start
                 (reop_code REOP_split_next_first # bytes_u32 (of_nat (len + 5)))) (\<lambda>s1.
          case re_emit_op_u32 s1 REOP_goto 0 of
            (pos, s2) \<Rightarrow>
              pbind (re_parse_alternative parse_disj is_backward_dir
                       (s2\<lparr>ps_group_name_scope := ps_group_name_scope s2 + 1\<rparr>)) (\<lambda>s3.
              pbind (patch_jump pos s3) (\<lambda>s4.
              disjunction_alternatives n parse_disj is_backward_dir start s4))))"

text \<open>
  \<open>lre_check_stack_overflow\<close> always says no (\<open>re_wrapper.c\<close>). The fuel bounds the nesting of
  groups, and \<open>scan_fuel\<close> is enough: every group has its own opening parenthesis.
\<close>

fun re_parse_disjunction :: "nat \<Rightarrow> bool \<Rightarrow> re_parse_state \<Rightarrow> re_parse_state parsed" where
  "re_parse_disjunction 0 is_backward_dir s = Out_of_fuel"
| "re_parse_disjunction (Suc n) is_backward_dir s =
     pbind (re_parse_alternative (re_parse_disjunction n) is_backward_dir s) (\<lambda>s1.
     disjunction_alternatives (scan_fuel s) (re_parse_disjunction n) is_backward_dir (bc_size s) s1)"

subsection \<open>The compiler\<close>

text \<open>Bytecode is limited to half of \<open>INT32_MAX\<close>.\<close>

definition lre_bytecode_realloc :: "realloc_func \<Rightarrow> realloc_func" where
  "lre_bytecode_realloc ra = (\<lambda>size. int size \<le> INT32_MAX div 2 \<and> ra size)"

definition init_parse_state :: "u8 list \<Rightarrow> u32 \<Rightarrow> realloc_func \<Rightarrow> re_parse_state" where
  "init_parse_state buf re_flags ra =
     \<lparr>ps_byte_code = dbuf_init2 (lre_bytecode_realloc ra), ps_buf = buf, ps_ptr = 0,
      ps_re_flags = re_flags,
      ps_is_unicode = re_flags AND (LRE_FLAG_UNICODE OR LRE_FLAG_UNICODE_SETS) \<noteq> 0,
      ps_unicode_sets = re_flags AND LRE_FLAG_UNICODE_SETS \<noteq> 0,
      ps_ignore_case = re_flags AND LRE_FLAG_IGNORECASE \<noteq> 0,
      ps_multi_line = re_flags AND LRE_FLAG_MULTILINE \<noteq> 0,
      ps_dotall = re_flags AND LRE_FLAG_DOTALL \<noteq> 0,
      ps_group_name_scope = 0, ps_capture_count = 1, ps_total_capture_count = -1,
      ps_has_named_captures = -1, ps_group_names = dbuf_init2 ra, ps_error = '''', ps_realloc = ra\<rparr>"

text \<open>The header, the search loop of a pattern that is not sticky, and the start of group 0.\<close>

definition emit_prologue :: "re_parse_state \<Rightarrow> re_parse_state" where
  "emit_prologue s =
     (let s1 = emit_u32 0 (emit_u8 0 (emit_u8 0 (emit_u16 (ucast (ps_re_flags s)) s)));
          s2 = (if ps_re_flags s AND LRE_FLAG_STICKY \<noteq> 0 then s1
                else snd (re_emit_op_u32
                       (re_emit_op (snd (re_emit_op_u32 s1 REOP_split_goto_first 6)) REOP_any)
                       REOP_goto (- 11)))
      in re_emit_op_u8 s2 REOP_save_start 0)"

text \<open>The header is filled in and the group names, if a group has one, are appended.\<close>

definition finish_bytecode :: "re_parse_state \<Rightarrow> int \<Rightarrow> u8 list \<Rightarrow> u8 list" where
  "finish_bytecode s register_count code =
     (let code1 = code[RE_HEADER_CAPTURE_COUNT := of_int (ps_capture_count s),
                       RE_HEADER_REGISTER_COUNT := of_int register_count];
          code2 = put_u32 code1 RE_HEADER_BYTECODE_LEN (of_nat (length code - RE_HEADER_LEN));
          names = db_buf (ps_group_names s)
      in if int (length names) > (ps_capture_count s - 1) * int LRE_GROUP_NAME_TRAILER_LEN then
           (let code3 = db_buf (snd (dbuf_put ((ps_byte_code s)\<lparr>db_buf := code2\<rparr>) names))
            in put_u16 code3 RE_HEADER_FLAGS (ucast (lre_get_flags code3 OR LRE_FLAG_NAMED_GROUPS)))
         else code2)"

text \<open>
  The result is the bytecode, or the state whose \<open>ps_error\<close> is the message. \<open>re_parse_disjunction\<close>
  stops at the end of the pattern or at a closing parenthesis that has no opening one.
\<close>

definition lre_compile :: "u8 list \<Rightarrow> u32 \<Rightarrow> realloc_func \<Rightarrow> u8 list parsed" where
  "lre_compile buf re_flags ra =
     (let s = emit_prologue (init_parse_state buf re_flags ra) in
      pbind (re_parse_disjunction (scan_fuel s) False s) (\<lambda>s1.
        let s2 = re_emit_op (re_emit_op_u8 s1 REOP_save_end 0) REOP_match in
        if rd buf (ps_ptr s2) \<noteq> 0 then parse_error s2 ''extraneous characters at the end''
        else if db_error (ps_byte_code s2) then out_of_memory s2
        else case compute_register_count (db_buf (ps_byte_code s2)) of
          None \<Rightarrow> Crashed
        | Some (register_count, code) \<Rightarrow>
            if register_count < 0 then parse_error s2 ''too many imbricated quantifiers''
            else Parsed (finish_bytecode s2 register_count code)))"

end
