(* ===== verification/RegexpAppend.thy ===== *)
theory RegexpAppend
  imports RegexpStructure RegexpParse
begin

text \<open>
  What the emitting functions of \<open>libregexp/libregexp.c\<close> do to the buffer: each appends the
  code of a tree (theory \<open>RegexpStructure\<close>), unless an allocation fails. The invariant of the
  state of a compilation, single instructions, ranges, patches and insertions, and the code
  of a string list with its chain of gotos.
\<close>

subsection \<open>The state between two steps\<close>

text \<open>
  The table of group names is a sequence of entries, one for each group but group 0.
\<close>

definition name_entry :: "u8 list \<times> u8 \<Rightarrow> u8 list" where
  "name_entry e = fst e @ [0, snd e]"

definition names_are :: "re_parse_state \<Rightarrow> (u8 list \<times> u8) list \<Rightarrow> bool" where
  "names_are s es \<longleftrightarrow> db_buf (ps_group_names s) = concat (map name_entry es)
     \<and> (\<forall>e \<in> set es. 0 \<notin> set (fst e))
     \<and> db_wf (ps_group_names s) \<and> \<not> db_error (ps_group_names s)
     \<and> (\<forall>n. db_realloc (ps_group_names s) n)"

abbreviation code_error :: "re_parse_state \<Rightarrow> bool" where
  "code_error s \<equiv> db_error (ps_byte_code s)"

abbreviation code_bytes :: "re_parse_state \<Rightarrow> u8 list" where
  "code_bytes s \<equiv> db_buf (ps_byte_code s)"

abbreviation CODE_MAX :: nat where
  "CODE_MAX \<equiv> 1073741823"

definition code_ok :: "dyn_buf \<Rightarrow> bool" where
  "code_ok d \<longleftrightarrow> db_wf d \<and> db_bounded CODE_MAX d"

definition ok :: "re_parse_state \<Rightarrow> bool" where
  "ok s \<longleftrightarrow> code_ok (ps_byte_code s) \<and> 1 \<le> ps_capture_count s \<and> ps_capture_count s \<le> 255
     \<and> (\<exists>es. names_are s es \<and> int (length es) = ps_capture_count s - 1)"

text \<open>
  \<open>edited s xs s'\<close>: only the code changed; without an error it is now \<open>xs\<close>.
\<close>

definition edited :: "re_parse_state \<Rightarrow> u8 list \<Rightarrow> re_parse_state \<Rightarrow> bool" where
  "edited s xs s' \<longleftrightarrow> (\<exists>d. s' = s\<lparr>ps_byte_code := d\<rparr> \<and> code_ok d \<and> bc_size s \<le> db_size d
     \<and> (code_error s \<longrightarrow> db_error d) \<and> (\<not> db_error d \<longrightarrow> db_buf d = xs))"

text \<open>
  \<open>grows s s'\<close>: a step of the compiler. The code of a tree was appended, unless the buffer
  has an error now.
\<close>

definition grows :: "re_parse_state \<Rightarrow> re_parse_state \<Rightarrow> bool" where
  "grows s s' \<longleftrightarrow> ok s' \<and> ps_buf s' = ps_buf s \<and> bc_size s \<le> bc_size s'
     \<and> (code_error s \<longrightarrow> code_error s')
     \<and> (\<not> code_error s' \<longrightarrow> (\<exists>c. rwf c \<and> code_bytes s' = code_bytes s @ tree_code False 0 c))"

lemma names_are_update [simp]:
  "names_are (s\<lparr>ps_byte_code := d\<rparr>) es = names_are s es" "names_are (s\<lparr>ps_ptr := p\<rparr>) es = names_are s es"
  "names_are (s\<lparr>ps_capture_count := k\<rparr>) es = names_are s es"
  "names_are (s\<lparr>ps_ignore_case := b\<rparr>) es = names_are s es"
  "names_are (s\<lparr>ps_multi_line := b\<rparr>) es = names_are s es" "names_are (s\<lparr>ps_dotall := b\<rparr>) es = names_are s es"
  "names_are (s\<lparr>ps_group_name_scope := v\<rparr>) es = names_are s es"
  "names_are (s\<lparr>ps_total_capture_count := k\<rparr>) es = names_are s es"
  "names_are (s\<lparr>ps_has_named_captures := k\<rparr>) es = names_are s es"
  by (simp_all add: names_are_def)

lemma ok_update [simp]:
  "ok (s\<lparr>ps_ptr := p\<rparr>) = ok s" "ok (s\<lparr>ps_ignore_case := b\<rparr>) = ok s"
  "ok (s\<lparr>ps_multi_line := b\<rparr>) = ok s" "ok (s\<lparr>ps_dotall := b\<rparr>) = ok s"
  "ok (s\<lparr>ps_group_name_scope := v\<rparr>) = ok s" "ok (s\<lparr>ps_total_capture_count := k\<rparr>) = ok s"
  "ok (s\<lparr>ps_has_named_captures := k\<rparr>) = ok s"
  by (simp_all add: ok_def)

lemma grows_update [simp]:
  "grows s (s'\<lparr>ps_ptr := p\<rparr>) = grows s s'" "grows s (s'\<lparr>ps_ignore_case := b\<rparr>) = grows s s'"
  "grows s (s'\<lparr>ps_multi_line := b\<rparr>) = grows s s'" "grows s (s'\<lparr>ps_dotall := b\<rparr>) = grows s s'"
  "grows s (s'\<lparr>ps_group_name_scope := v\<rparr>) = grows s s'"
  "grows s (s'\<lparr>ps_total_capture_count := k\<rparr>) = grows s s'"
  "grows s (s'\<lparr>ps_has_named_captures := k\<rparr>) = grows s s'"
  by (simp_all add: grows_def)

lemma grows_from_update [simp]:
  "grows (s\<lparr>ps_ptr := p\<rparr>) s' = grows s s'" "grows (s\<lparr>ps_ignore_case := b\<rparr>) s' = grows s s'"
  "grows (s\<lparr>ps_multi_line := b\<rparr>) s' = grows s s'" "grows (s\<lparr>ps_dotall := b\<rparr>) s' = grows s s'"
  "grows (s\<lparr>ps_group_name_scope := v\<rparr>) s' = grows s s'"
  "grows (s\<lparr>ps_total_capture_count := k\<rparr>) s' = grows s s'"
  "grows (s\<lparr>ps_has_named_captures := k\<rparr>) s' = grows s s'"
  by (simp_all add: grows_def)

lemma grows_refl: "ok s \<Longrightarrow> grows s s"
  unfolding grows_def by (intro conjI impI exI [of _ Skip]) simp_all

lemma grows_trans: "grows s s1 \<Longrightarrow> grows s1 s2 \<Longrightarrow> grows s s2"
proof -
  assume 1: "grows s s1" and 2: "grows s1 s2"
  have "\<exists>c. rwf c \<and> code_bytes s2 = code_bytes s @ tree_code False 0 c" if e: "\<not> code_error s2"
  proof -
    obtain c1 where c1: "rwf c1" "code_bytes s1 = code_bytes s @ tree_code False 0 c1"
      using 1 2 e unfolding grows_def by blast
    obtain c2 where c2: "rwf c2" "code_bytes s2 = code_bytes s1 @ tree_code False 0 c2"
      using 2 e unfolding grows_def by blast
    show ?thesis using c1 c2 by (intro exI [of _ "Seq c1 c2"]) simp
  qed
  then show ?thesis using 1 2 by (simp add: grows_def)
qed

lemma grows_ok: "grows s s' \<Longrightarrow> ok s'"
  by (simp add: grows_def)

lemma grows_buf: "grows s s' \<Longrightarrow> ps_buf s' = ps_buf s"
  by (simp add: grows_def)

lemma ok_wf: "ok s \<Longrightarrow> db_wf (ps_byte_code s)"
  by (simp add: ok_def code_ok_def)

lemma emits_edited: "ok s \<Longrightarrow> emits s xs s' \<Longrightarrow> edited s (code_bytes s @ xs) s'"
  by (auto simp: emits_def edited_def ok_def code_ok_def)

lemma edited_ok: "ok s \<Longrightarrow> edited s xs s' \<Longrightarrow> ok s'"
  by (auto simp: edited_def ok_def)

text \<open>\<open>appends s s'\<close>: a step that only emits.\<close>

definition appends :: "re_parse_state \<Rightarrow> re_parse_state \<Rightarrow> bool" where
  "appends s s' \<longleftrightarrow> (\<exists>c. rwf c \<and> edited s (code_bytes s @ tree_code False 0 c) s')"

lemma appends_ok: "ok s \<Longrightarrow> appends s s' \<Longrightarrow> ok s'"
  by (auto simp: appends_def intro: edited_ok)

lemma appends_grows: "ok s \<Longrightarrow> appends s s' \<Longrightarrow> grows s s'"
  using appends_ok [of s s'] by (auto simp: appends_def edited_def grows_def)

lemma appends_refl: "ok s \<Longrightarrow> appends s s"
  unfolding appends_def edited_def
  by (intro exI [of _ Skip] conjI exI [of _ "ps_byte_code s"]) (simp_all add: ok_def)

lemma appends_trans: "appends s s1 \<Longrightarrow> appends s1 s2 \<Longrightarrow> appends s s2"
proof -
  assume "appends s s1" "appends s1 s2"
  then obtain a b where a: "rwf a" "edited s (code_bytes s @ tree_code False 0 a) s1"
    and b: "rwf b" "edited s1 (code_bytes s1 @ tree_code False 0 b) s2"
    by (auto simp: appends_def)
  then have "edited s (code_bytes s @ tree_code False 0 (Seq a b)) s2"
    unfolding edited_def by auto
  then show ?thesis using a(1) b(1) unfolding appends_def by (intro exI [of _ "Seq a b"]) simp
qed

lemma emits_appends: "ok s \<Longrightarrow> emits s (tree_code False 0 c) s' \<Longrightarrow> rwf c \<Longrightarrow> appends s s'"
  unfolding appends_def by (blast intro: emits_edited)

subsection \<open>Emitting one instruction\<close>

lemma emits_op: "db_wf (ps_byte_code s) \<Longrightarrow> emits s (ins op []) (re_emit_op s op)"
  unfolding re_emit_op_def ins_def by (rule emits_u8)

lemma emits_op_u8: "db_wf (ps_byte_code s) \<Longrightarrow> emits s (ins op [ucast v]) (re_emit_op_u8 s op v)"
  using emits_trans [OF emits_u8 emits_u8 [OF emits_wf [OF emits_u8]]]
  by (fastforce simp: re_emit_op_u8_def ins_def)

lemma emits_op_u16: "db_wf (ps_byte_code s) \<Longrightarrow> emits s (ins op (bytes_u16 (ucast v))) (re_emit_op_u16 s op v)"
  using emits_trans [OF emits_u8 emits_u16 [OF emits_wf [OF emits_u8]]]
  by (fastforce simp: re_emit_op_u16_def ins_def)

lemma emits_op_u32: "db_wf (ps_byte_code s) \<Longrightarrow> emits s (ins op (bytes_u32 v)) (snd (re_emit_op_u32 s op v))"
  using emits_trans [OF emits_u8 emits_u32 [OF emits_wf [OF emits_u8]]]
  by (fastforce simp: re_emit_op_u32_def ins_def Let_def)

lemma op_u32_position:
  "\<not> code_error (snd (re_emit_op_u32 s op v)) \<Longrightarrow> db_wf (ps_byte_code s) \<Longrightarrow>
     fst (re_emit_op_u32 s op v) = bc_size s + 1"
proof -
  assume wf: "db_wf (ps_byte_code s)" and e: "\<not> code_error (snd (re_emit_op_u32 s op v))"
  let ?s1 = "emit_u8 (reop_code op) s"
  have 1: "emits s [reop_code op] ?s1" by (rule emits_u8 [OF wf])
  have "emits ?s1 (bytes_u32 v) (snd (re_emit_op_u32 s op v))"
    using emits_u32 [OF emits_wf [OF 1]] by (simp add: re_emit_op_u32_def Let_def)
  with e have "\<not> code_error ?s1" by (auto simp: emits_def)
  with 1 have "bc_size ?s1 = bc_size s + 1" by (auto simp: emits_def)
  then show ?thesis by (simp add: re_emit_op_u32_def Let_def)
qed

lemma instr_appends:
  "ok s \<Longrightarrow> emits s (ins op bs) s' \<Longrightarrow> falls_through op \<Longrightarrow> \<not> is_range_op op \<Longrightarrow> instr_ok op bs \<Longrightarrow>
     appends s s'"
  by (rule emits_appends [where c = "Instr op bs"]) simp_all

lemma fixed_instr:
  "falls_through op \<Longrightarrow> op \<notin> {REOP_range, REOP_range_i, REOP_range32, REOP_range32_i, REOP_back_reference,
     REOP_back_reference_i, REOP_backward_back_reference, REOP_backward_back_reference_i} \<Longrightarrow>
     reop_size op = 1 + length bs \<Longrightarrow> falls_through op \<and> \<not> is_range_op op \<and> instr_ok op bs"
  by (auto simp: instr_ok_fixed is_range_op_def)

lemma op_appends:
  assumes "ok s"
    and "falls_through op" "op \<notin> {REOP_range, REOP_range_i, REOP_range32, REOP_range32_i, REOP_back_reference,
     REOP_back_reference_i, REOP_backward_back_reference, REOP_backward_back_reference_i}"
  shows "reop_size op = 1 \<Longrightarrow> appends s (re_emit_op s op)"
    and "reop_size op = 2 \<Longrightarrow> appends s (re_emit_op_u8 s op v)"
    and "reop_size op = 3 \<Longrightarrow> appends s (re_emit_op_u16 s op v)"
    and "reop_size op = 5 \<Longrightarrow> appends s (snd (re_emit_op_u32 s op v))"
proof -
  note wf = ok_wf [OF assms(1)] and fixed = fixed_instr [OF assms(2,3)]
  show "reop_size op = 1 \<Longrightarrow> appends s (re_emit_op s op)"
    using fixed [of "[]"] by (intro instr_appends [OF assms(1) emits_op [OF wf]]) simp_all
  show "reop_size op = 2 \<Longrightarrow> appends s (re_emit_op_u8 s op v)"
    using fixed [of "[ucast v]"] by (intro instr_appends [OF assms(1) emits_op_u8 [OF wf]]) simp_all
  show "reop_size op = 3 \<Longrightarrow> appends s (re_emit_op_u16 s op v)"
    using fixed [of "bytes_u16 (ucast v)"]
    by (intro instr_appends [OF assms(1) emits_op_u16 [OF wf]]) (simp_all add: bytes_u16_def)
  show "reop_size op = 5 \<Longrightarrow> appends s (snd (re_emit_op_u32 s op v))"
    using fixed [of "bytes_u32 v"] by (intro instr_appends [OF assms(1) emits_op_u32 [OF wf]]) simp_all
qed

lemma re_emit_char_appends: "ok s \<Longrightarrow> appends s (re_emit_char s c)"
  unfolding re_emit_char_def by (simp add: op_appends falls_through_def)

lemma emit_chars_appends: "ok s \<Longrightarrow> appends s (emit_chars cs s)"
proof (induction cs arbitrary: s)
  case (Cons c cs)
  have "appends s (re_emit_char s c)" by (rule re_emit_char_appends [OF Cons.prems])
  moreover from Cons.IH [OF appends_ok [OF Cons.prems this]] have "appends (re_emit_char s c) (emit_chars cs (re_emit_char s c))" .
  ultimately show ?case unfolding emit_chars_def foldl_Cons by (rule appends_trans)
qed (simp add: emit_chars_def appends_refl)

lemma emit_prev_appends: "ok s \<Longrightarrow> appends s (emit_prev b s)"
  by (simp add: emit_prev_def appends_refl op_appends falls_through_def)

lemma emit_chars_ptr [simp]: "ps_ptr (emit_prev b s) = ps_ptr s"
  by (simp add: emit_prev_def re_emit_op_def emit_u8_def)

text \<open>A range, of any vector of points.\<close>

lemma length_range_cells: "length (range_cells w pts) = 2 * (length pts div 2)"
  by (induction w pts rule: range_cells.induct) simp_all

lemma range_instr:
  assumes "w = 2 \<and> (op = REOP_range \<or> op = REOP_range_i) \<or> w = 4 \<and> (op = REOP_range32 \<or> op = REOP_range32_i)"
    and "length pts div 2 = n" "0 < n" "n < 65535"
  shows "rwf (Instr op (bytes_u16 (of_nat n) @ concat (map (cell w) (range_cells w pts))))"
proof -
  let ?bs = "bytes_u16 (of_nat n) @ concat (map (cell w) (range_cells w pts))"
  have u: "unat (of_nat n :: u16) = n" using assms(4) by (simp add: unsigned_of_nat take_bit_nat_eq_self)
  have count: "get_u16 (ins op ?bs) 1 = ucast (of_nat n :: u16)"
    using get_u16_split [of "[reop_code op]" "of_nat n"] by (simp add: ins_def)
  have u32: "unat (ucast (of_nat n :: u16) :: u32) = n"
    using u assms(4) by (simp add: unsigned_ucast_eq take_bit_nat_eq_self)
  have "length (concat (map (cell w) (range_cells w pts))) = 2 * n * w"
    using length_cells [of w "range_cells w pts"] assms(1,2) by (auto simp: length_range_cells)
  then have len: "length ?bs = 2 + 2 * n * w" by (simp add: bytes_u16_def)
  have "ucast (of_nat n :: u16) \<noteq> (0 :: u32)" using u32 assms(3) by (metis less_numeral_extra(3) unsigned_0)
  moreover have "instr_ok op ?bs"
    using assms(1) len u32 count by (elim disjE conjE) (simp_all add: instr_ok_def reop_len_def bc16_def)
  ultimately show ?thesis
    using assms(1) count by (auto simp: falls_through_def)
qed

lemma re_emit_range_appends:
  assumes "ok s" "re_emit_range s pts = (0, s')"
  shows "appends s s'"
proof (cases "length pts div 2 = 0")
  case True
  then have "s' = snd (re_emit_op_u32 s REOP_char32 (-1))" using assms(2) by (simp add: re_emit_range_def)
  then show ?thesis using assms(1) by (simp add: op_appends falls_through_def)
next
  case False
  let ?n = "length pts div 2"
  define wide where "wide = ((if pts ! (length pts - 1) = 0xFFFFFFFF then pts ! (length pts - 2) else pts ! (length pts - 1)) > 0xffff)"
  have n: "?n < 65535" using assms(2) by (auto simp: re_emit_range_def re_parse_error_def Let_def split: if_splits)
  have id: "ucast (of_nat ?n :: u32) = (of_nat ?n :: u16)"
    using n by (simp add: word_unat_eq_iff unsigned_ucast_eq unsigned_of_nat take_bit_nat_eq_self)
  note wf = ok_wf [OF assms(1)]
  show ?thesis
  proof (cases wide)
    case True
    let ?op = "if ps_ignore_case s then REOP_range32_i else REOP_range32"
    have "s' = emit_range32 pts (re_emit_op_u16 s ?op (of_nat ?n))"
      using assms(2) False n True by (simp add: re_emit_range_def wide_def Let_def leD split: if_splits)
    then have "emits s (ins ?op (bytes_u16 (of_nat ?n)) @ concat (map (cell 4) (range_cells 4 pts))) s'"
      using emits_trans [OF emits_op_u16 [OF wf, of ?op "of_nat ?n"]
          emit_range32_emits [OF emits_wf [OF emits_op_u16 [OF wf]], where pts = pts]]
      by (simp only: id)
    then show ?thesis
      using range_instr [of 4 ?op pts ?n] False n
      by (intro emits_appends [OF assms(1), where c = "Instr ?op (bytes_u16 (of_nat ?n) @ concat (map (cell 4) (range_cells 4 pts)))"])
        (simp_all add: ins_def)
  next
    case narrow: False
    let ?op = "if ps_ignore_case s then REOP_range_i else REOP_range"
    have "s' = emit_range16 pts (re_emit_op_u16 s ?op (of_nat ?n))"
      using assms(2) False n narrow by (simp add: re_emit_range_def wide_def Let_def not_less split: if_splits)
    then have "emits s (ins ?op (bytes_u16 (of_nat ?n)) @ concat (map (cell 2) (range_cells 2 pts))) s'"
      using emits_trans [OF emits_op_u16 [OF wf, of ?op "of_nat ?n"]
          emit_range16_emits [OF emits_wf [OF emits_op_u16 [OF wf]], where pts = pts]]
      by (simp only: id)
    then show ?thesis
      using range_instr [of 2 ?op pts ?n] False n
      by (intro emits_appends [OF assms(1), where c = "Instr ?op (bytes_u16 (of_nat ?n) @ concat (map (cell 2) (range_cells 2 pts)))"])
        (simp_all add: ins_def)
  qed
qed

subsection \<open>Patches and insertions\<close>

lemma edited_trans: "edited s xs s1 \<Longrightarrow> edited s1 ys s2 \<Longrightarrow> edited s ys s2"
  unfolding edited_def by (elim exE conjE) (rule_tac x = da in exI, auto)

lemma edited_bytes: "edited s xs s' \<Longrightarrow> \<not> code_error s' \<Longrightarrow> code_bytes s' = xs \<and> \<not> code_error s"
  by (auto simp: edited_def)

lemma edited_fields:
  "edited s xs s' \<Longrightarrow> ps_buf s' = ps_buf s \<and> ps_ptr s' = ps_ptr s \<and> ps_capture_count s' = ps_capture_count s
     \<and> bc_size s \<le> bc_size s' \<and> (code_error s \<longrightarrow> code_error s')"
  by (auto simp: edited_def)

lemma put_u32_instr:
  "put_u32 (pre @ ins op (bytes_u32 w) @ post) (Suc (length pre)) v = pre @ ins op (bytes_u32 v) @ post"
  by (simp add: put_u32_def put_bytes_def ins_def)

lemma patch_edits:
  assumes "ok s"
    and "\<not> code_error s \<Longrightarrow> code_bytes s = pre @ ins op (bytes_u32 w) @ post \<and> pos = length pre + 1"
  shows "on_parsed (edited s (pre @ ins op (bytes_u32 v) @ post)) (patch_u32 pos v s)"
proof (cases "pos + 4 \<le> db_allocated (ps_byte_code s)")
  case True
  let ?d = "ps_byte_code s"
  let ?xs = "take (db_size ?d) (put_u32 (db_buf ?d @ replicate 4 0) pos v)"
  have size: "length ?xs = db_size ?d"
    by (simp add: put_u32_def put_bytes_def min_def)
  moreover have "?xs = pre @ ins op (bytes_u32 v) @ post" if "\<not> code_error s"
  proof -
    note * = assms(2) [OF that]
    have "put_u32 (db_buf ?d @ replicate 4 0) pos v = (pre @ ins op (bytes_u32 v) @ post) @ replicate 4 0"
      using put_u32_instr [of pre op w "post @ replicate 4 0" v] by (simp add: *)
    then have "?xs = take (db_size ?d) ((pre @ ins op (bytes_u32 v) @ post) @ replicate 4 0)" by simp
    also have "\<dots> = pre @ ins op (bytes_u32 v) @ post" by (simp add: *)
    finally show ?thesis .
  qed
  ultimately have "edited s (pre @ ins op (bytes_u32 v) @ post) (s\<lparr>ps_byte_code := ?d\<lparr>db_buf := ?xs\<rparr>\<rparr>)"
    using assms(1) unfolding edited_def
    by (intro exI [of _ "?d\<lparr>db_buf := ?xs\<rparr>"]) (simp add: ok_def code_ok_def db_wf_def)
  then show ?thesis using True by (simp add: patch_u32_def Let_def)
qed (simp add: patch_u32_def)

lemma patch_jump_edits:
  assumes "ok s"
    and "\<not> code_error s \<Longrightarrow> code_bytes s = pre @ ins op (bytes_u32 w) @ post \<and> pos = length pre + 1"
  shows "on_parsed (edited s (pre @ ins op (bytes_u32 (of_nat (length post))) @ post)) (patch_jump pos s)"
proof (cases "code_error s")
  case False
  have "of_nat (bc_size s) - (of_nat pos + 4) = (of_nat (length post) :: u32)"
    using assms(2) [OF False] by simp
  then show ?thesis using patch_edits [OF assms] by (simp add: patch_jump_def)
next
  case True
  have "on_parsed (edited s ys) (patch_u32 pos v s)" for ys v
    by (rule on_parsed_mono [OF patch_edits [OF assms]]) (use True in \<open>auto simp: edited_def\<close>)
  then show ?thesis by (simp add: patch_jump_def)
qed

lemma insert_code_edits:
  assumes "ok s" "pos \<le> bc_size s"
  shows "on_parsed (\<lambda>s'. edited s (take pos (code_bytes s) @ bytes @ drop pos (code_bytes s)) s'
      \<and> bc_size s' = bc_size s + length bytes) (insert_code s pos bytes)"
proof (rule dbuf_insert_cases [of "ps_byte_code s" pos "length bytes"])
  fix n
  let ?d = "ps_byte_code s"
  let ?d' = "?d\<lparr>db_allocated := n, db_buf := take pos (db_buf ?d)
      @ take (length bytes) (drop pos (db_buf ?d) @ replicate (length bytes) 0) @ drop pos (db_buf ?d)\<rparr>"
  assume i: "dbuf_insert ?d pos (length bytes) = (0, ?d')" and n: "db_size ?d + length bytes \<le> n"
  have "db_bounded CODE_MAX ?d'"
    using assms(1) dbuf_insert_bounded [of CODE_MAX ?d pos "length bytes"] i by (simp add: ok_def code_ok_def)
  then have "edited s (take pos (code_bytes s) @ bytes @ drop pos (code_bytes s))
      (s\<lparr>ps_byte_code := ?d'\<lparr>db_buf := put_bytes (db_buf ?d') pos bytes\<rparr>\<rparr>)"
    unfolding edited_def using assms(2) n
    by (intro exI [of _ "?d'\<lparr>db_buf := put_bytes (db_buf ?d') pos bytes\<rparr>"])
      (auto simp: code_ok_def db_wf_def put_bytes_def min_def)
  then show ?thesis using assms(2) by (simp add: insert_code_def i put_bytes_def)
qed (simp add: insert_code_def)

subsection \<open>String lists\<close>

text \<open>
  The code of the strings before the gotos are patched: \<open>l\<close> is the operand of the first goto,
  the operand of each other one is the position of the operand before it.
\<close>

fun strings_code :: "nat \<Rightarrow> int \<Rightarrow> rcode list \<Rightarrow> u8 list" where
  "strings_code P l [] = []"
| "strings_code P l (c # cs) =
     ins REOP_split_next_first (bytes_u32 (of_nat (rlen c + 5))) @ tree_code False 0 c
     @ ins REOP_goto (bytes_u32 (of_int l)) @ strings_code (P + rlen c + 10) (int (P + rlen c + 6)) cs"

fun last_goto :: "nat \<Rightarrow> int \<Rightarrow> rcode list \<Rightarrow> int" where
  "last_goto P l [] = l"
| "last_goto P l (c # cs) = last_goto (P + rlen c + 10) (int (P + rlen c + 6)) cs"

lemma strings_code_append:
  "strings_code P l (cs @ [c]) = strings_code P l cs
     @ ins REOP_split_next_first (bytes_u32 (of_nat (rlen c + 5))) @ tree_code False 0 c
     @ ins REOP_goto (bytes_u32 (of_int (last_goto P l cs)))"
  "last_goto P l (cs @ [c]) = int (P + length (strings_code P l cs) + rlen c + 6)"
  by (induction cs arbitrary: P l) simp_all

definition strings_result ::
    "bool \<Rightarrow> int \<Rightarrow> re_parse_state \<Rightarrow> int \<times> re_parse_state \<Rightarrow> bool" where
  "strings_result others l s r \<longleftrightarrow> (\<exists>cs t. (\<forall>c \<in> set cs. rwf c) \<and> rwf t \<and> (others \<longrightarrow> t = Skip)
     \<and> edited s (code_bytes s @ strings_code (bc_size s) l cs @ tree_code False 0 t) (snd r)
     \<and> (\<not> code_error (snd r) \<longrightarrow> fst r = last_goto (bc_size s) l cs))"

lemma emit_strings_result:
  "ok s \<Longrightarrow> on_parsed (strings_result others l s) (emit_strings others tab l s)"
proof (induction tab arbitrary: l s)
  case Nil
  have "edited s (code_bytes s) s"
    using Nil by (intro exI [of _ "ps_byte_code s"] iffD2 [OF edited_def]) (simp add: ok_def)
  then show ?case
    by (auto simp: strings_result_def intro!: exI [of _ "[]"] exI [of _ Skip])
next
  case (Cons p tab)
  show ?case
  proof (cases "others \<or> tab \<noteq> []")
    case False
    have "appends s (emit_chars (rs_buf p) s)" by (rule emit_chars_appends [OF Cons.prems])
    then obtain t where "rwf t" "edited s (code_bytes s @ tree_code False 0 t) (emit_chars (rs_buf p) s)"
      by (auto simp: appends_def)
    then show ?thesis using False
      by (auto simp: strings_result_def intro!: exI [of _ "[]"] exI [of _ t])
  next
    case True
    obtain split_pos s1 where s1: "re_emit_op_u32 s REOP_split_next_first 0 = (split_pos, s1)"
      by (rule prod.exhaust)
    let ?s2 = "emit_chars (rs_buf p) s1"
    obtain pos s3 where s3: "re_emit_op_u32 ?s2 REOP_goto (of_int l) = (pos, s3)" by (rule prod.exhaust)
    have e1: "edited s (code_bytes s @ ins REOP_split_next_first (bytes_u32 0)) s1"
      using emits_edited [OF Cons.prems emits_op_u32 [OF ok_wf [OF Cons.prems]], of REOP_split_next_first 0] s1 by simp
    have ok1: "ok s1" by (rule edited_ok [OF Cons.prems e1])
    obtain c where c: "rwf c" and e2: "edited s1 (code_bytes s1 @ tree_code False 0 c) ?s2"
      using emit_chars_appends [OF ok1, of "rs_buf p"] by (auto simp: appends_def)
    have ok2: "ok ?s2" by (rule edited_ok [OF ok1 e2])
    have e3: "edited ?s2 (code_bytes ?s2 @ ins REOP_goto (bytes_u32 (of_int l))) s3"
      using emits_edited [OF ok2 emits_op_u32 [OF ok_wf [OF ok2]], of REOP_goto "of_int l"] s3 by simp
    have ok3: "ok s3" by (rule edited_ok [OF ok2 e3])
    let ?body = "tree_code False 0 c @ ins REOP_goto (bytes_u32 (of_int l))"
    have code3: "code_bytes s3 = code_bytes s @ ins REOP_split_next_first (bytes_u32 0) @ ?body
        \<and> split_pos = bc_size s + 1 \<and> pos = bc_size s + rlen c + 6" if "\<not> code_error s3"
    proof -
      note b3 = edited_bytes [OF e3 that]
      note b2 = edited_bytes [OF e2 conjunct2 [OF b3]]
      note b1 = edited_bytes [OF e1 conjunct2 [OF b2]]
      show ?thesis
        using b1 b2 b3 op_u32_position [of s REOP_split_next_first 0] op_u32_position [of ?s2 REOP_goto "of_int l"]
          ok_wf [OF Cons.prems] ok_wf [OF ok2] that by (simp add: s1 s3)
    qed
    have e4: "on_parsed (edited s3 (code_bytes s @ ins REOP_split_next_first (bytes_u32 (of_nat (length ?body))) @ ?body))
        (patch_jump split_pos s3)"
      by (rule patch_jump_edits [OF ok3]) (use code3 in auto)
    have "on_parsed (strings_result others l s) (emit_strings others tab (int pos) s4)"
      if s4: "edited s3 (code_bytes s @ ins REOP_split_next_first (bytes_u32 (of_nat (length ?body))) @ ?body) s4" for s4
    proof -
      have ok4: "ok s4" by (rule edited_ok [OF ok3 s4])
      have e: "edited s (code_bytes s @ ins REOP_split_next_first (bytes_u32 (of_nat (length ?body))) @ ?body) s4"
        using e1 e2 e3 s4 by (blast intro: edited_trans)
      have "strings_result others l s r" if r: "strings_result others (int pos) s4 r" for r
      proof -
        from r obtain cs t where cs: "\<forall>c \<in> set cs. rwf c" "rwf t" "others \<longrightarrow> t = Skip"
          "edited s4 (code_bytes s4 @ strings_code (bc_size s4) (int pos) cs @ tree_code False 0 t) (snd r)"
          "\<not> code_error (snd r) \<longrightarrow> fst r = last_goto (bc_size s4) (int pos) cs"
          by (auto simp: strings_result_def)
        have same: "code_bytes s4 = code_bytes s @ ins REOP_split_next_first (bytes_u32 (of_nat (rlen c + 5))) @ ?body
            \<and> pos = bc_size s + rlen c + 6" if "\<not> code_error (snd r)"
        proof -
          have "\<not> code_error s4" using cs(4) that by (auto simp: edited_def)
          then have "\<not> code_error s3" using s4 by (auto simp: edited_def)
          then show ?thesis using code3 edited_bytes [OF e \<open>\<not> code_error s4\<close>] by simp
        qed
        have "edited s (code_bytes s @ strings_code (bc_size s) l (c # cs) @ tree_code False 0 t) (snd r)"
        proof -
          have "edited s (code_bytes s4 @ strings_code (bc_size s4) (int pos) cs @ tree_code False 0 t) (snd r)"
            by (rule edited_trans [OF e cs(4)])
          moreover have "code_bytes s4 @ strings_code (bc_size s4) (int pos) cs @ tree_code False 0 t
              = code_bytes s @ strings_code (bc_size s) l (c # cs) @ tree_code False 0 t" if "\<not> code_error (snd r)"
            using same [OF that] by (simp add: algebra_simps)
          ultimately show ?thesis by (auto simp: edited_def)
        qed
        then show ?thesis
          unfolding strings_result_def using cs c same
          by (intro exI [of _ "c # cs"] exI [of _ t]) (auto simp: algebra_simps)
      qed
      with Cons.IH [OF ok4] show ?thesis by (rule on_parsed_mono)
    qed
    then have "on_parsed (strings_result others l s) (pbind (patch_jump split_pos s3) (emit_strings others tab (int pos)))"
      by (rule on_parsed_bind [OF e4])
    then show ?thesis using True by (simp add: s1 s3)
  qed
qed

lemma on_parsed_case:
  "on_parsed Q m \<Longrightarrow> (\<And>x. Q x \<Longrightarrow> on_parsed P (f x)) \<Longrightarrow>
     on_parsed P (case m of Parsed x \<Rightarrow> f x | Rejected s \<Rightarrow> Rejected s | Hangs \<Rightarrow> Hangs
       | Crashed \<Rightarrow> Crashed | Out_of_fuel \<Rightarrow> Out_of_fuel)"
  by (cases m) simp_all

lemma edited_error: "code_error s \<Longrightarrow> edited s xs s' \<Longrightarrow> edited s ys s'"
  by (auto simp: edited_def)

lemma edited_refl: "ok s \<Longrightarrow> edited s (code_bytes s) s"
  by (intro iffD2 [OF edited_def] exI [of _ "ps_byte_code s"]) (simp add: ok_def)

lemma patch_gotos_error:
  "ok s \<Longrightarrow> code_error s \<Longrightarrow> on_parsed (edited s xs) (patch_gotos l s)"
proof (induction l s rule: patch_gotos.induct)
  case (1 l s)
  have patch: "on_parsed (edited s xs) (patch_jump (nat l) s)"
    by (rule on_parsed_mono [OF patch_jump_edits [OF 1(2)]]) (use 1(3) edited_error in blast)+
  have tail: "on_parsed (edited s xs) (patch_gotos k s')"
    if "patch_jump (nat l) s = Parsed s'" "\<not> (l = -1)" "\<not> (l < 0 \<or> nat l + 4 > bc_size s)"
      "k = sint (get_u32 (code_bytes s) (nat l))" "\<not> l \<le> k" for k s'
  proof -
    have e: "edited s xs s'" using on_parsedD [OF patch that(1)] .
    have "on_parsed (edited s' xs) (patch_gotos k s')"
      using e edited_ok [OF 1(2) e] 1(3) that by (intro 1(1)) (auto simp: edited_def)
    then show ?thesis by (rule on_parsed_mono) (rule edited_trans [OF e])
  qed
  have stay: "edited s xs s" by (rule edited_error [OF 1(3) edited_refl [OF 1(2)]])
  show ?case
  proof (cases "patch_jump (nat l) s")
    case (Parsed s')
    then show ?thesis using tail [OF Parsed _ _ refl] stay
      by (subst patch_gotos.simps) (auto simp: Let_def not_le)
  qed (use patch stay in \<open>subst patch_gotos.simps, auto simp: Let_def\<close>)+
qed

lemma last_goto_bound:
  "cs = [] \<and> last_goto P (-1) cs = -1
   \<or> 0 \<le> last_goto P (-1) cs \<and> last_goto P (-1) cs < int (P + length (strings_code P (-1) cs))"
  by (cases cs rule: rev_cases) (simp_all add: strings_code_append)

lemma sint_of_int_small: "-1 \<le> i \<Longrightarrow> i < 2 ^ 31 \<Longrightarrow> sint (of_int i :: u32) = i"
  by (simp add: signed_of_int signed_take_bit_int_eq_self)

lemma patch_gotos_code:
  assumes "ok s" "code_bytes s = pre @ strings_code (length pre) (-1) cs @ tree_code False 0 t" "\<not> code_error s"
  shows "on_parsed (edited s (pre @ tree_code False 0 (foldr Alt cs t)))
    (patch_gotos (last_goto (length pre) (-1) cs) s)"
  using assms
proof (induction cs arbitrary: s t rule: rev_induct)
  case Nil
  then show ?case using edited_refl [of s] by (subst patch_gotos.simps) simp
next
  case (snoc c cs)
  let ?l' = "last_goto (length pre) (-1) cs" and ?l = "last_goto (length pre) (-1) (cs @ [c])"
  let ?A = "pre @ strings_code (length pre) (-1) cs
    @ ins REOP_split_next_first (bytes_u32 (of_nat (rlen c + 5))) @ tree_code False 0 c"
  have code: "code_bytes s = ?A @ ins REOP_goto (bytes_u32 (of_int ?l')) @ tree_code False 0 t"
    using snoc.prems(2) by (simp add: strings_code_append)
  have l: "?l = int (length ?A + 1)" by (simp add: strings_code_append)
  have size: "bc_size s \<le> CODE_MAX"
    using snoc.prems(1) by (auto simp: ok_def code_ok_def db_wf_def db_bounded_def)
  have less: "-1 \<le> ?l'" "?l' < ?l"
    using last_goto_bound [of cs "length pre"] by (auto simp: strings_code_append)
  have inside: "nat ?l + 4 \<le> bc_size s" using code l by simp
  have next_pos: "sint (get_u32 (code_bytes s) (nat ?l)) = ?l'"
  proof -
    have "get_u32 (code_bytes s) (nat ?l) = of_int ?l'"
      using u32_operands(1) [of ?A REOP_goto "of_int ?l'" "tree_code False 0 t"] by (simp add: code l nat_add_distrib)
    moreover have "?l' < 2 ^ 31" using less(2) inside size l by simp
    ultimately show ?thesis using sint_of_int_small [OF less(1)] by simp
  qed
  let ?t = "Alt c t"
  have patch: "on_parsed (edited s (?A @ ins REOP_goto (bytes_u32 (of_nat (length (tree_code False 0 t)))) @ tree_code False 0 t))
      (patch_jump (nat ?l) s)"
    by (rule patch_jump_edits [OF snoc.prems(1)]) (use code l in auto)
  have tail: "on_parsed (edited s (pre @ tree_code False 0 (foldr Alt (cs @ [c]) t))) (patch_gotos ?l' s')"
    if e: "edited s (?A @ ins REOP_goto (bytes_u32 (of_nat (length (tree_code False 0 t)))) @ tree_code False 0 t) s'" for s'
  proof (cases "code_error s'")
    case True
    show ?thesis
      by (rule on_parsed_mono [OF patch_gotos_error [OF edited_ok [OF snoc.prems(1) e] True]]) (rule edited_trans [OF e])
  next
    case False
    have "code_bytes s' = pre @ strings_code (length pre) (-1) cs @ tree_code False 0 ?t"
      using edited_bytes [OF e False] by simp
    from snoc.IH [OF edited_ok [OF snoc.prems(1) e] this False] show ?thesis
      by (rule on_parsed_mono) (use edited_trans [OF e] in simp)
  qed
  have "patch_gotos ?l s = (case patch_jump (nat ?l) s of
      Parsed s' \<Rightarrow> patch_gotos ?l' s' | Rejected s \<Rightarrow> Rejected s | Hangs \<Rightarrow> Hangs | Crashed \<Rightarrow> Crashed
      | Out_of_fuel \<Rightarrow> Out_of_fuel)"
    using less inside next_pos l by (subst patch_gotos.simps) (simp add: Let_def not_le not_less cong: parsed.case_cong)
  then show ?case using on_parsed_case [OF patch tail] by simp
qed

lemma op_u32_edits:
  assumes "ok s" "re_emit_op_u32 s op v = (pos, s1)"
  shows "edited s (code_bytes s @ ins op (bytes_u32 v)) s1" "\<not> code_error s1 \<Longrightarrow> pos = bc_size s + 1"
  using emits_edited [OF assms(1) emits_op_u32 [OF ok_wf [OF assms(1)]], of op v]
    op_u32_position [of s op v] ok_wf [OF assms(1)] assms(2) by simp_all

lemma emit_range_after_strings_appends:
  assumes "ok s"
  shows "on_parsed (appends s) (emit_range_after_strings e points s)"
proof -
  obtain pos s1 where s1: "re_emit_op_u32 s REOP_split_next_first 0 = (pos, s1)" by (rule prod.exhaust)
  note e1 = op_u32_edits [OF assms s1]
  have ok1: "ok s1" by (rule edited_ok [OF assms e1(1)])
  have guarded: "on_parsed (appends s) (patch_jump pos s2)" if r: "re_emit_range s1 points = (0, s2)" for s2
  proof -
    obtain c where c: "rwf c" "edited s1 (code_bytes s1 @ tree_code False 0 c) s2"
      using re_emit_range_appends [OF ok1 r] by (auto simp: appends_def)
    have ok2: "ok s2" by (rule edited_ok [OF ok1 c(2)])
    have code: "code_bytes s2 = code_bytes s @ ins REOP_split_next_first (bytes_u32 0) @ tree_code False 0 c
        \<and> pos = bc_size s + 1" if "\<not> code_error s2"
      using edited_bytes [OF c(2) that] edited_bytes [OF e1(1)] e1(2) by simp
    have "appends s s3" if s3: "edited s2 (code_bytes s @ ins REOP_split_next_first
        (bytes_u32 (of_nat (length (tree_code False 0 c)))) @ tree_code False 0 c) s3" for s3
    proof -
      have "edited s (code_bytes s @ tree_code False 0 (Jumpover True c)) s3"
        using edited_trans [OF e1(1) edited_trans [OF c(2) s3]] by simp
      with c(1) show ?thesis unfolding appends_def by (intro exI [of _ "Jumpover True c"]) simp
    qed
    with patch_jump_edits [OF ok2 code] show ?thesis by (rule on_parsed_mono)
  qed
  show ?thesis
    unfolding emit_range_after_strings_def s1 prod.case
    by (intro parsed_rules) (use assms guarded re_emit_range_appends appends_refl in auto)
qed

lemma rwf_foldr_Alt: "\<forall>c \<in> set cs. rwf c \<Longrightarrow> rwf t \<Longrightarrow> rwf (foldr Alt cs t)"
  by (induction cs) simp_all

lemma strings_patched:
  assumes "ok s" "strings_result others (-1) s r" "appends (snd r) s2"
  shows "on_parsed (appends s) (patch_gotos (fst r) s2)"
proof -
  obtain cs t where cs: "\<forall>c \<in> set cs. rwf c" "rwf t"
      "edited s (code_bytes s @ strings_code (bc_size s) (-1) cs @ tree_code False 0 t) (snd r)"
      "\<not> code_error (snd r) \<longrightarrow> fst r = last_goto (bc_size s) (-1) cs"
    using assms(2) by (auto simp: strings_result_def)
  obtain c where c: "rwf c" "edited (snd r) (code_bytes (snd r) @ tree_code False 0 c) s2"
    using assms(3) by (auto simp: appends_def)
  have ok2: "ok s2" by (rule edited_ok [OF edited_ok [OF assms(1) cs(3)] c(2)])
  have patched: "appends s s3" if "edited s2 (code_bytes s @ tree_code False 0 (foldr Alt cs (Seq t c))) s3" for s3
    unfolding appends_def
    using rwf_foldr_Alt [OF cs(1), of "Seq t c"] cs(2) c(1) edited_trans [OF cs(3) edited_trans [OF c(2) that]]
    by (intro exI [of _ "foldr Alt cs (Seq t c)"]) simp
  show ?thesis
  proof (cases "code_error s2")
    case True
    show ?thesis by (rule on_parsed_mono [OF patch_gotos_error [OF ok2 True] patched])
  next
    case False
    have "code_bytes s2 = code_bytes s @ strings_code (bc_size s) (-1) cs @ tree_code False 0 (Seq t c)"
      and "fst r = last_goto (bc_size s) (-1) cs"
      using edited_bytes [OF c(2) False] edited_bytes [OF cs(3)] cs(4) by simp_all
    with patch_gotos_code [OF ok2 _ False] show ?thesis by (metis on_parsed_mono patched)
  qed
qed

lemma re_emit_string_list_appends:
  assumes "ok s"
  shows "on_parsed (appends s) (re_emit_string_list s sl)"
proof -
  have strings: "on_parsed (appends s) (case r of (l, s1) \<Rightarrow>
      pbind (emit_range_after_strings e points s1) (patch_gotos l))" if r: "strings_result others (-1) s r" for r e others points
  proof -
    have ok1: "ok (snd r)" using r assms by (auto simp: strings_result_def intro: edited_ok)
    show ?thesis
      using on_parsed_bind [OF emit_range_after_strings_appends [OF ok1, of e points] strings_patched [OF assms r]]
      by (simp add: case_prod_unfold)
  qed
  show ?thesis
    unfolding re_emit_string_list_def Let_def
    by (intro parsed_rules on_parsed_bind [OF emit_strings_result [OF assms] strings])
      (use assms re_emit_range_appends in auto)
qed

lemma re_parse_char_class_appends:
  assumes "ok s" "rd (ps_buf s) p = CH_lbracket"
  shows "on_parsed (\<lambda>(p', s'). p < p' \<and> appends s s') (re_parse_char_class s p)"
proof -
  have nested: "class_lands s p (re_parse_nested_class (scan_fuel s) s p)"
    by (rule re_parse_nested_class_lands [OF assms(2)]) simp
  show ?thesis
    unfolding re_parse_char_class_def
    by (intro parsed_rules on_parsed_bind [OF nested] on_parsed_bind [OF re_emit_string_list_appends [OF assms(1)]])
      (auto simp: steps_def)
qed

end
