(* ===== verification/RegexpAtoms.thy ===== *)
theory RegexpAtoms
  imports RegexpAppend
begin

text \<open>
  The atoms of a pattern (\<open>re_parse_term\<close> up to its quantifier): each appends the code of a
  tree, leaves \<open>last_atom_start\<close> at its beginning and moves forward in the pattern. The table
  of group names and the scan for groups, on which the length of a back reference by name
  depends, come first.
\<close>

subsection \<open>The table of group names\<close>

text \<open>The indices of the groups called \<open>name\<close>, the first entry being that of group \<open>k\<close>.\<close>

fun name_indices :: "u8 list \<Rightarrow> int \<Rightarrow> (u8 list \<times> u8) list \<Rightarrow> int list" where
  "name_indices name k [] = []"
| "name_indices name k (e # es) = (if fst e = name then [k] else []) @ name_indices name (k + 1) es"

lemma length_name_indices: "length (name_indices name k es) \<le> length es"
  by (induction es arbitrary: k) (auto intro: le_SucI)

definition emit_indices :: "int list \<Rightarrow> re_parse_state \<Rightarrow> re_parse_state" where
  "emit_indices ks s = foldl (\<lambda>s k. emit_u8 (of_int k) s) s ks"

lemma emit_indices_simps [simp]:
  "emit_indices [] s = s" "emit_indices (k # ks) s = emit_indices ks (emit_u8 (of_int k) s)"
  by (simp_all add: emit_indices_def)

lemma emits_indices: "db_wf (ps_byte_code s) \<Longrightarrow> emits s (map of_int ks) (emit_indices ks s)"
proof (induction ks arbitrary: s)
  case (Cons k ks)
  have e: "emits s [of_int k] (emit_u8 (of_int k) s)" by (rule emits_u8 [OF Cons.prems])
  from emits_trans [OF e Cons.IH [OF emits_wf [OF e]]] show ?case by simp
qed (simp add: emits_nil)

lemma names_emit_u8 [simp]: "names_are (emit_u8 v s) es = names_are s es"
  by (simp add: emit_u8_def)

lemma name_at_entry:
  "0 \<notin> set name \<Longrightarrow> name_at (pre @ name @ 0 # rest) (length pre) = name"
  by (auto simp: name_at_def takeWhile_append2 takeWhile_tail)

lemma find_group_loop_indices:
  assumes "names_are s (es0 @ es)"
  shows "find_group_loop name emit (length (concat (map name_entry es0))) k n s =
    (n + int (length (name_indices name k es)), if emit then emit_indices (name_indices name k es) s else s)"
  using assms
proof (induction es arbitrary: es0 k n s)
  case Nil
  then show ?case by (simp add: find_group_loop.simps [of name emit _ k n s] names_are_def)
next
  case (Cons e es)
  let ?p = "length (concat (map name_entry es0))"
  let ?s' = "if fst e = name \<and> emit then emit_u8 (of_int k) s else s"
  have tab: "db_buf (ps_group_names s) = concat (map name_entry es0) @ fst e @ 0 # snd e # concat (map name_entry es)"
    and "0 \<notin> set (fst e)"
    using Cons.prems by (auto simp: names_are_def name_entry_def)
  then have nm: "name_at (db_buf (ps_group_names s)) ?p = fst e" using name_at_entry by simp
  have p': "?p + length (fst e) + LRE_GROUP_NAME_TRAILER_LEN = length (concat (map name_entry (es0 @ [e])))"
    by (simp add: name_entry_def)
  have "names_are ?s' ((es0 @ [e]) @ es)" using Cons.prems by simp
  note IH = Cons.IH [OF this, unfolded p' [symmetric]]
  have "find_group_loop name emit ?p k n s = find_group_loop name emit (?p + length (fst e) + LRE_GROUP_NAME_TRAILER_LEN)
      (k + 1) (if fst e = name then n + 1 else n) ?s'"
    using tab nm by (subst find_group_loop.simps) (simp add: Let_def)
  also have "\<dots> = (n + int (length (name_indices name k (e # es))),
      if emit then emit_indices (name_indices name k (e # es)) s else s)"
    unfolding IH by auto
  finally show ?case .
qed

lemma find_group_name_indices:
  "names_are s es \<Longrightarrow> find_group_name s name emit =
     (int (length (name_indices name 1 es)), if emit then emit_indices (name_indices name 1 es) s else s)"
  using find_group_loop_indices [of s "[]" es name emit 1 0] by (simp add: find_group_name_def)

subsection \<open>The scan for groups\<close>

text \<open>
  A scan that emits indices and one that does not, of the same pattern: both count the same
  groups, and the first appends an index for each name it counts.
\<close>

definition twins :: "int \<Rightarrow> int \<Rightarrow> re_parse_state \<Rightarrow> re_parse_state
    \<Rightarrow> int \<times> int \<times> int \<times> re_parse_state \<Rightarrow> int \<times> int \<times> int \<times> re_parse_state \<Rightarrow> bool" where
  "twins k n s s0 r r0 \<longleftrightarrow> (\<exists>ks k' named. r = (k', n + int (length ks), named, emit_indices ks s)
     \<and> r0 = (k', n + int (length ks), named, s0) \<and> int (length ks) \<le> k' - k \<and> k' \<le> 255)"

lemma twins_stop: "k \<le> 255 \<Longrightarrow> twins k n s s0 (k, n, named, s) (k, n, named, s0)"
  unfolding twins_def by (intro exI [of _ "[]"]) simp

lemma twins_group: "twins (k + 1) n s s0 r r0 \<Longrightarrow> twins k n s s0 r r0"
  unfolding twins_def by fastforce

lemma twins_hit: "twins (k + 1) (n + 1) (emit_u8 (of_int i) s) s0 r r0 \<Longrightarrow> twins k n s s0 r r0"
  unfolding twins_def by (elim exE conjE) (rule_tac x = "i # ks" in exI, simp)

lemma match_capture_name_twins:
  assumes "ps_buf s0 = ps_buf s" "match_capture_name s c True p k n = (n', p', s')"
  shows "match_capture_name s0 c False p k n = (n', p', s0)"
    and "n' = n + 1 \<and> s' = emit_u8 (of_int k) s \<or> n' = n \<and> s' = s"
  using assms by (auto simp: match_capture_name_def split: option.splits if_splits)

lemma captures_loop_twins:
  "k \<le> 254 \<Longrightarrow> ps_buf s0 = ps_buf s \<Longrightarrow> emit \<Longrightarrow>
     twins k n s s0 (captures_loop c emit p k n named s) (captures_loop c False p k n named s0)"
proof (induction c emit p k n named s rule: captures_loop.induct)
  case (1 c emit p k n named s)
  let ?c = "rd (ps_buf s) p"
  note run = captures_loop.simps [of c True p k n named s] captures_loop.simps [of c False p k n named s0]
  show ?case
  proof (cases "p < length (ps_buf s)")
    case False
    then show ?thesis using 1(7-) by (simp add: run twins_stop)
  next
    case p: True
    show ?thesis
    proof (cases "?c = CH_lparen")
      case paren: True
      show ?thesis
      proof (cases "rd (ps_buf s) (p + 1) = CH_question")
        case False
        then have "twins (k + 1) n s s0
            (if k + 1 \<ge> int CAPTURE_COUNT_MAX then (k + 1, n, named, s) else captures_loop c True (p + 1) (k + 1) n named s)
            (if k + 1 \<ge> int CAPTURE_COUNT_MAX then (k + 1, n, named, s0) else captures_loop c False (p + 1) (k + 1) n named s0)"
          using p paren 1(3) 1(7-) by (auto intro: twins_stop)
        then have "twins k n s s0
            (if k + 1 \<ge> int CAPTURE_COUNT_MAX then (k + 1, n, named, s) else captures_loop c True (p + 1) (k + 1) n named s)
            (if k + 1 \<ge> int CAPTURE_COUNT_MAX then (k + 1, n, named, s0) else captures_loop c False (p + 1) (k + 1) n named s0)"
          by (rule twins_group)
        then show ?thesis using p paren False 1(7-) by (simp add: run split del: if_split)
      next
        case q: True
        show ?thesis
        proof (cases "is_named_group (ps_buf s) p")
          case False
          then show ?thesis using p paren q 1(2) 1(7-) by (simp add: run)
        next
          case named: True
          obtain n' p' s' where m: "match_capture_name s c True p k n = (n', p', s')" by (rule prod_cases3)
          note m0 = match_capture_name_twins [OF 1(8) m]
          have "twins (k + 1) n' s' s0
              (if k + 1 \<ge> int CAPTURE_COUNT_MAX then (k + 1, n', 1, s') else captures_loop c True (p' + 1) (k + 1) n' 1 s')
              (if k + 1 \<ge> int CAPTURE_COUNT_MAX then (k + 1, n', 1, s0) else captures_loop c False (p' + 1) (k + 1) n' 1 s0)"
            using 1(1) [OF _ refl paren q named _ refl] 1(7-) p m m0 by (auto intro: twins_stop)
          then have "twins k n s s0
              (if k + 1 \<ge> int CAPTURE_COUNT_MAX then (k + 1, n', 1, s') else captures_loop c True (p' + 1) (k + 1) n' 1 s')
              (if k + 1 \<ge> int CAPTURE_COUNT_MAX then (k + 1, n', 1, s0) else captures_loop c False (p' + 1) (k + 1) n' 1 s0)"
            using m0(2) twins_group twins_hit by metis
          then show ?thesis using p paren q named m m0 1(7-) by (simp add: run split del: if_split)
        qed
      qed
    next
      case other: False
      then show ?thesis
        using p 1(4-) by (cases "?c = CH_backslash"; cases "?c = CH_lbracket") (simp_all add: run)
    qed
  qed
qed

lemma re_parse_captures_silent: "snd (snd (re_parse_captures s c False)) = s"
  using captures_loop_twins [of 1 s s True 0 c 0 0]
  by (auto simp: re_parse_captures_def twins_def split: prod.splits)

lemma re_parse_captures_emits:
  assumes "ps_buf s0 = ps_buf s"
  shows "\<exists>ks. fst (re_parse_captures s (Some name) False) = int (length ks) \<and> length ks \<le> 254
    \<and> snd (snd (re_parse_captures s0 (Some name) True)) = emit_indices ks s0"
  using captures_loop_twins [of 1 s s0 True 0 "Some name" 0 0] assms
  by (auto simp: re_parse_captures_def twins_def split: prod.splits)

lemma re_count_captures_state:
  "\<exists>t h. snd (re_count_captures s) = s\<lparr>ps_total_capture_count := t, ps_has_named_captures := h\<rparr>"
proof (cases "ps_total_capture_count s < 0")
  case True
  then show ?thesis
    using re_parse_captures_silent [of s None] by (auto simp: re_count_captures_def split: prod.splits) blast
next
  case False
  then have "snd (re_count_captures s) = s\<lparr>ps_total_capture_count := ps_total_capture_count s,
      ps_has_named_captures := ps_has_named_captures s\<rparr>" by (simp add: re_count_captures_def)
  then show ?thesis by blast
qed

lemma re_has_named_captures_state:
  "\<exists>t h. snd (re_has_named_captures s) = s\<lparr>ps_total_capture_count := t, ps_has_named_captures := h\<rparr>"
proof (cases "ps_has_named_captures s < 0")
  case True
  then show ?thesis using re_count_captures_state [of s] by (simp add: re_has_named_captures_def Let_def)
next
  case False
  then have "snd (re_has_named_captures s) = s\<lparr>ps_total_capture_count := ps_total_capture_count s,
      ps_has_named_captures := ps_has_named_captures s\<rparr>" by (simp add: re_has_named_captures_def)
  then show ?thesis by blast
qed

subsection \<open>Atoms\<close>

text \<open>
  \<open>atom_ok s p r\<close>: the result of an atom that starts at \<open>p\<close>. The code of the atom begins
  where the code ended before.
\<close>

definition atom_ok :: "re_parse_state \<Rightarrow> nat \<Rightarrow> (nat \<times> int) option \<times> nat \<times> re_parse_state \<Rightarrow> bool" where
  "atom_ok s p r \<longleftrightarrow> (case r of (last_atom, p', s') \<Rightarrow> grows s s' \<and> p < p'
     \<and> (\<forall>start k. last_atom = Some (start, k) \<longrightarrow> start = bc_size s))"

lemma atom_okI:
  "grows s s' \<Longrightarrow> p < p' \<Longrightarrow> last_atom = None \<or> (\<exists>k. last_atom = Some (bc_size s, k)) \<Longrightarrow>
     atom_ok s p (last_atom, p', s')"
  by (auto simp: atom_ok_def)

lemma atom_ok_update [simp]:
  "atom_ok (s\<lparr>ps_total_capture_count := t\<rparr>) = atom_ok s"
  "atom_ok (s\<lparr>ps_has_named_captures := h\<rparr>) = atom_ok s"
  by (simp_all add: atom_ok_def fun_eq_iff)

lemma emit_atom_ok:
  assumes "ok s" "p0 < p"
  shows "on_parsed (atom_ok s p0) (emit_atom b s c cr p)"
proof -
  let ?s1 = "emit_prev b s"
  have a1: "appends s ?s1" by (rule emit_prev_appends [OF assms(1)])
  have ok1: "ok ?s1" by (rule appends_ok [OF assms(1) a1])
  have done': "atom_ok s p0 (Some (bc_size s, k), p, emit_prev b s2)" if "appends ?s1 s2" for s2 k
  proof -
    have "appends s s2" by (rule appends_trans [OF a1 that])
    then have "appends s (emit_prev b s2)"
      using appends_trans emit_prev_appends appends_ok [OF assms(1)] by blast
    with assms show ?thesis by (intro atom_okI appends_grows) auto
  qed
  have "on_parsed (appends ?s1)
        (if c \<ge> CLASS_RANGE_BASE then
           (if c = CLASS_RANGE_BASE + CHAR_RANGE_s then Parsed (re_emit_op ?s1 REOP_space)
            else if c = CLASS_RANGE_BASE + CHAR_RANGE_S then Parsed (re_emit_op ?s1 REOP_not_space)
            else re_emit_string_list ?s1 cr)
         else
           Parsed (re_emit_char ?s1
             (if ps_ignore_case ?s1 then lre_canonicalize c (ps_is_unicode ?s1) else c)))"
    using ok1 by (intro parsed_rules re_emit_string_list_appends)
      (simp_all add: op_appends falls_through_def re_emit_char_appends)
  then show ?thesis
    unfolding emit_atom_def Let_def by (rule on_parsed_bind) (simp add: done')
qed

lemma parse_class_atom_ok:
  assumes "ok s" shows "on_parsed (atom_ok s p) (parse_class_atom b s p)"
  unfolding parse_class_atom_def
  by (intro parsed_rules on_parsed_bind [OF get_class_atom_lands])
    (auto simp: steps_def intro: emit_atom_ok [OF assms])

lemma octal_digits_ge: "octal_digits n buf p c = (c', p') \<Longrightarrow> p \<le> p'"
  by (induction n buf p c rule: octal_digits.induct) (auto split: if_splits dest: Suc_leD)

lemma parse_null_escape_ok:
  "ok s \<Longrightarrow> p0 < p \<Longrightarrow> on_parsed (atom_ok s p0) (parse_null_escape b s p)"
  unfolding parse_null_escape_def
  by (intro parsed_rules emit_atom_ok) (auto dest: octal_digits_ge)

text \<open>A back reference with its indices.\<close>

lemma back_reference_falls_through:
  "falls_through (back_reference_op b i)" "\<not> is_range_op (back_reference_op b i)"
  "back_reference_op b i \<in> {REOP_back_reference, REOP_back_reference_i, REOP_backward_back_reference,
     REOP_backward_back_reference_i}"
  by (simp_all add: back_reference_op_def falls_through_def is_range_op_def)

lemma back_reference_appends:
  assumes "ok s" "length ks \<le> 254" "op = back_reference_op b i"
  shows "appends s (emit_indices ks (re_emit_op_u8 s op (of_int (int (length ks)))))"
proof -
  let ?n = "length ks"
  let ?bs = "ucast (of_int (int ?n) :: u32) # map of_int ks :: u8 list"
  have n: "ucast (of_int (int ?n) :: u32) = (of_nat ?n :: u8)"
    using assms(2) by (simp add: word_unat_eq_iff unsigned_ucast_eq unsigned_of_nat take_bit_nat_eq_self)
  have u: "unat (of_nat ?n :: u8) = ?n" using assms(2) by (simp add: unsigned_of_nat take_bit_nat_eq_self)
  have e: "emits s (ins op [ucast (of_int (int ?n) :: u32)]) (re_emit_op_u8 s op (of_int (int ?n)))"
    by (rule emits_op_u8 [OF ok_wf [OF assms(1)]])
  have "emits s (ins op ?bs) (emit_indices ks (re_emit_op_u8 s op (of_int (int ?n))))"
    using emits_trans [OF e emits_indices [OF emits_wf [OF e], of ks]] by (simp add: ins_def)
  moreover have "instr_ok op ?bs"
    using back_reference_falls_through(3) [of b i] u unfolding assms(3) n
    by (elim insertE emptyE) (simp_all add: instr_ok_def reop_len_def bc8_def ins_def)
  ultimately show ?thesis
    using back_reference_falls_through [of b i] assms(3) by (intro instr_appends [OF assms(1)]) simp_all
qed

lemma if_snd_ge: "(b \<Longrightarrow> p \<le> snd x) \<Longrightarrow> (\<not> b \<Longrightarrow> p \<le> snd y) \<Longrightarrow> (p :: nat) \<le> snd (if b then x else y)"
  by simp

lemma parse_digits_loop_ge: "p \<le> snd (parse_digits_loop buf b p v)"
proof (induction buf b p v rule: parse_digits_loop.induct)
  case (1 buf b p v)
  show ?case
    by (subst parse_digits_loop.simps, unfold Let_def, intro if_snd_ge)
      (use 1 in \<open>auto intro: order.trans [of p "Suc p"]\<close>)
qed

lemma parse_digits_ge: "p \<le> snd (parse_digits buf p b)"
  using parse_digits_loop_ge [of p buf b 0]
  by (cases "parse_digits_loop buf b p 0") (simp add: parse_digits_def)

lemma emit_u8_indices: "emit_u8 (of_int c) s = emit_indices [c] s"
  by simp

lemma parse_decimal_escape_ok:
  assumes "ok s" "p0 < q"
  shows "on_parsed (atom_ok s p0) (parse_decimal_escape b s q)"
proof -
  have body: "on_parsed (atom_ok s1 p0) (if c < 0 \<or> c \<ge> m then
               (if \<not> ps_is_unicode s1 then
                  (let c0 = rd (ps_buf s1) q in
                   if c0 \<le> CH_7 then
                     (case octal_digits (if c0 \<le> CH_3 then 3 else 2) (ps_buf s1) q 0 of
                        (c', p') \<Rightarrow> emit_atom b s1 c' (no_set s1) p')
                   else emit_atom b s1 (ucast c0) (no_set s1) (q + 1))
                else parse_error s1 ''back reference out of range in regular expression'')
             else
               Parsed (Some (bc_size s1, ps_capture_count s1), p,
                 emit_u8 (of_int c)
                   (re_emit_op_u8 s1 (back_reference_op b (ps_ignore_case s1)) 1)))"
    if "ok s1" "q \<le> p" for s1 c p m
  proof -
    have "appends s1 (emit_u8 (of_int c) (re_emit_op_u8 s1 (back_reference_op b (ps_ignore_case s1)) 1))"
      using back_reference_appends [OF that(1), of "[c]" _ b "ps_ignore_case s1"] by simp
    then show ?thesis unfolding Let_def
      using that assms(2)
      by (intro parsed_rules emit_atom_ok) (auto intro!: atom_okI appends_grows dest: octal_digits_ge)
  qed
  obtain c p where d: "parse_digits (ps_buf s) q False = (c, p)" by (rule prod.exhaust)
  have "q \<le> p" using parse_digits_ge [of q "ps_buf s" False] d by simp
  obtain m s1 where ms: "(if c \<ge> 0 \<and> c \<ge> ps_capture_count s then re_count_captures s
      else (ps_capture_count s, s)) = (m, s1)" by (rule prod.exhaust)
  have "s1 = s \<or> s1 = snd (re_count_captures s)" using ms by (auto split: if_splits dest: arg_cong [of _ _ snd])
  then have "ok s1 \<and> atom_ok s1 = atom_ok s" using re_count_captures_state [of s] assms(1) by auto
  with body [OF _ \<open>q \<le> p\<close>, of s1 c m] show ?thesis
    unfolding parse_decimal_escape_def d prod.case Let_def ms by simp
qed

lemma no_named_reference_ok:
  assumes "ok s"
  shows "on_parsed (atom_ok s p) (no_named_reference b s p msg)"
proof -
  have "ok (snd (re_has_named_captures s)) \<and> atom_ok (snd (re_has_named_captures s)) = atom_ok s"
    using re_has_named_captures_state [of s] assms by auto
  then show ?thesis
    using parse_class_atom_ok [of "snd (re_has_named_captures s)" p b]
    by (auto simp: no_named_reference_def split: prod.split)
qed

lemma ok_names: "ok s \<Longrightarrow> \<exists>es. names_are s es \<and> length es \<le> 254"
  by (fastforce simp: ok_def)

lemma re_emit_op_u8_fields [simp]:
  "ps_buf (re_emit_op_u8 s op v) = ps_buf s" "names_are (re_emit_op_u8 s op v) es = names_are s es"
  "ps_ptr (re_emit_op_u8 s op v) = ps_ptr s" "ps_capture_count (re_emit_op_u8 s op v) = ps_capture_count s"
  by (simp_all add: re_emit_op_u8_def emit_u8_def)

lemma parse_named_reference_ok:
  assumes "ok s"
  shows "on_parsed (atom_ok s p) (parse_named_reference b s p)"
proof -
  let ?op = "back_reference_op b (ps_ignore_case s)"
  obtain es where es: "names_are s es" "length es \<le> 254" using ok_names [OF assms] by blast
  have found: "atom_ok s p (Some (bc_size s, k), p1,
      snd (find_group_name (re_emit_op_u8 s ?op (of_int (fst (find_group_name s name False)))) name True))"
    if "p < p1" for p1 name k
  proof -
    have "length (name_indices name 1 es) \<le> 254" using length_name_indices es(2) by (rule order.trans)
    from back_reference_appends [OF assms this refl]
    have "appends s (snd (find_group_name (re_emit_op_u8 s ?op (of_int (fst (find_group_name s name False)))) name True))"
      using es(1) by (simp add: find_group_name_indices [OF es(1)] find_group_name_indices [where es = es])
    with that assms show ?thesis by (intro atom_okI appends_grows) auto
  qed
  have forward: "atom_ok s p (Some (bc_size s, k), p1,
      snd (snd (re_parse_captures (re_emit_op_u8 s ?op (of_int (fst (re_parse_captures s (Some name) False)))) (Some name) True)))"
    if "p < p1" for p1 name k
  proof -
    let ?n = "fst (re_parse_captures s (Some name) False)"
    obtain ks where ks: "?n = int (length ks)" "length ks \<le> 254"
      "snd (snd (re_parse_captures (re_emit_op_u8 s ?op (of_int ?n)) (Some name) True))
         = emit_indices ks (re_emit_op_u8 s ?op (of_int ?n))"
      using re_parse_captures_emits [of "re_emit_op_u8 s ?op (of_int ?n)" s name] by auto
    have "appends s (snd (snd (re_parse_captures (re_emit_op_u8 s ?op (of_int ?n)) (Some name) True)))"
      unfolding ks(3) unfolding ks(1) by (rule back_reference_appends [OF assms ks(2) refl])
    with that assms show ?thesis by (intro atom_okI appends_grows) auto
  qed
  have forward': "atom_ok s p (Some (bc_size s, k), p1, s')"
    if "p < p1" "re_parse_captures s (Some name) False = (n, r)"
      "re_parse_captures (re_emit_op_u8 s ?op (of_int n)) (Some name) True = (m, v, s')" for p1 k name n m v r s'
    using forward [OF that(1), of k name] that(2,3) by simp
  show ?thesis
    unfolding parse_named_reference_def Let_def
    by (intro parsed_rules no_named_reference_ok [OF assms])
      (auto dest!: re_parse_group_name_steps simp: steps_def intro: found forward')
qed

lemma parse_escape_term_ok:
  assumes "ok s"
  shows "on_parsed (atom_ok s p) (parse_escape_term b s p)"
  unfolding parse_escape_term_def Let_def
  by (intro parsed_rules parse_named_reference_ok parse_null_escape_ok parse_decimal_escape_ok parse_class_atom_ok)
    (use assms in \<open>auto intro!: atom_okI appends_grows op_appends simp: falls_through_def\<close>)

subsection \<open>Names of groups\<close>

lemma ucast_or_nonzero: "bit k 7 \<Longrightarrow> ucast (x OR k :: u32) \<noteq> (0 :: u8)"
  by (auto dest!: arg_cong [where f = "\<lambda>w. bit w 7"] simp: bit_simps)

lemma utf8_encode_nonzero: "128 \<le> c \<Longrightarrow> 0 \<notin> set (utf8_encode c)"
  using ucast_or_nonzero [of "0xC0"] ucast_or_nonzero [of "0xE0"] ucast_or_nonzero [of "0xF0"]
    ucast_or_nonzero [of "0x80"]
  by (auto simp: utf8_encode_def bit_simps not_less)

lemma group_name_step_nonzero:
  assumes "group_name_step buf n p q = Some (q', p')" "0 \<notin> set q"
  shows "0 \<notin> set q'"
proof -
  obtain c p2 where g: "group_name_char buf p = Some (c, p2)"
    using assms by (cases "group_name_char buf p") (auto simp: group_name_step.simps)
  note eq = assms(1) [unfolded group_name_step.simps g option.case prod.case]
  have "if q = [] then lre_js_is_ident_first c else lre_js_is_ident_next c"
    using eq by (cases "q = []") (simp_all split: if_splits)
  then have "c \<noteq> 0" using ident_zero by (auto split: if_splits)
  then have "ucast c \<noteq> (0 :: u8)" if "c < 128"
    using that by (simp add: word_unat_eq_iff unsigned_ucast_eq word_less_nat_alt take_bit_nat_eq_self)
  then have "0 \<notin> set (if c < 128 then [ucast c] else utf8_encode c :: u8 list)"
    using utf8_encode_nonzero [of c] by (auto simp: not_less)
  moreover have "q' = q @ (if c < 128 then [ucast c] else utf8_encode c)"
    using eq by (simp split: if_splits)
  ultimately show ?thesis using assms(2) by simp
qed

lemma group_name_loop_nonzero:
  "group_name_loop buf n p q = Some (q', p') \<Longrightarrow> 0 \<notin> set q \<Longrightarrow> 0 \<notin> set q'"
proof (induction buf n p q rule: group_name_loop.induct)
  case (1 buf n p q)
  show ?case
  proof (cases "rd buf p = CH_gt")
    case True
    then show ?thesis using 1(2,3) by (simp add: group_name_loop.simps [of buf n p])
  next
    case False
    then obtain q1 p1 where s: "group_name_step buf n p q = Some (q1, p1)"
      "group_name_loop buf n p1 q1 = Some (q', p')"
      using 1(2) by (auto simp: group_name_loop.simps [of buf n p] split: option.splits)
    from 1(1) [OF False s(1) refl s(2)] group_name_step_nonzero [OF s(1) 1(3)] show ?thesis .
  qed
qed

lemma re_parse_group_name_nonzero: "re_parse_group_name n buf p = Some (name, p') \<Longrightarrow> 0 \<notin> set name"
  using group_name_loop_nonzero [of buf n p "[]"]
  by (auto simp: re_parse_group_name_def split: option.splits if_splits)

lemma put_unlimited:
  fixes bs :: "u8 list"
  assumes "db_wf d" "\<not> db_error d" "\<forall>n. db_realloc d n"
  defines "d' \<equiv> snd (dbuf_put d bs)"
  shows "db_buf d' = db_buf d @ bs \<and> db_wf d' \<and> \<not> db_error d' \<and> (\<forall>n. db_realloc d' n)"
proof (rule dbuf_put_cases [of d bs])
  assume "dbuf_put d bs = (-1, d\<lparr>db_error := True\<rparr>)"
  moreover have "fst (dbuf_put d bs) = 0"
    using assms(1-3) by (simp add: dbuf_put_def dbuf_claim_def Let_def)
  ultimately show ?thesis by simp
qed (use assms in \<open>auto simp: db_wf_def\<close>)

lemma names_put:
  assumes "names_are s es" "0 \<notin> set name"
  shows "names_are (putc_group_names v (put_group_names (name @ [0]) s)) (es @ [(name, v)])"
proof -
  let ?d1 = "snd (dbuf_put (ps_group_names s) (name @ [0]))"
  have d1: "db_buf ?d1 = db_buf (ps_group_names s) @ name @ [0] \<and> db_wf ?d1 \<and> \<not> db_error ?d1
      \<and> (\<forall>n. db_realloc ?d1 n)"
    by (rule put_unlimited) (use assms(1) in \<open>simp_all add: names_are_def\<close>)
  have "db_buf (snd (dbuf_put ?d1 [v])) = db_buf ?d1 @ [v] \<and> db_wf (snd (dbuf_put ?d1 [v]))
      \<and> \<not> db_error (snd (dbuf_put ?d1 [v])) \<and> (\<forall>n. db_realloc (snd (dbuf_put ?d1 [v])) n)"
    by (rule put_unlimited) (use d1 in simp_all)
  then show ?thesis
    using assms d1
    by (auto simp: putc_group_names_def put_group_names_def names_are_def dbuf_putc_eq name_entry_def)
qed

lemma putc_zero: "db_wf (ps_group_names s) \<Longrightarrow> putc_group_names 0 s = put_group_names ([] @ [0]) s"
  by (simp add: putc_group_names_def put_group_names_def dbuf_putc_eq)

lemma group_names_fields [simp]:
  "ps_byte_code (putc_group_names v s) = ps_byte_code s" "ps_byte_code (put_group_names bs s) = ps_byte_code s"
  "ps_buf (putc_group_names v s) = ps_buf s" "ps_buf (put_group_names bs s) = ps_buf s"
  "ps_capture_count (putc_group_names v s) = ps_capture_count s"
  "ps_capture_count (put_group_names bs s) = ps_capture_count s"
  by (simp_all add: putc_group_names_def put_group_names_def)

lemma ok_new_group:
  assumes "ok s" "0 \<notin> set name" "ps_capture_count s < 255"
  shows "ok ((putc_group_names v (put_group_names (name @ [0]) s))\<lparr>ps_capture_count := ps_capture_count s + 1\<rparr>)"
proof -
  obtain es where "names_are s es" "int (length es) = ps_capture_count s - 1" using assms(1) by (auto simp: ok_def)
  then show ?thesis
    using assms names_put [of s es name v] unfolding ok_def
    by (intro conjI exI [of _ "es @ [(name, v)]"]) simp_all
qed

lemma ok_new_unnamed:
  assumes "ok s" "ps_capture_count s < 255"
  shows "ok ((putc_group_names 0 (putc_group_names 0 s))\<lparr>ps_capture_count := ps_capture_count s + 1\<rparr>)"
proof -
  have "db_wf (ps_group_names s)" using assms(1) by (auto simp: ok_def names_are_def)
  from putc_zero [OF this] ok_new_group [OF assms(1) _ assms(2), of "[]" 0] show ?thesis by simp
qed

subsection \<open>Groups\<close>

text \<open>
  \<open>parses n pd\<close>: what is assumed of the parser \<open>pd\<close> of the disjunction in a group, for
  patterns with less than \<open>n\<close> characters left.
\<close>

definition parses :: "nat \<Rightarrow> parser \<Rightarrow> bool" where
  "parses n pd \<longleftrightarrow> (\<forall>b s. ok s \<longrightarrow> length (ps_buf s) - ps_ptr s < n \<longrightarrow>
     on_parsed (\<lambda>s'. grows s s' \<and> ps_ptr s \<le> ps_ptr s') (pd b s))"

lemma parses_at:
  assumes "parses n pd" "ok s" "length (ps_buf s) - p < n"
  shows "on_parsed (\<lambda>s'. grows s s' \<and> p \<le> ps_ptr s') (pd b (s\<lparr>ps_ptr := p\<rparr>))"
proof -
  let ?s = "s\<lparr>ps_ptr := p\<rparr>"
  have "on_parsed (\<lambda>s'. grows ?s s' \<and> ps_ptr ?s \<le> ps_ptr s') (pd b ?s)"
    by (rule assms(1) [unfolded parses_def, rule_format]) (simp_all add: assms)
  then show ?thesis by simp
qed

lemma expect_next: "on_parsed (\<lambda>p'. p' = p + 1) (re_parse_expect s p c)"
  by (simp add: re_parse_expect_def)

lemma parse_inner_ok:
  assumes "parses n pd" "ok s" "length (ps_buf s) - p < n"
  shows "on_parsed (\<lambda>(p', s'). grows s s' \<and> p < p') (parse_inner pd b s p)"
  unfolding parse_inner_def
  by (intro on_parsed_bind [OF parses_at [OF assms]] on_parsed_bind [OF expect_next]) auto

lemma modifiers_loop_ge: "on_parsed (\<lambda>(m, p'). p \<le> p') (modifiers_loop s p m)"
proof (induction s p m rule: modifiers_loop.induct)
  case (1 s p m)
  show ?case
    by (subst modifiers_loop.simps, intro parsed_rules)
      (use 1 in \<open>auto elim!: on_parsed_mono\<close>)
qed

lemma parse_modifier_group_ok:
  assumes "parses n pd" "ok s" "length (ps_buf s) - p \<le> n" "p < length (ps_buf s)"
  shows "on_parsed (atom_ok s p) (parse_modifier_group pd b s p)"
proof -
  have modifiers: "on_parsed (\<lambda>(m, p'). q \<le> p') (re_parse_modifiers s q)" for q
    unfolding re_parse_modifiers_def by (rule modifiers_loop_ge)
  have removed: "on_parsed (\<lambda>(m, p'). q \<le> p')
      (if rd (ps_buf s) q = CH_minus then re_parse_modifiers s (q + 1) else Parsed (0, q))" for q
    by (intro parsed_rules on_parsed_mono [OF modifiers]) auto
  have inner: "on_parsed (\<lambda>(p', s'). grows s s' \<and> q < p')
      (parse_inner pd b (s\<lparr>ps_ignore_case := i, ps_multi_line := m, ps_dotall := d\<rparr>) q)" if "p < q" for q i m d
    using parse_inner_ok [OF assms(1), of "s\<lparr>ps_ignore_case := i, ps_multi_line := m, ps_dotall := d\<rparr>" q b]
      assms(2-) that by simp
  show ?thesis
    unfolding parse_modifier_group_def Let_def
    by (intro parsed_rules on_parsed_bind [OF modifiers] on_parsed_bind [OF removed]
        on_parsed_bind [OF expect_next] on_parsed_bind [OF inner]) (auto intro!: atom_okI)
qed

lemma parse_lookahead_ok:
  assumes "parses n pd" "ok s" "length (ps_buf s) - p < n" "p0 < p"
  shows "on_parsed (atom_ok s p0) (parse_lookahead pd s neg b p)"
proof -
  let ?op = "if neg then REOP_negative_lookahead else REOP_lookahead"
  let ?match = "if neg then REOP_negative_lookahead_match else REOP_lookahead_match"
  obtain pos s1 where s1: "re_emit_op_u32 s ?op 0 = (pos, s1)" by (rule prod.exhaust)
  note e1 = op_u32_edits [OF assms(2) s1]
  have ok1: "ok s1" by (rule edited_ok [OF assms(2) e1(1)])
  have inner: "on_parsed (\<lambda>(p', s2). grows s1 s2 \<and> p < p') (parse_inner pd b s1 p)"
    by (rule parse_inner_ok [OF assms(1) ok1]) (use e1(1) assms(3) edited_fields [OF e1(1)] in simp)
  have rest: "on_parsed (atom_ok s p0) (if code_error (re_emit_op s2 ?match) then Rejected (re_emit_op s2 ?match)
          else pbind (patch_jump pos (re_emit_op s2 ?match)) (\<lambda>s4. Parsed (start, p', s4)))"
    if g: "grows s1 s2" and p': "p < p'" and start: "start = None \<or> (\<exists>k. start = Some (bc_size s, k))" for s2 p' start
  proof (cases "code_error (re_emit_op s2 ?match)")
    case False
    let ?s3 = "re_emit_op s2 ?match"
    have e3: "edited s2 (code_bytes s2 @ ins ?match []) ?s3"
      using emits_edited [OF grows_ok [OF g] emits_op [OF ok_wf [OF grows_ok [OF g]]]] .
    have ok3: "ok ?s3" by (rule edited_ok [OF grows_ok [OF g] e3])
    note b3 = edited_bytes [OF e3 False]
    then have e2: "\<not> code_error s2" "\<not> code_error s1" using g by (auto simp: grows_def)
    obtain c where c: "rwf c" "code_bytes s2 = code_bytes s1 @ tree_code False 0 c"
      using g e2(1) by (auto simp: grows_def)
    note b1 = edited_bytes [OF e1(1) e2(2)]
    let ?post = "tree_code False 0 c @ ins ?match []"
    have "on_parsed (edited ?s3 (code_bytes s @ ins ?op (bytes_u32 (of_nat (length ?post))) @ ?post)) (patch_jump pos ?s3)"
      by (rule patch_jump_edits [OF ok3]) (use b1 b3 c(2) e1(2) [OF e2(2)] in simp)
    moreover have "grows s s4"
      if e4: "edited ?s3 (code_bytes s @ ins ?op (bytes_u32 (of_nat (length ?post))) @ ?post) s4" for s4
    proof -
      have "ps_buf s4 = ps_buf s" "bc_size s \<le> bc_size s4"
        using edited_fields [OF e4] edited_fields [OF e3] edited_fields [OF e1(1)] g by (auto simp: grows_def)
      moreover have "code_bytes s4 = code_bytes s @ tree_code False 0 (Look neg c)" if "\<not> code_error s4"
        using edited_bytes [OF e4 that] by (simp add: first_if_def)
      moreover have "\<not> code_error s" using b1 by simp
      ultimately show ?thesis
        using edited_ok [OF ok3 e4] c(1) unfolding grows_def by (auto intro!: exI [of _ "Look neg c"])
    qed
    ultimately show ?thesis
      using False p' start assms(4) by (auto intro!: on_parsed_bind atom_okI)
  qed simp
  show ?thesis
    unfolding parse_lookahead_def s1 prod.case Let_def
    by (intro on_parsed_bind [OF inner] on_parsed_prod; rule rest) auto
qed

lemma grows_same_code:
  "ps_byte_code s1 = ps_byte_code s \<Longrightarrow> ps_buf s1 = ps_buf s \<Longrightarrow> grows s1 s' = grows s s'"
  by (simp add: grows_def)

lemma parse_capture_ok:
  assumes "parses n pd" "length (ps_buf s) - p < n" "p0 < p"
    and same: "ps_byte_code s = ps_byte_code s0" "ps_buf s = ps_buf s0"
    and new: "ps_capture_count s < 255 \<Longrightarrow> ok (s\<lparr>ps_capture_count := ps_capture_count s + 1\<rparr>)"
  shows "on_parsed (atom_ok s0 p0) (parse_capture pd b s p)"
proof (cases "ps_capture_count s < 255")
  case True
  let ?i = "of_int (ps_capture_count s)"
  let ?s = "s\<lparr>ps_capture_count := ps_capture_count s + 1\<rparr>"
  let ?s1 = "re_emit_op_u8 ?s (save_op b) ?i"
  note ok0 = new [OF True]
  have save: "grows s1 (re_emit_op_u8 s1 (save_op c) ?i)" if "ok s1" for s1 c
    using that by (intro appends_grows op_appends) (simp_all add: save_op_def falls_through_def)
  have g1: "grows s0 ?s1" using save [OF ok0] grows_same_code [of ?s s0 ?s1] same by simp
  have inner: "on_parsed (\<lambda>s'. grows ?s1 s' \<and> p \<le> ps_ptr s') (pd b (?s1\<lparr>ps_ptr := p\<rparr>))"
    by (rule parses_at [OF assms(1) grows_ok [OF g1]]) (use assms(2) in simp)
  have after: "atom_ok s0 p0 (Some (bc_size s, k), ps_ptr s2 + 1, re_emit_op_u8 s2 (save_op (\<not> b)) ?i)"
    if "grows ?s1 s2" "p \<le> ps_ptr s2" for s2 k
  proof (rule atom_okI)
    show "grows s0 (re_emit_op_u8 s2 (save_op (\<not> b)) ?i)"
      using g1 that(1) save [OF grows_ok [OF that(1)]] by (blast intro: grows_trans)
  qed (use that(2) assms(3) same in auto)
  show ?thesis
    using True unfolding parse_capture_def Let_def
    by (intro parsed_rules on_parsed_bind [OF inner] on_parsed_bind [OF expect_next]) (use after in simp_all)
qed (simp add: parse_capture_def)

lemma ok_has_named [simp]:
  "ok (s\<lparr>ps_has_named_captures := h, ps_capture_count := k\<rparr>) = ok (s\<lparr>ps_capture_count := k\<rparr>)"
  by (simp add: ok_def)

lemma parse_named_capture_ok:
  assumes "parses n pd" "ok s" "length (ps_buf s) - p < n" "p0 < p"
  shows "on_parsed (atom_ok s p0) (parse_named_capture pd b s p)"
proof -
  have capture: "on_parsed (atom_ok s p0) (parse_capture pd b
      ((putc_group_names v (put_group_names (name @ [0]) s))\<lparr>ps_has_named_captures := 1\<rparr>) p')"
    if "re_parse_group_name TMP_BUF_SIZE (ps_buf s) p = Some (name, p')" for name p' v
    by (rule parse_capture_ok [OF assms(1)])
      (use assms that ok_new_group [OF assms(2) re_parse_group_name_nonzero [OF that]]
        re_parse_group_name_steps [OF that] in \<open>auto simp: steps_def\<close>)
  show ?thesis
    unfolding parse_named_capture_def by (intro parsed_rules; (rule capture)?) auto
qed

lemma parse_group_ok:
  assumes "parses n pd" "ok s" "length (ps_buf s) - p \<le> n" "p < length (ps_buf s)"
  shows "on_parsed (atom_ok s p) (parse_group pd b s p)"
proof -
  have unnamed: "on_parsed (atom_ok s p) (parse_capture pd b (putc_group_names 0 (putc_group_names 0 s)) (p + 1))"
    by (rule parse_capture_ok [OF assms(1)]) (use assms ok_new_unnamed [OF assms(2)] in auto)
  have inner: "on_parsed (\<lambda>(p', s'). grows s s' \<and> p + 3 < p') (parse_inner pd b s (p + 3))"
    by (rule parse_inner_ok [OF assms(1,2)]) (use assms(3,4) in auto)
  show ?thesis
    unfolding parse_group_def Let_def
    by (intro parsed_rules unnamed on_parsed_bind [OF inner] parse_modifier_group_ok [OF assms(1,2)]
        parse_lookahead_ok [OF assms(1,2)] parse_named_capture_ok [OF assms(1,2)])
      (use assms(3,4) in \<open>auto intro!: atom_okI\<close>)
qed

subsection \<open>Terms\<close>

lemma re_emit_op_fields [simp]: "ps_buf (re_emit_op s op) = ps_buf s" "ps_ptr (re_emit_op s op) = ps_ptr s"
  by (simp_all add: re_emit_op_def emit_u8_def)

lemma emit_prev_buf [simp]: "ps_buf (emit_prev b s) = ps_buf s"
  by (simp add: emit_prev_def)

lemma parse_brace_ok: "ok s \<Longrightarrow> on_parsed (atom_ok s p) (parse_brace b s p)"
  unfolding parse_brace_def Let_def by (intro parsed_rules parse_class_atom_ok) simp_all

lemma parse_class_term_ok:
  assumes "ok s" "rd (ps_buf s) p = CH_lbracket"
  shows "on_parsed (atom_ok s p) (pbind (re_parse_char_class (emit_prev b s) p)
    (\<lambda>(p', s'). Parsed (Some (bc_size s, k), p', emit_prev b s')))"
proof -
  have a1: "appends s (emit_prev b s)" by (rule emit_prev_appends [OF assms(1)])
  have ok1: "ok (emit_prev b s)" by (rule appends_ok [OF assms(1) a1])
  have parsed: "on_parsed (\<lambda>(p', s'). p < p' \<and> appends (emit_prev b s) s') (re_parse_char_class (emit_prev b s) p)"
    by (rule re_parse_char_class_appends [OF ok1]) (simp add: assms(2))
  have "atom_ok s p (Some (bc_size s, k), p', emit_prev b s')" if "p < p'" "appends (emit_prev b s) s'" for p' s'
  proof (rule atom_okI)
    have "appends s s'" by (rule appends_trans [OF a1 that(2)])
    then show "grows s (emit_prev b s')"
      using appends_trans emit_prev_appends appends_ok [OF assms(1)] appends_grows [OF assms(1)] by blast
  qed (use that in auto)
  then show ?thesis by (intro on_parsed_bind [OF parsed]) auto
qed

lemma parse_atom_ok:
  assumes "parses n pd" "ok s" "length (ps_buf s) - ps_ptr s \<le> n" "ps_ptr s < length (ps_buf s)"
  shows "on_parsed (atom_ok s (ps_ptr s)) (parse_atom pd b s)"
proof -
  have op: "appends s1 (re_emit_op s1 op)" if "ok s1" "op \<in> {REOP_line_start, REOP_line_start_m, REOP_line_end,
      REOP_line_end_m, REOP_any, REOP_dot}" for s1 op
    using that by (intro op_appends) (auto simp: falls_through_def)
  have dot: "appends s (emit_prev b (re_emit_op (emit_prev b s) (if d then REOP_any else REOP_dot)))" for d
  proof -
    let ?s1 = "emit_prev b s" and ?op = "if d then REOP_any else REOP_dot"
    have a1: "appends s ?s1" by (rule emit_prev_appends [OF assms(2)])
    have ok1: "ok ?s1" by (rule appends_ok [OF assms(2) a1])
    have a2: "appends ?s1 (re_emit_op ?s1 ?op)" by (rule op [OF ok1]) simp
    show ?thesis
      by (rule appends_trans [OF a1 appends_trans [OF a2 emit_prev_appends [OF appends_ok [OF ok1 a2]]]])
  qed
  show ?thesis
    unfolding parse_atom_def Let_def
    by (intro parsed_rules parse_brace_ok parse_group_ok [OF assms(1,2)] parse_escape_term_ok
        parse_class_term_ok parse_class_atom_ok)
      (use assms in \<open>auto intro!: atom_okI appends_grows op dot [of True, simplified] dot [of False, simplified]\<close>)
qed

end
