(* ===== verification/RegexpQuantify.thy ===== *)
theory RegexpQuantify
  imports RegexpAtoms
begin

text \<open>
  The quantifiers of \<open>re_parse_term\<close>: the instructions inserted before an atom and appended
  behind it make the code of a loop or of an optional part around the code of the atom.
\<close>

subsection \<open>Quantifiers\<close>

lemma quantifier_bounds_ge: "on_parsed (\<lambda>(bounds, p'). p \<le> p') (quantifier_bounds s p)"
  unfolding quantifier_bounds_def Let_def
  using parse_digits_ge [of "p + 1" "ps_buf s" True]
    parse_digits_ge [of "snd (parse_digits (ps_buf s) (p + 1) True) + 1" "ps_buf s" True]
  by (intro parsed_rules on_parsed_bind [OF expect_next])
    (auto dest!: arg_cong [of _ _ snd] split: if_splits)

text \<open>
  \<open>recoded xs s s'\<close>: the code from the end of \<open>xs\<close> on was replaced by that of a tree.
\<close>

definition recoded :: "u8 list \<Rightarrow> re_parse_state \<Rightarrow> re_parse_state \<Rightarrow> bool" where
  "recoded xs s s' \<longleftrightarrow> (\<exists>d. s' = s\<lparr>ps_byte_code := d\<rparr> \<and> code_ok d \<and> length xs \<le> db_size d
     \<and> (code_error s \<longrightarrow> db_error d)
     \<and> (\<not> db_error d \<longrightarrow> (\<exists>c. rwf c \<and> db_buf d = xs @ tree_code False 0 c)))"

lemma edited_recoded:
  "edited s (xs @ tree_code False 0 c) s' \<Longrightarrow> rwf c \<Longrightarrow> length xs \<le> bc_size s \<Longrightarrow> recoded xs s s'"
  by (auto simp: edited_def recoded_def)

lemma recoded_trans: "edited s ys s1 \<Longrightarrow> recoded xs s1 s2 \<Longrightarrow> recoded xs s s2"
  unfolding edited_def recoded_def by (elim exE conjE) (rule_tac x = da in exI, auto)

lemma recoded_shorter:
  assumes "recoded (xs @ tree_code False 0 c) s s'" "rwf c"
  shows "recoded xs s s'"
proof -
  obtain d where d: "s' = s\<lparr>ps_byte_code := d\<rparr>" "code_ok d" "length (xs @ tree_code False 0 c) \<le> db_size d"
    "code_error s \<longrightarrow> db_error d"
    and tree: "\<not> db_error d \<longrightarrow> (\<exists>c'. rwf c' \<and> db_buf d = (xs @ tree_code False 0 c) @ tree_code False 0 c')"
    using assms(1) unfolding recoded_def by blast
  have "\<exists>c'. rwf c' \<and> db_buf d = xs @ tree_code False 0 c'" if "\<not> db_error d"
    using tree that assms(2) by (metis append_assoc rwf.simps(3) tree_code.simps(3))
  then show ?thesis using d unfolding recoded_def by (intro exI [of _ d]) simp
qed

lemma recoded_grows:
  assumes "grows s0 s" "recoded (code_bytes s0) s s'"
  shows "grows s0 s'"
  using assms unfolding grows_def recoded_def ok_def by auto

lemma edited_compose:
  "edited s xs s1 \<Longrightarrow> edited s1 (code_bytes s1 @ ys (bc_size s1)) s2 \<Longrightarrow> edited s (xs @ ys (length xs)) s2"
  unfolding edited_def by auto

lemma edited_eq: "edited s xs s' \<Longrightarrow> (\<not> code_error s \<Longrightarrow> xs = ys) \<Longrightarrow> edited s ys s'"
  by (auto simp: edited_def)

text \<open>The instructions with a jump to a position already emitted.\<close>

lemma emit_u8_edits: "ok s \<Longrightarrow> edited s (code_bytes s @ [v]) (emit_u8 v s)"
  by (rule emits_edited [OF _ emits_u8 [OF ok_wf]])

lemma emit_u32_edits: "ok s \<Longrightarrow> edited s (code_bytes s @ bytes_u32 v) (emit_u32 v s)"
  by (rule emits_edited [OF _ emits_u32 [OF ok_wf]])

lemma goto_edits:
  assumes "ok s"
  shows "edited s (code_bytes s @ ins op (bytes_u32 (val - of_nat (bc_size s + 5)))) (snd (re_emit_goto s op val))"
proof -
  let ?s1 = "emit_u8 (reop_code op) s"
  have e1: "edited s (code_bytes s @ [reop_code op]) ?s1" by (rule emit_u8_edits [OF assms])
  have "edited ?s1 (code_bytes ?s1 @ bytes_u32 (val - (of_nat (bc_size ?s1) + 4))) (snd (re_emit_goto s op val))"
    using emit_u32_edits [OF edited_ok [OF assms e1]] by (simp add: re_emit_goto_def Let_def)
  from edited_compose [where ys = "\<lambda>n. bytes_u32 (val - (of_nat n + 4))", OF e1 this]
  show ?thesis by (simp add: ins_def add.commute)
qed

lemma goto_u8_edits:
  assumes "ok s"
  shows "edited s (code_bytes s @ ins op (ucast arg # bytes_u32 (val - of_nat (bc_size s + 6))))
    (snd (re_emit_goto_u8 s op arg val))"
proof -
  let ?s1 = "emit_u8 (reop_code op) s" and ?s2 = "emit_u8 (ucast arg) (emit_u8 (reop_code op) s)"
  have e1: "edited s (code_bytes s @ [reop_code op]) ?s1" by (rule emit_u8_edits [OF assms])
  have e2: "edited s ((code_bytes s @ [reop_code op]) @ [ucast arg]) ?s2"
    using edited_compose [where ys = "\<lambda>n. [ucast arg]", OF e1] emit_u8_edits [OF edited_ok [OF assms e1]] by blast
  have "edited ?s2 (code_bytes ?s2 @ bytes_u32 (val - (of_nat (bc_size ?s2) + 4))) (snd (re_emit_goto_u8 s op arg val))"
    using emit_u32_edits [OF edited_ok [OF assms e2]] by (simp add: re_emit_goto_u8_def Let_def)
  from edited_compose [where ys = "\<lambda>n. bytes_u32 (val - (of_nat n + 4))", OF e2 this]
  show ?thesis by (simp add: ins_def add.commute)
qed

lemma goto_u8_u32_edits:
  assumes "ok s"
  shows "edited s (code_bytes s @ ins op (ucast arg0 # bytes_u32 arg1 @ bytes_u32 (val - of_nat (bc_size s + 10))))
    (snd (re_emit_goto_u8_u32 s op arg0 arg1 val))"
proof -
  let ?s1 = "emit_u8 (reop_code op) s" and ?s2 = "emit_u8 (ucast arg0) (emit_u8 (reop_code op) s)"
  let ?s3 = "emit_u32 arg1 ?s2"
  have e1: "edited s (code_bytes s @ [reop_code op]) ?s1" by (rule emit_u8_edits [OF assms])
  have e2: "edited s ((code_bytes s @ [reop_code op]) @ [ucast arg0]) ?s2"
    using edited_compose [where ys = "\<lambda>n. [ucast arg0]", OF e1] emit_u8_edits [OF edited_ok [OF assms e1]] by blast
  have e3: "edited s (((code_bytes s @ [reop_code op]) @ [ucast arg0]) @ bytes_u32 arg1) ?s3"
    using edited_compose [where ys = "\<lambda>n. bytes_u32 arg1", OF e2] emit_u32_edits [OF edited_ok [OF assms e2]] by blast
  have "edited ?s3 (code_bytes ?s3 @ bytes_u32 (val - (of_nat (bc_size ?s3) + 4)))
      (snd (re_emit_goto_u8_u32 s op arg0 arg1 val))"
    using emit_u32_edits [OF edited_ok [OF assms e3]] by (simp add: re_emit_goto_u8_u32_def Let_def)
  from edited_compose [where ys = "\<lambda>n. bytes_u32 (val - (of_nat n + 4))", OF e3 this]
  show ?thesis by (simp add: ins_def add.commute)
qed

text \<open>\<open>at_atom xs c s\<close>: the code ends with that of \<open>c\<close>, which follows \<open>xs\<close>.\<close>

definition at_atom :: "u8 list \<Rightarrow> rcode \<Rightarrow> re_parse_state \<Rightarrow> bool" where
  "at_atom xs c s \<longleftrightarrow> ok s \<and> rwf c \<and> length xs \<le> bc_size s
     \<and> (\<not> code_error s \<longrightarrow> code_bytes s = xs @ tree_code False 0 c)"

lemma insert_before_atom:
  assumes "at_atom xs c s"
  shows "on_parsed (\<lambda>s1. edited s (xs @ bytes @ tree_code False 0 c) s1 \<and> ok s1
    \<and> bc_size s1 = bc_size s + length bytes) (insert_code s (length xs) bytes)"
proof -
  have s: "ok s" "length xs \<le> bc_size s" "\<not> code_error s \<Longrightarrow> code_bytes s = xs @ tree_code False 0 c"
    using assms by (simp_all add: at_atom_def)
  show ?thesis
    by (rule on_parsed_mono [OF insert_code_edits [OF s(1,2)]])
      (auto intro: edited_eq edited_ok [OF s(1)] simp: s(3))
qed

definition guarded :: "bool \<Rightarrow> rcode \<Rightarrow> rcode" where
  "guarded zadv c = (if zadv then Guard c else c)"

lemma guarded_code:
  "tree_code False 0 (guarded zadv c) = char_pos_code zadv @ tree_code False 0 c
     @ (if zadv then ins REOP_check_advance [0] else [])"
  "rlen (guarded zadv c) = rlen c + (if zadv then 4 else 0)" "rwf (guarded zadv c) = rwf c"
  using tree_code_unnumbered [of 1 c 0]
  by (simp_all add: guarded_def char_pos_code_def ins_def tree_code_unnumbered [of "Suc 0" c 0])

lemma emit_optional_once:
  assumes "at_atom xs c s" "len = bc_size s - length xs" "quant_max = 1 \<or> quant_max = INT32_MAX"
  shows "on_parsed (recoded xs s) (emit_optional s (length xs) len quant_max greedy zadv)"
proof -
  let ?goto = "quant_max = INT32_MAX" and ?zlen = "if zadv then 2 else 0 :: nat"
  let ?b = "guarded zadv c" and ?v = "of_nat (len + (if ?goto then 5 else 0) + ?zlen * 2) :: u32"
  let ?code = "[reop_code (split_op greedy)] @ bytes_u32 ?v @ char_pos_code zadv"
  have s: "ok s" "rwf c" "length xs \<le> bc_size s" "\<not> code_error s \<Longrightarrow> len = rlen c"
    using assms(1,2) by (auto simp: at_atom_def)
  have after: "recoded xs s (if ?goto then snd (re_emit_goto s2 REOP_goto (of_nat (length xs))) else s2)"
    if s1: "edited s (xs @ ?code @ tree_code False 0 c) s1" "ok s1"
      and s2: "s2 = (if zadv then re_emit_op_u8 s1 REOP_check_advance 0 else s1)" for s1 s2
  proof -
    have e2: "edited s1 (code_bytes s1 @ (if zadv then ins REOP_check_advance [0] else [])) s2"
      using emits_edited [OF s1(2) emits_op_u8 [OF ok_wf [OF s1(2)], of REOP_check_advance 0]]
        edited_refl [OF s1(2)] by (simp add: s2)
    have ok2: "ok s2" by (rule edited_ok [OF s1(2) e2])
    have f2: "edited s ((xs @ ?code @ tree_code False 0 c) @ (if zadv then ins REOP_check_advance [0] else [])) s2"
      using edited_compose [where ys = "\<lambda>n. if zadv then ins REOP_check_advance [0] else []", OF s1(1) e2] .
    show ?thesis
    proof (cases ?goto)
      case False
      have e: "edited s (xs @ tree_code False 0 (Jumpover greedy ?b)) s2"
        by (rule edited_eq [OF f2])
          (use False s(4) in \<open>simp add: guarded_code split_op_def first_if_def ins_def\<close>)
      show ?thesis using False s edited_recoded [OF e] by (simp add: guarded_code)
    next
      case True
      let ?ys = "\<lambda>n. ins REOP_goto (bytes_u32 (of_nat (length xs) - of_nat (n + 5)))"
      have "edited s (((xs @ ?code @ tree_code False 0 c) @ (if zadv then ins REOP_check_advance [0] else []))
          @ ?ys (length ((xs @ ?code @ tree_code False 0 c) @ (if zadv then ins REOP_check_advance [0] else []))))
          (snd (re_emit_goto s2 REOP_goto (of_nat (length xs))))"
        using edited_compose [where ys = ?ys, OF f2 goto_edits [OF ok2]] .
      then have e: "edited s (xs @ tree_code False 0 (Star greedy ?b)) (snd (re_emit_goto s2 REOP_goto (of_nat (length xs))))"
        by (rule edited_eq)
          (use True s(4) in \<open>simp add: guarded_code split_op_def first_if_def ins_def char_pos_code_def\<close>)
      show ?thesis using True s edited_recoded [OF e] by (simp add: guarded_code)
    qed
  qed
  have "quant_max \<noteq> 0" using assms(3) by auto
  then have unfolded: "emit_optional s (length xs) len quant_max greedy zadv =
      pbind (insert_code s (length xs) ?code) (\<lambda>s1.
        Parsed (if ?goto then snd (re_emit_goto (if zadv then re_emit_op_u8 s1 REOP_check_advance 0 else s1)
            REOP_goto (of_nat (length xs)))
          else if zadv then re_emit_op_u8 s1 REOP_check_advance 0 else s1))"
    using assms(3) by (simp only: emit_optional_def Let_def if_False if_True)
  show ?thesis
    unfolding unfolded
    by (rule on_parsed_bind [OF insert_before_atom [OF assms(1)]], unfold on_parsed_simps(1),
      rule after [OF _ _ refl]) simp_all
qed


lemma counted_code:
  "tree_code False 0 (Loop_split g v w c) = ins REOP_set_i32 (0 # bytes_u32 v) @ tree_code False 0 c
     @ ins (loop_split_op False g) (0 # bytes_u32 w @ bytes_u32 (- of_nat (rlen c + 10)))"
  "tree_code False 0 (Loop_adv g v w c) = ins REOP_set_i32 (0 # bytes_u32 v) @ ins REOP_set_char_pos [0]
     @ tree_code False 0 c
     @ ins (loop_split_op True g) (0 # bytes_u32 w @ bytes_u32 (- of_nat (rlen c + 12)))"
  "tree_code False 0 (Loop v c) = ins REOP_set_i32 (0 # bytes_u32 v) @ tree_code False 0 c
     @ ins REOP_loop (0 # bytes_u32 (- of_nat (rlen c + 6)))"
  by (simp_all add: loop_split_op_def first_if_def tree_code_unnumbered [of "Suc 0" c 0]
      tree_code_unnumbered [of "Suc (Suc 0)" c 0] tree_code_unnumbered [of "2" c 0] ins_def)

text \<open>The loop with a counter that the code of an atom is put in.\<close>

definition counted :: "bool \<Rightarrow> bool \<Rightarrow> u32 \<Rightarrow> u32 \<Rightarrow> rcode \<Rightarrow> rcode" where
  "counted zadv g v w c = (if zadv then Loop_adv g v w c else Loop_split g v w c)"

lemma set_i32_ins: "set_i32_code v = ins REOP_set_i32 (0 # bytes_u32 (of_int v))"
  by (simp add: set_i32_code_def ins_def)

lemma char_pos_ins: "char_pos_code zadv = (if zadv then ins REOP_set_char_pos [0] else [])"
  by (simp add: char_pos_code_def ins_def)

text \<open>
  \<open>pre\<close> is what was inserted before the counter; the loop jumps back behind the counter.
\<close>

lemma counted_edits:
  assumes "edited s (xs @ pre @ set_i32_code v @ char_pos_code zadv @ tree_code False 0 c) s1" "ok s1"
  shows "edited s (xs @ pre @ tree_code False 0 (counted zadv greedy (of_int v) w c))
    (snd (re_emit_goto_u8_u32 s1 (loop_split_op zadv greedy) 0 w (of_nat (length xs + length pre + 6))))"
proof -
  let ?ys = "\<lambda>n. ins (loop_split_op zadv greedy) (ucast (0 :: u32) # bytes_u32 w
      @ bytes_u32 (of_nat (length xs + length pre + 6) - of_nat (n + 10)))"
  from edited_compose [where ys = ?ys, OF assms(1) goto_u8_u32_edits [OF assms(2)]]
  show ?thesis
    by (rule edited_eq; cases zadv)
      (simp_all add: counted_def counted_code set_i32_ins char_pos_ins algebra_simps del: tree_code.simps)
qed

lemma loop_edits:
  assumes "edited s (xs @ set_i32_code v @ tree_code False 0 c) s1" "ok s1"
  shows "edited s (xs @ tree_code False 0 (Loop (of_int v) c))
    (snd (re_emit_goto_u8 s1 REOP_loop 0 (of_nat (length xs + 6))))"
proof -
  let ?ys = "\<lambda>n. ins REOP_loop (ucast (0 :: u32) # bytes_u32 (of_nat (length xs + 6) - of_nat (n + 6)))"
  from edited_compose [where ys = ?ys, OF assms(1) goto_u8_edits [OF assms(2)]]
  show ?thesis by (rule edited_eq) (simp add: counted_code set_i32_ins algebra_simps del: tree_code.simps)
qed

lemma counted_simps [simp]:
  "rwf (counted zadv g v w c) = rwf c" "rlen (counted zadv g v w c) = rlen c + (if zadv then 18 else 16)"
  by (simp_all add: counted_def)

lemma emit_optional_recoded:
  assumes "at_atom xs c s" "len = bc_size s - length xs"
  shows "on_parsed (recoded xs s) (emit_optional s (length xs) len quant_max greedy zadv)"
proof -
  have s: "ok s" "rwf c" "length xs \<le> bc_size s" "\<not> code_error s \<Longrightarrow> code_bytes s = xs @ tree_code False 0 c"
    using assms(1) by (auto simp: at_atom_def)
  consider (none) "quant_max = 0" | (once) "quant_max = 1 \<or> quant_max = INT32_MAX"
    | (counted) "quant_max \<noteq> 0" "quant_max \<noteq> 1" "quant_max \<noteq> INT32_MAX" by blast
  then show ?thesis
  proof cases
    case none
    let ?d = "(ps_byte_code s)\<lparr>db_buf := take (length xs) (code_bytes s)\<rparr>"
    have "recoded xs s (s\<lparr>ps_byte_code := ?d\<rparr>)"
      unfolding recoded_def using s
      by (intro exI [of _ ?d] conjI refl impI exI [of _ Skip]) (auto simp: ok_def code_ok_def db_wf_def)
    then show ?thesis using none by (simp add: emit_optional_def)
  next
    case once
    then show ?thesis by (rule emit_optional_once [OF assms])
  next
    case counted
    let ?zlen = "if zadv then 2 else 0 :: nat"
    let ?pre = "[reop_code (split_op greedy)] @ bytes_u32 (of_nat (6 + ?zlen + len + 10))"
    let ?t = "counted zadv greedy (of_int quant_max) (of_int quant_max) c"
    let ?fin = "\<lambda>s1. snd (re_emit_goto_u8_u32 s1 (loop_split_op zadv greedy) 0 (of_int quant_max) (of_nat (length xs + 11)))"
    have after: "recoded xs s (?fin s1)"
      if s1: "edited s (xs @ (?pre @ set_i32_code quant_max @ char_pos_code zadv) @ tree_code False 0 c) s1" "ok s1" for s1
    proof -
      have "edited s (xs @ ?pre @ set_i32_code quant_max @ char_pos_code zadv @ tree_code False 0 c) s1"
        using s1(1) by simp
      from counted_edits [OF this s1(2), of greedy "of_int quant_max"]
      have e: "edited s (xs @ ?pre @ tree_code False 0 ?t) (?fin s1)" by (simp add: add.commute)
      have "edited s (xs @ tree_code False 0 (Jumpover greedy ?t)) (?fin s1)"
        by (rule edited_eq [OF e])
          (use s(4) assms(2) in \<open>simp add: split_op_def first_if_def ins_def add.commute\<close>)
      from edited_recoded [OF this] show ?thesis using s by simp
    qed
    have unfolded: "emit_optional s (length xs) len quant_max greedy zadv =
        pbind (insert_code s (length xs) (?pre @ set_i32_code quant_max @ char_pos_code zadv)) (\<lambda>s1. Parsed (?fin s1))"
      using counted by (simp add: emit_optional_def Let_def)
    show ?thesis
      unfolding unfolded
      by (rule on_parsed_bind [OF insert_before_atom [OF assms(1)]], unfold on_parsed_simps(1), rule after) simp_all
  qed
qed

lemma emit_repeated_recoded:
  assumes "at_atom xs c s"
  shows "on_parsed (recoded xs s) (emit_repeated s (length xs) quant_min quant_max greedy zadv0)"
proof -
  have s: "ok s" "rwf c" "length xs \<le> bc_size s" "\<not> code_error s \<Longrightarrow> code_bytes s = xs @ tree_code False 0 c"
    using assms by (auto simp: at_atom_def)
  show ?thesis
  proof (cases "quant_min = 1 \<and> quant_max = INT32_MAX \<and> \<not> zadv0")
    case True
    have "edited s (xs @ tree_code False 0 (Plus greedy c)) (snd (re_emit_goto s (split_op (\<not> greedy)) (of_nat (length xs))))"
      by (rule edited_eq [OF goto_edits [OF s(1)]])
        (use s(4) in \<open>simp add: split_op_def first_if_def algebra_simps\<close>)
    from edited_recoded [OF this] show ?thesis using True s by (simp add: emit_repeated_def)
  next
    case False
    let ?zadv = "zadv0 \<and> quant_min \<noteq> quant_max"
    let ?fin = "\<lambda>s1. if quant_min = quant_max then snd (re_emit_goto_u8 s1 REOP_loop 0 (of_nat (length xs + 6)))
             else snd (re_emit_goto_u8_u32 s1 (loop_split_op ?zadv greedy) 0
                         (of_int (quant_max - quant_min)) (of_nat (length xs + 6)))"
    have unfolded: "emit_repeated s (length xs) quant_min quant_max greedy zadv0 =
        pbind (insert_code s (length xs) (set_i32_code quant_max @ char_pos_code ?zadv)) (\<lambda>s1. Parsed (?fin s1))"
      unfolding emit_repeated_def Let_def by (rule if_not_P [OF False])
    have after: "recoded xs s (?fin s1)"
      if s1: "edited s (xs @ (set_i32_code quant_max @ char_pos_code ?zadv) @ tree_code False 0 c) s1" "ok s1" for s1
    proof (cases "quant_min = quant_max")
      case True
      have "edited s (xs @ set_i32_code quant_max @ tree_code False 0 c) s1"
        using s1(1) True by (simp add: char_pos_code_def)
      from edited_recoded [OF loop_edits [OF this s1(2)]] show ?thesis using True s by simp
    next
      case False
      have "edited s (xs @ [] @ set_i32_code quant_max @ char_pos_code ?zadv @ tree_code False 0 c) s1"
        using s1(1) by simp
      from counted_edits [OF this s1(2), of greedy "of_int (quant_max - quant_min)"]
      have "edited s (xs @ tree_code False 0 (counted ?zadv greedy (of_int quant_max) (of_int (quant_max - quant_min)) c))
          (?fin s1)" using False by simp
      from edited_recoded [OF this] show ?thesis using s by simp
    qed
    show ?thesis
      unfolding unfolded
      by (rule on_parsed_bind [OF insert_before_atom [OF assms]], unfold on_parsed_simps(1), rule after) simp_all
  qed
qed

lemma save_reset_rwf: "rwf (Instr REOP_save_reset [a, b])"
  by (simp add: falls_through_def is_range_op_def instr_ok_fixed)

text \<open>The reset of the captures, before an atom or before its loop.\<close>

lemma reset_inserted:
  assumes "at_atom xs c s"
  shows "on_parsed (\<lambda>s1. at_atom xs (Seq (Instr REOP_save_reset [a, b]) c) s1
      \<and> at_atom (xs @ tree_code False 0 (Instr REOP_save_reset [a, b])) c s1
      \<and> bc_size s1 = bc_size s + 3 \<and> (\<exists>ys. edited s ys s1))
    (insert_code s (length xs) [reop_code REOP_save_reset, a, b])"
proof -
  have s: "rwf c" "length xs \<le> bc_size s" using assms by (simp_all add: at_atom_def)
  show ?thesis
    by (rule on_parsed_mono [OF insert_before_atom [OF assms]])
      (use s save_reset_rwf [of a b] in \<open>auto simp: at_atom_def ins_def edited_def\<close>)
qed

lemma emit_quantifier_recoded:
  assumes "at_atom xs c s"
  shows "on_parsed (recoded xs s) (emit_quantifier s (length xs) k quant_min quant_max greedy)"
proof -
  have quantified: "on_parsed (recoded xs s1) (if quant_min = 0 then
               pbind (if b then pbind (insert_code s1 (length xs) (save_reset_code k s))
                                  (\<lambda>s2. Parsed (s2, length xs + 3))
                      else Parsed (s1, length xs)) (\<lambda>(s2, start2).
               emit_optional s2 start2 (bc_size s1 - length xs) quant_max greedy zadv)
             else emit_repeated s1 (length xs) quant_min quant_max greedy zadv)"
    if s1: "at_atom xs c1 s1" for s1 c1 b zadv
  proof (cases "b \<and> quant_min = 0")
    case True
    let ?r = "Instr REOP_save_reset [of_int k, of_int (ps_capture_count s - 1)]"
    have optional: "on_parsed (recoded xs s1) (emit_optional s2 (length xs + 3) (bc_size s1 - length xs) quant_max greedy zadv)"
      if s2: "at_atom (xs @ tree_code False 0 ?r) c1 s2" "bc_size s2 = bc_size s1 + 3" "edited s1 ys s2" for s2 ys
    proof -
      have len: "length xs + 3 = length (xs @ tree_code False 0 ?r)" by simp
      have "on_parsed (recoded (xs @ tree_code False 0 ?r) s2)
          (emit_optional s2 (length (xs @ tree_code False 0 ?r)) (bc_size s1 - length xs) quant_max greedy zadv)"
        by (rule emit_optional_recoded [OF s2(1)]) (use s2(2) in simp)
      then show ?thesis
        unfolding len
        by (rule on_parsed_mono) (blast intro: recoded_shorter save_reset_rwf recoded_trans [OF s2(3)])
    qed
    have inserted: "on_parsed (\<lambda>(s2, start2). start2 = length xs + 3 \<and> at_atom (xs @ tree_code False 0 ?r) c1 s2
        \<and> bc_size s2 = bc_size s1 + 3 \<and> (\<exists>ys. edited s1 ys s2))
        (pbind (insert_code s1 (length xs) (save_reset_code k s)) (\<lambda>s2. Parsed (s2, length xs + 3)))"
      unfolding save_reset_code_def by (rule on_parsed_bind [OF reset_inserted [OF s1]]) simp
    have "on_parsed (recoded xs s1) (pbind (pbind (insert_code s1 (length xs) (save_reset_code k s))
          (\<lambda>s2. Parsed (s2, length xs + 3)))
        (\<lambda>(s2, start2). emit_optional s2 start2 (bc_size s1 - length xs) quant_max greedy zadv))"
      by (rule on_parsed_bind [OF inserted], rule on_parsed_prod) (use optional in \<open>simp only: prod.case, blast\<close>)
    then show ?thesis using True by simp
  next
    case False
    then show ?thesis
      by (auto intro!: emit_optional_recoded [OF s1 refl] emit_repeated_recoded [OF s1])
  qed
  have reset: "on_parsed (\<lambda>s1. (\<exists>c1. at_atom xs c1 s1) \<and> (\<exists>ys. edited s ys s1))
      (if b then insert_code s (length xs) (save_reset_code k s) else Parsed s)" for b
  proof (cases b)
    case True
    have "on_parsed (\<lambda>s1. (\<exists>c1. at_atom xs c1 s1) \<and> (\<exists>ys. edited s ys s1))
        (insert_code s (length xs) (save_reset_code k s))"
      unfolding save_reset_code_def by (rule on_parsed_mono [OF reset_inserted [OF assms]]) blast
    then show ?thesis using True by simp
  next
    case False
    have "ok s" using assms by (simp add: at_atom_def)
    from edited_refl [OF this] show ?thesis using assms False by auto
  qed
  let ?next = "\<lambda>init zadv s1. if quant_min = 0 then
               pbind (if \<not> init \<and> k \<noteq> ps_capture_count s then pbind (insert_code s1 (length xs) (save_reset_code k s))
                                  (\<lambda>s2. Parsed (s2, length xs + 3))
                      else Parsed (s1, length xs)) (\<lambda>(s2, start2).
               emit_optional s2 start2 (bc_size s1 - length xs) quant_max greedy zadv)
             else emit_repeated s1 (length xs) quant_min quant_max greedy zadv"
  have step: "on_parsed (recoded xs s) (?next init zadv s1)"
    if h: "(\<exists>c1. at_atom xs c1 s1) \<and> (\<exists>ys. edited s ys s1)" for init zadv s1
  proof -
    obtain c1 ys where "at_atom xs c1 s1" and e: "edited s ys s1" using h by blast
    from quantified [OF this(1), of "\<not> init \<and> k \<noteq> ps_capture_count s" zadv]
    show ?thesis by (rule on_parsed_mono) (rule recoded_trans [OF e])
  qed
  show ?thesis
  proof (cases "re_need_check_adv_and_capture_init (drop (length xs) (code_bytes s))")
    case (Some r)
    obtain zadv init where r: "r = (zadv, init)" by (rule prod.exhaust)
    show ?thesis
      unfolding emit_quantifier_def Some r option.case prod.case Let_def
      by (rule on_parsed_bind [OF reset step])
  qed (simp add: emit_quantifier_def)
qed

lemma re_parse_term_ok:
  assumes "parses n pd" "ok s" "length (ps_buf s) - ps_ptr s \<le> n" "ps_ptr s < length (ps_buf s)"
  shows "on_parsed (\<lambda>s'. grows s s' \<and> ps_ptr s < ps_ptr s') (re_parse_term pd b s)"
proof -
  have quantifier: "on_parsed (\<lambda>s2. grows s s2 \<and> ps_ptr s < ps_ptr s2) (parse_quantifier last_atom p s1)"
    if a: "atom_ok s (ps_ptr s) (last_atom, p, s1)" for last_atom p s1
  proof (cases last_atom)
    case None
    then show ?thesis using a by (simp add: parse_quantifier_def atom_ok_def)
  next
    case (Some r)
    obtain start k where r: "r = (start, k)" by (rule prod.exhaust)
    have g: "grows s s1" "ps_ptr s < p" "start = bc_size s" using a by (simp_all add: atom_ok_def Some r)
    obtain c where "at_atom (code_bytes s) c s1"
    proof (cases "code_error s1")
      case True
      then have "at_atom (code_bytes s) Skip s1" using g(1) by (simp add: at_atom_def grows_def)
      then show ?thesis by (rule that)
    next
      case False
      then show ?thesis using g(1) that unfolding at_atom_def grows_def by blast
    qed
    note emitted = emit_quantifier_recoded [OF this]
    have grown: "grows s s2" if "recoded (code_bytes s) s1 s2" for s2
      by (rule recoded_grows [OF g(1) that])
    show ?thesis
      unfolding parse_quantifier_def Some r option.case prod.case Let_def g(3)
      by (intro on_parsed_bind [OF quantifier_bounds_ge] parsed_rules on_parsed_bind [OF emitted])
        (use g grown in auto)
  qed
  show ?thesis
    unfolding re_parse_term_def
    by (intro on_parsed_bind [OF parse_atom_ok [OF assms]] on_parsed_prod; rule quantifier) simp
qed

end
