(* ===== verification/RegexpCompile.thy ===== *)
theory RegexpCompile
  imports RegexpQuantify
begin

text \<open>
  Alternatives, disjunctions and \<open>lre_compile\<close>: the compiler returns for every pattern, and
  what it returns is well typed in the sense of theory \<open>RegexpSafety\<close>, so that the matcher runs
  it safely.
\<close>

subsection \<open>Alternatives and disjunctions\<close>

lemma move_term_grows:
  assumes "grows s0 s" "grows s s1"
  shows "on_parsed (\<lambda>s2. grows s0 s2 \<and> ps_ptr s2 = ps_ptr s1) (move_term (bc_size s0) (bc_size s) s1)"
proof -
  let ?xs = "\<lambda>code. take (bc_size s0) code @ drop (bc_size s) code @ take (bc_size s - bc_size s0) (drop (bc_size s0) code)"
  have sizes: "bc_size s0 \<le> bc_size s" "bc_size s \<le> bc_size s1" using assms by (simp_all add: grows_def)
  have moved: "grows s0 (s1\<lparr>ps_byte_code := d\<lparr>db_buf := ?xs (db_buf d)\<rparr>\<rparr>)"
    if d: "code_ok d" "db_buf d = code_bytes s1" "db_error d = code_error s1" for d
  proof -
    have "\<exists>c. rwf c \<and> ?xs (code_bytes s1) = code_bytes s0 @ tree_code False 0 c" if ne: "\<not> code_error s1"
    proof -
      obtain a where a: "rwf a" "code_bytes s = code_bytes s0 @ tree_code False 0 a"
        using assms ne unfolding grows_def by blast
      obtain b where b: "rwf b" "code_bytes s1 = code_bytes s @ tree_code False 0 b"
        using assms ne unfolding grows_def by blast
      show ?thesis using a b by (intro exI [of _ "Seq b a"]) simp
    qed
    then show ?thesis
      using assms d sizes by (auto simp: grows_def ok_def code_ok_def db_wf_def)
  qed
  have wf: "code_ok (ps_byte_code s1)" using assms(2) by (simp add: grows_def ok_def)
  show ?thesis
  proof (rule dbuf_claim_cases [of "ps_byte_code s1" "bc_size s1 - bc_size s"])
    assume "dbuf_claim (ps_byte_code s1) (bc_size s1 - bc_size s) = (0, ps_byte_code s1)"
    then show ?thesis using moved [OF wf] by (simp add: move_term_def Let_def)
  next
    fix n
    assume c: "dbuf_claim (ps_byte_code s1) (bc_size s1 - bc_size s) = (0, (ps_byte_code s1)\<lparr>db_allocated := n\<rparr>)"
      "bc_size s1 + (bc_size s1 - bc_size s) \<le> n"
    have "code_ok ((ps_byte_code s1)\<lparr>db_allocated := n\<rparr>)"
      using dbuf_claim_bounded [of CODE_MAX "ps_byte_code s1" "bc_size s1 - bc_size s"] c wf
      by (simp add: code_ok_def db_wf_def)
    from moved [OF this] c(1) show ?thesis by (simp add: move_term_def Let_def)
  qed (simp add: move_term_def)
qed

lemma alternative_terms_grows:
  assumes "parses n pd"
  shows "grows s0 s \<Longrightarrow> length (ps_buf s) - ps_ptr s \<le> n \<Longrightarrow> length (ps_buf s) - ps_ptr s < m \<Longrightarrow>
     on_parsed (\<lambda>s'. grows s0 s' \<and> ps_ptr s \<le> ps_ptr s') (alternative_terms m pd b (bc_size s0) s)"
proof (induction m arbitrary: s)
  case (Suc m)
  show ?case
  proof (cases "ps_ptr s \<ge> length (ps_buf s)")
    case False
    have parsed: "on_parsed (\<lambda>s'. grows s s' \<and> ps_ptr s < ps_ptr s') (re_parse_term pd b s)"
      by (rule re_parse_term_ok [OF assms grows_ok [OF Suc.prems(1)]]) (use Suc.prems False in auto)
    have moved: "on_parsed (\<lambda>s2. grows s0 s2 \<and> ps_ptr s < ps_ptr s2)
        (if b then move_term (bc_size s0) (bc_size s) s1 else Parsed s1)" if "grows s s1 \<and> ps_ptr s < ps_ptr s1" for s1
      using that grows_trans [OF Suc.prems(1)] on_parsed_mono [OF move_term_grows [OF Suc.prems(1)]] by auto
    have more: "on_parsed (\<lambda>s'. grows s0 s' \<and> ps_ptr s \<le> ps_ptr s') (alternative_terms m pd b (bc_size s0) s2)"
      if "grows s0 s2 \<and> ps_ptr s < ps_ptr s2" for s2
    proof (rule on_parsed_mono [OF Suc.IH])
      have "ps_buf s2 = ps_buf s" using that Suc.prems(1) by (simp add: grows_def)
      then show "length (ps_buf s2) - ps_ptr s2 \<le> n" "length (ps_buf s2) - ps_ptr s2 < m"
        using that Suc.prems(2,3) False by auto
    qed (use that in auto)
    show ?thesis
      unfolding alternative_terms.simps Let_def
      by (intro parsed_rules on_parsed_bind [OF parsed] on_parsed_bind [OF moved] more) (use Suc.prems(1) in auto)
  qed (use Suc.prems(1) in simp)
qed simp

lemma re_parse_alternative_grows:
  assumes "parses n pd" "ok s" "length (ps_buf s) - ps_ptr s \<le> n"
  shows "on_parsed (\<lambda>s'. grows s s' \<and> ps_ptr s \<le> ps_ptr s') (re_parse_alternative pd b s)"
  unfolding re_parse_alternative_def
  by (rule alternative_terms_grows [OF assms(1) grows_refl [OF assms(2)] assms(3)]) simp

text \<open>One more alternative.\<close>

lemma next_alternative_grows:
  assumes "parses n pd" "grows s0 s" "length (ps_buf s) - ps_ptr s \<le> n"
  shows "on_parsed (\<lambda>s4. grows s0 s4 \<and> ps_ptr s \<le> ps_ptr s4)
    (pbind (insert_code s (bc_size s0) (reop_code REOP_split_next_first # bytes_u32 (of_nat (bc_size s - bc_size s0 + 5))))
      (\<lambda>s1. case re_emit_op_u32 s1 REOP_goto 0 of (pos, s2) \<Rightarrow>
        pbind (re_parse_alternative pd b (s2\<lparr>ps_group_name_scope := ps_group_name_scope s2 + 1\<rparr>)) (\<lambda>s3.
        patch_jump pos s3)))"
proof -
  let ?B = "code_bytes s0"
  let ?split = "reop_code REOP_split_next_first # bytes_u32 (of_nat (bc_size s - bc_size s0 + 5))"
  obtain c where c: "at_atom ?B c s"
  proof (cases "code_error s")
    case True
    then have "at_atom ?B Skip s" using assms(2) by (simp add: at_atom_def grows_def)
    then show ?thesis by (rule that)
  next
    case False
    then show ?thesis using assms(2) that unfolding at_atom_def grows_def by blast
  qed
  have len: "\<not> code_error s \<Longrightarrow> bc_size s - bc_size s0 = rlen c" using c by (simp add: at_atom_def)
  have rest: "on_parsed (\<lambda>s4. grows s0 s4 \<and> ps_ptr s \<le> ps_ptr s4) (patch_jump pos s3)"
    if s1: "edited s (?B @ ?split @ tree_code False 0 c) s1" "ok s1"
      and s2: "re_emit_op_u32 s1 REOP_goto 0 = (pos, s2)" and s3: "grows s2 s3 \<and> ps_ptr s2 \<le> ps_ptr s3"
    for s1 pos s2 s3
  proof -
    note e2 = op_u32_edits [OF s1(2) s2]
    let ?pre = "?B @ ?split @ tree_code False 0 c"
    have code: "\<exists>c2. rwf c2 \<and> code_bytes s3 = ?pre @ ins REOP_goto (bytes_u32 0) @ tree_code False 0 c2
        \<and> pos = length ?pre + 1" if "\<not> code_error s3"
    proof -
      have 2: "\<not> code_error s2" using s3 that by (auto simp: grows_def)
      have 1: "code_bytes s2 = code_bytes s1 @ ins REOP_goto (bytes_u32 0) \<and> \<not> code_error s1" "pos = bc_size s1 + 1"
        using edited_bytes [OF e2(1) 2] e2(2) [OF 2] by simp_all
      have "code_bytes s1 = ?pre" using edited_bytes [OF s1(1)] 1(1) by blast
      then show ?thesis using s3 that 1 by (auto simp: grows_def)
    qed
    have "ok s3" using s3 by (simp add: grows_def)
    have ptr: "ps_ptr s \<le> ps_ptr s3" "ps_buf s3 = ps_buf s0" "bc_size s0 \<le> bc_size s3" "code_error s0 \<longrightarrow> code_error s3"
      using edited_fields [OF s1(1)] edited_fields [OF e2(1)] s3 assms(2) by (auto simp: grows_def)
    show ?thesis
    proof (cases "code_error s3")
      case True
      have "on_parsed (edited s3 []) (patch_jump pos s3)"
        by (rule on_parsed_mono [OF patch_jump_edits [OF \<open>ok s3\<close>]]) (use True edited_error in blast)+
      then show ?thesis
        by (rule on_parsed_mono)
          (use ptr True edited_ok [OF \<open>ok s3\<close>] in \<open>fastforce simp: grows_def dest: edited_fields\<close>)
    next
      case False
      then obtain c2 where c2: "rwf c2" "code_bytes s3 = ?pre @ ins REOP_goto (bytes_u32 0) @ tree_code False 0 c2"
        "pos = length ?pre + 1" using code by blast
      have "\<not> code_error s" using False s3 edited_fields [OF s1(1)] edited_fields [OF e2(1)] by (auto simp: grows_def)
      then have "?pre @ ins REOP_goto (bytes_u32 (of_nat (length (tree_code False 0 c2)))) @ tree_code False 0 c2
          = ?B @ tree_code False 0 (Alt c c2)" using len by (simp add: ins_def)
      then have "on_parsed (edited s3 (?B @ tree_code False 0 (Alt c c2))) (patch_jump pos s3)"
        using patch_jump_edits [OF \<open>ok s3\<close>, of ?pre REOP_goto 0 "tree_code False 0 c2" pos] c2(2,3) by simp
      then show ?thesis
      proof (rule on_parsed_mono)
        fix s4 assume e4: "edited s3 (?B @ tree_code False 0 (Alt c c2)) s4"
        have "rwf (Alt c c2)" using c c2(1) by (simp add: at_atom_def)
        then show "grows s0 s4 \<and> ps_ptr s \<le> ps_ptr s4"
          using edited_fields [OF e4] edited_ok [OF \<open>ok s3\<close> e4] edited_bytes [OF e4] ptr
          unfolding grows_def by (auto intro!: exI [of _ "Alt c c2"])
      qed
    qed
  qed
  have alternative: "on_parsed (\<lambda>s3. grows s2 s3 \<and> ps_ptr s2 \<le> ps_ptr s3)
      (re_parse_alternative pd b (s2\<lparr>ps_group_name_scope := v\<rparr>))"
    if "edited s (?B @ ?split @ tree_code False 0 c) s1" "ok s1" "re_emit_op_u32 s1 REOP_goto 0 = (pos, s2)" for s1 pos s2 v
  proof -
    note e2 = op_u32_edits(1) [OF that(2,3)]
    have "on_parsed (\<lambda>s'. grows (s2\<lparr>ps_group_name_scope := v\<rparr>) s' \<and> ps_ptr (s2\<lparr>ps_group_name_scope := v\<rparr>) \<le> ps_ptr s')
        (re_parse_alternative pd b (s2\<lparr>ps_group_name_scope := v\<rparr>))"
      by (rule re_parse_alternative_grows [OF assms(1)])
        (use edited_ok [OF that(2) e2] edited_fields [OF that(1)] edited_fields [OF e2] assms(3) in simp_all)
    then show ?thesis by simp
  qed
  show ?thesis
  proof (rule on_parsed_bind [OF insert_before_atom [OF c, of ?split]])
    fix s1 assume "edited s (?B @ ?split @ tree_code False 0 c) s1 \<and> ok s1 \<and> bc_size s1 = bc_size s + length ?split"
    then have s1: "edited s (?B @ ?split @ tree_code False 0 c) s1" "ok s1" by simp_all
    show "on_parsed (\<lambda>s4. grows s0 s4 \<and> ps_ptr s \<le> ps_ptr s4) (case re_emit_op_u32 s1 REOP_goto 0 of (pos, s2) \<Rightarrow>
        pbind (re_parse_alternative pd b (s2\<lparr>ps_group_name_scope := ps_group_name_scope s2 + 1\<rparr>)) (patch_jump pos))"
      by (intro on_parsed_prod on_parsed_bind [OF alternative [OF s1]]; (rule rest [OF s1])?) assumption+
  qed
qed

lemma pbind_assoc: "pbind (pbind m f) g = pbind m (\<lambda>x. pbind (f x) g)"
  by (cases m) simp_all

lemma disjunction_alternatives_grows:
  assumes "parses n pd"
  shows "grows s0 s \<Longrightarrow> length (ps_buf s) - ps_ptr s \<le> n \<Longrightarrow> length (ps_buf s) - ps_ptr s < m \<Longrightarrow>
     on_parsed (\<lambda>s'. grows s0 s' \<and> ps_ptr s \<le> ps_ptr s') (disjunction_alternatives m pd b (bc_size s0) s)"
proof (induction m arbitrary: s)
  case (Suc m)
  show ?case
  proof (cases "rd (ps_buf s) (ps_ptr s) = CH_bar")
    case True
    have p: "ps_ptr s < length (ps_buf s)" by (rule rd_neq_0_bound) (simp add: True)
    let ?s = "s\<lparr>ps_ptr := ps_ptr s + 1\<rparr>"
    have more: "on_parsed (\<lambda>s'. grows s0 s' \<and> ps_ptr s \<le> ps_ptr s') (disjunction_alternatives m pd b (bc_size s0) s4)"
      if "grows s0 s4 \<and> ps_ptr ?s \<le> ps_ptr s4" for s4
    proof (rule on_parsed_mono [OF Suc.IH])
      have "ps_buf s4 = ps_buf s" using that Suc.prems(1) by (simp add: grows_def)
      then show "length (ps_buf s4) - ps_ptr s4 \<le> n" "length (ps_buf s4) - ps_ptr s4 < m"
        using that Suc.prems(2,3) p by auto
    qed (use that in auto)
    have "on_parsed (\<lambda>s4. grows s0 s4 \<and> ps_ptr ?s \<le> ps_ptr s4)
      (pbind (insert_code ?s (bc_size s0) (reop_code REOP_split_next_first # bytes_u32 (of_nat (bc_size ?s - bc_size s0 + 5))))
        (\<lambda>s1. case re_emit_op_u32 s1 REOP_goto 0 of (pos, s2) \<Rightarrow>
          pbind (re_parse_alternative pd b (s2\<lparr>ps_group_name_scope := ps_group_name_scope s2 + 1\<rparr>)) (\<lambda>s3.
          patch_jump pos s3)))"
      by (rule next_alternative_grows [OF assms]) (use Suc.prems in auto)
    from on_parsed_bind [OF this more] show ?thesis
      using True by (simp add: Let_def pbind_assoc split_def)
  qed (use Suc.prems(1) in simp)
qed simp

lemma re_parse_disjunction_parses: "parses n (re_parse_disjunction n)"
proof (induction n)
  case (Suc n)
  show ?case
    unfolding parses_def
  proof (intro allI impI)
    fix b s assume s: "ok s" "length (ps_buf s) - ps_ptr s < Suc n"
    have first: "on_parsed (\<lambda>s1. grows s s1 \<and> ps_ptr s \<le> ps_ptr s1) (re_parse_alternative (re_parse_disjunction n) b s)"
      by (rule re_parse_alternative_grows [OF Suc s(1)]) (use s(2) in simp)
    have more: "on_parsed (\<lambda>s'. grows s s' \<and> ps_ptr s \<le> ps_ptr s')
        (disjunction_alternatives (scan_fuel s) (re_parse_disjunction n) b (bc_size s) s1)"
      if s1: "grows s s1 \<and> ps_ptr s \<le> ps_ptr s1" for s1
    proof (rule on_parsed_mono [OF disjunction_alternatives_grows [OF Suc]])
      show "grows s s1" using s1 by simp
      show "length (ps_buf s1) - ps_ptr s1 \<le> n" "length (ps_buf s1) - ps_ptr s1 < scan_fuel s"
        using s1 s(2) grows_buf [of s s1] by auto
    qed (use s1 in auto)
    show "on_parsed (\<lambda>s'. grows s s' \<and> ps_ptr s \<le> ps_ptr s') (re_parse_disjunction (Suc n) b s)"
      unfolding re_parse_disjunction.simps by (rule on_parsed_bind [OF first more])
  qed
qed (simp add: parses_def)

subsection \<open>The whole bytecode\<close>

lemma ok_init:
  assumes "\<forall>n. ra n"
  shows "ok (init_parse_state buf re_flags ra)"
proof -
  have "db_bounded CODE_MAX (dbuf_init2 (lre_bytecode_realloc ra))"
    by (simp add: db_bounded_def dbuf_init2_def lre_bytecode_realloc_def)
  then show ?thesis
    using assms by (simp add: ok_def code_ok_def init_parse_state_def db_wf_def dbuf_init2_def names_are_def)
qed

text \<open>The header the compiler starts with, and the code up to group 0.\<close>

definition header_code :: "u32 \<Rightarrow> u8 list" where
  "header_code re_flags = bytes_u16 (ucast re_flags) @ [0, 0] @ bytes_u32 0"

lemma length_header_code [simp]: "length (header_code f) = 8"
  by (simp add: header_code_def bytes_u16_def)

lemma emit_u16_edits: "ok s \<Longrightarrow> edited s (code_bytes s @ bytes_u16 v) (emit_u16 v s)"
  by (rule emits_edited [OF _ emits_u16 [OF ok_wf]])

lemma emit_prologue_code:
  assumes "ok s" "code_bytes s = []" "\<not> code_error s"
  shows "\<exists>c xs. rwf c \<and> edited s xs (emit_prologue s) \<and> xs = header_code (ps_re_flags s) @ tree_code False 0 c"
proof -
  let ?h1 = "emit_u16 (ucast (ps_re_flags s)) s"
  let ?h2 = "emit_u8 0 ?h1" let ?h3 = "emit_u8 0 ?h2" let ?h4 = "emit_u32 0 ?h3"
  have h1: "edited s (code_bytes s @ bytes_u16 (ucast (ps_re_flags s))) ?h1" by (rule emit_u16_edits [OF assms(1)])
  have h2: "edited s ((code_bytes s @ bytes_u16 (ucast (ps_re_flags s))) @ [0]) ?h2"
    using edited_compose [where ys = "\<lambda>n. [0]", OF h1] emit_u8_edits [OF edited_ok [OF assms(1) h1]] by blast
  have h3: "edited s (((code_bytes s @ bytes_u16 (ucast (ps_re_flags s))) @ [0]) @ [0]) ?h3"
    using edited_compose [where ys = "\<lambda>n. [0]", OF h2] emit_u8_edits [OF edited_ok [OF assms(1) h2]] by blast
  have "edited s ((((code_bytes s @ bytes_u16 (ucast (ps_re_flags s))) @ [0]) @ [0]) @ bytes_u32 0) ?h4"
    using edited_compose [where ys = "\<lambda>n. bytes_u32 0", OF h3] emit_u32_edits [OF edited_ok [OF assms(1) h3]] by blast
  then have h4: "edited s (header_code (ps_re_flags s)) ?h4" by (simp add: header_code_def assms(2))
  have ok4: "ok ?h4" by (rule edited_ok [OF assms(1) h4])
  let ?sticky = "ps_re_flags s AND LRE_FLAG_STICKY \<noteq> 0"
  let ?loop = "snd (re_emit_op_u32 (re_emit_op (snd (re_emit_op_u32 ?h4 REOP_split_goto_first 6)) REOP_any) REOP_goto (- 11))"
  let ?start = "if ?sticky then ?h4 else ?loop"
  have "appends ?h4 ?loop"
  proof (rule emits_appends [OF ok4, where c = "Star False (Instr REOP_any [])"])
    note e1 = emits_op_u32 [OF ok_wf [OF ok4], of REOP_split_goto_first 6]
    note e2 = emits_op [OF emits_wf [OF e1], of REOP_any]
    note e3 = emits_op_u32 [OF emits_wf [OF e2], of REOP_goto "- 11"]
    show "emits ?h4 (tree_code False 0 (Star False (Instr REOP_any []))) ?loop"
      using emits_trans [OF e1 emits_trans [OF e2 e3]] by simp
  qed (simp add: falls_through_def is_range_op_def instr_ok_fixed)
  then have a: "appends ?h4 ?start" using appends_refl [OF ok4] by simp
  have "appends ?start (re_emit_op_u8 ?start REOP_save_start 0)"
    by (rule op_appends [OF appends_ok [OF ok4 a]]) (simp_all add: falls_through_def)
  then have "appends ?h4 (re_emit_op_u8 ?start REOP_save_start 0)" by (rule appends_trans [OF a])
  then obtain c where c: "rwf c" "edited ?h4 (code_bytes ?h4 @ tree_code False 0 c) (re_emit_op_u8 ?start REOP_save_start 0)"
    by (auto simp: appends_def)
  have "edited s (header_code (ps_re_flags s) @ tree_code False 0 c) (re_emit_op_u8 ?start REOP_save_start 0)"
    using edited_compose [where ys = "\<lambda>n. tree_code False 0 c", OF h4 c(2)] .
  moreover have "emit_prologue s = re_emit_op_u8 ?start REOP_save_start 0"
    by (simp add: emit_prologue_def Let_def)
  ultimately show ?thesis using c(1) by auto
qed

lemma register_pass_tree:
  assumes "rwf c" "compute_register_count (h @ tree_code False 0 c @ ins REOP_match []) = Some (r, code)"
    and "length h = 8" "0 \<le> r"
  shows "r = int (rdepth c) \<and> r \<le> 255 \<and> code = h @ tree_code True 0 c @ ins REOP_match []"
proof -
  have "passes 0 0 (tree_code False 0 c @ ins REOP_match []) (tree_code True 0 c @ ins REOP_match []) 0 (max 0 (0 + rdepth c))"
    by (rule passes_append [OF tree_passes [OF assms(1)] passes_neutral])
      (simp_all add: instr_ok_fixed register_effect_def)
  note pass = this [unfolded passes_def, THEN conjunct2, rule_format, of h "[]" r code]
  have "register_loop (h @ (tree_code True 0 c @ ins REOP_match []) @ [])
      (length h + length (tree_code False 0 c @ ins REOP_match [])) 0 (rdepth c) = Some (r, code) \<and> rdepth c \<le> 255"
    using pass assms(2-4) by (simp add: compute_register_count_def)
  then show ?thesis by (auto simp: register_loop.simps assms(3))
qed

lemma tree_well_typed:
  assumes "length h = 8" "unat (h ! RE_HEADER_REGISTER_COUNT) = rdepth c" "rdepth c \<le> 255" "rwf c" "rlen c < 2 ^ 31"
  shows "wt_code (h @ tree_code True 0 c @ ins REOP_match [] @ names) (typing 8 [] [] c @ [(8 + rlen c, [], [])])"
proof -
  let ?bc = "h @ tree_code True 0 c @ ins REOP_match [] @ names" and ?T = "typing 8 [] [] c"
  let ?A = "?T @ [(8 + rlen c, [], [])]"
  have keys: "distinct (map fst ?T)" "fst ` set ?T \<subseteq> {8 ..< 8 + rlen c}"
    using typing_keys [of 8 c "[]" "[]"] by (simp_all add: keys_in_def)
  have end_fresh: "8 + rlen c \<notin> fst ` set ?T" using keys(2) by auto
  then have last_key: "map_of ?A (8 + rlen c) = Some ([], [])" by (simp add: map_of_eq_None_iff map_add_Some_iff)
  have "covers ?A ?T"
    unfolding covers_def using keys(1) end_fresh
    by (auto simp: map_add_Some_iff map_of_eq_None_iff)
  then have first: "map_of ?A 8 = Some ([], [])" by (rule typing_entry) (rule last_key)
  have "code_at ?bc 8 (tree_code True 0 c)" unfolding code_at_def using assms(1) by metis
  then have "all_wt ?bc (rdepth c) ?A ?T"
    using tree_typed [of "rdepth c" c ?bc 8 "[]" ?A "[]"] assms \<open>covers ?A ?T\<close> last_key by simp
  moreover have "wt_at ?bc (rdepth c) ?A (length (h @ tree_code True 0 c)) ([], [])"
    by (rule wt_at_ins [of _ _ REOP_match "[]" names]) (simp_all add: instr_ok_fixed)
  ultimately have "all_wt ?bc (rdepth c) ?A ?A" using assms(1) by simp
  moreover have "?bc ! RE_HEADER_REGISTER_COUNT = h ! RE_HEADER_REGISTER_COUNT" using assms(1) by (simp add: nth_append)
  ultimately show ?thesis
    using first assms(1,2) unfolding wt_code_def all_wt_def by simp
qed

text \<open>\<open>finish_bytecode\<close> changes the header and appends names.\<close>

lemma put_header:
  "p + length bs \<le> length h \<Longrightarrow> put_bytes (h @ xs) p bs = put_bytes h p bs @ xs"
  by (simp add: put_bytes_def)

lemma put_bytes_nth:
  "p + length bs \<le> length h \<Longrightarrow> i < p \<or> p + length bs \<le> i \<Longrightarrow> i < length h \<Longrightarrow> put_bytes h p bs ! i = h ! i"
  by (auto simp: put_bytes_def nth_append)

lemma get_u32_bytes:
  assumes "length h = p"
  shows "get_u32 (h @ bytes_u32 v @ xs) p = v"
proof -
  have "put_u32 (h @ [0, 0, 0, 0] @ xs) p v = h @ bytes_u32 v @ xs"
    using assms by (simp add: put_u32_def put_bytes_def bytes_u32_def)
  then show ?thesis using get_put_u32 [of p "h @ [0, 0, 0, 0] @ xs" v] assms by simp
qed

text \<open>
  The finished code: the header has its three fields, and the table of names follows the
  code, or nothing.
\<close>

lemma finish_bytecode_code:
  assumes "length h = 8" "length xs < 2 ^ 32"
  shows "\<exists>h' names. length h' = 8 \<and> h' ! RE_HEADER_REGISTER_COUNT = of_int r
    \<and> h' ! RE_HEADER_CAPTURE_COUNT = of_int (ps_capture_count s)
    \<and> drop RE_HEADER_BYTECODE_LEN h' = bytes_u32 (of_nat (length xs))
    \<and> (names = [] \<or> names = db_buf (ps_group_names s))
    \<and> finish_bytecode s r (h @ xs) = h' @ xs @ names"
proof -
  let ?h1 = "h[RE_HEADER_CAPTURE_COUNT := of_int (ps_capture_count s), RE_HEADER_REGISTER_COUNT := of_int r]"
  let ?h2 = "put_bytes ?h1 RE_HEADER_BYTECODE_LEN (bytes_u32 (of_nat (length (h @ xs) - RE_HEADER_LEN)))"
  have h2: "length ?h2 = 8" "?h2 ! RE_HEADER_REGISTER_COUNT = of_int r"
    "?h2 ! RE_HEADER_CAPTURE_COUNT = of_int (ps_capture_count s)"
    "drop RE_HEADER_BYTECODE_LEN ?h2 = bytes_u32 (of_nat (length xs))"
    using assms(1) by (simp_all add: put_bytes_nth) (simp add: put_bytes_def bytes_u32_def)
  have code2: "put_u32 ((h @ xs)[RE_HEADER_CAPTURE_COUNT := of_int (ps_capture_count s), RE_HEADER_REGISTER_COUNT := of_int r])
      RE_HEADER_BYTECODE_LEN (of_nat (length (h @ xs) - RE_HEADER_LEN)) = ?h2 @ xs"
    using assms by (simp add: put_u32_def put_header list_update_append)
  let ?d = "(ps_byte_code s)\<lparr>db_buf := ?h2 @ xs\<rparr>"
  obtain names where names: "db_buf (snd (dbuf_put ?d (db_buf (ps_group_names s)))) = ?h2 @ xs @ names"
    "names = [] \<or> names = db_buf (ps_group_names s)"
    by (rule dbuf_put_cases [of ?d "db_buf (ps_group_names s)"]) auto
  have named: "\<exists>h'. length h' = 8 \<and> h' ! RE_HEADER_REGISTER_COUNT = of_int r
      \<and> h' ! RE_HEADER_CAPTURE_COUNT = of_int (ps_capture_count s)
      \<and> drop RE_HEADER_BYTECODE_LEN h' = bytes_u32 (of_nat (length xs))
      \<and> put_u16 (?h2 @ xs @ names) RE_HEADER_FLAGS v = h' @ xs @ names" for v
    using h2 by (intro exI [of _ "put_bytes ?h2 RE_HEADER_FLAGS (bytes_u16 v)"])
      (simp add: put_u16_def put_header put_bytes_nth bytes_u16_def, simp add: put_bytes_def)
  show ?thesis
  proof (cases "int (length (db_buf (ps_group_names s))) > (ps_capture_count s - 1) * int LRE_GROUP_NAME_TRAILER_LEN")
    case True
    let ?code3 = "?h2 @ xs @ names"
    have "finish_bytecode s r (h @ xs)
        = put_u16 ?code3 RE_HEADER_FLAGS (ucast (lre_get_flags ?code3 OR LRE_FLAG_NAMED_GROUPS))"
      by (simp only: finish_bytecode_def Let_def code2 names(1) True if_True)
    then show ?thesis using named names(2) by metis
  next
    case False
    then have "finish_bytecode s r (h @ xs) = ?h2 @ xs @ []"
      by (simp only: finish_bytecode_def Let_def code2 if_False append_Nil2)
    then show ?thesis using h2 by blast
  qed
qed

text \<open>The code of a compilation without an error, before the register pass.\<close>

definition whole_code :: "u32 \<Rightarrow> re_parse_state \<Rightarrow> bool" where
  "whole_code re_flags s \<longleftrightarrow> ok s \<and> (\<not> code_error s \<longrightarrow>
     (\<exists>c. rwf c \<and> code_bytes s = header_code re_flags @ tree_code False 0 c @ ins REOP_match []))"

lemma compiled_whole_code:
  assumes "\<forall>n. ra n"
  shows "on_parsed (\<lambda>s1. whole_code re_flags (re_emit_op (re_emit_op_u8 s1 REOP_save_end 0) REOP_match))
    (re_parse_disjunction (scan_fuel (emit_prologue (init_parse_state buf re_flags ra))) False
      (emit_prologue (init_parse_state buf re_flags ra)))"
proof -
  let ?init = "init_parse_state buf re_flags ra" and ?s = "emit_prologue (init_parse_state buf re_flags ra)"
  have ok0: "ok ?init" by (rule ok_init [OF assms])
  obtain c0 where c0: "rwf c0" "edited ?init (header_code re_flags @ tree_code False 0 c0) ?s"
    using emit_prologue_code [OF ok0] by (auto simp: init_parse_state_def dbuf_init2_def)
  have ok1: "ok ?s" by (rule edited_ok [OF ok0 c0(2)])
  have parsed: "on_parsed (\<lambda>s1. grows ?s s1 \<and> ps_ptr ?s \<le> ps_ptr s1) (re_parse_disjunction (scan_fuel ?s) False ?s)"
    using re_parse_disjunction_parses [of "scan_fuel ?s"] ok1 unfolding parses_def by simp
  show ?thesis
  proof (rule on_parsed_mono [OF parsed])
    fix s1 assume "grows ?s s1 \<and> ps_ptr ?s \<le> ps_ptr s1"
    then have g: "grows ?s s1" by simp
    let ?s2 = "re_emit_op_u8 s1 REOP_save_end 0"
    have "appends s1 ?s2" by (rule op_appends [OF grows_ok [OF g]]) (simp_all add: falls_through_def)
    then have g2: "grows ?s ?s2" using grows_trans [OF g] appends_grows [OF grows_ok [OF g]] by blast
    have e: "edited ?s2 (code_bytes ?s2 @ ins REOP_match []) (re_emit_op ?s2 REOP_match)"
      by (rule emits_edited [OF grows_ok [OF g2] emits_op [OF ok_wf [OF grows_ok [OF g2]]]])
    have "\<exists>c. rwf c \<and> code_bytes (re_emit_op ?s2 REOP_match) = header_code re_flags @ tree_code False 0 c @ ins REOP_match []"
      if "\<not> code_error (re_emit_op ?s2 REOP_match)"
    proof -
      note b = edited_bytes [OF e that]
      then obtain c where c: "rwf c" "code_bytes ?s2 = code_bytes ?s @ tree_code False 0 c" using g2 by (auto simp: grows_def)
      have "code_bytes ?s = header_code re_flags @ tree_code False 0 c0"
        using edited_bytes [OF c0(2)] g2 b by (auto simp: grows_def)
      then show ?thesis using b c c0(1) by (intro exI [of _ "Seq c0 c"]) simp
    qed
    then show "whole_code re_flags (re_emit_op ?s2 REOP_match)"
      using edited_ok [OF grows_ok [OF g2] e] by (simp add: whole_code_def)
  qed
qed

lemma unat_of_nat_small: "n < 2 ^ 32 \<Longrightarrow> unat (of_nat n :: u32) = n"
  by (simp add: unsigned_of_nat take_bit_nat_eq_self)

text \<open>
  What a successful compilation returns: well-typed code, a capture count in range, and the
  group names, one entry for each group but group 0, behind the code.
\<close>

lemma lre_compile_result:
  assumes "\<forall>n. ra n" "lre_compile buf re_flags ra = Parsed bc"
  shows "(\<exists>A. wt_code bc A) \<and> 1 \<le> lre_get_capture_count bc \<and>
    (let off = RE_HEADER_LEN + unat (get_u32 bc RE_HEADER_BYTECODE_LEN) in
     off = length bc \<or> off \<le> length bc \<and>
       (\<exists>es. drop off bc = concat (map name_entry es) \<and> (\<forall>e \<in> set es. 0 \<notin> set (fst e))
          \<and> length es + 1 = lre_get_capture_count bc))"
proof -
  let ?s = "emit_prologue (init_parse_state buf re_flags ra)"
  obtain s1 where s1: "re_parse_disjunction (scan_fuel ?s) False ?s = Parsed s1"
    using assms(2) by (auto simp: lre_compile_def Let_def pbind_Parsed_iff simp del: re_parse_disjunction.simps)
  let ?s2 = "re_emit_op (re_emit_op_u8 s1 REOP_save_end 0) REOP_match"
  have w: "whole_code re_flags ?s2" using on_parsedD [OF compiled_whole_code [OF assms(1)] s1] .
  obtain r code where run: "\<not> code_error ?s2" "compute_register_count (code_bytes ?s2) = Some (r, code)" "0 \<le> r"
    "bc = finish_bytecode ?s2 r code"
    using assms(2) unfolding lre_compile_def Let_def s1 pbind.simps
    by (auto simp: parse_error_def out_of_memory_def not_less split: if_splits option.splits prod.splits)
  then obtain c where c: "rwf c" "code_bytes ?s2 = header_code re_flags @ tree_code False 0 c @ ins REOP_match []"
    using w by (auto simp: whole_code_def)
  let ?xs = "tree_code True 0 c @ ins REOP_match []"
  have reg: "r = int (rdepth c)" "r \<le> 255" "code = header_code re_flags @ ?xs"
    using register_pass_tree [OF c(1) run(2) [unfolded c(2)] _ run(3)] by simp_all
  have "bc_size ?s2 \<le> CODE_MAX"
    using w by (auto simp: whole_code_def ok_def code_ok_def db_wf_def db_bounded_def)
  then have small: "rlen c < 2 ^ 31" "length ?xs < 2 ^ 32" by (simp_all add: c(2))
  obtain h names where h: "length h = 8" "h ! RE_HEADER_REGISTER_COUNT = of_int r"
    "h ! RE_HEADER_CAPTURE_COUNT = of_int (ps_capture_count ?s2)"
    "drop RE_HEADER_BYTECODE_LEN h = bytes_u32 (of_nat (length ?xs))"
    "names = [] \<or> names = db_buf (ps_group_names ?s2)" "bc = h @ ?xs @ names"
    using finish_bytecode_code [of "header_code re_flags" ?xs r ?s2] run(4) reg(3) small(2) by auto
  have "unat (h ! RE_HEADER_REGISTER_COUNT) = rdepth c"
    using h(2) reg(1,2) by (simp add: unsigned_of_nat take_bit_nat_eq_self)
  from tree_well_typed [OF h(1) this _ c(1) small(1), of names]
  have typed: "\<exists>A. wt_code bc A" using reg(1,2) h(6) by auto
  obtain es where es: "names_are ?s2 es" "int (length es) = ps_capture_count ?s2 - 1" "ps_capture_count ?s2 \<le> 255"
    using w by (auto simp: whole_code_def ok_def)
  have count: "lre_get_capture_count bc = length es + 1"
  proof -
    have "ps_capture_count ?s2 = int (length es + 1)" "length es + 1 < 2 ^ 8" using es(2,3) by simp_all
    then show ?thesis using h(1,3,6)
      by (simp add: lre_get_capture_count_def nth_append unsigned_of_nat take_bit_nat_eq_self del: of_nat_add of_nat_Suc)
  qed
  have "take 4 h @ bytes_u32 (of_nat (length ?xs)) = h" unfolding h(4) [symmetric] by (rule append_take_drop_id)
  then have "bc = take 4 h @ bytes_u32 (of_nat (length ?xs)) @ ?xs @ names" unfolding h(6) by (metis append.assoc)
  moreover have "length (take 4 h) = 4" using h(1) by simp
  ultimately have "get_u32 bc 4 = of_nat (length ?xs)" by (simp only: get_u32_bytes)
  moreover have "unat (of_nat (length ?xs) :: u32) = length ?xs" by (rule unat_of_nat_small [OF small(2)])
  ultimately have off: "RE_HEADER_LEN + unat (get_u32 bc RE_HEADER_BYTECODE_LEN) = length (h @ ?xs)"
    using h(1) by (simp only: length_append)
  have bc: "bc = (h @ ?xs) @ names" using h(6) by simp
  have drop: "drop (length (h @ ?xs)) bc = names" unfolding bc by simp
  show ?thesis
    unfolding Let_def off count using typed h(5) es(1) drop bc by (auto simp: names_are_def)
qed

lemma lre_compile_well_typed:
  assumes "\<forall>n. ra n" "lre_compile buf re_flags ra = Parsed bc"
  shows "\<exists>A. wt_code bc A"
  using lre_compile_result [OF assms] by simp

subsection \<open>Compiling and running\<close>

text \<open>The bytecode of a successful compilation.\<close>

definition compiled_code :: "u8 list parsed \<Rightarrow> u8 list option" where
  "compiled_code m = (case m of Parsed bc \<Rightarrow> Some bc | _ \<Rightarrow> None)"

text \<open>\<open>/(?:a){2}/y\<close> compiles to the program that theory \<open>RegexpSafety\<close> runs.\<close>

definition loop_pattern :: "u8 list" where
  "loop_pattern = [0x28, 0x3f, 0x3a, 0x61, 0x29, 0x7b, 0x32, 0x7d]"

lemma loop_pattern_compiles: "lre_compile loop_pattern LRE_FLAG_STICKY (\<lambda>n. True) = Parsed loop_example"
proof -
  have "compiled_code (lre_compile loop_pattern LRE_FLAG_STICKY (\<lambda>n. True)) = Some loop_example"
    by code_simp
  then show ?thesis by (simp add: compiled_code_def split: parsed.splits)
qed

text \<open>C3: Whatever the pattern and the flags, if \<open>lre_compile\<close> succeeds (and the allocator never
  failed) the bytecode it returns is well typed: every instruction is whole and inside the
  buffer, every jump lands on an instruction, the registers of loops are numbered below the
  register count of the header and hold what is read from them, and lookaheads are properly
  nested. This covers the patched jumps, the code inserted before an atom by its quantifier,
  the reversed terms of lookbehinds, string lists, back references by name and the final
  numbering of the registers.\<close>

theorem compiled_code_well_typed:
  assumes "\<forall>n. ra n" "lre_compile buf re_flags ra = Parsed bc"
  shows "\<exists>A. wt_code bc A"
  by (rule lre_compile_well_typed [OF assms])

lemma compiled_code_well_typed_witness: "\<exists>A. wt_code loop_example A"
  by (rule compiled_code_well_typed [OF _ loop_pattern_compiles]) simp

text \<open>C2: Compiling and running fit together: bytecode that \<open>lre_compile\<close> returned, with every
  allocation of the compiler granted (the matcher's own may fail), run by
  \<open>lre_exec\<close> on any subject with enough capture slots and a start inside the subject, never
  makes the matcher leave its buffers or fail an assertion; a run that ends returns a code,
  and after a match every capture is null or a position of the subject.\<close>

theorem compiled_code_runs_safely:
  assumes "\<forall>n. ra n" "lre_compile buf re_flags ra = Parsed bc"
    and "lre_get_alloc_count bc \<le> length capture" "cindex \<le> length cbuf"
    and "lre_exec ra' timeout capture bc cbuf cindex cbuf_type = Some r"
  shows "\<exists>ret c. r = Exit ret c \<and> (ret = 1 \<longrightarrow> lre_get_alloc_count bc \<le> length c \<and>
    (\<forall>i < 2 * lre_get_capture_count bc. c ! i = CapNull \<or> (\<exists>p \<le> length cbuf. c ! i = CapPtr p)))"
proof -
  obtain A where "wt_code bc A" using lre_compile_well_typed [OF assms(1,2)] by blast
  from lre_exec_safe [OF this assms(3-5)] show ?thesis unfolding val_ok_pos_iff .
qed

lemma compiled_code_runs_safely_witness:
  "\<exists>ret c. Exit 1 [CapPtr 0, CapPtr 2, CapNull] = (Exit ret c :: re_state re_res) \<and> (ret = 1 \<longrightarrow>
      lre_get_alloc_count loop_example \<le> length c \<and>
      (\<forall>i < 2 * lre_get_capture_count loop_example.
         c ! i = CapNull \<or> (\<exists>p \<le> length [97 :: u32, 97, 98]. c ! i = CapPtr p)))"
proof -
  have "lre_get_alloc_count loop_example \<le> length [CapNull, CapNull, CapPtr 7]" by code_simp
  moreover have "(0 :: nat) \<le> length [97 :: u32, 97, 98]" by simp
  ultimately show ?thesis
    by (rule compiled_code_runs_safely [OF _ loop_pattern_compiles _ _ loop_example_run, rotated]) simp
qed

end
