(* ===== verification/ReInterface.thy ===== *)
theory ReInterface
  imports ReWrapper RegexpCompile
begin

text \<open>
  The rest of \<open>libregexp/re_wrapper.c\<close>: the construction of a compiled expression and the
  life of the shared object the engine holds pointers to.
\<close>

subsection \<open>Compiling\<close>

text \<open>
  What is stored through \<open>error_msg\<close>, \<open>None\<close> for nothing: \<open>strncpy\<close> with room for the
  terminator. A null \<open>error_msg\<close> is size 0.
\<close>

definition store_error :: "nat \<Rightarrow> string \<Rightarrow> string option" where
  "store_error error_msg_size msg = (if error_msg_size > 0 then Some (take (error_msg_size - 1) msg) else None)"

abbreviation (input) "RE_COMPILED_SIZE \<equiv> (24 :: nat)"

text \<open>
  \<open>ma\<close> answers \<open>malloc\<close>, \<open>ra\<close> the \<open>lre_realloc\<close> of the pattern compiler. The pattern is
  followed by a terminator, as \<open>lre_compile\<close> requires. The result is the new expression, or
  \<open>None\<close> for the null pointer, with the message.
\<close>

definition re_compile ::
    "realloc_func \<Rightarrow> realloc_func \<Rightarrow> u8 list \<Rightarrow> u32 \<Rightarrow> nat \<Rightarrow> (re_compiled option \<times> string option) parsed" where
  "re_compile ma ra pattern flags error_msg_size =
     (case re_compile_flags flags of
        None \<Rightarrow> Parsed (None, store_error error_msg_size ''invalid regular expression flags'')
      | Some lre_flags \<Rightarrow>
          let is_unicode_mode = (lre_flags AND (LRE_FLAG_UNICODE OR LRE_FLAG_UNICODE_SETS) \<noteq> 0);
              utf8_pattern = (if is_unicode_mode then cesu8_pattern_to_utf8 ma pattern else None)
          in if is_unicode_mode \<and> length pattern > 0 \<and> utf8_pattern = None then
               Parsed (None, store_error error_msg_size ''out of memory'')
             else
               case lre_compile (case utf8_pattern of None \<Rightarrow> pattern | Some u \<Rightarrow> u) lre_flags ra of
                 Parsed bc \<Rightarrow>
                   if ma RE_COMPILED_SIZE then
                     Parsed (Some \<lparr>re_bc = bc, re_capture_count = lre_get_capture_count bc, re_refcount = 1\<rparr>,
                       store_error error_msg_size '''')
                   else Parsed (None, None)
               | Rejected s \<Rightarrow> Parsed (None, store_error error_msg_size (ps_error s))
               | Hangs \<Rightarrow> Hangs
               | Crashed \<Rightarrow> Crashed
               | Out_of_fuel \<Rightarrow> Out_of_fuel)"



lemma re_compile_code:
  assumes "re_compile ma ra pattern flags error_msg_size = Parsed (Some re, msg)"
  obtains buf lre_flags where "lre_compile buf lre_flags ra = Parsed (re_bc re)"
    "re_capture_count re = lre_get_capture_count (re_bc re)" "re_refcount re = 1"
  using assms unfolding re_compile_def Let_def
  by (auto split: option.splits if_splits parsed.splits)

subsection \<open>References\<close>

text \<open>
  The object behind a pointer; a pointer is an \<open>option\<close>, \<open>None\<close> for null. The operations
  return the object afterwards, or \<open>None\<close> when the behaviour is undefined: a freed object is
  used, or the \<open>int\<close> overflows.
\<close>

datatype re_object = Live re_compiled | Freed

abbreviation (input) "INT_MAX \<equiv> (2147483647 :: int)"
abbreviation (input) "INT_MIN \<equiv> (- 2147483648 :: int)"

fun re_free :: "re_object option \<Rightarrow> re_object option option" where
  "re_free None = Some None"
| "re_free (Some Freed) = None"
| "re_free (Some (Live re)) =
     (if re_refcount re = INT_MIN then None
      else let re' = re\<lparr>re_refcount := re_refcount re - 1\<rparr>
           in if re_refcount re' > 0 then Some (Some (Live re')) else Some (Some Freed))"

fun re_ref :: "re_object option \<Rightarrow> re_object option option" where
  "re_ref None = Some None"
| "re_ref (Some Freed) = None"
| "re_ref (Some (Live re)) =
     (if re_refcount re = INT_MAX then None
      else Some (Some (Live (re\<lparr>re_refcount := re_refcount re + 1\<rparr>))))"

text \<open>A history of calls on one pointer, and the references that are out after it.\<close>

datatype ref_call = Take | Release

primrec ref_calls :: "ref_call list \<Rightarrow> re_object option \<Rightarrow> re_object option option" where
  "ref_calls [] re = Some re"
| "ref_calls (c # cs) re = (case c of Take \<Rightarrow> re_ref re | Release \<Rightarrow> re_free re) \<bind> ref_calls cs"

primrec holders :: "int \<Rightarrow> ref_call list \<Rightarrow> int" where
  "holders n [] = n"
| "holders n (c # cs) = holders (case c of Take \<Rightarrow> n + 1 | Release \<Rightarrow> n - 1) cs"

text \<open>
  The histories the interface admits: nobody calls after the last reference is gone, and
  there are never more references than an \<open>int\<close> counts.
\<close>

primrec admitted :: "int \<Rightarrow> ref_call list \<Rightarrow> bool" where
  "admitted n [] = True"
| "admitted n (c # cs) =
     (let m = (case c of Take \<Rightarrow> n + 1 | Release \<Rightarrow> n - 1) in 0 < n \<and> m \<le> INT_MAX \<and> admitted m cs)"

lemma ref_calls_freed: "ref_calls cs (Some Freed) = (if cs = [] then Some (Some Freed) else None)"
  by (cases cs) (auto split: ref_call.split)

lemma admitted_freed: "admitted 0 cs = (cs = [])" "holders 0 [] = 0"
  by (cases cs) (simp_all add: Let_def)

lemma ref_calls_live:
  "0 < n \<Longrightarrow> n \<le> INT_MAX \<Longrightarrow>
   ref_calls cs (Some (Live (re\<lparr>re_refcount := n\<rparr>))) =
     (if admitted n cs
      then Some (Some (if 0 < holders n cs then Live (re\<lparr>re_refcount := holders n cs\<rparr>) else Freed))
      else None)"
proof (induction cs arbitrary: n)
  case (Cons c cs)
  show ?case
  proof (cases c)
    case Take
    then show ?thesis using Cons.IH [of "n + 1"] Cons.prems by (simp add: Let_def)
  next
    case Release
    show ?thesis
    proof (cases "n = 1")
      case True
      then show ?thesis using Release by (simp add: Let_def ref_calls_freed admitted_freed)
    next
      case False
      then show ?thesis using Release Cons.IH [of "n - 1"] Cons.prems by (simp add: Let_def)
    qed
  qed
qed simp

lemma admitted_prefixes:
  "0 < n \<Longrightarrow> n \<le> INT_MAX \<Longrightarrow> admitted n cs \<longleftrightarrow>
     (\<forall>i < length cs. 0 < holders n (take i cs)) \<and> (\<forall>i \<le> length cs. holders n (take i cs) \<le> INT_MAX)"
proof (induction cs arbitrary: n)
  case (Cons c cs)
  let ?m = "case c of Take \<Rightarrow> n + 1 | Release \<Rightarrow> n - 1"
  have all: "(\<forall>i < Suc k. P i) \<longleftrightarrow> P 0 \<and> (\<forall>i < k. P (Suc i))" "(\<forall>i \<le> Suc k. P i) \<longleftrightarrow> P 0 \<and> (\<forall>i \<le> k. P (Suc i))"
    for P and k :: nat
    by (simp_all only: less_Suc_eq_le [symmetric] All_less_Suc2)
  show ?case
  proof (cases "0 < ?m \<and> ?m \<le> INT_MAX")
    case True
    then show ?thesis using Cons.IH [of ?m] Cons.prems by (simp add: Let_def all)
  next
    case False
    then consider "?m = 0" | "?m > INT_MAX" using Cons.prems by (auto split: ref_call.splits)
    then show ?thesis
    proof cases
      case 1
      then show ?thesis using Cons.prems by (cases cs) (auto simp: Let_def all admitted_freed)
    next
      case 2
      then show ?thesis using Cons.prems by (auto simp: Let_def all)
    qed
  qed
qed simp

subsection \<open>Properties\<close>

text \<open>C21: the expression \<open>re_compile\<close> returns is freed by the release of its last reference, not
before and not later: after any history of \<open>re_ref\<close> and \<open>re_free\<close> on it, the object holds the
number of references that are out, or it is freed when there are none; and the behaviour is
undefined exactly when somebody uses it after that or takes more references than an \<open>int\<close>
counts.\<close>

theorem re_free_at_last_reference:
  assumes "re_compile ma ra pattern flags error_msg_size = Parsed (Some re, msg)"
  shows "ref_calls cs (Some (Live re)) =
    (if (\<forall>i < length cs. 0 < holders 1 (take i cs)) \<and> (\<forall>i \<le> length cs. holders 1 (take i cs) \<le> INT_MAX)
     then Some (Some (if 0 < holders 1 cs then Live (re\<lparr>re_refcount := holders 1 cs\<rparr>) else Freed))
     else None)"
proof -
  have "re = re\<lparr>re_refcount := 1\<rparr>" using assms by (rule re_compile_code) simp
  then show ?thesis using ref_calls_live [of 1 cs re] admitted_prefixes [of 1 cs] by simp
qed

definition loop_expression :: re_compiled where
  "loop_expression = \<lparr>re_bc = loop_example, re_capture_count = 1, re_refcount = 1\<rparr>"

lemma loop_expression_compiled:
  "re_compile (\<lambda>n. True) (\<lambda>n. True) loop_pattern RE_FLAG_STICKY 80 = Parsed (Some loop_expression, Some '''')"
proof -
  have "re_compile_flags RE_FLAG_STICKY = Some LRE_FLAG_STICKY" by code_simp
  moreover have "lre_get_capture_count loop_example = 1" by code_simp
  ultimately show ?thesis
    by (simp add: re_compile_def loop_pattern_compiles store_error_def loop_expression_def)
qed

theorem re_free_at_last_reference_witness:
  "ref_calls [Take, Release, Release] (Some (Live loop_expression)) = Some (Some Freed) \<and>
   ref_calls [Release, Take] (Some (Live loop_expression)) = None"
proof
  have "\<forall>i < length [Take, Release, Release]. 0 < holders 1 (take i [Take, Release, Release])"
    "\<forall>i \<le> length [Take, Release, Release]. holders 1 (take i [Take, Release, Release]) \<le> INT_MAX"
    by (auto simp: less_Suc_eq le_Suc_eq numeral_2_eq_2 numeral_3_eq_3)
  then show "ref_calls [Take, Release, Release] (Some (Live loop_expression)) = Some (Some Freed)"
    by (subst re_free_at_last_reference [OF loop_expression_compiled]) simp
  have "\<not> (\<forall>i < length [Release, Take]. 0 < holders 1 (take i [Release, Take]))"
    by (auto simp: less_Suc_eq intro!: exI [of _ 1])
  then show "ref_calls [Release, Take] (Some (Live loop_expression)) = None"
    by (subst re_free_at_last_reference [OF loop_expression_compiled]) simp
qed

text \<open>C10: an expression that \<open>re_compile\<close> returned can be run: for any pattern and flags, when the
compiler's allocations succeed and the captures and registers fit the 512 slots of the
wrapper's buffer, a run on any input from a start inside it has no undefined behaviour,
whatever the buffer holds before and whichever allocations of the run fail.\<close>

theorem compiled_expression_runs_safely:
  assumes "\<forall>n. ra n" "re_compile ma ra pattern flags error_msg_size = Parsed (Some re, msg)"
    and "lre_get_alloc_count (re_bc re) \<le> 512" "length stack_slots = 512" "start_offset \<le> length input"
  shows "re_run ma' ra' stack_slots (Some re) input start_offset input_is_ascii max_captures \<noteq> Some None"
proof -
  obtain buf lre_flags where c: "lre_compile buf lre_flags ra = Parsed (re_bc re)"
    "re_capture_count re = lre_get_capture_count (re_bc re)"
    using assms(2) by (rule re_compile_code)
  obtain A where "wt_code (re_bc re) A" "0 < re_capture_count re"
    using lre_compile_result [OF assms(1) c(1)] c(2) by auto
  with c(2) assms(3-5) show ?thesis by (intro re_run_no_undefined)
qed

theorem compiled_expression_runs_safely_witness:
  "re_run (\<lambda>n. False) (\<lambda>n. False) (replicate 512 (CapPtr 9)) (Some loop_expression) [97, 97, 98] 0 False 9
     \<noteq> Some None"
  by (rule compiled_expression_runs_safely [OF _ loop_expression_compiled])
    (simp_all add: loop_expression_def lre_get_alloc_count_def loop_example_def)












end
