(* ===== verification/UnicodeLookup.thy ===== *)
theory UnicodeLookup
  imports UnicodeProps
begin

text \<open>
  The indexed lookups of \<open>libregexp/libunicode.c\<close> on the tables of the source: every index
  fits its table, so \<open>lre_is_id_start\<close> and its relatives read inside their tables, terminate,
  and answer membership in the very set that \<open>unicode_prop1\<close> decodes from the same table.
\<close>

lemma nums_uint: "nums ws = map uint ws"
  by simp

subsection \<open>The indexes of the source\<close>

lemma id_start_fits:
  "index_fits (map uint (index_entries unicode_prop_ID_Start_index)) 0 0 0 False (map uint unicode_prop_ID_Start_table)"
  by code_simp

lemma case_ignorable_fits:
  "index_fits (map uint (index_entries unicode_prop_Case_Ignorable_index)) 0 0 0 False
     (map uint unicode_prop_Case_Ignorable_table)"
  by code_simp

lemma id_continue1_fits:
  "index_fits (map uint (index_entries unicode_prop_ID_Continue1_index)) 0 0 0 False
     (map uint unicode_prop_ID_Continue1_table)"
  by code_simp

lemma white_space_fits:
  "index_fits (map uint (index_entries unicode_prop_White_Space_index)) 0 0 0 False
     (map uint unicode_prop_White_Space_table)"
  by code_simp

lemma cased1_fits:
  "index_fits (map uint (index_entries unicode_prop_Cased1_index)) 0 0 0 False (map uint unicode_prop_Cased1_table)"
  by code_simp

lemma index_shapes:
  "\<forall>ix \<in> {unicode_prop_ID_Start_index, unicode_prop_Case_Ignorable_index, unicode_prop_ID_Continue1_index,
           unicode_prop_White_Space_index, unicode_prop_Cased1_index}.
     length ix div 3 = length (index_entries ix) \<and> last (map uint (index_entries ix)) < 0x200000"
  by (simp add: unicode_prop_ID_Start_index_def unicode_prop_Case_Ignorable_index_def
      unicode_prop_ID_Continue1_index_def unicode_prop_White_Space_index_def unicode_prop_Cased1_index_def)

lemma prop_table_entries:
  "unicode_prop_table ! UNICODE_PROP_ID_Start = unicode_prop_ID_Start_table"
  "unicode_prop_table ! 55 = unicode_prop_Case_Ignorable_table"
  "unicode_prop_table ! UNICODE_PROP_ID_Continue1 = unicode_prop_ID_Continue1_table"
  "unicode_prop_table ! 45 = unicode_prop_White_Space_table" "length unicode_prop_table = 56"
  by (simp_all add: unicode_prop_table_def)

lemma lookup_is_decoded:
  assumes "index_fits (map uint (index_entries ix)) 0 0 0 False (map uint (unicode_prop_table ! k))"
    and ix: "length ix div 3 = length (index_entries ix) \<and> last (map uint (index_entries ix)) < 0x200000"
    and k: "k < length unicode_prop_table" and cr: "cr_points cr = []" "\<And>n. cr_realloc_func cr n"
  shows "\<exists>cr'. unicode_prop1 cr k = Some (0, cr') \<and> cr_wf (cr_points cr')
     \<and> (\<forall>c. lre_is_in_table c (unicode_prop_table ! k) ix (length ix div 3) = Some (c \<in> cr_set (cr_points cr')))"
proof -
  obtain rs e where rs: "prop_runs (unicode_prop_table ! k) = Some rs" "runs_end 0 rs = Some e"
    and look: "\<And>c. lre_is_in_table c (unicode_prop_table ! k) ix (length ix div 3) = Some (run_at c 0 False rs)"
    using lookup_correct [of ix "unicode_prop_table ! k"] assms(1) ix unfolding nums_uint by blast
  obtain cr' where cr': "prop1_loop 0 False (unicode_prop_table ! k) cr = Some (0, cr')"
      "cr_points cr' = unpairs (run_intervals 0 False rs)"
    using prop1_loop_runs [OF cr(2) rs(1), of 0 False] cr(1) by auto
  have s: "sorted (cr_points cr')" using run_intervals_bounds [OF rs(2), of False] cr'(2) by simp
  have "cr_mem (cr_points cr') c = run_at c 0 False rs" for c
    using s cr_mem_unpairs [of "run_intervals 0 False rs" c] run_intervals_mem [OF rs(2), of c False] cr'(2) by simp
  then show ?thesis using cr'(1) s look k by (simp add: unicode_prop1_def cr_wf_def cr'(2) cr_set_def)
qed

subsection \<open>Properties\<close>

text \<open>C7: Identifier characters.
For every code point (every 32-bit value) \<open>lre_is_id_start\<close> returns, without reading
outside its tables, and its answer is membership in the set that \<open>unicode_prop1\<close> decodes for
\<open>ID_Start\<close>; \<open>lre_is_id_continue\<close> answers membership in the union of that set and the one of
\<open>ID_Continue1\<close>. So the indexed search and the full scan of the table agree.\<close>

theorem identifier_lookup_is_property:
  assumes "cr_points cr = []" and "\<And>n. cr_realloc_func cr n"
  shows "\<exists>start cont. unicode_prop1 cr UNICODE_PROP_ID_Start = Some (0, start) \<and> cr_wf (cr_points start)
    \<and> unicode_prop1 cr UNICODE_PROP_ID_Continue1 = Some (0, cont) \<and> cr_wf (cr_points cont)
    \<and> (\<forall>c. lre_is_id_start c = Some (c \<in> cr_set (cr_points start))
         \<and> lre_is_id_continue c = Some (c \<in> cr_set (cr_points start) \<union> cr_set (cr_points cont)))"
proof -
  have k: "UNICODE_PROP_ID_Start < length unicode_prop_table" "UNICODE_PROP_ID_Continue1 < length unicode_prop_table"
    by (simp_all add: prop_table_entries)
  obtain start where start: "unicode_prop1 cr UNICODE_PROP_ID_Start = Some (0, start)" "cr_wf (cr_points start)"
      "\<And>c. lre_is_id_start c = Some (c \<in> cr_set (cr_points start))"
    using lookup_is_decoded [OF id_start_fits [folded prop_table_entries] _ k(1) assms] index_shapes
    by (auto simp: lre_is_id_start_def prop_table_entries)
  obtain cont where cont: "unicode_prop1 cr UNICODE_PROP_ID_Continue1 = Some (0, cont)" "cr_wf (cr_points cont)"
      "\<And>c. lre_is_in_table c unicode_prop_ID_Continue1_table unicode_prop_ID_Continue1_index
           (length unicode_prop_ID_Continue1_index div 3) = Some (c \<in> cr_set (cr_points cont))"
    using lookup_is_decoded [OF id_continue1_fits [folded prop_table_entries] _ k(2) assms] index_shapes
    by (auto simp: prop_table_entries)
  have "lre_is_id_continue c = Some (c \<in> cr_set (cr_points start) \<union> cr_set (cr_points cont))" for c
    using start(3) [of c] cont(3) [of c] by (auto simp: lre_is_id_continue_def split: bool.splits)
  then show ?thesis using start cont by blast
qed

theorem identifier_lookup_is_property_witness:
  "\<exists>start. unicode_prop1 (cr_init (\<lambda>n. True)) UNICODE_PROP_ID_Start = Some (0, start)
     \<and> lre_is_id_start 0x41 = Some (0x41 \<in> cr_set (cr_points start))"
  using identifier_lookup_is_property [of "cr_init (\<lambda>n. True)"] by (auto simp: cr_init_def)

text \<open>C8: White space and case-ignorable characters.
\<open>lre_is_white_space\<close> and \<open>lre_is_case_ignorable\<close> return for every 32-bit value and answer
membership in the sets that \<open>unicode_prop1\<close> decodes for \<open>White_Space\<close> and \<open>Case_Ignorable\<close>,
and \<open>lre_is_cased\<close>, which has no property table of its own, returns for every value, with
True where the case table has an entry.\<close>

theorem class_lookup_is_property:
  assumes "cr_points cr = []" and "\<And>n. cr_realloc_func cr n"
  shows "\<exists>space ignorable. unicode_prop1 cr 45 = Some (0, space) \<and> unicode_prop1 cr 55 = Some (0, ignorable)
    \<and> (\<forall>c. lre_is_white_space c = Some (c \<in> cr_set (cr_points space))
         \<and> lre_is_case_ignorable c = Some (c \<in> cr_set (cr_points ignorable))
         \<and> (\<exists>b. lre_is_cased c = Some b \<and> (case_search c \<noteq> None \<longrightarrow> b)))"
proof -
  have k: "45 < length unicode_prop_table" "55 < length unicode_prop_table"
    by (simp_all add: prop_table_entries)
  obtain space where space: "unicode_prop1 cr 45 = Some (0, space)"
      "\<And>c. lre_is_white_space c = Some (c \<in> cr_set (cr_points space))"
    using lookup_is_decoded [OF white_space_fits [folded prop_table_entries] _ k(1) assms] index_shapes
    by (auto simp: lre_is_white_space_def prop_table_entries)
  obtain ig where ig: "unicode_prop1 cr 55 = Some (0, ig)"
      "\<And>c. lre_is_case_ignorable c = Some (c \<in> cr_set (cr_points ig))"
    using lookup_is_decoded [OF case_ignorable_fits [folded prop_table_entries] _ k(2) assms] index_shapes
    by (auto simp: lre_is_case_ignorable_def prop_table_entries)
  have "\<exists>b. lre_is_cased c = Some b \<and> (case_search c \<noteq> None \<longrightarrow> b)" for c
    using lookup_correct [of unicode_prop_Cased1_index unicode_prop_Cased1_table] cased1_fits index_shapes
    unfolding nums_uint by (auto simp: lre_is_cased_def)
  with space ig show ?thesis by blast
qed

theorem class_lookup_is_property_witness:
  "\<exists>space. unicode_prop1 (cr_init (\<lambda>n. True)) 45 = Some (0, space)
     \<and> lre_is_white_space 0x20 = Some (0x20 \<in> cr_set (cr_points space))"
  using class_lookup_is_property [of "cr_init (\<lambda>n. True)"] by (auto simp: cr_init_def)

end
