(* ===== verification/Spec2Isabelle.thy ===== *)
theory Spec2Isabelle
  imports ReInterface UnicodeLookup
begin

text \<open>
  \<^bold>\<open>The regular expression and Unicode library of the engine\<close>

  The engine is a JavaScript engine written mostly in C3; its regular expressions are the C
  library under \<open>libregexp/\<close>. This development models that library: the functions are
  translated one by one from the C sources, and the theorems say what makes them correct.

  \<^bold>\<open>The parts and how they interact\<close>

  A JavaScript expression goes through \<open>re_compile\<close> (\<open>re_wrapper.c\<close>), which converts the
  engine's CESU-8 pattern and calls \<open>lre_compile\<close> (\<open>libregexp.c\<close>). The compiler is a recursive
  descent parser that appends instructions to a growable byte buffer (\<open>DynBuf\<close> of \<open>cutils.h\<close>).
  Character classes are sets of code points (\<open>CharRange\<close> of \<open>libunicode.c\<close>), with a hash table
  of strings beside them under the v flag (\<open>REStringList\<close>); they come from the compressed
  Unicode tables (\<open>libunicode-table.h\<close>) and are folded for the i flag. A linear pass then
  numbers the registers of the loops. \<open>re_run\<close> converts the subject to UTF-16 code units when
  it is not ASCII and calls the backtracking matcher \<open>lre_exec\<close>, whose stack of cells holds
  the choice points and an undo log of the captures.

  \<^bold>\<open>Which theory models what\<close>

  \<^item> \<open>Prelude\<close>: word types, bounded reads, generic lemmas. \<open>Cutils\<close>: byte order, surrogates,
    hexadecimal digits, UTF-8 (\<open>cutils.h\<close>). \<open>DynBuf\<close>: \<open>dyn_buf\<close> is the struct \<open>DynBuf\<close>
    (contents, allocated size, sticky error, allocator). \<open>Rqsort\<close>: \<open>rqsort\<close> of \<open>cutils.h\<close>.
  \<^item> \<open>CharRange\<close>: \<open>char_range\<close> is the struct \<open>CharRange\<close>; \<open>cr_op\<close>, \<open>cr_compress\<close>, \<open>cr_invert\<close>,
    \<open>cr_union_interval\<close> (\<open>libunicode.c\<close>, \<open>libunicode.h\<close>). \<open>CaseTables\<close>, \<open>CaseConv\<close>: the case
    conversion tables, \<open>lre_case_conv\<close>, \<open>lre_canonicalize\<close>, the class tables.
    \<open>CharRangeFold\<close>: \<open>unicode_case1\<close>, \<open>cr_regexp_canonicalize\<close>.
  \<^item> \<open>UnicodeTables\<close>, \<open>UnicodeProps\<close>, \<open>UnicodeLookup\<close>: the generated tables with the data of
    the source, the indexed lookups (\<open>lre_is_in_table\<close> and its clients), the decoders of
    properties, general categories and scripts, the property programs of \<open>unicode_prop\<close>, and
    the emoji sequences.
  \<^item> \<open>StringList\<close>: \<open>re_string_list\<close> is the struct \<open>REStringList\<close>; hashing, search, insertion,
    union, intersection, difference (\<open>libregexp.c\<close>).
  \<^item> \<open>RegexpBytecode\<close>: the opcodes of \<open>libregexp-opcode.h\<close>, the header, the register pass, the
    advance analysis. \<open>RegexpExec\<close>: \<open>lre_exec\<close>; \<open>re_ctx\<close> is \<open>REExecContext\<close>, \<open>re_state\<close> the local
    variables of \<open>lre_exec_backtrack\<close>, \<open>re_fetch\<close> the effect of one instruction, \<open>re_step\<close> one
    turn of its loop.
  \<^item> \<open>RegexpEmit\<close>: \<open>re_parse_state\<close> is \<open>REParseState\<close>, with the functions that emit
    instructions. \<open>RegexpScan\<close>: numbers, escapes, group names, modifiers, the scan that counts
    groups. \<open>RegexpClass\<close>: character classes, property escapes, nested classes.
    \<open>RegexpParse\<close>: terms, quantifiers, alternatives, \<open>lre_compile\<close>.
  \<^item> \<open>ReWrapper\<close>, \<open>ReInterface\<close>: \<open>re_wrapper.c\<close> whole. A \<open>ReCompiled\<close> is a \<open>re_compiled\<close>, a
    pointer to one an \<open>option\<close>, and \<open>re_object\<close> tells a live from a freed object.

  The theories \<open>RegexpRefine\<close>, \<open>RegexpSafety\<close>, \<open>RegexpStructure\<close>, \<open>RegexpAppend\<close>,
  \<open>RegexpAtoms\<close>, \<open>RegexpQuantify\<close> and \<open>RegexpCompile\<close> hold no model of code but the
  specifications and proofs about the matcher and the compiler.

  \<^bold>\<open>What the lemmas show\<close>

  \<^item> The matcher refines an abstract machine that copies all captures at every choice point
    and has no undo log, no cells and no memory to run out of (\<open>RegexpRefine\<close>).
  \<^item> A static typing of byte code (\<open>wt_code\<close>: whole instructions, jumps to instructions,
    registers that hold what is read from them, nested lookaheads) implies that the matcher
    never leaves its arrays (\<open>RegexpSafety\<close>).
  \<^item> What the compiler emits is the encoding of a tree of nested constructs
    (\<open>RegexpStructure\<close>); every emitting function appends such an encoding, the quantifiers
    insert into it (\<open>RegexpAppend\<close>, \<open>RegexpAtoms\<close>, \<open>RegexpQuantify\<close>); the register pass gives
    the tree its registers. So compiled code is well typed and runs safely, through the
    wrapper too as far as its buffer suffices (\<open>RegexpCompile\<close>, \<open>ReInterface\<close>); where it does
    not suffice there is an overflow, which is a theorem as well.
  \<^item> The set operations compute the operations on sets and keep vectors canonical; folding a
    set is the image under \<open>lre_canonicalize\<close>; the operations on string lists compute those on
    languages; an emitted range accepts exactly its set; the indexed lookups agree with the
    decoded properties for every 32-bit value; \<open>rqsort\<close> permutes, sorts and returns.
  \<^item> The conversions of the wrapper: surrogate pairs of a pattern are recombined, the start
    and the captures of a run are mapped between bytes and code units, group names are found
    behind the code, a compiled expression is freed with its last reference.

  The contracts between the parts are locales, each interpreted on the model:
  \<open>byte_sink\<close> (a buffer whose error flag is tested once at the end), \<open>cp_set\<close> (set operations on
  canonical representations), \<open>string_sink\<close> (insertion into a collection that may run out of
  memory), \<open>comparison\<close> (what a comparison function owes the sort).

  \<^bold>\<open>Conventions\<close>

  Machine integers are words where they wrap, \<open>nat\<close> for lengths and offsets, \<open>int\<close> for C
  results and codes. Allocators are parameters that decide by the size of a request; theorems
  about results name the allocations that must not fail, the others hold for every allocator.
  A result of type \<open>'a option\<close> is \<open>None\<close> where the C code would read or write out of bounds, fail an
  assertion or call \<open>abort\<close>; the compiler has its own type of results (\<open>parsed\<close>) and the matcher
  too (\<open>re_res\<close>, with \<open>Stuck\<close> for undefined behaviour). Freeing memory is not modelled except
  for the compiled expression.

  \<^bold>\<open>Bounds and fuel\<close>

  Loops recurse on their data. The mutual recursion of the parser runs on fuel, \<open>scan_fuel s\<close>,
  one more than the length of the pattern: each nested group, class or term consumes at least a
  character of it, and \<open>on_parsed\<close>, which all lemmas about parsing functions establish, excludes
  \<open>Out_of_fuel\<close>. \<open>lre_check_stack_overflow\<close> and \<open>lre_check_timeout\<close> are the constants of the
  wrapper, but the matcher is modelled and proved for any answer of the latter. That
  the matcher ends on every program the compiler makes is not proved: \<open>lre_exec_backtrack\<close> is a
  partial function, and statements about its results hold for runs that end; the refinement
  theorem covers runs that do not. Code is bounded by \<open>2^30 - 1\<close> bytes, the limit in
  \<open>lre_bytecode_realloc\<close>.

  \<^bold>\<open>What is not modelled\<close>

  The parts of the engine written in C3; the debug output under \<open>DUMP_REOP\<close>; normalization and
  the functions over whole strings of \<open>libunicode.c\<close> and \<open>unicode_wrapper.c\<close>; the vendored
  number conversion; \<open>date_math.c\<close>, whose point is IEEE rounding.
\<close>

end
